(* ===== verification/Rust_Std.thy ===== *)
theory Rust_Std
  imports Bmcd_Prelude
begin

text \<open>
  The part of Rust's standard library the modelled code calls on text and addresses. A
  Rust string is a sequence of Unicode scalar values; the model has those below 256, one
  \<open>char\<close> each, so that \<open>chars().count()\<close> is the length of the list. White space and
  control characters are the Unicode ones of that range.
\<close>

section \<open>Characters\<close>

definition newline :: char where "newline = CHR 0x0A"
definition space :: char where "space = CHR 0x20"

definition is_whitespace :: "char \<Rightarrow> bool" where
  "is_whitespace c = (of_char c \<in> {9, 10, 11, 12, 13, 32, 133, 160 :: nat})"

definition is_control :: "char \<Rightarrow> bool" where
  "is_control c = (let n = of_char c :: nat in n < 32 \<or> (127 \<le> n \<and> n < 160))"

definition is_ascii_digit :: "char \<Rightarrow> bool" where
  "is_ascii_digit c = (let n = of_char c :: nat in 48 \<le> n \<and> n \<le> 57)"

definition is_ascii_alphabetic :: "char \<Rightarrow> bool" where
  "is_ascii_alphabetic c =
     (let n = of_char c :: nat in (65 \<le> n \<and> n \<le> 90) \<or> (97 \<le> n \<and> n \<le> 122))"

definition is_ascii_alphanumeric :: "char \<Rightarrow> bool" where
  "is_ascii_alphanumeric c = (is_ascii_alphabetic c \<or> is_ascii_digit c)"

definition to_ascii_lowercase :: "char \<Rightarrow> char" where
  "to_ascii_lowercase c =
     (let n = of_char c :: nat in if 65 \<le> n \<and> n \<le> 90 then char_of (n + 32) else c)"

definition eq_ignore_ascii_case :: "string \<Rightarrow> string \<Rightarrow> bool" where
  "eq_ignore_ascii_case s t = (map to_ascii_lowercase s = map to_ascii_lowercase t)"

section \<open>Splitting, trimming, joining\<close>

fun split_p :: "(char \<Rightarrow> bool) \<Rightarrow> string \<Rightarrow> string list" where
  "split_p P [] = [[]]"
| "split_p P (x # xs) =
     (if P x then [] # split_p P xs
      else (case split_p P xs of [] \<Rightarrow> [[x]] | w # ws \<Rightarrow> (x # w) # ws))"

definition split_on :: "char \<Rightarrow> string \<Rightarrow> string list" where
  "split_on c s = split_p (\<lambda>x. x = c) s"

fun split_once :: "char \<Rightarrow> string \<Rightarrow> (string \<times> string) option" where
  "split_once c [] = None"
| "split_once c (x # xs) =
     (if x = c then Some ([], xs) else map_option (\<lambda>(a, b). (x # a, b)) (split_once c xs))"

definition strip_cr :: "string \<Rightarrow> string" where
  "strip_cr s = (if s \<noteq> [] \<and> last s = CHR 0x0D then butlast s else s)"

text \<open>\<open>str::lines\<close>: a line ends at a newline, an optional carriage return before it is
  dropped, and text after the last newline is a line only if it is not empty.\<close>

definition lines :: "string \<Rightarrow> string list" where
  "lines s =
     (let ps = split_on newline s
      in map strip_cr (butlast ps) @ (if last ps = [] then [] else [last ps]))"

definition split_whitespace :: "string \<Rightarrow> string list" where
  "split_whitespace s = filter (\<lambda>w. w \<noteq> []) (split_p is_whitespace s)"

definition trim :: "string \<Rightarrow> string" where
  "trim s = rev (dropWhile is_whitespace (rev (dropWhile is_whitespace s)))"

definition starts_with :: "string \<Rightarrow> string \<Rightarrow> bool" where
  "starts_with p s = (take (length p) s = p)"

definition ends_with :: "string \<Rightarrow> string \<Rightarrow> bool" where
  "ends_with p s = starts_with (rev p) (rev s)"

definition strip_prefix :: "string \<Rightarrow> string \<Rightarrow> string option" where
  "strip_prefix p s = (if starts_with p s then Some (drop (length p) s) else None)"

fun join :: "string \<Rightarrow> string list \<Rightarrow> string" where
  "join sep [] = []"
| "join sep [x] = x"
| "join sep (x # y # ys) = x @ sep @ join sep (y # ys)"

definition replace_char :: "char \<Rightarrow> string \<Rightarrow> string \<Rightarrow> string" where
  "replace_char c r s = concat (map (\<lambda>x. if x = c then r else [x]) s)"

section \<open>Unsigned integers as decimal text\<close>

definition digit :: "nat \<Rightarrow> char" where
  "digit n = char_of (48 + n)"

fun show_nat :: "nat \<Rightarrow> string" where
  "show_nat n = (if n < 10 then [digit n] else show_nat (n div 10) @ [digit (n mod 10)])"

declare show_nat.simps [simp del]

definition dec_value :: "string \<Rightarrow> nat" where
  "dec_value s = foldl (\<lambda>v c. 10 * v + (of_char c - 48)) 0 s"

text \<open>\<open>str::parse\<close> for an unsigned type with the given largest value: an optional plus
  sign, then digits only and at least one, and no overflow.\<close>

definition parse_uint :: "nat \<Rightarrow> string \<Rightarrow> nat option" where
  "parse_uint bound s =
     (let ds = (case s of [] \<Rightarrow> [] | c # cs \<Rightarrow> if c = CHR ''+'' then cs else s)
      in if ds \<noteq> [] \<and> list_all is_ascii_digit ds \<and> dec_value ds \<le> bound
         then Some (dec_value ds) else None)"

definition parse_u8 :: "string \<Rightarrow> u8 option" where
  "parse_u8 s = map_option of_nat (parse_uint 255 s)"

definition parse_u16 :: "string \<Rightarrow> u16 option" where
  "parse_u16 s = map_option of_nat (parse_uint 65535 s)"

definition parse_u32 :: "string \<Rightarrow> nat option" where
  "parse_u32 s = parse_uint (2 ^ 32 - 1) s"

definition parse_u64 :: "string \<Rightarrow> nat option" where
  "parse_u64 s = parse_uint (2 ^ 64 - 1) s"

section \<open>IPv4 addresses\<close>

text \<open>\<open>Ipv4Addr\<close> is its 32-bit number, as \<open>u32::from\<close> reads it.\<close>

type_synonym ipv4 = "32 word"

definition octets :: "ipv4 \<Rightarrow> nat list" where
  "octets a = (let n = unat a in
     [n div 16777216, n div 65536 mod 256, n div 256 mod 256, n mod 256])"

definition of_octets :: "nat \<Rightarrow> nat \<Rightarrow> nat \<Rightarrow> nat \<Rightarrow> ipv4" where
  "of_octets a b c d = word_of_nat (a * 16777216 + b * 65536 + c * 256 + d)"

definition show_ipv4 :: "ipv4 \<Rightarrow> string" where
  "show_ipv4 a = join ''.'' (map show_nat (octets a))"

definition parse_octet :: "string \<Rightarrow> nat option" where
  "parse_octet s =
     (if s \<noteq> [] \<and> length s \<le> 3 \<and> list_all is_ascii_digit s
         \<and> (length s = 1 \<or> hd s \<noteq> CHR ''0'') \<and> dec_value s \<le> 255
      then Some (dec_value s) else None)"

definition parse_ipv4 :: "string \<Rightarrow> ipv4 option" where
  "parse_ipv4 s =
     (case map parse_octet (split_on CHR ''.'' s) of
        [Some a, Some b, Some c, Some d] \<Rightarrow> Some (of_octets a b c d)
      | _ \<Rightarrow> None)"

definition ipv4_is_loopback :: "ipv4 \<Rightarrow> bool" where
  "ipv4_is_loopback a = (octets a ! 0 = 127)"

definition ipv4_is_multicast :: "ipv4 \<Rightarrow> bool" where
  "ipv4_is_multicast a = (224 \<le> octets a ! 0 \<and> octets a ! 0 \<le> 239)"

definition ipv4_is_unspecified :: "ipv4 \<Rightarrow> bool" where
  "ipv4_is_unspecified a = (a = 0)"

definition ipv4_is_broadcast :: "ipv4 \<Rightarrow> bool" where
  "ipv4_is_broadcast a = (a = - 1)"

definition ipv4_is_link_local :: "ipv4 \<Rightarrow> bool" where
  "ipv4_is_link_local a = (octets a ! 0 = 169 \<and> octets a ! 1 = 254)"

section \<open>Facts about text\<close>

lemma split_p_not_Nil [simp]: "split_p P s \<noteq> []"
  by (induction s) (auto split: list.splits)

lemma split_p_none: "list_all (\<lambda>c. \<not> P c) w \<Longrightarrow> split_p P w = [w]"
  by (induction w) auto

lemma split_p_append:
  "list_all (\<lambda>c. \<not> P c) w \<Longrightarrow> P x \<Longrightarrow> split_p P (w @ x # s) = w # split_p P s"
  by (induction w) auto

lemma split_p_parts: "w \<in> set (split_p P s) \<Longrightarrow> list_all (\<lambda>c. \<not> P c) w"
proof (induction s arbitrary: w)
  case Nil
  then show ?case by simp
next
  case (Cons x xs)
  then show ?case by (cases "split_p P xs") (auto split: if_splits)
qed

lemma split_whitespace_Nil [txt_simps]: "split_whitespace [] = []"
  by (simp add: split_whitespace_def)

lemma split_whitespace_space [txt_simps]:
  "is_whitespace x \<Longrightarrow> split_whitespace (x # s) = split_whitespace s"
  by (simp add: split_whitespace_def)

lemma split_whitespace_word [txt_simps]:
  "list_all (\<lambda>c. \<not> is_whitespace c) w \<Longrightarrow> w \<noteq> [] \<Longrightarrow> split_whitespace w = [w]"
  by (simp add: split_whitespace_def split_p_none)

lemma split_whitespace_word_space [txt_simps]:
  "list_all (\<lambda>c. \<not> is_whitespace c) w \<Longrightarrow> w \<noteq> [] \<Longrightarrow> is_whitespace x \<Longrightarrow>
     split_whitespace (w @ x # s) = w # split_whitespace s"
  by (simp add: split_whitespace_def split_p_append)

lemma split_whitespace_join:
  "list_all (\<lambda>w. list_all (\<lambda>c. \<not> is_whitespace c) w \<and> w \<noteq> []) ws \<Longrightarrow>
     split_whitespace (join [CHR '' ''] ws) = ws"
proof (induction "[CHR '' '']" ws rule: join.induct)
  case (3 x y ys)
  moreover have "is_whitespace (CHR '' '')" by (simp add: is_whitespace_def)
  ultimately show ?case by (auto simp: split_whitespace_word_space)
qed (simp_all add: txt_simps)

text \<open>Text built line by line reads back as the same lines.\<close>

definition unlines :: "string list \<Rightarrow> string" where
  "unlines ls = concat (map (\<lambda>l. l @ [newline]) ls)"

lemma unlines_simps: "unlines [] = []" "unlines (l # ls) = l @ newline # unlines ls"
  by (simp_all add: unlines_def)

lemma unlines_append: "unlines (xs @ ys) = unlines xs @ unlines ys"
  by (simp add: unlines_def)

definition plain_line :: "string \<Rightarrow> bool" where
  "plain_line l = (newline \<notin> set l \<and> (l = [] \<or> last l \<noteq> CHR 0x0D))"

lemma lines_Nil [simp]: "lines [] = []"
  by (simp add: lines_def split_on_def)

lemma lines_Cons: "plain_line l \<Longrightarrow> lines (l @ newline # s) = l # lines s"
proof -
  assume l: "plain_line l"
  then have "split_on newline (l @ newline # s) = l # split_on newline s"
    using split_p_append [of "\<lambda>x. x = newline" l newline s]
    by (auto simp: split_on_def plain_line_def list_all_iff)
  with l show ?thesis
    by (auto simp: lines_def plain_line_def strip_cr_def split_on_def Let_def)
qed

lemma lines_unlines: "list_all plain_line ls \<Longrightarrow> lines (unlines ls) = ls"
  by (induction ls) (simp_all add: unlines_simps lines_Cons)

lemma trim_plain:
  "s = [] \<or> (\<not> is_whitespace (hd s) \<and> \<not> is_whitespace (last s)) \<Longrightarrow> trim s = s"
proof (cases s)
  case (Cons x xs)
  assume "s = [] \<or> (\<not> is_whitespace (hd s) \<and> \<not> is_whitespace (last s))"
  with Cons have *: "\<not> is_whitespace x" "\<not> is_whitespace (last s)" by auto
  then have "dropWhile is_whitespace (rev s) = rev s"
    using Cons by (metis dropWhile_eq_self_iff hd_rev list.discI)
  with * Cons show ?thesis by (simp add: trim_def)
qed (simp add: trim_def)

lemma trim_indent:
  "list_all is_whitespace i \<Longrightarrow> trim (i @ s) = trim s"
  by (simp add: trim_def dropWhile_append list_all_iff)

lemma trim_trim [simp]: "trim (trim s) = trim s"
proof (rule trim_plain)
  define t where "t = dropWhile is_whitespace s"
  define r where "r = dropWhile is_whitespace (rev t)"
  have trim: "trim s = rev r" by (simp add: trim_def t_def r_def)
  obtain p where "rev t = p @ r" unfolding r_def by (metis takeWhile_dropWhile_id)
  then have tr: "t = rev r @ rev p" by (metis rev_append rev_rev_ident)
  show "trim s = [] \<or> \<not> is_whitespace (hd (trim s)) \<and> \<not> is_whitespace (last (trim s))"
  proof (cases "r = []")
    case False
    with tr have "hd (rev r) = hd t" and "t \<noteq> []" by auto
    moreover have "t \<noteq> [] \<Longrightarrow> \<not> is_whitespace (hd t)"
      unfolding t_def by (rule hd_dropWhile)
    moreover have "r \<noteq> [] \<Longrightarrow> \<not> is_whitespace (hd r)"
      unfolding r_def by (rule hd_dropWhile)
    ultimately show ?thesis using False by (simp add: trim last_rev)
  qed (simp add: trim)
qed

lemma starts_with_iff: "starts_with p s \<longleftrightarrow> (\<exists>t. s = p @ t)"
  unfolding starts_with_def by (metis append_eq_conv_conj append_take_drop_id)

lemma ends_with_iff: "ends_with p s \<longleftrightarrow> (\<exists>t. s = t @ p)"
proof -
  have "ends_with p s \<longleftrightarrow> (\<exists>t. rev s = rev p @ t)" by (simp add: ends_with_def starts_with_iff)
  also have "\<dots> \<longleftrightarrow> (\<exists>t. s = t @ p)" by (metis rev_append rev_rev_ident)
  finally show ?thesis .
qed

lemma strip_prefix_Some [simp]: "strip_prefix p s = Some t \<longleftrightarrow> s = p @ t"
  by (auto simp: strip_prefix_def starts_with_iff)

lemma strip_prefix_None: "strip_prefix p s = None \<longleftrightarrow> \<not> starts_with p s"
  by (auto simp: strip_prefix_def)

lemma split_once_append: "c \<notin> set a \<Longrightarrow> split_once c (a @ c # b) = Some (a, b)"
  by (induction a) auto

lemma split_once_SomeD: "split_once c s = Some (a, b) \<Longrightarrow> s = a @ c # b \<and> c \<notin> set a"
  by (induction s arbitrary: a) (auto split: if_splits)

lemma split_once_Some: "split_once c s = Some (a, b) \<longleftrightarrow> s = a @ c # b \<and> c \<notin> set a"
  using split_once_append split_once_SomeD by blast

lemma split_once_None: "split_once c s = None \<longleftrightarrow> c \<notin> set s"
  by (induction s) auto

lemma set_replace_char: "set (replace_char c r s) \<subseteq> (set s - {c}) \<union> set r"
  by (auto simp: replace_char_def split: if_splits)

lemma split_p_snoc: "P x \<Longrightarrow> split_p P (s @ [x]) = split_p P s @ [[]]"
proof (induction s)
  case (Cons y ys)
  then show ?case by (cases "split_p P ys") auto
qed simp

lemma split_whitespace_trailing:
  "list_all is_whitespace t \<Longrightarrow> split_whitespace (s @ t) = split_whitespace s"
proof (induction t rule: rev_induct)
  case (snoc x xs)
  then show ?case
    using split_p_snoc [of is_whitespace x "s @ xs"] by (simp add: split_whitespace_def)
qed simp

lemma split_whitespace_leading:
  "list_all is_whitespace t \<Longrightarrow> split_whitespace (t @ s) = split_whitespace s"
  by (induction t) (simp_all add: split_whitespace_space)

lemma split_whitespace_trim [simp]: "split_whitespace (trim s) = split_whitespace s"
proof -
  define t where "t = dropWhile is_whitespace s"
  have "s = takeWhile is_whitespace s @ t" by (simp add: t_def)
  moreover have "t = trim s @ rev (takeWhile is_whitespace (rev t))"
    by (metis t_def trim_def rev_append rev_rev_ident takeWhile_dropWhile_id)
  moreover have "list_all is_whitespace (takeWhile is_whitespace s)"
    "list_all is_whitespace (rev (takeWhile is_whitespace (rev t)))"
    by (auto simp: list_all_iff dest: set_takeWhileD)
  ultimately show ?thesis
    by (metis split_whitespace_leading split_whitespace_trailing)
qed

text \<open>The first word of a line starts with the line's first character.\<close>

lemma split_whitespace_hd:
  "\<not> is_whitespace c \<Longrightarrow> \<exists>w ws. split_whitespace (c # s) = (c # w) # ws"
  by (cases "split_p is_whitespace s") (auto simp: split_whitespace_def)

lemma set_join: "set (join sep ws) \<subseteq> set sep \<union> (\<Union>w \<in> set ws. set w)"
  by (induction sep ws rule: join.induct) auto

section \<open>Facts about numbers and addresses as text\<close>

lemma digit_cases: "n < 10 \<Longrightarrow> n \<in> {0, 1, 2, 3, 4, 5, 6, 7, 8, 9 :: nat}"
  by auto

lemma of_char_digit [simp]: "n < 10 \<Longrightarrow> of_char (digit n) = 48 + n"
  by (simp add: digit_def)

lemma digit_is_digit [simp]: "n < 10 \<Longrightarrow> is_ascii_digit (digit n)"
  by (simp add: is_ascii_digit_def)

lemma digit_zero: "n < 10 \<Longrightarrow> digit n = CHR ''0'' \<Longrightarrow> n = 0"
  using of_char_digit [of n] by simp

lemma digit_eval [std_simps]:
  "digit 0 = CHR ''0''" "digit 1 = CHR ''1''" "digit (Suc 0) = CHR ''1''" "digit 2 = CHR ''2''" "digit 3 = CHR ''3''" "digit 4 = CHR ''4''"
  "digit 5 = CHR ''5''" "digit 6 = CHR ''6''" "digit 7 = CHR ''7''" "digit 8 = CHR ''8''" "digit 9 = CHR ''9''"
  by (simp_all add: digit_def char_of_eq_iff take_bit_eq_mod)

lemma show_nat_small: "n < 10 \<Longrightarrow> show_nat n = [digit n]"
  by (subst show_nat.simps) simp

lemma show_nat_step: "10 \<le> n \<Longrightarrow> show_nat n = show_nat (n div 10) @ [digit (n mod 10)]"
  by (subst show_nat.simps) simp

lemmas show_nat_eval = show_nat_small show_nat_step digit_eval

lemma show_nat_not_Nil [simp]: "show_nat n \<noteq> []"
  by (subst show_nat.simps) simp

lemma show_nat_digits: "list_all is_ascii_digit (show_nat n)"
proof (induction n rule: show_nat.induct)
  case (1 n)
  then show ?case by (cases "n < 10") (simp_all add: show_nat_small show_nat_step)
qed

lemma dec_value_show_nat [simp]: "dec_value (show_nat n) = n"
proof (induction n rule: show_nat.induct)
  case (1 n)
  show ?case
  proof (cases "n < 10")
    case True
    then show ?thesis by (simp add: show_nat_small dec_value_def)
  next
    case False
    with "1.IH" have "dec_value (show_nat (n div 10)) = n div 10" by simp
    with False show ?thesis by (simp add: show_nat_step dec_value_def)
  qed
qed

lemma show_nat_inj: "show_nat a = show_nat b \<Longrightarrow> a = b"
  by (metis dec_value_show_nat)

lemma show_nat_hd: "hd (show_nat n) = CHR ''0'' \<Longrightarrow> length (show_nat n) = 1"
proof -
  have "0 < n \<Longrightarrow> hd (show_nat n) \<noteq> CHR ''0''"
  proof (induction n rule: show_nat.induct)
    case (1 n)
    then show ?case
      by (cases "n < 10") (auto simp: show_nat_small show_nat_step hd_append dest: digit_zero)
  qed
  moreover assume "hd (show_nat n) = CHR ''0''"
  ultimately have "n = 0" by blast
  then show ?thesis by (simp add: show_nat_small)
qed

lemma length_show_nat_octet: "n < 256 \<Longrightarrow> length (show_nat n) \<le> 3"
proof -
  assume n: "n < 256"
  show ?thesis
  proof (cases "n < 10")
    case True
    then show ?thesis by (simp add: show_nat_small)
  next
    case False
    with n have "n div 10 < 10 \<or> (10 \<le> n div 10 \<and> n div 10 div 10 < 10)" by auto
    with False show ?thesis by (auto simp: show_nat_small show_nat_step)
  qed
qed

lemma parse_octet_show: "n < 256 \<Longrightarrow> parse_octet (show_nat n) = Some n"
  using length_show_nat_octet [of n] show_nat_hd [of n] show_nat_digits [of n]
  by (auto simp: parse_octet_def)

lemma digit_not_ws: "is_ascii_digit c \<Longrightarrow> \<not> is_whitespace c"
  by (auto simp: is_ascii_digit_def is_whitespace_def Let_def)

lemma digit_not_dot: "is_ascii_digit c \<Longrightarrow> c \<noteq> CHR ''.''"
  by (auto simp: is_ascii_digit_def Let_def)

lemma digit_not_plus: "is_ascii_digit c \<Longrightarrow> c \<noteq> CHR ''+''"
  by (auto simp: is_ascii_digit_def Let_def)

lemma parse_uint_show: "n \<le> bound \<Longrightarrow> parse_uint bound (show_nat n) = Some n"
proof -
  assume n: "n \<le> bound"
  obtain c cs where "show_nat n = c # cs" by (cases "show_nat n") auto
  moreover from this have "c \<noteq> CHR ''+''"
    using show_nat_digits [of n] by (auto dest: digit_not_plus)
  ultimately show ?thesis
    using n show_nat_digits [of n] dec_value_show_nat [of n]
    by (simp add: parse_uint_def)
qed

lemma octets_lt: "unat (a :: ipv4) div 16777216 < 256"
proof -
  have "unat a < 2 ^ LENGTH(32)" by (rule unsigned_less)
  then show ?thesis by simp
qed

lemma of_octets_octets:
  "of_octets (unat a div 16777216) (unat a div 65536 mod 256)
     (unat a div 256 mod 256) (unat a mod 256) = a"
proof -
  have "unat a div 16777216 * 16777216 + unat a div 65536 mod 256 * 65536
      + unat a div 256 mod 256 * 256 + unat a mod 256 = unat a"
  proof -
    let ?n = "unat a"
    have "?n = ?n div 256 * 256 + ?n mod 256" by simp
    moreover have "?n div 256 = ?n div 65536 * 256 + ?n div 256 mod 256"
      using div_mult_mod_eq [of "?n div 256" 256] by (simp add: div_mult2_eq [symmetric])
    moreover have "?n div 65536 = ?n div 16777216 * 256 + ?n div 65536 mod 256"
      using div_mult_mod_eq [of "?n div 65536" 256] by (simp add: div_mult2_eq [symmetric])
    ultimately show ?thesis by linarith
  qed
  then show ?thesis by (simp add: of_octets_def)
qed

lemma show_ipv4_shape:
  "show_ipv4 a = show_nat (unat a div 16777216) @ CHR ''.'' #
     show_nat (unat a div 65536 mod 256) @ CHR ''.'' #
     show_nat (unat a div 256 mod 256) @ CHR ''.'' # show_nat (unat a mod 256)"
  by (simp add: show_ipv4_def octets_def Let_def)

lemma show_nat_no_dot: "list_all (\<lambda>c. c \<noteq> CHR ''.'') (show_nat n)"
  using show_nat_digits [of n] by (auto simp: list_all_iff dest: digit_not_dot)

theorem parse_show_ipv4 [simp]: "parse_ipv4 (show_ipv4 a) = Some a"
  by (simp add: parse_ipv4_def show_ipv4_shape split_on_def split_p_append split_p_none
      show_nat_no_dot parse_octet_show octets_lt of_octets_octets)

lemma show_ipv4_chars: "list_all (\<lambda>c. is_ascii_digit c \<or> c = CHR ''.'') (show_ipv4 a)"
  using show_nat_digits by (auto simp: show_ipv4_shape list_all_iff)

lemma show_ipv4_not_Nil [simp]: "show_ipv4 a \<noteq> []"
  by (simp add: show_ipv4_shape)

lemma show_ipv4_no_ws: "list_all (\<lambda>c. \<not> is_whitespace c) (show_ipv4 a)"
proof -
  have "\<not> is_whitespace CHR ''.''" by (simp add: is_whitespace_def)
  then show ?thesis
    using show_ipv4_chars [of a] by (auto simp: list_all_iff dest: digit_not_ws)
qed

lemma show_ipv4_no_slash: "CHR ''/'' \<notin> set (show_ipv4 a)"
  using show_ipv4_chars [of a] by (auto simp: list_all_iff is_ascii_digit_def Let_def)

section \<open>Signed, octal and floating numbers\<close>

text \<open>\<open>str::parse\<close> for a signed type of the given width, \<open>from_str_radix\<close> with radix eight, and
  the texts \<open>f64::from_str\<close> accepts.\<close>

definition parse_sint :: "nat \<Rightarrow> string \<Rightarrow> int option" where
  "parse_sint w s =
     (case s of
        [] \<Rightarrow> None
      | c # cs \<Rightarrow>
          if c = CHR ''-''
          then (if cs \<noteq> [] \<and> list_all is_ascii_digit cs \<and> dec_value cs \<le> 2 ^ (w - 1) then Some (- int (dec_value cs)) else None)
          else map_option int (parse_uint (2 ^ (w - 1) - 1) s))"

definition parse_i32 :: "string \<Rightarrow> int option" where "parse_i32 s = parse_sint 32 s"
definition parse_i64 :: "string \<Rightarrow> int option" where "parse_i64 s = parse_sint 64 s"

definition is_octal_digit :: "char \<Rightarrow> bool" where
  "is_octal_digit c = (let n = of_char c :: nat in 48 \<le> n \<and> n \<le> 55)"

definition oct_value :: "string \<Rightarrow> nat" where
  "oct_value s = foldl (\<lambda>v c. 8 * v + (of_char c - 48)) 0 s"

definition from_str_radix8 :: "nat \<Rightarrow> string \<Rightarrow> nat option" where
  "from_str_radix8 bound s =
     (let ds = (case s of [] \<Rightarrow> [] | c # cs \<Rightarrow> if c = CHR ''+'' then cs else s)
      in if ds \<noteq> [] \<and> list_all is_octal_digit ds \<and> oct_value ds \<le> bound then Some (oct_value ds) else None)"

definition strip_sign :: "string \<Rightarrow> string" where
  "strip_sign s = (case s of [] \<Rightarrow> [] | c # cs \<Rightarrow> if c \<in> {CHR ''+'', CHR ''-''} then cs else s)"

definition is_exponent :: "string \<Rightarrow> bool" where
  "is_exponent s =
     (case s of
        [] \<Rightarrow> True
      | c # cs \<Rightarrow> c \<in> {CHR ''e'', CHR ''E''} \<and> strip_sign cs \<noteq> [] \<and> list_all is_ascii_digit (strip_sign cs))"

definition is_decimal :: "string \<Rightarrow> bool" where
  "is_decimal s =
     (let a = takeWhile is_ascii_digit s; r = dropWhile is_ascii_digit s
      in if r \<noteq> [] \<and> hd r = CHR ''.''
         then (a \<noteq> [] \<or> takeWhile is_ascii_digit (tl r) \<noteq> []) \<and> is_exponent (dropWhile is_ascii_digit (tl r))
         else a \<noteq> [] \<and> is_exponent r)"

definition is_f64 :: "string \<Rightarrow> bool" where
  "is_f64 s =
     (let t = strip_sign s
      in is_decimal t \<or> list_ex (eq_ignore_ascii_case t) [''inf'', ''infinity'', ''nan''])"

lemma parse_uint_bound: "parse_uint bound s = Some n \<Longrightarrow> n \<le> bound"
  by (auto simp: parse_uint_def Let_def split: if_splits)

lemma parse_sint_bound: "0 < w \<Longrightarrow> parse_sint w s = Some i \<Longrightarrow> - (2 ^ (w - 1)) \<le> i \<and> i < 2 ^ (w - 1)"
proof -
  assume "0 < w" and p: "parse_sint w s = Some i"
  then consider (neg) n where "i = - int n" "n \<le> 2 ^ (w - 1)" | (pos) n where "i = int n" "n \<le> 2 ^ (w - 1) - 1"
    by (auto simp: parse_sint_def dest!: parse_uint_bound split: list.splits if_splits)
  then show ?thesis
  proof cases
    case neg
    then have "int n \<le> 2 ^ (w - 1)" by (metis of_nat_le_iff of_nat_numeral of_nat_power)
    moreover have "(0 :: int) < 2 ^ (w - 1)" by simp
    ultimately show ?thesis using neg(1) by linarith
  next
    case pos
    have "(0 :: nat) < 2 ^ (w - 1)" by simp
    with pos(2) have "n < 2 ^ (w - 1)" by linarith
    then have "int n < 2 ^ (w - 1)" by (metis of_nat_less_iff of_nat_numeral of_nat_power)
    moreover have "(0 :: int) < 2 ^ (w - 1)" by simp
    ultimately show ?thesis using pos(1) by linarith
  qed
qed

section \<open>Searching in text\<close>

definition trim_matches :: "(char \<Rightarrow> bool) \<Rightarrow> string \<Rightarrow> string" where
  "trim_matches P s = rev (dropWhile P (rev (dropWhile P s)))"

fun str_contains :: "string \<Rightarrow> string \<Rightarrow> bool" where
  "str_contains p [] = (p = [])"
| "str_contains p (x # xs) = (starts_with p (x # xs) \<or> str_contains p xs)"

fun split_once_str :: "string \<Rightarrow> string \<Rightarrow> (string \<times> string) option" where
  "split_once_str p [] = (if p = [] then Some ([], []) else None)"
| "split_once_str p (x # xs) =
     (if starts_with p (x # xs) then Some ([], drop (length p) (x # xs))
      else map_option (\<lambda>(a, b). (x # a, b)) (split_once_str p xs))"

function trim_start_str :: "string \<Rightarrow> string \<Rightarrow> string" where
  "trim_start_str p s = (if p \<noteq> [] \<and> starts_with p s then trim_start_str p (drop (length p) s) else s)"
  by pat_completeness auto
termination
  by (relation "measure (\<lambda>(p, s). length s)") (auto simp: starts_with_iff)

end
