(* ===== verification/Host_Files.thy ===== *)
theory Host_Files
  imports Rust_Std
begin

text \<open>
  The part of \<open>std::fs\<close> and \<open>std::path\<close> the services call, as an explicit store: names point to
  inodes, so that a hard link shares its contents with the name it was made from. A path is
  a directory and a file name. Contents are text or bytes that are not UTF-8. A name may be
  set to fail: reads, listings and changes of it are then refused, or a write stops early
  on a full disk and leaves what it wrote so far.
\<close>

section \<open>Paths\<close>

type_synonym path = "string \<times> string"

definition with_file_name :: "path \<Rightarrow> string \<Rightarrow> path" where
  "with_file_name p n = (fst p, n)"

text \<open>\<open>Path::with_extension\<close>: what follows the last dot is replaced, unless the only dot is
  the first character.\<close>

fun stem :: "string \<Rightarrow> string" where
  "stem [] = []"
| "stem (c # cs) = (if c = CHR ''.'' \<and> CHR ''.'' \<notin> set cs then [] else c # stem cs)"

definition file_stem :: "string \<Rightarrow> string" where
  "file_stem n = (if stem n = [] then n else stem n)"

definition with_extension :: "path \<Rightarrow> string \<Rightarrow> path" where
  "with_extension p ext = (fst p, file_stem (snd p) @ ''.'' @ ext)"

section \<open>Store\<close>

datatype contents = Utf8 string | NotUtf8 "u8 list"

definition utf8_len :: "char \<Rightarrow> nat" where
  "utf8_len c = (if (of_char c :: nat) < 128 then 1 else 2)"

fun contents_len :: "contents \<Rightarrow> nat" where
  "contents_len (Utf8 s) = sum_list (map utf8_len s)"
| "contents_len (NotUtf8 bs) = length bs"

record inode =
  in_contents :: contents
  in_modified :: instant

datatype io_error = NotFound | AlreadyExists | InvalidData | OtherIo

datatype fault = Refused | Full nat

record fs =
  fs_names :: "(path \<times> nat) list"
  fs_inodes :: "nat \<Rightarrow> inode"
  fs_next :: nat
  fs_time :: instant
  fs_unreadable :: "path list"
  fs_faults :: "(path \<times> fault) list"
  fs_closed_dirs :: "string list"

definition fs_inode :: "fs \<Rightarrow> path \<Rightarrow> inode option" where
  "fs_inode fs p = map_option (fs_inodes fs) (map_of (fs_names fs) p)"

definition fs_exists :: "fs \<Rightarrow> path \<Rightarrow> bool" where
  "fs_exists fs p = (map_of (fs_names fs) p \<noteq> None)"

definition fs_contents :: "fs \<Rightarrow> path \<Rightarrow> contents option" where
  "fs_contents fs p = map_option in_contents (fs_inode fs p)"

text \<open>\<open>metadata\<close>, as the modification time and the length.\<close>

definition fs_metadata :: "fs \<Rightarrow> path \<Rightarrow> (instant \<times> nat) option" where
  "fs_metadata fs p = map_option (\<lambda>i. (in_modified i, contents_len (in_contents i))) (fs_inode fs p)"

definition fs_read :: "fs \<Rightarrow> path \<Rightarrow> (io_error, contents) result" where
  "fs_read fs p =
     (case fs_inode fs p of
        None \<Rightarrow> Inl NotFound
      | Some i \<Rightarrow> if p \<in> set (fs_unreadable fs) then Inl OtherIo else Inr (in_contents i))"

definition fs_read_to_string :: "fs \<Rightarrow> path \<Rightarrow> (io_error, string) result" where
  "fs_read_to_string fs p =
     (case fs_read fs p of
        Inl e \<Rightarrow> Inl e
      | Inr (Utf8 s) \<Rightarrow> Inr s
      | Inr (NotUtf8 _) \<Rightarrow> Inl InvalidData)"

text \<open>\<open>fs::write\<close> truncates a file that is there, keeping its inode, or makes a new one.\<close>

definition fs_put :: "path \<Rightarrow> contents \<Rightarrow> fs \<Rightarrow> fs" where
  "fs_put p c fs =
     (case map_of (fs_names fs) p of
        Some i \<Rightarrow> fs\<lparr>fs_inodes := (fs_inodes fs)(i := \<lparr>in_contents = c, in_modified = fs_time fs\<rparr>)\<rparr>
      | None \<Rightarrow>
          fs\<lparr>fs_names := (p, fs_next fs) # fs_names fs,
             fs_inodes := (fs_inodes fs)
               (fs_next fs := \<lparr>in_contents = c, in_modified = fs_time fs\<rparr>),
             fs_next := Suc (fs_next fs)\<rparr>)"

fun contents_take :: "nat \<Rightarrow> contents \<Rightarrow> contents" where
  "contents_take n (Utf8 s) = Utf8 (take n s)"
| "contents_take n (NotUtf8 bs) = NotUtf8 (take n bs)"

definition fs_write :: "path \<Rightarrow> contents \<Rightarrow> fs \<Rightarrow> (io_error, unit) result \<times> fs" where
  "fs_write p c fs =
     (case map_of (fs_faults fs) p of
        None \<Rightarrow> (Inr (), fs_put p c fs)
      | Some Refused \<Rightarrow> (Inl OtherIo, fs)
      | Some (Full n) \<Rightarrow> (Inl OtherIo, fs_put p (contents_take n c) fs))"

definition fs_unlink :: "path \<Rightarrow> fs \<Rightarrow> fs" where
  "fs_unlink p fs = fs\<lparr>fs_names := filter (\<lambda>(q, _). q \<noteq> p) (fs_names fs)\<rparr>"

definition fs_remove :: "path \<Rightarrow> fs \<Rightarrow> (io_error, unit) result \<times> fs" where
  "fs_remove p fs =
     (if \<not> fs_exists fs p then (Inl NotFound, fs)
      else if map_of (fs_faults fs) p \<noteq> None then (Inl OtherIo, fs)
      else (Inr (), fs_unlink p fs))"

definition fs_rename :: "path \<Rightarrow> path \<Rightarrow> fs \<Rightarrow> (io_error, unit) result \<times> fs" where
  "fs_rename p q fs =
     (case map_of (fs_names fs) p of
        None \<Rightarrow> (Inl NotFound, fs)
      | Some i \<Rightarrow>
          if map_of (fs_faults fs) q \<noteq> None \<or> map_of (fs_faults fs) p \<noteq> None then (Inl OtherIo, fs)
          else if p = q then (Inr (), fs)
          else (Inr (), fs\<lparr>fs_names := (q, i) # filter (\<lambda>(r, _). r \<noteq> p \<and> r \<noteq> q) (fs_names fs)\<rparr>))"

definition fs_hard_link :: "path \<Rightarrow> path \<Rightarrow> fs \<Rightarrow> (io_error, unit) result \<times> fs" where
  "fs_hard_link p q fs =
     (case map_of (fs_names fs) p of
        None \<Rightarrow> (Inl NotFound, fs)
      | Some i \<Rightarrow>
          if fs_exists fs q then (Inl AlreadyExists, fs)
          else if map_of (fs_faults fs) q \<noteq> None then (Inl OtherIo, fs)
          else (Inr (), fs\<lparr>fs_names := (q, i) # fs_names fs\<rparr>))"

definition fs_create_dir_all :: "string \<Rightarrow> fs \<Rightarrow> (io_error, unit) result \<times> fs" where
  "fs_create_dir_all d fs = (if d \<in> set (fs_closed_dirs fs) then (Inl OtherIo, fs) else (Inr (), fs))"

definition fs_read_dir :: "string \<Rightarrow> fs \<Rightarrow> (io_error, string list) result" where
  "fs_read_dir d fs =
     (if d \<in> set (fs_closed_dirs fs) then Inl OtherIo
      else Inr (map snd (filter (\<lambda>p. fst p = d) (map fst (fs_names fs)))))"

section \<open>Facts\<close>

text \<open>The store is well formed when a name stands once and no name points to an inode that has
  not been handed out.\<close>

definition fs_wf :: "fs \<Rightarrow> bool" where
  "fs_wf fs = (distinct (map fst (fs_names fs)) \<and> list_all (\<lambda>(_, i). i < fs_next fs) (fs_names fs))"

lemma map_of_filter_names:
  "map_of (filter (\<lambda>(q, _). P q) xs) p = (if P p then map_of xs p else None)"
  by (induction xs) auto

lemma distinct_filter_names:
  "distinct (map fst xs) \<Longrightarrow> distinct (map fst (filter (\<lambda>(q, _). P q) xs))"
  by (induction xs) auto

lemma fs_wf_lt: "fs_wf fs \<Longrightarrow> map_of (fs_names fs) p = Some i \<Longrightarrow> i < fs_next fs"
  by (auto simp: fs_wf_def list_all_iff dest: map_of_SomeD)

lemma map_of_names_fst: "map_of xs p = None \<longleftrightarrow> p \<notin> fst ` set xs"
  by (simp add: map_of_eq_None_iff)

lemma fs_put_wf: "fs_wf fs \<Longrightarrow> fs_wf (fs_put p c fs)"
  by (auto simp: fs_wf_def fs_put_def list_all_iff map_of_names_fst less_Suc_eq split: option.splits)

lemma fs_write_wf: "fs_wf fs \<Longrightarrow> fs_wf (snd (fs_write p c fs))"
  by (auto simp: fs_write_def fs_put_wf split: option.splits fault.splits)

lemma fs_unlink_wf: "fs_wf fs \<Longrightarrow> fs_wf (fs_unlink p fs)"
  by (auto simp: fs_wf_def fs_unlink_def list_all_iff distinct_filter_names)

lemma fs_remove_wf: "fs_wf fs \<Longrightarrow> fs_wf (snd (fs_remove p fs))"
  by (simp add: fs_remove_def fs_unlink_wf)

lemma fs_wf_Cons:
  "fs_wf fs \<Longrightarrow> i < fs_next fs \<Longrightarrow> names = filter (\<lambda>(r, _). P r) (fs_names fs) \<Longrightarrow>
     q \<notin> fst ` set names \<Longrightarrow> fs_wf (fs\<lparr>fs_names := (q, i) # names\<rparr>)"
  by (auto simp: fs_wf_def list_all_iff distinct_filter_names)

lemma fs_rename_wf: "fs_wf fs \<Longrightarrow> fs_wf (snd (fs_rename p q fs))"
proof (cases "map_of (fs_names fs) p")
  case (Some i)
  assume wf: "fs_wf fs"
  have "q \<notin> fst ` set (filter (\<lambda>(r, _). r \<noteq> p \<and> r \<noteq> q) (fs_names fs))" by auto
  from fs_wf_Cons [OF wf fs_wf_lt [OF wf Some] refl this] wf Some show ?thesis
    by (simp add: fs_rename_def)
qed (simp add: fs_rename_def)

lemma fs_hard_link_wf: "fs_wf fs \<Longrightarrow> fs_wf (snd (fs_hard_link p q fs))"
proof (cases "map_of (fs_names fs) p")
  case (Some i)
  assume wf: "fs_wf fs"
  have "fs_names fs = filter (\<lambda>(r, _). True) (fs_names fs)" by simp
  from fs_wf_Cons [OF wf fs_wf_lt [OF wf Some] this] wf Some show ?thesis
    by (simp add: fs_hard_link_def fs_exists_def map_of_names_fst)
qed (simp add: fs_hard_link_def)

text \<open>What a write does to the names that do not share the written inode.\<close>

definition aliased :: "fs \<Rightarrow> path \<Rightarrow> path \<Rightarrow> bool" where
  "aliased fs p q = (fs_exists fs p \<and> map_of (fs_names fs) p = map_of (fs_names fs) q)"

lemma fs_inode_put: "fs_inode (fs_put p c fs) p = Some \<lparr>in_contents = c, in_modified = fs_time fs\<rparr>"
  by (auto simp: fs_inode_def fs_put_def split: option.splits)

lemma fs_inode_put_other:
  assumes "fs_wf fs" and "q \<noteq> p" and "\<not> aliased fs p q"
  shows "fs_inode (fs_put p c fs) q = fs_inode fs q"
  using assms fs_wf_lt [of fs q]
  by (cases "map_of (fs_names fs) q")
    (auto simp: fs_inode_def fs_put_def aliased_def fs_exists_def split: option.splits)

lemma fs_inode_write_other:
  assumes "fs_wf fs" and "q \<noteq> p" and "\<not> aliased fs p q"
  shows "fs_inode (snd (fs_write p c fs)) q = fs_inode fs q"
  using fs_inode_put_other [OF assms]
  by (auto simp: fs_write_def split: option.splits fault.splits)

lemma fs_inode_unlink: "fs_inode (fs_unlink p fs) q = (if q = p then None else fs_inode fs q)"
  by (simp add: fs_inode_def fs_unlink_def map_of_filter_names)

lemma fs_inode_remove_other: "q \<noteq> p \<Longrightarrow> fs_inode (snd (fs_remove p fs)) q = fs_inode fs q"
  by (simp add: fs_remove_def fs_inode_unlink)

lemma fs_inode_rename_other:
  "r \<noteq> p \<Longrightarrow> r \<noteq> q \<Longrightarrow> fs_inode (snd (fs_rename p q fs)) r = fs_inode fs r"
  by (auto simp: fs_rename_def fs_inode_def map_of_filter_names split: option.splits)

lemma fs_rename_ok:
  "fs_rename p q fs = (Inr (), fs') \<Longrightarrow> fs_inode fs' q = fs_inode fs p"
  by (auto simp: fs_rename_def fs_inode_def split: option.splits if_splits)

lemma fs_rename_err: "fs_rename p q fs = (Inl e, fs') \<Longrightarrow> fs' = fs"
  by (auto simp: fs_rename_def split: option.splits if_splits)

lemma fs_hard_link_ok:
  "fs_hard_link p q fs = (Inr (), fs') \<Longrightarrow> fs_inode fs' q = fs_inode fs p \<and> \<not> fs_exists fs q"
  by (auto simp: fs_hard_link_def fs_inode_def split: option.splits if_splits)

lemma fs_hard_link_err: "fs_hard_link p q fs = (Inl e, fs') \<Longrightarrow> fs' = fs"
  by (auto simp: fs_hard_link_def split: option.splits if_splits)

lemma fs_inode_hard_link_other:
  "r \<noteq> q \<Longrightarrow> fs_inode (snd (fs_hard_link p q fs)) r = fs_inode fs r"
  by (auto simp: fs_hard_link_def fs_inode_def split: option.splits)

lemma fs_write_iff: "fs_write p c fs = (Inr u, fs') \<longleftrightarrow> map_of (fs_faults fs) p = None \<and> fs' = fs_put p c fs"
  by (auto simp: fs_write_def split: option.splits fault.splits)

text \<open>A name whose inode no other name has.\<close>

definition unshared :: "fs \<Rightarrow> path \<Rightarrow> bool" where
  "unshared fs p = (\<forall>q. q \<noteq> p \<longrightarrow> \<not> aliased fs p q)"

lemma unsharedD: "unshared fs p \<Longrightarrow> q \<noteq> p \<Longrightarrow> \<not> aliased fs p q"
  unfolding unshared_def by blast

lemma not_exists_unshared: "\<not> fs_exists fs p \<Longrightarrow> unshared fs p"
  by (simp add: unshared_def aliased_def)

end
