(* ===== verification/Persistency.thy ===== *)
theory Persistency
  imports Host_Files
begin

text \<open>
  \<^verbatim>\<open>bmcd/src/persistency/binary_persistency.rs\<close> and \<^verbatim>\<open>app_persistency.rs\<close>: the key-value store
  the daemon keeps its state in, its binary file, and the task that writes it some time after
  the last change. Bincode and the hash of a key are fields of a codec; a value is its encoded
  bytes. The watch channel is its last value and whether the writer has seen it; the writer is
  gone once it has returned.
\<close>

type_synonym bytes = "u8 list"

section \<open>The store\<close>

definition BINARY_VERSION :: u32 where "BINARY_VERSION = 1"

definition BINARY_MAGIC :: bytes where "BINARY_MAGIC = map of_char ''TMAPPDB''"

record persistency_header =
  ph_version :: u32
  ph_magic :: bytes
  ph_data_size :: u32
  ph_data_offset :: u16

record bincode =
  bc_header :: "persistency_header \<Rightarrow> bytes"
  bc_header_de :: "bytes \<Rightarrow> persistency_header option"
  bc_map :: "(u64 \<rightharpoonup> bytes) \<Rightarrow> bytes"
  bc_map_de :: "bytes \<Rightarrow> (u64 \<rightharpoonup> bytes) option"
  bc_hash :: "string \<Rightarrow> u64"

definition header_new :: "bincode \<Rightarrow> persistency_header" where
  "header_new bc =
     (let header = \<lparr>ph_version = BINARY_VERSION, ph_magic = BINARY_MAGIC, ph_data_size = 0, ph_data_offset = 0\<rparr>
      in header\<lparr>ph_data_offset := word_of_nat (length (bc_header bc header))\<rparr>)"

definition header_serialized_size :: "bincode \<Rightarrow> nat" where
  "header_serialized_size bc = length (bc_header bc (header_new bc))"

datatype persistency_error =
    UnknownFormat
  | UnsupportedVersion u32
  | SerializationError string
  | PersistIo io_error
  | UnknownKey string

record store =
  ps_cache :: "u64 \<rightharpoonup> bytes"
  ps_observer :: bool
  ps_dirty :: bool

definition try_load_data :: "bincode \<Rightarrow> bytes \<Rightarrow> (persistency_error, u64 \<rightharpoonup> bytes) result" where
  "try_load_data bc source =
     (case bc_header_de bc source of
        None \<Rightarrow> Inl (SerializationError ''header deserialization'')
      | Some header \<Rightarrow>
          if ph_magic header \<noteq> BINARY_MAGIC then Inl UnknownFormat
          else if ph_version header \<noteq> BINARY_VERSION then Inl (UnsupportedVersion (ph_version header))
          else (case bc_map_de bc (drop (unat (ph_data_offset header)) source) of
                  None \<Rightarrow> Inl (SerializationError ''cache load'')
                | Some data \<Rightarrow> Inr data))"

definition try_deserialize_source ::
  "bincode \<Rightarrow> bytes \<Rightarrow> (u64 \<rightharpoonup> bytes) \<Rightarrow> (persistency_error, unit) result \<times> (u64 \<rightharpoonup> bytes)" where
  "try_deserialize_source bc source destination =
     (if header_serialized_size bc \<le> length source
      then (case try_load_data bc source of
              Inl e \<Rightarrow> (Inl e, destination)
            | Inr data \<Rightarrow> (Inr (), destination ++ data))
      else if source = [] then (Inr (), destination)
      else (Inl UnknownFormat, destination))"

definition store_new :: "bincode \<Rightarrow> (string \<times> bytes) list \<Rightarrow> bytes \<Rightarrow> store" where
  "store_new bc keys source =
     (let cache = map_of (rev (map (\<lambda>(k, v). (bc_hash bc k, v)) keys))
      in \<lparr>ps_cache = snd (try_deserialize_source bc source cache), ps_observer = False, ps_dirty = False\<rparr>)"

text \<open>The bytes \<open>write\<close> produces; \<open>None\<close> is the panic on more than 4 GB.\<close>

definition store_image :: "bincode \<Rightarrow> store \<Rightarrow> bytes option" where
  "store_image bc s =
     (let data = bc_map bc (ps_cache s)
      in if length data < 2 ^ 32
         then Some (bc_header bc ((header_new bc)\<lparr>ph_data_size := word_of_nat (length data)\<rparr>) @ data)
         else None)"

definition try_get :: "bincode \<Rightarrow> (bytes \<Rightarrow> 'v option) \<Rightarrow> string \<Rightarrow> store \<Rightarrow> (persistency_error, 'v) result" where
  "try_get bc decode key s =
     (case ps_cache s (bc_hash bc key) of
        None \<Rightarrow> Inl (UnknownKey key)
      | Some bs \<Rightarrow> (case decode bs of None \<Rightarrow> Inl (SerializationError key) | Some v \<Rightarrow> Inr v))"

section \<open>The writer\<close>

record writer =
  wr_changed :: bool
  wr_value :: instant
  wr_deadline :: "instant option"

record persist =
  pp_store :: store
  pp_writer :: "writer option"
  pp_fs :: fs
  pp_path :: "path option"

definition get_watcher :: "instant \<Rightarrow> persist \<Rightarrow> persist" where
  "get_watcher now p =
     p\<lparr>pp_store := (pp_store p)\<lparr>ps_observer := True\<rparr>,
       pp_writer := Some \<lparr>wr_changed = False, wr_value = now, wr_deadline = None\<rparr>\<rparr>"

definition notify :: "instant \<Rightarrow> persist \<Rightarrow> persist" where
  "notify now p =
     (if \<not> ps_observer (pp_store p) then p
      else case pp_writer p of
             None \<Rightarrow> p\<lparr>pp_store := (pp_store p)\<lparr>ps_observer := False\<rparr>\<rparr>
           | Some w \<Rightarrow> p\<lparr>pp_writer := Some (w\<lparr>wr_changed := True, wr_value := now\<rparr>)\<rparr>)"

definition try_set :: "bincode \<Rightarrow> string \<Rightarrow> bytes \<Rightarrow> instant \<Rightarrow> persist \<Rightarrow> (persistency_error, unit) result \<times> persist" where
  "try_set bc key encoded now p =
     (let s = pp_store p; k = bc_hash bc key
      in case ps_cache s k of
           None \<Rightarrow> (Inl (UnknownKey key), p)
         | Some previous \<Rightarrow>
             (let p = p\<lparr>pp_store := s\<lparr>ps_cache := (ps_cache s)(k \<mapsto> encoded)\<rparr>\<rparr>
              in if previous = encoded then (Inr (), p)
                 else (Inr (), notify now (p\<lparr>pp_store := (pp_store p)\<lparr>ps_dirty := True\<rparr>\<rparr>))))"

definition commit_to_file :: "bincode \<Rightarrow> persist \<Rightarrow> (persistency_error, unit) result \<times> persist" where
  "commit_to_file bc p =
     (case pp_path p of
        None \<Rightarrow> (Inr (), p)
      | Some target \<Rightarrow>
          (case store_image bc (pp_store p) of
             None \<Rightarrow> (Inl (SerializationError ''panic''), p)
           | Some img \<Rightarrow>
               (let new = with_extension target ''new''
                in case fs_write new (NotUtf8 img) (pp_fs p) of
                     (Inl e, fs) \<Rightarrow> (Inl (PersistIo e), p\<lparr>pp_fs := fs\<rparr>)
                   | (Inr _, fs) \<Rightarrow>
                       (let p = p\<lparr>pp_fs := fs, pp_store := (pp_store p)\<lparr>ps_dirty := False\<rparr>\<rparr>
                        in case fs_rename new target (pp_fs p) of
                             (Inl e, fs) \<Rightarrow> (Inl (PersistIo e), p\<lparr>pp_fs := fs\<rparr>)
                           | (Inr _, fs) \<Rightarrow> (Inr (), p\<lparr>pp_fs := fs\<rparr>)))))"

definition sync_all :: "bincode \<Rightarrow> persist \<Rightarrow> (persistency_error, unit) result \<times> persist" where
  "sync_all bc p =
     (if \<not> ps_dirty (pp_store p) then (Inr (), p)
      else and_then (commit_to_file bc p) (\<lambda>_ p.
        case pp_path p of
          None \<Rightarrow> (Inr (), p)
        | Some target \<Rightarrow>
            (case fs_read (pp_fs p) target of
               Inl e \<Rightarrow> (Inl (PersistIo e), p)
             | Inr _ \<Rightarrow> (Inr (), p))))"

text \<open>The writer task is spawned when the store is opened and starts with \<open>get_watcher\<close>, some time later.
  Then come the two branches of the \<open>select!\<close> in \<open>filesystem_writer\<close>. A change moves the deadline; a
  commit runs once the deadline has passed (at once when the timeout is zero), and an error of
  it ends the writer.\<close>

definition writer_change :: "duration \<Rightarrow> persist \<Rightarrow> persist" where
  "writer_change timeout p =
     (case pp_writer p of
        None \<Rightarrow> p
      | Some w \<Rightarrow>
          if wr_changed w
          then p\<lparr>pp_writer := Some (w\<lparr>wr_changed := False, wr_deadline := Some (wr_value w + timeout)\<rparr>)\<rparr>
          else p)"

definition writer_commit :: "bincode \<Rightarrow> duration \<Rightarrow> instant \<Rightarrow> persist \<Rightarrow> persist" where
  "writer_commit bc timeout now p =
     (case pp_writer p of
        None \<Rightarrow> p
      | Some w \<Rightarrow>
          (case wr_deadline w of
             None \<Rightarrow> p
           | Some deadline \<Rightarrow>
               if timeout = 0 \<or> deadline \<le> now
               then (case commit_to_file bc p of
                       (Inr _, p) \<Rightarrow> p\<lparr>pp_writer := Some (w\<lparr>wr_deadline := None\<rparr>)\<rparr>
                     | (Inl _, p) \<Rightarrow> p\<lparr>pp_writer := None\<rparr>)
               else p))"

section \<open>Opening\<close>

definition utf8_bytes :: "char \<Rightarrow> bytes" where
  "utf8_bytes c =
     (let n = (of_char c :: nat)
      in if n < 128 then [word_of_nat n] else [word_of_nat (192 + n div 64), word_of_nat (128 + n mod 64)])"

fun raw_bytes :: "contents \<Rightarrow> bytes" where
  "raw_bytes (NotUtf8 bs) = bs"
| "raw_bytes (Utf8 s) = concat (map utf8_bytes s)"

definition persist_open :: "bincode \<Rightarrow> (string \<times> bytes) list \<Rightarrow> path \<Rightarrow> bool \<Rightarrow> fs
    \<Rightarrow> (io_error, persist) result \<times> fs" where
  "persist_open bc keys target readonly fs =
     (case fs_create_dir_all (fst target) fs of
        (Inl e, fs) \<Rightarrow> (Inl e, fs)
      | (Inr _, fs) \<Rightarrow>
          (let can_write = \<not> (readonly \<and> fs_exists fs target);
               fs = (if can_write \<and> \<not> fs_exists fs target then snd (fs_write target (NotUtf8 []) fs) else fs);
               source = (case fs_read fs target of Inl _ \<Rightarrow> [] | Inr c \<Rightarrow> raw_bytes c);
               p = \<lparr>pp_store = store_new bc keys source, pp_writer = None, pp_fs = fs,
                    pp_path = (if can_write then Some target else None)\<rparr>
           in (Inr p, fs)))"

section \<open>Facts\<close>

text \<open>What is relied on of bincode: what it wrote it reads back, a header has always the same
  size, which fits its offset field, and a header is read from the front of what follows it.\<close>

definition bincode_ok :: "bincode \<Rightarrow> bool" where
  "bincode_ok bc =
     ((\<forall>h rest. length (ph_magic h) = 7 \<longrightarrow> bc_header_de bc (bc_header bc h @ rest) = Some h)
      \<and> (\<forall>m. finite (dom m) \<longrightarrow> bc_map_de bc (bc_map bc m) = Some m)
      \<and> (\<forall>h. length (ph_magic h) = 7 \<longrightarrow> length (bc_header bc h) = header_serialized_size bc)
      \<and> 0 < header_serialized_size bc \<and> header_serialized_size bc < 2 ^ 16)"

lemma header_size: "bincode_ok bc \<Longrightarrow> length (ph_magic h) = 7 \<Longrightarrow> length (bc_header bc h) = header_serialized_size bc"
  unfolding bincode_ok_def by blast

lemma header_new_simps [simp]:
  "ph_magic (header_new bc) = BINARY_MAGIC" "ph_version (header_new bc) = BINARY_VERSION"
  "length BINARY_MAGIC = 7"
  by (simp_all add: header_new_def Let_def BINARY_MAGIC_def)

lemma load_image:
  assumes bc: "bincode_ok bc" and "finite (dom (ps_cache s))" and img: "store_image bc s = Some img"
  shows "try_load_data bc img = Inr (ps_cache s)" and "header_serialized_size bc \<le> length img"
proof -
  let ?h = "(header_new bc)\<lparr>ph_data_size := word_of_nat (length (bc_map bc (ps_cache s)))\<rparr>"
  have i: "img = bc_header bc ?h @ bc_map bc (ps_cache s)"
    using img by (auto simp: store_image_def Let_def split: if_splits)
  have m: "length (ph_magic ?h) = 7" by simp
  have de: "bc_header_de bc img = Some ?h" using bc m unfolding i bincode_ok_def by blast
  have "length (bc_header bc \<lparr>ph_version = BINARY_VERSION, ph_magic = BINARY_MAGIC, ph_data_size = 0, ph_data_offset = 0\<rparr>)
      = header_serialized_size bc" by (rule header_size [OF bc]) simp
  then have "unat (ph_data_offset ?h) = header_serialized_size bc"
    using bc by (simp add: header_new_def Let_def unat_of_nat bincode_ok_def)
  then have "drop (unat (ph_data_offset ?h)) img = bc_map bc (ps_cache s)"
    unfolding i using header_size [OF bc m] by simp
  moreover have "bc_map_de bc (bc_map bc (ps_cache s)) = Some (ps_cache s)"
    using bc assms(2) unfolding bincode_ok_def by blast
  moreover have "ph_magic ?h = BINARY_MAGIC" "ph_version ?h = BINARY_VERSION" by simp_all
  ultimately show "try_load_data bc img = Inr (ps_cache s)" by (simp add: try_load_data_def de)
  show "header_serialized_size bc \<le> length img" unfolding i using header_size [OF bc m] by simp
qed

lemma store_new_image:
  assumes "bincode_ok bc" and "finite (dom (ps_cache s))" and "store_image bc s = Some img"
    and "\<And>k v. (k, v) \<in> set keys \<Longrightarrow> bc_hash bc k \<in> dom (ps_cache s)"
  shows "ps_cache (store_new bc keys img) = ps_cache s"
proof -
  let ?d = "map_of (rev (map (\<lambda>(k, v). (bc_hash bc k, v)) keys))"
  have "dom ?d \<subseteq> dom (ps_cache s)" using assms(4) by (fastforce dest!: map_of_SomeD)
  then have "?d ++ ps_cache s = ps_cache s"
    by (auto simp: fun_eq_iff map_add_def domIff subset_iff split: option.split)
  then show ?thesis
    using load_image [OF assms(1-3)] by (simp add: store_new_def try_deserialize_source_def Let_def)
qed

lemma with_extension_new: "with_extension p ''new'' \<noteq> p \<longleftrightarrow> snd p \<noteq> file_stem (snd p) @ ''.new''"
  by (cases p) (auto simp: with_extension_def)

text \<open>The two outcomes of a commit.\<close>

lemma commit_ok:
  assumes "commit_to_file bc p = (Inr (), p')" and "pp_path p = Some target"
  shows "\<exists>img. store_image bc (pp_store p) = Some img
    \<and> fs_contents (pp_fs p') target = Some (NotUtf8 img)
    \<and> pp_store p' = (pp_store p)\<lparr>ps_dirty := False\<rparr> \<and> pp_path p' = Some target \<and> pp_writer p' = pp_writer p"
proof -
  let ?new = "with_extension target ''new''"
  obtain img fs1 fs2 where img: "store_image bc (pp_store p) = Some img"
    and w: "fs_write ?new (NotUtf8 img) (pp_fs p) = (Inr (), fs1)"
    and r: "fs_rename ?new target fs1 = (Inr (), fs2)"
    and p': "p' = p\<lparr>pp_fs := fs2, pp_store := (pp_store p)\<lparr>ps_dirty := False\<rparr>\<rparr>"
    using assms by (auto simp: commit_to_file_def Let_def split: option.splits sum.splits prod.splits)
  have "fs1 = fs_put ?new (NotUtf8 img) (pp_fs p)"
    using w by (auto simp: fs_write_def split: option.splits fault.splits)
  then have "fs_contents fs2 target = Some (NotUtf8 img)"
    using fs_rename_ok [OF r] by (simp add: fs_contents_def fs_inode_put)
  then show ?thesis using img assms(2) by (simp add: p')
qed

lemma commit_err_keeps_file:
  assumes "commit_to_file bc p = (Inl e, p')" and "pp_path p = Some target"
    and "fs_wf (pp_fs p)" and "with_extension target ''new'' \<noteq> target"
    and "\<not> aliased (pp_fs p) (with_extension target ''new'') target"
  shows "fs_inode (pp_fs p') target = fs_inode (pp_fs p) target"
proof -
  let ?new = "with_extension target ''new''"
  have "pp_fs p' = pp_fs p \<or> (\<exists>img. pp_fs p' = snd (fs_write ?new (NotUtf8 img) (pp_fs p)))"
  proof (cases "store_image bc (pp_store p)")
    case None
    then show ?thesis using assms(1,2) by (simp add: commit_to_file_def)
  next
    case (Some img)
    obtain r fs1 where w: "fs_write ?new (NotUtf8 img) (pp_fs p) = (r, fs1)"
      by (cases "fs_write ?new (NotUtf8 img) (pp_fs p)")
    have "pp_fs p' = fs1"
      using assms(1,2) Some w
      by (auto simp: commit_to_file_def Let_def split: sum.splits prod.splits dest!: fs_rename_err)
    then show ?thesis using w by (metis snd_conv)
  qed
  then show ?thesis using fs_inode_write_other [OF assms(3) _ assms(5)] assms(4) by metis
qed

section \<open>Properties\<close>

text \<open>a value that was set is read back, the other keys keep theirs, and a key nobody registered
  is refused without a trace.\<close>

theorem set_then_get:
  "case try_set bc key encoded now p of
     (Inr _, p') \<Rightarrow> try_get bc decode key (pp_store p')
         = (case decode encoded of None \<Rightarrow> Inl (SerializationError key) | Some v \<Rightarrow> Inr v)
       \<and> (bc_hash bc other = bc_hash bc key
          \<or> try_get bc decode other (pp_store p') = try_get bc decode other (pp_store p))
   | (Inl e, p') \<Rightarrow> e = UnknownKey key \<and> p' = p \<and> try_get bc decode key (pp_store p) = Inl (UnknownKey key)"
  by (auto simp: try_set_def try_get_def notify_def Let_def split: option.splits)

text \<open>C24: what was committed survives a restart: the daemon that opens the file again has, under every
  key, the bytes the store had when it was written.\<close>

theorem store_survives_restart:
  assumes "bincode_ok bc" and "finite (dom (ps_cache (pp_store p)))"
    and "\<And>k v. (k, v) \<in> set keys \<Longrightarrow> bc_hash bc k \<in> dom (ps_cache (pp_store p))"
    and "pp_path p = Some target" and "commit_to_file bc p = (Inr (), p')"
    and "target \<notin> set (fs_unreadable (pp_fs p'))"
    and "persist_open bc keys target readonly (pp_fs p') = (Inr q, fs')"
  shows "ps_cache (pp_store q) = ps_cache (pp_store p)"
proof -
  obtain img where img: "store_image bc (pp_store p) = Some img"
    and c: "fs_contents (pp_fs p') target = Some (NotUtf8 img)"
    using commit_ok [OF assms(5,4)] by blast
  have ex: "fs_exists (pp_fs p') target"
    using c by (auto simp: fs_contents_def fs_inode_def fs_exists_def)
  have rd: "fs_read (pp_fs p') target = Inr (NotUtf8 img)"
    using c assms(6) by (auto simp: fs_read_def fs_contents_def)
  have "pp_store q = store_new bc keys img"
    using assms(7) ex rd by (auto simp: persist_open_def fs_create_dir_all_def Let_def split: if_splits)
  then show ?thesis using store_new_image [OF assms(1,2) img assms(3)] by auto
qed

text \<open>The events of a running store.\<close>

datatype persist_event = ESet string bytes instant | EChange | ECommit instant

fun persist_event_step :: "bincode \<Rightarrow> duration \<Rightarrow> persist \<Rightarrow> persist_event \<Rightarrow> persist" where
  "persist_event_step bc timeout p (ESet key encoded now) = snd (try_set bc key encoded now p)"
| "persist_event_step bc timeout p EChange = writer_change timeout p"
| "persist_event_step bc timeout p (ECommit now) = writer_commit bc timeout now p"

definition disk_ok :: "fs \<Rightarrow> bool" where
  "disk_ok fs = (fs_faults fs = [])"

lemma store_image_dirty [simp]: "store_image bc (s\<lparr>ps_dirty := d\<rparr>) = store_image bc s"
  by (simp add: store_image_def)

lemma commit_live:
  assumes "disk_ok (pp_fs p)" and "pp_path p = Some target" and "store_image bc (pp_store p) = Some img"
  shows "\<exists>p'. commit_to_file bc p = (Inr (), p') \<and> disk_ok (pp_fs p')"
proof -
  let ?new = "with_extension target ''new''"
  have "fs_write ?new (NotUtf8 img) (pp_fs p) = (Inr (), fs_put ?new (NotUtf8 img) (pp_fs p))"
    using assms(1) by (simp add: fs_write_def disk_ok_def)
  moreover have f: "fs_faults (fs_put ?new (NotUtf8 img) (pp_fs p)) = []"
    using assms(1) by (simp add: fs_put_def disk_ok_def split: option.split)
  moreover have "map_of (fs_names (fs_put ?new (NotUtf8 img) (pp_fs p))) ?new \<noteq> None"
    by (simp add: fs_put_def split: option.split)
  ultimately show ?thesis
    using assms(2,3) by (auto simp: commit_to_file_def Let_def fs_rename_def disk_ok_def)
qed

fun event_set_by :: "instant \<Rightarrow> persist_event \<Rightarrow> bool" where
  "event_set_by T (ESet key encoded now) = (now \<le> T)"
| "event_set_by T _ = True"

text \<open>Nothing is forgotten: a store that is clean is the one that was opened or is on disk, and for
  one that is not a write is on its way, due no later than the timeout after the time \<open>T\<close>. The
  cache and the file at the opening are \<open>c0\<close> and \<open>f0\<close>.\<close>

definition on_its_way :: "bincode \<Rightarrow> path \<Rightarrow> duration \<Rightarrow> instant \<Rightarrow> (u64 \<rightharpoonup> bytes) \<Rightarrow> contents option \<Rightarrow> persist \<Rightarrow> bool" where
  "on_its_way bc target timeout T c0 f0 p =
     (pp_path p = Some target \<and> disk_ok (pp_fs p) \<and> ps_observer (pp_store p)
      \<and> (\<exists>w. pp_writer p = Some w
           \<and> (wr_changed w \<longrightarrow> wr_value w \<le> T)
           \<and> (\<forall>d. wr_deadline w = Some d \<longrightarrow> d \<le> T + timeout)
           \<and> (ps_dirty (pp_store p) \<longrightarrow> wr_changed w \<or> wr_deadline w \<noteq> None))
      \<and> (\<not> ps_dirty (pp_store p) \<longrightarrow>
           ps_cache (pp_store p) = c0 \<and> fs_contents (pp_fs p) target = f0
           \<or> fs_contents (pp_fs p) target = map_option NotUtf8 (store_image bc (pp_store p))))"

lemma way_set:
  "on_its_way bc target timeout T c0 f0 p \<Longrightarrow> now \<le> T
   \<Longrightarrow> on_its_way bc target timeout T c0 f0 (snd (try_set bc key encoded now p))"
  by (auto simp: on_its_way_def try_set_def notify_def Let_def fun_upd_idem split: option.splits if_splits)

lemma way_change:
  "on_its_way bc target timeout T c0 f0 p \<Longrightarrow> on_its_way bc target timeout T c0 f0 (writer_change timeout p)"
  by (auto simp: on_its_way_def writer_change_def split: if_splits)

lemma way_commit:
  assumes t: "on_its_way bc target timeout T c0 f0 p" and img: "store_image bc (pp_store p) \<noteq> None"
  shows "on_its_way bc target timeout T c0 f0 (writer_commit bc timeout now p)"
proof -
  obtain w where p: "disk_ok (pp_fs p)" "pp_path p = Some target" "ps_observer (pp_store p)" "pp_writer p = Some w"
    "wr_changed w \<longrightarrow> wr_value w \<le> T"
    using t unfolding on_its_way_def by blast
  obtain p' where c: "commit_to_file bc p = (Inr (), p')" and d: "disk_ok (pp_fs p')"
    using commit_live [OF p(1,2)] img by blast
  have "on_its_way bc target timeout T c0 f0 (p'\<lparr>pp_writer := Some (w\<lparr>wr_deadline := None\<rparr>)\<rparr>)"
    using commit_ok [OF c p(2)] d p(3,5) by (auto simp: on_its_way_def)
  then show ?thesis using t c p(4) by (simp add: writer_commit_def split: option.split)
qed

lemma way_run:
  assumes "on_its_way bc target timeout T c0 f0 p" and "list_all (event_set_by T) evs"
    and "\<And>n. store_image bc (pp_store (foldl (persist_event_step bc timeout) p (take n evs))) \<noteq> None"
  shows "on_its_way bc target timeout T c0 f0 (foldl (persist_event_step bc timeout) p evs)"
  using assms
proof (induction evs arbitrary: p)
  case (Cons ev evs)
  have "on_its_way bc target timeout T c0 f0 (persist_event_step bc timeout p ev)"
    using Cons.prems(1,2) Cons.prems(3) [of 0] way_set way_change way_commit by (cases ev) simp_all
  then show ?case using Cons.IH Cons.prems(2) Cons.prems(3) [of "Suc n" for n] by simp
qed simp

lemma way_done:
  assumes t: "on_its_way bc target timeout T c0 f0 p" and "ps_dirty (pp_store p)"
    and img: "store_image bc (pp_store p) = Some img" and "T + timeout \<le> now"
  shows "\<not> ps_dirty (pp_store (writer_commit bc timeout now (writer_change timeout p)))"
    and "fs_contents (pp_fs (writer_commit bc timeout now (writer_change timeout p))) target = Some (NotUtf8 img)"
proof -
  let ?p = "writer_change timeout p"
  have same: "pp_store ?p = pp_store p" by (simp add: writer_change_def split: option.split)
  note t1 = way_change [OF t]
  then have d1: "disk_ok (pp_fs ?p)" "pp_path ?p = Some target" unfolding on_its_way_def by blast+
  have "\<exists>w d. pp_writer ?p = Some w \<and> wr_deadline w = Some d \<and> d \<le> T + timeout"
  proof -
    from t assms(2) obtain v where "pp_writer p = Some v" "wr_changed v \<or> wr_deadline v \<noteq> None"
      "wr_changed v \<longrightarrow> wr_value v \<le> T" "\<forall>d. wr_deadline v = Some d \<longrightarrow> d \<le> T + timeout"
      unfolding on_its_way_def by blast
    then show ?thesis by (cases "wr_changed v") (auto simp: writer_change_def)
  qed
  then obtain w d where w: "pp_writer ?p = Some w" "wr_deadline w = Some d" "d \<le> T + timeout" by blast
  obtain q where c: "commit_to_file bc ?p = (Inr (), q)" using commit_live [OF d1] img same by auto
  have "writer_commit bc timeout now ?p = q\<lparr>pp_writer := Some (w\<lparr>wr_deadline := None\<rparr>)\<rparr>"
    using w c assms(4) by (simp add: writer_commit_def)
  moreover have "\<not> ps_dirty (pp_store q)" "fs_contents (pp_fs q) target = Some (NotUtf8 img)"
    using commit_ok [OF c d1(2)] same img by auto
  ultimately show "\<not> ps_dirty (pp_store (writer_commit bc timeout now ?p))"
    and "fs_contents (pp_fs (writer_commit bc timeout now ?p)) target = Some (NotUtf8 img)" by simp_all
qed

text \<open>C27: what the daemon changes reaches the disk in time. Take a store that was opened for writing and
  whose writer has started, on a disk that does not fail, and any sequence of changes and
  writer steps. While the store is dirty, at every moment from the timeout after the last
  change on, the two next steps of the writer leave it clean and the file with exactly the
  image of the store. While it is clean, the file holds the image of the store, or the store
  is the one that was opened and the file was not touched. A change before the writer has
  started is not covered (lemma \<open>early_set_waits\<close>).\<close>

theorem store_reaches_disk:
  assumes "persist_open bc keys target readonly fs = (Inr p0, fs0)" and "pp_path p0 = Some target" and "disk_ok fs0"
    and "q = foldl (persist_event_step bc timeout) (get_watcher t0 p0) evs"
    and "\<And>key encoded now. ESet key encoded now \<in> set evs \<Longrightarrow> now \<le> T"
    and "\<And>n. store_image bc (pp_store (foldl (persist_event_step bc timeout) (get_watcher t0 p0) (take n evs))) \<noteq> None"
  shows "if ps_dirty (pp_store q)
    then \<forall>now \<ge> T + timeout. \<exists>img. store_image bc (pp_store q) = Some img
      \<and> \<not> ps_dirty (pp_store (writer_commit bc timeout now (writer_change timeout q)))
      \<and> fs_contents (pp_fs (writer_commit bc timeout now (writer_change timeout q))) target = Some (NotUtf8 img)
    else (\<exists>img. store_image bc (pp_store q) = Some img \<and> fs_contents (pp_fs q) target = Some (NotUtf8 img))
      \<or> ps_cache (pp_store q) = ps_cache (pp_store p0) \<and> fs_contents (pp_fs q) target = fs_contents fs0 target"
proof -
  have p0: "pp_fs p0 = fs0" "\<not> ps_dirty (pp_store p0)"
    using assms(1) by (auto simp: persist_open_def store_new_def Let_def split: sum.splits prod.splits)
  have start: "on_its_way bc target timeout T (ps_cache (pp_store p0)) (fs_contents fs0 target) (get_watcher t0 p0)"
    using assms(2,3) p0 by (simp add: on_its_way_def get_watcher_def)
  have "event_set_by T ev" if "ev \<in> set evs" for ev
    using assms(5) that by (cases ev) auto
  then have "list_all (event_set_by T) evs" by (simp add: list_all_iff)
  note way = way_run [OF start this assms(6), folded assms(4)]
  obtain img where img: "store_image bc (pp_store q) = Some img" using assms(6) [of "length evs"] assms(4) by auto
  show ?thesis
  proof (cases "ps_dirty (pp_store q)")
    case True
    then show ?thesis using way_done [OF way True img] img by simp
  next
    case False
    then show ?thesis using way img unfolding on_its_way_def by auto
  qed
qed

section \<open>A codec that keeps the laws\<close>

definition enc_nat :: "nat \<Rightarrow> bytes" where
  "enc_nat n = replicate n 1 @ [0]"

definition dec_nat :: "bytes \<Rightarrow> nat \<times> bytes" where
  "dec_nat bs = (length (takeWhile ((=) 1) bs), tl (dropWhile ((=) 1) bs))"

lemma dec_enc_nat [simp]: "dec_nat (enc_nat n @ r) = (n, r)"
  by (induction n) (auto simp: dec_nat_def enc_nat_def)

definition enc_entry :: "u64 \<times> bytes \<Rightarrow> bytes" where
  "enc_entry kv = enc_nat (unat (fst kv)) @ enc_nat (length (snd kv)) @ snd kv"

fun dec_entries :: "nat \<Rightarrow> bytes \<Rightarrow> (u64 \<times> bytes) list" where
  "dec_entries 0 bs = []"
| "dec_entries (Suc n) bs =
     (let (k, r) = dec_nat bs; (l, r) = dec_nat r
      in (word_of_nat k, take l r) # dec_entries n (drop l r))"

lemma dec_enc_entries: "dec_entries (length es) (concat (map enc_entry es)) = es"
  by (induction es) (simp_all add: enc_entry_def)

definition entries_of :: "(u64 \<rightharpoonup> bytes) \<Rightarrow> (u64 \<times> bytes) list" where
  "entries_of m = map (\<lambda>k. (k, the (m k))) (sorted_list_of_set (dom m))"

lemma map_of_entries: "finite (dom m) \<Longrightarrow> map_of (entries_of m) = m"
  by (auto simp: entries_of_def fun_eq_iff map_of_map_restrict restrict_map_def domIff)

definition demo_header :: "persistency_header \<Rightarrow> bytes" where
  "demo_header h = map word_of_nat (octets (ph_version h)) @ ph_magic h
     @ map word_of_nat (octets (ph_data_size h))
     @ [word_of_nat (unat (ph_data_offset h) div 256), word_of_nat (unat (ph_data_offset h) mod 256)]"

fun u32_of :: "bytes \<Rightarrow> u32 \<times> bytes" where
  "u32_of (a # b # c # d # r) = (of_octets (unat a) (unat b) (unat c) (unat d), r)"
| "u32_of _ = (0, [])"

definition demo_header_de :: "bytes \<Rightarrow> persistency_header option" where
  "demo_header_de bs =
     (if length bs < 17 then None
      else (let (v, r) = u32_of bs; (z, q) = u32_of (drop 7 r)
            in Some \<lparr>ph_version = v, ph_magic = take 7 r, ph_data_size = z,
                     ph_data_offset = word_of_nat (unat (q ! 0) * 256 + unat (q ! 1))\<rparr>))"

definition demo_codec :: bincode where
  "demo_codec = \<lparr>bc_header = demo_header, bc_header_de = demo_header_de,
     bc_map = (\<lambda>m. enc_nat (length (entries_of m)) @ concat (map enc_entry (entries_of m))),
     bc_map_de = (\<lambda>bs. case dec_nat bs of (n, r) \<Rightarrow> Some (map_of (dec_entries n r))),
     bc_hash = (\<lambda>key. word_of_nat (length key))\<rparr>"

lemma unat_byte: "n < 256 \<Longrightarrow> unat (word_of_nat n :: u8) = n"
  by (simp add: unat_of_nat)

lemma u32_of_octets: "u32_of (map word_of_nat (octets w) @ r) = (w, r)"
  using of_octets_octets [of w] octets_lt [of w] by (simp add: octets_def Let_def unat_byte)

lemma length_octets [simp]: "length (octets w) = 4"
  by (simp add: octets_def Let_def)

lemma demo_header_ok:
  assumes "length (ph_magic h) = 7"
  shows "demo_header_de (demo_header h @ rest) = Some h" "length (demo_header h) = 17"
proof -
  let ?o = "unat (ph_data_offset h)"
  have "?o < 2 ^ LENGTH(16)" by (rule unsigned_less)
  then have o: "?o div 256 < 256" by simp
  let ?q = "word_of_nat (?o div 256) # word_of_nat (?o mod 256) # rest"
  let ?r = "ph_magic h @ map word_of_nat (octets (ph_data_size h)) @ ?q"
  have "u32_of (demo_header h @ rest) = (ph_version h, ?r)"
    unfolding demo_header_def by (simp only: append_assoc u32_of_octets) simp
  moreover have "u32_of (drop 7 ?r) = (ph_data_size h, ?q)" using assms by (simp add: u32_of_octets)
  moreover have "take 7 ?r = ph_magic h" using assms by simp
  moreover have "word_of_nat (unat (?q ! 0) * 256 + unat (?q ! 1)) = ph_data_offset h"
    using o by (simp add: unat_byte)
  moreover show len: "length (demo_header h) = 17" using assms by (simp add: demo_header_def)
  ultimately show "demo_header_de (demo_header h @ rest) = Some h"
    unfolding demo_header_de_def by (simp only: length_append len prod.case Let_def) simp
qed

lemma demo_codec_ok: "bincode_ok demo_codec"
proof -
  have "bc_map_de demo_codec (bc_map demo_codec m) = Some m" if "finite (dom m)" for m
    using that by (simp add: demo_codec_def dec_enc_entries map_of_entries)
  moreover have size: "header_serialized_size demo_codec = 17"
    using demo_header_ok(2) [of "header_new demo_codec"] by (simp add: header_serialized_size_def demo_codec_def)
  moreover have "bc_header demo_codec = demo_header" "bc_header_de demo_codec = demo_header_de"
    by (simp_all add: demo_codec_def)
  ultimately show ?thesis by (simp add: bincode_ok_def demo_header_ok)
qed

definition demo_target :: path where "demo_target = (''/var/lib/bmcd'', ''bmcd.bin'')"

definition demo_persist :: persist where
  "demo_persist =
     \<lparr>pp_store = \<lparr>ps_cache = [4 \<mapsto> [5]], ps_observer = True, ps_dirty = True\<rparr>,
      pp_writer = Some \<lparr>wr_changed = False, wr_value = 0, wr_deadline = Some 100\<rparr>,
      pp_fs = \<lparr>fs_names = [], fs_inodes = (\<lambda>_. \<lparr>in_contents = NotUtf8 [], in_modified = 0\<rparr>), fs_next = 0,
        fs_time = 0, fs_unreadable = [], fs_faults = [], fs_closed_dirs = []\<rparr>,
      pp_path = Some demo_target\<rparr>"

lemma demo_image: "store_image demo_codec (pp_store demo_persist) \<noteq> None"
  by (simp add: store_image_def demo_codec_def demo_persist_def entries_of_def enc_entry_def enc_nat_def Let_def)

lemma demo_persist_facts [simp]:
  "pp_path demo_persist = Some demo_target" "disk_ok (pp_fs demo_persist)" "fs_unreadable (pp_fs demo_persist) = []"
  by (simp_all add: demo_persist_def disk_ok_def)

lemma commit_unreadable:
  assumes "commit_to_file bc p = (Inr (), p')"
  shows "fs_unreadable (pp_fs p') = fs_unreadable (pp_fs p)"
    and "fs_closed_dirs (pp_fs p') = fs_closed_dirs (pp_fs p)"
  using assms
  by (auto simp: commit_to_file_def Let_def fs_write_def fs_put_def fs_rename_def
      split: option.splits sum.splits prod.splits fault.splits if_splits)

theorem store_survives_restart_witness:
  "\<exists>p' q fs'. commit_to_file demo_codec demo_persist = (Inr (), p')
     \<and> persist_open demo_codec [(''node'', [0])] demo_target False (pp_fs p') = (Inr q, fs')
     \<and> ps_cache (pp_store q) = [4 \<mapsto> [5]]"
proof -
  obtain p' where c: "commit_to_file demo_codec demo_persist = (Inr (), p')"
    using commit_live [of demo_persist demo_target demo_codec] demo_image by auto
  have "fs_closed_dirs (pp_fs p') = []" using commit_unreadable(2) [OF c] by (simp add: demo_persist_def)
  then obtain q fs' where o: "persist_open demo_codec [(''node'', [0])] demo_target False (pp_fs p') = (Inr q, fs')"
    by (cases "persist_open demo_codec [(''node'', [0])] demo_target False (pp_fs p')")
      (simp add: persist_open_def fs_create_dir_all_def Let_def)
  have "ps_cache (pp_store q) = ps_cache (pp_store demo_persist)"
    by (rule store_survives_restart [OF demo_codec_ok _ _ demo_persist_facts(1) c _ o])
      (simp_all add: commit_unreadable(1) [OF c], simp_all add: demo_persist_def demo_codec_def)
  then show ?thesis using c o by (auto simp: demo_persist_def)
qed

theorem store_reaches_disk_witness:
  "\<exists>p0. persist_open demo_codec [(''node'', [5])] demo_target False (pp_fs demo_persist) = (Inr p0, pp_fs p0)
     \<and> (let q = foldl (persist_event_step demo_codec 50) (get_watcher 0 p0) [ESet ''node'' [6] 300]
        in ps_dirty (pp_store q)
           \<and> \<not> ps_dirty (pp_store (writer_commit demo_codec 50 350 (writer_change 50 q))))"
proof -
  let ?fs = "fs_put demo_target (NotUtf8 []) (pp_fs demo_persist)"
  define p0 where "p0 = \<lparr>pp_store = \<lparr>ps_cache = [4 \<mapsto> [5]], ps_observer = False, ps_dirty = False\<rparr>, pp_writer = None,
      pp_fs = ?fs, pp_path = Some demo_target\<rparr>"
  have o: "persist_open demo_codec [(''node'', [5])] demo_target False (pp_fs demo_persist) = (Inr p0, pp_fs p0)"
    and p0: "pp_path p0 = Some demo_target" "pp_store p0 = \<lparr>ps_cache = [4 \<mapsto> [5]], ps_observer = False, ps_dirty = False\<rparr>"
      "disk_ok (pp_fs p0)"
    by (simp_all add: p0_def persist_open_def fs_create_dir_all_def demo_persist_def fs_exists_def fs_write_def fs_put_def fs_read_def
        fs_inode_def store_new_def try_deserialize_source_def disk_ok_def demo_codec_def header_serialized_size_def
        demo_header_def Let_def demo_target_def)
  let ?q = "foldl (persist_event_step demo_codec 50) (get_watcher 0 p0) [ESet ''node'' [6] 300]"
  have h: "bc_hash demo_codec ''node'' = 4" by (simp add: demo_codec_def)
  have st: "ps_cache (pp_store ?q) = [4 \<mapsto> [6]]" "ps_dirty (pp_store ?q)"
    by (simp_all add: try_set_def h p0 get_watcher_def notify_def Let_def)
  have small: "store_image demo_codec s \<noteq> None" if "ps_cache s = [4 \<mapsto> [b]]" for s b
    by (simp add: store_image_def demo_codec_def that entries_of_def enc_entry_def enc_nat_def Let_def)
  have "store_image demo_codec (pp_store (foldl (persist_event_step demo_codec 50) (get_watcher 0 p0)
      (take n [ESet ''node'' [6] 300]))) \<noteq> None" for n
    using small [of _ 5] small [OF st(1)] by (cases n) (simp_all add: get_watcher_def p0)
  from store_reaches_disk [OF o p0(1,3) refl, of "[ESet ''node'' [6] 300]" 300, OF _ this] st(2) o
  show ?thesis by (intro exI [of _ p0]) (auto simp: Let_def)
qed

text \<open>A change made before the writer has started finds no observer. It marks the store dirty, and no
  step of the writer writes it until another change comes.\<close>

lemma early_set_waits:
  assumes "persist_open bc keys target readonly fs = (Inr p0, fs0)"
    and "ps_cache (pp_store p0) (bc_hash bc key) = Some previous" and "previous \<noteq> encoded"
    and "list_all (\<lambda>ev. \<forall>k e t. ev \<noteq> ESet k e t) evs"
  shows "let q = foldl (persist_event_step bc timeout) (get_watcher t0 (snd (try_set bc key encoded now p0))) evs
    in ps_dirty (pp_store q) \<and> pp_fs q = fs0"
proof -
  let ?p = "get_watcher t0 (snd (try_set bc key encoded now p0))"
  have p0: "pp_fs p0 = fs0" "\<not> ps_observer (pp_store p0)"
    using assms(1) by (auto simp: persist_open_def store_new_def Let_def split: sum.splits prod.splits)
  have "pp_writer ?p = Some \<lparr>wr_changed = False, wr_value = t0, wr_deadline = None\<rparr>" by (simp add: get_watcher_def)
  then have "foldl (persist_event_step bc timeout) ?p evs = ?p" using assms(4)
  proof (induction evs)
    case (Cons ev evs)
    then have "persist_event_step bc timeout ?p ev = ?p"
      by (cases ev) (simp_all add: writer_change_def writer_commit_def)
    with Cons show ?case by simp
  qed simp
  then show ?thesis using p0 assms(2,3) by (simp add: Let_def get_watcher_def try_set_def notify_def)
qed

section \<open>When a write fails\<close>

text \<open>one failed write ends the writing. The task that writes the file returns on the first
  error; no change after it, however often it is tried, reaches the disk by itself.\<close>

theorem failed_write_ends_writer:
  assumes "pp_writer p = Some w" and "wr_deadline w = Some deadline" and "deadline \<le> now"
    and "commit_to_file bc p = (Inl e, p1)"
  shows "let q = foldl (persist_event_step bc timeout) (writer_commit bc timeout now p) evs
     in pp_writer q = None \<and> pp_fs q = pp_fs p1"
proof -
  have "pp_writer (foldl (persist_event_step bc timeout) q evs) = None
      \<and> pp_fs (foldl (persist_event_step bc timeout) q evs) = pp_fs q" if "pp_writer q = None" for q
    using that
  proof (induction evs arbitrary: q)
    case (Cons ev evs)
    have "pp_writer (persist_event_step bc timeout q ev) = None \<and> pp_fs (persist_event_step bc timeout q ev) = pp_fs q"
      using Cons.prems
      by (cases ev) (auto simp: try_set_def notify_def writer_change_def writer_commit_def Let_def split: option.split)
    then show ?case using Cons.IH by simp
  qed simp
  from this [of "writer_commit bc timeout now p"] assms show ?thesis by (simp add: writer_commit_def Let_def)
qed

definition full_persist :: persist where
  "full_persist = demo_persist\<lparr>pp_fs := (pp_fs demo_persist)\<lparr>fs_faults := [(with_extension demo_target ''new'', Full 3)]\<rparr>\<rparr>"

lemma full_fails: "\<exists>p1. commit_to_file demo_codec full_persist = (Inl (PersistIo OtherIo), p1)"
  using demo_image
  by (auto simp: full_persist_def commit_to_file_def fs_write_def Let_def)

theorem failed_write_ends_writer_witness:
  "pp_writer (foldl (persist_event_step demo_codec 50) (writer_commit demo_codec 50 200 full_persist)
     [ESet ''node'' [6] 300, EChange, ECommit 400]) = None"
proof -
  obtain p1 where "commit_to_file demo_codec full_persist = (Inl (PersistIo OtherIo), p1)" using full_fails by blast
  from failed_write_ends_writer [OF _ _ _ this, of _ 100 200 50 "[ESet ''node'' [6] 300, EChange, ECommit 400]"]
  show ?thesis by (simp add: Let_def full_persist_def demo_persist_def)
qed

text \<open>the store is marked clean when its bytes have been written to the new file, before that is
  renamed over the old one. When the rename fails the old file stands, but the store is no
  longer dirty, and the write on shutdown does nothing.\<close>

theorem failed_rename_forgotten:
  assumes "pp_path p = Some target" and "store_image bc (pp_store p) = Some img"
    and "fs_write (with_extension target ''new'') (NotUtf8 img) (pp_fs p) = (Inr (), fs1)"
    and "fs_rename (with_extension target ''new'') target fs1 = (Inl e, fs2)"
  shows "\<exists>p'. commit_to_file bc p = (Inl (PersistIo e), p') \<and> \<not> ps_dirty (pp_store p')
    \<and> ps_cache (pp_store p') = ps_cache (pp_store p) \<and> sync_all bc p' = (Inr (), p')"
  using assms by (simp add: commit_to_file_def Let_def sync_all_def)

theorem failed_rename_forgotten_witness:
  "\<exists>p p'. ps_dirty (pp_store p) \<and> commit_to_file demo_codec p = (Inl (PersistIo OtherIo), p')
     \<and> sync_all demo_codec p' = (Inr (), p')"
proof -
  let ?new = "with_extension demo_target ''new''"
  let ?p = "demo_persist\<lparr>pp_fs := (pp_fs demo_persist)\<lparr>fs_faults := [(demo_target, Refused)]\<rparr>\<rparr>"
  obtain img where img: "store_image demo_codec (pp_store ?p) = Some img" using demo_image by auto
  have ne: "?new \<noteq> demo_target" by (simp add: demo_target_def with_extension_def file_stem_def)
  have w: "fs_write ?new (NotUtf8 img) (pp_fs ?p) = (Inr (), fs_put ?new (NotUtf8 img) (pp_fs ?p))"
    using ne by (simp add: fs_write_def)
  have r: "fs_rename ?new demo_target (fs_put ?new (NotUtf8 img) (pp_fs ?p))
      = (Inl OtherIo, fs_put ?new (NotUtf8 img) (pp_fs ?p))"
    by (simp add: fs_rename_def fs_put_def demo_persist_def)
  have path: "pp_path ?p = Some demo_target" by simp
  from failed_rename_forgotten [OF path img w r] show ?thesis
    by - (rule exI [of _ ?p], auto simp: demo_persist_def)
qed

end
