(* ===== verification/Firmware_Version.thy ===== *)
theory Firmware_Version
  imports Rust_Std
begin

text \<open>
  Ordering release tags, \<open>app/version.rs\<close>: a tag is parsed into the numbers of its release and the
  identifiers of its prerelease, and two tags are compared number by number. The contract of a
  comparison is the locale \<open>comparison\<close>; numbers, text, prerelease identifiers, runs of them and
  whole versions are interpretations of it.
\<close>

section \<open>Comparisons\<close>

text \<open>\<open>std::cmp::Ordering\<close>.\<close>

datatype ordering = Less | Equal | Greater

fun reverse :: "ordering \<Rightarrow> ordering" where
  "reverse Less = Greater"
| "reverse Equal = Equal"
| "reverse Greater = Less"

definition cmp_nat :: "nat \<Rightarrow> nat \<Rightarrow> ordering" where
  "cmp_nat a b = (if a < b then Less else if a = b then Equal else Greater)"

text \<open>Text is compared byte by byte; below 256 that is the order of the characters.\<close>

fun cmp_str :: "string \<Rightarrow> string \<Rightarrow> ordering" where
  "cmp_str [] [] = Equal"
| "cmp_str [] (_ # _) = Less"
| "cmp_str (_ # _) [] = Greater"
| "cmp_str (x # xs) (y # ys) =
     (case cmp_nat (of_char x) (of_char y) of Equal \<Rightarrow> cmp_str xs ys | other \<Rightarrow> other)"

section \<open>Versions\<close>

record version =
  vs_release :: "nat list"
  vs_pre :: "string list option"

definition strip_v :: "string \<Rightarrow> string" where
  "strip_v tag = (case strip_prefix ''v'' tag of Some t \<Rightarrow> t | None \<Rightarrow> tag)"

definition parse_parts :: "string \<Rightarrow> string option \<Rightarrow> version option" where
  "parse_parts numeric pre =
     (let parts = map parse_u64 (split_on CHR ''.'' numeric)
      in if None \<in> set parts then None
         else if parts = [] then None
         else Some \<lparr>vs_release = map the parts, vs_pre = map_option (split_on CHR ''.'') pre\<rparr>)"

definition version_parse :: "string \<Rightarrow> version option" where
  "version_parse tag0 =
     (let tag = strip_v tag0
      in if tag = [] \<or> CHR ''+'' \<in> set tag then None
         else
           (case split_once CHR ''-'' tag of
              Some (numeric, pre) \<Rightarrow> if pre \<noteq> [] then parse_parts numeric (Some pre) else None
            | None \<Rightarrow> parse_parts tag None))"

definition version_is_prerelease :: "version \<Rightarrow> bool" where
  "version_is_prerelease v = (vs_pre v \<noteq> None)"

definition is_prerelease :: "string \<Rightarrow> bool" where
  "is_prerelease tag = (case version_parse tag of None \<Rightarrow> False | Some v \<Rightarrow> version_is_prerelease v)"

definition release_part :: "nat list \<Rightarrow> nat \<Rightarrow> nat" where
  "release_part r i = (if i < length r then r ! i else 0)"

text \<open>The loop over the parts, which returns at the first difference.\<close>

definition order_release :: "nat list \<Rightarrow> nat list \<Rightarrow> ordering option" where
  "order_release a b =
     find_map (\<lambda>i. case cmp_nat (release_part a i) (release_part b i) of Equal \<Rightarrow> None | other \<Rightarrow> Some other)
       [0..<max (length a) (length b)]"

definition cmp_identifier :: "string \<Rightarrow> string \<Rightarrow> ordering" where
  "cmp_identifier left right =
     (case (parse_u64 left, parse_u64 right) of
        (Some l, Some r) \<Rightarrow> cmp_nat l r
      | (Some _, None) \<Rightarrow> Less
      | (None, Some _) \<Rightarrow> Greater
      | (None, None) \<Rightarrow> cmp_str left right)"

definition order_pre :: "string list \<Rightarrow> string list \<Rightarrow> ordering" where
  "order_pre a b =
     (case find_map (\<lambda>(l, r). case cmp_identifier l r of Equal \<Rightarrow> None | other \<Rightarrow> Some other) (zip a b) of
        Some other \<Rightarrow> other
      | None \<Rightarrow> cmp_nat (length a) (length b))"

definition version_order :: "version \<Rightarrow> version \<Rightarrow> ordering" where
  "version_order a b =
     (case order_release (vs_release a) (vs_release b) of
        Some other \<Rightarrow> other
      | None \<Rightarrow>
          (case (vs_pre a, vs_pre b) of
             (None, None) \<Rightarrow> Equal
           | (None, Some _) \<Rightarrow> Greater
           | (Some _, None) \<Rightarrow> Less
           | (Some left, Some right) \<Rightarrow> order_pre left right))"

definition version_compare :: "string \<Rightarrow> string \<Rightarrow> ordering option" where
  "version_compare a b =
     (case version_parse a of
        None \<Rightarrow> None
      | Some va \<Rightarrow> (case version_parse b of None \<Rightarrow> None | Some vb \<Rightarrow> Some (version_order va vb)))"

section \<open>The contract of a comparison\<close>

lemma reverse_simps [simp]:
  "reverse (reverse r) = r" "reverse r = Equal \<longleftrightarrow> r = Equal"
  "reverse r = Less \<longleftrightarrow> r = Greater" "reverse r = Greater \<longleftrightarrow> r = Less"
  by (cases r; simp)+

locale comparison =
  fixes cmp :: "'a \<Rightarrow> 'a \<Rightarrow> ordering"
  assumes swap: "cmp b a = reverse (cmp a b)"
    and trans: "cmp a b \<noteq> Greater \<Longrightarrow> cmp b c \<noteq> Greater \<Longrightarrow> cmp a c \<noteq> Greater"
begin

lemma self [simp]: "cmp a a = Equal"
  using swap [of a a] by (cases "cmp a a") auto

lemma equal_sym: "cmp a b = Equal \<Longrightarrow> cmp b a = Equal"
  using swap [of b a] by simp

lemma equal_left: "cmp a b = Equal \<Longrightarrow> cmp a c = cmp b c"
proof -
  assume e: "cmp a b = Equal"
  then have e2: "cmp b a = Equal" by (rule equal_sym)
  have "cmp a c \<noteq> Greater \<longleftrightarrow> cmp b c \<noteq> Greater"
    using trans [of a b c] trans [of b a c] e e2 by auto
  moreover have "cmp c a \<noteq> Greater \<longleftrightarrow> cmp c b \<noteq> Greater"
    using trans [of c a b] trans [of c b a] e e2 by auto
  ultimately show ?thesis using swap [of c a] swap [of c b] by (cases "cmp a c"; cases "cmp b c") auto
qed

lemma equal_right: "cmp b c = Equal \<Longrightarrow> cmp a b = cmp a c"
  using equal_left [of b c a] swap [of a b] swap [of a c] by simp

lemma less_trans: "cmp a b = Less \<Longrightarrow> cmp b c = Less \<Longrightarrow> cmp a c = Less"
proof -
  assume l: "cmp a b = Less" "cmp b c = Less"
  then have "cmp a c \<noteq> Greater" using trans [of a b c] by simp
  moreover have "cmp a c \<noteq> Equal" using equal_left [of a c b] l swap [of b c] by auto
  ultimately show ?thesis by (cases "cmp a c") auto
qed

text \<open>A step of a lexicographic comparison: the head decides unless it is equal.\<close>

lemma lex_trans:
  assumes "(case cmp a b of Equal \<Rightarrow> x | other \<Rightarrow> other) \<noteq> Greater"
    and "(case cmp b c of Equal \<Rightarrow> y | other \<Rightarrow> other) \<noteq> Greater"
    and "x \<noteq> Greater \<Longrightarrow> y \<noteq> Greater \<Longrightarrow> z \<noteq> Greater"
  shows "(case cmp a c of Equal \<Rightarrow> z | other \<Rightarrow> other) \<noteq> Greater"
proof (cases "cmp a b = Equal")
  case True
  then show ?thesis using assms equal_left [OF True, of c] by (cases "cmp b c") auto
next
  case False
  with assms(1) have ab: "cmp a b = Less" by (cases "cmp a b") auto
  have "cmp a c = Less"
  proof (cases "cmp b c = Equal")
    case True
    from equal_right [OF True, of a] ab show ?thesis by simp
  next
    case False
    with assms(2) have "cmp b c = Less" by (cases "cmp b c") auto
    with ab show ?thesis by (rule less_trans)
  qed
  then show ?thesis by simp
qed

lemma lex_swap:
  "y = reverse x \<Longrightarrow>
     (case cmp b a of Equal \<Rightarrow> y | other \<Rightarrow> other) = reverse (case cmp a b of Equal \<Rightarrow> x | other \<Rightarrow> other)"
  using swap [of b a] by (cases "cmp a b") auto

end

interpretation cn: comparison cmp_nat
  by unfold_locales (auto simp: cmp_nat_def split: if_splits)

lemma cmp_str_swap: "cmp_str b a = reverse (cmp_str a b)"
  by (induction a b rule: list_induct2') (auto intro: cn.lex_swap)

lemma cmp_str_trans: "cmp_str a b \<noteq> Greater \<Longrightarrow> cmp_str b c \<noteq> Greater \<Longrightarrow> cmp_str a c \<noteq> Greater"
proof (induction a b arbitrary: c rule: list_induct2')
  case (4 x xs y ys)
  show ?case
  proof (cases c)
    case (Cons z zs)
    with "4.prems" show ?thesis using cn.lex_trans [OF _ _ "4.IH"] by simp
  qed (use 4 in simp)
qed (case_tac c; simp)+

interpretation cs: comparison cmp_str
  by unfold_locales (rule cmp_str_swap, rule cmp_str_trans)

lemma cmp_identifier_swap: "cmp_identifier b a = reverse (cmp_identifier a b)"
  by (cases "parse_u64 a"; cases "parse_u64 b")
    (simp_all add: cmp_identifier_def cs.swap [of b a], rule cn.swap)

lemma cmp_identifier_trans:
  "cmp_identifier a b \<noteq> Greater \<Longrightarrow> cmp_identifier b c \<noteq> Greater \<Longrightarrow> cmp_identifier a c \<noteq> Greater"
  using cn.trans cs.trans [of a b c]
  by (auto simp: cmp_identifier_def split: option.splits)

interpretation ci: comparison cmp_identifier
  by unfold_locales (rule cmp_identifier_swap, rule cmp_identifier_trans)

lemma order_pre_simps:
  "order_pre [] [] = Equal" "order_pre [] (y # ys) = Less" "order_pre (x # xs) [] = Greater"
  "order_pre (x # xs) (y # ys) = (case cmp_identifier x y of Equal \<Rightarrow> order_pre xs ys | other \<Rightarrow> other)"
  by (simp_all add: order_pre_def cmp_nat_def split: ordering.split option.split)

lemma order_pre_swap: "order_pre b a = reverse (order_pre a b)"
  by (induction a b rule: list_induct2') (auto simp: order_pre_simps intro: ci.lex_swap)

lemma order_pre_trans: "order_pre a b \<noteq> Greater \<Longrightarrow> order_pre b c \<noteq> Greater \<Longrightarrow> order_pre a c \<noteq> Greater"
proof (induction a b arbitrary: c rule: list_induct2')
  case (4 x xs y ys)
  show ?case
  proof (cases c)
    case (Cons z zs)
    with "4.prems" show ?thesis using ci.lex_trans [OF _ _ "4.IH"] by (simp add: order_pre_simps)
  qed (use 4 in \<open>simp add: order_pre_simps\<close>)
qed (case_tac c; simp add: order_pre_simps)+

interpretation cp: comparison order_pre
  by unfold_locales (rule order_pre_swap, rule order_pre_trans)

text \<open>The release numbers, over any width that covers both.\<close>

fun lex_at :: "nat list \<Rightarrow> nat list \<Rightarrow> nat list \<Rightarrow> ordering" where
  "lex_at [] a b = Equal"
| "lex_at (i # is) a b =
     (case cmp_nat (release_part a i) (release_part b i) of Equal \<Rightarrow> lex_at is a b | other \<Rightarrow> other)"

interpretation cl: comparison "lex_at is"
proof
  fix a b c
  show "lex_at is b a = reverse (lex_at is a b)"
    by (induction "is") (simp_all, rule cn.lex_swap, simp)
  show "lex_at is a b \<noteq> Greater \<Longrightarrow> lex_at is b c \<noteq> Greater \<Longrightarrow> lex_at is a c \<noteq> Greater"
    by (induction "is") (simp_all, rule cn.lex_trans)
qed

definition cmp_release :: "nat list \<Rightarrow> nat list \<Rightarrow> ordering" where
  "cmp_release a b = (case order_release a b of None \<Rightarrow> Equal | Some r \<Rightarrow> r)"

lemma lex_at_find:
  "lex_at is a b = (case find_map (\<lambda>i. case cmp_nat (release_part a i) (release_part b i) of Equal \<Rightarrow> None | other \<Rightarrow> Some other) is
     of None \<Rightarrow> Equal | Some r \<Rightarrow> r)"
  by (induction "is") (auto split: ordering.split)

lemma lex_at_append: "lex_at (is @ js) a b = (case lex_at is a b of Equal \<Rightarrow> lex_at js a b | other \<Rightarrow> other)"
  by (induction "is") (auto split: ordering.split)

lemma lex_at_beyond: "(\<And>i. i \<in> set is \<Longrightarrow> length a \<le> i \<and> length b \<le> i) \<Longrightarrow> lex_at is a b = Equal"
proof (induction "is")
  case (Cons i "is")
  then have "length a \<le> i \<and> length b \<le> i" by (meson list.set_intros(1))
  then have "release_part a i = 0" "release_part b i = 0" by (simp_all add: release_part_def)
  with Cons show ?case by (simp add: cmp_nat_def)
qed simp

lemma cmp_release_width: "length a \<le> w \<Longrightarrow> length b \<le> w \<Longrightarrow> cmp_release a b = lex_at [0..<w] a b"
proof -
  assume w: "length a \<le> w" "length b \<le> w"
  let ?m = "max (length a) (length b)"
  have "[0..<w] = [0..<?m] @ [?m..<w]" using w upt_add_eq_append [of 0 ?m "w - ?m"] by simp
  moreover have "lex_at [?m..<w] a b = Equal" by (rule lex_at_beyond) auto
  ultimately have "lex_at [0..<w] a b = lex_at [0..<?m] a b"
    by (simp add: lex_at_append split: ordering.split)
  then show ?thesis by (simp add: cmp_release_def order_release_def lex_at_find)
qed

interpretation cr: comparison cmp_release
proof
  fix a b c :: "nat list"
  let ?w = "max (length a) (max (length b) (length c))"
  show "cmp_release b a = reverse (cmp_release a b)"
    using cl.swap [of "[0..<?w]" b a] by (simp add: cmp_release_width [of _ ?w])
  show "cmp_release a b \<noteq> Greater \<Longrightarrow> cmp_release b c \<noteq> Greater \<Longrightarrow> cmp_release a c \<noteq> Greater"
    using cl.trans [of "[0..<?w]" a b c] by (simp add: cmp_release_width [of _ ?w])
qed

text \<open>A finished release comes after its own candidates.\<close>

fun cmp_stage :: "string list option \<Rightarrow> string list option \<Rightarrow> ordering" where
  "cmp_stage None None = Equal"
| "cmp_stage None (Some _) = Greater"
| "cmp_stage (Some _) None = Less"
| "cmp_stage (Some left) (Some right) = order_pre left right"

interpretation cg: comparison cmp_stage
proof
  fix a b c
  show "cmp_stage b a = reverse (cmp_stage a b)"
    by (cases a; cases b) (simp_all, rule cp.swap)
  show "cmp_stage a b \<noteq> Greater \<Longrightarrow> cmp_stage b c \<noteq> Greater \<Longrightarrow> cmp_stage a c \<noteq> Greater"
    by (cases a; cases b; cases c) (simp_all, rule cp.trans)
qed

lemma order_release_not_equal: "order_release a b \<noteq> Some Equal"
  by (auto simp: order_release_def dest!: find_map_Some split: ordering.splits)

lemma version_order_lex:
  "version_order a b =
     (case cmp_release (vs_release a) (vs_release b) of Equal \<Rightarrow> cmp_stage (vs_pre a) (vs_pre b) | other \<Rightarrow> other)"
  using order_release_not_equal [of "vs_release a" "vs_release b"]
  by (cases "vs_pre a"; cases "vs_pre b")
    (auto simp: version_order_def cmp_release_def split: option.split ordering.split)

interpretation cv: comparison version_order
proof
  fix a b c
  show "version_order b a = reverse (version_order a b)"
    unfolding version_order_lex by (rule cr.lex_swap, rule cg.swap)
  show "version_order a b \<noteq> Greater \<Longrightarrow> version_order b c \<noteq> Greater \<Longrightarrow> version_order a c \<noteq> Greater"
    unfolding version_order_lex by (rule cr.lex_trans [OF _ _ cg.trans])
qed

section \<open>Reading back\<close>

definition show_version :: "version \<Rightarrow> string" where
  "show_version v =
     ''v'' @ join ''.'' (map show_nat (vs_release v))
       @ (case vs_pre v of None \<Rightarrow> [] | Some ids \<Rightarrow> ''-'' @ join ''.'' ids)"

definition version_wf :: "version \<Rightarrow> bool" where
  "version_wf v =
     (vs_release v \<noteq> [] \<and> list_all (\<lambda>n. n < 2 ^ 64) (vs_release v)
      \<and> (case vs_pre v of None \<Rightarrow> True
         | Some ids \<Rightarrow> ids \<noteq> [] \<and> ids \<noteq> [[]] \<and> list_all (\<lambda>i. CHR ''.'' \<notin> set i \<and> CHR ''+'' \<notin> set i) ids))"

lemma split_join:
  "ws \<noteq> [] \<Longrightarrow> list_all (\<lambda>w. c \<notin> set w) ws \<Longrightarrow> split_on c (join [c] ws) = ws"
  unfolding split_on_def
proof (induction "[c]" ws rule: join.induct)
  case (2 x)
  then have "list_all (\<lambda>z. z \<noteq> c) x" by (auto simp: list_all_iff)
  then show ?case by (simp add: split_p_none)
next
  case (3 x y ys)
  then have "list_all (\<lambda>z. z \<noteq> c) x" by (auto simp: list_all_iff)
  with 3 show ?case by (simp add: split_p_append)
qed simp

lemma join_split: "join [c] (split_on c s) = s"
  unfolding split_on_def
proof (induction s)
  case (Cons x xs)
  obtain w ws where "split_p (\<lambda>x. x = c) xs = w # ws" by (cases "split_p (\<lambda>x. x = c) xs") auto
  with Cons show ?case by (cases ws) auto
qed simp

lemma join_Nil: "join sep ws = [] \<Longrightarrow> sep \<noteq> [] \<Longrightarrow> ws = [] \<or> ws = [[]]"
  by (cases "(sep, ws)" rule: join.cases) auto

lemma show_nats: "list_all (\<lambda>n. n < 2 ^ 64) ns \<Longrightarrow> map parse_u64 (map show_nat ns) = map Some ns"
  by (induction ns) (simp_all add: parse_u64_def parse_uint_show)

lemma digits_plain: "is_ascii_digit c \<Longrightarrow> c \<notin> {CHR ''.'', CHR ''-'', CHR ''+'', CHR ''v''}"
  by (auto simp: is_ascii_digit_def Let_def)

lemma join_show_chars: "c \<in> set (join ''.'' (map show_nat ns)) \<Longrightarrow> is_ascii_digit c \<or> c = CHR ''.''"
  using set_join [of "''.''" "map show_nat ns"] show_nat_digits by (fastforce simp: list_all_iff)

lemma parse_tag:
  assumes "list_all (\<lambda>n. n < 2 ^ 64) ns" and "ns \<noteq> []" and "CHR ''+'' \<notin> set suffix"
    and "suffix = [] \<or> (\<exists>p. suffix = CHR ''-'' # p \<and> p \<noteq> [])"
  shows "version_parse (CHR ''v'' # join ''.'' (map show_nat ns) @ suffix)
    = Some \<lparr>vs_release = ns, vs_pre = (if suffix = [] then None else Some (split_on CHR ''.'' (tl suffix)))\<rparr>"
proof -
  let ?n = "join ''.'' (map show_nat ns)"
  have chars: "CHR ''-'' \<notin> set ?n" "CHR ''+'' \<notin> set ?n"
    using join_show_chars [of _ ns] digits_plain by fastforce+
  have ne: "?n \<noteq> []" using assms(2) by (auto dest: join_Nil)
  have "split_on CHR ''.'' ?n = map show_nat ns"
    using assms(2) show_nat_no_dot by (intro split_join) (auto simp: list_all_iff)
  then have parts: "map parse_u64 (split_on CHR ''.'' ?n) = map Some ns" using show_nats [OF assms(1)] by simp
  have pp: "parse_parts ?n pre = Some \<lparr>vs_release = ns, vs_pre = map_option (split_on CHR ''.'') pre\<rparr>" for pre
    using assms(2) by (auto simp: parse_parts_def parts Let_def)
  have v: "strip_v (CHR ''v'' # ?n @ suffix) = ?n @ suffix"
    by (simp add: strip_v_def strip_prefix_def starts_with_def)
  show ?thesis
  proof (cases suffix)
    case Nil
    then show ?thesis using v chars ne
      by (simp add: version_parse_def pp Let_def iffD2 [OF split_once_None chars(1)])
  next
    case (Cons c p)
    with assms(4) have "c = CHR ''-''" "p \<noteq> []" by auto
    with Cons show ?thesis using v chars ne assms(3)
      by (simp add: version_parse_def pp Let_def split_once_append [OF chars(1)])
  qed
qed

text \<open>A tag without a dash, and the same tag with a prerelease.\<close>

lemma strip_v_dash: "CHR ''-'' \<notin> set tag \<Longrightarrow> CHR ''-'' \<notin> set (strip_v tag)"
  by (auto simp: strip_v_def strip_prefix_def split: option.split dest: in_set_dropD)

lemma parse_no_dash:
  assumes "CHR ''-'' \<notin> set tag" and "version_parse tag = Some v"
  shows "vs_pre v = None" and "parse_parts (strip_v tag) None = Some v" and "strip_v tag \<noteq> []"
    and "CHR ''+'' \<notin> set (strip_v tag)"
proof -
  have "split_once CHR ''-'' (strip_v tag) = None" using strip_v_dash [OF assms(1)] by (simp add: split_once_None)
  with assms(2) show pp: "parse_parts (strip_v tag) None = Some v"
    and "strip_v tag \<noteq> []" and "CHR ''+'' \<notin> set (strip_v tag)"
    by (auto simp: version_parse_def Let_def split: if_splits)
  from pp show "vs_pre v = None" by (auto simp: parse_parts_def Let_def split: if_splits)
qed

lemma parse_parts_pre:
  "parse_parts n None = Some v \<Longrightarrow> parse_parts n (Some p) = Some (v\<lparr>vs_pre := Some (split_on CHR ''.'' p)\<rparr>)"
  by (auto simp: parse_parts_def Let_def split: if_splits)

lemma parse_with_pre:
  assumes "CHR ''-'' \<notin> set tag" and "version_parse tag = Some v" and "p \<noteq> []" and "CHR ''+'' \<notin> set p"
  shows "version_parse (tag @ ''-'' @ p) = Some (v\<lparr>vs_pre := Some (split_on CHR ''.'' p)\<rparr>)"
proof -
  note n = parse_no_dash [OF assms(1,2)]
  have "strip_v (tag @ ''-'' @ p) = strip_v tag @ CHR ''-'' # p"
  proof (cases tag)
    case (Cons c cs)
    then show ?thesis by (simp add: strip_v_def strip_prefix_def starts_with_def)
  qed (use n(3) in \<open>simp add: strip_v_def strip_prefix_def starts_with_def\<close>)
  then show ?thesis
    using n(4) assms(3,4)
    by (simp add: version_parse_def Let_def split_once_append [OF strip_v_dash [OF assms(1)]] parse_parts_pre [OF n(2)])
qed

section \<open>Properties\<close>

text \<open>every version that can be written as a tag is read back from that tag.\<close>

theorem parse_show_version:
  assumes "version_wf v"
  shows "version_parse (show_version v) = Some v"
proof (cases "vs_pre v")
  case None
  then show ?thesis
    using assms parse_tag [of "vs_release v" "[]"] by (auto simp: version_wf_def show_version_def)
next
  case (Some ids)
  let ?s = "CHR ''-'' # join ''.'' ids"
  have ids: "ids \<noteq> []" "ids \<noteq> [[]]" "list_all (\<lambda>i. CHR ''.'' \<notin> set i) ids" "list_all (\<lambda>i. CHR ''+'' \<notin> set i) ids"
    using assms Some by (auto simp: version_wf_def list_all_iff)
  have "CHR ''+'' \<notin> set ?s" using ids(4) set_join [of "''.''" ids] by (auto simp: list_all_iff)
  moreover have "join ''.'' ids \<noteq> []" using ids by (auto dest: join_Nil)
  ultimately show ?thesis
    using assms Some parse_tag [of "vs_release v" ?s] split_join [OF ids(1,3)]
    by (auto simp: version_wf_def show_version_def)
qed

theorem parse_show_version_witness:
  "version_parse ''v2.10.0-rc.1'' = Some \<lparr>vs_release = [2, 10, 0], vs_pre = Some [''rc'', ''1'']\<rparr>"
proof -
  have "version_wf \<lparr>vs_release = [2, 10, 0], vs_pre = Some [''rc'', ''1'']\<rparr>" by (simp add: version_wf_def)
  from parse_show_version [OF this] show ?thesis by (simp add: show_version_def show_nat_eval)
qed

lemma lex_at_same: "(\<And>j. j \<in> set is \<Longrightarrow> release_part a j = release_part b j) \<Longrightarrow> lex_at is a b = Equal"
  by (induction "is") (simp_all add: cmp_nat_def)

text \<open>The first part that differs decides; a part that is not written counts as nought.\<close>

lemma cmp_release_first:
  assumes "\<And>j. j < i \<Longrightarrow> release_part a j = release_part b j" and "release_part a i < release_part b i"
  shows "cmp_release a b = Less"
proof -
  let ?w = "max (length a) (length b)"
  have "i < length b" using assms(2) by (simp add: release_part_def split: if_splits)
  then have "i < ?w" by simp
  then have "[0..<?w] = [0..<i] @ i # [Suc i..<?w]" using upt_add_eq_append [of 0 i "?w - i"] by (simp add: upt_conv_Cons)
  moreover have "lex_at [0..<i] a b = Equal" by (rule lex_at_same) (simp add: assms(1))
  ultimately have "lex_at [0..<?w] a b = Less" using assms(2) by (simp add: lex_at_append cmp_nat_def)
  then show ?thesis by (simp add: cmp_release_width [of _ ?w])
qed

lemma cmp_release_same: "(\<And>j. release_part a j = release_part b j) \<Longrightarrow> cmp_release a b = Equal"
  using lex_at_same cmp_release_width [of a "max (length a) (length b)" b] by simp

lemma version_chain:
  assumes "version_order a b \<noteq> Greater" and "version_order b c \<noteq> Greater" and "r = version_order a c"
  shows "(r = Less \<or> r = Equal) \<and> (r = Equal \<longleftrightarrow> version_order a b = Equal \<and> version_order b c = Equal)"
proof -
  have "r \<noteq> Greater" using cv.trans [OF assms(1,2)] assms(3) by simp
  moreover have "r = Equal \<longleftrightarrow> version_order a b = Equal \<and> version_order b c = Equal"
  proof
    assume "r = Equal"
    then have "version_order a b = version_order c b" using assms(3) cv.equal_left [of a c b] by simp
    then have "version_order a b = reverse (version_order b c)" using cv.swap [of c b] by simp
    with assms show "version_order a b = Equal \<and> version_order b c = Equal"
      by (cases "version_order a b"; cases "version_order b c") auto
  next
    assume "version_order a b = Equal \<and> version_order b c = Equal"
    then show "r = Equal" using assms(3) cv.equal_left [of a b c] by simp
  qed
  ultimately show ?thesis by (cases r) auto
qed

text \<open>C36: release tags are ordered by a total preorder on the tags that parse. Two tags compare
  exactly when both parse; swapping them reverses the answer; a tag is equal to itself; and the
  answers chain: older or equal twice is older or equal, and equal only when both steps are.
  The first release number that differs decides, a missing one counting as nought, and with the
  same numbers a prerelease is older than the release.\<close>

theorem compare_order:
  "(version_compare a b = None \<longleftrightarrow> version_parse a = None \<or> version_parse b = None)
   \<and> version_compare b a = map_option reverse (version_compare a b)
   \<and> (version_parse a \<noteq> None \<longrightarrow> version_compare a a = Some Equal)
   \<and> (version_compare a b \<in> {Some Less, Some Equal} \<and> version_compare b c \<in> {Some Less, Some Equal} \<longrightarrow>
        version_compare a c \<in> {Some Less, Some Equal}
        \<and> (version_compare a c = Some Equal \<longleftrightarrow> version_compare a b = Some Equal \<and> version_compare b c = Some Equal))
   \<and> (\<forall>va vb i. version_parse a = Some va \<and> version_parse b = Some vb
        \<and> (\<forall>j < i. release_part (vs_release va) j = release_part (vs_release vb) j)
        \<and> release_part (vs_release va) i < release_part (vs_release vb) i \<longrightarrow> version_compare a b = Some Less)
   \<and> (\<forall>va vb. version_parse a = Some va \<and> version_parse b = Some vb
        \<and> (\<forall>j. release_part (vs_release va) j = release_part (vs_release vb) j)
        \<and> vs_pre va \<noteq> None \<and> vs_pre vb = None \<longrightarrow> version_compare a b = Some Less)"
proof -
  have first: "version_order va vb = Less" if "\<forall>j < i. release_part (vs_release va) j = release_part (vs_release vb) j"
    "release_part (vs_release va) i < release_part (vs_release vb) i" for va vb i
    using cmp_release_first [of i "vs_release va" "vs_release vb"] that by (simp add: version_order_lex)
  have pre: "version_order va vb = Less" if "\<forall>j. release_part (vs_release va) j = release_part (vs_release vb) j"
    "vs_pre va \<noteq> None" "vs_pre vb = None" for va vb
    using cmp_release_same [of "vs_release va" "vs_release vb"] that by (auto simp: version_order_lex)
  have swap: "version_compare b a = map_option reverse (version_compare a b)"
    by (cases "version_parse a"; cases "version_parse b") (simp_all add: version_compare_def cv.swap [symmetric])
  have trans: "version_compare a c \<in> {Some Less, Some Equal}
      \<and> (version_compare a c = Some Equal \<longleftrightarrow> version_compare a b = Some Equal \<and> version_compare b c = Some Equal)"
    if ab: "version_compare a b \<in> {Some Less, Some Equal}" and bc: "version_compare b c \<in> {Some Less, Some Equal}"
  proof -
    obtain va vb vc where v: "version_parse a = Some va" "version_parse b = Some vb" "version_parse c = Some vc"
      using ab bc by (cases "version_parse a"; cases "version_parse b"; cases "version_parse c") (simp_all add: version_compare_def)
    have "version_order va vb \<noteq> Greater" "version_order vb vc \<noteq> Greater" using ab bc v by (auto simp: version_compare_def)
    from version_chain [OF this refl] show ?thesis by (auto simp: version_compare_def v)
  qed
  have decide: "version_parse a = Some va \<and> version_parse b = Some vb
      \<Longrightarrow> version_order va vb = Less \<Longrightarrow> version_compare a b = Some Less" for va vb
    by (simp add: version_compare_def)
  have parses: "version_compare a b = None \<longleftrightarrow> version_parse a = None \<or> version_parse b = None"
    by (simp add: version_compare_def split: option.split)
  have self: "version_parse a \<noteq> None \<longrightarrow> version_compare a a = Some Equal" by (auto simp: version_compare_def)
  show ?thesis
    using parses swap self trans first pre decide by (intro conjI) blast+
qed

lemma demo_tags:
  "version_parse ''v2.9.0'' = Some \<lparr>vs_release = [2, 9, 0], vs_pre = None\<rparr>"
  "version_parse ''v2.10.0'' = Some \<lparr>vs_release = [2, 10, 0], vs_pre = None\<rparr>"
  "version_parse ''v2.8.0'' = Some \<lparr>vs_release = [2, 8, 0], vs_pre = None\<rparr>"
  "version_parse ''v2.8.1'' = Some \<lparr>vs_release = [2, 8, 1], vs_pre = None\<rparr>"
  using parse_tag [of "[2, 9, 0]" "[]"] parse_tag [of "[2, 10, 0]" "[]"]
    parse_tag [of "[2, 8, 0]" "[]"] parse_tag [of "[2, 8, 1]" "[]"]
  by (simp_all add: show_nat_eval)

theorem compare_order_witness:
  "version_compare ''v2.9.0'' ''v2.10.0'' = Some Less \<and> version_compare ''v2.10.0'' ''v2.9.0'' = Some Greater"
proof -
  have "\<forall>j < 1. release_part [2, 9, 0] j = release_part [2, 10, 0] j" "release_part [2, 9, 0] 1 < release_part [2, 10, 0] 1"
    by (simp_all add: release_part_def)
  then have "version_compare ''v2.9.0'' ''v2.10.0'' = Some Less"
    using compare_order [of "''v2.9.0''" "''v2.10.0''" "''v2.10.0''"] by (fastforce simp: demo_tags)
  then show ?thesis using compare_order [of "''v2.9.0''" "''v2.10.0''" "''v2.10.0''"] by simp
qed

text \<open>a prerelease comes before its own release and after every release before that one.\<close>

theorem prerelease_between:
  assumes "version_compare older final = Some Less" and "CHR ''-'' \<notin> set older" and "CHR ''-'' \<notin> set final"
    and "p \<noteq> []" and "CHR ''+'' \<notin> set p"
  shows "version_compare (final @ ''-'' @ p) final = Some Less
    \<and> version_compare older (final @ ''-'' @ p) = Some Less"
proof -
  obtain vo vf where v: "version_parse older = Some vo" "version_parse final = Some vf"
    using assms by (auto simp: version_compare_def split: option.splits)
  have no: "vs_pre vo = None" and nf: "vs_pre vf = None"
    using parse_no_dash(1) [OF assms(2) v(1)] parse_no_dash(1) [OF assms(3) v(2)] by simp_all
  note p = parse_with_pre [OF assms(3) v(2) assms(4,5)]
  have "cmp_release (vs_release vo) (vs_release vf) = Less"
    using assms(1) v no nf by (auto simp: version_compare_def version_order_lex split: ordering.splits)
  then show ?thesis using v p nf no by (simp add: version_compare_def version_order_lex)
qed

theorem prerelease_between_witness:
  "version_compare ''v2.8.1-rc1'' ''v2.8.1'' = Some Less \<and> version_compare ''v2.8.0'' ''v2.8.1-rc1'' = Some Less"
proof -
  have "version_compare ''v2.8.0'' ''v2.8.1'' = Some Less"
    by (simp add: version_compare_def demo_tags) code_simp
  from prerelease_between [OF this, of "''rc1''"] show ?thesis by simp
qed

end
