(* ===== verification/Upgrade_Media.thy ===== *)
theory Upgrade_Media
  imports Host_Files
begin

text \<open>
  Where images are kept, from \<open>app/upgrade_worker.rs\<close>: mount points and the SD card slot, the
  choice of a directory to stage an image in, the tag in the name of a published image and the
  note that records what is staged. What the kernel says of a path (its device number, the state
  of its filesystem) is an argument.
\<close>

section \<open>Mounts\<close>

record statvfs =
  sv_read_only :: bool
  sv_blocks_free :: nat
  sv_blocks_available :: nat
  sv_fragment_size :: nat

record media =
  md_dev :: "string \<Rightarrow> (io_error, nat) result"
  md_statvfs :: "string \<Rightarrow> statvfs option"
  md_card_device :: bool

text \<open>\<open>Path::parent\<close> of an absolute path.\<close>

definition path_parent :: "string \<Rightarrow> string option" where
  "path_parent p =
     (if p = ''/'' then None
      else
        (let up = rev (drop 1 (dropWhile (\<lambda>c. c \<noteq> CHR ''/'') (rev p)))
         in Some (if up = [] then ''/'' else up)))"

definition is_mount_point :: "media \<Rightarrow> string \<Rightarrow> (io_error, bool) result" where
  "is_mount_point md p =
     (case path_parent p of
        None \<Rightarrow> Inr True
      | Some parent \<Rightarrow>
          (case (md_dev md p, md_dev md parent) of
             (Inr dir, Inr up) \<Rightarrow> Inr (dir \<noteq> up)
           | (Inl e, Inr _) \<Rightarrow> if e = NotFound then Inr False else Inl e
           | (Inr _, Inl e) \<Rightarrow> if e = NotFound then Inr False else Inl e
           | (Inl e, Inl e') \<Rightarrow> if e = NotFound \<or> e' = NotFound then Inr False else Inl e))"

definition is_mounted_or_false :: "media \<Rightarrow> string \<Rightarrow> bool" where
  "is_mounted_or_false md p = (case is_mount_point md p of Inr b \<Rightarrow> b | Inl _ \<Rightarrow> False)"

definition card_inserted :: "media \<Rightarrow> bool" where
  "card_inserted md = md_card_device md"

section \<open>Staging\<close>

definition UPGRADE_STAGING_DIRS :: "string list" where
  "UPGRADE_STAGING_DIRS = [''/mnt/sdcard'', ''/mnt/overlay'', ''/tmp'']"

definition UPGRADE_DIR_NAME :: string where "UPGRADE_DIR_NAME = ''os_upgrade''"

definition staging_fits :: "media \<Rightarrow> nat \<Rightarrow> string \<Rightarrow> bool" where
  "staging_fits md image_size candidate =
     (is_mounted_or_false md candidate
      \<and> (case md_statvfs md candidate of
           None \<Rightarrow> False
         | Some stat \<Rightarrow> \<not> sv_read_only stat \<and> image_size \<le> sv_blocks_free stat * sv_fragment_size stat))"

fun first_staging :: "media \<Rightarrow> nat \<Rightarrow> string list \<Rightarrow> string" where
  "first_staging md image_size [] = ''/tmp'' @ ''/'' @ UPGRADE_DIR_NAME"
| "first_staging md image_size (candidate # rest) =
     (if staging_fits md image_size candidate then candidate @ ''/'' @ UPGRADE_DIR_NAME
      else first_staging md image_size rest)"

definition select_staging_dir :: "media \<Rightarrow> nat \<Rightarrow> string" where
  "select_staging_dir md image_size = first_staging md image_size UPGRADE_STAGING_DIRS"

section \<open>Names and notes\<close>

definition OTA_PREFIX :: string where "OTA_PREFIX = ''tp2-bmc-firmware-ota-''"
definition OTA_SUFFIX :: string where "OTA_SUFFIX = ''.tpu''"

definition tag_from_ota_name :: "string \<Rightarrow> string option" where
  "tag_from_ota_name file_name =
     (case strip_prefix OTA_PREFIX file_name of
        None \<Rightarrow> None
      | Some rest \<Rightarrow>
          if \<not> ends_with OTA_SUFFIX rest then None
          else
            (let tag = take (length rest - length OTA_SUFFIX) rest
             in if tag \<noteq> [] then Some tag else None))"

definition STAGED_NOTE :: path where "STAGED_NOTE = (''/mnt/overlay'', ''staged-firmware'')"

definition staged_note :: "string \<Rightarrow> string \<Rightarrow> string option \<Rightarrow> string" where
  "staged_note file_name now running =
     unlines
       ((case tag_from_ota_name file_name of Some tag \<Rightarrow> [''VERSION='' @ tag] | None \<Rightarrow> [])
        @ [''FILE='' @ file_name, ''STAGED_AT='' @ now, ''SOURCE=upload'']
        @ (case running of Some v \<Rightarrow> [''REPLACES='' @ v] | None \<Rightarrow> []))"

definition write_staged_note :: "string \<Rightarrow> string \<Rightarrow> string option \<Rightarrow> fs \<Rightarrow> (io_error, unit) result \<times> fs" where
  "write_staged_note file_name now running fs =
     fs_write STAGED_NOTE (Utf8 (staged_note file_name now running)) fs"

section \<open>Facts\<close>

lemma tag_from_ota_name_Some:
  "tag_from_ota_name n = Some tag \<longleftrightarrow> tag \<noteq> [] \<and> n = OTA_PREFIX @ tag @ OTA_SUFFIX"
proof
  assume "tag_from_ota_name n = Some tag"
  then obtain rest where r: "n = OTA_PREFIX @ rest" "ends_with OTA_SUFFIX rest"
    "tag = take (length rest - length OTA_SUFFIX) rest" "tag \<noteq> []"
    by (auto simp: tag_from_ota_name_def Let_def split: option.splits if_splits)
  then show "tag \<noteq> [] \<and> n = OTA_PREFIX @ tag @ OTA_SUFFIX" by (auto simp: ends_with_iff)
next
  assume "tag \<noteq> [] \<and> n = OTA_PREFIX @ tag @ OTA_SUFFIX"
  moreover have "strip_prefix OTA_PREFIX (OTA_PREFIX @ tag @ OTA_SUFFIX) = Some (tag @ OTA_SUFFIX)" by simp
  moreover have "ends_with OTA_SUFFIX (tag @ OTA_SUFFIX)" by (auto simp: ends_with_iff)
  ultimately show "tag_from_ota_name n = Some tag"
    by (simp add: tag_from_ota_name_def Let_def del: strip_prefix_Some)
qed

text \<open>The staging directory is the first that fits, and \<open>/tmp\<close> when none does.\<close>

lemma first_staging_cases:
  "(\<exists>before c after. ds = before @ c # after \<and> staging_fits md n c \<and> list_all (\<lambda>d. \<not> staging_fits md n d) before
     \<and> first_staging md n ds = c @ ''/'' @ UPGRADE_DIR_NAME)
   \<or> list_all (\<lambda>d. \<not> staging_fits md n d) ds \<and> first_staging md n ds = ''/tmp'' @ ''/'' @ UPGRADE_DIR_NAME"
proof (induction ds)
  case (Cons d ds)
  show ?case
  proof (cases "staging_fits md n d")
    case True
    then have "d # ds = [] @ d # ds \<and> staging_fits md n d \<and> list_all (\<lambda>d. \<not> staging_fits md n d) []
        \<and> first_staging md n (d # ds) = d @ ''/'' @ UPGRADE_DIR_NAME" by simp
    then show ?thesis by blast
  next
    case False
    from Cons.IH show ?thesis
    proof
      assume "\<exists>before c after. ds = before @ c # after \<and> staging_fits md n c \<and> list_all (\<lambda>d. \<not> staging_fits md n d) before
        \<and> first_staging md n ds = c @ ''/'' @ UPGRADE_DIR_NAME"
      then obtain before c after where "ds = before @ c # after" "staging_fits md n c"
        "list_all (\<lambda>d. \<not> staging_fits md n d) before" "first_staging md n ds = c @ ''/'' @ UPGRADE_DIR_NAME" by blast
      then have "d # ds = (d # before) @ c # after \<and> staging_fits md n c
          \<and> list_all (\<lambda>d. \<not> staging_fits md n d) (d # before) \<and> first_staging md n (d # ds) = c @ ''/'' @ UPGRADE_DIR_NAME"
        using False by simp
      then show ?thesis by blast
    qed (use False in simp)
  qed
qed simp

end
