(* ===== verification/Firmware_Sources.thy ===== *)
theory Firmware_Sources
  imports Upgrade_Media
begin

text \<open>
  Where the board looks for firmware, \<open>app/firmware_sources.rs\<close>: the list of sources, the default
  set, the rewriting of retired locations on every read, and the check a new list has to pass.
  The conversion to and from JSON is a parameter; the file is one of the explicit store.
\<close>

section \<open>Sources\<close>

datatype source_kind = Github | Http | Local

record source =
  sc_id :: string
  sc_kind :: source_kind
  sc_label :: string
  sc_location :: string
  sc_enabled :: bool

type_synonym sources = "source list"

record sources_json =
  sj_read :: "string \<Rightarrow> sources option"
  sj_write :: "sources \<Rightarrow> string option"

definition SOURCES_PATH :: path where
  "SOURCES_PATH = (''/mnt/overlay'', ''firmware-sources.json'')"

definition FORK_LOCATION :: string where "FORK_LOCATION = ''excavador-turing/BMC-Firmware''"
definition FORK_LABEL :: string where "FORK_LABEL = ''excavador-turing (this fork)''"

definition RETIRED_LOCATIONS :: "(string \<times> string) list" where
  "RETIRED_LOCATIONS = [(''excavador/tp2-bmc-firmware'', FORK_LOCATION)]"

definition RETIRED_FORK_LABEL :: string where "RETIRED_FORK_LABEL = ''excavador (this fork)''"

definition migrate_source :: "source \<Rightarrow> source \<times> bool" where
  "migrate_source s =
     (case map_of RETIRED_LOCATIONS (sc_location s) of
        None \<Rightarrow> (s, False)
      | Some to \<Rightarrow>
          (s\<lparr>sc_location := to,
             sc_label := (if sc_label s = RETIRED_FORK_LABEL then FORK_LABEL else sc_label s)\<rparr>, True))"

definition migrate :: "sources \<Rightarrow> sources \<times> bool" where
  "migrate ss = (map (fst \<circ> migrate_source) ss, list_ex (snd \<circ> migrate_source) ss)"

definition sources_default :: sources where
  "sources_default =
     [\<lparr>sc_id = ''fork'', sc_kind = Github, sc_label = FORK_LABEL,
       sc_location = FORK_LOCATION, sc_enabled = True\<rparr>,
      \<lparr>sc_id = ''local'', sc_kind = Local, sc_label = ''SD card'',
       sc_location = ''/mnt/sdcard/firmware'', sc_enabled = True\<rparr>,
      \<lparr>sc_id = ''turingpi'', sc_kind = Github, sc_label = ''Turing Pi (official releases)'',
       sc_location = ''turing-machines/BMC-Firmware'', sc_enabled = True\<rparr>,
      \<lparr>sc_id = ''turingpi-http'', sc_kind = Http, sc_label = ''Turing Pi (firmware.turingpi.com)'',
       sc_location = ''https://firmware.turingpi.com/turing-pi2'', sc_enabled = True\<rparr>]"

definition sources_store :: "sources_json \<Rightarrow> sources \<Rightarrow> fs \<Rightarrow> (io_error, unit) result \<times> fs" where
  "sources_store js ss fs =
     (case sj_write js ss of
        None \<Rightarrow> (Inl InvalidData, fs)
      | Some body \<Rightarrow> fs_write SOURCES_PATH (Utf8 body) fs)"

definition sources_read :: "sources_json \<Rightarrow> fs \<Rightarrow> sources" where
  "sources_read js fs =
     (case fs_read_to_string fs SOURCES_PATH of
        Inl _ \<Rightarrow> sources_default
      | Inr body \<Rightarrow> (case sj_read js body of None \<Rightarrow> sources_default | Some ss \<Rightarrow> ss))"

definition sources_load :: "sources_json \<Rightarrow> fs \<Rightarrow> sources \<times> fs" where
  "sources_load js fs =
     (case migrate (sources_read js fs) of
        (ss, False) \<Rightarrow> (ss, fs)
      | (ss, True) \<Rightarrow> (ss, snd (sources_store js ss fs)))"

section \<open>The check of a new list\<close>

datatype source_error =
    EmptyId
  | DuplicateId string
  | EmptyLocation string
  | NotOwnerRepo string string
  | NotHttpUrl string
  | NamesAnImage string
  | NotAbsolutePath string

definition check_location :: "source \<Rightarrow> source_error option" where
  "check_location s =
     (case sc_kind s of
        Github \<Rightarrow>
          (let parts = split_on CHR ''/'' (sc_location s)
           in if length parts \<noteq> 2 \<or> list_ex (\<lambda>p. p = []) parts
              then Some (NotOwnerRepo (sc_id s) (sc_location s)) else None)
      | Http \<Rightarrow>
          if \<not> starts_with ''http'' (sc_location s) then Some (NotHttpUrl (sc_id s))
          else if ends_with ''.tpu'' (sc_location s) then Some (NamesAnImage (sc_id s))
          else None
      | Local \<Rightarrow>
          if \<not> starts_with ''/'' (sc_location s) then Some (NotAbsolutePath (sc_id s)) else None)"

fun validate_from :: "string list \<Rightarrow> sources \<Rightarrow> (source_error, unit) result" where
  "validate_from seen [] = Inr ()"
| "validate_from seen (s # ss) =
     (if trim (sc_id s) = [] then Inl EmptyId
      else if sc_id s \<in> set seen then Inl (DuplicateId (sc_id s))
      else if trim (sc_location s) = [] then Inl (EmptyLocation (sc_id s))
      else (case check_location s of
              Some e \<Rightarrow> Inl e
            | None \<Rightarrow> validate_from (seen @ [sc_id s]) ss))"

definition sources_validate :: "sources \<Rightarrow> (source_error, unit) result" where
  "sources_validate ss = validate_from [] ss"

section \<open>Facts\<close>

lemma migrate_source_settled [simp]: "migrate_source (fst (migrate_source s)) = (fst (migrate_source s), False)"
  by (auto simp: migrate_source_def RETIRED_LOCATIONS_def FORK_LOCATION_def)

lemma migrate_settled: "migrate (fst (migrate ss)) = (fst (migrate ss), False)"
  by (simp add: migrate_def list_ex_iff)

lemma migrate_keeps [simp]:
  "sc_id (fst (migrate_source s)) = sc_id s" "sc_kind (fst (migrate_source s)) = sc_kind s"
  "sc_enabled (fst (migrate_source s)) = sc_enabled s"
  by (simp_all add: migrate_source_def RETIRED_LOCATIONS_def)

lemma migrate_unchanged: "migrate ss = (ss', False) \<Longrightarrow> ss' = ss"
  by (induction ss arbitrary: ss') (auto simp: migrate_def migrate_source_def split: option.splits)

text \<open>What the check accepts, said of the whole list.\<close>

definition location_ok :: "source \<Rightarrow> bool" where
  "location_ok s =
     (case sc_kind s of
        Github \<Rightarrow> (\<exists>owner repo. sc_location s = owner @ ''/'' @ repo \<and> owner \<noteq> [] \<and> repo \<noteq> []
                     \<and> CHR ''/'' \<notin> set owner \<and> CHR ''/'' \<notin> set repo)
      | Http \<Rightarrow> (\<exists>rest. sc_location s = ''http'' @ rest) \<and> \<not> (\<exists>base. sc_location s = base @ ''.tpu'')
      | Local \<Rightarrow> (\<exists>rest. sc_location s = CHR ''/'' # rest))"

lemma two_parts:
  "length (split_on CHR ''/'' s) = 2 \<and> \<not> list_ex (\<lambda>p. p = []) (split_on CHR ''/'' s)
   \<longleftrightarrow> (\<exists>a b. s = a @ ''/'' @ b \<and> a \<noteq> [] \<and> b \<noteq> [] \<and> CHR ''/'' \<notin> set a \<and> CHR ''/'' \<notin> set b)"
  (is "?l \<longleftrightarrow> ?r")
proof
  assume ?r
  then obtain a b where s: "s = a @ CHR ''/'' # b" "a \<noteq> []" "b \<noteq> []" "CHR ''/'' \<notin> set a" "CHR ''/'' \<notin> set b" by auto
  then have "list_all (\<lambda>c. c \<noteq> CHR ''/'') a" "list_all (\<lambda>c. c \<noteq> CHR ''/'') b" by (auto simp: list_all_iff)
  with s show ?l by (simp add: split_on_def split_p_append split_p_none)
next
  assume l: ?l
  show ?r
  proof (cases "split_once CHR ''/'' s")
    case None
    then have "list_all (\<lambda>c. c \<noteq> CHR ''/'') s" by (auto simp: split_once_None list_all_iff)
    with l show ?thesis by (simp add: split_on_def split_p_none)
  next
    case (Some ab)
    then obtain a b where s: "s = a @ CHR ''/'' # b" and a: "CHR ''/'' \<notin> set a"
      by (cases ab) (auto dest: split_once_SomeD)
    then have "list_all (\<lambda>c. c \<noteq> CHR ''/'') a" by (auto simp: list_all_iff)
    with s have sp: "split_on CHR ''/'' s = a # split_on CHR ''/'' b" by (simp add: split_on_def split_p_append)
    with l obtain c where c: "split_on CHR ''/'' b = [c]" "a \<noteq> []" "c \<noteq> []"
      by (cases "split_on CHR ''/'' b") auto
    have "CHR ''/'' \<notin> set b"
    proof
      assume "CHR ''/'' \<in> set b"
      then obtain x y where "b = x @ CHR ''/'' # y" "CHR ''/'' \<notin> set x" by (meson split_list_first)
      moreover from this have "list_all (\<lambda>c. c \<noteq> CHR ''/'') x" by (auto simp: list_all_iff)
      ultimately have "split_on CHR ''/'' b = x # split_on CHR ''/'' y" by (simp add: split_on_def split_p_append)
      with c show False by (metis list.inject split_on_def split_p_not_Nil)
    qed
    moreover from this have "list_all (\<lambda>c. c \<noteq> CHR ''/'') b" by (auto simp: list_all_iff)
    ultimately show ?thesis using s a c by (auto simp: split_on_def split_p_none)
  qed
qed

lemma check_location_iff: "check_location s = None \<longleftrightarrow> location_ok s"
  using two_parts [of "sc_location s"]
  by (auto simp: check_location_def location_ok_def Let_def starts_with_iff ends_with_iff split: source_kind.split)

lemma validate_from_iff:
  "validate_from seen ss = Inr () \<longleftrightarrow>
     distinct (map sc_id ss) \<and> set (map sc_id ss) \<inter> set seen = {}
     \<and> (\<forall>s \<in> set ss. trim (sc_id s) \<noteq> [] \<and> trim (sc_location s) \<noteq> [] \<and> location_ok s)"
  by (induction seen ss rule: validate_from.induct)
    (auto simp: check_location_iff [symmetric] split: option.splits)

section \<open>Properties\<close>

text \<open>a list of sources is accepted exactly when no identifier or location is blank, no two
  sources share an identifier, and every location has the form its kind needs.\<close>

theorem sources_validate_iff:
  "sources_validate ss = Inr () \<longleftrightarrow>
     distinct (map sc_id ss)
     \<and> (\<forall>s \<in> set ss. trim (sc_id s) \<noteq> [] \<and> trim (sc_location s) \<noteq> [] \<and> location_ok s)"
  by (simp add: sources_validate_def validate_from_iff)

lemma github_location_ok:
  "sc_kind s = Github \<Longrightarrow> sc_location s = owner @ ''/'' @ repo \<Longrightarrow> owner \<noteq> [] \<Longrightarrow> repo \<noteq> []
     \<Longrightarrow> CHR ''/'' \<notin> set owner \<Longrightarrow> CHR ''/'' \<notin> set repo \<Longrightarrow> location_ok s"
  by (auto simp: location_ok_def)

lemma default_locations: "\<forall>s \<in> set sources_default. location_ok s"
proof -
  have "location_ok (sources_default ! 0)"
    by (rule github_location_ok [of _ "''excavador-turing''" "''BMC-Firmware''"])
      (simp_all add: sources_default_def FORK_LOCATION_def)
  moreover have "location_ok (sources_default ! 2)"
    by (rule github_location_ok [of _ "''turing-machines''" "''BMC-Firmware''"])
      (simp_all add: sources_default_def)
  moreover have "location_ok (sources_default ! 1)" "location_ok (sources_default ! 3)"
    by (simp_all add: sources_default_def location_ok_def ends_with_iff [symmetric] starts_with_iff [symmetric]
        ends_with_def starts_with_def)
  ultimately show ?thesis by (simp add: sources_default_def)
qed

theorem sources_validate_iff_witness: "sources_validate sources_default = Inr ()"
proof -
  have "distinct (map sc_id sources_default)"
    and "\<forall>s \<in> set sources_default. trim (sc_id s) \<noteq> [] \<and> trim (sc_location s) \<noteq> []"
    by (simp_all add: sources_default_def FORK_LOCATION_def trim_def is_whitespace_def)
  then show ?thesis using sources_validate_iff [of sources_default] default_locations by simp
qed

lemma migrated_location: "sc_location (fst (migrate_source s)) \<notin> fst ` set RETIRED_LOCATIONS"
  by (auto simp: migrate_source_def RETIRED_LOCATIONS_def FORK_LOCATION_def)

lemma migrate_location_ok:
  assumes "location_ok s \<and> trim (sc_location s) \<noteq> []" and "sc_kind s = Github \<or> sc_location s \<notin> fst ` set RETIRED_LOCATIONS"
  shows "location_ok (fst (migrate_source s)) \<and> trim (sc_location (fst (migrate_source s))) \<noteq> []"
proof (cases "sc_location s = ''excavador/tp2-bmc-firmware''")
  case True
  let ?t = "fst (migrate_source s)"
  have loc: "sc_location ?t = ''excavador-turing/BMC-Firmware''"
    using True by (simp add: migrate_source_def RETIRED_LOCATIONS_def FORK_LOCATION_def)
  have "sc_kind ?t = Github" using True assms(2) by (simp add: RETIRED_LOCATIONS_def)
  then have "location_ok ?t"
    by (rule github_location_ok [of _ "''excavador-turing''" "''BMC-Firmware''"]) (simp_all add: loc)
  then show ?thesis by (simp add: loc trim_def is_whitespace_def)
next
  case False
  then show ?thesis using assms(1) by (simp add: migrate_source_def RETIRED_LOCATIONS_def)
qed

lemma retired_is_github: "location_ok s \<Longrightarrow> sc_kind s = Github \<or> sc_location s \<notin> fst ` set RETIRED_LOCATIONS"
  by (cases "sc_kind s") (auto simp: location_ok_def RETIRED_LOCATIONS_def)

lemma migrate_valid: "sources_validate ss = Inr () \<Longrightarrow> sources_validate (fst (migrate ss)) = Inr ()"
  using migrate_location_ok [OF _ retired_is_github]
  by (auto simp: sources_validate_def validate_from_iff migrate_def comp_def)

lemma sources_read_stored:
  assumes "fs_write SOURCES_PATH (Utf8 body) fs = (Inr (), fs')" and "sj_read js body = Some ss"
    and "SOURCES_PATH \<notin> set (fs_unreadable fs)"
  shows "sources_read js fs' = ss"
proof -
  have "fs_read fs' SOURCES_PATH = Inr (Utf8 body)"
    using assms(1,3)
    by (auto simp: fs_write_def fs_read_def fs_inode_def fs_put_def split: option.splits fault.splits)
  then show ?thesis using assms(2) by (simp add: sources_read_def fs_read_to_string_def)
qed

text \<open>reading the sources never yields a retired location, whether or not the rewritten list
  could be saved; the rewriting keeps every source, its identifier, its kind and whether it is
  enabled, and a list that was valid stays so. When the rewritten list could be saved, reading
  again gives the same list and writes nothing.\<close>

theorem load_migrated:
  assumes "sources_load js fs = (ss, fs')"
    and "\<And>ss body. sj_write js ss = Some body \<Longrightarrow> sj_read js body = Some ss"
    and "SOURCES_PATH \<notin> set (fs_unreadable fs)"
  shows "list_all (\<lambda>s. sc_location s \<notin> fst ` set RETIRED_LOCATIONS) ss
    \<and> map (\<lambda>s. (sc_id s, sc_kind s, sc_enabled s)) ss
        = map (\<lambda>s. (sc_id s, sc_kind s, sc_enabled s)) (sources_read js fs)
    \<and> (sources_validate (sources_read js fs) = Inr () \<longrightarrow> sources_validate ss = Inr ())
    \<and> (is_ok (fst (sources_store js ss fs)) \<longrightarrow> sources_load js fs' = (ss, fs'))"
proof -
  let ?r = "sources_read js fs"
  have ss: "ss = fst (migrate ?r)" using assms(1) by (auto simp: sources_load_def split: prod.splits bool.splits)
  have reload: "sources_load js fs' = (ss, fs')" if ok: "is_ok (fst (sources_store js ss fs))"
  proof (cases "snd (migrate ?r)")
    case True
    then have fs': "fs' = snd (sources_store js ss fs)"
      using assms(1) ss by (auto simp: sources_load_def split: prod.splits bool.splits)
    obtain body where b: "sj_write js ss = Some body" using ok by (auto simp: sources_store_def split: option.splits)
    have "fs_write SOURCES_PATH (Utf8 body) fs = (Inr (), fs')"
      using ok fs' b
      by (cases "fs_write SOURCES_PATH (Utf8 body) fs"; cases "fst (fs_write SOURCES_PATH (Utf8 body) fs)")
        (auto simp: sources_store_def)
    from sources_read_stored [OF this assms(2) [OF b] assms(3)] show ?thesis
      using migrate_settled [of ?r] ss by (simp add: sources_load_def)
  next
    case False
    then have "migrate ?r = (ss, False)" using ss by (metis prod.collapse)
    then have "fs' = fs" "ss = ?r" using assms(1) migrate_unchanged by (auto simp: sources_load_def)
    then show ?thesis using assms(1) by simp
  qed
  show ?thesis
    using reload migrate_valid [of ?r] migrated_location unfolding ss
    by (simp add: migrate_def list_all_iff comp_def)
qed

definition moved_source :: "string \<Rightarrow> string \<Rightarrow> source" where
  "moved_source location label =
     \<lparr>sc_id = ''fork'', sc_kind = Github, sc_label = label, sc_location = location, sc_enabled = True\<rparr>"

definition demo_json :: sources_json where
  "demo_json =
     (let old = [moved_source ''excavador/tp2-bmc-firmware'' RETIRED_FORK_LABEL];
          new = [moved_source FORK_LOCATION FORK_LABEL]
      in \<lparr>sj_read = (\<lambda>s. if s = ''old'' then Some old else if s = ''new'' then Some new else None),
          sj_write = (\<lambda>ss. if ss = old then Some ''old'' else if ss = new then Some ''new'' else None)\<rparr>)"

definition demo_overlay :: fs where
  "demo_overlay =
     \<lparr>fs_names = [(SOURCES_PATH, 0)],
      fs_inodes = (\<lambda>_. \<lparr>in_contents = Utf8 ''old'', in_modified = 0\<rparr>),
      fs_next = 1, fs_time = 5, fs_unreadable = [], fs_faults = [], fs_closed_dirs = []\<rparr>"

theorem load_migrated_witness:
  "\<exists>fs'. sources_load demo_json demo_overlay = ([moved_source FORK_LOCATION FORK_LABEL], fs')
     \<and> sources_load demo_json fs' = ([moved_source FORK_LOCATION FORK_LABEL], fs')"
proof -
  have l: "fst (sources_load demo_json demo_overlay) = [moved_source FORK_LOCATION FORK_LABEL]"
    by (simp add: sources_load_def sources_read_def demo_json_def demo_overlay_def fs_read_to_string_def fs_read_def
        fs_inode_def migrate_def migrate_source_def moved_source_def RETIRED_LOCATIONS_def Let_def)
  have js: "sj_write demo_json ss = Some body \<Longrightarrow> sj_read demo_json body = Some ss" for ss body
    by (auto simp: demo_json_def Let_def split: if_splits)
  have w: "is_ok (fst (sources_store demo_json [moved_source FORK_LOCATION FORK_LABEL] demo_overlay))"
    by (simp add: sources_store_def demo_json_def demo_overlay_def fs_write_def moved_source_def FORK_LOCATION_def Let_def)
  have "SOURCES_PATH \<notin> set (fs_unreadable demo_overlay)" by (simp add: demo_overlay_def)
  from load_migrated [of demo_json demo_overlay "[moved_source FORK_LOCATION FORK_LABEL]"
      "snd (sources_load demo_json demo_overlay)", OF _ js this] w l
  show ?thesis by (metis prod.collapse)
qed

end
