(* ===== verification/Firmware_Catalog.thy ===== *)
theory Firmware_Catalog
  imports Firmware_Version Firmware_Sources "HOL-Library.Multiset"
begin

text \<open>
  What each source is offering, \<open>app/firmware_catalog.rs\<close>: listing a remote source through the
  updater and a local one from its directory, asking all sources at once, and the cached
  listing with its freshness, its invalidations, the claim that keeps refreshes from piling up
  and the copy on disk. Running the updater, reading JSON and formatting a time are parameters;
  errors are the texts the code makes, since it recognises some of them again.
\<close>

section \<open>Candidates\<close>

datatype relation = Current | Newer | Older | Unknown

datatype trust = Verified | Tls | Unverified

record candidate =
  ca_version :: string
  ca_relation :: relation
  ca_prerelease :: bool
  ca_trust :: trust
  ca_file :: "string option"
  ca_size_bytes :: "nat option"

record source_catalog =
  sg_id :: string
  sg_label :: string
  sg_kind :: source_kind
  sg_location :: string
  sg_candidates :: "candidate list"
  sg_error :: "string option"

record catalog =
  cg_checked_at :: string
  cg_running :: string
  cg_sources :: "source_catalog list"
  cg_refreshing :: bool
  cg_age_seconds :: nat

record listed_release =
  lr_tag :: string
  lr_prerelease :: bool
  lr_relation :: "string option"

record listing =
  ls_running :: string
  ls_releases :: "listed_release list"

definition relation_from :: "string option \<Rightarrow> relation" where
  "relation_from v =
     (if v = Some ''current'' then Current
      else if v = Some ''newer'' then Newer
      else if v = Some ''older'' then Older
      else Unknown)"

section \<open>Errors\<close>

definition SELFUPDATE :: string where "SELFUPDATE = ''/sbin/tpi-selfupdate''"

definition STILL_BUSY :: string where "STILL_BUSY = ''still busy from the previous check''"

definition UNMOUNTED_CARD :: string where
  "UNMOUNTED_CARD = ''an SD card is inserted but not mounted (unsupported or damaged filesystem?)''"

definition timed_out :: "duration \<Rightarrow> string" where
  "timed_out deadline = ''timed out after '' @ show_nat (as_secs deadline) @ '' s''"

definition is_retry_later :: "string \<Rightarrow> bool" where
  "is_retry_later error =
     (starts_with ''timed out after '' error \<or> error = STILL_BUSY \<or> error = UNMOUNTED_CARD)"

definition failure_reason :: "string \<Rightarrow> nat option \<Rightarrow> string" where
  "failure_reason stderr code =
     (let ls = lines stderr; last_line = trim (if ls = [] then [] else last ls)
      in if last_line \<noteq> [] then last_line
         else (case code of
                 Some c \<Rightarrow> SELFUPDATE @ '' exited '' @ show_nat c @ '' without saying why''
               | None \<Rightarrow> SELFUPDATE @ '' was killed by a signal''))"

section \<open>Listing one source\<close>

text \<open>What became of the updater: it ended with a status and its output, the deadline passed, or it
  could not be started.\<close>

datatype run_output = Ended "nat option" string string | DeadlinePassed | NotStarted string

record updater =
  up_run :: "string list \<Rightarrow> run_output"
  up_listing :: "string \<Rightarrow> (string, listing) result"

definition list_args :: "source \<Rightarrow> string list" where
  "list_args s =
     (case sc_kind s of
        Github \<Rightarrow> [''--list'', ''--repo'', sc_location s]
      | Http \<Rightarrow> [''--list'', ''--url'', sc_location s]
      | Local \<Rightarrow> [''--list''])"

text \<open>\<open>str::trim_start\<close> followed by a test of the first character.\<close>

definition is_object_line :: "string \<Rightarrow> bool" where
  "is_object_line l = starts_with ''{'' (dropWhile is_whitespace l)"

definition list_remote :: "updater \<Rightarrow> source \<Rightarrow> duration \<Rightarrow> (string, listing) result" where
  "list_remote up s deadline =
     (case up_run up (list_args s) of
        DeadlinePassed \<Rightarrow> Inl (timed_out deadline)
      | NotStarted e \<Rightarrow> Inl (''cannot run '' @ SELFUPDATE @ '': '' @ e)
      | Ended code stdout stderr \<Rightarrow>
          if code \<noteq> Some 0 then Inl (failure_reason stderr code)
          else
            (case List.find is_object_line (lines stdout) of
               None \<Rightarrow> Inl (failure_reason stderr code)
             | Some line \<Rightarrow>
                 (case up_listing up line of
                    Inl e \<Rightarrow> Inl (''cannot parse the updater'' @ [CHR 0x27] @ ''s listing: '' @ e)
                  | Inr l \<Rightarrow> Inr l)))"

datatype card = Absent | Unmounted | Mounted

text \<open>What the directory of a local source looks like: \<open>metadata\<close> and then \<open>read_dir\<close>, whose entries
  are names with the sizes that could be read.\<close>

datatype dir_state =
    DirMissing
  | NotADirectory
  | StatFailed string
  | OpenFailed string
  | Entries "(string \<times> nat option) list"

text \<open>\<open>Path::starts_with\<close> compares whole components; \<open>Path::extension\<close> is what follows the last dot
  of a name, unless that dot is its first character.\<close>

definition path_components :: "string \<Rightarrow> bool \<times> string list" where
  "path_components p =
     (starts_with ''/'' p, filter (\<lambda>c. c \<noteq> [] \<and> c \<noteq> ''.'') (split_on CHR ''/'' p))"

definition path_starts_with :: "string \<Rightarrow> string \<Rightarrow> bool" where
  "path_starts_with p base =
     (fst (path_components p) = fst (path_components base)
      \<and> take (length (snd (path_components base))) (snd (path_components p)) = snd (path_components base))"

definition extension :: "string \<Rightarrow> string option" where
  "extension n =
     (if CHR ''.'' \<notin> set n \<or> stem n = [] then None else Some (drop (Suc (length (stem n))) n))"

definition path_join :: "string \<Rightarrow> string \<Rightarrow> string" where
  "path_join d n = (if ends_with ''/'' d then d @ n else d @ ''/'' @ n)"

definition local_candidate :: "source \<Rightarrow> string \<Rightarrow> string \<times> nat option \<Rightarrow> candidate option" where
  "local_candidate s running entry =
     (case entry of (name, len) \<Rightarrow>
        if extension name \<noteq> Some ''tpu'' then None
        else
          (let version = (case tag_from_ota_name name of Some tag \<Rightarrow> tag | None \<Rightarrow> name);
               rel = (case version_compare version running of
                        Some Equal \<Rightarrow> Current
                      | Some Greater \<Rightarrow> Newer
                      | Some Less \<Rightarrow> Older
                      | None \<Rightarrow> if version = running then Current else Unknown)
           in Some \<lparr>ca_version = version, ca_relation = rel, ca_prerelease = is_prerelease version,
                    ca_trust = Unverified, ca_file = Some (path_join (sc_location s) name),
                    ca_size_bytes = len\<rparr>))"

text \<open>Newest first. Rust's \<open>sort_by\<close> is a stable sort; where the comparison is a total order that
  determines its result, which insertion then computes.\<close>

definition candidate_cmp :: "candidate \<Rightarrow> candidate \<Rightarrow> ordering" where
  "candidate_cmp a b =
     (case version_compare (ca_version b) (ca_version a) of
        Some r \<Rightarrow> r
      | None \<Rightarrow> cmp_str (ca_version b) (ca_version a))"

fun insert_by :: "('a \<Rightarrow> 'a \<Rightarrow> ordering) \<Rightarrow> 'a \<Rightarrow> 'a list \<Rightarrow> 'a list" where
  "insert_by cmp x [] = [x]"
| "insert_by cmp x (y # ys) = (if cmp y x = Greater then x # y # ys else y # insert_by cmp x ys)"

definition sort_by :: "('a \<Rightarrow> 'a \<Rightarrow> ordering) \<Rightarrow> 'a list \<Rightarrow> 'a list" where
  "sort_by cmp xs = foldl (\<lambda>acc x. insert_by cmp x acc) [] xs"

definition list_local_in ::
  "(string \<Rightarrow> dir_state) \<Rightarrow> source \<Rightarrow> string \<Rightarrow> string \<Rightarrow> card \<Rightarrow> (string, candidate list) result" where
  "list_local_in look s running card_root slot =
     (let on_card = path_starts_with (sc_location s) card_root
      in if on_card \<and> slot = Absent then Inr []
         else if on_card \<and> slot = Unmounted then Inl UNMOUNTED_CARD
         else
           (case look (sc_location s) of
              NotADirectory \<Rightarrow> Inl (sc_location s @ '' is not a directory'')
            | DirMissing \<Rightarrow> if on_card then Inr [] else Inl (sc_location s @ '' is not a directory'')
            | StatFailed e \<Rightarrow> Inl (''cannot read '' @ sc_location s @ '': '' @ e)
            | OpenFailed e \<Rightarrow> Inl (''cannot read '' @ sc_location s @ '': '' @ e)
            | Entries es \<Rightarrow> Inr (sort_by candidate_cmp (filter_map (local_candidate s running) es))))"

definition SDCARD_ROOT :: string where "SDCARD_ROOT = ''/mnt/sdcard''"

record host =
  ho_updater :: updater
  ho_media :: media
  ho_look :: "string \<Rightarrow> dir_state"
  ho_io_text :: "io_error \<Rightarrow> string"

definition list_local :: "host \<Rightarrow> source \<Rightarrow> string \<Rightarrow> (string, candidate list) result" where
  "list_local ho s running =
     (case is_mount_point (ho_media ho) SDCARD_ROOT of
        Inr True \<Rightarrow> list_local_in (ho_look ho) s running SDCARD_ROOT Mounted
      | Inr False \<Rightarrow>
          list_local_in (ho_look ho) s running SDCARD_ROOT
            (if card_inserted (ho_media ho) then Unmounted else Absent)
      | Inl e \<Rightarrow> Inl (''cannot tell whether '' @ SDCARD_ROOT @ '' is mounted: '' @ ho_io_text ho e))"

type_synonym resolved = "candidate list \<times> string option \<times> string option"

definition resolve :: "host \<Rightarrow> source \<Rightarrow> string \<Rightarrow> duration \<Rightarrow> resolved" where
  "resolve ho s running_hint deadline =
     (if sc_kind s = Local
      then (case list_local ho s running_hint of
              Inr c \<Rightarrow> (c, None, None)
            | Inl e \<Rightarrow> ([], Some e, None))
      else
        (case list_remote (ho_updater ho) s deadline of
           Inl e \<Rightarrow> ([], Some e, None)
         | Inr l \<Rightarrow>
             (map (\<lambda>r. \<lparr>ca_version = lr_tag r, ca_relation = relation_from (lr_relation r),
                        ca_prerelease = lr_prerelease r,
                        ca_trust = (if sc_kind s = Github then Verified else Tls),
                        ca_file = None, ca_size_bytes = None\<rparr>) (ls_releases l),
              None, Some (ls_running l))))"

section \<open>Asking all sources\<close>

text \<open>What became of the blocking call of one source within its time: it returned, it panicked, or
  it is still going.\<close>

datatype call = Returned resolved | Panicked string | StillGoing

definition SOURCE_DEADLINE :: duration where "SOURCE_DEADLINE = from_secs 360"

type_synonym answer = "source \<times> resolved"

definition gather_one :: "duration \<Rightarrow> call \<Rightarrow> resolved" where
  "gather_one deadline c =
     (case c of
        Returned r \<Rightarrow> r
      | Panicked e \<Rightarrow> ([], Some (''failed while listing: '' @ e), None)
      | StillGoing \<Rightarrow> ([], Some (timed_out deadline), None))"

text \<open>Every task claims its source before any call returns; a source whose earlier call never
  returned is skipped. A call that returns or panics gives its claim back. The answers are put
  back into the order of the sources.\<close>

fun gather_claims :: "string list \<Rightarrow> duration \<Rightarrow> (source \<Rightarrow> call) \<Rightarrow> source list \<Rightarrow> answer list \<times> string list" where
  "gather_claims in_flight deadline run [] = ([], in_flight)"
| "gather_claims in_flight deadline run (s # ss) =
     (if sc_id s \<in> set in_flight
      then (case gather_claims in_flight deadline run ss of
              (rest, fl) \<Rightarrow> ((s, [], Some STILL_BUSY, None) # rest, fl))
      else (case gather_claims (sc_id s # in_flight) deadline run ss of
              (rest, fl) \<Rightarrow> ((s, gather_one deadline (run s)) # rest,
                             if run s = StillGoing then fl else removeAll (sc_id s) fl)))"

definition gather :: "string list \<Rightarrow> duration \<Rightarrow> (source \<Rightarrow> call) \<Rightarrow> source list \<Rightarrow> answer list \<times> string list" where
  "gather in_flight deadline run ss = gather_claims in_flight deadline run ss"

definition source_entry :: "answer \<Rightarrow> source_catalog" where
  "source_entry a =
     (case a of (s, candidates, error, _) \<Rightarrow>
        \<lparr>sg_id = sc_id s, sg_label = sc_label s, sg_kind = sc_kind s, sg_location = sc_location s,
         sg_candidates = candidates, sg_error = error\<rparr>)"

definition answers_ok :: "answer list \<Rightarrow> bool" where
  "answers_ok as = list_all (\<lambda>(_, _, error, _). error = None) as"

definition answers_retry_later :: "answer list \<Rightarrow> bool" where
  "answers_retry_later as =
     list_all (\<lambda>(_, _, error, _). case error of None \<Rightarrow> True | Some e \<Rightarrow> is_retry_later e) as"

definition answers_catalog :: "string \<Rightarrow> string \<Rightarrow> answer list \<Rightarrow> catalog" where
  "answers_catalog now_text running_hint as =
     \<lparr>cg_checked_at = now_text,
      cg_running = (case find_map (\<lambda>(_, _, _, r). r) as of Some r \<Rightarrow> r | None \<Rightarrow> running_hint),
      cg_sources = map source_entry as, cg_refreshing = False, cg_age_seconds = 0\<rparr>"

section \<open>The cache\<close>

definition FRESH :: duration where "FRESH = from_secs 1800"
definition FRESH_AFTER_ERROR :: duration where "FRESH_AFTER_ERROR = from_secs 120"
definition FRESH_AFTER_RETRY_LATER :: duration where "FRESH_AFTER_RETRY_LATER = from_secs 900"
definition MAX_RESTORED_AGE :: duration where "MAX_RESTORED_AGE = from_secs 86400"
definition REFRESH_CLAIM :: duration where "REFRESH_CLAIM = from_secs 600"
definition COLD_POLL :: duration where "COLD_POLL = 250000000"

definition CATALOG_PATH :: path where "CATALOG_PATH = (''/mnt/overlay'', ''firmware-catalog.json'')"

text \<open>An entry remembers when it was taken, on the monotonic clock; one restored from disk may have
  been taken before that clock started.\<close>

record cached =
  cd_at :: int
  cd_value :: catalog
  cd_ok :: bool
  cd_retry_later_only :: bool
  cd_stale :: bool

record catalog_state =
  ct_cache :: "cached option"
  ct_invalidations :: u64
  ct_claim :: nat
  ct_in_flight :: "string list"
  ct_fs :: fs

record catalog_codec =
  cc_read :: "string \<Rightarrow> catalog option"
  cc_write :: "catalog \<Rightarrow> string option"
  cc_format :: "nat \<Rightarrow> string"
  cc_parse :: "string \<Rightarrow> instant option"

definition elapsed :: "instant \<Rightarrow> int \<Rightarrow> duration" where
  "elapsed now at = nat (int now - at)"

definition ttl :: "cached \<Rightarrow> duration" where
  "ttl c =
     (if cd_ok c then FRESH
      else if cd_retry_later_only c then FRESH_AFTER_RETRY_LATER
      else FRESH_AFTER_ERROR)"

definition needs_refresh :: "bool \<Rightarrow> bool \<Rightarrow> duration \<Rightarrow> duration \<Rightarrow> bool" where
  "needs_refresh force stale age limit = (force \<or> stale \<or> limit \<le> age)"

definition invalidate :: "catalog_state \<Rightarrow> catalog_state" where
  "invalidate st =
     st\<lparr>ct_invalidations := ct_invalidations st + 1,
        ct_cache := map_option (\<lambda>c. c\<lparr>cd_stale := True\<rparr>) (ct_cache st)\<rparr>"

definition restore :: "catalog_codec \<Rightarrow> instant \<Rightarrow> instant \<Rightarrow> fs \<Rightarrow> cached option" where
  "restore cc wall now fs =
     (case fs_read_to_string fs CATALOG_PATH of
        Inl _ \<Rightarrow> None
      | Inr body \<Rightarrow>
          (case cc_read cc body of
             None \<Rightarrow> None
           | Some v \<Rightarrow>
               (let age = min MAX_RESTORED_AGE
                      (case cc_parse cc (cg_checked_at v) of
                         None \<Rightarrow> MAX_RESTORED_AGE
                       | Some taken \<Rightarrow> if taken \<le> wall then wall - taken else MAX_RESTORED_AGE)
                in Some \<lparr>cd_at = int now - int age, cd_value = v, cd_ok = True,
                         cd_retry_later_only = False, cd_stale = False\<rparr>)))"

definition same_offering :: "catalog \<Rightarrow> catalog \<Rightarrow> bool" where
  "same_offering a b = (cg_running a = cg_running b \<and> cg_sources a = cg_sources b)"

definition persist_catalog :: "catalog_codec \<Rightarrow> bool \<Rightarrow> catalog \<Rightarrow> fs \<Rightarrow> fs" where
  "persist_catalog cc overlay v fs =
     (if \<not> overlay then fs
      else if (case fs_read_to_string fs CATALOG_PATH of
                 Inl _ \<Rightarrow> False
               | Inr existing \<Rightarrow>
                   (case cc_read cc existing of None \<Rightarrow> False | Some old \<Rightarrow> same_offering old v))
      then fs
      else (case cc_write cc v of
              None \<Rightarrow> fs
            | Some body \<Rightarrow> snd (fs_write CATALOG_PATH (Utf8 body) fs)))"

section \<open>The claim\<close>

text \<open>Seconds since the process started, never zero.\<close>

definition now_secs :: "instant \<Rightarrow> nat" where
  "now_secs now = as_secs now + 1"

definition may_claim :: "nat \<Rightarrow> nat \<Rightarrow> bool" where
  "may_claim held now = (held = 0 \<or> as_secs REFRESH_CLAIM \<le> now - held)"

definition refreshing :: "instant \<Rightarrow> catalog_state \<Rightarrow> bool" where
  "refreshing now st = (\<not> may_claim (ct_claim st) (now_secs now))"

definition claim_refresh :: "instant \<Rightarrow> catalog_state \<Rightarrow> bool \<times> catalog_state" where
  "claim_refresh now st =
     (if \<not> may_claim (ct_claim st) (now_secs now) then (False, st)
      else (True, st\<lparr>ct_claim := now_secs now\<rparr>))"

definition release_refresh :: "catalog_state \<Rightarrow> catalog_state" where
  "release_refresh st = st\<lparr>ct_claim := 0\<rparr>"

section \<open>A refresh\<close>

text \<open>A fan-out reads the count of invalidations first, asks the sources, and stores its result
  with the count compared once more.\<close>

definition fan_out_begin :: "catalog_state \<Rightarrow> u64" where
  "fan_out_begin st = ct_invalidations st"

definition fan_out_store ::
  "catalog_codec \<Rightarrow> bool \<Rightarrow> instant \<Rightarrow> u64 \<Rightarrow> catalog \<Rightarrow> answer list \<Rightarrow> catalog_state \<Rightarrow> catalog_state" where
  "fan_out_store cc overlay now token v as st =
     (let ok = answers_ok as;
          st = st\<lparr>ct_cache := Some \<lparr>cd_at = int now, cd_value = v, cd_ok = ok,
                    cd_retry_later_only = (\<not> ok \<and> answers_retry_later as),
                    cd_stale = (ct_invalidations st \<noteq> token)\<rparr>\<rparr>
      in if ok then st\<lparr>ct_fs := persist_catalog cc overlay v (ct_fs st)\<rparr> else st)"

definition fan_out ::
  "catalog_codec \<Rightarrow> sources_json \<Rightarrow> bool \<Rightarrow> (source \<Rightarrow> call) \<Rightarrow> string option \<Rightarrow> instant \<Rightarrow> instant
     \<Rightarrow> catalog_state \<Rightarrow> catalog \<times> catalog_state" where
  "fan_out cc js overlay run version wall now st =
     (let token = fan_out_begin st;
          (ss, fs) = sources_load js (ct_fs st);
          hint = (case version of Some v \<Rightarrow> v | None \<Rightarrow> ''unknown'');
          (as, fl) = gather (ct_in_flight st) SOURCE_DEADLINE run (filter sc_enabled ss);
          v = answers_catalog (cc_format cc (as_secs wall)) hint as
      in (v, fan_out_store cc overlay now token v as (st\<lparr>ct_fs := fs, ct_in_flight := fl\<rparr>)))"

definition prime :: "catalog_codec \<Rightarrow> instant \<Rightarrow> instant \<Rightarrow> catalog_state \<Rightarrow> bool \<times> catalog_state" where
  "prime cc wall now st =
     claim_refresh now
       (case restore cc wall now (ct_fs st) of
          None \<Rightarrow> st
        | Some c \<Rightarrow> if ct_cache st = None then st\<lparr>ct_cache := Some c\<rparr> else st)"

section \<open>Answering\<close>

definition snapshot :: "instant \<Rightarrow> catalog_state \<Rightarrow> (catalog \<times> duration \<times> duration \<times> bool) option" where
  "snapshot now st =
     map_option (\<lambda>c. (cd_value c, elapsed now (cd_at c), ttl c, cd_stale c)) (ct_cache st)"

text \<open>The answer from a warm cache, with whether a refresh was started; a cold one has none.\<close>

definition get_warm :: "bool \<Rightarrow> instant \<Rightarrow> catalog_state \<Rightarrow> (catalog \<times> bool \<times> catalog_state) option" where
  "get_warm force now st =
     (case snapshot now st of
        None \<Rightarrow> None
      | Some (v, age, limit, stale) \<Rightarrow>
          (let (started, st) = (if needs_refresh force stale age limit then claim_refresh now st else (False, st))
           in Some (v\<lparr>cg_age_seconds := as_secs age, cg_refreshing := refreshing now st\<rparr>, started, st)))"

text \<open>A caller with a cold cache: at most \<open>fuel\<close> rounds; \<open>clock k\<close> is the clock in round \<open>k\<close>, and
  \<open>others k\<close> what other tasks did to the state during its sleep.\<close>

fun cold :: "nat \<Rightarrow> (nat \<Rightarrow> instant) \<Rightarrow> (nat \<Rightarrow> catalog_state \<Rightarrow> catalog_state) \<Rightarrow> instant \<Rightarrow> string \<Rightarrow> nat
    \<Rightarrow> catalog_state \<Rightarrow> (catalog \<times> catalog_state) option" where
  "cold 0 clock others started wall_text k st = None"
| "cold (Suc fuel) clock others started wall_text k st =
     (if clock k - started < REFRESH_CLAIM
      then
        (let st = others k (snd (claim_refresh (clock k) st))
         in case snapshot (clock (Suc k)) st of
              Some (v, age, _, _) \<Rightarrow>
                Some (v\<lparr>cg_age_seconds := as_secs age, cg_refreshing := refreshing (clock (Suc k)) st\<rparr>, st)
            | None \<Rightarrow> cold fuel clock others started wall_text (Suc k) st)
      else
        Some (\<lparr>cg_checked_at = wall_text, cg_running = ''unknown'', cg_sources = [], cg_refreshing = True,
                cg_age_seconds = 0\<rparr>, st))"

section \<open>Facts about listing\<close>

lemma mset_insert_by [simp]: "mset (insert_by cmp x xs) = add_mset x (mset xs)"
  by (induction xs) simp_all

lemma mset_sort_by: "mset (sort_by cmp xs) = mset xs"
proof -
  have "mset (foldl (\<lambda>acc x. insert_by cmp x acc) acc xs) = mset acc + mset xs" for acc
    by (induction xs arbitrary: acc) simp_all
  then show ?thesis by (simp add: sort_by_def)
qed

lemma set_sort_by [simp]: "set (sort_by cmp xs) = set xs"
  by (metis mset_sort_by set_mset_mset)

text \<open>Insertion sorts by any comparison that keeps the contract on the elements at hand.\<close>

definition comparison_on :: "('a \<Rightarrow> 'a \<Rightarrow> ordering) \<Rightarrow> 'a set \<Rightarrow> bool" where
  "comparison_on cmp A =
     ((\<forall>a \<in> A. \<forall>b \<in> A. cmp b a = reverse (cmp a b))
      \<and> (\<forall>a \<in> A. \<forall>b \<in> A. \<forall>c \<in> A. cmp a b \<noteq> Greater \<longrightarrow> cmp b c \<noteq> Greater \<longrightarrow> cmp a c \<noteq> Greater))"

lemma comparison_on_subset: "comparison_on cmp A \<Longrightarrow> B \<subseteq> A \<Longrightarrow> comparison_on cmp B"
  unfolding comparison_on_def by (meson subsetD)

lemma comparison_onD:
  assumes "comparison_on cmp A" and "a \<in> A" and "b \<in> A"
  shows "cmp a b = Greater \<Longrightarrow> cmp b a \<noteq> Greater"
    and "c \<in> A \<Longrightarrow> cmp a b \<noteq> Greater \<Longrightarrow> cmp b c \<noteq> Greater \<Longrightarrow> cmp a c \<noteq> Greater"
  using assms unfolding comparison_on_def by (metis ordering.distinct reverse.simps(3), metis)

lemma set_insert_by [simp]: "set (insert_by cmp x xs) = insert x (set xs)"
  by (metis mset_insert_by set_mset_mset set_mset_add_mset_insert)

lemma insert_by_sorted:
  assumes "sorted_wrt (\<lambda>a b. cmp a b \<noteq> Greater) xs" and "comparison_on cmp (insert x (set xs))"
  shows "sorted_wrt (\<lambda>a b. cmp a b \<noteq> Greater) (insert_by cmp x xs)"
  using assms
proof (induction xs)
  case (Cons y ys)
  show ?case
  proof (cases "cmp y x = Greater")
    case True
    then have xy: "cmp x y \<noteq> Greater"
      by (rule comparison_onD(1) [OF Cons.prems(2), rotated 2]) simp_all
    have "cmp x z \<noteq> Greater" if "z \<in> set ys" for z
      using comparison_onD(2) [OF Cons.prems(2), of x y z] xy Cons.prems(1) that by simp
    with True xy Cons.prems(1) show ?thesis by simp
  next
    case False
    have "comparison_on cmp (insert x (set ys))"
      by (rule comparison_on_subset [OF Cons.prems(2)]) auto
    with Cons.IH Cons.prems(1) have "sorted_wrt (\<lambda>a b. cmp a b \<noteq> Greater) (insert_by cmp x ys)" by simp
    with False Cons.prems(1) show ?thesis by simp
  qed
qed simp

lemma sort_by_sorted:
  "comparison_on cmp (set xs) \<Longrightarrow> sorted_wrt (\<lambda>a b. cmp a b \<noteq> Greater) (sort_by cmp xs)"
proof (induction xs rule: rev_induct)
  case (snoc x xs)
  have "comparison_on cmp (set xs)" by (rule comparison_on_subset [OF snoc.prems]) auto
  then have "sorted_wrt (\<lambda>a b. cmp a b \<noteq> Greater) (sort_by cmp xs)" by (rule snoc.IH)
  moreover have "sort_by cmp (xs @ [x]) = insert_by cmp x (sort_by cmp xs)" by (simp add: sort_by_def)
  ultimately show ?case using insert_by_sorted [of cmp "sort_by cmp xs" x] snoc.prems by simp
qed (simp add: sort_by_def)

lemma sort_candidates:
  assumes "\<And>c. c \<in> set cs \<Longrightarrow> version_parse (ca_version c) \<noteq> None"
  shows "sorted_wrt (\<lambda>a b. candidate_cmp a b \<noteq> Greater) (sort_by candidate_cmp cs)"
proof (rule sort_by_sorted)
  define v :: "candidate \<Rightarrow> version" where "v c = the (version_parse (ca_version c))" for c
  have "candidate_cmp a b = version_order (v b) (v a)" if "a \<in> set cs" "b \<in> set cs" for a b
    using assms [OF that(1)] assms [OF that(2)] by (auto simp: v_def candidate_cmp_def version_compare_def)
  then show "comparison_on candidate_cmp (set cs)"
    unfolding comparison_on_def using cv.trans by (simp add: cv.swap [symmetric])
qed

text \<open>An answer of a remote source without an error comes from an updater that said it succeeded.\<close>

lemma resolve_remote_ok:
  assumes "sc_kind s \<noteq> Local" and "resolve ho s hint deadline = (cs, None, running)"
  shows "\<exists>stdout stderr line l. up_run (ho_updater ho) (list_args s) = Ended (Some 0) stdout stderr
    \<and> List.find is_object_line (lines stdout) = Some line \<and> up_listing (ho_updater ho) line = Inr l
    \<and> running = Some (ls_running l) \<and> map ca_version cs = map lr_tag (ls_releases l)"
  using assms
  by (auto simp: resolve_def list_remote_def split: sum.splits run_output.splits option.splits if_splits)

lemma gather_claims_distinct:
  assumes "distinct (map sc_id ss)"
  shows "fst (gather_claims fl deadline run ss)
      = map (\<lambda>s. (s, if sc_id s \<in> set fl then ([], Some STILL_BUSY, None) else gather_one deadline (run s))) ss"
    and "set (snd (gather_claims fl deadline run ss))
      = set fl \<union> {sc_id s |s. s \<in> set ss \<and> run s = StillGoing}"
  using assms
proof (induction ss arbitrary: fl)
  case (Cons s ss)
  {
    case 1
    then have "t \<in> set ss \<Longrightarrow> sc_id t \<noteq> sc_id s" for t by (auto simp: rev_image_eqI)
    then show ?case
      using Cons.IH(1) [of fl] Cons.IH(1) [of "sc_id s # fl"] 1 by (auto simp: split_beta)
  next
    case 2
    then have "t \<in> set ss \<Longrightarrow> sc_id t \<noteq> sc_id s" for t by (auto simp: rev_image_eqI)
    then show ?case
      using Cons.IH(2) [of fl] Cons.IH(2) [of "sc_id s # fl"] 2 by (auto simp: split_beta)
  }
qed simp_all

section \<open>Interleavings\<close>

text \<open>Everything that touches the shared state, one atomic step each: \<open>CBegin k\<close> and \<open>CStore k\<close> are
  the two ends of the fan-out \<open>k\<close>, whose reading of the count is a local variable of its task.\<close>

datatype catalog_event =
    CInvalidate
  | CBegin nat
  | CStore nat instant catalog "answer list"
  | CGet bool instant
  | CPrime instant instant
  | CRelease

fun catalog_step :: "catalog_codec \<Rightarrow> bool \<Rightarrow> catalog_state \<times> (nat \<Rightarrow> u64) \<Rightarrow> catalog_event \<Rightarrow> catalog_state \<times> (nat \<Rightarrow> u64)" where
  "catalog_step cc overlay (st, tokens) CInvalidate = (invalidate st, tokens)"
| "catalog_step cc overlay (st, tokens) (CBegin k) = (st, tokens(k := fan_out_begin st))"
| "catalog_step cc overlay (st, tokens) (CStore k now v as) = (fan_out_store cc overlay now (tokens k) v as st, tokens)"
| "catalog_step cc overlay (st, tokens) (CGet force now) =
     ((case get_warm force now st of Some (_, _, st') \<Rightarrow> st' | None \<Rightarrow> snd (claim_refresh now st)), tokens)"
| "catalog_step cc overlay (st, tokens) (CPrime wall now) = (snd (prime cc wall now st), tokens)"
| "catalog_step cc overlay (st, tokens) CRelease = (release_refresh st, tokens)"

abbreviation catalog_run :: "catalog_codec \<Rightarrow> bool \<Rightarrow> catalog_state \<times> (nat \<Rightarrow> u64) \<Rightarrow> catalog_event list \<Rightarrow> catalog_state \<times> (nat \<Rightarrow> u64)" where
  "catalog_run cc overlay \<equiv> foldl (catalog_step cc overlay)"

fun is_store :: "catalog_event \<Rightarrow> bool" where
  "is_store (CStore _ _ _ _) = True"
| "is_store _ = False"

lemma claim_refresh_keeps [simp]:
  "ct_cache (snd (claim_refresh now st)) = ct_cache st"
  "ct_invalidations (snd (claim_refresh now st)) = ct_invalidations st"
  "ct_fs (snd (claim_refresh now st)) = ct_fs st"
  by (simp_all add: claim_refresh_def)

lemma get_warm_keeps:
  "get_warm force now st = Some (v, started, st') \<Longrightarrow>
     ct_cache st' = ct_cache st \<and> ct_invalidations st' = ct_invalidations st"
  by (auto simp: get_warm_def claim_refresh_def Let_def split: option.splits if_splits)

lemma prime_keeps:
  "ct_invalidations (snd (prime cc wall now st)) = ct_invalidations st"
  "ct_cache st = Some c \<Longrightarrow> ct_cache (snd (prime cc wall now st)) = Some c"
  by (simp_all add: prime_def split: option.split)

lemma step_count:
  "ct_invalidations (fst (catalog_step cc overlay s ev))
     = ct_invalidations (fst s) + (if ev = CInvalidate then 1 else 0)"
  by (cases "(cc, overlay, s, ev)" rule: catalog_step.cases)
    (auto simp: invalidate_def fan_out_store_def release_refresh_def Let_def prime_keeps
      split: option.split dest: get_warm_keeps)

lemma run_count:
  "ct_invalidations (fst (catalog_run cc overlay s evs))
     = ct_invalidations (fst s) + word_of_nat (count_list evs CInvalidate)"
  by (induction evs arbitrary: s) (simp_all add: step_count)

lemma step_token: "ev \<noteq> CBegin k \<Longrightarrow> snd (catalog_step cc overlay s ev) k = snd s k"
  by (cases "(cc, overlay, s, ev)" rule: catalog_step.cases) auto

lemma run_token: "CBegin k \<notin> set evs \<Longrightarrow> snd (catalog_run cc overlay s evs) k = snd s k"
proof (induction evs arbitrary: s)
  case (Cons ev evs)
  then have "ev \<noteq> CBegin k" by auto
  with Cons show ?case by (simp add: step_token)
qed simp

lemma step_entry:
  assumes "\<not> is_store ev" and "ct_cache (fst s) = Some c"
  shows "\<exists>c'. ct_cache (fst (catalog_step cc overlay s ev)) = Some c'
    \<and> cd_value c' = cd_value c \<and> (cd_stale c' \<longleftrightarrow> cd_stale c \<or> ev = CInvalidate)"
  using assms
  by (cases "(cc, overlay, s, ev)" rule: catalog_step.cases)
    (auto simp: invalidate_def release_refresh_def prime_keeps split: option.split dest: get_warm_keeps)

lemma run_entry:
  assumes "\<not> list_ex is_store evs" and "ct_cache (fst s) = Some c"
  shows "\<exists>c'. ct_cache (fst (catalog_run cc overlay s evs)) = Some c'
    \<and> cd_value c' = cd_value c \<and> (cd_stale c' \<longleftrightarrow> cd_stale c \<or> CInvalidate \<in> set evs)"
  using assms
proof (induction evs arbitrary: s c)
  case (Cons ev evs)
  then obtain c1 where c1: "ct_cache (fst (catalog_step cc overlay s ev)) = Some c1" "cd_value c1 = cd_value c"
    "cd_stale c1 \<longleftrightarrow> cd_stale c \<or> ev = CInvalidate"
    using step_entry [of ev s c cc overlay] by auto
  from Cons.IH [OF _ c1(1)] Cons.prems(1) c1(2,3) show ?case by auto
qed auto

lemma stored_entry:
  "\<exists>c. ct_cache (fan_out_store cc overlay now token v as st) = Some c \<and> cd_value c = v
     \<and> (cd_stale c \<longleftrightarrow> ct_invalidations st \<noteq> token)"
  by (cases "answers_ok as") (simp_all add: fan_out_store_def Let_def)

lemma claimed_refreshing: "refreshing now (snd (claim_refresh now st))"
  by (simp add: refreshing_def claim_refresh_def may_claim_def now_secs_def REFRESH_CLAIM_def)

lemma get_stale_refreshes:
  assumes "ct_cache st = Some c" and "cd_stale c"
  shows "\<exists>v started st'. get_warm force now st = Some (v, started, st') \<and> refreshing now st' \<and> cg_refreshing v
    \<and> cg_sources v = cg_sources (cd_value c)"
  using assms claimed_refreshing [of now st]
  by (cases "claim_refresh now st") (simp add: get_warm_def snapshot_def needs_refresh_def Let_def)

section \<open>Properties\<close>

text \<open>C7: an image parked while the sources are being asked is not hidden by the answer. When a
  listing is invalidated at any point after a fan-out started, before or after it stores its
  result, the entry it leaves is out of date however the other tasks interleave, and the next
  reader, while still answered at once, has a refresh running.\<close>

theorem no_lost_invalidation:
  assumes "CInvalidate \<in> set (mid @ after)" and "CBegin k \<notin> set mid" and "\<not> list_ex is_store after"
    and "length mid < 2 ^ 64"
    and "catalog_run cc overlay s (CBegin k # mid @ CStore k now v as # after) = (st, tokens)"
  shows "\<exists>c. ct_cache st = Some c \<and> cd_value c = v \<and> cd_stale c
    \<and> (\<forall>force now'. \<exists>v' started st'. get_warm force now' st = Some (v', started, st')
         \<and> refreshing now' st' \<and> cg_refreshing v' \<and> cg_sources v' = cg_sources v)"
proof -
  let ?s1 = "catalog_step cc overlay s (CBegin k)"
  let ?s2 = "catalog_run cc overlay ?s1 mid"
  let ?s3 = "catalog_step cc overlay ?s2 (CStore k now v as)"
  have s4: "catalog_run cc overlay ?s3 after = (st, tokens)" using assms(5) by simp
  have b: "snd ?s1 k = ct_invalidations (fst ?s1)" by (cases s) (simp add: fan_out_begin_def)
  have tok: "snd ?s2 k = ct_invalidations (fst ?s1)" using run_token [OF assms(2)] b by simp
  have cnt: "ct_invalidations (fst ?s2) = ct_invalidations (fst ?s1) + word_of_nat (count_list mid CInvalidate)"
    by (rule run_count)
  obtain c where c: "ct_cache (fst ?s3) = Some c" "cd_value c = v"
    "cd_stale c \<longleftrightarrow> ct_invalidations (fst ?s2) \<noteq> snd ?s2 k"
    using stored_entry [of cc overlay now "snd ?s2 k" v as "fst ?s2"] by (cases ?s2) auto
  have stale: "cd_stale c" if "CInvalidate \<in> set mid"
  proof -
    have n: "0 < count_list mid CInvalidate" "count_list mid CInvalidate < 2 ^ 64"
      using that assms(4) count_le_length [of mid CInvalidate] by (auto simp: count_list_0_iff intro: gr0I)
    then have "(word_of_nat (count_list mid CInvalidate) :: u64) \<noteq> 0"
      by (auto simp: of_nat_eq_0_iff word_of_nat_eq_0_iff dest: dvd_imp_le)
    then show ?thesis using c(3) tok cnt by simp
  qed
  obtain c' where c': "ct_cache st = Some c'" "cd_value c' = v" "cd_stale c'"
    using run_entry [OF assms(3) c(1), of cc overlay] s4 c(2) stale assms(1) by auto
  then show ?thesis using get_stale_refreshes [OF c'(1,3)] by auto
qed

definition empty_disk :: fs where
  "empty_disk =
     \<lparr>fs_names = [], fs_inodes = (\<lambda>_. \<lparr>in_contents = Utf8 [], in_modified = 0\<rparr>), fs_next = 0,
      fs_time = 0, fs_unreadable = [], fs_faults = [], fs_closed_dirs = []\<rparr>"

definition cold_state :: catalog_state where
  "cold_state = \<lparr>ct_cache = None, ct_invalidations = 0, ct_claim = 0, ct_in_flight = [], ct_fs = empty_disk\<rparr>"

definition demo_catalog :: "string \<Rightarrow> catalog" where
  "demo_catalog at = \<lparr>cg_checked_at = at, cg_running = ''v2.9.0'', cg_sources = [], cg_refreshing = False, cg_age_seconds = 0\<rparr>"

text \<open>A codec that is right on catalogues that differ from \<open>demo_catalog\<close> in nothing but their time.\<close>

definition demo_cc :: catalog_codec where
  "demo_cc =
     \<lparr>cc_read = (\<lambda>s. Some (demo_catalog s)),
      cc_write = (\<lambda>v. if v = demo_catalog (cg_checked_at v) then Some (cg_checked_at v) else None),
      cc_format = show_nat, cc_parse = (\<lambda>s. map_option from_secs (parse_u32 s))\<rparr>"

theorem no_lost_invalidation_witness:
  "\<exists>c. ct_cache (fst (catalog_run demo_cc False (cold_state, \<lambda>_. 0)
      [CBegin 1, CInvalidate, CStore 1 7 (demo_catalog ''5'') []])) = Some c \<and> cd_stale c"
proof -
  let ?r = "catalog_run demo_cc False (cold_state, \<lambda>_. 0) (CBegin 1 # [CInvalidate] @ CStore 1 7 (demo_catalog ''5'') [] # [])"
  obtain st tokens where "?r = (st, tokens)" by (cases ?r)
  from no_lost_invalidation [OF _ _ _ _ this] show ?thesis using \<open>?r = (st, tokens)\<close> by auto
qed

text \<open>the sources answer each for itself. The listing has one entry for every enabled source, in
  the configured order; an entry is made from that source's own call alone, so a source that
  fails, panics or hangs changes nothing about the others, and it is never listed as offering
  nothing: its entry carries an error. Only sources whose call has not come back stay claimed.\<close>

theorem each_source_answers:
  assumes "sources_load js (ct_fs st) = (ss, fs)" and "distinct (map sc_id (filter sc_enabled ss))"
    and "fan_out cc js overlay run version wall now st = (v, st')"
  shows "cg_sources v = map (\<lambda>s. source_entry (s,
             if sc_id s \<in> set (ct_in_flight st) then ([], Some STILL_BUSY, None)
             else gather_one SOURCE_DEADLINE (run s))) (filter sc_enabled ss)
    \<and> set (ct_in_flight st') = set (ct_in_flight st) \<union> {sc_id s |s. s \<in> set ss \<and> sc_enabled s \<and> run s = StillGoing}
    \<and> (\<exists>c. ct_cache st' = Some c \<and> cd_value c = v \<and> (cd_ok c \<longleftrightarrow> list_all (\<lambda>e. sg_error e = None) (cg_sources v)))"
proof -
  let ?e = "filter sc_enabled ss"
  let ?g = "gather (ct_in_flight st) SOURCE_DEADLINE run ?e"
  note g = gather_claims_distinct [OF assms(2), of "ct_in_flight st" SOURCE_DEADLINE run]
  have v: "cg_sources v = map source_entry (fst ?g)"
    and st': "ct_in_flight st' = snd ?g"
    and c: "\<exists>c. ct_cache st' = Some c \<and> cd_value c = v \<and> cd_ok c = answers_ok (fst ?g)"
    using assms(1,3)
    by (auto simp: fan_out_def fan_out_store_def answers_catalog_def Let_def split_beta split: if_splits)
  have "answers_ok (fst ?g) = list_all (\<lambda>e. sg_error e = None) (cg_sources v)"
    unfolding v answers_ok_def by (simp add: list_all_iff source_entry_def split_beta)
  then show ?thesis using v st' c g by (auto simp: gather_def)
qed

definition two_sources :: sources where
  "two_sources =
     [\<lparr>sc_id = ''a'', sc_kind = Github, sc_label = ''a'', sc_location = ''x/y'', sc_enabled = True\<rparr>,
      \<lparr>sc_id = ''b'', sc_kind = Github, sc_label = ''b'', sc_location = ''x/z'', sc_enabled = True\<rparr>]"

theorem each_source_answers_witness:
  "let js = \<lparr>sj_read = (\<lambda>_. Some two_sources), sj_write = (\<lambda>_. None)\<rparr>;
       st = cold_state\<lparr>ct_fs := fs_put SOURCES_PATH (Utf8 ''x'') empty_disk\<rparr>;
       run = (\<lambda>s. if sc_id s = ''a'' then StillGoing else Returned ([], None, Some ''v2.9.0''))
   in map sg_error (cg_sources (fst (fan_out demo_cc js False run None 0 0 st)))
        = [Some (timed_out SOURCE_DEADLINE), None]"
proof -
  let ?js = "\<lparr>sj_read = (\<lambda>_. Some two_sources), sj_write = (\<lambda>_. None)\<rparr>"
  let ?st = "cold_state\<lparr>ct_fs := fs_put SOURCES_PATH (Utf8 ''x'') empty_disk\<rparr>"
  let ?run = "\<lambda>s. if sc_id s = ''a'' then StillGoing else Returned ([], None, Some ''v2.9.0'')"
  have l: "sources_load ?js (ct_fs ?st) = (two_sources, ct_fs ?st)"
    by (simp add: sources_load_def sources_read_def fs_read_to_string_def fs_read_def fs_inode_def fs_put_def
        empty_disk_def migrate_def migrate_source_def two_sources_def RETIRED_LOCATIONS_def)
  have e: "filter sc_enabled two_sources = two_sources" "distinct (map sc_id two_sources)"
    by (simp_all add: two_sources_def)
  obtain v st' where f: "fan_out demo_cc ?js False ?run None 0 0 ?st = (v, st')" by (meson surj_pair)
  from each_source_answers [OF l _ f] e have "cg_sources v = map (\<lambda>s. source_entry (s,
      if sc_id s \<in> set (ct_in_flight ?st) then ([], Some STILL_BUSY, None) else gather_one SOURCE_DEADLINE (?run s))) two_sources"
    by simp
  then have "map sg_error (cg_sources v) = [Some (timed_out SOURCE_DEADLINE), None]"
    by (simp add: two_sources_def source_entry_def gather_one_def cold_state_def)
  then show ?thesis by (simp add: Let_def f)
qed


lemma clock_advance:
  assumes "\<And>k. clock k + COLD_POLL \<le> clock (Suc k)"
  shows "clock 0 + k * COLD_POLL \<le> clock k"
proof (induction k)
  case (Suc k)
  with assms [of k] show ?case by simp
qed simp

lemma cold_loop:
  assumes step: "\<And>k. clock k + COLD_POLL \<le> clock (Suc k)"
  shows "fuel + k = 2401 \<Longrightarrow> 0 < fuel \<Longrightarrow> (0 < k \<Longrightarrow> ct_cache st = None) \<Longrightarrow>
    \<exists>v st'. cold fuel clock others (clock 0) wall_text k st = Some (v, st')
      \<and> (case ct_cache st' of
           None \<Rightarrow> cg_sources v = [] \<and> cg_refreshing v
         | Some c \<Rightarrow> cg_sources v = cg_sources (cd_value c))"
proof (induction fuel arbitrary: k st)
  case (Suc fuel)
  show ?case
  proof (cases "clock k - clock 0 < REFRESH_CLAIM")
    case True
    then have "k < 2400"
      using clock_advance [of clock k, OF step] by (auto simp: REFRESH_CLAIM_def COLD_POLL_def from_secs_def)
    with Suc.prems(1) have f: "0 < fuel" "fuel + Suc k = 2401" by simp_all
    let ?st = "others k (snd (claim_refresh (clock k) st))"
    show ?thesis
    proof (cases "ct_cache ?st")
      case None
      with Suc.IH [of "Suc k" ?st] f True show ?thesis by (simp add: Let_def snapshot_def)
    next
      case (Some c)
      with True show ?thesis by (simp add: Let_def snapshot_def)
    qed
  next
    case False
    then have "0 < k" by (cases k) (simp_all add: REFRESH_CLAIM_def)
    with Suc.prems(3) False show ?thesis by simp
  qed
qed simp

text \<open>C35: a caller that finds nothing cached is answered. When every round of its loop takes at least
  the polling interval, the loop ends within 2401 tests of the clock, whatever the other tasks
  do to the state meanwhile; it answers with the first listing it sees, and otherwise with an
  empty one that is marked as being refreshed.\<close>

theorem cold_returns:
  assumes "\<And>k. clock k + COLD_POLL \<le> clock (Suc k)"
  shows "\<exists>v st'. cold 2401 clock others (clock 0) wall_text 0 st = Some (v, st')
      \<and> (case ct_cache st' of
           None \<Rightarrow> cg_sources v = [] \<and> cg_refreshing v
         | Some c \<Rightarrow> cg_sources v = cg_sources (cd_value c))"
  by (rule cold_loop [of clock]) (use assms in simp_all)

theorem cold_returns_witness:
  "\<exists>v st'. cold 2401 (\<lambda>k. k * COLD_POLL) (\<lambda>_ st. st) 0 ''now'' 0 cold_state = Some (v, st')"
  using cold_returns [of "\<lambda>k. k * COLD_POLL" "\<lambda>_ st. st" "''now''" cold_state] by auto

text \<open>a complete listing survives a restart. Once it has been written, and whether or not it is
  written again, what the next run restores offers exactly the same; a listing that offers
  nothing new is not written again, and the age of a restored one is never more than a day.\<close>

theorem catalog_survives:
  assumes "\<And>v body. cc_write cc v = Some body \<Longrightarrow> cc_read cc body = Some v" and "cc_write cc v = Some body"
    and "is_ok (fst (fs_write CATALOG_PATH (Utf8 body) fs))" and "CATALOG_PATH \<notin> set (fs_unreadable fs)"
  shows "let fs' = persist_catalog cc True v fs
    in persist_catalog cc True (v\<lparr>cg_checked_at := later\<rparr>) fs' = fs'
       \<and> (\<exists>c. restore cc wall now fs' = Some c \<and> same_offering (cd_value c) v \<and> cd_ok c \<and> \<not> cd_stale c
              \<and> elapsed now (cd_at c) \<le> MAX_RESTORED_AGE)"
proof -
  define fs' where "fs' = persist_catalog cc True v fs"
  obtain w where w: "fs_read_to_string fs' CATALOG_PATH = Inr w" "\<exists>old. cc_read cc w = Some old \<and> same_offering old v"
  proof (cases "\<exists>e old. fs_read_to_string fs CATALOG_PATH = Inr e \<and> cc_read cc e = Some old \<and> same_offering old v")
    case True
    then have "fs' = fs" by (auto simp: fs'_def persist_catalog_def)
    with True that show ?thesis by auto
  next
    case False
    then have "fs' = snd (fs_write CATALOG_PATH (Utf8 body) fs)"
      using assms(2) unfolding fs'_def persist_catalog_def by (auto split: sum.splits option.splits)
    then have "fs_read_to_string fs' CATALOG_PATH = Inr body"
      using assms(3,4)
      by (auto simp: fs_read_to_string_def fs_write_def fs_read_def fs_inode_def fs_put_def split: option.splits fault.splits)
    with that show ?thesis using assms(1) [OF assms(2)] by (auto simp: same_offering_def)
  qed
  then obtain old where old: "cc_read cc w = Some old" "same_offering old v" by blast
  have "same_offering old (v\<lparr>cg_checked_at := later\<rparr>)" using old(2) by (simp add: same_offering_def)
  with w(1) old(1) have "persist_catalog cc True (v\<lparr>cg_checked_at := later\<rparr>) fs' = fs'"
    by (simp add: persist_catalog_def)
  moreover have "\<exists>c. restore cc wall now fs' = Some c \<and> same_offering (cd_value c) v \<and> cd_ok c \<and> \<not> cd_stale c
      \<and> elapsed now (cd_at c) \<le> MAX_RESTORED_AGE"
    using w(1) old by (simp add: restore_def elapsed_def)
  ultimately show ?thesis by (simp add: fs'_def [symmetric])
qed

theorem catalog_survives_witness:
  "\<exists>c. restore demo_cc 9 3 (persist_catalog demo_cc True (demo_catalog ''5'') empty_disk) = Some c
     \<and> same_offering (cd_value c) (demo_catalog ''5'')"
proof -
  have cc: "cc_write demo_cc v = Some body \<Longrightarrow> cc_read demo_cc body = Some v" for v body
    by (auto simp: demo_cc_def split: if_splits)
  have w: "cc_write demo_cc (demo_catalog ''5'') = Some ''5''" by (simp add: demo_cc_def demo_catalog_def)
  have "is_ok (fst (fs_write CATALOG_PATH (Utf8 ''5'') empty_disk))" "CATALOG_PATH \<notin> set (fs_unreadable empty_disk)"
    by (simp_all add: fs_write_def empty_disk_def)
  from catalog_survives [OF cc w this, of "''7''" 9 3] show ?thesis by (auto simp: Let_def)
qed

section \<open>Where the code falls short\<close>

text \<open>the claim of a refresh is given back without looking whose it is. A refresh that runs to
  its own limit of ten minutes is still running when its claim can be taken by another; giving
  its claim back then frees the other's, and a third refresh starts beside it.\<close>

theorem release_frees_another:
  "let (first, s1) = claim_refresh 900000000 cold_state;
       (second, s2) = claim_refresh (from_secs 600) s1;
       (third, s3) = claim_refresh (from_secs 600 + 950000000) (release_refresh s2)
   in first \<and> second \<and> third \<and> from_secs 600 - 900000000 < REFRESH_CLAIM \<and> ct_claim s2 \<noteq> 0"
  by (simp add: claim_refresh_def release_refresh_def may_claim_def now_secs_def REFRESH_CLAIM_def cold_state_def
      as_secs_def from_secs_def Let_def)

text \<open>a restored listing can be older than the last time the sources were asked. A refresh that
  finds the same offering leaves the file as it is, with the time it was first written, and a
  restart takes that time for the time the sources were asked.\<close>

theorem restored_age_outdated:
  assumes "fs_read_to_string fs CATALOG_PATH = Inr existing" and "cc_read cc existing = Some old"
    and "same_offering old v" and "cc_parse cc (cg_checked_at old) = Some taken" and "taken \<le> wall"
    and "wall - taken \<le> MAX_RESTORED_AGE" and "answers_ok as"
  shows "let st' = fan_out_store cc overlay now token v as (st\<lparr>ct_fs := fs\<rparr>)
    in \<exists>c. restore cc wall later (ct_fs st') = Some c \<and> elapsed later (cd_at c) = wall - taken"
  using assms
  by (simp add: fan_out_store_def persist_catalog_def restore_def elapsed_def nat_diff_distrib Let_def)

theorem restored_age_outdated_witness:
  "let fs = fs_put CATALOG_PATH (Utf8 ''5'') empty_disk;
       st' = fan_out_store demo_cc True 0 0 (demo_catalog ''3600'') [] (cold_state\<lparr>ct_fs := fs\<rparr>)
   in \<exists>c. restore demo_cc (from_secs 3605) 0 (ct_fs st') = Some c \<and> elapsed 0 (cd_at c) = from_secs 3600"
proof -
  let ?fs = "fs_put CATALOG_PATH (Utf8 ''5'') empty_disk"
  have r: "fs_read_to_string ?fs CATALOG_PATH = Inr ''5''"
    by (simp add: fs_read_to_string_def fs_read_def fs_inode_def fs_put_def empty_disk_def)
  have c: "cc_read demo_cc ''5'' = Some (demo_catalog ''5'')" by (simp add: demo_cc_def)
  have o: "same_offering (demo_catalog ''5'') (demo_catalog ''3600'')" by (simp add: same_offering_def demo_catalog_def)
  have t: "cc_parse demo_cc (cg_checked_at (demo_catalog ''5'')) = Some (from_secs 5)"
    using parse_uint_show [of 5 "2 ^ 32 - 1"] by (simp add: demo_cc_def demo_catalog_def parse_u32_def show_nat_eval)
  from restored_age_outdated [OF r c o t, of "from_secs 3605" "[]" True 0 0 cold_state 0]
  show ?thesis by (simp add: MAX_RESTORED_AGE_def answers_ok_def from_secs_def Let_def)
qed

definition named :: "string \<Rightarrow> candidate" where
  "named n = \<lparr>ca_version = n, ca_relation = Unknown, ca_prerelease = False, ca_trust = Unverified,
     ca_file = None, ca_size_bytes = None\<rparr>"

lemma not_a_version: "version_parse ''v2.1x'' = None"
proof -
  have "parse_u64 ''1x'' = None" by (simp add: parse_u64_def parse_uint_def is_ascii_digit_def)
  moreover have "split_on CHR ''.'' ''2.1x'' = [''2'', ''1x'']" by (simp add: split_on_def)
  moreover have "strip_v ''v2.1x'' = ''2.1x''" by (simp add: strip_v_def strip_prefix_def starts_with_def)
  ultimately show ?thesis by (simp add: version_parse_def parse_parts_def)
qed

text \<open>the order of the local candidates is not an order. A name that is not a version is
  compared with the others as text, and three names on one card then each come before the
  next.\<close>

theorem candidate_order_cycle:
  "candidate_cmp (named ''v2.10.0'') (named ''v2.9.0'') = Less
   \<and> candidate_cmp (named ''v2.9.0'') (named ''v2.1x'') = Less
   \<and> candidate_cmp (named ''v2.1x'') (named ''v2.10.0'') = Less"
proof -
  have "version_order \<lparr>vs_release = [2, 9, 0], vs_pre = None\<rparr> \<lparr>vs_release = [2, 10, 0], vs_pre = None\<rparr> = Less"
    by code_simp
  then show ?thesis
    by (simp add: candidate_cmp_def named_def version_compare_def demo_tags not_a_version cmp_nat_def)
qed

end
