(* ===== verification/Sdcard_Files.thy ===== *)
theory Sdcard_Files
  imports Firmware_Catalog "HOL-Library.Sublist"
begin

text \<open>
  What is on the microSD card (\<open>app/sdcard_files.rs\<close>): the one function that resolves a path a
  client sent, and the listing of a directory. The file system is a tree of directories,
  files and symbolic links. \<open>Path::canonicalize\<close> walks it one component at a time, steps back
  on dot-dot, follows at most forty links, and fails where a component is missing or stands
  below something that is no directory. A canonical path is its list of components.
\<close>

section \<open>Tree of names\<close>

type_synonym apath = "string list"

datatype vkind = VDir | VFile nat | VLink string

record vnode =
  vn_kind :: vkind
  vn_modified :: "int option"
  vn_stat_ok :: bool
  vn_name_utf8 :: bool

record vfs =
  vf_nodes :: "(apath \<times> vnode) list"
  vf_closed :: "apath list"

definition vkind_at :: "vfs \<Rightarrow> apath \<Rightarrow> vkind option" where
  "vkind_at fs p = (if p = [] then Some VDir else map_option vn_kind (map_of (vf_nodes fs) p))"

definition is_vdir :: "vfs \<Rightarrow> apath \<Rightarrow> bool" where
  "is_vdir fs p = (vkind_at fs p = Some VDir)"

definition is_vfile :: "vfs \<Rightarrow> apath \<Rightarrow> bool" where
  "is_vfile fs p = (case vkind_at fs p of Some (VFile _) \<Rightarrow> True | _ \<Rightarrow> False)"

definition components :: "string \<Rightarrow> apath" where
  "components s = split_on (CHR ''/'') s"

function walk :: "vfs \<Rightarrow> nat \<Rightarrow> apath \<Rightarrow> apath \<Rightarrow> (io_error, apath) result" where
  "walk fs links at [] = Inr at"
| "walk fs links at (c # cs) =
     (if \<not> is_vdir fs at then Inl OtherIo
      else if c = [] \<or> c = ''.'' then walk fs links at cs
      else if c = ''..'' then walk fs links (butlast at) cs
      else case vkind_at fs (at @ [c]) of
             None \<Rightarrow> Inl NotFound
           | Some (VLink t) \<Rightarrow>
               if links = 0 then Inl OtherIo
               else walk fs (links - 1) (if starts_with ''/'' t then [] else at) (components t @ cs)
           | Some _ \<Rightarrow> walk fs links (at @ [c]) cs)"
  by pat_completeness auto
termination
  by (relation "inv_image (less_than <*lex*> measure length) (\<lambda>(fs, links, at, cs). (links, cs))") auto

definition MAX_LINKS :: nat where "MAX_LINKS = 40"

definition canonicalize :: "vfs \<Rightarrow> apath \<Rightarrow> (io_error, apath) result" where
  "canonicalize fs cs = (if list_ex (\<lambda>c. CHR 0x00 \<in> set c) cs then Inl OtherIo else walk fs MAX_LINKS [] cs)"

section \<open>Paths of a client\<close>

datatype sdcard_error = OutsideRoot | SdNotFound | NotADirectory | NotMounted | SdIo io_error

definition SMALLEST_PLAUSIBLE_IMAGE :: nat where "SMALLEST_PLAUSIBLE_IMAGE = 16 * 1024 * 1024"

definition resolve :: "vfs \<Rightarrow> string \<Rightarrow> string \<Rightarrow> (sdcard_error, apath) result" where
  "resolve fs root relative =
     (case canonicalize fs (components root) of
        Inl e \<Rightarrow> Inl (case e of NotFound \<Rightarrow> NotMounted | _ \<Rightarrow> SdIo e)
      | Inr r \<Rightarrow>
          (let trimmed = dropWhile (\<lambda>c. c = CHR ''/'') relative
           in if trimmed = [] then Inr r
              else case canonicalize fs (r @ components trimmed) of
                     Inl e \<Rightarrow> Inl (case e of NotFound \<Rightarrow> SdNotFound | _ \<Rightarrow> SdIo e)
                   | Inr target \<Rightarrow> if \<not> prefix r target then Inl OutsideRoot else Inr target))"

section \<open>Listing\<close>

datatype unflashable = IsDirectory | BmcFirmware | NotAnImage | TooSmall nat

record sd_entry =
  en_path :: string
  en_name :: string
  en_directory :: bool
  en_size :: nat
  en_modified :: "int option"
  en_flashable :: bool
  en_reason :: "unflashable option"

text \<open>\<open>str::to_lowercase\<close> on the characters of the model: the capitals of Latin-1.\<close>

definition to_lower :: "char \<Rightarrow> char" where
  "to_lower c =
     (let n = of_char c :: nat
      in if (65 \<le> n \<and> n \<le> 90) \<or> (192 \<le> n \<and> n \<le> 222 \<and> n \<noteq> 215) then char_of (n + 32) else c)"

definition judge :: "string \<Rightarrow> bool \<Rightarrow> nat \<Rightarrow> bool \<times> unflashable option" where
  "judge name directory len =
     (if directory then (False, Some IsDirectory)
      else let lower = map to_lower name
           in if \<not> list_ex (\<lambda>suffix. ends_with suffix lower)
                   [''.img'', ''.raw'', ''.bin'', ''.img.xz'', ''.raw.xz'', ''.img.gz'']
              then (if ends_with ''.tpu'' lower then (False, Some BmcFirmware) else (False, Some NotAnImage))
              else if len < SMALLEST_PLAUSIBLE_IMAGE then (False, Some (TooSmall len))
              else (True, None))"

definition dir_entries :: "vfs \<Rightarrow> apath \<Rightarrow> (string \<times> vnode) list" where
  "dir_entries fs dir =
     map (\<lambda>(p, n). (List.last p, n)) (filter (\<lambda>(p, n). p \<noteq> [] \<and> butlast p = dir) (vf_nodes fs))"

text \<open>The metadata of a directory entry is that of a link, not of what it points to; its length
  is that of its target.\<close>

fun vkind_len :: "vkind \<Rightarrow> nat" where
  "vkind_len VDir = 0"
| "vkind_len (VFile n) = n"
| "vkind_len (VLink t) = contents_len (Utf8 t)"

definition sd_entry_of :: "apath \<Rightarrow> apath \<Rightarrow> string \<times> vnode \<Rightarrow> sd_entry option" where
  "sd_entry_of r dir e =
     (case e of (name, n) \<Rightarrow>
        if \<not> vn_name_utf8 n then None
        else if name = ''lost+found'' then None
        else if \<not> vn_stat_ok n then None
        else
          (let directory = (vn_kind n = VDir);
               len = (if directory then 0 else vkind_len (vn_kind n));
               p = (if prefix r (dir @ [name]) then join ''/'' (drop (length r) (dir @ [name])) else name)
           in Some \<lparr>en_path = p, en_name = name, en_directory = directory, en_size = len,
                    en_modified = vn_modified n,
                    en_flashable = fst (judge name directory len), en_reason = snd (judge name directory len)\<rparr>))"

definition cmp_bool :: "bool \<Rightarrow> bool \<Rightarrow> ordering" where
  "cmp_bool a b = cmp_nat (of_bool a) (of_bool b)"

definition entry_cmp :: "sd_entry \<Rightarrow> sd_entry \<Rightarrow> ordering" where
  "entry_cmp left right =
     (case cmp_bool (en_directory right) (en_directory left) of
        Equal \<Rightarrow> cmp_str (map to_lower (en_name left)) (map to_lower (en_name right))
      | other \<Rightarrow> other)"

definition sd_list :: "vfs \<Rightarrow> string \<Rightarrow> string \<Rightarrow> (sdcard_error, sd_entry list) result" where
  "sd_list fs root relative =
     (case resolve fs root relative of
        Inl e \<Rightarrow> Inl e
      | Inr dir \<Rightarrow>
          (case canonicalize fs (components root) of
             Inl e \<Rightarrow> Inl (SdIo e)
           | Inr r \<Rightarrow>
               if \<not> is_vdir fs dir then Inl NotADirectory
               else if dir \<in> set (vf_closed fs) then Inl (SdIo OtherIo)
               else Inr (sort_by entry_cmp (filter_map (sd_entry_of r dir) (dir_entries fs dir)))))"

section \<open>Facts about canonical paths\<close>

text \<open>A path is real when it names something that is not a link, below directories only.\<close>

definition dirs_above :: "vfs \<Rightarrow> apath \<Rightarrow> bool" where
  "dirs_above fs p = list_all (\<lambda>n. is_vdir fs (take n p)) [0..<length p]"

definition real :: "vfs \<Rightarrow> apath \<Rightarrow> bool" where
  "real fs p =
     (dirs_above fs p \<and> (case vkind_at fs p of None \<Rightarrow> False | Some (VLink _) \<Rightarrow> False | Some _ \<Rightarrow> True))"

lemma is_vdir_Nil [simp]: "is_vdir fs []"
  by (simp add: is_vdir_def vkind_at_def)

lemma dirs_above_simps [simp]:
  "dirs_above fs []" "dirs_above fs (p @ [c]) \<longleftrightarrow> dirs_above fs p \<and> is_vdir fs p"
  by (auto simp: dirs_above_def list_all_iff)

lemma real_Nil [simp]: "real fs []"
  by (simp add: real_def vkind_at_def)

lemma real_butlast: "real fs p \<Longrightarrow> real fs (butlast p)"
  by (cases p rule: rev_cases) (auto simp: real_def is_vdir_def)

lemma walk_real: "walk fs links at cs = Inr p \<Longrightarrow> real fs at \<Longrightarrow> real fs p"
proof (induction fs links at cs rule: walk.induct)
  case (2 fs links at c cs)
  have ext: "real fs (at @ [c])" if "is_vdir fs at" "vkind_at fs (at @ [c]) = Some k" "\<not> (\<exists>t. k = VLink t)" for k
    using that "2.prems"(2) by (auto simp: real_def split: vkind.splits)
  show ?case
    using "2.prems" "2.IH" ext real_butlast [of fs at] by (auto split: if_splits option.splits vkind.splits)
qed simp

definition name_ok :: "string \<Rightarrow> bool" where
  "name_ok c = (c \<noteq> [] \<and> c \<noteq> ''.'' \<and> c \<noteq> ''..'' \<and> CHR ''/'' \<notin> set c \<and> CHR 0x00 \<notin> set c)"

text \<open>A tree as a kernel keeps it: every name stands in a directory and is one component.\<close>

definition vfs_wf :: "vfs \<Rightarrow> bool" where
  "vfs_wf fs =
     (distinct (map fst (vf_nodes fs))
      \<and> list_all (\<lambda>(p, n). p \<noteq> [] \<and> name_ok (List.last p) \<and> is_vdir fs (butlast p)) (vf_nodes fs))"

lemma vfs_wf_node: "vfs_wf fs \<Longrightarrow> vkind_at fs (p @ [c]) = Some k \<Longrightarrow> name_ok c"
  by (auto simp: vfs_wf_def vkind_at_def list_all_iff dest: map_of_SomeD)

lemma real_vdir: "dirs_above fs p \<Longrightarrow> is_vdir fs p \<Longrightarrow> real fs p"
  by (simp add: real_def is_vdir_def)

lemma real_names: "vfs_wf fs \<Longrightarrow> real fs p \<Longrightarrow> list_all name_ok p"
proof (induction p rule: rev_induct)
  case (snoc c p)
  then have "real fs p" using real_vdir [of fs p] by (simp add: real_def [of fs "p @ [c]"])
  moreover obtain k where "vkind_at fs (p @ [c]) = Some k" using snoc.prems(2) by (auto simp: real_def split: option.splits)
  ultimately show ?case using snoc vfs_wf_node by auto
qed simp

lemma dirs_above_append: "dirs_above fs (p @ q) \<Longrightarrow> dirs_above fs p \<and> (q \<noteq> [] \<longrightarrow> is_vdir fs p)"
proof (induction q rule: rev_induct)
  case (snoc x xs)
  then have "dirs_above fs (p @ xs) \<and> is_vdir fs (p @ xs)"
    using dirs_above_simps(2) [of fs "p @ xs" x] by simp
  with snoc.IH show ?case by (cases "xs = []") auto
qed simp

lemma walk_to_real: "vfs_wf fs \<Longrightarrow> real fs (at @ cs) \<Longrightarrow> walk fs links at cs = Inr (at @ cs)"
proof (induction cs arbitrary: at)
  case (Cons c cs)
  have d: "is_vdir fs at" "dirs_above fs (at @ [c])" "cs \<noteq> [] \<longrightarrow> is_vdir fs (at @ [c])"
    using Cons.prems(2) dirs_above_append [of fs at "c # cs"] dirs_above_append [of fs "at @ [c]" cs] by (simp_all add: real_def)
  have k: "case vkind_at fs (at @ [c]) of None \<Rightarrow> False | Some (VLink _) \<Rightarrow> False | Some _ \<Rightarrow> True"
    using Cons.prems(2) d(3) by (cases "cs = []") (auto simp: real_def is_vdir_def)
  have "name_ok c" using real_names [OF Cons.prems] by simp
  with d(1) k Cons.IH [of "at @ [c]"] Cons.prems show ?case
    by (auto simp: name_ok_def split: option.splits vkind.splits)
qed simp

lemma canonicalize_real: "vfs_wf fs \<Longrightarrow> real fs p \<Longrightarrow> canonicalize fs p = Inr p"
  using real_names [of fs p] walk_to_real [of fs "[]" p MAX_LINKS]
  by (auto simp: canonicalize_def list_all_iff list_ex_iff name_ok_def)

lemma canonicalize_is_real: "canonicalize fs cs = Inr p \<Longrightarrow> real fs p"
  by (auto simp: canonicalize_def split: if_splits intro: walk_real)

lemma split_on_join:
  "ws \<noteq> [] \<Longrightarrow> list_all (\<lambda>w. c \<notin> set w) ws \<Longrightarrow> split_on c (join [c] ws) = ws"
proof (induction ws rule: induct_list012)
  case (2 w)
  then have "list_all (\<lambda>x. \<not> x = c) w" by (auto simp: list_all_iff)
  then show ?case by (simp add: split_on_def split_p_none)
next
  case (3 w v ws)
  have "list_all (\<lambda>x. \<not> x = c) w" using 3(4) by (auto simp: list_all_iff)
  with 3 show ?case
    using split_p_append [of "\<lambda>x. x = c" w c "join [c] (v # ws)"] by (simp add: split_on_def)
qed simp

lemma resolve_under_root:
  assumes "resolve fs root relative = Inr p"
  shows "\<exists>r. canonicalize fs (components root) = Inr r \<and> prefix r p \<and> real fs p
    \<and> (vfs_wf fs \<longrightarrow> canonicalize fs p = Inr p)"
proof -
  obtain r where r: "canonicalize fs (components root) = Inr r"
    using assms by (auto simp: resolve_def split: sum.splits)
  have "prefix r p \<and> real fs p"
    using assms r canonicalize_is_real [OF r]
    by (auto simp: resolve_def Let_def dest: canonicalize_is_real split: sum.splits if_splits)
  with r show ?thesis using canonicalize_real by blast
qed

section \<open>Properties\<close>

text \<open>C22: whatever a client sends, with dot-dots, absolute names and links on the way, a path that
  is accepted lies under the card's canonical root, and it is the place itself: no component
  of it is a link, so opening it again reads that place and nothing else.\<close>

theorem resolve_confined:
  assumes "resolve fs root relative = Inr p"
  shows "\<exists>r. canonicalize fs (components root) = Inr r \<and> prefix r p \<and> real fs p
    \<and> (vfs_wf fs \<longrightarrow> canonicalize fs p = Inr p)"
  using assms by (rule resolve_under_root)

definition vnode_of :: "vkind \<Rightarrow> vnode" where
  "vnode_of k = \<lparr>vn_kind = k, vn_modified = Some 0, vn_stat_ok = True, vn_name_utf8 = True\<rparr>"

definition card_tree :: vfs where
  "card_tree =
     \<lparr>vf_nodes = [([''mnt''], vnode_of VDir), ([''mnt'', ''sdcard''], vnode_of VDir),
        ([''mnt'', ''sdcard'', ''images''], vnode_of VDir),
        ([''mnt'', ''sdcard'', ''images'', ''os.img''], vnode_of (VFile 5)),
        ([''mnt'', ''sdcard'', ''here''], vnode_of (VLink ''images/../images'')),
        ([''mnt'', ''sdcard'', ''out''], vnode_of (VLink ''/etc'')),
        ([''mnt'', ''sdcard'', ''loop''], vnode_of (VLink ''loop'')),
        ([''etc''], vnode_of VDir)],
      vf_closed = []\<rparr>"

lemma card_tree_paths:
  "resolve card_tree SDCARD_ROOT ''/here/os.img'' = Inr [''mnt'', ''sdcard'', ''images'', ''os.img'']"
  "resolve card_tree SDCARD_ROOT ''out'' = Inl OutsideRoot"
  "resolve card_tree SDCARD_ROOT ''images/../../../etc'' = Inl OutsideRoot"
  "resolve card_tree SDCARD_ROOT ''loop'' = Inl (SdIo OtherIo)"
  "resolve card_tree SDCARD_ROOT ''missing'' = Inl SdNotFound"
  "resolve card_tree ''/media'' ''x'' = Inl NotMounted"
  by code_simp+

theorem resolve_confined_witness:
  "\<exists>r. canonicalize card_tree (components SDCARD_ROOT) = Inr r
     \<and> prefix r [''mnt'', ''sdcard'', ''images'', ''os.img''] \<and> real card_tree [''mnt'', ''sdcard'', ''images'', ''os.img'']"
  using resolve_confined [OF card_tree_paths(1)] by blast

text \<open>A name is flashable exactly when it is a file with the name and the size of an image, and a
  reason stands exactly where it is not.\<close>

lemma judge_iff:
  "fst (judge name directory len) \<longleftrightarrow>
     \<not> directory \<and> SMALLEST_PLAUSIBLE_IMAGE \<le> len
     \<and> list_ex (\<lambda>suffix. ends_with suffix (map to_lower name)) [''.img'', ''.raw'', ''.bin'', ''.img.xz'', ''.raw.xz'', ''.img.gz'']"
  "snd (judge name directory len) = None \<longleftrightarrow> fst (judge name directory len)"
  by (auto simp: judge_def Let_def)

interpretation cb: comparison cmp_bool
  by unfold_locales (auto simp: cmp_bool_def cmp_nat_def split: if_splits)

interpretation ce: comparison entry_cmp
proof
  show "entry_cmp b a = reverse (entry_cmp a b)" for a b
    unfolding entry_cmp_def by (rule cb.lex_swap) (rule cs.swap)
  show "entry_cmp a c \<noteq> Greater" if "entry_cmp a b \<noteq> Greater" "entry_cmp b c \<noteq> Greater" for a b c
    using that cs.trans [of "map to_lower (en_name a)" "map to_lower (en_name b)" "map to_lower (en_name c)"]
    by (auto simp: entry_cmp_def cmp_bool_def cmp_nat_def split: if_splits)
qed

lemma entry_cmp_on: "comparison_on entry_cmp A"
  unfolding comparison_on_def using ce.swap ce.trans by blast

lemma drop_slash: "list_all name_ok ws \<Longrightarrow> dropWhile (\<lambda>c. c = CHR ''/'') (join ''/'' ws) = join ''/'' ws"
proof (cases ws)
  case (Cons w vs)
  moreover assume "list_all name_ok ws"
  ultimately obtain x xs where w: "w = x # xs" "x \<noteq> CHR ''/''" by (cases w) (auto simp: name_ok_def)
  obtain t where "join ''/'' ws = w @ t" using Cons by (cases vs) auto
  with w show ?thesis by simp
qed simp

lemma join_slash_Nil: "list_all name_ok ws \<Longrightarrow> join ''/'' ws = [] \<longleftrightarrow> ws = []"
  by (cases "(''/'', ws)" rule: join.cases) (auto simp: name_ok_def)

lemma resolve_real:
  assumes "vfs_wf fs" and "canonicalize fs (components root) = Inr r" and "real fs p" and "prefix r p"
  shows "resolve fs root (join ''/'' (drop (length r) p)) = Inr p"
proof -
  obtain q where p: "p = r @ q" using assms(4) by (auto elim: prefixE)
  have q: "list_all name_ok q" using real_names [OF assms(1,3)] p by simp
  then have "q \<noteq> [] \<Longrightarrow> components (join ''/'' q) = q"
    unfolding components_def by (intro split_on_join) (auto simp: name_ok_def list_all_iff)
  then show ?thesis
    using canonicalize_real [OF assms(1,3)] assms(2,4) p q
    by (cases "q = []") (simp_all add: resolve_def drop_slash join_slash_Nil)
qed

lemma dir_entries_kind:
  assumes "vfs_wf fs" and "(name, n) \<in> set (dir_entries fs dir)"
  shows "vkind_at fs (dir @ [name]) = Some (vn_kind n)"
proof -
  obtain p where p: "(p, n) \<in> set (vf_nodes fs)" "p \<noteq> []" "butlast p = dir" "List.last p = name"
    using assms(2) by (auto simp: dir_entries_def)
  then have "p = dir @ [name]" by (metis append_butlast_last_id)
  moreover have "map_of (vf_nodes fs) p = Some n" using assms(1) p(1) by (simp add: vfs_wf_def)
  ultimately show ?thesis by (simp add: vkind_at_def)
qed

text \<open>a listing can be used: directories come first, then the names without regard to case; an
  entry says why it cannot be flashed exactly when it cannot; and the path of an entry that is
  no link, sent back, resolves to that entry.\<close>

theorem listing_usable:
  assumes "vfs_wf fs" and "sd_list fs root relative = Inr es"
  shows "sorted_wrt (\<lambda>a b. entry_cmp a b \<noteq> Greater) es
    \<and> (\<forall>e \<in> set es. (en_reason e = None \<longleftrightarrow> en_flashable e)
        \<and> (\<exists>dir k. resolve fs root relative = Inr dir \<and> vkind_at fs (dir @ [en_name e]) = Some k
            \<and> en_directory e = (k = VDir)
            \<and> ((\<forall>t. k \<noteq> VLink t) \<longrightarrow> resolve fs root (en_path e) = Inr (dir @ [en_name e]))))"
proof -
  obtain dir r where d: "resolve fs root relative = Inr dir" "canonicalize fs (components root) = Inr r" "is_vdir fs dir"
    and es: "es = sort_by entry_cmp (filter_map (sd_entry_of r dir) (dir_entries fs dir))"
    using assms(2) by (auto simp: sd_list_def split: sum.splits if_splits)
  have pre: "prefix r dir" and rd: "real fs dir" using resolve_under_root [OF d(1)] d(2) by auto
  have "(en_reason e = None \<longleftrightarrow> en_flashable e)
      \<and> (\<exists>k. vkind_at fs (dir @ [en_name e]) = Some k \<and> en_directory e = (k = VDir)
          \<and> ((\<forall>t. k \<noteq> VLink t) \<longrightarrow> resolve fs root (en_path e) = Inr (dir @ [en_name e])))"
    if mem: "e \<in> set es" for e
  proof -
    obtain name n where n: "(name, n) \<in> set (dir_entries fs dir)" "sd_entry_of r dir (name, n) = Some e"
      using mem by (auto simp: es set_filter_map)
    have k: "vkind_at fs (dir @ [name]) = Some (vn_kind n)" by (rule dir_entries_kind [OF assms(1) n(1)])
    have p: "prefix r (dir @ [name])" using pre by (rule prefix_prefix)
    have e: "en_name e = name" "en_directory e = (vn_kind n = VDir)" "en_path e = join ''/'' (drop (length r) (dir @ [name]))"
      "en_reason e = None \<longleftrightarrow> en_flashable e"
      using n(2) p judge_iff(2) by (auto simp: sd_entry_of_def Let_def split: if_splits)
    have "real fs (dir @ [name])" if "\<forall>t. vn_kind n \<noteq> VLink t"
      using that rd d(3) k by (auto simp: real_def split: vkind.splits)
    then show ?thesis using e k resolve_real [OF assms(1) d(2) _ p] by auto
  qed
  moreover have "sorted_wrt (\<lambda>a b. entry_cmp a b \<noteq> Greater) es"
    unfolding es by (rule sort_by_sorted) (rule entry_cmp_on)
  ultimately show ?thesis using d(1) by blast
qed

theorem listing_usable_witness:
  "\<exists>es. sd_list card_tree SDCARD_ROOT [] = Inr es \<and> map en_name es = [''images'', ''here'', ''loop'', ''out'']
     \<and> resolve card_tree SDCARD_ROOT (en_path (hd es)) = Inr [''mnt'', ''sdcard'', ''images'']"
proof -
  have w: "vfs_wf card_tree" by code_simp
  obtain es where es: "sd_list card_tree SDCARD_ROOT [] = Inr es" "map en_name es = [''images'', ''here'', ''loop'', ''out'']"
  proof -
    have "(case sd_list card_tree SDCARD_ROOT [] of Inr es \<Rightarrow> map en_name es = [''images'', ''here'', ''loop'', ''out''] | Inl _ \<Rightarrow> False)"
      by code_simp
    then show ?thesis using that by (cases "sd_list card_tree SDCARD_ROOT []") auto
  qed
  have root: "resolve card_tree SDCARD_ROOT [] = Inr [''mnt'', ''sdcard'']" by code_simp
  have k: "vkind_at card_tree [''mnt'', ''sdcard'', ''images''] = Some VDir" by code_simp
  have h: "hd es \<in> set es" "en_name (hd es) = ''images''" using es(2) by (cases es; simp)+
  from listing_usable [OF w es(1)] h root k show ?thesis using es by fastforce
qed

end
