(* ===== verification/Board_Settings.thy ===== *)
theory Board_Settings
  imports Host_Files
begin

text \<open>
  The settings of the board that are files of their own: its name (\<open>app/hostname.rs\<close>) and its
  time sources (\<open>app/ntp.rs\<close>). The name is one DNS label, written to the file read at boot and to
  the kernel. The time sources are a file of chrony, rendered, read back and reloaded. A
  program that is run is its answer: it could not be started, or it ended with success or
  not and with what it printed. The text of a refusal is a constructor with its values.
\<close>

section \<open>Child processes\<close>

datatype child_output = ChildFailed string | ChildEnded bool string string

section \<open>Host name\<close>

definition LIVE_HOSTNAME :: path where "LIVE_HOSTNAME = (''/proc/sys/kernel'', ''hostname'')"
definition HOSTNAME_FILE :: path where "HOSTNAME_FILE = (''/etc'', ''hostname'')"
definition MAX_LEN :: nat where "MAX_LEN = 63"

datatype hostname_error =
    HnEmpty
  | HnTooLong string nat
  | HnNotLabel string
  | HnHyphen string
  | HnCannotWrite io_error
  | HnRefusedLive io_error

definition str_len :: "string \<Rightarrow> nat" where
  "str_len s = contents_len (Utf8 s)"

definition hostname_char :: "char \<Rightarrow> bool" where
  "hostname_char c = (is_ascii_alphanumeric c \<or> c = CHR ''-'')"

definition hostname_validate :: "string \<Rightarrow> (hostname_error, unit) result" where
  "hostname_validate name =
     (if name = [] then Inl HnEmpty
      else if str_len name > MAX_LEN then Inl (HnTooLong name (str_len name))
      else if \<not> list_all hostname_char name then Inl (HnNotLabel name)
      else if starts_with ''-'' name \<or> ends_with ''-'' name then Inl (HnHyphen name)
      else Inr ())"

definition hostname_current :: "fs \<Rightarrow> string option" where
  "hostname_current fs = map_option trim (result_ok (fs_read_to_string fs LIVE_HOSTNAME))"

text \<open>\<open>hostname::set\<close>. The restart of mdnsd afterwards is never fatal and is only logged.\<close>

definition hostname_set :: "string \<Rightarrow> fs \<Rightarrow> (hostname_error, unit) result \<times> fs" where
  "hostname_set name fs =
     (case hostname_validate name of
        Inl e \<Rightarrow> (Inl e, fs)
      | Inr _ \<Rightarrow>
          (case fs_write HOSTNAME_FILE (Utf8 (name @ [newline])) fs of
             (Inl e, fs) \<Rightarrow> (Inl (HnCannotWrite e), fs)
           | (Inr _, fs) \<Rightarrow>
               (case fs_write LIVE_HOSTNAME (Utf8 name) fs of
                  (Inl e, fs) \<Rightarrow> (Inl (HnRefusedLive e), fs)
                | (Inr _, fs) \<Rightarrow> (Inr (), fs))))"

text \<open>The body of \<open>get_hostname\<close> of \<open>api/legacy.rs\<close>: the live name and the one of the next boot.\<close>

definition get_hostname :: "fs \<Rightarrow> string option \<times> string option" where
  "get_hostname fs =
     (hostname_current fs, map_option trim (result_ok (fs_read_to_string fs HOSTNAME_FILE)))"

section \<open>Time sources\<close>

definition SOURCE_DIR :: string where "SOURCE_DIR = ''/mnt/overlay/chrony.d''"
definition SOURCE_FILE :: path where "SOURCE_FILE = (''/mnt/overlay/chrony.d'', ''bmcd.sources'')"
definition CHRONY_CONF :: path where "CHRONY_CONF = (''/etc'', ''chrony.conf'')"
definition MAX_SERVERS :: nat where "MAX_SERVERS = 8"

datatype ntp_error =
    NtEmpty
  | NtTooLong string
  | NtNotHost string
  | NtTooMany nat
  | NtCannotCreate io_error
  | NtCannotRemove io_error
  | NtCannotWrite io_error
  | NtCannotRun string
  | NtNotReloaded string

definition ntp_char :: "char \<Rightarrow> bool" where
  "ntp_char c = (is_ascii_alphanumeric c \<or> c \<in> {CHR ''.'', CHR ''-'', CHR '':'', CHR ''_''})"

definition ntp_validate :: "string \<Rightarrow> (ntp_error, unit) result" where
  "ntp_validate server =
     (if server = [] then Inl NtEmpty
      else if str_len server > 253 then Inl (NtTooLong server)
      else if \<not> list_all ntp_char server then Inl (NtNotHost server)
      else Inr ())"

fun ntp_validate_each :: "string list \<Rightarrow> (ntp_error, unit) result" where
  "ntp_validate_each [] = Inr ()"
| "ntp_validate_each (s # ss) = (case ntp_validate s of Inl e \<Rightarrow> Inl e | Inr _ \<Rightarrow> ntp_validate_each ss)"

definition ntp_validate_all :: "string list \<Rightarrow> (ntp_error, unit) result" where
  "ntp_validate_all servers =
     (if length servers > MAX_SERVERS then Inl (NtTooMany (length servers)) else ntp_validate_each servers)"

definition ntp_header :: "string list" where
  "ntp_header = [''# Written by bmcd. Edit through the API or the Settings tab; this'',
                 ''# file is replaced whole on every change.'']"

definition ntp_line :: "nat \<Rightarrow> string \<Rightarrow> string" where
  "ntp_line index server =
     (if index = 0 then ''server '' @ server @ '' iburst prefer'' else ''server '' @ server @ '' iburst'')"

definition ntp_render :: "string list \<Rightarrow> string" where
  "ntp_render servers =
     unlines ntp_header @ concat (map (\<lambda>(i, s). ntp_line i s @ [newline]) (enumerate 0 servers))"

definition ntp_parse_line :: "string \<Rightarrow> string option" where
  "ntp_parse_line line =
     (case strip_prefix ''server '' (trim line) of
        None \<Rightarrow> None
      | Some rest \<Rightarrow> (case split_whitespace rest of [] \<Rightarrow> None | w # _ \<Rightarrow> Some w))"

definition ntp_parse :: "string \<Rightarrow> string list" where
  "ntp_parse contents = filter_map ntp_parse_line (lines contents)"

definition ntp_load :: "fs \<Rightarrow> string list" where
  "ntp_load fs =
     (case fs_read_to_string fs SOURCE_FILE of Inr contents \<Rightarrow> ntp_parse contents | Inl _ \<Rightarrow> [])"

definition ntp_reload :: "child_output \<Rightarrow> (ntp_error, unit) result" where
  "ntp_reload out =
     (case out of
        ChildFailed e \<Rightarrow> Inl (NtCannotRun e)
      | ChildEnded ok _ err \<Rightarrow> if ok then Inr () else Inl (NtNotReloaded (trim err)))"

definition ntp_store :: "child_output \<Rightarrow> string list \<Rightarrow> fs \<Rightarrow> (ntp_error, unit) result \<times> fs" where
  "ntp_store chronyc servers fs =
     (case ntp_validate_all servers of
        Inl e \<Rightarrow> (Inl e, fs)
      | Inr _ \<Rightarrow>
          (case fs_create_dir_all SOURCE_DIR fs of
             (Inl e, fs) \<Rightarrow> (Inl (NtCannotCreate e), fs)
           | (Inr _, fs) \<Rightarrow>
               if servers = []
               then (case fs_remove SOURCE_FILE fs of
                       (Inr _, fs) \<Rightarrow> (ntp_reload chronyc, fs)
                     | (Inl NotFound, fs) \<Rightarrow> (ntp_reload chronyc, fs)
                     | (Inl e, fs) \<Rightarrow> (Inl (NtCannotRemove e), fs))
               else (case fs_write SOURCE_FILE (Utf8 (ntp_render servers)) fs of
                       (Inl e, fs) \<Rightarrow> (Inl (NtCannotWrite e), fs)
                     | (Inr _, fs) \<Rightarrow> (ntp_reload chronyc, fs))))"

definition sourcedir_configured :: "fs \<Rightarrow> bool" where
  "sourcedir_configured fs =
     (case fs_read_to_string fs CHRONY_CONF of
        Inr c \<Rightarrow> list_ex (\<lambda>l. starts_with ''sourcedir '' (trim l)) (lines c)
      | Inl _ \<Rightarrow> False)"

definition ensure_source_dir :: "fs \<Rightarrow> fs" where
  "ensure_source_dir fs = (if \<not> sourcedir_configured fs then fs else snd (fs_create_dir_all SOURCE_DIR fs))"

section \<open>What chrony reports\<close>

record ntp_source =
  ns_name :: string
  ns_kind :: string
  ns_state :: string
  ns_stratum :: nat
  ns_poll_seconds :: int
  ns_reach :: nat
  ns_last_rx_seconds :: "nat option"
  ns_offset_seconds :: string
  ns_configured :: bool

definition state_word :: "string \<Rightarrow> string" where
  "state_word mark =
     (if mark = ''*'' then ''selected''
      else if mark = ''+'' then ''combined''
      else if mark = ''-'' then ''excluded''
      else if mark = ''?'' then ''unreachable''
      else if mark = ''x'' then ''falseticker''
      else if mark = ''~'' then ''too_variable''
      else ''unknown'')"

definition kind_word :: "string \<Rightarrow> string" where
  "kind_word mark =
     (if mark = ''^'' then ''server''
      else if mark = ''='' then ''peer''
      else if mark = ''#'' then ''refclock''
      else ''unknown'')"

text \<open>\<open>count_ones\<close> of a byte.\<close>

fun count_ones :: "nat \<Rightarrow> nat \<Rightarrow> nat" where
  "count_ones 0 n = 0"
| "count_ones (Suc w) n = n mod 2 + count_ones w (n div 2)"

text \<open>One line of \<open>chronyc -c sources\<close>. The offset stays the text of the number it was read from.\<close>

definition parse_source :: "string list \<Rightarrow> string \<Rightarrow> ntp_source option" where
  "parse_source configured line =
     (let f = split_on (CHR '','') (trim line)
      in if length f < 8 then None
         else case from_str_radix8 (2 ^ 32 - 1) (f ! 5) of
                None \<Rightarrow> None
              | Some reach_octal \<Rightarrow>
                  (case parse_i64 (f ! 4) of
                     None \<Rightarrow> None
                   | Some poll \<Rightarrow>
                       (case parse_uint 255 (f ! 3) of
                          None \<Rightarrow> None
                        | Some stratum \<Rightarrow>
                            if is_f64 (f ! 7)
                            then Some \<lparr>ns_name = f ! 2, ns_kind = kind_word (f ! 0), ns_state = state_word (f ! 1),
                                   ns_stratum = stratum,
                                   ns_poll_seconds = (if 0 \<le> poll then 2 ^ nat (min poll 62) else 0),
                                   ns_reach = count_ones 8 (reach_octal mod 256),
                                   ns_last_rx_seconds = parse_u64 (f ! 6),
                                   ns_offset_seconds = f ! 7,
                                   ns_configured = (f ! 2 \<in> set configured)\<rparr>
                            else None)))"

definition parse_sources :: "string \<Rightarrow> string list \<Rightarrow> ntp_source list" where
  "parse_sources csv configured = filter_map (parse_source configured) (lines csv)"

definition unresolved :: "string \<Rightarrow> bool \<Rightarrow> ntp_source" where
  "unresolved name configured =
     \<lparr>ns_name = name, ns_kind = ''server'', ns_state = ''unresolved'', ns_stratum = 0, ns_poll_seconds = 0,
      ns_reach = 0, ns_last_rx_seconds = None, ns_offset_seconds = ''0'', ns_configured = configured\<rparr>"

definition image_pool :: "string \<Rightarrow> string option" where
  "image_pool chrony_conf =
     find_map (\<lambda>l. case strip_prefix ''pool '' (trim l) of
                     None \<Rightarrow> None
                   | Some rest \<Rightarrow> (case split_whitespace rest of [] \<Rightarrow> None | w # _ \<Rightarrow> Some w))
       (lines chrony_conf)"

definition with_unresolved :: "ntp_source list \<Rightarrow> string list \<Rightarrow> string \<Rightarrow> ntp_source list" where
  "with_unresolved listed configured chrony_conf =
     (let empty = (listed = []);
          listed = (if empty then listed @ map (\<lambda>n. unresolved n True) configured else listed)
      in if empty \<and> configured = []
         then (case image_pool chrony_conf of Some pool \<Rightarrow> listed @ [unresolved pool False] | None \<Rightarrow> listed)
         else listed)"

definition ntp_sources :: "child_output \<Rightarrow> string list \<Rightarrow> fs \<Rightarrow> ntp_source list" where
  "ntp_sources chronyc configured fs =
     (let listed = (case chronyc of
                      ChildEnded ok out _ \<Rightarrow> if ok then parse_sources out configured else []
                    | ChildFailed _ \<Rightarrow> []);
          conf = (case fs_read_to_string fs CHRONY_CONF of Inr c \<Rightarrow> c | Inl _ \<Rightarrow> [])
      in with_unresolved listed configured conf)"

section \<open>Facts\<close>

lemma alnum_ascii: "is_ascii_alphanumeric c \<Longrightarrow> (of_char c :: nat) < 128 \<and> 45 < (of_char c :: nat)"
  by (auto simp: is_ascii_alphanumeric_def is_ascii_alphabetic_def is_ascii_digit_def Let_def)

lemma str_len_ascii: "list_all (\<lambda>c. (of_char c :: nat) < 128) s \<Longrightarrow> str_len s = length s"
  by (induction s) (auto simp: str_len_def utf8_len_def)

lemma hostname_char_ascii: "list_all hostname_char s \<Longrightarrow> str_len s = length s"
  by (rule str_len_ascii) (auto simp: list_all_iff hostname_char_def dest: alnum_ascii)

lemma hostname_char_plain: "hostname_char c \<Longrightarrow> \<not> is_whitespace c \<and> c \<noteq> newline"
  using alnum_ascii [of c] by (auto simp: hostname_char_def is_whitespace_def newline_def)

lemma ntp_char_plain: "ntp_char c \<Longrightarrow> \<not> is_whitespace c \<and> c \<noteq> newline \<and> c \<noteq> CHR 0x0D"
  using alnum_ascii [of c] by (auto simp: ntp_char_def is_whitespace_def newline_def)

lemma starts_dash: "starts_with ''-'' s \<longleftrightarrow> s \<noteq> [] \<and> hd s = CHR ''-''"
  by (cases s) (auto simp: starts_with_iff)

lemma ends_dash: "ends_with ''-'' s \<longleftrightarrow> s \<noteq> [] \<and> List.last s = CHR ''-''"
  by (auto simp: ends_with_iff) (metis append_butlast_last_id)

text \<open>A name is accepted exactly when it is one DNS label: one to 63 letters, digits and
  hyphens, with no hyphen at either end.\<close>

lemma hostname_valid_iff:
  "hostname_validate name = Inr () \<longleftrightarrow>
     name \<noteq> [] \<and> length name \<le> 63 \<and> list_all hostname_char name \<and> hd name \<noteq> CHR ''-'' \<and> List.last name \<noteq> CHR ''-''"
  using hostname_char_ascii [of name]
  by (auto simp: hostname_validate_def MAX_LEN_def starts_dash ends_dash)

lemma hostname_trim: "hostname_validate name = Inr () \<Longrightarrow> trim name = name \<and> trim (name @ [newline]) = name"
proof -
  assume "hostname_validate name = Inr ()"
  then have n: "name \<noteq> []" "list_all hostname_char name" by (simp_all add: hostname_valid_iff)
  then have "\<not> is_whitespace (hd name)" "\<not> is_whitespace (List.last name)"
    by (auto simp: list_all_iff dest: hostname_char_plain)
  moreover from this(1) n(1) have "trim (name @ [newline]) = trim name"
    by (cases name) (auto simp: trim_def is_whitespace_def newline_def)
  ultimately show ?thesis using trim_plain [of name] by simp
qed

lemma read_put: "\<not> p \<in> set (fs_unreadable fs) \<Longrightarrow> fs_read_to_string (fs_put p (Utf8 s) fs) p = Inr s"
  by (simp add: fs_read_to_string_def fs_read_def fs_contents_def fs_inode_put) (simp add: fs_put_def split: option.splits)

lemma not_aliased_put:
  assumes "fs_wf fs" and "q \<noteq> p" and "\<not> aliased fs p q"
  shows "\<not> aliased (fs_put p c fs) q p"
  using assms fs_wf_lt [of fs q]
  by (auto simp: aliased_def fs_exists_def fs_put_def split: option.splits)

lemma read_put_other:
  "fs_wf fs \<Longrightarrow> q \<noteq> p \<Longrightarrow> \<not> aliased fs p q \<Longrightarrow> fs_read_to_string (fs_put p c fs) q = fs_read_to_string fs q"
  using fs_inode_put_other [of fs q p c]
  by (simp add: fs_read_to_string_def fs_read_def) (simp add: fs_put_def split: option.splits)

lemma fs_faults_put [simp]: "fs_faults (fs_put p c fs) = fs_faults fs"
  by (simp add: fs_put_def split: option.splits)

lemma fs_unreadable_put [simp]: "fs_unreadable (fs_put p c fs) = fs_unreadable fs"
  by (simp add: fs_put_def split: option.splits)

text \<open>The lines of the rendered file are the two comments and one line per server, whatever
  the servers are called: no accepted name can add a line or a word of its own.\<close>

definition ntp_entries :: "string list \<Rightarrow> string list" where
  "ntp_entries servers = map (\<lambda>(i, s). ntp_line i s) (enumerate 0 servers)"

lemma ntp_render_unlines: "ntp_render servers = unlines (ntp_header @ ntp_entries servers)"
proof -
  have "concat (map (\<lambda>(i, s). ntp_line i s @ [newline]) xs) = unlines (map (\<lambda>(i, s). ntp_line i s) xs)" for xs
    by (induction xs) (auto simp: unlines_simps)
  then show ?thesis by (simp add: ntp_render_def ntp_entries_def unlines_append)
qed

lemma ntp_validate_each_iff: "ntp_validate_each ss = Inr () \<longleftrightarrow> list_all (\<lambda>s. ntp_validate s = Inr ()) ss"
  by (induction ss) (auto split: sum.splits)

lemma ntp_validate_each_err: "ntp_validate_each ss = Inl e \<Longrightarrow> e = NtEmpty \<or> (\<exists>s. e = NtTooLong s \<or> e = NtNotHost s)"
  by (induction ss) (auto simp: ntp_validate_def split: sum.splits if_splits)

lemma ntp_validate_word: "ntp_validate s = Inr () \<Longrightarrow> s \<noteq> [] \<and> list_all ntp_char s"
  by (auto simp: ntp_validate_def split: if_splits)

lemma ntp_line_plain: "ntp_validate s = Inr () \<Longrightarrow> plain_line (ntp_line i s)"
  using ntp_validate_word [of s] ntp_char_plain
  by (auto simp: ntp_line_def plain_line_def list_all_iff newline_def)

lemma ntp_line_parse: "ntp_validate s = Inr () \<Longrightarrow> ntp_parse_line (ntp_line i s) = Some s"
proof -
  assume "ntp_validate s = Inr ()"
  then have s: "s \<noteq> []" "list_all (\<lambda>c. \<not> is_whitespace c) s"
    using ntp_validate_word [of s] ntp_char_plain by (auto simp: list_all_iff)
  have "trim (ntp_line i s) = ntp_line i s"
    by (rule trim_plain) (simp add: ntp_line_def is_whitespace_def)
  moreover have "\<exists>t. ntp_line i s = ''server '' @ s @ space # t"
    by (cases "i = 0") (simp_all add: ntp_line_def space_def)
  then obtain t where "ntp_line i s = ''server '' @ s @ space # t" by blast
  ultimately show ?thesis using s split_whitespace_word_space [of s space t]
    by (simp add: ntp_parse_line_def strip_prefix_def starts_with_def is_whitespace_def space_def)
qed

lemma ntp_lines:
  assumes "ntp_validate_all servers = Inr ()"
  shows "lines (ntp_render servers) = ntp_header @ ntp_entries servers"
    and "ntp_parse (ntp_render servers) = servers"
proof -
  have v: "list_all (\<lambda>s. ntp_validate s = Inr ()) servers"
    using assms by (auto simp: ntp_validate_all_def ntp_validate_each_iff split: if_splits)
  then have "list_all plain_line (ntp_entries servers)"
    by (auto simp: ntp_entries_def list_all_iff in_set_enumerate_eq dest: ntp_line_plain)
  moreover have "list_all plain_line ntp_header" by (simp add: ntp_header_def plain_line_def newline_def)
  ultimately show l: "lines (ntp_render servers) = ntp_header @ ntp_entries servers"
    by (simp add: ntp_render_unlines lines_unlines)
  have "filter_map ntp_parse_line (map (\<lambda>(i, s). ntp_line i s) (enumerate n servers)) = servers" for n
    using v by (induction servers arbitrary: n) (simp_all add: ntp_line_parse)
  moreover have "filter_map ntp_parse_line ntp_header = []"
    by (simp add: ntp_header_def ntp_parse_line_def trim_def is_whitespace_def strip_prefix_def starts_with_def)
  ultimately show "ntp_parse (ntp_render servers) = servers"
    by (simp add: ntp_parse_def l ntp_entries_def)
qed

section \<open>Properties\<close>

text \<open>a list of time sources that was stored is the list read back, in its order, also when
  chrony could not be told; and the file then holds the two comments and one
  \<open>server\<close> line per name and nothing else, so that no accepted name adds a directive.\<close>

theorem ntp_store_load:
  assumes "ntp_store chronyc servers fs = (r, fs')" and "SOURCE_FILE \<notin> set (fs_unreadable fs)"
    and "case r of Inr _ \<Rightarrow> True | Inl (NtNotReloaded _) \<Rightarrow> True | Inl (NtCannotRun _) \<Rightarrow> True | _ \<Rightarrow> False"
  shows "ntp_load fs' = servers
    \<and> (servers \<noteq> [] \<longrightarrow> (\<exists>text. fs_read_to_string fs' SOURCE_FILE = Inr text
          \<and> lines text = ntp_header @ ntp_entries servers))"
proof -
  have v: "ntp_validate_all servers = Inr ()"
    using assms(1,3)
    by (auto simp: ntp_store_def ntp_validate_all_def split: sum.splits if_splits dest!: ntp_validate_each_err)
  show ?thesis
  proof (cases "servers = []")
    case True
    have "fs_inode fs' SOURCE_FILE = None"
      using assms(1,3) v True
      by (auto simp: ntp_store_def fs_create_dir_all_def fs_remove_def fs_unlink_def map_of_filter_names fs_exists_def fs_inode_def
          split: prod.splits sum.splits if_splits io_error.splits)
    with True show ?thesis by (simp add: ntp_load_def fs_read_to_string_def fs_read_def)
  next
    case False
    then have "fs' = fs_put SOURCE_FILE (Utf8 (ntp_render servers)) fs"
      using assms(1,3) v
      by (auto simp: ntp_store_def fs_create_dir_all_def fs_write_iff split: prod.splits sum.splits if_splits)
    then have "fs_read_to_string fs' SOURCE_FILE = Inr (ntp_render servers)"
      using assms(2) by (simp add: read_put)
    then show ?thesis using ntp_lines [OF v] by (simp add: ntp_load_def)
  qed
qed

definition settings_fs :: fs where
  "settings_fs =
     \<lparr>fs_names = [(LIVE_HOSTNAME, 0), (HOSTNAME_FILE, 1)],
      fs_inodes = (\<lambda>i. \<lparr>in_contents = Utf8 ''turingpi'', in_modified = 0\<rparr>), fs_next = 2, fs_time = 7,
      fs_unreadable = [], fs_faults = [], fs_closed_dirs = []\<rparr>"

theorem ntp_store_load_witness:
  "ntp_load (snd (ntp_store (ChildEnded False [] ''no'') [''ntp.lan'', ''10.0.0.1''] settings_fs)) = [''ntp.lan'', ''10.0.0.1'']"
proof -
  let ?c = "ChildEnded False [] ''no''" and ?ss = "[''ntp.lan'', ''10.0.0.1'']"
  have v: "ntp_validate_all ?ss = Inr ()"
    by (simp add: ntp_validate_all_def ntp_validate_def ntp_char_def str_len_def utf8_len_def MAX_SERVERS_def
        is_ascii_alphanumeric_def is_ascii_alphabetic_def is_ascii_digit_def Let_def)
  then have "fst (ntp_store ?c ?ss settings_fs) = Inl (NtNotReloaded (trim ''no''))"
    by (simp add: ntp_store_def settings_fs_def fs_create_dir_all_def fs_write_def ntp_reload_def)
  then obtain fs' where "ntp_store ?c ?ss settings_fs = (Inl (NtNotReloaded (trim ''no'')), fs')"
    by (metis prod.collapse)
  from ntp_store_load [OF this] this show ?thesis by (simp add: settings_fs_def)
qed

text \<open>renaming the board. A name that is not one DNS label changes nothing; a name that is
  accepted and written is the live name and the name of the next boot; and when the running
  system refuses it, the name was still saved and the answer says so.\<close>

theorem hostname_set_outcome:
  assumes "hostname_set name fs = (r, fs')" and "fs_wf fs" and "\<not> aliased fs HOSTNAME_FILE LIVE_HOSTNAME"
    and "HOSTNAME_FILE \<notin> set (fs_unreadable fs)" and "LIVE_HOSTNAME \<notin> set (fs_unreadable fs)"
  shows "case r of
      Inr _ \<Rightarrow> hostname_validate name = Inr () \<and> get_hostname fs' = (Some name, Some name)
    | Inl (HnRefusedLive e) \<Rightarrow> hostname_validate name = Inr () \<and> snd (get_hostname fs') = Some name
    | Inl (HnCannotWrite e) \<Rightarrow> hostname_validate name = Inr () \<and> hostname_current fs' = hostname_current fs
    | Inl e \<Rightarrow> hostname_validate name = Inl e \<and> fs' = fs"
proof (cases "hostname_validate name")
  case (Inl e)
  then show ?thesis using assms(1)
    by (auto simp: hostname_set_def hostname_validate_def split: if_splits)
next
  case (Inr u)
  then have t: "trim name = name" "trim (name @ [newline]) = name" using hostname_trim [of name] by simp_all
  have ne: "LIVE_HOSTNAME \<noteq> HOSTNAME_FILE" by (simp add: LIVE_HOSTNAME_def HOSTNAME_FILE_def)
  note na = not_aliased_put [OF assms(2) ne assms(3)]
  let ?fs1 = "fs_put HOSTNAME_FILE (Utf8 (name @ [newline])) fs"
  have live: "hostname_current (fs_put HOSTNAME_FILE c fs) = hostname_current fs" for c
    using read_put_other [OF assms(2) ne assms(3)] by (simp add: hostname_current_def)
  have kept: "fs_read_to_string (fs_put LIVE_HOSTNAME c ?fs1) HOSTNAME_FILE = Inr (name @ [newline])" for c
    using read_put_other [OF fs_put_wf [OF assms(2)] ne [symmetric] na] assms(4) by (simp add: read_put)
  have first: "fs_read_to_string ?fs1 HOSTNAME_FILE = Inr (name @ [newline])" using assms(4) by (simp add: read_put)
  have second: "fs_read_to_string (fs_put LIVE_HOSTNAME (Utf8 name) ?fs1) LIVE_HOSTNAME = Inr name"
    using assms(5) by (simp add: read_put)
  have set: "hostname_set name fs =
      (case map_of (fs_faults fs) HOSTNAME_FILE of
         Some Refused \<Rightarrow> (Inl (HnCannotWrite OtherIo), fs)
       | Some (Full n) \<Rightarrow> (Inl (HnCannotWrite OtherIo), fs_put HOSTNAME_FILE (contents_take n (Utf8 (name @ [newline]))) fs)
       | None \<Rightarrow>
           (case map_of (fs_faults fs) LIVE_HOSTNAME of
              Some Refused \<Rightarrow> (Inl (HnRefusedLive OtherIo), ?fs1)
            | Some (Full n) \<Rightarrow> (Inl (HnRefusedLive OtherIo), fs_put LIVE_HOSTNAME (contents_take n (Utf8 name)) ?fs1)
            | None \<Rightarrow> (Inr (), fs_put LIVE_HOSTNAME (Utf8 name) ?fs1)))"
    using Inr by (simp add: hostname_set_def fs_write_def split: option.split fault.split)
  have get: "get_hostname (fs_put LIVE_HOSTNAME (Utf8 name) ?fs1) = (Some name, Some name)"
    "snd (get_hostname ?fs1) = Some name" "snd (get_hostname (fs_put LIVE_HOSTNAME c ?fs1)) = Some name" for c
    using first second kept t by (simp_all add: get_hostname_def hostname_current_def)
  have v: "hostname_validate name = Inr ()" using Inr by simp
  show ?thesis
    using assms(1) by (auto simp: set get live v simp del: contents_take.simps split: option.splits fault.splits)
qed

theorem hostname_set_outcome_witness:
  "get_hostname (snd (hostname_set ''hive-a'' settings_fs)) = (Some ''hive-a'', Some ''hive-a'')"
proof -
  have v: "hostname_validate ''hive-a'' = Inr ()"
    by (simp add: hostname_valid_iff hostname_char_def is_ascii_alphanumeric_def is_ascii_alphabetic_def
        is_ascii_digit_def Let_def)
  have w: "fs_wf settings_fs"
    by (simp add: fs_wf_def settings_fs_def LIVE_HOSTNAME_def HOSTNAME_FILE_def)
  have a: "\<not> aliased settings_fs HOSTNAME_FILE LIVE_HOSTNAME"
    by (simp add: aliased_def settings_fs_def LIVE_HOSTNAME_def HOSTNAME_FILE_def)
  obtain fs' where "hostname_set ''hive-a'' settings_fs = (Inr (), fs')"
    using v by (simp add: hostname_set_def fs_write_def settings_fs_def)
  from hostname_set_outcome [OF this w a] this show ?thesis by (simp add: settings_fs_def)
qed

text \<open>What chrony reports is read within its bounds: a poll interval is at most \<open>2 ^ 62\<close> seconds
  and never negative, and at most eight of the last eight polls were answered.\<close>

lemma count_ones_le: "count_ones w n \<le> w"
proof (induction w arbitrary: n)
  case (Suc w)
  have "n mod 2 \<le> 1" by simp
  with Suc [of "n div 2"] show ?case by simp
qed simp

lemma parse_source_bounds:
  assumes "parse_source configured line = Some src"
  shows "0 \<le> ns_poll_seconds src \<and> ns_poll_seconds src \<le> 2 ^ 62 \<and> ns_reach src \<le> 8 \<and> ns_stratum src \<le> 255"
proof -
  have "(2 :: int) ^ nat (min p 62) \<le> 2 ^ 62" for p :: int by (rule power_increasing) auto
  with assms count_ones_le [of 8] show ?thesis
    by (auto simp: parse_source_def Let_def dest: parse_uint_bound split: if_splits option.splits)
qed

end
