(* ===== verification/Firmware_Info.thy ===== *)
theory Firmware_Info
  imports Upgrade_Media Board_Settings
begin

text \<open>
  The A/B firmware slots (\<open>app/firmware_info.rs\<close>): which UBI volume runs, which one a rollback
  would boot, whether an update is staged, what the promotion script said, and the note left
  with a staged image. Sysfs is its listing and its attributes, \<open>fw_printenv\<close> is its answer, and
  the files of the overlay are those of the store. A bounded read takes characters, one
  byte each: the scripts write ASCII; bytes that are not UTF-8 read as the text the
  replacement makes of them, a parameter.
\<close>

section \<open>Volumes\<close>

definition UBI_DEVICE :: string where "UBI_DEVICE = ''ubi0''"
definition SLOT_PREFIX :: string where "SLOT_PREFIX = ''rootfs''"
definition ROLLBACK_VOLUME :: string where "ROLLBACK_VOLUME = ''rootfs_prev''"
definition STAGING_VOLUME :: string where "STAGING_VOLUME = ''rootfs_new''"
definition PROMOTION_LOG :: path where "PROMOTION_LOG = (''/mnt/overlay'', ''postupdate.log'')"
definition ROLLBACK_VERSION :: path where "ROLLBACK_VERSION = (''/mnt/overlay'', ''rollback-version'')"
definition STAGED_MARKER :: path where "STAGED_MARKER = (''/mnt/overlay'', ''staged-firmware'')"
definition PROMOTION_LOG_TAIL :: nat where "PROMOTION_LOG_TAIL = 8192"
definition PROMOTION_LOG_MAX :: nat where "PROMOTION_LOG_MAX = 1024 * 1024"
definition STAGED_MARKER_MAX :: nat where "STAGED_MARKER_MAX = 4096"
definition PROMOTION_MARKER :: string where "PROMOTION_MARKER = ''postupdate:''"
definition ATTEMPT_MARKER :: string where "ATTEMPT_MARKER = ''tentative boot''"
definition ROLLBACK_MARKER :: string where "ROLLBACK_MARKER = ''rolling back to the volume''"

record fw_volume =
  vo_id :: nat
  vo_name :: string
  vo_size_bytes :: "nat option"
  vo_running :: bool

record fw_slot =
  sl_volume :: string
  sl_volume_id :: nat
  sl_size_bytes :: "nat option"
  sl_version :: "string option"

text \<open>The entries of \<open>/sys/class/ubi/ubi0\<close> with the files in them, the names in
  \<open>/sys/class/block\<close>, the answer of \<open>fw_printenv\<close> and the replacement of bytes that are no text.\<close>

record firmware_host =
  fh_ubi :: "(string \<times> (string \<times> string) list) list option"
  fh_block :: "string list"
  fh_printenv :: child_output
  fh_lossy :: "u8 list \<Rightarrow> string"

definition read_attribute_string :: "(string \<times> string) list \<Rightarrow> string \<Rightarrow> string option" where
  "read_attribute_string dir attribute =
     (case map_of dir attribute of
        None \<Rightarrow> None
      | Some v \<Rightarrow> if trim v \<noteq> [] then Some (trim v) else None)"

definition read_attribute_u64 :: "(string \<times> string) list \<Rightarrow> string \<Rightarrow> nat option" where
  "read_attribute_u64 dir attribute = Option.bind (read_attribute_string dir attribute) parse_u64"

definition is_attached :: "string list \<Rightarrow> string \<Rightarrow> nat \<Rightarrow> bool" where
  "is_attached block device vid =
     (let number = trim_start_str ''ubi'' device
      in list_ex (\<lambda>name. name \<in> set block)
           [''ubiblock'' @ number @ ''_'' @ show_nat vid, ''ubiblock'' @ show_nat vid])"

definition read_volume :: "string list \<Rightarrow> string \<Rightarrow> string \<Rightarrow> string \<times> (string \<times> string) list \<Rightarrow> fw_volume option" where
  "read_volume block device pre entry =
     (case Option.bind (strip_prefix (device @ ''_'') (fst entry)) parse_u32 of
        None \<Rightarrow> None
      | Some vid \<Rightarrow>
          (case read_attribute_string (snd entry) ''name'' of
             None \<Rightarrow> None
           | Some name \<Rightarrow>
               if \<not> starts_with pre name then None
               else Some \<lparr>vo_id = vid, vo_name = name, vo_size_bytes = read_attribute_u64 (snd entry) ''data_bytes'',
                          vo_running = is_attached block device vid\<rparr>))"

definition read_volumes :: "firmware_host \<Rightarrow> fw_volume list option" where
  "read_volumes fh =
     map_option (\<lambda>entries. sort_key vo_id (filter_map (read_volume (fh_block fh) UBI_DEVICE SLOT_PREFIX) entries)) (fh_ubi fh)"

definition to_slot :: "fw_volume \<Rightarrow> string option \<Rightarrow> fw_slot" where
  "to_slot v version =
     \<lparr>sl_volume = vo_name v, sl_volume_id = vo_id v, sl_size_bytes = vo_size_bytes v, sl_version = version\<rparr>"

definition pick_slots :: "fw_volume list \<Rightarrow> string option \<Rightarrow> fw_slot option \<times> fw_slot option" where
  "pick_slots volumes running_version =
     (let running = List.find vo_running volumes;
          others = filter (\<lambda>v. \<not> vo_running v \<and> vo_name v \<noteq> STAGING_VOLUME) volumes;
          rollback = (case List.find (\<lambda>v. vo_name v = ROLLBACK_VOLUME) others of
                        Some v \<Rightarrow> Some v
                      | None \<Rightarrow> if running \<noteq> None \<and> length others = 1 then Some (hd others) else None)
      in (map_option (\<lambda>v. to_slot v running_version) running, map_option (\<lambda>v. to_slot v None) rollback))"

section \<open>Staged updates and the log of the gate\<close>

definition read_nextboot :: "child_output \<Rightarrow> bool option \<times> string option" where
  "read_nextboot out =
     (case out of
        ChildFailed _ \<Rightarrow> (None, None)
      | ChildEnded ok stdout stderr \<Rightarrow>
          if \<not> ok then (if str_contains ''not defined'' stderr then Some False else None, None)
          else let v = trim stdout in if v = [] then (Some False, None) else (Some True, Some v))"

definition file_text :: "firmware_host \<Rightarrow> fs \<Rightarrow> path \<Rightarrow> string option" where
  "file_text fh fs p =
     (case fs_read fs p of
        Inl _ \<Rightarrow> None
      | Inr (Utf8 s) \<Rightarrow> Some s
      | Inr (NotUtf8 bs) \<Rightarrow> Some (fh_lossy fh bs))"

record promotion_history =
  ph_attempts :: nat
  ph_rolled_back :: nat
  ph_promoted :: nat

fun count_gate :: "string list \<Rightarrow> nat \<times> nat \<Rightarrow> nat \<times> nat" where
  "count_gate [] (a, r) = (a, r)"
| "count_gate (l # ls) (a, r) =
     (if str_contains ATTEMPT_MARKER l then count_gate ls (a + 1, r)
      else if str_contains ROLLBACK_MARKER l then count_gate ls (a, r + 1)
      else count_gate ls (a, r))"

definition history_of :: "string \<Rightarrow> promotion_history" where
  "history_of text =
     (case count_gate (lines text) (0, 0) of
        (a, r) \<Rightarrow> \<lparr>ph_attempts = a, ph_rolled_back = r, ph_promoted = a - r\<rparr>)"

definition read_promotion_history :: "firmware_host \<Rightarrow> fs \<Rightarrow> promotion_history option" where
  "read_promotion_history fh fs = map_option (\<lambda>t. history_of (take PROMOTION_LOG_MAX t)) (file_text fh fs PROMOTION_LOG)"

definition read_rollback_version :: "fs \<Rightarrow> string option" where
  "read_rollback_version fs =
     (case fs_read_to_string fs ROLLBACK_VERSION of
        Inl _ \<Rightarrow> None
      | Inr text \<Rightarrow>
          (case lines text of
             [] \<Rightarrow> None
           | l # _ \<Rightarrow> if trim l \<noteq> [] then Some (trim l) else None))"

definition parse_promotion :: "string \<Rightarrow> (string \<times> string) option" where
  "parse_promotion line =
     (case split_once_str PROMOTION_MARKER line of
        None \<Rightarrow> None
      | Some (timestamp, message) \<Rightarrow>
          if trim timestamp \<noteq> [] \<and> trim message \<noteq> [] then Some (trim timestamp, trim message) else None)"

definition read_promotion :: "firmware_host \<Rightarrow> fs \<Rightarrow> (string \<times> string) option" where
  "read_promotion fh fs =
     Option.bind (file_text fh fs PROMOTION_LOG)
       (\<lambda>t. find_map parse_promotion (rev (lines (drop (length t - PROMOTION_LOG_TAIL) t))))"

section \<open>The note of a staged image\<close>

record staged_image =
  st_version :: "string option"
  st_sha256 :: "string option"
  st_staged_at :: "string option"
  st_source :: "string option"
  st_file :: "string option"

definition staged_default :: staged_image where
  "staged_default = \<lparr>st_version = None, st_sha256 = None, st_staged_at = None, st_source = None, st_file = None\<rparr>"

definition parse_staged_line :: "string \<Rightarrow> staged_image \<Rightarrow> staged_image" where
  "parse_staged_line line staged =
     (case split_once (CHR ''='') line of
        None \<Rightarrow> staged
      | Some (key, v) \<Rightarrow>
          (let v = trim_matches (\<lambda>c. c = CHR 0x22) (trim v); key = trim key
           in if v = [] then staged
              else if key = ''VERSION'' then staged\<lparr>st_version := Some v\<rparr>
              else if key = ''SHA256'' then staged\<lparr>st_sha256 := Some v\<rparr>
              else if key = ''STAGED_AT'' then staged\<lparr>st_staged_at := Some v\<rparr>
              else if key = ''SOURCE'' then staged\<lparr>st_source := Some v\<rparr>
              else if key = ''FILE'' then staged\<lparr>st_file := Some v\<rparr>
              else staged))"

definition parse_staged :: "string \<Rightarrow> staged_image" where
  "parse_staged body = foldl (\<lambda>staged line. parse_staged_line line staged) staged_default (lines body)"

definition read_staged :: "firmware_host \<Rightarrow> fs \<Rightarrow> staged_image option" where
  "read_staged fh fs =
     (case file_text fh fs STAGED_MARKER of
        None \<Rightarrow> None
      | Some t \<Rightarrow>
          (let staged = parse_staged (take STAGED_MARKER_MAX t)
           in if staged \<noteq> staged_default then Some staged else None))"

record firmware_slots =
  sl_present :: bool
  sl_running :: "fw_slot option"
  sl_rollback :: "fw_slot option"
  sl_update_staged :: "bool option"
  sl_nextboot :: "string option"
  sl_last_promotion :: "(string \<times> string) option"
  sl_promotion_history :: "promotion_history option"
  sl_staged :: "staged_image option"

definition get_firmware_slots :: "firmware_host \<Rightarrow> string option \<Rightarrow> fs \<Rightarrow> firmware_slots" where
  "get_firmware_slots fh running_version fs =
     (let volumes = read_volumes fh;
          (running, rollback) = (case volumes of None \<Rightarrow> (None, None) | Some vs \<Rightarrow> pick_slots vs running_version);
          rollback = map_option (\<lambda>s. if sl_version s = None then s\<lparr>sl_version := read_rollback_version fs\<rparr> else s) rollback;
          (staged, nextboot) = read_nextboot (fh_printenv fh)
      in \<lparr>sl_present = (volumes \<noteq> None), sl_running = running, sl_rollback = rollback,
          sl_update_staged = staged, sl_nextboot = nextboot, sl_last_promotion = read_promotion fh fs,
          sl_promotion_history = read_promotion_history fh fs, sl_staged = read_staged fh fs\<rparr>)"

section \<open>Facts\<close>

lemma count_gate_bound: "count_gate ls (a, r) = (a', r') \<Longrightarrow> a \<le> a' \<and> r \<le> r' \<and> a' + r' \<le> a + r + length ls"
proof (induction ls arbitrary: a r)
  case (Cons l ls)
  then show ?case by (fastforce split: if_splits)
qed simp

lemma read_nextboot_staged:
  "fst (read_nextboot out) = Some True \<longleftrightarrow> (\<exists>o1 e. out = ChildEnded True o1 e \<and> trim o1 \<noteq> [])"
  "snd (read_nextboot out) = Some v \<longleftrightarrow> v \<noteq> [] \<and> (\<exists>o1 e. out = ChildEnded True o1 e \<and> trim o1 = v)"
  by (cases out; auto simp: read_nextboot_def Let_def)+

text \<open>An update counts as staged when \<open>fw_printenv\<close> ended well and printed a value for \<open>nextboot\<close>.\<close>

lemma update_staged_iff:
  "sl_update_staged (get_firmware_slots fh version fs) = Some True
   \<longleftrightarrow> (\<exists>nextboot err. fh_printenv fh = ChildEnded True nextboot err \<and> trim nextboot \<noteq> [])"
  using read_nextboot_staged(1) [of "fh_printenv fh"] by (auto simp: get_firmware_slots_def Let_def split: prod.splits)

text \<open>A word that no trimming changes: no white space and no quote at its ends, and no line end.\<close>

definition note_value :: "string \<Rightarrow> bool" where
  "note_value v =
     (v \<noteq> [] \<and> list_all (\<lambda>c. c \<noteq> newline) v \<and> \<not> is_whitespace (hd v) \<and> \<not> is_whitespace (List.last v)
      \<and> hd v \<noteq> CHR 0x22 \<and> List.last v \<noteq> CHR 0x22)"

lemma trim_matches_plain: "v = [] \<or> \<not> P (hd v) \<and> \<not> P (List.last v) \<Longrightarrow> trim_matches P v = v"
proof (cases v rule: rev_cases)
  case (snoc w x)
  moreover assume "v = [] \<or> \<not> P (hd v) \<and> \<not> P (List.last v)"
  ultimately show ?thesis by (cases w) (simp_all add: trim_matches_def)
qed (simp add: trim_matches_def)

lemma note_value_kept: "note_value v \<Longrightarrow> trim_matches (\<lambda>c. c = CHR 0x22) (trim v) = v"
  using trim_plain [of v] trim_matches_plain [of v "\<lambda>c. c = CHR 0x22"] by (simp add: note_value_def)

lemma note_line_plain:
  "note_value v \<Longrightarrow> list_all (\<lambda>c. c \<noteq> newline) key \<Longrightarrow> plain_line (key @ v)"
  by (auto simp: plain_line_def note_value_def list_all_iff is_whitespace_def)

definition note_line :: "string \<Rightarrow> string \<Rightarrow> string" where
  "note_line key v = key @ CHR ''='' # v"

lemma parse_staged_key:
  assumes "note_value v" and "CHR ''='' \<notin> set key" and "trim key = key"
  shows "parse_staged_line (note_line key v) st =
     (if key = ''VERSION'' then st\<lparr>st_version := Some v\<rparr>
      else if key = ''SHA256'' then st\<lparr>st_sha256 := Some v\<rparr>
      else if key = ''STAGED_AT'' then st\<lparr>st_staged_at := Some v\<rparr>
      else if key = ''SOURCE'' then st\<lparr>st_source := Some v\<rparr>
      else if key = ''FILE'' then st\<lparr>st_file := Some v\<rparr>
      else st)"
proof -
  have "v \<noteq> []" using assms(1) by (simp add: note_value_def)
  then show ?thesis
    unfolding note_line_def parse_staged_line_def split_once_append [OF assms(2)] Let_def assms(3) note_value_kept [OF assms(1)]
      option.case prod.case by simp
qed

definition note_keys :: "string list" where
  "note_keys = [''VERSION'', ''FILE'', ''STAGED_AT'', ''SOURCE'', ''REPLACES'']"

lemma note_keys_plain:
  "key \<in> set note_keys \<Longrightarrow> CHR ''='' \<notin> set key \<and> trim key = key \<and> list_all (\<lambda>c. c \<noteq> newline) (key @ [CHR ''=''])"
  by (auto simp: note_keys_def newline_def intro!: trim_plain) (simp_all add: is_whitespace_def)

lemma parse_staged_lines:
  assumes "list_all (\<lambda>(k, v). k \<in> set note_keys \<and> note_value v) kvs"
  shows "parse_staged (unlines (map (\<lambda>(k, v). note_line k v) kvs)) =
    foldl (\<lambda>st (k, v). parse_staged_line (note_line k v) st) staged_default kvs"
proof -
  have "list_all plain_line (map (\<lambda>(k, v). note_line k v) kvs)"
    using assms note_keys_plain note_line_plain [of _ "_ @ [CHR ''='']"] by (fastforce simp: list_all_iff note_line_def)
  then have "lines (unlines (map (\<lambda>(k, v). note_line k v) kvs)) = map (\<lambda>(k, v). note_line k v) kvs"
    by (rule lines_unlines)
  then show ?thesis by (simp add: parse_staged_def foldl_map case_prod_unfold)
qed

definition note_pairs :: "string \<Rightarrow> string \<Rightarrow> string option \<Rightarrow> (string \<times> string) list" where
  "note_pairs file_name now running =
     (case tag_from_ota_name file_name of Some tag \<Rightarrow> [(''VERSION'', tag)] | None \<Rightarrow> [])
     @ [(''FILE'', file_name), (''STAGED_AT'', now), (''SOURCE'', ''upload'')]
     @ (case running of Some v \<Rightarrow> [(''REPLACES'', v)] | None \<Rightarrow> [])"

lemma staged_note_pairs:
  "staged_note file_name now running = unlines (map (\<lambda>(k, v). note_line k v) (note_pairs file_name now running))"
  by (simp add: staged_note_def note_pairs_def note_line_def split: option.split)

section \<open>Properties\<close>

text \<open>the volume offered for a rollback is never the one that runs and never the one an update is
  staged in; and unless it carries the name the promotion script gives it, it is the only other
  slot of a board whose running slot is known.\<close>

theorem rollback_not_running:
  assumes "pick_slots vs version = (running, Some s)"
  shows "\<exists>v \<in> set vs. s = to_slot v None \<and> \<not> vo_running v \<and> vo_name v \<noteq> STAGING_VOLUME
    \<and> (distinct (map vo_id vs) \<longrightarrow> (\<forall>r. running = Some r \<longrightarrow> sl_volume_id r \<noteq> sl_volume_id s))
    \<and> (vo_name v = ROLLBACK_VOLUME
        \<or> running \<noteq> None \<and> (\<forall>u \<in> set vs. \<not> vo_running u \<and> vo_name u \<noteq> STAGING_VOLUME \<longrightarrow> u = v))"
proof -
  let ?others = "filter (\<lambda>v. \<not> vo_running v \<and> vo_name v \<noteq> STAGING_VOLUME) vs"
  obtain v where v: "v \<in> set ?others" "s = to_slot v None"
    "vo_name v = ROLLBACK_VOLUME \<or> running \<noteq> None \<and> ?others = [v]"
  proof (cases "List.find (\<lambda>v. vo_name v = ROLLBACK_VOLUME) ?others")
    case None
    then have o: "length ?others = 1" "running \<noteq> None" "s = to_slot (hd ?others) None"
      using assms by (auto simp: pick_slots_def Let_def split: if_splits)
    from o(1) obtain v where e: "?others = [v]" by (auto simp: length_Suc_conv)
    have "v \<in> set ?others" unfolding e by simp
    moreover have "s = to_slot v None" using o(3) unfolding e by simp
    ultimately show ?thesis using o(2) e that by blast
  next
    case (Some v)
    then show ?thesis using assms that find_set [OF Some] by (auto simp: pick_slots_def Let_def)
  qed
  have "sl_volume_id r \<noteq> sl_volume_id s" if d: "distinct (map vo_id vs)" and r: "running = Some r" for r
  proof -
    obtain u where "List.find vo_running vs = Some u" "r = to_slot u version"
      using assms r by (auto simp: pick_slots_def Let_def)
    then have "u \<in> set vs" "vo_running u" "sl_volume_id r = vo_id u"
      using find_set [of vo_running vs u] by (simp_all add: to_slot_def)
    moreover have "u \<noteq> v" using v(1) \<open>vo_running u\<close> by auto
    ultimately show ?thesis using v(1,2) d by (auto simp: to_slot_def distinct_map inj_on_def)
  qed
  moreover have "\<forall>u \<in> set vs. \<not> vo_running u \<and> vo_name u \<noteq> STAGING_VOLUME \<longrightarrow> u = v" if "?others = [v]"
  proof -
    have "set ?others = {v}" using that by simp
    then show ?thesis by auto
  qed
  ultimately show ?thesis using v by auto
qed

definition demo_volume :: "nat \<Rightarrow> string \<Rightarrow> bool \<Rightarrow> fw_volume" where
  "demo_volume i n r = \<lparr>vo_id = i, vo_name = n, vo_size_bytes = None, vo_running = r\<rparr>"

theorem rollback_not_running_witness:
  "snd (pick_slots [demo_volume 1 ''rootfs'' True, demo_volume 3 ''rootfs_prev'' False] None) = Some (to_slot (demo_volume 3 ''rootfs_prev'' False) None)
   \<and> (\<exists>v \<in> set [demo_volume 1 ''rootfs'' True, demo_volume 3 ''rootfs_prev'' False]. \<not> vo_running v
        \<and> to_slot (demo_volume 3 ''rootfs_prev'' False) None = to_slot v None)"
proof -
  let ?vs = "[demo_volume 1 ''rootfs'' True, demo_volume 3 ''rootfs_prev'' False]"
  have p: "pick_slots ?vs None = (Some (to_slot (demo_volume 1 ''rootfs'' True) None), Some (to_slot (demo_volume 3 ''rootfs_prev'' False) None))"
    by (simp add: pick_slots_def demo_volume_def STAGING_VOLUME_def ROLLBACK_VOLUME_def)
  from rollback_not_running [OF p] p show ?thesis by auto
qed

text \<open>what an installation notes of the image it staged is what the board then reports: the
  release tag where the name of the file has one, the file, the time and that it was
  uploaded.\<close>

theorem staged_note_reported:
  assumes "write_staged_note file_name now running fs = (Inr (), fs')" and "STAGED_MARKER \<notin> set (fs_unreadable fs)"
    and "list_all (\<lambda>c. \<not> is_whitespace c \<and> c \<noteq> CHR 0x22) file_name" and "file_name \<noteq> []" and "note_value now"
    and "case running of None \<Rightarrow> True | Some v \<Rightarrow> note_value v"
    and "length (staged_note file_name now running) \<le> STAGED_MARKER_MAX"
  shows "read_staged fh fs' =
    Some \<lparr>st_version = tag_from_ota_name file_name, st_sha256 = None, st_staged_at = Some now,
          st_source = Some ''upload'', st_file = Some file_name\<rparr>"
proof -
  have word: "note_value w" if "w \<noteq> []" "set w \<subseteq> set file_name" for w
  proof -
    have all: "list_all (\<lambda>c. \<not> is_whitespace c \<and> c \<noteq> CHR 0x22) w" using that(2) assms(3) by (auto simp: list_all_iff)
    moreover have "hd w \<in> set w" "List.last w \<in> set w" using that(1) by simp_all
    moreover have "is_whitespace newline" by (simp add: is_whitespace_def newline_def)
    ultimately show ?thesis using that(1) by (auto simp: note_value_def list_all_iff)
  qed
  have up: "note_value ''upload''" by (simp add: note_value_def newline_def is_whitespace_def)
  have tag: "note_value t" if "tag_from_ota_name file_name = Some t" for t
    using that by (intro word) (auto simp: tag_from_ota_name_Some)
  have "list_all (\<lambda>(k, v). k \<in> set note_keys \<and> note_value v) (note_pairs file_name now running)"
    using assms(4-6) word [of file_name] up tag
    by (auto simp: note_pairs_def note_keys_def split: option.splits)
  note p = parse_staged_lines [OF this, folded staged_note_pairs]
  have keys: "CHR ''='' \<notin> set k \<and> trim k = k" if "k \<in> {''VERSION'', ''FILE'', ''STAGED_AT'', ''SOURCE'', ''REPLACES''}" for k
    using note_keys_plain [of k] that by (auto simp: note_keys_def)
  have "parse_staged (staged_note file_name now running) =
      \<lparr>st_version = tag_from_ota_name file_name, st_sha256 = None, st_staged_at = Some now,
       st_source = Some ''upload'', st_file = Some file_name\<rparr>"
    using assms(4-6) word [of file_name] up tag unfolding p
    by (simp add: note_pairs_def staged_default_def parse_staged_key keys split: option.splits)
  moreover have "fs_read fs' STAGED_MARKER = Inr (Utf8 (staged_note file_name now running))"
    using assms(1,2) fs_inode_put [of STAGED_NOTE]
    by (simp add: write_staged_note_def fs_write_iff fs_read_def STAGED_MARKER_def STAGED_NOTE_def)
  ultimately show ?thesis using assms(7)
    by (simp add: read_staged_def file_text_def staged_default_def)
qed

definition demo_firmware :: firmware_host where
  "demo_firmware = \<lparr>fh_ubi = None, fh_block = [], fh_printenv = ChildFailed [], fh_lossy = (\<lambda>_. [])\<rparr>"

theorem staged_note_reported_witness:
  "\<exists>fs'. write_staged_note ''tp2-bmc-firmware-ota-v2.4.0.tpu'' ''now'' None settings_fs = (Inr (), fs')
     \<and> map_option st_version (read_staged demo_firmware fs') = Some (Some ''v2.4.0'')"
proof -
  let ?f = "''tp2-bmc-firmware-ota-v2.4.0.tpu''"
  obtain fs' where w: "write_staged_note ?f ''now'' None settings_fs = (Inr (), fs')"
    by (simp add: write_staged_note_def fs_write_def settings_fs_def)
  have t: "tag_from_ota_name ?f = Some ''v2.4.0''" by (simp add: tag_from_ota_name_Some OTA_PREFIX_def OTA_SUFFIX_def)
  have "read_staged demo_firmware fs' = Some \<lparr>st_version = tag_from_ota_name ?f, st_sha256 = None, st_staged_at = Some ''now'',
      st_source = Some ''upload'', st_file = Some ?f\<rparr>"
    by (rule staged_note_reported [OF w])
      (simp_all add: settings_fs_def note_value_def is_whitespace_def newline_def staged_note_def t unlines_simps STAGED_MARKER_MAX_def)
  with w t show ?thesis by simp
qed

end
