(* ===== verification/Transfer_Service.thy ===== *)
theory Transfer_Service
  imports Rust_Std
begin

text \<open>
  The service that runs one file transfer at a time, \<open>streaming_data_service.rs\<close> with its
  \<open>transfer_context.rs\<close>, and the upload handler of \<open>api/legacy.rs\<close> that feeds it. A request spawns
  its worker and its timer before the state is replaced, so their steps may come before or after
  it; every use of the locked state is one step. Cancellation tokens are numbers, and the drop
  of a context cancels its token.
\<close>

section \<open>State\<close>

record transfer_context =
  tc_id :: u32
  tc_process_name :: string
  tc_size :: nat
  tc_sender :: bool
  tc_token :: nat

datatype streaming_state =
    Ready
  | Transferring transfer_context
  | Done duration nat
  | Failed string

record streaming =
  ss_status :: streaming_state
  ss_cancelled :: "nat list"

definition streaming_new :: streaming where
  "streaming_new = \<lparr>ss_status = Ready, ss_cancelled = []\<rparr>"

definition is_cancelled :: "nat \<Rightarrow> streaming \<Rightarrow> bool" where
  "is_cancelled token s = (token \<in> set (ss_cancelled s))"

text \<open>Assigning the state drops the value that was there.\<close>

definition set_status :: "streaming_state \<Rightarrow> streaming \<Rightarrow> streaming" where
  "set_status new s =
     s\<lparr>ss_status := new,
       ss_cancelled := (case ss_status s of Transferring ctx \<Rightarrow> tc_token ctx # ss_cancelled s | _ \<Rightarrow> ss_cancelled s)\<rparr>"

fun status_text :: "streaming_state \<Rightarrow> string" where
  "status_text Ready = ''Ready''"
| "status_text (Transferring _) = ''Transferring''"
| "status_text (Done _ _) = ''Done''"
| "status_text (Failed _) = ''Error''"

fun error_message :: "streaming_state \<Rightarrow> string option" where
  "error_message (Failed msg) = Some msg"
| "error_message _ = None"

datatype streaming_error =
    WrongState string string
  | HandlesDoNotMatch
  | StreamingIo
  | SenderTaken

fun streaming_status_code :: "streaming_error \<Rightarrow> nat" where
  "streaming_status_code (WrongState _ _) = 400"
| "streaming_status_code HandlesDoNotMatch = 400"
| "streaming_status_code StreamingIo = 500"
| "streaming_status_code SenderTaken = 400"

section \<open>Operations\<close>

text \<open>The last step of \<open>request_transfer\<close>; the worker and the timer are already running.\<close>

definition request_transfer :: "transfer_context \<Rightarrow> streaming \<Rightarrow> streaming" where
  "request_transfer ctx s = set_status (Transferring ctx) s"

definition cancel_all :: "streaming \<Rightarrow> streaming" where
  "cancel_all s = set_status (Failed ''cancelled by user'') s"

definition cancel_request_on_timeout :: "streaming \<Rightarrow> streaming" where
  "cancel_request_on_timeout s =
     (case ss_status s of
        Transferring ctx \<Rightarrow> if tc_sender ctx then set_status (Failed ''Send timeout'') s else s
      | _ \<Rightarrow> s)"

text \<open>The end of a worker: what it makes of its result, with what it read of its token, and the step
  that stores it. The token is read before the worker waits for the lock.\<close>

definition worker_result :: "transfer_context \<Rightarrow> (string, duration) result \<Rightarrow> bool \<Rightarrow> streaming_state \<times> bool" where
  "worker_result ctx r token_cancelled =
     (case r of
        Inl error \<Rightarrow> (Failed error, token_cancelled)
      | Inr took \<Rightarrow> (Done took (tc_size ctx), False))"

definition worker_store :: "streaming_state \<times> bool \<Rightarrow> streaming \<Rightarrow> streaming" where
  "worker_store nw s =
     (case ss_status s of
        Transferring _ \<Rightarrow> if \<not> snd nw then set_status (fst nw) s else s
      | _ \<Rightarrow> s)"

definition execute_worker :: "transfer_context \<Rightarrow> (string, duration) result \<Rightarrow> streaming \<Rightarrow> streaming" where
  "execute_worker ctx r s = worker_store (worker_result ctx r (is_cancelled (tc_token ctx) s)) s"

definition take_sender :: "u32 \<Rightarrow> streaming \<Rightarrow> (streaming_error, nat) result \<times> streaming" where
  "take_sender handle s =
     (case ss_status s of
        Transferring ctx \<Rightarrow>
          if handle \<noteq> tc_id ctx then (Inl HandlesDoNotMatch, s)
          else if \<not> tc_sender ctx then (Inl SenderTaken, s)
          else (Inr (tc_size ctx), s\<lparr>ss_status := Transferring (ctx\<lparr>tc_sender := False\<rparr>)\<rparr>)
      | other \<Rightarrow> (Inl (WrongState (status_text other) ''Transferring''), s))"

section \<open>The upload handler\<close>

text \<open>What arrives: no readable form field, or chunks up to the end or up to the first that fails. The
  receiver may be gone, after which sending a chunk is refused.\<close>

datatype upload = NoField | Field "nat list"

datatype upload_answer =
    UploadRefused streaming_error
  | FormInvalid
  | TransferEnded
  | MissingBytes u64
  | Uploaded

text \<open>The number of chunks sent before the receiver is gone is an argument; the answer comes with the
  number of bytes handed to the worker.\<close>

fun send_chunks :: "nat \<Rightarrow> nat list \<Rightarrow> nat \<Rightarrow> bool \<times> nat" where
  "send_chunks accepts [] bytes_send = (True, bytes_send)"
| "send_chunks 0 (len # rest) bytes_send = (False, bytes_send)"
| "send_chunks (Suc accepts) (len # rest) bytes_send = send_chunks accepts rest (bytes_send + len)"

definition handle_file_upload :: "u32 \<Rightarrow> nat \<Rightarrow> upload \<Rightarrow> streaming \<Rightarrow> upload_answer \<times> nat \<times> streaming" where
  "handle_file_upload handle accepts up s =
     (case take_sender handle s of
        (Inl e, s) \<Rightarrow> (UploadRefused e, 0, s)
      | (Inr announced, s) \<Rightarrow>
          (case up of
             NoField \<Rightarrow> (FormInvalid, 0, s)
           | Field chunks \<Rightarrow>
               (case send_chunks accepts chunks 0 of
                  (False, sent) \<Rightarrow> (TransferEnded, sent, s)
                | (True, sent) \<Rightarrow>
                    if sent \<noteq> announced
                    then (MissingBytes (word_of_nat announced - word_of_nat sent), sent, cancel_all s)
                    else (Uploaded, sent, s))))"

section \<open>Interleavings\<close>

text \<open>The worker of a transfer and its timer are spawned (\<open>TSpawn\<close>) before the state is replaced
  (\<open>TRequest\<close>), and do not touch the state by that. A worker that ends reads its token at some
  moment and stores its result at a later one (\<open>TStore\<close>, with what it read).\<close>

datatype transfer_event =
    TSpawn transfer_context
  | TRequest transfer_context
  | TTimer
  | TStore transfer_context "(string, duration) result" bool
  | TCancel
  | TTake u32

fun transfer_step :: "streaming \<Rightarrow> transfer_event \<Rightarrow> streaming" where
  "transfer_step s (TSpawn ctx) = s"
| "transfer_step s (TRequest ctx) = request_transfer ctx s"
| "transfer_step s TTimer = cancel_request_on_timeout s"
| "transfer_step s (TStore ctx r token_cancelled) = worker_store (worker_result ctx r token_cancelled) s"
| "transfer_step s TCancel = cancel_all s"
| "transfer_step s (TTake handle) = snd (take_sender handle s)"

abbreviation transfer_run :: "streaming \<Rightarrow> transfer_event list \<Rightarrow> streaming" where
  "transfer_run \<equiv> foldl transfer_step"

definition live :: "nat \<Rightarrow> streaming \<Rightarrow> bool" where
  "live token s = (case ss_status s of Transferring ctx \<Rightarrow> tc_token ctx = token | _ \<Rightarrow> False)"

text \<open>The tokens of the transfers that were installed, in the order in which they were.\<close>

fun installed :: "transfer_event list \<Rightarrow> nat list" where
  "installed [] = []"
| "installed (TRequest ctx # evs) = tc_token ctx # installed evs"
| "installed (_ # evs) = installed evs"

lemma installed_append [simp]: "installed (as @ bs) = installed as @ installed bs"
  by (induction as rule: installed.induct) simp_all

lemma set_status_simps [simp]:
  "ss_status (set_status new s) = new"
  "is_cancelled t (set_status new s) \<longleftrightarrow> is_cancelled t s \<or> live t s"
  by (auto simp: set_status_def is_cancelled_def live_def split: streaming_state.split)

lemma live_set_status [simp]:
  "live t (set_status (Transferring ctx) s) \<longleftrightarrow> t = tc_token ctx"
  "\<not> live t (set_status Ready s)" "\<not> live t (set_status (Done d n) s)" "\<not> live t (set_status (Failed e) s)"
  by (auto simp: live_def)

lemma take_sender_keeps [simp]:
  "live t (snd (take_sender h s)) = live t s" "is_cancelled t (snd (take_sender h s)) = is_cancelled t s"
  by (auto simp: take_sender_def live_def is_cancelled_def split: streaming_state.split)

text \<open>Of the installed transfers the one the state names is live and every other one has been told to
  stop; nothing else has been told.\<close>

definition tokens_ok :: "nat list \<Rightarrow> streaming \<Rightarrow> bool" where
  "tokens_ok ts s =
     ((\<forall>t. live t s \<or> is_cancelled t s \<longleftrightarrow> t \<in> set ts)
      \<and> (distinct ts \<longrightarrow> (\<forall>t. \<not> (live t s \<and> is_cancelled t s))))"

lemma tokens_ended:
  "tokens_ok ts s \<Longrightarrow> (\<And>t. \<not> live t (set_status new s)) \<Longrightarrow> tokens_ok ts (set_status new s)"
  by (auto simp: tokens_ok_def)

lemma worker_result_ends: "\<not> live t (set_status (fst (worker_result ctx r c)) s)"
  by (cases r) (simp_all add: worker_result_def)

lemma tokens_step:
  assumes "tokens_ok ts s"
  shows "tokens_ok (ts @ installed [ev]) (transfer_step s ev)"
proof (cases ev)
  case (TRequest ctx)
  then show ?thesis using assms by (auto simp: tokens_ok_def request_transfer_def)
next
  case (TStore ctx r c)
  then show ?thesis
    using assms tokens_ended [OF assms worker_result_ends]
    by (auto simp: worker_store_def split: streaming_state.split)
qed (use assms in \<open>auto simp: tokens_ok_def cancel_request_on_timeout_def cancel_all_def split: streaming_state.split\<close>)

lemma tokens_run: "tokens_ok (installed evs) (transfer_run streaming_new evs)"
proof (induction evs rule: rev_induct)
  case Nil
  then show ?case by (simp add: tokens_ok_def streaming_new_def live_def is_cancelled_def)
next
  case (snoc ev evs)
  from tokens_step [OF this, of ev] show ?case by simp
qed

lemma cancelled_step: "is_cancelled t s \<Longrightarrow> is_cancelled t (transfer_step s ev)"
  by (cases ev) (auto simp: request_transfer_def cancel_request_on_timeout_def worker_store_def cancel_all_def
      split: streaming_state.split)

lemma cancelled_run: "is_cancelled t s \<Longrightarrow> is_cancelled t (transfer_run s evs)"
  by (induction evs arbitrary: s) (simp_all add: cancelled_step)

section \<open>Properties\<close>

text \<open>C6: at most one transfer that was installed as the state of the service has not been told to
  stop, and it is the one the state names. With tokens of their own, a transfer has been told
  to stop exactly when it was installed and the state names it no more, and it stays told
  whatever comes. Being told is not having ended: a worker runs on until it looks at its
  token, and one whose transfer is spawned and not installed yet has not been told.\<close>

theorem one_live_transfer:
  assumes "distinct (installed evs)"
  shows "(is_cancelled t (transfer_run streaming_new evs)
      \<longleftrightarrow> t \<in> set (installed evs)
        \<and> (\<nexists>ctx. ss_status (transfer_run streaming_new evs) = Transferring ctx \<and> tc_token ctx = t))
    \<and> card {u. u \<in> set (installed evs) \<and> \<not> is_cancelled u (transfer_run streaming_new evs)} \<le> 1
    \<and> (is_cancelled t (transfer_run streaming_new evs) \<longrightarrow> is_cancelled t (transfer_run streaming_new (evs @ later)))"
proof -
  let ?s = "transfer_run streaming_new evs"
  have ok: "live u ?s \<or> is_cancelled u ?s \<longleftrightarrow> u \<in> set (installed evs)" "\<not> (live u ?s \<and> is_cancelled u ?s)" for u
    using tokens_run [of evs] assms by (auto simp: tokens_ok_def)
  have named: "live u ?s \<longleftrightarrow> (\<exists>ctx. ss_status ?s = Transferring ctx \<and> tc_token ctx = u)" for u
    by (auto simp: live_def split: streaming_state.split)
  have "{u. u \<in> set (installed evs) \<and> \<not> is_cancelled u ?s} = {u. live u ?s}" using ok by blast
  moreover have "card {u. live u ?s} \<le> 1"
    by (cases "ss_status ?s") (simp_all add: live_def)
  ultimately show ?thesis using ok [of t] cancelled_run [of t ?s later] by (auto simp: named)
qed

definition demo_context :: "nat \<Rightarrow> bool \<Rightarrow> transfer_context" where
  "demo_context n sender =
     \<lparr>tc_id = word_of_nat n, tc_process_name = ''firmware upgrade service'', tc_size = 100, tc_sender = sender, tc_token = n\<rparr>"

theorem one_live_transfer_witness:
  "let evs = [TSpawn (demo_context 1 True), TRequest (demo_context 1 True), TSpawn (demo_context 2 True),
              TRequest (demo_context 2 True), TSpawn (demo_context 3 True)]
   in is_cancelled 1 (transfer_run streaming_new evs) \<and> \<not> is_cancelled 2 (transfer_run streaming_new evs)
      \<and> \<not> is_cancelled 3 (transfer_run streaming_new evs) \<and> is_cancelled 1 (transfer_run streaming_new (evs @ [TCancel]))"
proof -
  let ?evs = "[TSpawn (demo_context 1 True), TRequest (demo_context 1 True), TSpawn (demo_context 2 True),
      TRequest (demo_context 2 True), TSpawn (demo_context 3 True)]"
  have d: "distinct (installed ?evs)" and i: "installed ?evs = [1, 2]" by (simp_all add: demo_context_def)
  have st: "ss_status (transfer_run streaming_new ?evs) = Transferring (demo_context 2 True)" by (simp add: request_transfer_def)
  from one_live_transfer [OF d, of 1] one_live_transfer [OF d, of 2] one_live_transfer [OF d, of 3] st
  have "is_cancelled 1 (transfer_run streaming_new ?evs)" "\<not> is_cancelled 2 (transfer_run streaming_new ?evs)"
    "\<not> is_cancelled 3 (transfer_run streaming_new ?evs)"
    by (simp_all add: i demo_context_def)
  with one_live_transfer [OF d, of 1 "[TCancel]"] show ?thesis by (simp only: Let_def) simp
qed

text \<open>the sender of a transfer is handed out once, to the handle it was announced under. Any
  other handle, a state with no transfer and a second request get an error each and change
  nothing; no answer of the service is about another transfer.\<close>

theorem sender_once:
  "(case take_sender handle s of
      (Inr announced, s') \<Rightarrow>
        (\<exists>ctx. ss_status s = Transferring ctx \<and> handle = tc_id ctx \<and> tc_sender ctx \<and> announced = tc_size ctx)
        \<and> take_sender handle s' = (Inl SenderTaken, s') \<and> cancel_request_on_timeout s' = s'
    | (Inl e, s') \<Rightarrow>
        s' = s
        \<and> (case e of
             WrongState cur expected \<Rightarrow> (\<nexists>ctx. ss_status s = Transferring ctx) \<and> cur = status_text (ss_status s)
           | HandlesDoNotMatch \<Rightarrow> (\<exists>ctx. ss_status s = Transferring ctx \<and> handle \<noteq> tc_id ctx)
           | SenderTaken \<Rightarrow> (\<exists>ctx. ss_status s = Transferring ctx \<and> handle = tc_id ctx \<and> \<not> tc_sender ctx)
           | StreamingIo \<Rightarrow> False))"
  by (auto simp: take_sender_def cancel_request_on_timeout_def split: streaming_state.split)

lemma send_chunks_all: "send_chunks a cs n = (True, m) \<Longrightarrow> m = n + sum_list cs"
  by (induction a cs n rule: send_chunks.induct) auto

section \<open>Where the code falls short\<close>

text \<open>the end of a worker is stored without looking whose transfer the state now holds. A worker
  that succeeds after another transfer has been requested reports that one as done, under its
  own size, and stops it.\<close>

theorem stale_worker_ends_other:
  assumes "ss_status s = Transferring b" and "tc_token a \<noteq> tc_token b"
  shows "ss_status (transfer_step s (TStore a (Inr took) c)) = Done took (tc_size a)
    \<and> is_cancelled (tc_token b) (transfer_step s (TStore a (Inr took) c))"
  using assms by (simp add: worker_store_def worker_result_def live_def)

theorem stale_worker_ends_other_witness:
  "is_cancelled 2 (transfer_run streaming_new
     [TSpawn (demo_context 1 False), TRequest (demo_context 1 False), TSpawn (demo_context 2 True),
      TRequest (demo_context 2 True), TStore (demo_context 1 False) (Inr 5) True])"
  using stale_worker_ends_other [of "transfer_run streaming_new [TSpawn (demo_context 1 False), TRequest (demo_context 1 False), TSpawn (demo_context 2 True), TRequest (demo_context 2 True)]"
      "demo_context 2 True" "demo_context 1 False" 5 True]
  by (simp add: request_transfer_def demo_context_def)

text \<open>a worker that ends before its transfer is installed leaves it running for ever. Its result
  is dropped, and when the transfer has no sender no timer ends it: whatever timers fire and
  whoever asks for the sender, the state stays as it is and every later error of the service is
  hidden behind it.\<close>

theorem early_worker_lost:
  assumes "\<And>c. ss_status s \<noteq> Transferring c" and "\<not> tc_sender a"
    and "list_all (\<lambda>ev. ev = TTimer \<or> (\<exists>h. ev = TTake h)) evs"
  shows "ss_status (transfer_run s (TSpawn a # TStore a r c # TRequest a # evs)) = Transferring a"
proof -
  have "worker_store w s = s" for w
    using assms(1) by (auto simp: worker_store_def split: streaming_state.split)
  moreover have "ss_status (transfer_run s' evs) = Transferring a" if "ss_status s' = Transferring a" for s'
    using assms(3) that
  proof (induction evs arbitrary: s')
    case (Cons ev evs)
    then have "ss_status (transfer_step s' ev) = Transferring a"
      using assms(2) by (auto simp: cancel_request_on_timeout_def take_sender_def)
    with Cons show ?case by simp
  qed simp
  ultimately show ?thesis by (simp add: request_transfer_def)
qed

theorem early_worker_lost_witness:
  "ss_status (transfer_run streaming_new
     [TSpawn (demo_context 1 False), TStore (demo_context 1 False) (Inl ''no such file'') False, TRequest (demo_context 1 False), TTimer, TTimer])
   = Transferring (demo_context 1 False)"
  using early_worker_lost [of streaming_new "demo_context 1 False" "[TTimer, TTimer]" "Inl ''no such file''" False]
  by (simp add: streaming_new_def demo_context_def)

text \<open>a form without a readable field drops the sender and nothing else. The client is told that
  its form is invalid, no byte has been handed over, and the transfer goes on: its worker reads
  the end of the data at once and takes the empty image for the whole.\<close>

theorem invalid_form_goes_on:
  assumes "ss_status s = Transferring ctx" and "tc_id ctx = handle" and "tc_sender ctx"
    and "\<not> is_cancelled (tc_token ctx) s"
  shows "\<exists>s'. handle_file_upload handle accepts NoField s = (FormInvalid, 0, s')
    \<and> \<not> is_cancelled (tc_token ctx) s' \<and> ss_status s' = Transferring (ctx\<lparr>tc_sender := False\<rparr>)
    \<and> ss_status (execute_worker ctx (Inr took) s') = Done took (tc_size ctx)"
  using assms
  by (simp add: handle_file_upload_def take_sender_def execute_worker_def worker_store_def worker_result_def is_cancelled_def)

theorem invalid_form_goes_on_witness:
  "let s = transfer_run streaming_new [TRequest (demo_context 1 True)]
   in \<exists>s'. handle_file_upload 1 0 NoField s = (FormInvalid, 0, s') \<and> \<not> is_cancelled 1 s'"
  using invalid_form_goes_on [of "transfer_run streaming_new [TRequest (demo_context 1 True)]" "demo_context 1 True" 1 0 3]
  by (auto simp: Let_def request_transfer_def demo_context_def set_status_def streaming_new_def is_cancelled_def)

end
