(* ===== verification/Hal.thy ===== *)
theory Hal
  imports Rust_Std
begin

text \<open>
  \<^verbatim>\<open>bmcd/src/hal.rs\<close>, \<^verbatim>\<open>hal/helpers.rs\<close>, \<^verbatim>\<open>hal/power_controller.rs\<close> and
  \<^verbatim>\<open>hal/pin_controller.rs\<close>: the nodes, the bit fields that name several of them at once, and
  the lines and sysfs files that power them and route their USB. The hardware is a record of
  what was last written to each line or file; an access named in \<open>hw_faults\<close> fails. Opening
  the chips and finding the lines by name is not modelled: the record is what is there after
  it. Bit fields are 8-bit words.
\<close>

unbundle bit_operations_syntax

section \<open>Nodes and modes\<close>

datatype node_id = Node1 | Node2 | Node3 | Node4

fun node_index :: "node_id \<Rightarrow> nat" where
  "node_index Node1 = 0"
| "node_index Node2 = 1"
| "node_index Node3 = 2"
| "node_index Node4 = 3"

definition node_try_from_u8 :: "u8 \<Rightarrow> node_id option" where
  "node_try_from_u8 v =
     (if v = 0 then Some Node1 else if v = 1 then Some Node2
      else if v = 2 then Some Node3 else if v = 3 then Some Node4 else None)"

definition node_try_from_i32 :: "int \<Rightarrow> node_id option" where
  "node_try_from_i32 v = node_try_from_u8 (word_of_int v)"

definition node_number :: "node_id \<Rightarrow> u8" where
  "node_number n = word_of_nat (node_index n) + 1"

definition to_bitfield :: "node_id \<Rightarrow> u8" where
  "to_bitfield n = push_bit (node_index n) 1"

definition to_inverse_bitfield :: "node_id \<Rightarrow> u8" where
  "to_inverse_bitfield n = 0b1111 AND NOT (push_bit (node_index n) 1)"

datatype usb_route = RouteBmc | AlternativePort

datatype usb_mode = Host | Device | Flash

text \<open>\<open>None\<close> is the panic of \<open>unreachable!()\<close>.\<close>

definition from_api_mode :: "int \<Rightarrow> usb_mode option" where
  "from_api_mode v =
     (let m = v AND 0b11
      in if m = 0 then Some Host else if m = 1 then Some Device else if m = 2 then Some Flash else None)"

datatype usb_architecture = UsbHub | UsbMux

section \<open>Bit fields\<close>

definition NODE_COUNT :: nat where "NODE_COUNT = 4"

definition bit_iterator :: "u8 \<Rightarrow> u8 \<Rightarrow> (nat \<times> u8) list" where
  "bit_iterator nodes_state nodes_mask =
     filter_map (\<lambda>n.
       let mask = nodes_mask AND push_bit n 1;
           state = drop_bit n (nodes_state AND mask)
       in if mask \<noteq> 0 then Some (n, state) else None) [0..<NODE_COUNT]"

section \<open>The hardware\<close>

datatype hw_op =
    SetMode nat | SetEnable nat | GetEnable nat | SetRpiBoot nat
  | OutputSwitch | PortPower | MuxLines | VbusLines | Node1Source | PowerLed | StatusLed

datatype power_controller_error = Node1UsbNotApplicable | HostModeNotSupported | HalIo hw_op

record hardware =
  hw_arch :: usb_architecture
  hw_mode :: "string list"
  hw_enable :: "u8 list"
  hw_rpi_boot :: "u8 list"
  hw_output_switch :: u8
  hw_port_power :: string
  hw_usb_mux :: u8
  hw_usb_vbus :: u8
  hw_node1_source :: u8
  hw_power_led :: string
  hw_status_led :: string
  hw_faults :: "hw_op list"

type_synonym 'a hw_result = "(power_controller_error, 'a) result \<times> hardware"

definition hw_write :: "hw_op \<Rightarrow> (hardware \<Rightarrow> hardware) \<Rightarrow> hardware \<Rightarrow> unit hw_result" where
  "hw_write op f hw = (if op \<in> set (hw_faults hw) then (Inl (HalIo op), hw) else (Inr (), f hw))"

section \<open>Power controller\<close>

definition set_mode :: "nat \<Rightarrow> u8 \<Rightarrow> hardware \<Rightarrow> unit hw_result" where
  "set_mode idx node_state =
     hw_write (SetMode idx)
       (\<lambda>hw. hw\<lparr>hw_mode := (hw_mode hw)[idx := if 0 < node_state then ''enabled'' else ''disabled'']\<rparr>)"

fun power_updates :: "(nat \<times> u8) list \<Rightarrow> hardware \<Rightarrow> unit hw_result" where
  "power_updates [] hw = (Inr (), hw)"
| "power_updates ((idx, state) # updates) hw =
     and_then (set_mode idx state hw) (\<lambda>_ hw.
     and_then (hw_write (SetEnable idx) (\<lambda>hw. hw\<lparr>hw_enable := (hw_enable hw)[idx := state]\<rparr>) hw) (\<lambda>_ hw.
     power_updates updates hw))"

definition set_power_node :: "u8 \<Rightarrow> u8 \<Rightarrow> hardware \<Rightarrow> unit hw_result" where
  "set_power_node node_states node_mask = power_updates (bit_iterator node_states node_mask)"

fun read_lines :: "nat \<Rightarrow> u8 list \<Rightarrow> hw_op list \<Rightarrow> u8 \<Rightarrow> (power_controller_error, u8) result" where
  "read_lines idx [] faults node_states = Inr node_states"
| "read_lines idx (state # rest) faults node_states =
     (if GetEnable idx \<in> set faults then Inl (HalIo (GetEnable idx))
      else read_lines (Suc idx) rest faults (node_states OR push_bit idx (state AND 1)))"

definition get_power_node :: "hardware \<Rightarrow> (power_controller_error, u8) result" where
  "get_power_node hw = read_lines 0 (hw_enable hw) (hw_faults hw) 0"

definition reset_node :: "node_id \<Rightarrow> hardware \<Rightarrow> unit hw_result" where
  "reset_node node hw =
     (let bits = to_bitfield node
      in and_then (set_power_node 0 bits hw) (\<lambda>_ hw. set_power_node bits bits hw))"

definition power_led :: "bool \<Rightarrow> hardware \<Rightarrow> unit hw_result" where
  "power_led on = hw_write PowerLed (\<lambda>hw. hw\<lparr>hw_power_led := if on then ''1'' else ''0''\<rparr>)"

definition status_led :: "bool \<Rightarrow> hardware \<Rightarrow> unit hw_result" where
  "status_led on = hw_write StatusLed (\<lambda>hw. hw\<lparr>hw_status_led := if on then ''1'' else ''0''\<rparr>)"

section \<open>Pin controller\<close>

fun boot_updates :: "(nat \<times> u8) list \<Rightarrow> hardware \<Rightarrow> unit hw_result" where
  "boot_updates [] hw = (Inr (), hw)"
| "boot_updates ((idx, state) # updates) hw =
     and_then (hw_write (SetRpiBoot idx) (\<lambda>hw. hw\<lparr>hw_rpi_boot := (hw_rpi_boot hw)[idx := state]\<rparr>) hw)
       (\<lambda>_ hw. boot_updates updates hw)"

definition set_usb_boot :: "u8 \<Rightarrow> u8 \<Rightarrow> hardware \<Rightarrow> unit hw_result" where
  "set_usb_boot nodes_state nodes_mask = boot_updates (bit_iterator nodes_state nodes_mask)"

definition mux_set_usb_route :: "usb_route \<Rightarrow> hardware \<Rightarrow> unit hw_result" where
  "mux_set_usb_route route hw =
     (case route of
        AlternativePort \<Rightarrow>
          and_then (hw_write OutputSwitch (\<lambda>hw. hw\<lparr>hw_output_switch := 0\<rparr>) hw) (\<lambda>_ hw.
            hw_write PortPower (\<lambda>hw. hw\<lparr>hw_port_power := ''enabled''\<rparr>) hw)
      | RouteBmc \<Rightarrow>
          and_then (hw_write OutputSwitch (\<lambda>hw. hw\<lparr>hw_output_switch := 1\<rparr>) hw) (\<lambda>_ hw.
            hw_write PortPower (\<lambda>hw. hw\<lparr>hw_port_power := ''disabled''\<rparr>) hw))"

definition mux_values :: "node_id \<Rightarrow> u8" where
  "mux_values node =
     (case node of Node1 \<Rightarrow> 0b1100 | Node2 \<Rightarrow> 0b1101 | Node3 \<Rightarrow> 0b0011 | Node4 \<Rightarrow> 0b0111)"

definition mux_configure_usb :: "node_id \<Rightarrow> usb_mode \<Rightarrow> hardware \<Rightarrow> unit hw_result" where
  "mux_configure_usb node mode hw =
     and_then (hw_write MuxLines (\<lambda>hw. hw\<lparr>hw_usb_mux := mux_values node\<rparr>) hw) (\<lambda>_ hw.
       let vbus = (case mode of Host \<Rightarrow> to_inverse_bitfield node | _ \<Rightarrow> 0b1111)
       in hw_write VbusLines (\<lambda>hw. hw\<lparr>hw_usb_vbus := vbus\<rparr>) hw)"

definition mux_set_node1_usb_route :: "bool \<Rightarrow> hardware \<Rightarrow> unit hw_result" where
  "mux_set_node1_usb_route alternative_port hw = (Inl Node1UsbNotApplicable, hw)"

definition hub_set_usb_route :: "usb_route \<Rightarrow> hardware \<Rightarrow> unit hw_result" where
  "hub_set_usb_route route =
     hw_write OutputSwitch
       (\<lambda>hw. hw\<lparr>hw_output_switch := case route of AlternativePort \<Rightarrow> 0 | RouteBmc \<Rightarrow> 1\<rparr>)"

definition hub_configure_usb :: "node_id \<Rightarrow> usb_mode \<Rightarrow> hardware \<Rightarrow> unit hw_result" where
  "hub_configure_usb node mode hw =
     (if mode = Host then (Inl HostModeNotSupported, hw) else (Inr (), hw))"

definition hub_set_node1_usb_route :: "bool \<Rightarrow> hardware \<Rightarrow> unit hw_result" where
  "hub_set_node1_usb_route alternative_port =
     hw_write Node1Source (\<lambda>hw. hw\<lparr>hw_node1_source := if alternative_port then 0b11 else 0\<rparr>)"

text \<open>The calls through \<open>Box<dyn UsbConfiguration>\<close>.\<close>

definition usb_bus_type :: "hardware \<Rightarrow> usb_architecture" where
  "usb_bus_type hw = hw_arch hw"

definition set_usb_route :: "usb_route \<Rightarrow> hardware \<Rightarrow> unit hw_result" where
  "set_usb_route route hw =
     (case hw_arch hw of UsbMux \<Rightarrow> mux_set_usb_route route hw | UsbHub \<Rightarrow> hub_set_usb_route route hw)"

definition set_node1_usb_route :: "bool \<Rightarrow> hardware \<Rightarrow> unit hw_result" where
  "set_node1_usb_route alternative_port hw =
     (case hw_arch hw of
        UsbMux \<Rightarrow> mux_set_node1_usb_route alternative_port hw
      | UsbHub \<Rightarrow> hub_set_node1_usb_route alternative_port hw)"

definition usb_switch_configure :: "node_id \<Rightarrow> usb_mode \<Rightarrow> hardware \<Rightarrow> unit hw_result" where
  "usb_switch_configure node mode hw =
     (case hw_arch hw of
        UsbMux \<Rightarrow> mux_configure_usb node mode hw
      | UsbHub \<Rightarrow> hub_configure_usb node mode hw)"

definition select_usb :: "node_id \<Rightarrow> usb_mode \<Rightarrow> hardware \<Rightarrow> unit hw_result" where
  "select_usb node mode hw =
     and_then (usb_switch_configure node mode hw) (\<lambda>_ hw.
       if mode = Flash then set_usb_boot (to_bitfield node) (to_bitfield node) hw
       else set_usb_boot 0 0b1111 hw)"

section \<open>Facts\<close>

lemma bit_and_push_one: "k AND push_bit n 1 \<noteq> (0 :: u8) \<longleftrightarrow> bit k n"
  by (simp add: push_bit_of_1 and_exp_eq_0_iff_not_bit)

lemma drop_bit_selected:
  "drop_bit n (st AND (k AND push_bit n 1)) = (of_bool (bit st n \<and> bit k n) :: u8)"
  by (rule bit_word_eqI) (auto simp: bit_simps dest: bit_imp_le_length)

text \<open>The iterator is the nodes of the mask in order, each with its bit.\<close>

lemma bit_iterator_eq:
  "bit_iterator st k = map (\<lambda>n. (n, of_bool (bit st n))) (filter (bit k) [0..<4])"
proof -
  have "filter_map (\<lambda>n. let m = k AND push_bit n 1; s = drop_bit n (st AND m)
          in if m \<noteq> 0 then Some (n, s) else None) ns
      = map (\<lambda>n. (n, of_bool (bit st n))) (filter (bit k) ns)" for ns
    by (induction ns) (simp_all only: filter_map.simps Let_def bit_and_push_one drop_bit_selected, simp_all)
  then show ?thesis by (simp only: bit_iterator_def NODE_COUNT_def)
qed

lemma node_index_lt: "node_index n < 4"
  by (cases n) simp_all

lemma bit_to_bitfield: "bit (to_bitfield n) k \<longleftrightarrow> k = node_index n"
  using node_index_lt [of n] by (auto simp: to_bitfield_def bit_simps)

lemma node_index_inj: "node_index m = node_index n \<longleftrightarrow> m = n"
  by (cases m; cases n) simp_all

lemma bit_nibble: "bit (0b1111 :: u8) k \<longleftrightarrow> k < 4"
proof -
  have "(0b1111 :: u8) = mask 4" by (simp add: mask_eq_exp_minus_1)
  then show ?thesis by (simp only: bit_mask_iff) auto
qed

section \<open>Writing lines\<close>

text \<open>Setting the entries of a list one after another.\<close>

definition put_all :: "(nat \<Rightarrow> 'a) \<Rightarrow> nat list \<Rightarrow> 'a list \<Rightarrow> 'a list" where
  "put_all f ns xs = foldl (\<lambda>xs n. xs[n := f n]) xs ns"

lemma put_all_simps [simp]: "put_all f [] xs = xs" "put_all f (n # ns) xs = put_all f ns (xs[n := f n])"
  by (simp_all add: put_all_def)

lemma length_put_all [simp]: "length (put_all f ns xs) = length xs"
  by (induction ns arbitrary: xs) simp_all

lemma nth_put_all: "k < length xs \<Longrightarrow> put_all f ns xs ! k = (if k \<in> set ns then f k else xs ! k)"
  by (induction ns arbitrary: xs) (auto simp: nth_list_update)

lemma hw_write_ok: "hw_write op f hw = (Inr (), hw') \<longleftrightarrow> op \<notin> set (hw_faults hw) \<and> hw' = f hw"
  by (auto simp: hw_write_def)

lemma hw_write_fault: "hw_write op f hw = (Inl e, hw') \<longleftrightarrow> op \<in> set (hw_faults hw) \<and> e = HalIo op \<and> hw' = hw"
  by (auto simp: hw_write_def)

definition mode_text :: "u8 \<Rightarrow> string" where
  "mode_text state = (if 0 < state then ''enabled'' else ''disabled'')"

lemma power_updates_ok:
  "power_updates (map (\<lambda>n. (n, f n)) ns) hw = (Inr (), hw') \<Longrightarrow>
     hw' = hw\<lparr>hw_mode := put_all (\<lambda>n. mode_text (f n)) ns (hw_mode hw),
              hw_enable := put_all f ns (hw_enable hw)\<rparr>"
proof (induction ns arbitrary: hw)
  case (Cons n ns)
  let ?hw = "hw\<lparr>hw_mode := (hw_mode hw)[n := mode_text (f n)], hw_enable := (hw_enable hw)[n := f n]\<rparr>"
  have "power_updates (map (\<lambda>n. (n, f n)) ns) ?hw = (Inr (), hw')"
    using Cons.prems by (auto simp: and_then_ok set_mode_def hw_write_ok mode_text_def)
  from Cons.IH [OF this] show ?case by simp
qed simp

lemma power_updates_live:
  "(\<And>n. n \<in> set ns \<Longrightarrow> SetMode n \<notin> set (hw_faults hw) \<and> SetEnable n \<notin> set (hw_faults hw)) \<Longrightarrow>
     \<exists>hw'. power_updates (map (\<lambda>n. (n, f n)) ns) hw = (Inr (), hw')"
  by (induction ns arbitrary: hw) (auto simp: set_mode_def hw_write_def)

lemma boot_updates_ok:
  "boot_updates (map (\<lambda>n. (n, f n)) ns) hw = (Inr (), hw') \<Longrightarrow>
     hw' = hw\<lparr>hw_rpi_boot := put_all f ns (hw_rpi_boot hw)\<rparr>"
proof (induction ns arbitrary: hw)
  case (Cons n ns)
  have "boot_updates (map (\<lambda>n. (n, f n)) ns) (hw\<lparr>hw_rpi_boot := (hw_rpi_boot hw)[n := f n]\<rparr>) = (Inr (), hw')"
    using Cons.prems by (auto simp: and_then_ok hw_write_ok)
  from Cons.IH [OF this] show ?case by simp
qed simp

text \<open>A board has four of each.\<close>

definition hw_wf :: "hardware \<Rightarrow> bool" where
  "hw_wf hw = (length (hw_mode hw) = 4 \<and> length (hw_enable hw) = 4 \<and> length (hw_rpi_boot hw) = 4)"

abbreviation selected :: "u8 \<Rightarrow> nat list" where
  "selected k \<equiv> filter (bit k) [0..<4]"

lemma set_power_node_ok:
  "set_power_node st k hw = (Inr (), hw') \<Longrightarrow>
     hw' = hw\<lparr>hw_mode := put_all (\<lambda>n. mode_text (of_bool (bit st n))) (selected k) (hw_mode hw),
              hw_enable := put_all (\<lambda>n. of_bool (bit st n)) (selected k) (hw_enable hw)\<rparr>"
  unfolding set_power_node_def bit_iterator_eq by (rule power_updates_ok)

lemma set_power_node_live:
  "hw_faults hw = [] \<Longrightarrow> \<exists>hw'. set_power_node st k hw = (Inr (), hw')"
  unfolding set_power_node_def bit_iterator_eq by (rule power_updates_live) simp

text \<open>Reading the lines back.\<close>

lemma read_lines_ok:
  "(\<And>i. i < length es \<Longrightarrow> GetEnable (idx + i) \<notin> set faults) \<Longrightarrow>
     \<exists>v. read_lines idx es faults acc = Inr v
       \<and> (\<forall>k < 8. bit v k \<longleftrightarrow> bit acc k \<or> (idx \<le> k \<and> k < idx + length es \<and> bit (es ! (k - idx)) 0))"
proof (induction es arbitrary: idx acc)
  case (Cons e es)
  have here: "GetEnable idx \<notin> set faults" using Cons.prems [of 0] by simp
  have rest: "\<And>i. i < length es \<Longrightarrow> GetEnable (Suc idx + i) \<notin> set faults"
    using Cons.prems by (metis Suc_less_eq add_Suc_shift length_Cons)
  from Cons.IH [of "Suc idx" "acc OR push_bit idx (e AND 1)", OF rest] obtain v where
    v: "read_lines (Suc idx) es faults (acc OR push_bit idx (e AND 1)) = Inr v"
    and b: "\<forall>k < 8. bit v k \<longleftrightarrow> bit (acc OR push_bit idx (e AND 1)) k
      \<or> (Suc idx \<le> k \<and> k < Suc idx + length es \<and> bit (es ! (k - Suc idx)) 0)" by blast
  have new: "bit (acc OR push_bit idx (e AND 1)) k \<longleftrightarrow> bit acc k \<or> (k = idx \<and> bit e 0)" if "k < 8" for k
    using that by (auto simp: bit_simps)
  have "bit v k \<longleftrightarrow> bit acc k \<or> (idx \<le> k \<and> k < idx + length (e # es) \<and> bit ((e # es) ! (k - idx)) 0)"
    if k: "k < 8" for k
    using b k new [OF k] by (cases "k = idx") (auto simp: nth_Cons' Suc_le_eq)
  then show ?case using here v by auto
qed auto

end
