(* ===== verification/Cooling_Device.thy ===== *)
theory Cooling_Device
  imports Rust_Std
begin

text \<open>
  \<^verbatim>\<open>bmcd/src/app/cooling_device.rs\<close>: the fans and the governors that drive them, through
  \<^verbatim>\<open>/sys/class/thermal\<close>. The class is a list of directories in the order the kernel lists
  them, each with its files and links; a file may be unreadable, and a write may be refused.
  A \<open>c_ulong\<close> is 32 bits wide on the board.
\<close>

section \<open>The thermal class\<close>

datatype sys_node = Text string | Link string | Unreadable

type_synonym sys_dir = "(string \<times> sys_node) list"

record thermal =
  th_listable :: bool
  th_dirs :: "(string \<times> sys_dir) list"
  th_pwm_fans :: "string list option"
  th_refused :: "(string \<times> string) list"

definition th_listing :: "thermal \<Rightarrow> (string \<times> sys_dir) list" where
  "th_listing t = (if th_listable t then th_dirs t else [])"

definition dir_read :: "sys_dir \<Rightarrow> string \<Rightarrow> string option" where
  "dir_read d name = (case map_of d name of Some (Text s) \<Rightarrow> Some s | _ \<Rightarrow> None)"

definition th_read :: "thermal \<Rightarrow> string \<Rightarrow> string \<Rightarrow> string option" where
  "th_read t dir name = Option.bind (map_of (th_dirs t) dir) (\<lambda>d. dir_read d name)"

fun dir_write :: "string \<Rightarrow> string \<Rightarrow> sys_dir \<Rightarrow> sys_dir" where
  "dir_write name v [] = []"
| "dir_write name v ((n, x) # d) = (if n = name then (n, Text v) # d else (n, x) # dir_write name v d)"

fun dirs_write :: "string \<Rightarrow> string \<Rightarrow> string \<Rightarrow> (string \<times> sys_dir) list \<Rightarrow> (string \<times> sys_dir) list" where
  "dirs_write dir name v [] = []"
| "dirs_write dir name v ((n, d) # ds) =
     (if n = dir then (n, dir_write name v d) # ds else (n, d) # dirs_write dir name v ds)"

text \<open>Writing an attribute: refused when it is not there or the kernel says no. Sysfs does not make
  new files.\<close>

definition th_write :: "string \<Rightarrow> string \<Rightarrow> string \<Rightarrow> thermal \<Rightarrow> bool \<times> thermal" where
  "th_write dir name v t =
     (if (dir, name) \<in> set (th_refused t)
         \<or> Option.bind (map_of (th_dirs t) dir) (\<lambda>d. map_of d name) = None
      then (False, t)
      else (True, t\<lparr>th_dirs := dirs_write dir name v (th_dirs t)\<rparr>))"

section \<open>Reading\<close>

record cooling_device =
  cl_device :: string
  cl_speed :: nat
  cl_max_speed :: nat
  cl_zone :: "string option"
  cl_overridden :: bool

text \<open>\<open>zone_bindings\<close>: which zone binds each device; the first binding found wins. The target of
  a link is its last component.\<close>

definition is_binding :: "string \<Rightarrow> bool" where
  "is_binding name = (starts_with ''cdev'' name \<and> CHR ''_'' \<notin> set name)"

definition zone_links :: "string \<times> sys_dir \<Rightarrow> (string \<times> string) list" where
  "zone_links zd =
     (case zd of (zone, d) \<Rightarrow>
        if \<not> starts_with ''thermal_zone'' zone then []
        else filter_map (\<lambda>(name, node).
          if \<not> is_binding name then None
          else (case node of Link target \<Rightarrow> Some (target, zone) | _ \<Rightarrow> None)) d)"

definition zone_bindings :: "thermal \<Rightarrow> (string \<times> string) list" where
  "zone_bindings t = concat (map zone_links (th_listing t))"

definition governor_enabled :: "thermal \<Rightarrow> string \<Rightarrow> bool option" where
  "governor_enabled t zone =
     (case th_read t zone ''mode'' of
        None \<Rightarrow> None
      | Some mode \<Rightarrow>
          if trim mode = ''enabled'' then Some True
          else if trim mode = ''disabled'' then Some False
          else None)"

definition is_system_fan :: "thermal \<Rightarrow> sys_dir \<Rightarrow> string option" where
  "is_system_fan t d =
     (case dir_read d ''type'' of
        None \<Rightarrow> None
      | Some typ \<Rightarrow>
          if trim typ = ''pwm-fan''
          then Option.bind (th_pwm_fans t) (\<lambda>fans. case fans of [] \<Rightarrow> None | f # _ \<Rightarrow> Some f)
          else None)"

definition read_ulong :: "sys_dir \<Rightarrow> string \<Rightarrow> nat" where
  "read_ulong d name =
     (case dir_read d name of
        None \<Rightarrow> 0
      | Some s \<Rightarrow> (case parse_u32 (trim s) of None \<Rightarrow> 0 | Some v \<Rightarrow> v))"

definition device_name :: "thermal \<Rightarrow> string \<Rightarrow> sys_dir \<Rightarrow> string" where
  "device_name t dir_name d =
     (case is_system_fan t d of None \<Rightarrow> dir_name | Some n \<Rightarrow> replace_char (CHR ''-'') '' '' n)"

definition cooling_entry :: "thermal \<Rightarrow> string \<times> sys_dir \<Rightarrow> cooling_device option" where
  "cooling_entry t nd =
     (case nd of (dir_name, d) \<Rightarrow>
        if \<not> starts_with ''cooling_device'' dir_name then None
        else
          (let zone = map_of (zone_bindings t) dir_name
           in Some \<lparr>cl_device = device_name t dir_name d,
                    cl_speed = read_ulong d ''cur_state'',
                    cl_max_speed = read_ulong d ''max_state'',
                    cl_zone = zone,
                    cl_overridden = (case zone of
                        None \<Rightarrow> False | Some z \<Rightarrow> governor_enabled t z = Some False)\<rparr>))"

definition get_cooling_state :: "thermal \<Rightarrow> cooling_device list" where
  "get_cooling_state t = filter_map (cooling_entry t) (th_listing t)"

section \<open>Writing\<close>

datatype cooling_error =
    NoSuchDevice string
  | SpeedTooHigh nat nat
  | NoThermalZone string
  | CoolingIo

definition set_cooling_state :: "string \<Rightarrow> nat \<Rightarrow> thermal \<Rightarrow> (cooling_error, unit) result \<times> thermal" where
  "set_cooling_state device speed t =
     (let dev_name = (if device = ''system fan'' then ''cooling_device0'' else device)
      in case List.find (\<lambda>d. cl_device d = device) (get_cooling_state t) of
           None \<Rightarrow> (Inl (NoSuchDevice device), t)
         | Some found \<Rightarrow>
             if cl_max_speed found < speed then (Inl (SpeedTooHigh speed (cl_max_speed found)), t)
             else (case th_write dev_name ''cur_state'' (show_nat speed) t of
                     (True, t) \<Rightarrow> (Inr (), t)
                   | (False, t) \<Rightarrow> (Inl CoolingIo, t)))"

definition set_governor :: "string \<Rightarrow> bool \<Rightarrow> thermal \<Rightarrow> (cooling_error, unit) result \<times> thermal" where
  "set_governor zone enabled t =
     (case th_write zone ''mode'' (if enabled then ''enabled'' else ''disabled'') t of
        (True, t) \<Rightarrow> (Inr (), t)
      | (False, t) \<Rightarrow> (Inl CoolingIo, t))"

definition set_cooling_override ::
  "string \<Rightarrow> nat option \<Rightarrow> thermal \<Rightarrow> (cooling_error, unit) result \<times> thermal" where
  "set_cooling_override device step t =
     (case List.find (\<lambda>d. cl_device d = device) (get_cooling_state t) of
        None \<Rightarrow> (Inl (NoSuchDevice device), t)
      | Some found \<Rightarrow>
          (case cl_zone found of
             None \<Rightarrow> (Inl (NoThermalZone device), t)
           | Some zone \<Rightarrow>
               (case step of
                  None \<Rightarrow> set_governor zone True t
                | Some step \<Rightarrow>
                    if cl_max_speed found < step then (Inl (SpeedTooHigh step (cl_max_speed found)), t)
                    else and_then (set_governor zone False t) (\<lambda>_ t.
                      case set_cooling_state device step t of
                        (Inl e, t) \<Rightarrow> (Inl e, snd (set_governor zone True t))
                      | (Inr _, t) \<Rightarrow> (Inr (), t)))))"

fun resume_devices :: "cooling_device list \<Rightarrow> thermal \<Rightarrow> thermal" where
  "resume_devices [] t = t"
| "resume_devices (d # ds) t =
     resume_devices ds
       (case cl_zone d of
          Some zone \<Rightarrow> if cl_overridden d then snd (set_governor zone True t) else t
        | None \<Rightarrow> t)"

definition resume_all_governors :: "thermal \<Rightarrow> thermal" where
  "resume_all_governors t = resume_devices (get_cooling_state t) t"

section \<open>The ceiling\<close>

definition strip_suffix :: "string \<Rightarrow> string \<Rightarrow> string option" where
  "strip_suffix suf s = (if ends_with suf s then Some (take (length s - length suf) s) else None)"

definition active_trip :: "sys_dir \<Rightarrow> string \<times> sys_node \<Rightarrow> int option" where
  "active_trip d entry =
     (case strip_suffix ''_type'' (fst entry) of
        None \<Rightarrow> None
      | Some stem \<Rightarrow>
          if \<not> starts_with ''trip_point_'' stem then None
          else if map_option trim (dir_read d (fst entry)) \<noteq> Some ''active'' then None
          else Option.bind (dir_read d (stem @ ''_temp'')) (\<lambda>t. parse_i64 (trim t)))"

fun keep_hottest :: "int option \<Rightarrow> int list \<Rightarrow> int option" where
  "keep_hottest hottest [] = hottest"
| "keep_hottest hottest (temp # temps) =
     keep_hottest (Some (case hottest of None \<Rightarrow> temp | Some h \<Rightarrow> max h temp)) temps"

definition hottest_active_trip :: "thermal \<Rightarrow> string \<Rightarrow> int option" where
  "hottest_active_trip t zone =
     (case map_of (th_dirs t) zone of
        None \<Rightarrow> None
      | Some d \<Rightarrow> keep_hottest None (filter_map (active_trip d) d))"

definition zone_temp :: "thermal \<Rightarrow> string \<Rightarrow> int option" where
  "zone_temp t zone = Option.bind (th_read t zone ''temp'') (\<lambda>s. parse_i64 (trim s))"

definition too_hot :: "thermal \<Rightarrow> string \<Rightarrow> bool" where
  "too_hot t zone =
     (case hottest_active_trip t zone of
        None \<Rightarrow> False
      | Some ceiling \<Rightarrow>
          (case zone_temp t zone of None \<Rightarrow> False | Some temperature \<Rightarrow> ceiling < temperature))"

fun enforce_devices :: "cooling_device list \<Rightarrow> thermal \<Rightarrow> thermal" where
  "enforce_devices [] t = t"
| "enforce_devices (d # ds) t =
     enforce_devices ds
       (case cl_zone d of
          Some zone \<Rightarrow> if cl_overridden d \<and> too_hot t zone then snd (set_governor zone True t) else t
        | None \<Rightarrow> t)"

definition enforce_override_ceiling :: "thermal \<Rightarrow> thermal" where
  "enforce_override_ceiling t = enforce_devices (get_cooling_state t) t"

section \<open>Facts\<close>

lemma map_of_dir_write: "map_of (dir_write n v d) k = (if k = n \<and> map_of d n \<noteq> None then Some (Text v) else map_of d k)"
  by (induction d) auto

lemma map_of_dirs_write:
  "map_of (dirs_write dir n v ds) k = (if k = dir then map_option (dir_write n v) (map_of ds k) else map_of ds k)"
  by (induction ds) auto

lemma th_write_read:
  assumes "th_write dir n v t = (True, t')"
  shows "th_read t' dir n = Some v" and "(d, f) \<noteq> (dir, n) \<Longrightarrow> th_read t' d f = th_read t d f"
  using assms
  by (auto simp: th_write_def th_read_def dir_read_def map_of_dirs_write map_of_dir_write
      split: if_splits option.splits Option.bind_splits)

lemma th_write_False: "th_write dir n v t = (False, t') \<Longrightarrow> t' = t"
  by (auto simp: th_write_def split: if_splits)

lemma th_write_accepts:
  "th_read t dir n \<noteq> None \<Longrightarrow> (dir, n) \<notin> set (th_refused t) \<Longrightarrow> fst (th_write dir n v t)"
  by (auto simp: th_write_def th_read_def dir_read_def split: option.splits sys_node.splits Option.bind_splits)

text \<open>What does not look at the governors: everything that is the same on two classes that differ
  only in their \<^verbatim>\<open>mode\<close> files.\<close>

definition erase_dir :: "sys_dir \<Rightarrow> sys_dir" where
  "erase_dir d = map (\<lambda>(f, x). (f, if f = ''mode'' then Text [] else x)) d"

definition erase_modes :: "thermal \<Rightarrow> thermal" where
  "erase_modes t = t\<lparr>th_dirs := map (\<lambda>(n, d). (n, erase_dir d)) (th_dirs t)\<rparr>"

lemma erase_dir_write [simp]: "erase_dir (dir_write ''mode'' v d) = erase_dir d"
  by (induction d) (auto simp: erase_dir_def)

lemma erase_dirs_write:
  "map (\<lambda>(n, d). (n, erase_dir d)) (dirs_write z ''mode'' v ds) = map (\<lambda>(n, d). (n, erase_dir d)) ds"
  by (induction ds) auto

lemma erase_th_write [simp]: "erase_modes (snd (th_write z ''mode'' v t)) = erase_modes t"
  by (simp add: th_write_def erase_modes_def erase_dirs_write)

lemma snd_set_governor:
  "snd (set_governor z b t) = snd (th_write z ''mode'' (if b then ''enabled'' else ''disabled'') t)"
  unfolding set_governor_def by (simp add: split_beta split: prod.split bool.split)

lemma erase_set_governor [simp]: "erase_modes (snd (set_governor z b t)) = erase_modes t"
  by (simp only: snd_set_governor erase_th_write)

lemma map_of_erase_dir: "f \<noteq> ''mode'' \<Longrightarrow> map_of (erase_dir d) f = map_of d f"
  by (induction d) (auto simp: erase_dir_def)

lemma dir_read_erase: "f \<noteq> ''mode'' \<Longrightarrow> dir_read (erase_dir d) f = dir_read d f"
  by (simp add: dir_read_def map_of_erase_dir)

lemma map_of_erase: "map_of (th_dirs (erase_modes t)) z = map_option erase_dir (map_of (th_dirs t) z)"
  by (simp add: erase_modes_def map_of_map)

lemma th_read_erase: "f \<noteq> ''mode'' \<Longrightarrow> th_read (erase_modes t) z f = th_read t z f"
  by (cases "map_of (th_dirs t) z") (simp_all add: th_read_def map_of_erase dir_read_erase)

lemma filter_map_erase:
  "(\<And>f x. g (f, x) = h (f, if f = ''mode'' then Text [] else x)) \<Longrightarrow> filter_map g d = filter_map h (erase_dir d)"
  by (induction d) (auto simp: erase_dir_def split: option.splits)

lemma zone_links_erase: "zone_links (n, erase_dir d) = zone_links (n, d)"
  by (auto simp: zone_links_def is_binding_def starts_with_def intro!: filter_map_erase [symmetric])

lemma zone_bindings_erase: "zone_bindings (erase_modes t) = zone_bindings t"
  by (simp add: zone_bindings_def th_listing_def erase_modes_def zone_links_erase comp_def split_beta)

lemma keep_hottest_ge: "keep_hottest (Some h) ts = Some r \<Longrightarrow> h \<le> r \<and> (\<forall>x \<in> set ts. x \<le> r)"
  by (induction ts arbitrary: h) (auto, fastforce+)

lemma active_trip_erase:
  "active_trip d (f, x) = active_trip (erase_dir d) (f, if f = ''mode'' then Text [] else x)"
proof -
  have "strip_suffix ''_type'' f = Some st \<Longrightarrow> f \<noteq> ''mode''" for st
    by (auto simp: strip_suffix_def ends_with_def starts_with_def)
  moreover have "st @ ''_temp'' \<noteq> ''mode''" for st
  proof -
    have "length (st @ ''_temp'') \<noteq> length ''mode''" by simp
    then show ?thesis by metis
  qed
  ultimately show ?thesis
    by (auto simp: active_trip_def dir_read_erase split: option.split)
qed

lemma zone_temp_erase: "zone_temp (erase_modes t) z = zone_temp t z"
  by (simp add: zone_temp_def th_read_erase)

lemma too_hot_erase: "too_hot (erase_modes t) z = too_hot t z"
  by (cases "map_of (th_dirs t) z")
    (simp_all add: too_hot_def hottest_active_trip_def map_of_erase zone_temp_erase
      filter_map_erase [of "active_trip _" "active_trip (erase_dir _)", OF active_trip_erase, symmetric] split: option.split)

text \<open>Two classes with the same erasure.\<close>

lemma same_erasure:
  assumes "erase_modes t' = erase_modes t"
  shows "zone_bindings t' = zone_bindings t" "too_hot t' z = too_hot t z"
    "map fst (th_listing t') = map fst (th_listing t)" "th_refused t' = th_refused t"
proof -
  show "zone_bindings t' = zone_bindings t" "too_hot t' z = too_hot t z"
    by (metis assms zone_bindings_erase, metis assms too_hot_erase)
  have "th_listable t' = th_listable t" "th_refused t' = th_refused t"
    using assms by (auto simp: erase_modes_def dest: arg_cong [of _ _ th_listable] arg_cong [of _ _ th_refused])
  moreover have "map fst (th_dirs t') = map fst (th_dirs t)"
    using arg_cong [OF assms, of "\<lambda>t. map fst (th_dirs t)"] by (simp add: erase_modes_def comp_def split_beta)
  ultimately show "map fst (th_listing t') = map fst (th_listing t)" "th_refused t' = th_refused t"
    by (simp_all add: th_listing_def)
qed

text \<open>The governors that are paused: by zone name.\<close>

definition paused :: "thermal \<Rightarrow> string \<Rightarrow> bool" where
  "paused t z = (governor_enabled t z = Some False)"

lemma trim_modes: "trim ''enabled'' = ''enabled''" "trim ''disabled'' = ''disabled''"
  by code_simp+

lemma governor_set:
  assumes "set_governor z b t = (Inr (), t')"
  shows "governor_enabled t' z = Some b" and "y \<noteq> z \<Longrightarrow> governor_enabled t' y = governor_enabled t y"
    and "f \<noteq> ''mode'' \<Longrightarrow> th_read t' d f = th_read t d f"
proof -
  have w: "th_write z ''mode'' (if b then ''enabled'' else ''disabled'') t = (True, t')"
    using assms by (auto simp: set_governor_def split: prod.splits bool.splits)
  show "governor_enabled t' z = Some b"
    using th_write_read(1) [OF w] by (simp add: governor_enabled_def trim_modes)
  show "y \<noteq> z \<Longrightarrow> governor_enabled t' y = governor_enabled t y"
    and "f \<noteq> ''mode'' \<Longrightarrow> th_read t' d f = th_read t d f"
    using th_write_read(2) [OF w] by (simp_all add: governor_enabled_def)
qed

lemma governor_refused: "set_governor z b t = (Inl e, t') \<Longrightarrow> t' = t \<and> e = CoolingIo"
  by (auto simp: set_governor_def dest: th_write_False split: prod.splits bool.splits)

lemma governor_accepts:
  "governor_enabled t z \<noteq> None \<Longrightarrow> (z, ''mode'') \<notin> set (th_refused t) \<Longrightarrow> \<exists>t'. set_governor z b t = (Inr (), t')"
  using th_write_accepts [of t z "''mode''"]
  by (auto simp: set_governor_def governor_enabled_def split: prod.splits bool.splits option.splits) (metis fst_conv)+

lemma paused_resume: "paused (snd (set_governor z True t)) y \<Longrightarrow> paused t y"
proof (cases "set_governor z True t")
  case (Pair r t')
  assume p: "paused (snd (set_governor z True t)) y"
  show ?thesis
  proof (cases r)
    case (Inl e)
    then show ?thesis using governor_refused Pair p by (metis snd_conv)
  next
    case (Inr u)
    then show ?thesis using governor_set [of z True t t'] Pair p by (cases "y = z") (auto simp: paused_def)
  qed
qed

lemma resume_paused_zone:
  assumes "(z, ''mode'') \<notin> set (th_refused t)"
  shows "\<not> paused (snd (set_governor z True t)) z"
proof
  assume p: "paused (snd (set_governor z True t)) z"
  then have "paused t z" by (rule paused_resume)
  then obtain t' where "set_governor z True t = (Inr (), t')"
    using governor_accepts [OF _ assms] by (auto simp: paused_def)
  then show False using governor_set(1) p by (fastforce simp: paused_def)
qed

text \<open>Both sweeps over the devices, as one: hand back the governor of every held device whose zone
  meets a condition that does not depend on the governors.\<close>

fun sweep :: "(thermal \<Rightarrow> string \<Rightarrow> bool) \<Rightarrow> cooling_device list \<Rightarrow> thermal \<Rightarrow> thermal" where
  "sweep P [] t = t"
| "sweep P (d # ds) t =
     sweep P ds
       (case cl_zone d of
          Some zone \<Rightarrow> if cl_overridden d \<and> P t zone then snd (set_governor zone True t) else t
        | None \<Rightarrow> t)"

lemma resume_sweep: "resume_devices ds t = sweep (\<lambda>_ _. True) ds t"
  by (induction ds arbitrary: t) (simp_all split: option.split)

lemma enforce_sweep: "enforce_devices ds t = sweep too_hot ds t"
  by (induction ds arbitrary: t) simp_all

lemma sweep_erase: "erase_modes (sweep P ds t) = erase_modes t"
  by (induction ds arbitrary: t) (simp_all split: option.split)

lemma sweep_paused: "paused (sweep P ds t) z \<Longrightarrow> paused t z"
  by (induction ds arbitrary: t) (auto dest!: paused_resume split: option.splits if_splits)

lemma sweep_hands_back:
  assumes "\<And>t t' z. erase_modes t' = erase_modes t \<Longrightarrow> P t' z = P t z"
    and "d \<in> set ds" and "cl_zone d = Some z" and "cl_overridden d" and "P t z"
    and "(z, ''mode'') \<notin> set (th_refused t)"
  shows "\<not> paused (sweep P ds t) z"
  using assms(2,5,6)
proof (induction ds arbitrary: t)
  case (Cons e ds)
  let ?t = "case cl_zone e of
      Some zone \<Rightarrow> if cl_overridden e \<and> P t zone then snd (set_governor zone True t) else t
    | None \<Rightarrow> t"
  have er: "erase_modes ?t = erase_modes t" by (simp split: option.split)
  show ?case
  proof (cases "d = e")
    case True
    then have "?t = snd (set_governor z True t)" using assms(3,4) Cons.prems by simp
    then have "\<not> paused ?t z" using resume_paused_zone [OF Cons.prems(3)] by simp
    then show ?thesis using sweep_paused [of P ds ?t z] by auto
  next
    case False
    then have "d \<in> set ds" using Cons.prems(1) by simp
    moreover have "P ?t z" using assms(1) [OF er] Cons.prems(2) by simp
    moreover have "(z, ''mode'') \<notin> set (th_refused ?t)" using same_erasure(4) [OF er] Cons.prems(3) by simp
    ultimately show ?thesis using Cons.IH [of ?t] by simp
  qed
qed simp

text \<open>The devices of a class, by directory.\<close>

lemma cooling_entry_zone:
  "cooling_entry t (n, d) = Some c \<Longrightarrow> cl_zone c = map_of (zone_bindings t) n
     \<and> (cl_overridden c \<longleftrightarrow> (\<exists>z. cl_zone c = Some z \<and> paused t z))"
  by (auto simp: cooling_entry_def Let_def paused_def split: if_splits option.splits)

lemma held_device:
  assumes "c \<in> set (get_cooling_state t')" and "cl_zone c = Some z" and "erase_modes t' = erase_modes t"
    and "paused t z"
  shows "\<exists>c0 \<in> set (get_cooling_state t). cl_zone c0 = Some z \<and> cl_overridden c0"
proof -
  note same = same_erasure [OF assms(3)]
  obtain n d where nd: "(n, d) \<in> set (th_listing t')" and c: "cooling_entry t' (n, d) = Some c"
    using assms(1) by (auto simp: get_cooling_state_def set_filter_map)
  have "n \<in> set (map fst (th_listing t'))" using nd by force
  then obtain d0 where nd0: "(n, d0) \<in> set (th_listing t)" unfolding same(3) by auto
  obtain c0 where c0: "cooling_entry t (n, d0) = Some c0"
    using c by (auto simp: cooling_entry_def Let_def split: if_splits)
  have "cl_zone c0 = Some z"
    using cooling_entry_zone [OF c0] cooling_entry_zone [OF c] assms(2) same(1) by simp
  moreover have "c0 \<in> set (get_cooling_state t)"
    using nd0 c0 unfolding get_cooling_state_def set_filter_map by blast
  ultimately show ?thesis using cooling_entry_zone [OF c0] assms(4) by auto
qed

lemma sweep_clears:
  assumes "\<And>t t' z. erase_modes t' = erase_modes t \<Longrightarrow> P t' z = P t z"
    and "t' = sweep P (get_cooling_state t) t"
    and "c \<in> set (get_cooling_state t')" and "cl_zone c = Some z" and "cl_overridden c"
    and "(z, ''mode'') \<notin> set (th_refused t)"
  shows "\<not> P t' z"
proof
  assume hot: "P t' z"
  have er: "erase_modes t' = erase_modes t" unfolding assms(2) by (rule sweep_erase)
  obtain n d where "cooling_entry t' (n, d) = Some c"
    using assms(3) by (auto simp: get_cooling_state_def set_filter_map)
  then have held: "paused t' z" using cooling_entry_zone assms(4,5) by fastforce
  then have "paused t z" using sweep_paused unfolding assms(2) by blast
  from held_device [OF assms(3,4) er this] obtain c0 where
    "c0 \<in> set (get_cooling_state t)" "cl_zone c0 = Some z" "cl_overridden c0" by blast
  from sweep_hands_back [of P c0 _ z t, OF assms(1) this] hot assms(1) [OF er] assms(6) held
  show False unfolding assms(2) by simp
qed

section \<open>Properties\<close>

text \<open>A zone is overheated when its temperature can be read and is above every active trip it declares,
  of which there is at least one. A trip is a pair of files, one with its kind and one with its
  temperature.\<close>

definition active_trips :: "thermal \<Rightarrow> string \<Rightarrow> int set" where
  "active_trips t zone =
     {v. \<exists>stem kind s. starts_with ''trip_point_'' stem
        \<and> th_read t zone (stem @ ''_type'') = Some kind \<and> trim kind = ''active''
        \<and> th_read t zone (stem @ ''_temp'') = Some s \<and> parse_i64 (trim s) = Some v}"

definition overheated :: "thermal \<Rightarrow> string \<Rightarrow> bool" where
  "overheated t zone =
     (\<exists>s temperature. th_read t zone ''temp'' = Some s \<and> parse_i64 (trim s) = Some temperature
        \<and> active_trips t zone \<noteq> {} \<and> (\<forall>v \<in> active_trips t zone. v < temperature))"

lemma keep_hottest_from: "\<exists>r. keep_hottest (Some h) ts = Some r \<and> r \<in> insert h (set ts) \<and> (\<forall>x \<in> insert h (set ts). x \<le> r)"
proof (induction ts arbitrary: h)
  case (Cons x ts)
  from Cons.IH [of "max h x"] show ?case by (auto simp: max_def split: if_splits)
qed simp

lemma keep_hottest_above:
  "(case keep_hottest None ts of None \<Rightarrow> False | Some ceiling \<Rightarrow> ceiling < x) \<longleftrightarrow> ts \<noteq> [] \<and> (\<forall>v \<in> set ts. v < x)"
proof (cases ts)
  case (Cons h hs)
  from keep_hottest_from [of h hs] show ?thesis by (auto simp: Cons intro: le_less_trans)
qed simp

lemma strip_suffix_iff: "strip_suffix suf s = Some stem \<longleftrightarrow> s = stem @ suf"
  by (auto simp: strip_suffix_def ends_with_iff)

lemma set_active_trips:
  assumes "map_of (th_dirs t) zone = Some d"
  shows "set (filter_map (active_trip d) d) = active_trips t zone"
proof -
  have r: "th_read t zone f = dir_read d f" for f by (simp add: th_read_def assms)
  have m: "dir_read d f = Some k \<Longrightarrow> \<exists>node. (f, node) \<in> set d" for f k
    by (auto simp: dir_read_def dest: map_of_SomeD split: option.splits)
  have i: "active_trip d (f, node) = Some v \<longleftrightarrow> (\<exists>stem kind s. f = stem @ ''_type'' \<and> starts_with ''trip_point_'' stem
      \<and> dir_read d f = Some kind \<and> trim kind = ''active''
      \<and> dir_read d (stem @ ''_temp'') = Some s \<and> parse_i64 (trim s) = Some v)" for f node v
  proof (cases "strip_suffix ''_type'' f")
    case None
    then have "f \<noteq> stem @ ''_type''" for stem by (metis option.distinct(1) strip_suffix_iff)
    then show ?thesis by (simp add: active_trip_def None)
  next
    case (Some stem)
    then have "f = stem @ ''_type''" by (simp add: strip_suffix_iff)
    then show ?thesis using Some by (auto simp: active_trip_def bind_eq_Some_conv)
  qed
  have "v \<in> active_trips t zone" if "active_trip d (f, node) = Some v" for v f node
    using that unfolding i active_trips_def r by blast
  moreover have "\<exists>e \<in> set d. active_trip d e = Some v" if "v \<in> active_trips t zone" for v
  proof -
    from that obtain stem kind s where k: "starts_with ''trip_point_'' stem" "dir_read d (stem @ ''_type'') = Some kind"
      "trim kind = ''active''" "dir_read d (stem @ ''_temp'') = Some s" "parse_i64 (trim s) = Some v"
      unfolding active_trips_def r by blast
    obtain node where "(stem @ ''_type'', node) \<in> set d" using m [OF k(2)] by blast
    moreover have "active_trip d (stem @ ''_type'', node) = Some v" unfolding i using k by blast
    ultimately show ?thesis by blast
  qed
  ultimately show ?thesis by (auto simp: set_filter_map)
qed

lemma too_hot_iff: "too_hot t zone \<longleftrightarrow> overheated t zone"
proof (cases "map_of (th_dirs t) zone")
  case None
  then show ?thesis by (simp add: too_hot_def overheated_def hottest_active_trip_def th_read_def)
next
  case (Some d)
  have e: "filter_map (active_trip d) d \<noteq> [] \<longleftrightarrow> active_trips t zone \<noteq> {}"
    unfolding set_active_trips [OF Some, symmetric] by simp
  have "too_hot t zone \<longleftrightarrow> (\<exists>x. zone_temp t zone = Some x
      \<and> (case keep_hottest None (filter_map (active_trip d) d) of None \<Rightarrow> False | Some ceiling \<Rightarrow> ceiling < x))"
    by (auto simp: too_hot_def hottest_active_trip_def Some split: option.splits)
  then show ?thesis
    unfolding keep_hottest_above set_active_trips [OF Some] e
    by (auto simp: overheated_def zone_temp_def bind_eq_Some_conv)
qed

lemma too_hot_is_overheated: "too_hot = overheated"
  by (simp add: fun_eq_iff too_hot_iff)

lemma overheated_erasure: "erase_modes t' = erase_modes t \<Longrightarrow> overheated t' z = overheated t z"
  using same_erasure(2) [of t' t z] by (simp add: too_hot_iff)

lemma sweep_leaves:
  assumes "\<And>t t' z. erase_modes t' = erase_modes t \<Longrightarrow> P t' z = P t z" and "\<not> P t y" and "paused t y"
  shows "paused (sweep P ds t) y"
  using assms(2,3)
proof (induction ds arbitrary: t)
  case (Cons d ds)
  let ?t = "case cl_zone d of
      Some zone \<Rightarrow> if cl_overridden d \<and> P t zone then snd (set_governor zone True t) else t
    | None \<Rightarrow> t"
  have "erase_modes ?t = erase_modes t" by (simp split: option.split)
  then have "\<not> P ?t y" using assms(1) Cons.prems(1) by blast
  moreover have "paused (snd (set_governor zone True t)) y" if "P t zone" for zone
  proof (cases "set_governor zone True t")
    case (Pair r t1)
    have "zone \<noteq> y" using that Cons.prems(1) by blast
    then show ?thesis using Pair Cons.prems(2) governor_set(2) governor_refused by (cases r) (fastforce simp: paused_def)+
  qed
  then have "paused ?t y" using Cons.prems by (auto split: option.split)
  ultimately show ?case using Cons.IH by simp
qed simp

text \<open>C31: the ceiling holds. After a sweep no fan is still held in a zone whose temperature is above
  every active trip the zone declares, whatever was held before, unless the kernel refuses to
  take the governor back; and the sweep takes nobody's hold away in a zone that is not that
  hot.\<close>

theorem ceiling_enforced:
  assumes "t' = enforce_override_ceiling t"
  shows "(\<forall>c z. c \<in> set (get_cooling_state t') \<and> cl_zone c = Some z \<and> cl_overridden c
        \<and> (z, ''mode'') \<notin> set (th_refused t) \<longrightarrow> \<not> overheated t' z)
    \<and> (\<forall>z. paused t z \<and> \<not> overheated t z \<longrightarrow> paused t' z)"
proof -
  have s: "t' = sweep overheated (get_cooling_state t) t"
    using too_hot_is_overheated by (simp add: assms enforce_override_ceiling_def enforce_sweep)
  show ?thesis
    using sweep_clears [of overheated, OF overheated_erasure s] sweep_leaves [of overheated, OF overheated_erasure]
    unfolding s by blast
qed

text \<open>after the sweep at start-up no fan is held at all, unless the kernel refuses.\<close>

theorem nothing_left_held:
  assumes "t' = resume_all_governors t" and "c \<in> set (get_cooling_state t')"
    and "cl_zone c = Some z" and "(z, ''mode'') \<notin> set (th_refused t)"
  shows "\<not> cl_overridden c"
  using sweep_clears [of "\<lambda>_ _. True" t' t c z] assms
  by (auto simp: resume_all_governors_def resume_sweep)

text \<open>A board with one fan bound to one zone, held at a low step, with its hottest active trip at
  75 degrees.\<close>

definition fan_board :: "string \<Rightarrow> thermal" where
  "fan_board temp = \<lparr>th_listable = True,
     th_dirs = [(''cooling_device0'', [(''type'', Text ''pwm-fan''), (''cur_state'', Text ''1''), (''max_state'', Text ''9'')]),
                (''thermal_zone0'', [(''mode'', Text ''disabled''), (''temp'', Text temp),
                   (''trip_point_0_type'', Text ''active''), (''trip_point_0_temp'', Text ''75000''),
                   (''cdev0'', Link ''cooling_device0'')])],
     th_pwm_fans = Some [''system-fan''], th_refused = []\<rparr>"

lemma fan_board_evals:
  "trim ''pwm-fan'' = ''pwm-fan''" "trim ''1'' = ''1''" "trim ''9'' = ''9''" "trim ''active'' = ''active''"
  "trim ''75000'' = ''75000''" "trim ''60000'' = ''60000''" "trim ''80000'' = ''80000''"
  "strip_suffix ''_type'' ''mode'' = None" "strip_suffix ''_type'' ''temp'' = None"
  "strip_suffix ''_type'' ''trip_point_0_temp'' = None" "strip_suffix ''_type'' ''cdev0'' = None"
  "strip_suffix ''_type'' ''trip_point_0_type'' = Some ''trip_point_0''"
  "replace_char (CHR ''-'') '' '' ''system-fan'' = ''system fan''"
  "parse_u32 ''1'' = Some 1" "parse_u32 ''9'' = Some 9"
  "parse_i64 ''75000'' = Some 75000" "parse_i64 ''60000'' = Some 60000" "parse_i64 ''80000'' = Some 80000"
  by (code_simp, code_simp, code_simp, code_simp, code_simp, code_simp, code_simp, code_simp, code_simp,
      code_simp, code_simp, code_simp, code_simp)
    (simp_all add: parse_u32_def parse_i64_def parse_sint_def parse_uint_def dec_value_def is_ascii_digit_def)

lemma fan_board_state:
  "get_cooling_state (fan_board temp) = [\<lparr>cl_device = ''system fan'', cl_speed = 1, cl_max_speed = 9,
     cl_zone = Some ''thermal_zone0'', cl_overridden = True\<rparr>]"
  by (simp add: get_cooling_state_def fan_board_def th_listing_def cooling_entry_def starts_with_def Let_def
      zone_bindings_def zone_links_def is_binding_def governor_enabled_def th_read_def dir_read_def trim_modes
      device_name_def is_system_fan_def read_ulong_def fan_board_evals)

lemma fan_board_hot: "too_hot (fan_board ''60000'') z \<Longrightarrow> False" "too_hot (fan_board ''80000'') ''thermal_zone0''"
proof -
  have trip: "hottest_active_trip (fan_board temp) ''thermal_zone0'' = Some 75000" for temp
    by (simp add: hottest_active_trip_def fan_board_def active_trip_def dir_read_def starts_with_def fan_board_evals)
  show "too_hot (fan_board ''80000'') ''thermal_zone0''"
    by (simp add: too_hot_def trip) (simp add: zone_temp_def th_read_def dir_read_def fan_board_def fan_board_evals)
  have "z = ''thermal_zone0'' \<or> z = ''cooling_device0'' \<or> hottest_active_trip (fan_board ''60000'') z = None"
    by (auto simp: hottest_active_trip_def fan_board_def)
  moreover have "hottest_active_trip (fan_board ''60000'') ''cooling_device0'' = None"
    by (simp add: hottest_active_trip_def fan_board_def active_trip_def strip_suffix_def ends_with_def starts_with_def)
  moreover have "zone_temp (fan_board ''60000'') ''thermal_zone0'' = Some 60000"
    by (simp add: zone_temp_def th_read_def dir_read_def fan_board_def fan_board_evals)
  ultimately show "too_hot (fan_board ''60000'') z \<Longrightarrow> False"
    by (auto simp: too_hot_def trip split: option.splits)
qed

theorem ceiling_enforced_witness:
  "\<not> cl_overridden (hd (get_cooling_state (enforce_override_ceiling (fan_board ''80000''))))
   \<and> paused (enforce_override_ceiling (fan_board ''60000'')) ''thermal_zone0''"
proof -
  let ?t = "enforce_override_ceiling (fan_board ''80000'')"
  have t: "?t = (fan_board ''80000'')\<lparr>th_dirs := dirs_write ''thermal_zone0'' ''mode'' ''enabled'' (th_dirs (fan_board ''80000''))\<rparr>"
    using fan_board_hot(2) by (simp add: enforce_override_ceiling_def fan_board_state set_governor_def th_write_def)
      (simp add: fan_board_def)
  then obtain c where c: "get_cooling_state ?t = [c]" "cl_zone c = Some ''thermal_zone0''"
    by (simp add: get_cooling_state_def fan_board_def th_listing_def cooling_entry_def starts_with_def Let_def
      zone_bindings_def zone_links_def is_binding_def)
  have "erase_modes ?t = erase_modes (fan_board ''80000'')"
    unfolding enforce_override_ceiling_def enforce_sweep by (rule sweep_erase)
  from overheated_erasure [OF this] have "overheated ?t ''thermal_zone0''"
    using fan_board_hot(2) unfolding too_hot_is_overheated by blast
  moreover have "th_refused (fan_board ''80000'') = []" by (simp add: fan_board_def)
  ultimately have "\<not> cl_overridden c" using ceiling_enforced [OF refl, of "fan_board ''80000''"] c by auto
  moreover have "paused (fan_board ''60000'') ''thermal_zone0''"
    by (simp add: paused_def governor_enabled_def th_read_def dir_read_def fan_board_def trim_modes)
  then have "paused (enforce_override_ceiling (fan_board ''60000'')) ''thermal_zone0''"
    using ceiling_enforced [OF refl, of "fan_board ''60000''"] fan_board_hot(1) by (auto simp: too_hot_is_overheated)
  ultimately show ?thesis using c(1) by simp
qed

theorem nothing_left_held_witness:
  "\<exists>c. get_cooling_state (resume_all_governors (fan_board ''80000'')) = [c] \<and> \<not> cl_overridden c"
proof -
  let ?t = "resume_all_governors (fan_board ''80000'')"
  have "?t = (fan_board ''80000'')\<lparr>th_dirs := dirs_write ''thermal_zone0'' ''mode'' ''enabled'' (th_dirs (fan_board ''80000''))\<rparr>"
    unfolding resume_all_governors_def fan_board_state
    by (simp add: set_governor_def th_write_def fan_board_def)
  then obtain c where c: "get_cooling_state ?t = [c]" "cl_zone c = Some ''thermal_zone0''"
    by (simp add: get_cooling_state_def fan_board_def th_listing_def cooling_entry_def starts_with_def Let_def
      zone_bindings_def zone_links_def is_binding_def)
  have "\<not> cl_overridden c"
    by (rule nothing_left_held [OF refl _ c(2), of "fan_board ''80000''"]) (simp_all add: c(1), simp add: fan_board_def)
  then show ?thesis using c by blast
qed

lemma set_cooling_state_cases:
  assumes "set_cooling_state device step t = (r, t')"
  shows "(r = Inr () \<and> th_read t' (if device = ''system fan'' then ''cooling_device0'' else device) ''cur_state''
            = Some (show_nat step) \<and> (\<forall>z. governor_enabled t' z = governor_enabled t z))
    \<or> (\<exists>e. r = Inl e \<and> t' = t)"
proof (cases r)
  case (Inl e)
  then show ?thesis using assms
    by (auto simp: set_cooling_state_def Let_def dest: th_write_False split: option.splits if_splits prod.splits bool.splits)
next
  case (Inr u)
  then have "th_write (if device = ''system fan'' then ''cooling_device0'' else device) ''cur_state'' (show_nat step) t
      = (True, t')"
    using assms by (auto simp: set_cooling_state_def Let_def split: option.splits if_splits prod.splits bool.splits)
  note w = th_write_read [OF this]
  have "governor_enabled t' z = governor_enabled t z" for z
    using w(2) [of z "''mode''"] by (simp add: governor_enabled_def)
  then show ?thesis using w(1) Inr by auto
qed



end
