(* ===== verification/Usb_Gadget.thy ===== *)
theory Usb_Gadget
  imports Rust_Std
begin

text \<open>
  \<^verbatim>\<open>bmcd/src/app/usb_gadget.rs\<close>: the mass-storage function of the board's own USB gadget. The
  configfs tree is a record of what is there; an access named in \<open>gd_faults\<close> fails. The script
  that starts and stops the gadget is a parameter: it returns whether it succeeded and the
  tree it left.
\<close>

datatype gadget_cmd = GadgetStart | GadgetStop

datatype gadget_op = RemoveLink | MakeFunction | OpenLun | MakeLink

datatype gadget_error = UdcUnreadable | ServiceFailed gadget_cmd | NoGadget | GadgetIo gadget_op

record gadget =
  gd_present :: bool
  gd_udc :: "string option"
  gd_linked :: bool
  gd_function :: bool
  gd_lun :: "string option"
  gd_faults :: "gadget_op list"

type_synonym gadget_service = "gadget_cmd \<Rightarrow> gadget \<Rightarrow> bool \<times> gadget"

definition usb_gadget_service :: "gadget_service \<Rightarrow> gadget_cmd \<Rightarrow> gadget \<Rightarrow> (gadget_error, unit) result \<times> gadget" where
  "usb_gadget_service script command g =
     (case script command g of
        (True, g) \<Rightarrow> (Inr (), g)
      | (False, g) \<Rightarrow> (Inl (ServiceFailed command), g))"

definition gadget_do :: "gadget_op \<Rightarrow> (gadget \<Rightarrow> gadget) \<Rightarrow> gadget \<Rightarrow> (gadget_error, unit) result \<times> gadget" where
  "gadget_do op f g = (if op \<in> set (gd_faults g) then (Inl (GadgetIo op), g) else (Inr (), f g))"

definition is_gadget_running :: "gadget \<Rightarrow> (gadget_error, bool) result" where
  "is_gadget_running g = (case gd_udc g of None \<Rightarrow> Inl UdcUnreadable | Some s \<Rightarrow> Inr (trim s \<noteq> []))"

definition remove_msd_function_from_usb_gadget ::
  "gadget_service \<Rightarrow> gadget \<Rightarrow> (gadget_error, unit) result \<times> gadget" where
  "remove_msd_function_from_usb_gadget script g =
     (if gd_linked g
      then and_then (usb_gadget_service script GadgetStop g) (\<lambda>_ g.
           and_then (gadget_do RemoveLink (\<lambda>g. g\<lparr>gd_linked := False\<rparr>) g) (\<lambda>_ g.
           usb_gadget_service script GadgetStart g))
      else (Inr (), g))"

text \<open>A symbolic link is not made over one that is there.\<close>

definition make_link :: "gadget \<Rightarrow> (gadget_error, unit) result \<times> gadget" where
  "make_link g =
     (if gd_linked g then (Inl (GadgetIo MakeLink), g)
      else gadget_do MakeLink (\<lambda>g. g\<lparr>gd_linked := True\<rparr>) g)"

definition append_msd_config_to_usb_gadget ::
  "gadget_service \<Rightarrow> string \<Rightarrow> gadget \<Rightarrow> (gadget_error, unit) result \<times> gadget" where
  "append_msd_config_to_usb_gadget script block_device g =
     (case is_gadget_running g of
        Inl e \<Rightarrow> (Inl e, g)
      | Inr running \<Rightarrow>
          and_then
            (if running
             then and_then (remove_msd_function_from_usb_gadget script g)
                    (\<lambda>_ g. usb_gadget_service script GadgetStop g)
             else (Inr (), g))
            (\<lambda>_ g.
               if \<not> gd_present g then (Inl NoGadget, g)
               else
                 and_then (gadget_do MakeFunction (\<lambda>g. g\<lparr>gd_function := True\<rparr>) g) (\<lambda>_ g.
                 and_then (gadget_do OpenLun (\<lambda>g. g\<lparr>gd_lun := Some block_device\<rparr>) g) (\<lambda>_ g.
                 and_then (make_link g) (\<lambda>_ g.
                 usb_gadget_service script GadgetStart g)))))"

text \<open>What the script leaves alone.\<close>

definition script_keeps_tree :: "gadget_service \<Rightarrow> bool" where
  "script_keeps_tree script =
     (\<forall>c g. gd_linked (snd (script c g)) = gd_linked g \<and> gd_lun (snd (script c g)) = gd_lun g
        \<and> gd_faults (snd (script c g)) = gd_faults g)"

lemma service_keeps:
  "script_keeps_tree script \<Longrightarrow> usb_gadget_service script c g = (r, g') \<Longrightarrow>
     gd_linked g' = gd_linked g \<and> gd_lun g' = gd_lun g"
  by (auto simp: usb_gadget_service_def script_keeps_tree_def split: prod.splits bool.splits)
    (metis snd_conv)+

text \<open>Removing the function leaves it unlinked, and appending it exposes exactly the device asked
  for, whatever was exposed before.\<close>

lemma remove_msd_ok:
  assumes "script_keeps_tree script" and "remove_msd_function_from_usb_gadget script g = (Inr (), g')"
  shows "\<not> gd_linked g'"
  using assms(2) service_keeps [OF assms(1)]
  by (fastforce simp: remove_msd_function_from_usb_gadget_def and_then_ok gadget_do_def split: if_splits)

lemma append_msd_ok:
  assumes "script_keeps_tree script" and "append_msd_config_to_usb_gadget script dev g = (Inr (), g')"
  shows "gd_linked g' \<and> gd_lun g' = Some dev"
proof -
  obtain g1 g2 where "make_link g1 = (Inr (), g2)" "gd_lun g1 = Some dev"
    and s: "usb_gadget_service script GadgetStart g2 = (Inr (), g')"
    using assms(2)
    by (auto simp: append_msd_config_to_usb_gadget_def and_then_ok gadget_do_def split: sum.splits if_splits)
  then show ?thesis
    using service_keeps [OF assms(1) s] by (auto simp: make_link_def gadget_do_def split: if_splits)
qed

end
