(* ===== verification/Bmc_Application.thy ===== *)
theory Bmc_Application
  imports Hal Cooling_Device Usb_Gadget "HOL-Library.AList"
begin

text \<open>
  \<^verbatim>\<open>bmcd/src/app/bmc_application.rs\<close>: the nodes' power, their USB and what is remembered of
  them. The state is the hardware, the registered keys of the persistency store as typed
  fields, the USB gadget and the thermal class. \<open>get_timestamp_unix\<close> is an argument, one
  reading per node it is taken for; the hash of a device name is a parameter.
\<close>

section \<open>State\<close>

datatype usb_config =
    UsbA node_id
  | UsbBmc node_id
  | UsbNode node_id usb_route
  | Flashing node_id usb_route

definition usb_parts :: "usb_config \<Rightarrow> node_id \<times> usb_mode \<times> usb_route" where
  "usb_parts c =
     (case c of
        UsbA node \<Rightarrow> (node, Device, AlternativePort)
      | UsbBmc node \<Rightarrow> (node, Device, RouteBmc)
      | UsbNode node route \<Rightarrow> (node, Host, route)
      | Flashing node route \<Rightarrow> (node, Flash, route))"

record node_info =
  ni_name :: "string option"
  ni_module_name :: "string option"
  ni_power_on_time :: "nat option"
  ni_uart_baud :: "nat option"

definition node_info_default :: node_info where
  "node_info_default = \<lparr>ni_name = None, ni_module_name = None, ni_power_on_time = None, ni_uart_baud = None\<rparr>"

record app_db =
  db_activated :: u8
  db_usb_config :: usb_config
  db_node_infos :: "node_info list"
  db_node1_usb :: bool
  db_cooling :: "(u64 \<times> nat) list"

definition app_db_default :: app_db where
  "app_db_default = \<lparr>db_activated = 0, db_usb_config = UsbA Node1,
     db_node_infos = replicate 4 node_info_default, db_node1_usb = False, db_cooling = []\<rparr>"

record bmc =
  bm_hw :: hardware
  bm_db :: app_db
  bm_gadget :: gadget
  bm_thermal :: thermal

datatype app_error =
    MaskEmpty | HalError power_controller_error | CoolingFailed cooling_error | BeforeEpoch

type_synonym 'a app_result = "(app_error, 'a) result \<times> bmc"

definition on_hw :: "(hardware \<Rightarrow> 'a hw_result) \<Rightarrow> bmc \<Rightarrow> 'a app_result" where
  "on_hw f b = (case f (bm_hw b) of
      (Inl e, hw) \<Rightarrow> (Inl (HalError e), b\<lparr>bm_hw := hw\<rparr>)
    | (Inr a, hw) \<Rightarrow> (Inr a, b\<lparr>bm_hw := hw\<rparr>))"

section \<open>Power\<close>

datatype startup_power = Live u8 | Persisted u8

definition startup_power_state :: "u8 \<Rightarrow> u8 \<Rightarrow> startup_power" where
  "startup_power_state live persisted = (if live \<noteq> 0 then Live live else Persisted persisted)"

definition powered_nodes :: "u8 \<Rightarrow> nat list" where
  "powered_nodes node_states =
     filter_map (\<lambda>(idx, state). if state = 1 then Some (idx + 1) else None) (bit_iterator node_states 0b1111)"

definition power_transition :: "u8 \<Rightarrow> nat \<Rightarrow> u8 \<Rightarrow> bool option" where
  "power_transition activated_nodes idx new_state =
     (let current_state = drop_bit idx activated_nodes AND 1
      in if new_state \<noteq> current_state then Some (new_state = 1) else None)"

fun stamp_times :: "(nat \<Rightarrow> nat option) \<Rightarrow> u8 \<Rightarrow> (nat \<times> u8) list \<Rightarrow> node_info list \<Rightarrow> node_info list" where
  "stamp_times clock activated [] infos = infos"
| "stamp_times clock activated ((idx, new_state) # updates) infos =
     stamp_times clock activated updates
       (case power_transition activated idx new_state of
          Some True \<Rightarrow> infos[idx := (infos ! idx)\<lparr>ni_power_on_time := clock idx\<rparr>]
        | Some False \<Rightarrow> infos[idx := (infos ! idx)\<lparr>ni_power_on_time := None\<rparr>]
        | None \<Rightarrow> infos)"

definition update_power_on_times :: "(nat \<Rightarrow> nat option) \<Rightarrow> u8 \<Rightarrow> u8 \<Rightarrow> u8 \<Rightarrow> app_db \<Rightarrow> app_db" where
  "update_power_on_times clock activated_nodes node_states node_mask db =
     db\<lparr>db_node_infos := stamp_times clock activated_nodes (bit_iterator node_states node_mask) (db_node_infos db)\<rparr>"

definition activate_slot :: "(nat \<Rightarrow> nat option) \<Rightarrow> u8 \<Rightarrow> u8 \<Rightarrow> bmc \<Rightarrow> unit app_result" where
  "activate_slot clock node_states node_mask b =
     (if node_mask = 0 then (Inl MaskEmpty, b)
      else
        (let state = db_activated (bm_db b);
             new_state = (state AND NOT node_mask) OR (node_states AND node_mask);
             b = b\<lparr>bm_db := update_power_on_times clock state node_states node_mask (bm_db b)\<rparr>;
             b = b\<lparr>bm_db := (bm_db b)\<lparr>db_activated := new_state\<rparr>\<rparr>;
             b = snd (on_hw (power_led (new_state \<noteq> 0)) b)
         in on_hw (set_power_node node_states node_mask) b))"

definition toggle_power_states :: "(nat \<Rightarrow> nat option) \<Rightarrow> bool \<Rightarrow> bmc \<Rightarrow> unit app_result" where
  "toggle_power_states clock inverse_toggle b =
     (let node_values = db_activated (bm_db b);
          on = (node_values = 0);
          on = (if inverse_toggle \<and> node_values \<noteq> 0 \<and> node_values \<noteq> 0b1111 then \<not> on else on)
      in activate_slot clock (if on then 0b1111 else 0b0000) 0b1111 b)"

definition initialize_power :: "(nat \<Rightarrow> nat option) \<Rightarrow> bmc \<Rightarrow> unit app_result" where
  "initialize_power clock b =
     (let persisted = db_activated (bm_db b);
          live = (case get_power_node (bm_hw b) of Inl _ \<Rightarrow> 0 | Inr v \<Rightarrow> v);
          node_states = (case startup_power_state live persisted of Live s \<Rightarrow> s | Persisted s \<Rightarrow> s)
      in activate_slot clock node_states 0b1111 b)"

definition get_node_power :: "node_id \<Rightarrow> bmc \<Rightarrow> bool" where
  "get_node_power node b = (db_activated (bm_db b) AND to_bitfield node \<noteq> 0)"

definition app_reset_node :: "node_id \<Rightarrow> bmc \<Rightarrow> unit app_result" where
  "app_reset_node node = on_hw (reset_node node)"

section \<open>USB\<close>

definition app_set_node1_usb_route :: "bool \<Rightarrow> bmc \<Rightarrow> unit app_result" where
  "app_set_node1_usb_route alternative_port b =
     and_then (on_hw (set_node1_usb_route alternative_port) b) (\<lambda>_ b.
       (Inr (), b\<lparr>bm_db := (bm_db b)\<lparr>db_node1_usb := alternative_port\<rparr>\<rparr>))"

definition configure_usb_internal :: "gadget_service \<Rightarrow> usb_config \<Rightarrow> bmc \<Rightarrow> unit app_result" where
  "configure_usb_internal script config b =
     (let (dest, mode, route) = usb_parts config;
          b = (if mode \<noteq> Flash
               then b\<lparr>bm_gadget := snd (remove_msd_function_from_usb_gadget script (bm_gadget b))\<rparr> else b)
      in and_then (on_hw (set_usb_route route) b) (\<lambda>_ b. on_hw (select_usb dest mode) b))"

definition configure_usb :: "gadget_service \<Rightarrow> usb_config \<Rightarrow> bmc \<Rightarrow> unit app_result" where
  "configure_usb script config b =
     and_then (configure_usb_internal script config b) (\<lambda>_ b.
       (Inr (), b\<lparr>bm_db := (bm_db b)\<lparr>db_usb_config := config\<rparr>\<rparr>))"

definition initialize_usb_mode :: "gadget_service \<Rightarrow> bmc \<Rightarrow> unit app_result" where
  "initialize_usb_mode script b =
     and_then
       (if usb_bus_type (bm_hw b) = UsbHub
        then on_hw (set_node1_usb_route (db_node1_usb (bm_db b))) b else (Inr (), b))
       (\<lambda>_ b. configure_usb script (db_usb_config (bm_db b)) b)"

definition usb_boot :: "node_id \<Rightarrow> bool \<Rightarrow> bmc \<Rightarrow> unit app_result" where
  "usb_boot node on =
     (let node_bits = to_bitfield node
      in on_hw (set_usb_boot (if on then node_bits else 0) node_bits))"

definition clear_usb_boot :: "bmc \<Rightarrow> unit app_result" where
  "clear_usb_boot = on_hw (set_usb_boot 0 0b1111)"

definition reboot_into_usb :: "gadget_service \<Rightarrow> (nat \<Rightarrow> nat option) \<Rightarrow> (nat \<Rightarrow> nat option)
    \<Rightarrow> node_id \<Rightarrow> usb_config \<Rightarrow> bmc \<Rightarrow> unit app_result" where
  "reboot_into_usb script clock1 clock2 node config b =
     and_then (activate_slot clock1 (NOT (to_bitfield node)) (to_bitfield node) b) (\<lambda>_ b.
     and_then (configure_usb_internal script config b) (\<lambda>_ b.
     and_then (activate_slot clock2 (to_bitfield node) (to_bitfield node) b) (\<lambda>_ b.
     clear_usb_boot b)))"

section \<open>Node information\<close>

definition merge_info :: "node_info \<Rightarrow> node_info \<Rightarrow> node_info" where
  "merge_info new store =
     store\<lparr>ni_name := (case ni_name new of None \<Rightarrow> ni_name store | n \<Rightarrow> n),
           ni_module_name := (case ni_module_name new of None \<Rightarrow> ni_module_name store | n \<Rightarrow> n),
           ni_uart_baud := (case ni_uart_baud new of None \<Rightarrow> ni_uart_baud store | n \<Rightarrow> n)\<rparr>"

fun merge_infos :: "(node_id \<times> node_info) list \<Rightarrow> node_info list \<Rightarrow> node_info list" where
  "merge_infos [] infos = infos"
| "merge_infos ((node, info) # rest) infos =
     merge_infos rest (infos[node_index node := merge_info info (infos ! node_index node)])"

definition set_node_info :: "(node_id \<times> node_info) list \<Rightarrow> bmc \<Rightarrow> unit app_result" where
  "set_node_info new_info b =
     (Inr (), b\<lparr>bm_db := (bm_db b)\<lparr>db_node_infos := merge_infos new_info (db_node_infos (bm_db b))\<rparr>\<rparr>)"

definition get_node_infos :: "nat option \<Rightarrow> bmc \<Rightarrow> (app_error, node_info list) result" where
  "get_node_infos now b =
     (case now of
        None \<Rightarrow> Inl BeforeEpoch
      | Some current_time \<Rightarrow>
          Inr (map (\<lambda>info. info\<lparr>ni_power_on_time := map_option (\<lambda>time. current_time - time) (ni_power_on_time info)\<rparr>)
            (db_node_infos (bm_db b))))"

section \<open>Cooling\<close>

definition COOLING_CAPACITY :: nat where "COOLING_CAPACITY = 10"

definition app_set_cooling_speed :: "(string \<Rightarrow> u64) \<Rightarrow> string \<Rightarrow> nat \<Rightarrow> bmc \<Rightarrow> unit app_result" where
  "app_set_cooling_speed hash device speed b =
     (case set_cooling_state device speed (bm_thermal b) of
        (Inl e, t) \<Rightarrow> (Inl (CoolingFailed e), b\<lparr>bm_thermal := t\<rparr>)
      | (Inr _, t) \<Rightarrow>
          (let b = b\<lparr>bm_thermal := t\<rparr>; cooling = db_cooling (bm_db b)
           in (Inr (),
               if length cooling < COOLING_CAPACITY
               then b\<lparr>bm_db := (bm_db b)\<lparr>db_cooling := AList.update (hash device) speed cooling\<rparr>\<rparr> else b)))"

definition app_set_cooling_override :: "string \<Rightarrow> nat option \<Rightarrow> bmc \<Rightarrow> unit app_result" where
  "app_set_cooling_override device speed b =
     (case set_cooling_override device speed (bm_thermal b) of
        (Inl e, t) \<Rightarrow> (Inl (CoolingFailed e), b\<lparr>bm_thermal := t\<rparr>)
      | (Inr _, t) \<Rightarrow> (Inr (), b\<lparr>bm_thermal := t\<rparr>))"

fun replay_speeds :: "(string \<Rightarrow> u64) \<Rightarrow> (u64 \<times> nat) list \<Rightarrow> cooling_device list \<Rightarrow> (u64 \<times> nat) list \<Rightarrow> thermal
    \<Rightarrow> (app_error, (u64 \<times> nat) list) result \<times> thermal" where
  "replay_speeds hash store [] set_devices t = (Inr set_devices, t)"
| "replay_speeds hash store (dev # devs) set_devices t =
     (case map_of store (hash (cl_device dev)) of
        None \<Rightarrow> replay_speeds hash store devs set_devices t
      | Some speed \<Rightarrow>
          (case set_cooling_state (cl_device dev) speed t of
             (Inl e, t) \<Rightarrow> (Inl (CoolingFailed e), t)
           | (Inr _, t) \<Rightarrow>
               replay_speeds hash store devs (AList.update (hash (cl_device dev)) speed set_devices) t))"

definition initialize_cooling :: "(string \<Rightarrow> u64) \<Rightarrow> bmc \<Rightarrow> unit app_result" where
  "initialize_cooling hash b =
     (let t = resume_all_governors (bm_thermal b)
      in case replay_speeds hash (db_cooling (bm_db b)) (get_cooling_state t) [] t of
           (Inl e, t) \<Rightarrow> (Inl e, b\<lparr>bm_thermal := t\<rparr>)
         | (Inr m, t) \<Rightarrow> (Inr (), b\<lparr>bm_thermal := t, bm_db := (bm_db b)\<lparr>db_cooling := m\<rparr>\<rparr>))"

definition app_initialize :: "gadget_service \<Rightarrow> (nat \<Rightarrow> nat option) \<Rightarrow> (string \<Rightarrow> u64) \<Rightarrow> bmc \<Rightarrow> unit app_result" where
  "app_initialize script clock hash b =
     and_then (initialize_usb_mode script b) (\<lambda>_ b.
     and_then (initialize_power clock b) (\<lambda>_ b.
     initialize_cooling hash b))"

section \<open>Facts\<close>

lemma drop_bit_and_one: "drop_bit n a AND 1 = (of_bool (bit a n) :: u8)"
  by (simp add: and_one_eq mod_2_eq_odd bit_iff_odd_drop_bit)

lemma power_transition_bit:
  "power_transition act n (of_bool new) = (if new = bit act n then None else Some new)"
  by (auto simp: power_transition_def Let_def drop_bit_and_one)

lemma stamp_times_nth:
  assumes "distinct ns" and "k < length infos"
  shows "stamp_times clock act (map (\<lambda>n. (n, of_bool (bit st n))) ns) infos ! k
    = (if k \<in> set ns \<and> bit st k \<noteq> bit act k
       then (infos ! k)\<lparr>ni_power_on_time := if bit st k then clock k else None\<rparr> else infos ! k)"
  using assms
proof (induction ns arbitrary: infos)
  case (Cons n ns)
  let ?infos = "case power_transition act n (of_bool (bit st n)) of
      Some True \<Rightarrow> infos[n := (infos ! n)\<lparr>ni_power_on_time := clock n\<rparr>]
    | Some False \<Rightarrow> infos[n := (infos ! n)\<lparr>ni_power_on_time := None\<rparr>]
    | None \<Rightarrow> infos"
  have len: "k < length ?infos" using Cons.prems(2) by (simp split: option.split bool.split)
  have at: "?infos ! k = (if k = n \<and> bit st k \<noteq> bit act k
      then (infos ! k)\<lparr>ni_power_on_time := if bit st k then clock k else None\<rparr> else infos ! k)"
    using Cons.prems(2) by (auto simp: power_transition_bit nth_list_update)
  have "n \<notin> set ns" "distinct ns" using Cons.prems(1) by simp_all
  with Cons.IH [OF _ len] at show ?case by (cases "k = n") auto
qed simp

lemma length_stamp_times [simp]: "length (stamp_times clock act us infos) = length infos"
  by (induction us arbitrary: infos) (auto split: option.split bool.split)

lemma snd_power_led:
  "snd (on_hw (power_led on) b) = b\<lparr>bm_hw := snd (power_led on (bm_hw b))\<rparr>"
  by (simp add: on_hw_def split_beta split: sum.split)

lemma power_led_same [simp]:
  "hw_enable (snd (power_led on hw)) = hw_enable hw" "hw_mode (snd (power_led on hw)) = hw_mode hw"
  "hw_rpi_boot (snd (power_led on hw)) = hw_rpi_boot hw" "hw_faults (snd (power_led on hw)) = hw_faults hw"
  "hw_arch (snd (power_led on hw)) = hw_arch hw"
  by (simp_all add: power_led_def hw_write_def)

lemma on_hw_ok: "on_hw f b = (Inr a, b') \<longleftrightarrow> (\<exists>hw. f (bm_hw b) = (Inr a, hw) \<and> b' = b\<lparr>bm_hw := hw\<rparr>)"
  by (auto simp: on_hw_def split: prod.splits sum.splits)

lemma on_hw_snd: "snd (on_hw f b) = b\<lparr>bm_hw := snd (f (bm_hw b))\<rparr>"
  by (simp add: on_hw_def split_beta split: sum.split)

lemma bit_blend: "bit ((old AND NOT k) OR (new AND k)) n = (if bit k n then bit new n else bit old (n :: nat))" for old new k :: u8
  by (auto simp: bit_simps dest: bit_imp_le_length)

lemma activate_slot_calls:
  "k \<noteq> 0 \<Longrightarrow> \<exists>b1. activate_slot clock st k b = on_hw (set_power_node st k) b1
     \<and> hw_enable (bm_hw b1) = hw_enable (bm_hw b) \<and> hw_faults (bm_hw b1) = hw_faults (bm_hw b)"
  by (simp add: activate_slot_def Let_def snd_power_led) (rule exI, intro conjI, rule refl, simp_all)

lemma activate_slot_effect:
  assumes "activate_slot clock st k b = (Inr (), b')"
  shows "bm_db b' = (bm_db b)\<lparr>db_activated := (db_activated (bm_db b) AND NOT k) OR (st AND k),
      db_node_infos := stamp_times clock (db_activated (bm_db b)) (bit_iterator st k) (db_node_infos (bm_db b))\<rparr>"
    and "hw_enable (bm_hw b') = put_all (\<lambda>n. of_bool (bit st n)) (selected k) (hw_enable (bm_hw b))"
    and "length (hw_mode (bm_hw b')) = length (hw_mode (bm_hw b))"
    and "hw_rpi_boot (bm_hw b') = hw_rpi_boot (bm_hw b)"
    and "hw_faults (bm_hw b') = hw_faults (bm_hw b)" and "k \<noteq> 0"
  using assms
  by (auto simp: activate_slot_def Let_def snd_power_led on_hw_ok update_power_on_times_def
      dest!: set_power_node_ok split: if_splits)

lemma activate_slot_live:
  assumes "k \<noteq> 0" and "hw_faults (bm_hw b) = []"
  shows "\<exists>b'. activate_slot clock st k b = (Inr (), b')"
  using activate_slot_calls [OF assms(1), of clock st b] set_power_node_live [of _ st k] assms(2)
  by (metis on_hw_ok)

text \<open>What the store says and what the lines say, for the four nodes.\<close>

definition bmc_wf :: "bmc \<Rightarrow> bool" where
  "bmc_wf b = (hw_wf (bm_hw b) \<and> length (db_node_infos (bm_db b)) = 4)"

definition power_agrees :: "bmc \<Rightarrow> bool" where
  "power_agrees b =
     (bmc_wf b \<and> list_all (\<lambda>n. hw_enable (bm_hw b) ! n = of_bool (bit (db_activated (bm_db b)) n)) [0..<4])"

lemma set_selected: "set (selected k) = {n. n < 4 \<and> bit k n}"
  by auto

lemma activate_slot_wf:
  "activate_slot clock st k b = (Inr (), b') \<Longrightarrow> bmc_wf b \<Longrightarrow> bmc_wf b'"
  using activate_slot_effect [of clock st k b b'] by (simp add: bmc_wf_def hw_wf_def)

lemma activate_slot_node:
  assumes "activate_slot clock st k b = (Inr (), b')" and "bmc_wf b" and "n < 4"
  shows "bit (db_activated (bm_db b')) n = (if bit k n then bit st n else bit (db_activated (bm_db b)) n)"
    and "hw_enable (bm_hw b') ! n = (if bit k n then of_bool (bit st n) else hw_enable (bm_hw b) ! n)"
    and "db_node_infos (bm_db b') ! n
      = (if bit k n \<and> bit st n \<noteq> bit (db_activated (bm_db b)) n
         then (db_node_infos (bm_db b) ! n)\<lparr>ni_power_on_time := if bit st n then clock n else None\<rparr>
         else db_node_infos (bm_db b) ! n)"
proof -
  note e = activate_slot_effect [OF assms(1)]
  show "bit (db_activated (bm_db b')) n = (if bit k n then bit st n else bit (db_activated (bm_db b)) n)"
    by (simp add: e(1) bit_blend)
  show "hw_enable (bm_hw b') ! n = (if bit k n then of_bool (bit st n) else hw_enable (bm_hw b) ! n)"
    using assms(2,3) by (simp add: e(2) nth_put_all bmc_wf_def hw_wf_def)
  show "db_node_infos (bm_db b') ! n
      = (if bit k n \<and> bit st n \<noteq> bit (db_activated (bm_db b)) n
         then (db_node_infos (bm_db b) ! n)\<lparr>ni_power_on_time := if bit st n then clock n else None\<rparr>
         else db_node_infos (bm_db b) ! n)"
    using assms(2,3) by (simp add: e(1) bit_iterator_eq stamp_times_nth bmc_wf_def)
qed

lemma power_agrees_activate:
  assumes "activate_slot clock st k b = (Inr (), b')" and "bmc_wf b"
    and "\<And>n. n < 4 \<Longrightarrow> bit k n \<or> hw_enable (bm_hw b) ! n = of_bool (bit (db_activated (bm_db b)) n)"
  shows "power_agrees b'"
proof -
  have "hw_enable (bm_hw b') ! n = of_bool (bit (db_activated (bm_db b')) n)" if "n < 4" for n
    using activate_slot_node(1,2) [OF assms(1,2) that] assms(3) [OF that] by (cases "bit k n") simp_all
  then show ?thesis using activate_slot_wf [OF assms(1,2)] by (simp add: power_agrees_def list_all_iff)
qed

section \<open>Starting and running\<close>

lemma read_back:
  assumes "get_power_node hw = Inr v" and "length (hw_enable hw) = 4" and "n < 4"
  shows "bit v n \<longleftrightarrow> bit (hw_enable hw ! n) 0"
proof -
  have "GetEnable (0 + i) \<notin> set (hw_faults hw)" if "i < length (hw_enable hw)" for i
  proof
    assume f: "GetEnable (0 + i) \<in> set (hw_faults hw)"
    have "read_lines idx es faults acc \<noteq> Inr v" if "idx \<le> j" "j < idx + length es" "GetEnable j \<in> set faults" for idx j es faults acc
      using that
    proof (induction es arbitrary: idx acc)
      case (Cons e es)
      then show ?case by (cases "j = idx") simp_all
    qed simp
    from this [of 0 i "hw_enable hw" "hw_faults hw" 0] that f assms(1) show False by (simp add: get_power_node_def)
  qed
  from read_lines_ok [of "hw_enable hw" 0 "hw_faults hw" 0, OF this] assms show ?thesis
    by (auto simp: get_power_node_def)
qed

lemma power_updates_same:
  "power_updates us hw = (r, hw') \<Longrightarrow> (\<And>i s. (i, s) \<in> set us \<Longrightarrow> hw_enable hw ! i = s) \<Longrightarrow>
     hw_enable hw' = hw_enable hw"
proof (induction us arbitrary: hw)
  case (Cons u us)
  obtain i s where u: "u = (i, s)" by (cases u)
  have same: "(hw_enable hw)[i := s] = hw_enable hw" using Cons.prems(2) [of i s] u by (metis list.set_intros(1) list_update_id)
  show ?case
  proof (cases "SetMode i \<in> set (hw_faults hw) \<or> SetEnable i \<in> set (hw_faults hw)")
    case True
    then show ?thesis using Cons.prems(1) u
      by (cases "SetMode i \<in> set (hw_faults hw)") (auto simp: set_mode_def hw_write_def)
  next
    case False
    then obtain hw1 where "power_updates us hw1 = (r, hw')" "hw_enable hw1 = hw_enable hw"
      using Cons.prems(1) u same by (auto simp: set_mode_def hw_write_def)
    then show ?thesis using Cons.IH [of hw1] Cons.prems(2) by auto
  qed
qed simp

lemma on_hw_enable: "on_hw f b = (r, b') \<Longrightarrow> \<exists>r2. f (bm_hw b) = (r2, bm_hw b')"
  by (auto simp: on_hw_def split: prod.splits sum.splits)

text \<open>C19: a restart of the daemon, or of the board's controller, does not touch running nodes. When
  the lines can be read and any node is on, the state applied at start is the one the lines
  already have: no enable line changes, whatever the store remembers and even if a write
  fails on the way.\<close>

theorem restart_keeps_nodes:
  assumes "bmc_wf b" and "get_power_node (bm_hw b) = Inr live" and "live \<noteq> 0"
    and "\<And>n. n < 4 \<Longrightarrow> hw_enable (bm_hw b) ! n \<in> {0, 1}"
    and "initialize_power clock b = (r, b')"
  shows "hw_enable (bm_hw b') = hw_enable (bm_hw b)"
proof -
  have "activate_slot clock live 0b1111 b = (r, b')"
    using assms(2,3,5) by (simp add: initialize_power_def startup_power_state_def)
  then obtain b1 where call: "on_hw (set_power_node live 0b1111) b1 = (r, b')"
    and b1: "hw_enable (bm_hw b1) = hw_enable (bm_hw b)"
    using activate_slot_calls [of "0b1111" clock live b] by auto
  obtain r2 where "power_updates (bit_iterator live 0b1111) (bm_hw b1) = (r2, bm_hw b')"
    using on_hw_enable [OF call] by (auto simp: set_power_node_def)
  moreover have "hw_enable (bm_hw b1) ! i = s" if "(i, s) \<in> set (bit_iterator live 0b1111)" for i s
  proof -
    have i: "i < 4" "s = of_bool (bit live i)" using that by (auto simp: bit_iterator_eq)
    have "bit live i \<longleftrightarrow> bit (hw_enable (bm_hw b) ! i) 0"
      using read_back [OF assms(2) _ i(1)] assms(1) by (simp add: bmc_wf_def hw_wf_def)
    then show ?thesis using assms(4) [OF i(1)] i(2) by (auto simp: b1)
  qed
  ultimately show ?thesis using power_updates_same b1 by metis
qed

section \<open>What USB leaves alone\<close>

definition hw_frame :: "hardware \<Rightarrow> hardware \<Rightarrow> bool" where
  "hw_frame hw hw' = (hw_enable hw' = hw_enable hw \<and> length (hw_mode hw') = length (hw_mode hw)
     \<and> length (hw_rpi_boot hw') = length (hw_rpi_boot hw) \<and> hw_faults hw' = hw_faults hw)"

definition keeps_power :: "bmc \<Rightarrow> bmc \<Rightarrow> bool" where
  "keeps_power b b' = (hw_frame (bm_hw b) (bm_hw b')
     \<and> db_activated (bm_db b') = db_activated (bm_db b)
     \<and> length (db_node_infos (bm_db b')) = length (db_node_infos (bm_db b)))"

lemma hw_frame_refl [simp]: "hw_frame hw hw"
  by (simp add: hw_frame_def)

lemma keeps_power_refl [simp]: "keeps_power b b"
  by (simp add: keeps_power_def)

lemma keeps_power_trans: "keeps_power a b \<Longrightarrow> keeps_power b c \<Longrightarrow> keeps_power a c"
  by (simp add: keeps_power_def hw_frame_def)

lemma hw_frame_trans: "hw_frame a b \<Longrightarrow> hw_frame b c \<Longrightarrow> hw_frame a c"
  by (simp add: hw_frame_def)

lemma hw_frame_write: "hw_frame hw (f hw) \<Longrightarrow> hw_frame hw (snd (hw_write op f hw))"
  by (simp add: hw_write_def)

lemma hw_frame_and_then:
  assumes "hw_frame hw (snd r)" and "\<And>a hw1. hw_frame hw1 (snd (f a hw1))"
  shows "hw_frame hw (snd (and_then r f))"
proof (cases r)
  case (Pair x hw1)
  then show ?thesis using assms hw_frame_trans by (cases x) (fastforce, metis and_then_simps(2) snd_conv)
qed

lemma boot_updates_frame: "hw_frame hw (snd (boot_updates us hw))"
proof (induction us arbitrary: hw)
  case (Cons u us)
  obtain i s where "u = (i, s)" by (cases u)
  then show ?case
    by (auto intro!: hw_frame_and_then hw_frame_write Cons.IH) (simp add: hw_frame_def)
qed simp

lemma set_usb_route_frame: "hw_frame hw (snd (set_usb_route route hw))"
proof (cases "hw_arch hw")
  case UsbMux
  then show ?thesis
    by (auto simp: set_usb_route_def mux_set_usb_route_def split: usb_route.split
        intro!: hw_frame_and_then hw_frame_write) (simp_all add: hw_frame_def)
next
  case UsbHub
  then show ?thesis
    by (auto simp: set_usb_route_def hub_set_usb_route_def intro!: hw_frame_write) (simp add: hw_frame_def)
qed

lemma select_usb_frame: "hw_frame hw (snd (select_usb node mode hw))"
proof -
  have "hw_frame hw (snd (usb_switch_configure node mode hw))"
  proof (cases "hw_arch hw")
    case UsbMux
    then show ?thesis
      by (auto simp: usb_switch_configure_def mux_configure_usb_def Let_def
          intro!: hw_frame_and_then hw_frame_write) (simp_all add: hw_frame_def)
  qed (simp add: usb_switch_configure_def hub_configure_usb_def)
  then show ?thesis
    by (auto simp: select_usb_def set_usb_boot_def intro!: hw_frame_and_then boot_updates_frame)
qed

lemma on_hw_keeps: "(\<And>hw. hw_frame hw (snd (f hw))) \<Longrightarrow> keeps_power b (snd (on_hw f b))"
  by (simp add: on_hw_snd keeps_power_def)

lemma and_then_keeps:
  assumes "keeps_power b (snd r)" and "\<And>a b1. keeps_power b1 (snd (f a b1))"
  shows "keeps_power b (snd (and_then r f))"
proof (cases r)
  case (Pair x b1)
  then show ?thesis
    using assms keeps_power_trans by (cases x) (fastforce, metis and_then_simps(2) snd_conv)
qed

lemma configure_usb_internal_keeps: "keeps_power b (snd (configure_usb_internal script config b))"
proof -
  obtain dest mode route where parts: "usb_parts config = (dest, mode, route)" by (cases "usb_parts config")
  define b1 where "b1 = (if mode \<noteq> Flash
    then b\<lparr>bm_gadget := snd (remove_msd_function_from_usb_gadget script (bm_gadget b))\<rparr> else b)"
  have "keeps_power b b1" by (simp add: b1_def keeps_power_def)
  moreover have "keeps_power b1 (snd (and_then (on_hw (set_usb_route route) b1) (\<lambda>_ b. on_hw (select_usb dest mode) b)))"
    by (intro and_then_keeps on_hw_keeps set_usb_route_frame select_usb_frame)
  ultimately have "keeps_power b (snd (and_then (on_hw (set_usb_route route) b1) (\<lambda>_ b. on_hw (select_usb dest mode) b)))"
    by (rule keeps_power_trans)
  then show ?thesis unfolding configure_usb_internal_def parts b1_def Let_def split_beta by simp
qed

lemma configure_usb_keeps: "keeps_power b (snd (configure_usb script config b))"
  unfolding configure_usb_def
  by (intro and_then_keeps configure_usb_internal_keeps) (simp add: keeps_power_def)

lemma power_agrees_keeps: "keeps_power b b' \<Longrightarrow> power_agrees b \<Longrightarrow> power_agrees b'"
  by (simp add: power_agrees_def keeps_power_def hw_frame_def bmc_wf_def hw_wf_def)

section \<open>Properties\<close>

datatype power_call =
    CActivate "nat \<Rightarrow> nat option" u8 u8
  | CToggle "nat \<Rightarrow> nat option" bool
  | CConfigureUsb usb_config
  | CUsbBoot node_id bool
  | CRebootIntoUsb "nat \<Rightarrow> nat option" "nat \<Rightarrow> nat option" node_id usb_config
  | CSetNodeInfo "(node_id \<times> node_info) list"

fun power_step :: "gadget_service \<Rightarrow> bmc \<Rightarrow> power_call \<Rightarrow> bmc" where
  "power_step script b (CActivate clock st k) = snd (activate_slot clock st k b)"
| "power_step script b (CToggle clock long_press) = snd (toggle_power_states clock long_press b)"
| "power_step script b (CConfigureUsb config) = snd (configure_usb script config b)"
| "power_step script b (CUsbBoot node on) = snd (usb_boot node on b)"
| "power_step script b (CRebootIntoUsb c1 c2 node config) = snd (reboot_into_usb script c1 c2 node config b)"
| "power_step script b (CSetNodeInfo infos) = snd (set_node_info infos b)"

definition sound_board :: "bmc \<Rightarrow> bool" where
  "sound_board b = (power_agrees b \<and> hw_faults (bm_hw b) = [])"

lemma sound_keeps: "keeps_power b b' \<Longrightarrow> sound_board b \<Longrightarrow> sound_board b'"
  using power_agrees_keeps [of b b'] by (simp add: sound_board_def) (simp add: keeps_power_def hw_frame_def)

lemma sound_activate: "sound_board b \<Longrightarrow> sound_board (snd (activate_slot clock st k b))"
proof (cases "k = 0")
  case False
  assume s: "sound_board b"
  then obtain b' where a: "activate_slot clock st k b = (Inr (), b')"
    using activate_slot_live [OF False, of b clock st] by (auto simp: sound_board_def)
  have "power_agrees b'"
    by (rule power_agrees_activate [OF a]) (use s in \<open>auto simp: sound_board_def power_agrees_def list_all_iff\<close>)
  then show ?thesis using a activate_slot_effect(5) [OF a] s by (simp add: sound_board_def)
qed (simp add: activate_slot_def)

lemma sound_and_then:
  assumes "sound_board (snd r)" and "\<And>a b. sound_board b \<Longrightarrow> sound_board (snd (f a b))"
  shows "sound_board (snd (and_then r f))"
  using assms by (cases r; cases "fst r") auto

lemma length_merge_infos [simp]: "length (merge_infos new infos) = length infos"
  by (induction new infos rule: merge_infos.induct) simp_all

lemma usb_boot_keeps: "keeps_power b (snd (on_hw (set_usb_boot st k) b))"
  by (intro on_hw_keeps) (simp add: set_usb_boot_def boot_updates_frame)

lemma sound_step: "sound_board b \<Longrightarrow> sound_board (power_step script b call)"
proof (cases call)
  case (CRebootIntoUsb c1 c2 node config)
  assume "sound_board b"
  then show ?thesis
    unfolding CRebootIntoUsb power_step.simps reboot_into_usb_def clear_usb_boot_def
    by (intro sound_and_then sound_activate sound_keeps [OF configure_usb_internal_keeps] sound_keeps [OF usb_boot_keeps])
next
  case (CSetNodeInfo infos)
  assume "sound_board b"
  then show ?thesis
    using sound_keeps [of b "snd (set_node_info infos b)"] CSetNodeInfo
    by (simp add: set_node_info_def keeps_power_def)
qed (use sound_activate sound_keeps [OF configure_usb_keeps] sound_keeps [OF usb_boot_keeps]
     in \<open>simp_all add: toggle_power_states_def usb_boot_def Let_def\<close>)

lemma sound_start:
  assumes "bmc_wf b" and "hw_faults (bm_hw b) = []"
  shows "sound_board (snd (initialize_power clock b))"
proof -
  obtain s where i: "initialize_power clock b = activate_slot clock s 0b1111 b"
    by (simp add: initialize_power_def Let_def)
  have "(0b1111 :: u8) \<noteq> 0" by simp
  then obtain b' where a: "activate_slot clock s 0b1111 b = (Inr (), b')"
    using activate_slot_live assms(2) by blast
  have "power_agrees b'"
    by (rule power_agrees_activate [OF a assms(1)]) (use bit_nibble in blast)
  then show ?thesis using a i activate_slot_effect(5) [OF a] assms(2) by (simp add: sound_board_def)
qed


definition demo_hw :: "usb_architecture \<Rightarrow> hardware" where
  "demo_hw arch = \<lparr>hw_arch = arch, hw_mode = replicate 4 ''disabled'', hw_enable = [1, 0, 0, 0],
     hw_rpi_boot = [0, 0, 0, 0], hw_output_switch = 0, hw_port_power = [], hw_usb_mux = 0, hw_usb_vbus = 0,
     hw_node1_source = 0, hw_power_led = [], hw_status_led = [], hw_faults = []\<rparr>"

definition demo_bmc :: "usb_architecture \<Rightarrow> bmc" where
  "demo_bmc arch = \<lparr>bm_hw = demo_hw arch, bm_db = app_db_default,
     bm_gadget = \<lparr>gd_present = True, gd_udc = Some [], gd_linked = False, gd_function = False,
        gd_lun = None, gd_faults = []\<rparr>,
     bm_thermal = \<lparr>th_listable = True, th_dirs = [], th_pwm_fans = None, th_refused = []\<rparr>\<rparr>"

lemma demo_bmc_wf: "bmc_wf (demo_bmc arch)" "hw_faults (bm_hw (demo_bmc arch)) = []"
  by (simp_all add: bmc_wf_def hw_wf_def demo_bmc_def demo_hw_def app_db_default_def)

lemma demo_live: "get_power_node (bm_hw (demo_bmc arch)) = Inr 1"
  by (simp add: get_power_node_def demo_bmc_def demo_hw_def)


theorem restart_keeps_nodes_witness:
  "hw_enable (bm_hw (snd (initialize_power (\<lambda>_. Some 7) (demo_bmc UsbHub)))) = [1, 0, 0, 0]"
proof -
  have lines: "hw_enable (bm_hw (demo_bmc UsbHub)) = [1, 0, 0, 0]" by (simp add: demo_bmc_def demo_hw_def)
  have "hw_enable (bm_hw (demo_bmc UsbHub)) ! n \<in> {0, 1}" if "n < 4" for n
    using that by (auto simp: lines nth_Cons' less_Suc_eq numeral_eq_Suc)
  from restart_keeps_nodes [OF demo_bmc_wf(1) demo_live _ this] show ?thesis
    by (metis lines prod.collapse zero_neq_one)
qed

text \<open>the effect of switching a slot, node by node: a node in the mask gets its bit of the
  request in the store and on its line, the others keep theirs; the time a node was switched
  on is stamped exactly when it goes from off to on, forgotten when it goes from on to off,
  and kept when it stays as it was.\<close>

theorem activate_slot_ok:
  assumes "activate_slot clock st k b = (Inr (), b')" and "bmc_wf b" and "n < 4"
  shows "bit (db_activated (bm_db b')) n = (if bit k n then bit st n else bit (db_activated (bm_db b)) n)
    \<and> hw_enable (bm_hw b') ! n = (if bit k n then of_bool (bit st n) else hw_enable (bm_hw b) ! n)
    \<and> db_node_infos (bm_db b') ! n
      = (if bit k n \<and> bit st n \<noteq> bit (db_activated (bm_db b)) n
         then (db_node_infos (bm_db b) ! n)\<lparr>ni_power_on_time := if bit st n then clock n else None\<rparr>
         else db_node_infos (bm_db b) ! n)"
  using activate_slot_node [OF assms] by blast

theorem activate_slot_ok_witness:
  "\<exists>b'. activate_slot (\<lambda>_. Some 9) 0b0100 0b0100 (demo_bmc UsbMux) = (Inr (), b')
     \<and> hw_enable (bm_hw b') ! 2 = 1 \<and> ni_power_on_time (db_node_infos (bm_db b') ! 2) = Some 9"
proof -
  obtain b' where a: "activate_slot (\<lambda>_. Some 9) 0b0100 0b0100 (demo_bmc UsbMux) = (Inr (), b')"
    using activate_slot_live [of "0b0100" "demo_bmc UsbMux" "\<lambda>_. Some 9" "0b0100"] demo_bmc_wf by auto
  have "bit (0b0100 :: u8) 2" by (simp add: bit_iff_odd)
  then show ?thesis
    using activate_slot_ok [OF a demo_bmc_wf(1), of 2] a by (auto simp: demo_bmc_def app_db_default_def)
qed

text \<open>a reset switches the node off and on again on its line and tells the store nothing. A node
  that was off is on afterwards while the store, and every answer made from it, still says it
  is off.\<close>

theorem reset_forgets_store:
  assumes "app_reset_node node b = (Inr (), b')" and "power_agrees b"
  shows "hw_enable (bm_hw b') ! node_index node = 1 \<and> bm_db b' = bm_db b
    \<and> (get_node_power node b' \<longleftrightarrow> hw_enable (bm_hw b) ! node_index node = 1)"
proof -
  let ?i = "node_index node"
  obtain hw1 hw2 where off: "set_power_node 0 (to_bitfield node) (bm_hw b) = (Inr (), hw1)"
    and on: "set_power_node (to_bitfield node) (to_bitfield node) hw1 = (Inr (), hw2)"
    and b': "b' = b\<lparr>bm_hw := hw2\<rparr>"
    using assms(1) by (auto simp: app_reset_node_def on_hw_ok reset_node_def Let_def and_then_ok)
  have len: "length (hw_enable (bm_hw b)) = 4" and i: "?i < 4"
    using assms(2) node_index_lt by (simp_all add: power_agrees_def bmc_wf_def hw_wf_def)
  have "hw_enable hw2 ! ?i = 1"
    using len i by (simp add: set_power_node_ok [OF on] set_power_node_ok [OF off] nth_put_all bit_to_bitfield)
  moreover have "get_node_power node b \<longleftrightarrow> bit (db_activated (bm_db b)) ?i"
    using bit_and_push_one [of "db_activated (bm_db b)" ?i] by (simp add: get_node_power_def to_bitfield_def)
  moreover have "hw_enable (bm_hw b) ! ?i = of_bool (bit (db_activated (bm_db b)) ?i)"
    using assms(2) i by (simp add: power_agrees_def list_all_iff)
  ultimately show ?thesis by (simp add: b' get_node_power_def)
qed

theorem reset_forgets_store_witness:
  "\<exists>b b'. app_reset_node Node2 b = (Inr (), b') \<and> hw_enable (bm_hw b') ! 1 = 1 \<and> \<not> get_node_power Node2 b'"
proof -
  let ?b = "snd (initialize_power (\<lambda>_. Some 7) (demo_bmc UsbHub))"
  have s: "sound_board ?b" by (rule sound_start [OF demo_bmc_wf])
  obtain hw1 hw2 where off: "set_power_node 0 (to_bitfield Node2) (bm_hw ?b) = (Inr (), hw1)"
    using set_power_node_live s unfolding sound_board_def by blast
  have "hw_faults hw1 = []" using set_power_node_ok [OF off] s by (simp add: sound_board_def)
  then obtain hw2 where on: "set_power_node (to_bitfield Node2) (to_bitfield Node2) hw1 = (Inr (), hw2)"
    using set_power_node_live by blast
  have r: "app_reset_node Node2 ?b = (Inr (), ?b\<lparr>bm_hw := hw2\<rparr>)"
    using off on by (simp add: app_reset_node_def on_hw_def reset_node_def Let_def)
  have "hw_enable (bm_hw ?b) = [1, 0, 0, 0]"
  proof -
    have lines: "hw_enable (bm_hw (demo_bmc UsbHub)) = [1, 0, 0, 0]" by (simp add: demo_bmc_def demo_hw_def)
    obtain b1 where c: "initialize_power (\<lambda>_. Some 7) (demo_bmc UsbHub) = on_hw (set_power_node 1 0b1111) b1"
      and e: "hw_enable (bm_hw b1) = [1, 0, 0, 0]"
      using activate_slot_calls [of "0b1111" "\<lambda>_. Some 7" 1 "demo_bmc UsbHub"] demo_live [of UsbHub] lines
      by (auto simp: initialize_power_def startup_power_state_def)
    have "hw_enable (snd (power_updates (bit_iterator 1 0b1111) (bm_hw b1))) = [1, 0, 0, 0]"
    proof -
      have "hw_enable (bm_hw b1) ! i = s" if "(i, s) \<in> set (bit_iterator 1 0b1111)" for i s
        using that by (auto simp: bit_iterator_eq e nth_Cons' less_Suc_eq numeral_eq_Suc bit_1_iff)
      from power_updates_same [OF prod.collapse [symmetric] this] e show ?thesis by simp
    qed
    then show ?thesis unfolding c on_hw_snd set_power_node_def by simp
  qed
  then have "hw_enable hw2 ! 1 = 1 \<and> \<not> get_node_power Node2 (?b\<lparr>bm_hw := hw2\<rparr>)"
    using reset_forgets_store [OF r] s by (simp add: sound_board_def)
  with r show ?thesis by (intro exI [of _ ?b] exI [of _ "?b\<lparr>bm_hw := hw2\<rparr>"]) simp
qed

text \<open>on a board with the USB hub a request to make a node the USB host is refused, but only
  after the route has been switched: the store keeps the old configuration, the hardware is
  routed as the refused request asked.\<close>

theorem host_refused_after_routing:
  assumes "hw_arch (bm_hw b) = UsbHub" and "OutputSwitch \<notin> set (hw_faults (bm_hw b))"
  shows "fst (configure_usb script (UsbNode node route) b) = Inl (HalError HostModeNotSupported)
    \<and> bm_db (snd (configure_usb script (UsbNode node route) b)) = bm_db b
    \<and> hw_output_switch (bm_hw (snd (configure_usb script (UsbNode node route) b)))
        = (case route of AlternativePort \<Rightarrow> 0 | RouteBmc \<Rightarrow> 1)"
  using assms
  by (simp add: configure_usb_def configure_usb_internal_def usb_parts_def on_hw_def set_usb_route_def
      hub_set_usb_route_def hw_write_def select_usb_def usb_switch_configure_def hub_configure_usb_def)

theorem host_refused_after_routing_witness:
  "hw_output_switch (bm_hw (demo_bmc UsbHub)) = 0
   \<and> hw_output_switch (bm_hw (snd (configure_usb (\<lambda>_ g. (True, g)) (UsbNode Node1 RouteBmc) (demo_bmc UsbHub)))) = 1"
  using host_refused_after_routing [of "demo_bmc UsbHub" "\<lambda>_ g. (True, g)" Node1 RouteBmc]
  by (simp add: demo_bmc_def demo_hw_def)

section \<open>Two calls at once\<close>

text \<open>\<open>activate_slot\<close> takes no lock of its own: it reads the store, stamps the times, writes the
  store, sets the LED and then the lines, and another call may run between any two of these.
  A call in progress is what it was asked, how far it has come and the state it read.\<close>

datatype slot_phase = SRead | STimes | SStore | SLed | SPower | SDone

record slot_call =
  sl_states :: u8
  sl_mask :: u8
  sl_phase :: slot_phase
  sl_state :: u8

definition slot_new_state :: "slot_call \<Rightarrow> u8" where
  "slot_new_state c = (sl_state c AND NOT (sl_mask c)) OR (sl_states c AND sl_mask c)"

definition slot_step :: "(nat \<Rightarrow> nat option) \<Rightarrow> slot_call \<times> bmc \<Rightarrow> slot_call \<times> bmc" where
  "slot_step clock cb =
     (case cb of (c, b) \<Rightarrow>
        (case sl_phase c of
           SRead \<Rightarrow> (c\<lparr>sl_phase := STimes, sl_state := db_activated (bm_db b)\<rparr>, b)
         | STimes \<Rightarrow> (c\<lparr>sl_phase := SStore\<rparr>,
             b\<lparr>bm_db := update_power_on_times clock (sl_state c) (sl_states c) (sl_mask c) (bm_db b)\<rparr>)
         | SStore \<Rightarrow> (c\<lparr>sl_phase := SLed\<rparr>, b\<lparr>bm_db := (bm_db b)\<lparr>db_activated := slot_new_state c\<rparr>\<rparr>)
         | SLed \<Rightarrow> (c\<lparr>sl_phase := SPower\<rparr>, snd (on_hw (power_led (slot_new_state c \<noteq> 0)) b))
         | SPower \<Rightarrow> (c\<lparr>sl_phase := SDone\<rparr>, snd (on_hw (set_power_node (sl_states c) (sl_mask c)) b))
         | SDone \<Rightarrow> (c, b)))"

definition slot_start :: "u8 \<Rightarrow> u8 \<Rightarrow> slot_call" where
  "slot_start st k = \<lparr>sl_states = st, sl_mask = k, sl_phase = SRead, sl_state = 0\<rparr>"

text \<open>Alone, the five steps are the call.\<close>

lemma slot_steps_alone:
  assumes "k \<noteq> 0"
  shows "snd ((slot_step clock ^^ 5) (slot_start st k, b)) = snd (activate_slot clock st k b)"
  using assms
  by (simp add: slot_step_def slot_start_def slot_new_state_def activate_slot_def Let_def eval_nat_numeral)

text \<open>A schedule says which of the two calls moves next.\<close>

fun slot_schedule :: "(nat \<Rightarrow> nat option) \<Rightarrow> bool list \<Rightarrow> slot_call \<Rightarrow> slot_call \<Rightarrow> bmc \<Rightarrow> slot_call \<times> slot_call \<times> bmc" where
  "slot_schedule clock [] c1 c2 b = (c1, c2, b)"
| "slot_schedule clock (first # rest) c1 c2 b =
     (if first then (case slot_step clock (c1, b) of (c1, b) \<Rightarrow> slot_schedule clock rest c1 c2 b)
      else (case slot_step clock (c2, b) of (c2, b) \<Rightarrow> slot_schedule clock rest c1 c2 b))"

definition off_bmc :: bmc where
  "off_bmc = (demo_bmc UsbHub)\<lparr>bm_hw := (demo_hw UsbHub)\<lparr>hw_enable := [0, 0, 0, 0]\<rparr>\<rparr>"

text \<open>two requests at once can lose one. With all nodes off, one call to switch node 1 on and
  one to switch node 2 on can both read the store before either writes it; both run to their
  end, both nodes are powered, and the store has only the one written last.\<close>

theorem concurrent_slots_lose_one:
  "\<exists>order. case slot_schedule clock order (slot_start 1 1) (slot_start 2 2) off_bmc of
     (c1, c2, b) \<Rightarrow> sl_phase c1 = SDone \<and> sl_phase c2 = SDone
       \<and> hw_enable (bm_hw b) = [1, 1, 0, 0] \<and> db_activated (bm_db b) = 2 \<and> \<not> power_agrees b"
proof -
  have one: "bit_iterator 1 1 = [(0, 1)]" and two: "bit_iterator 2 2 = [(1, 1)]"
    by (simp_all add: bit_iterator_def NODE_COUNT_def eval_nat_numeral upt_conv_Cons push_bit_eq_mult drop_bit_eq_div)
  have "case slot_schedule clock [True, False, True, True, True, True, False, False, False, False]
      (slot_start 1 1) (slot_start 2 2) off_bmc of
     (c1, c2, b) \<Rightarrow> sl_phase c1 = SDone \<and> sl_phase c2 = SDone
       \<and> hw_enable (bm_hw b) = [1, 1, 0, 0] \<and> db_activated (bm_db b) = 2"
    by (simp add: slot_step_def slot_start_def slot_new_state_def update_power_on_times_def one two off_bmc_def
        demo_bmc_def demo_hw_def app_db_default_def on_hw_snd power_led_def hw_write_def set_power_node_def
        set_mode_def)
  moreover have "\<not> power_agrees b" if "hw_enable (bm_hw b) = [1, 1, 0, 0]" "db_activated (bm_db b) = 2" for b
    using that by (auto simp: power_agrees_def list_all_iff intro!: bexI [of _ 0])
  ultimately show ?thesis
    by (intro exI [of _ "[True, False, True, True, True, True, False, False, False, False]"]) (auto simp: split_beta)
qed

end
