(* ===== verification/Upgrade_Worker.thy ===== *)
theory Upgrade_Worker
  imports Firmware_Catalog Transfer_Service Bmc_Application
begin

text \<open>
  What a transfer does with its data, \<open>app/upgrade_worker.rs\<close>, with the data itself from
  \<open>data_transfer.rs\<close> and the checks on the way from \<open>utils/io.rs\<close>: writing a node, parking an
  image on the card and installing it. A source is the list of what its stream yields, so that a
  stream may fail or end early. The hash, the checksum, the xz decoder, the drivers that make a
  node appear as a device and the \<open>osupdate\<close> command are parameters.
\<close>

section \<open>The data\<close>

type_synonym octet_string = "u8 list"
type_synonym stream = "(io_error, octet_string) result list"

datatype data_transfer =
    LocalFile string "octet_string option"
  | Remote string nat stream "octet_string option"
  | FromUrl string "string option" stream "octet_string option"

record upgrade_env =
  ue_media :: media
  ue_sha256 :: "octet_string \<Rightarrow> octet_string"
  ue_crc64 :: "octet_string \<Rightarrow> u64"
  ue_xz :: "stream \<Rightarrow> stream"
  ue_sync_ok :: bool

text \<open>\<open>Path::join\<close> and the parent and name of the result: an absolute name replaces the directory.\<close>

definition split_path :: "string \<Rightarrow> path" where
  "split_path p =
     (rev (drop 1 (dropWhile (\<lambda>c. c \<noteq> CHR ''/'') (rev p))), rev (takeWhile (\<lambda>c. c \<noteq> CHR ''/'') (rev p)))"

definition join_path :: "string \<Rightarrow> string \<Rightarrow> path" where
  "join_path d n = split_path (if starts_with ''/'' n then n else d @ ''/'' @ n)"

definition path_file_name :: "string \<Rightarrow> string option" where
  "path_file_name p =
     (let cs = snd (path_components p) in if cs = [] \<or> last cs = ''..'' then None else Some (last cs))"

fun tr_file_name :: "data_transfer \<Rightarrow> string option" where
  "tr_file_name (LocalFile p _) = path_file_name p"
| "tr_file_name (Remote n _ _ _) = Some n"
| "tr_file_name (FromUrl n _ _ _) = Some n"

definition file_bytes :: "contents \<Rightarrow> octet_string" where
  "file_bytes c = (case c of NotUtf8 bs \<Rightarrow> bs | Utf8 s \<Rightarrow> concat (map (\<lambda>ch.
     let n = (of_char ch :: nat)
     in if n < 128 then [word_of_nat n] else [word_of_nat (192 + n div 64), word_of_nat (128 + n mod 64)]) s))"

fun tr_size :: "fs \<Rightarrow> data_transfer \<Rightarrow> nat option" where
  "tr_size fs (LocalFile p _) = (case fs_read fs (split_path p) of Inl _ \<Rightarrow> None | Inr c \<Rightarrow> Some (contents_len c))"
| "tr_size fs (Remote _ n _ _) = Some n"
| "tr_size fs (FromUrl _ content_length _ _) = Option.bind content_length parse_u64"

text \<open>\<open>Sha256StreamValidator\<close>: every chunk is hashed as it passes; at the end, or at an empty chunk,
  the hash has to be the expected one.\<close>

fun sha256_stream :: "upgrade_env \<Rightarrow> octet_string \<Rightarrow> octet_string \<Rightarrow> stream \<Rightarrow> stream" where
  "sha256_stream env expected seen [] = (if ue_sha256 env seen = expected then [] else [Inl InvalidData])"
| "sha256_stream env expected seen (Inl e # rest) = Inl e # sha256_stream env expected seen rest"
| "sha256_stream env expected seen (Inr bs # rest) =
     (if bs \<noteq> [] then Inr bs # sha256_stream env expected (seen @ bs) rest
      else if ue_sha256 env seen = expected then []
      else Inl InvalidData # sha256_stream env expected [] rest)"

definition with_decompression_support :: "upgrade_env \<Rightarrow> string \<Rightarrow> stream \<Rightarrow> stream" where
  "with_decompression_support env file_name items =
     (if Option.bind (path_file_name file_name) extension = Some ''xz'' then ue_xz env items else items)"

definition build_reader_object :: "upgrade_env \<Rightarrow> string \<Rightarrow> octet_string option \<Rightarrow> stream \<Rightarrow> stream" where
  "build_reader_object env file_name sha items =
     with_decompression_support env file_name
       (case sha of Some expected \<Rightarrow> sha256_stream env expected [] items | None \<Rightarrow> items)"

fun tr_reader :: "upgrade_env \<Rightarrow> fs \<Rightarrow> data_transfer \<Rightarrow> (io_error, stream) result" where
  "tr_reader env fs (LocalFile p sha) =
     (case fs_read fs (split_path p) of
        Inl e \<Rightarrow> Inl e
      | Inr c \<Rightarrow> Inr (build_reader_object env p sha [Inr (file_bytes c)]))"
| "tr_reader env fs (Remote n _ items sha) = Inr (build_reader_object env n sha items)"
| "tr_reader env fs (FromUrl n _ items sha) = Inr (build_reader_object env n sha items)"

section \<open>Copying\<close>

datatype upgrade_error =
    NoFileName
  | NoSize
  | UpIo io_error
  | Cancelled
  | CardNotMounted
  | NoCard
  | NoSpaceFor nat
  | CannotStat
  | CrcMismatch
  | NoDevice string
  | BmcFailed app_error
  | UpdateFailed

text \<open>\<open>copy_or_cancel\<close>: what it read, and whether it came to the end. The cancel may come before any
  chunk; a number says before which.\<close>

fun copy_stream :: "nat option \<Rightarrow> stream \<Rightarrow> octet_string \<Rightarrow> (upgrade_error, unit) result \<times> octet_string" where
  "copy_stream (Some 0) items w = (Inl Cancelled, w)"
| "copy_stream c [] w = (Inr (), w)"
| "copy_stream c (Inl e # rest) w = (Inl (UpIo e), w)"
| "copy_stream c (Inr bs # rest) w = copy_stream (map_option (\<lambda>n. n - 1) c) rest (w @ bs)"

definition open_truncated :: "path \<Rightarrow> fs \<Rightarrow> (io_error, unit) result \<times> fs" where
  "open_truncated p fs =
     (if map_of (fs_faults fs) p = Some Refused then (Inl OtherIo, fs) else (Inr (), fs_put p (NotUtf8 []) fs))"

definition copy_or_cancel :: "nat option \<Rightarrow> stream \<Rightarrow> path \<Rightarrow> fs \<Rightarrow> (upgrade_error, nat) result \<times> fs" where
  "copy_or_cancel cancel items p fs =
     (let (r, w) = copy_stream cancel items []
      in case map_of (fs_faults fs) p of
           Some (Full n) \<Rightarrow>
             if n < length w then (Inl (UpIo OtherIo), fs_put p (NotUtf8 (take n w)) fs)
             else (case r of Inl e \<Rightarrow> Inl e | Inr _ \<Rightarrow> Inr (length w), fs_put p (NotUtf8 w) fs)
         | _ \<Rightarrow> (case r of Inl e \<Rightarrow> Inl e | Inr _ \<Rightarrow> Inr (length w), fs_put p (NotUtf8 w) fs))"

section \<open>Parking an image\<close>

definition PARK_MOUNT :: string where "PARK_MOUNT = ''/mnt/sdcard''"
definition PARK_DIR :: string where "PARK_DIR = ''/mnt/sdcard/firmware''"

definition park_room :: "media \<Rightarrow> nat \<Rightarrow> (upgrade_error, unit) result" where
  "park_room md image_size =
     (case is_mount_point md PARK_MOUNT of
        Inl e \<Rightarrow> Inl (UpIo e)
      | Inr False \<Rightarrow> Inl (if card_inserted md then CardNotMounted else NoCard)
      | Inr True \<Rightarrow>
          (case md_statvfs md PARK_MOUNT of
             None \<Rightarrow> Inl CannotStat
           | Some stat \<Rightarrow>
               (let free = sv_blocks_available stat * sv_fragment_size stat
                in if free < image_size then Inl (NoSpaceFor free) else Inr ())))"

text \<open>Writing beside the target and renaming.\<close>

definition park_write :: "upgrade_env \<Rightarrow> nat option \<Rightarrow> stream \<Rightarrow> string \<Rightarrow> fs \<Rightarrow> (upgrade_error, unit) result \<times> fs" where
  "park_write env cancel items file_name fs =
     (let final = join_path PARK_DIR file_name; partial = join_path PARK_DIR (file_name @ ''.partial'')
      in case open_truncated partial fs of
           (Inl e, fs) \<Rightarrow> (Inl (UpIo e), fs)
         | (Inr _, fs) \<Rightarrow>
             (case copy_or_cancel cancel items partial fs of
                (Inl e, fs) \<Rightarrow> (Inl e, snd (fs_remove partial fs))
              | (Inr _, fs) \<Rightarrow>
                  if \<not> ue_sync_ok env then (Inl (UpIo OtherIo), fs)
                  else (case fs_rename partial final fs of
                          (Inl e, fs) \<Rightarrow> (Inl (UpIo e), fs)
                        | (Inr _, fs) \<Rightarrow> (Inr (), fs))))"

definition os_park :: "upgrade_env \<Rightarrow> nat option \<Rightarrow> data_transfer \<Rightarrow> catalog_state \<Rightarrow> (upgrade_error, unit) result \<times> catalog_state" where
  "os_park env cancel tr st =
     (case tr_file_name tr of
        None \<Rightarrow> (Inl NoFileName, st)
      | Some file_name \<Rightarrow>
          (case tr_size (ct_fs st) tr of
             None \<Rightarrow> (Inl NoSize, st)
           | Some image_size \<Rightarrow>
               (case tr_reader env (ct_fs st) tr of
                  Inl e \<Rightarrow> (Inl (UpIo e), st)
                | Inr items \<Rightarrow>
                    (case park_room (ue_media env) image_size of
                       Inl e \<Rightarrow> (Inl e, st)
                     | Inr _ \<Rightarrow>
                         (case fs_create_dir_all PARK_DIR (ct_fs st) of
                            (Inl e, fs) \<Rightarrow> (Inl (UpIo e), st\<lparr>ct_fs := fs\<rparr>)
                          | (Inr _, fs) \<Rightarrow>
                              (case park_write env cancel items file_name fs of
                                 (Inl e, fs) \<Rightarrow> (Inl e, st\<lparr>ct_fs := fs\<rparr>)
                               | (Inr _, fs) \<Rightarrow> (Inr (), invalidate (st\<lparr>ct_fs := fs\<rparr>))))))))"

section \<open>Installing an image\<close>

definition fs_remove_dir_all :: "string \<Rightarrow> fs \<Rightarrow> (io_error, unit) result \<times> fs" where
  "fs_remove_dir_all d fs =
     (if d \<in> set (fs_closed_dirs fs) then (Inl OtherIo, fs)
      else (Inr (), fs\<lparr>fs_names := filter (\<lambda>(p, _). \<not> path_starts_with (fst p) d) (fs_names fs)\<rparr>))"

text \<open>What the shell makes of the command line: it could not be run, or it ended well or not.\<close>

type_synonym shell = "string \<Rightarrow> fs \<Rightarrow> (io_error, bool) result \<times> fs"

definition path_text :: "path \<Rightarrow> string" where
  "path_text p = fst p @ ''/'' @ snd p"

definition os_update :: "upgrade_env \<Rightarrow> shell \<Rightarrow> nat option \<Rightarrow> string \<Rightarrow> string option \<Rightarrow> data_transfer \<Rightarrow> fs
    \<Rightarrow> (upgrade_error, unit) result \<times> fs" where
  "os_update env sh cancel now_text running tr fs =
     (case tr_file_name tr of
        None \<Rightarrow> (Inl NoFileName, fs)
      | Some file_name \<Rightarrow>
          (case tr_size fs tr of
             None \<Rightarrow> (Inl NoSize, fs)
           | Some image_size \<Rightarrow>
               (case tr_reader env fs tr of
                  Inl e \<Rightarrow> (Inl (UpIo e), fs)
                | Inr items \<Rightarrow>
                    (let staging_dir = select_staging_dir (ue_media env) image_size;
                         img = join_path staging_dir file_name
                     in case fs_create_dir_all staging_dir fs of
                          (Inl e, fs) \<Rightarrow> (Inl (UpIo e), fs)
                        | (Inr _, fs) \<Rightarrow>
                            (case open_truncated img fs of
                               (Inl e, fs) \<Rightarrow> (Inl (UpIo e), fs)
                             | (Inr _, fs) \<Rightarrow>
                                 (case copy_or_cancel cancel items img fs of
                                    (Inl e, fs) \<Rightarrow> (Inl e, fs)
                                  | (Inr _, fs) \<Rightarrow>
                                      (case sh (''osupdate '' @ path_text img) fs of
                                         (outcome, fs) \<Rightarrow>
                                           (case fs_remove_dir_all staging_dir fs of
                                              (Inl e, fs) \<Rightarrow> (Inl (UpIo e), fs)
                                            | (Inr _, fs) \<Rightarrow>
                                                (case outcome of
                                                   Inl e \<Rightarrow> (Inl (UpIo e), fs)
                                                 | Inr False \<Rightarrow> (Inl UpdateFailed, fs)
                                                 | Inr True \<Rightarrow>
                                                     (Inr (), snd (write_staged_note file_name now_text running fs)))))))))))"

section \<open>Writing a node\<close>

text \<open>The device a node presents: how many bytes it takes before it fails, and what it reads back.\<close>

record flash_device =
  fd_takes :: "nat option"
  fd_readback :: "octet_string \<Rightarrow> octet_string"
  fd_flush_ok :: bool

record flash_run =
  fr_script :: gadget_service
  fr_clock :: "nat \<Rightarrow> nat option"
  fr_load :: "node_id \<Rightarrow> (string, flash_device) result"
  fr_cancel_write :: "nat option"
  fr_cancel_check :: "nat option"
  fr_do_crc :: bool

text \<open>\<open>BmcApplication::node_in_flash\<close>; the drivers behind it are \<open>fr_load\<close>.\<close>

definition node_in_flash :: "flash_run \<Rightarrow> node_id \<Rightarrow> usb_route \<Rightarrow> bmc \<Rightarrow> (upgrade_error, flash_device) result \<times> bmc" where
  "node_in_flash fr node router b =
     (case reboot_into_usb (fr_script fr) (fr_clock fr) (fr_clock fr) node (Flashing node router) b of
        (Inl e, b) \<Rightarrow> (Inl (BmcFailed e), b)
      | (Inr _, b) \<Rightarrow>
          (case fr_load fr node of
             Inl e \<Rightarrow> (Inl (NoDevice e), b)
           | Inr dev \<Rightarrow> (Inr dev, b)))"

definition try_write_node :: "upgrade_env \<Rightarrow> nat option \<Rightarrow> stream \<Rightarrow> flash_device \<Rightarrow> (upgrade_error, octet_string \<times> u64) result" where
  "try_write_node env cancel items dev =
     (case copy_stream cancel items [] of
        (r, w) \<Rightarrow>
          (case fd_takes dev of
             Some n \<Rightarrow>
               if n < length w then Inl (UpIo OtherIo)
               else (case r of Inl e \<Rightarrow> Inl e | Inr _ \<Rightarrow> Inr (w, ue_crc64 env w))
           | None \<Rightarrow> (case r of Inl e \<Rightarrow> Inl e | Inr _ \<Rightarrow> Inr (w, ue_crc64 env w))))"

definition try_validate_crc :: "upgrade_env \<Rightarrow> nat option \<Rightarrow> u64 \<Rightarrow> octet_string \<Rightarrow> (upgrade_error, unit) result" where
  "try_validate_crc env cancel expected_crc on_device =
     (case copy_stream cancel [Inr on_device] [] of
        (Inl e, _) \<Rightarrow> Inl e
      | (Inr _, r) \<Rightarrow> if expected_crc \<noteq> ue_crc64 env r then Inl CrcMismatch else Inr ())"

definition flash_data :: "upgrade_env \<Rightarrow> flash_run \<Rightarrow> data_transfer \<Rightarrow> flash_device \<Rightarrow> fs \<Rightarrow> (upgrade_error, unit) result" where
  "flash_data env fr tr dev fs =
     (case tr_reader env fs tr of
        Inl e \<Rightarrow> Inl (UpIo e)
      | Inr items \<Rightarrow>
          (case try_write_node env (fr_cancel_write fr) items dev of
             Inl e \<Rightarrow> Inl e
           | Inr (written, written_crc) \<Rightarrow>
               if fr_do_crc fr
               then
                 if \<not> fd_flush_ok dev then Inl (UpIo OtherIo)
                 else try_validate_crc env (fr_cancel_check fr) written_crc (take (length written) (fd_readback dev written))
               else Inr ()))"

definition worker_restore :: "flash_run \<Rightarrow> node_id \<Rightarrow> bmc \<Rightarrow> unit app_result" where
  "worker_restore fr node b =
     and_then (activate_slot (fr_clock fr) (to_inverse_bitfield node) (to_bitfield node) b) (\<lambda>_ b.
     and_then (usb_boot node False b) (\<lambda>_ b.
     configure_usb (fr_script fr) (db_usb_config (bm_db b)) b))"

definition flash_node :: "upgrade_env \<Rightarrow> flash_run \<Rightarrow> data_transfer \<Rightarrow> fs \<Rightarrow> node_id \<Rightarrow> bmc \<Rightarrow> (upgrade_error, unit) result \<times> bmc" where
  "flash_node env fr tr fs node b =
     (case node_in_flash fr node RouteBmc b of
        (Inl e, b) \<Rightarrow> (Inl e, snd (worker_restore fr node b))
      | (Inr dev, b) \<Rightarrow>
          (let res = flash_data env fr tr dev fs
           in case worker_restore fr node b of
                (Inl e, b) \<Rightarrow> (Inl (BmcFailed e), b)
              | (Inr _, b) \<Rightarrow> (res, b)))"

section \<open>Facts about flashing\<close>

definition touches_only :: "node_id \<Rightarrow> bmc \<Rightarrow> bmc \<Rightarrow> bool" where
  "touches_only node b b' =
     (bmc_wf b' \<and> hw_faults (bm_hw b') = hw_faults (bm_hw b) \<and> db_usb_config (bm_db b') = db_usb_config (bm_db b)
      \<and> list_all (\<lambda>n. n \<noteq> node_index node \<longrightarrow>
           bit (db_activated (bm_db b')) n = bit (db_activated (bm_db b)) n
           \<and> hw_enable (bm_hw b') ! n = hw_enable (bm_hw b) ! n) [0..<4])"

lemma touches_only_refl: "bmc_wf b \<Longrightarrow> touches_only node b b"
  by (simp add: touches_only_def list_all_iff)

lemma touches_only_trans: "touches_only node a b \<Longrightarrow> touches_only node b c \<Longrightarrow> touches_only node a c"
  by (auto simp: touches_only_def list_all_iff)

lemma to_bitfield_not_zero: "to_bitfield node \<noteq> 0"
  using bit_to_bitfield [of node "node_index node"] by auto

lemma activate_touches:
  assumes "bmc_wf b" and "hw_faults (bm_hw b) = []"
  shows "\<exists>b'. activate_slot clock st (to_bitfield node) b = (Inr (), b') \<and> touches_only node b b'
    \<and> bit (db_activated (bm_db b')) (node_index node) = bit st (node_index node)
    \<and> hw_enable (bm_hw b') ! node_index node = of_bool (bit st (node_index node))"
proof -
  obtain b' where a: "activate_slot clock st (to_bitfield node) b = (Inr (), b')"
    using activate_slot_live [OF to_bitfield_not_zero assms(2)] by blast
  have "touches_only node b b'"
    using activate_slot_wf [OF a assms(1)] activate_slot_effect(1,5) [OF a] activate_slot_node(1,2) [OF a assms(1)]
    by (simp add: touches_only_def list_all_iff bit_to_bitfield)
  then show ?thesis
    using a activate_slot_node(1,2) [OF a assms(1) node_index_lt, of node] by (simp add: bit_to_bitfield)
qed

lemma keeps_touches: "keeps_power b b' \<Longrightarrow> db_usb_config (bm_db b') = db_usb_config (bm_db b) \<Longrightarrow> bmc_wf b \<Longrightarrow> touches_only node b b'"
  by (simp add: touches_only_def keeps_power_def hw_frame_def bmc_wf_def hw_wf_def list_all_iff)

lemma configure_usb_internal_db: "bm_db (snd (configure_usb_internal script config b)) = bm_db b"
  by (auto simp: configure_usb_internal_def on_hw_def and_then_def Let_def split_beta split: sum.splits prod.splits)

lemma configure_usb_same:
  "db_usb_config (bm_db (snd (configure_usb script (db_usb_config (bm_db b)) b))) = db_usb_config (bm_db b)"
  using configure_usb_internal_db [of script "db_usb_config (bm_db b)" b]
  by (auto simp: configure_usb_def and_then_def split: sum.splits prod.splits)

lemma and_then_touches:
  assumes "touches_only node b (snd r)"
    and "\<And>a b1. r = (Inr a, b1) \<Longrightarrow> touches_only node b1 (snd (f a b1))"
  shows "touches_only node b (snd (and_then r f))"
  using assms touches_only_trans by (cases r; cases "fst r") fastforce+

lemma touches_sound:
  "touches_only node b b' \<Longrightarrow> hw_faults (bm_hw b) = [] \<Longrightarrow> bmc_wf b' \<and> hw_faults (bm_hw b') = []"
  by (simp add: touches_only_def)

lemma boot_pins_touch: "bmc_wf b \<Longrightarrow> touches_only node b (snd (on_hw (set_usb_boot st k) b))"
  by (rule keeps_touches [OF usb_boot_keeps]) (simp_all add: on_hw_snd)

lemma reboot_touches:
  assumes "bmc_wf b" and "hw_faults (bm_hw b) = []"
  shows "touches_only node b (snd (reboot_into_usb script c1 c2 node config b))"
proof -
  obtain b1 where b1: "activate_slot c1 (NOT (to_bitfield node)) (to_bitfield node) b = (Inr (), b1)" "touches_only node b b1"
    using activate_touches [OF assms] by blast
  note s1 = touches_sound [OF b1(2) assms(2)]
  let ?c = "configure_usb_internal script config b1"
  have "touches_only node b1 (snd (and_then ?c (\<lambda>_ b. and_then (activate_slot c2 (to_bitfield node) (to_bitfield node) b) (\<lambda>_ b. clear_usb_boot b))))"
  proof (rule and_then_touches)
    show c: "touches_only node b1 (snd ?c)"
      by (rule keeps_touches [OF configure_usb_internal_keeps]) (use s1 in \<open>simp_all add: configure_usb_internal_db\<close>)
    fix a b2
    assume "?c = (Inr a, b2)"
    with c have s2: "bmc_wf b2 \<and> hw_faults (bm_hw b2) = []" using s1 by (simp add: touches_only_def)
    then obtain b3 where b3: "activate_slot c2 (to_bitfield node) (to_bitfield node) b2 = (Inr (), b3)" "touches_only node b2 b3"
      using activate_touches [of b2] by blast
    then have "touches_only node b3 (snd (clear_usb_boot b3))"
      using s2 touches_sound boot_pins_touch by (simp add: clear_usb_boot_def)
    with b3 show "touches_only node b2 (snd (and_then (activate_slot c2 (to_bitfield node) (to_bitfield node) b2) (\<lambda>_ b. clear_usb_boot b)))"
      using touches_only_trans by auto
  qed
  then show ?thesis using b1 touches_only_trans by (simp add: reboot_into_usb_def)
qed

lemma restore_outcome:
  assumes "bmc_wf b" and "hw_faults (bm_hw b) = []"
  shows "touches_only node b (snd (worker_restore fr node b))"
    and "\<not> bit (db_activated (bm_db (snd (worker_restore fr node b)))) (node_index node)"
    and "hw_enable (bm_hw (snd (worker_restore fr node b))) ! node_index node = 0"
proof -
  have off: "\<not> bit (to_inverse_bitfield node) (node_index node)"
    using bit_to_bitfield [of node "node_index node"] by (simp add: to_inverse_bitfield_def to_bitfield_def bit_simps)
  obtain b1 where b1: "activate_slot (fr_clock fr) (to_inverse_bitfield node) (to_bitfield node) b = (Inr (), b1)"
    "touches_only node b b1" "\<not> bit (db_activated (bm_db b1)) (node_index node)"
    "hw_enable (bm_hw b1) ! node_index node = 0"
    using activate_touches [OF assms, of "fr_clock fr" "to_inverse_bitfield node" node] off by auto
  let ?f = "\<lambda>_ b. configure_usb (fr_script fr) (db_usb_config (bm_db b)) b"
  let ?r = "and_then (usb_boot node False b1) ?f"
  have r: "snd (worker_restore fr node b) = snd ?r" using b1(1) by (simp add: worker_restore_def)
  have k: "keeps_power b1 (snd ?r)"
    by (rule and_then_keeps) (simp_all add: usb_boot_def usb_boot_keeps configure_usb_keeps)
  moreover have "db_usb_config (bm_db (snd ?r)) = db_usb_config (bm_db b1)"
  proof -
    have "bm_db (snd (usb_boot node False b1)) = bm_db b1" by (simp add: usb_boot_def Let_def on_hw_snd)
    moreover obtain r2 b2 where "usb_boot node False b1 = (r2, b2)" by (meson surj_pair)
    ultimately show ?thesis using configure_usb_same [of "fr_script fr" b2] by (cases r2) simp_all
  qed
  ultimately have t: "touches_only node b1 (snd ?r)"
    using keeps_touches touches_sound [OF b1(2) assms(2)] by blast
  then show "touches_only node b (snd (worker_restore fr node b))"
    unfolding r using b1(2) touches_only_trans by blast
  show "\<not> bit (db_activated (bm_db (snd (worker_restore fr node b)))) (node_index node)"
    and "hw_enable (bm_hw (snd (worker_restore fr node b))) ! node_index node = 0"
    unfolding r using k b1(3,4) by (simp_all add: keeps_power_def hw_frame_def)
qed

section \<open>Properties\<close>

text \<open>C5: writing a node leaves the board as it found it, except that the node is off. Whatever
  becomes of the transfer (no device, a failed or cancelled write, a wrong checksum, success),
  on a board whose lines work the node is off in the store and on its line afterwards, no other
  node was switched, and the USB configuration the store holds is the one it held before.\<close>

theorem flash_node_restores:
  assumes "bmc_wf b" and "hw_faults (bm_hw b) = []" and "flash_node env fr tr fs node b = (res, b')"
  shows "\<not> get_node_power node b' \<and> hw_enable (bm_hw b') ! node_index node = 0
    \<and> db_usb_config (bm_db b') = db_usb_config (bm_db b)
    \<and> (\<forall>n < 4. n \<noteq> node_index node \<longrightarrow>
         bit (db_activated (bm_db b')) n = bit (db_activated (bm_db b)) n
         \<and> hw_enable (bm_hw b') ! n = hw_enable (bm_hw b) ! n)"
proof -
  let ?b1 = "snd (node_in_flash fr node RouteBmc b)"
  have t1: "touches_only node b ?b1"
    using reboot_touches [OF assms(1,2), of node "fr_script fr" "fr_clock fr" "fr_clock fr" "Flashing node RouteBmc"]
    by (auto simp: node_in_flash_def split: prod.split sum.split)
  have b': "b' = snd (worker_restore fr node ?b1)"
    using assms(3) by (auto simp: flash_node_def Let_def split: prod.splits sum.splits)
  note s = touches_sound [OF t1 assms(2)]
  note o = restore_outcome [where b = ?b1 and fr = fr and node = node, folded b', OF conjunct1 [OF s] conjunct2 [OF s]]
  have "touches_only node b b'" using touches_only_trans [OF t1 o(1)] .
  moreover have "\<not> get_node_power node b'"
  proof -
    have "db_activated (bm_db b') AND to_bitfield node = 0"
      by (rule bit_word_eqI) (use o(2) in \<open>auto simp: bit_simps bit_to_bitfield\<close>)
    then show ?thesis by (simp add: get_node_power_def)
  qed
  ultimately show ?thesis using o(3) by (auto simp: touches_only_def list_all_iff)
qed

text \<open>a node that was written with its checksum reads back what the source delivered: the whole
  stream was read without an error, and the checksum of what the device gives back for as many
  bytes is the checksum of the stream.\<close>

theorem flash_node_checked:
  assumes "flash_node env fr tr fs node b = (Inr (), b')" and "fr_do_crc fr"
  shows "\<exists>items w dev. tr_reader env fs tr = Inr items \<and> copy_stream (fr_cancel_write fr) items [] = (Inr (), w)
    \<and> fr_load fr node = Inr dev \<and> ue_crc64 env (take (length w) (fd_readback dev w)) = ue_crc64 env w"
proof -
  obtain dev where d: "fr_load fr node = Inr dev" "flash_data env fr tr dev fs = Inr ()"
    using assms(1) by (auto simp: flash_node_def node_in_flash_def Let_def split: prod.splits sum.splits)
  obtain items w where "tr_reader env fs tr = Inr items" "copy_stream (fr_cancel_write fr) items [] = (Inr (), w)"
    "try_validate_crc env (fr_cancel_check fr) (ue_crc64 env w) (take (length w) (fd_readback dev w)) = Inr ()"
    using d(2) assms(2)
    by (auto simp: flash_data_def try_write_node_def split: prod.splits sum.splits option.splits if_splits)
  moreover have "copy_stream c [Inr x] [] = (Inr (), y) \<Longrightarrow> y = x" for c x y
    by (cases c; cases "the c") (auto split: if_splits elim: copy_stream.elims)
  ultimately show ?thesis using d(1) by (auto simp: try_validate_crc_def split: prod.splits sum.splits if_splits)
qed

section \<open>Parking\<close>

lemma split_path_join: "CHR ''/'' \<notin> set n \<Longrightarrow> split_path (d @ CHR ''/'' # n) = (d, n)"
proof -
  assume n: "CHR ''/'' \<notin> set n"
  have "takeWhile (\<lambda>c. c \<noteq> CHR ''/'') (rev n @ CHR ''/'' # rev d) = rev n"
    by (subst takeWhile_append2) (use n in auto)
  moreover have "dropWhile (\<lambda>c. c \<noteq> CHR ''/'') (rev n @ CHR ''/'' # rev d) = CHR ''/'' # rev d"
    by (subst dropWhile_append2) (use n in auto)
  ultimately show ?thesis by (simp add: split_path_def)
qed

lemma join_path_plain: "CHR ''/'' \<notin> set n \<Longrightarrow> join_path d n = (d, n)"
  using split_path_join [of n d] by (auto simp: join_path_def starts_with_iff)

lemma unshared_put: "fs_wf fs \<Longrightarrow> unshared fs p \<Longrightarrow> unshared (fs_put p c fs) p"
proof (cases "map_of (fs_names fs) p")
  case None
  assume wf: "fs_wf fs"
  have "map_of (fs_names fs) q \<noteq> Some (fs_next fs)" for q using fs_wf_lt [OF wf, of q] by auto
  with None show ?thesis by (auto simp: unshared_def aliased_def fs_exists_def fs_put_def dest: sym)
next
  case (Some i)
  moreover assume "unshared fs p"
  ultimately show ?thesis by (simp add: unshared_def aliased_def fs_exists_def fs_put_def)
qed

lemma put_only:
  assumes "fs_wf fs" and "unshared fs p"
  shows "fs_wf (fs_put p c fs)" and "unshared (fs_put p c fs) p"
    and "q \<noteq> p \<Longrightarrow> fs_inode (fs_put p c fs) q = fs_inode fs q"
  using assms fs_put_wf unshared_put fs_inode_put_other unsharedD by blast+

lemma copy_or_cancel_put:
  "copy_or_cancel cancel items p fs = (r, fs') \<Longrightarrow>
     \<exists>w. fs' = fs_put p (NotUtf8 w) fs \<and> (\<forall>n. r = Inr n \<longrightarrow> copy_stream cancel items [] = (Inr (), w) \<and> n = length w)"
  by (auto simp: copy_or_cancel_def Let_def split: prod.splits option.splits fault.splits sum.splits if_splits)

lemma park_write_outcome:
  assumes "fs_wf fs" and "unshared fs partial" and "CHR ''/'' \<notin> set name"
    and "partial = (PARK_DIR, name @ ''.partial'')" and "park_write env cancel items name fs = (r, fs')"
  shows "(\<forall>q. q \<noteq> partial \<and> q \<noteq> (PARK_DIR, name) \<longrightarrow> fs_inode fs' q = fs_inode fs q)
    \<and> (case r of
         Inl _ \<Rightarrow> fs_inode fs' (PARK_DIR, name) = fs_inode fs (PARK_DIR, name)
       | Inr _ \<Rightarrow> \<exists>w. copy_stream cancel items [] = (Inr (), w) \<and> fs_contents fs' (PARK_DIR, name) = Some (NotUtf8 w))"
proof -
  have paths: "join_path PARK_DIR name = (PARK_DIR, name)" "join_path PARK_DIR (name @ ''.partial'') = partial"
    "(PARK_DIR, name) \<noteq> partial"
    using assms(3,4) by (simp_all add: join_path_plain)
  show ?thesis
  proof (cases "open_truncated partial fs")
    case (Pair o1 fs1)
    show ?thesis
    proof (cases o1)
      case (Inl e)
      then show ?thesis using Pair assms(5) paths by (auto simp: park_write_def open_truncated_def split: if_splits)
    next
      case (Inr u)
      then have fs1: "fs1 = fs_put partial (NotUtf8 []) fs" using Pair by (auto simp: open_truncated_def split: if_splits)
      note p1 = put_only [OF assms(1,2), where c = "NotUtf8 []", folded fs1]
      obtain c fs2 where c: "copy_or_cancel cancel items partial fs1 = (c, fs2)" by (meson surj_pair)
      then obtain w where w: "fs2 = fs_put partial (NotUtf8 w) fs1"
        "\<And>n. c = Inr n \<Longrightarrow> copy_stream cancel items [] = (Inr (), w)" using copy_or_cancel_put [OF c] by auto
      have p2: "fs_wf fs2" "q \<noteq> partial \<Longrightarrow> fs_inode fs2 q = fs_inode fs q" for q
        using put_only(1) [OF p1(1,2), of "NotUtf8 w"] put_only(3) [OF p1(1,2), of q "NotUtf8 w"] p1(3) [of q] w(1)
        by simp_all
      have in2: "fs_contents fs2 partial = Some (NotUtf8 w)" using w(1) by (simp add: fs_contents_def fs_inode_put)
      show ?thesis
      proof (cases c)
        case (Inl e)
        then have "r = Inl e" "fs' = snd (fs_remove partial fs2)"
          using assms(5) Pair \<open>o1 = Inr u\<close> c paths by (auto simp: park_write_def)
        then show ?thesis using p2 paths(3) fs_inode_remove_other [of _ partial fs2] by auto
      next
        case (Inr n)
        note ok = w(2) [OF this]
        show ?thesis
        proof (cases "ue_sync_ok env")
          case True
          obtain m fs3 where m: "fs_rename partial (PARK_DIR, name) fs2 = (m, fs3)" by (meson surj_pair)
          have other: "q \<noteq> partial \<and> q \<noteq> (PARK_DIR, name) \<Longrightarrow> fs_inode fs3 q = fs_inode fs q" for q
            using fs_inode_rename_other [of q partial "(PARK_DIR, name)" fs2] m p2(2) [of q] by simp
          have res: "fs' = fs3" "r = (case m of Inl e \<Rightarrow> Inl (UpIo e) | Inr _ \<Rightarrow> Inr ())"
            using assms(5) Pair \<open>o1 = Inr u\<close> c Inr m True paths by (auto simp: park_write_def split: sum.splits)
          show ?thesis
          proof (cases m)
            case (Inl e)
            then have "fs3 = fs2" using m fs_rename_err [of partial "(PARK_DIR, name)" fs2 e fs3] by simp
            then show ?thesis using Inl res other p2(2) [OF paths(3)] by auto
          next
            case (Inr x)
            then have "fs_inode fs3 (PARK_DIR, name) = fs_inode fs2 partial" using m fs_rename_ok by (cases x) auto
            then show ?thesis using res other Inr in2 ok by (auto simp: fs_contents_def)
          qed
        next
          case False
          then show ?thesis using assms(5) Pair \<open>o1 = Inr u\<close> c Inr paths p2 by (auto simp: park_write_def)
        qed
      qed
    qed
  qed
qed

lemma stem_append: "CHR ''.'' \<notin> set e \<Longrightarrow> stem (n @ CHR ''.'' # e) = n"
  by (induction n) auto

lemma os_park_cases:
  assumes "tr_file_name tr = Some name"
  shows "(\<exists>e. os_park env cancel tr st = (Inl e, st))
    \<or> (\<exists>items w fs2. tr_reader env (ct_fs st) tr = Inr items \<and> park_write env cancel items name (ct_fs st) = (w, fs2)
         \<and> os_park env cancel tr st = (w, case w of Inl _ \<Rightarrow> st\<lparr>ct_fs := fs2\<rparr> | Inr _ \<Rightarrow> invalidate (st\<lparr>ct_fs := fs2\<rparr>)))"
proof (cases "tr_size (ct_fs st) tr")
  case (Some n)
  note size = this
  show ?thesis
  proof (cases "tr_reader env (ct_fs st) tr")
    case (Inr items)
    show ?thesis
    proof (cases "park_room (ue_media env) n")
      case (Inr u)
      obtain w fs2 where "park_write env cancel items name (ct_fs st) = (w, fs2)" by (meson surj_pair)
      with Inr size \<open>tr_reader env (ct_fs st) tr = Inr items\<close> assms show ?thesis
        by (cases w) (simp_all add: os_park_def fs_create_dir_all_def)
    qed (use Inr size assms in \<open>simp add: os_park_def\<close>)
  qed (use size assms in \<open>simp add: os_park_def\<close>)
qed (use assms in \<open>simp add: os_park_def\<close>)

text \<open>C8: parking an image under a name without a slash is all or nothing, where no other name of the
  file system leads to the file of its partial copy. When it succeeds the card holds, under the
  image's name, exactly what the source delivered up to its end, and the catalogue knows it is
  out of date; when it fails, for whatever reason and at whatever point, every file except the
  partial one is what it was, and the partial one is not a name the catalogue lists. An absolute
  name is not held on the card (lemma \<open>park_leaves_the_card\<close>), and what the source delivered
  may be less than was announced (lemma \<open>empty_image_parked\<close>).\<close>

theorem os_park_outcome:
  assumes "tr_file_name tr = Some name" and "CHR ''/'' \<notin> set name" and "fs_wf (ct_fs st)"
    and "unshared (ct_fs st) (PARK_DIR, name @ ''.partial'')" and "os_park env cancel tr st = (r, st')"
  shows "(\<forall>q. q \<noteq> (PARK_DIR, name @ ''.partial'') \<and> q \<noteq> (PARK_DIR, name) \<longrightarrow>
            fs_inode (ct_fs st') q = fs_inode (ct_fs st) q)
    \<and> extension (name @ ''.partial'') \<noteq> Some ''tpu''
    \<and> (case r of
         Inl _ \<Rightarrow> fs_inode (ct_fs st') (PARK_DIR, name) = fs_inode (ct_fs st) (PARK_DIR, name) \<and> ct_cache st' = ct_cache st
       | Inr _ \<Rightarrow>
           (\<exists>items w. tr_reader env (ct_fs st) tr = Inr items \<and> copy_stream cancel items [] = (Inr (), w)
              \<and> fs_contents (ct_fs st') (PARK_DIR, name) = Some (NotUtf8 w))
           \<and> (\<forall>c. ct_cache st' = Some c \<longrightarrow> cd_stale c))"
proof -
  have ext: "extension (name @ ''.partial'') \<noteq> Some ''tpu''"
    using stem_append [of "''partial''" name] by (simp add: extension_def)
  from os_park_cases [OF assms(1), of env cancel st] show ?thesis
  proof
    assume "\<exists>e. os_park env cancel tr st = (Inl e, st)"
    with ext assms(5) show ?thesis by auto
  next
    assume "\<exists>items w fs2. tr_reader env (ct_fs st) tr = Inr items \<and> park_write env cancel items name (ct_fs st) = (w, fs2)
      \<and> os_park env cancel tr st = (w, case w of Inl _ \<Rightarrow> st\<lparr>ct_fs := fs2\<rparr> | Inr _ \<Rightarrow> invalidate (st\<lparr>ct_fs := fs2\<rparr>))"
    then obtain items w fs2 where t: "tr_reader env (ct_fs st) tr = Inr items"
      "park_write env cancel items name (ct_fs st) = (w, fs2)" "r = w"
      "st' = (case w of Inl _ \<Rightarrow> st\<lparr>ct_fs := fs2\<rparr> | Inr _ \<Rightarrow> invalidate (st\<lparr>ct_fs := fs2\<rparr>))"
      using assms(5) by auto
    note o = park_write_outcome [OF assms(3,4,2) refl t(2)]
    with ext t(1,3,4) show ?thesis by (cases w) (auto simp: invalidate_def)
  qed
qed

text \<open>C9: an image with a published hash is what the hash says. Whatever chunks the source yields, in
  whatever sizes, with empty ones and errors between them, a copy that comes to its end has
  read bytes with exactly that hash.\<close>

theorem checked_stream:
  assumes "copy_stream cancel (sha256_stream env expected [] items) [] = (Inr (), w)"
  shows "ue_sha256 env w = expected"
proof -
  have "copy_stream c (sha256_stream env expected seen items) seen = (Inr (), w) \<Longrightarrow> ue_sha256 env w = expected" for c seen
  proof (induction items arbitrary: c seen)
    case Nil
    then show ?case by (cases "(c, sha256_stream env expected seen [], seen)" rule: copy_stream.cases) (auto split: if_splits)
  next
    case (Cons i items)
    have live: "c \<noteq> Some 0" using Cons.prems by (cases "c = Some 0") auto
    show ?case
    proof (cases i)
      case (Inl e)
      then show ?thesis using Cons.prems live
        by (cases "(c, sha256_stream env expected seen (i # items), seen)" rule: copy_stream.cases) auto
    next
      case (Inr bs)
      show ?thesis
      proof (cases "bs = []")
        case True
        with Inr Cons.prems live show ?thesis
          by (cases "(c, sha256_stream env expected seen (i # items), seen)" rule: copy_stream.cases) (auto split: if_splits)
      next
        case False
        with Inr Cons.prems live have "copy_stream (map_option (\<lambda>n. n - 1) c) (sha256_stream env expected (seen @ bs) items) (seen @ bs) = (Inr (), w)"
          by (cases "(c, sha256_stream env expected seen (i # items), seen)" rule: copy_stream.cases) auto
        then show ?thesis by (rule Cons.IH)
      qed
    qed
  qed
  then show ?thesis using assms by blast
qed

definition card_media :: media where
  "card_media =
     \<lparr>md_dev = (\<lambda>p. Inr (if p = ''/mnt/sdcard'' then 2 else 1)),
      md_statvfs = (\<lambda>_. Some \<lparr>sv_read_only = False, sv_blocks_free = 1000, sv_blocks_available = 1000, sv_fragment_size = 4096\<rparr>),
      md_card_device = True\<rparr>"

definition demo_env :: upgrade_env where
  "demo_env = \<lparr>ue_media = card_media, ue_sha256 = (\<lambda>bs. take 2 bs), ue_crc64 = (\<lambda>bs. word_of_nat (length bs)), ue_xz = (\<lambda>s. s), ue_sync_ok = True\<rparr>"

theorem checked_stream_witness:
  "copy_stream None (sha256_stream demo_env [1, 2] [] [Inr [1], Inr [2, 3]]) [] = (Inr (), [1, 2, 3])
   \<and> ue_sha256 demo_env [1, 2, 3] = [1, 2]"
proof -
  have c: "copy_stream None (sha256_stream demo_env [1, 2] [] [Inr [1], Inr [2, 3]]) [] = (Inr (), [1, 2, 3])"
    by (simp add: demo_env_def)
  from checked_stream [OF c] c show ?thesis by simp
qed

lemma demo_room: "n \<le> 4096000 \<Longrightarrow> park_room card_media n = Inr ()"
  by (simp add: park_room_def is_mount_point_def path_parent_def PARK_MOUNT_def card_media_def Let_def)

lemma demo_plain: "build_reader_object env ''a.tpu'' None items = items"
  by (simp add: build_reader_object_def with_decompression_support_def path_file_name_def path_components_def
      split_on_def extension_def starts_with_def Let_def)

definition parked_card :: catalog_state where
  "parked_card = cold_state\<lparr>ct_cache := Some \<lparr>cd_at = 0, cd_value = demo_catalog ''5'', cd_ok = True,
     cd_retry_later_only = False, cd_stale = False\<rparr>\<rparr>"

lemma parked_card_ok:
  "fs_wf (ct_fs parked_card)" "unshared (ct_fs parked_card) p" "fs_closed_dirs (ct_fs parked_card) = []"
  "fs_faults (ct_fs parked_card) = []"
  by (simp_all add: parked_card_def cold_state_def empty_disk_def fs_wf_def unshared_def aliased_def fs_exists_def)

text \<open>On a card with room and a disk without faults, parking a plain stream succeeds.\<close>

lemma park_live:
  assumes "copy_stream cancel items [] = (Inr (), w)" and "n \<le> 4096000" and "ct_fs st = empty_disk"
  shows "\<exists>st'. os_park demo_env cancel (Remote ''a.tpu'' n items None) st = (Inr (), st')"
proof -
  have paths: "join_path PARK_DIR ''a.tpu'' = (PARK_DIR, ''a.tpu'')" "join_path PARK_DIR ''a.tpu.partial'' = (PARK_DIR, ''a.tpu.partial'')"
    by (simp_all add: join_path_plain)
  have "\<exists>fs'. park_write demo_env cancel items ''a.tpu'' empty_disk = (Inr (), fs')"
    using assms(1)
    by (simp add: park_write_def paths open_truncated_def copy_or_cancel_def fs_rename_def fs_put_def empty_disk_def
        demo_env_def Let_def)
  moreover have "ue_media demo_env = card_media" by (simp add: demo_env_def)
  moreover have "fs_create_dir_all PARK_DIR empty_disk = (Inr (), empty_disk)"
    by (simp add: fs_create_dir_all_def empty_disk_def)
  ultimately show ?thesis
    using assms(3) demo_room [OF assms(2)] by (auto simp: os_park_def demo_plain)
qed

theorem os_park_outcome_witness:
  "\<exists>st'. os_park demo_env None (Remote ''a.tpu'' 3 [Inr [1, 2], Inr [3]] None) parked_card = (Inr (), st')
     \<and> fs_contents (ct_fs st') (PARK_DIR, ''a.tpu'') = Some (NotUtf8 [1, 2, 3])"
proof -
  have c: "copy_stream None [Inr [1, 2], Inr [3]] [] = (Inr (), [1, 2, 3])" by simp
  obtain st' where p: "os_park demo_env None (Remote ''a.tpu'' 3 [Inr [1, 2], Inr [3]] None) parked_card = (Inr (), st')"
    using park_live [OF c, of 3 parked_card] by (auto simp: parked_card_def cold_state_def)
  from os_park_outcome [OF _ _ parked_card_ok(1,2) p, of "''a.tpu''"]
  have "fs_contents (ct_fs st') (PARK_DIR, ''a.tpu'') = Some (NotUtf8 [1, 2, 3])" by (simp add: demo_plain)
  with p show ?thesis by blast
qed

theorem flash_node_restores_witness:
  "\<exists>res b'. flash_node demo_env \<lparr>fr_script = (\<lambda>_ g. (True, g)), fr_clock = (\<lambda>_. Some 9), fr_load = (\<lambda>_. Inl ''no device''),
       fr_cancel_write = None, fr_cancel_check = None, fr_do_crc = True\<rparr>
       (Remote ''a.img'' 3 [] None) empty_disk Node1 (demo_bmc UsbMux) = (res, b')
     \<and> \<not> get_node_power Node1 b'"
proof -
  let ?fr = "\<lparr>fr_script = (\<lambda>_ g. (True, g)), fr_clock = (\<lambda>_. Some 9), fr_load = (\<lambda>_. Inl ''no device''),
       fr_cancel_write = None, fr_cancel_check = None, fr_do_crc = True\<rparr>"
  obtain res b' where "flash_node demo_env ?fr (Remote ''a.img'' 3 [] None) empty_disk Node1 (demo_bmc UsbMux) = (res, b')"
    by (meson surj_pair)
  from flash_node_restores [OF demo_bmc_wf this] this show ?thesis by blast
qed

section \<open>Where the code falls short\<close>

text \<open>nothing compares what arrived with what was announced. When the sender of an upload goes
  away early, as it does when the form is invalid, and no hash was given, the worker takes what
  it has for the whole: an empty image is parked under the image's name and the transfer
  counts as done.\<close>

theorem empty_image_parked:
  "let s = transfer_run streaming_new [TRequest (demo_context 1 True)];
       (answer, sent, s') = handle_file_upload 1 0 NoField s;
       (res, st') = os_park demo_env None (Remote ''a.tpu'' 100 [] None) parked_card
   in answer = FormInvalid \<and> \<not> is_cancelled 1 s' \<and> res = Inr ()
      \<and> fs_contents (ct_fs st') (PARK_DIR, ''a.tpu'') = Some (NotUtf8 [])
      \<and> ss_status (execute_worker (demo_context 1 True) (Inr took) s') = Done took 100"
proof -
  let ?s = "transfer_run streaming_new [TRequest (demo_context 1 True)]"
  have c: "copy_stream None ([] :: stream) [] = (Inr (), [])" by simp
  obtain st' where p: "os_park demo_env None (Remote ''a.tpu'' 100 [] None) parked_card = (Inr (), st')"
    using park_live [OF c, of 100 parked_card] by (auto simp: parked_card_def cold_state_def)
  have "fs_contents (ct_fs st') (PARK_DIR, ''a.tpu'') = Some (NotUtf8 [])"
  proof -
    from os_park_cases [of "Remote ''a.tpu'' 100 [] None" "''a.tpu''" demo_env None parked_card] p
    obtain fs2 where "park_write demo_env None [] ''a.tpu'' (ct_fs parked_card) = (Inr (), fs2)" "ct_fs st' = fs2"
      by (auto simp: demo_plain invalidate_def)
    with park_write_outcome [OF parked_card_ok(1,2) _ refl this(1)] show ?thesis by simp
  qed
  moreover obtain s' where "handle_file_upload 1 0 NoField ?s = (FormInvalid, 0, s')" "\<not> is_cancelled 1 s'"
    "ss_status s' = Transferring ((demo_context 1 True)\<lparr>tc_sender := False\<rparr>)"
    by (simp add: handle_file_upload_def take_sender_def request_transfer_def demo_context_def set_status_def
        streaming_new_def is_cancelled_def)
  ultimately show ?thesis
    using p by (simp add: Let_def execute_worker_def worker_store_def worker_result_def demo_context_def)
qed

text \<open>the name of an uploaded image is joined to the directory as it is. An absolute name replaces
  the directory, so an image parked under such a name is written there and not on the card.\<close>

theorem park_leaves_the_card:
  assumes "name = ''/etc/shadow''" and "fs_faults fs = []" and "fs_names fs = [((''/etc'', ''shadow''), i)]" and "i < fs_next fs"
    and "copy_stream cancel items [] = (Inr (), w)" and "ue_sync_ok env"
  shows "\<exists>fs'. park_write env cancel items name fs = (Inr (), fs')
    \<and> fs_contents fs' (''/etc'', ''shadow'') = Some (NotUtf8 w)"
proof -
  have paths: "join_path PARK_DIR name = (''/etc'', ''shadow'')" "join_path PARK_DIR (name @ ''.partial'') = (''/etc'', ''shadow.partial'')"
    by (simp_all add: assms(1) join_path_def starts_with_def split_path_def)
  show ?thesis
    using assms(2-6)
    by (simp add: park_write_def paths open_truncated_def copy_or_cancel_def fs_rename_def fs_put_def Let_def
        fs_contents_def fs_inode_def)
qed

theorem park_leaves_the_card_witness:
  "\<exists>fs'. park_write demo_env None [Inr [7]] ''/etc/shadow'' (fs_put (''/etc'', ''shadow'') (Utf8 ''root'') empty_disk) = (Inr (), fs')
     \<and> fs_contents fs' (''/etc'', ''shadow'') = Some (NotUtf8 [7])"
  using park_leaves_the_card [of "''/etc/shadow''" "fs_put (''/etc'', ''shadow'') (Utf8 ''root'') empty_disk" 0 None "[Inr [7]]" "[7]" demo_env]
  by (simp add: fs_put_def empty_disk_def demo_env_def)

text \<open>an installation whose copy fails leaves its partial image in the staging directory; the
  directory is removed only after the update command has run.\<close>

theorem failed_update_leaves_image:
  assumes "tr_file_name tr = Some name" and "tr_size fs tr = Some n" and "tr_reader env fs tr = Inr items"
    and "fs_faults fs = []" and "fs_closed_dirs fs = []" and "copy_stream cancel items [] = (Inl e, w)"
    and "img = join_path (select_staging_dir (ue_media env) n) name"
  shows "\<exists>fs'. os_update env sh cancel now_text running tr fs = (Inl e, fs')
    \<and> fs_contents fs' img = Some (NotUtf8 w)"
  using assms
  by (simp add: os_update_def fs_create_dir_all_def open_truncated_def copy_or_cancel_def Let_def fs_contents_def fs_inode_put)
    (simp add: fs_put_def fs_inode_def split: option.split)

end
