(* ===== verification/Legacy_Api.thy ===== *)
theory Legacy_Api
  imports Sdcard_Files Firmware_Info Upgrade_Worker
begin

text \<open>
  The legacy endpoint (\<open>api/legacy.rs\<close>, \<open>api/into_legacy_response.rs\<close>, \<open>api.rs\<close>) and the paths that
  reach the same handlers (\<open>api/paths.rs\<close>): how a request is routed, the table of operations,
  and the handlers that change the board. A query is the list of its parameters; an answer is
  a status with what it says, or a panic where the code panics. Errors of the layers below
  stay the values they are there.
\<close>

section \<open>Queries and answers\<close>

type_synonym query = "(string \<times> string) list"

definition contains_key :: "query \<Rightarrow> string \<Rightarrow> bool" where
  "contains_key q k = (map_of q k \<noteq> None)"

datatype legacy_message =
    Says string
  | SaysValue string string
  | OfApp string app_error
  | OfHostname hostname_error
  | OfNtp ntp_error
  | OfSources source_error
  | OfIo io_error
  | OfSdcard sdcard_error
  | AlreadyStaged string
  | OfUpdater string

datatype 'v legacy_response = Success "'v option" | LegacyError nat legacy_message | UartData string | Panicked

type_synonym 'v legacy_result = "(nat \<times> legacy_message, 'v) result"

definition bad_request :: "string \<Rightarrow> nat \<times> legacy_message" where
  "bad_request msg = (400, Says msg)"

text \<open>\<open>From<anyhow::Error>\<close>: a mistake of the caller is a 400, everything else a 500.\<close>

fun is_request_error :: "app_error \<Rightarrow> bool" where
  "is_request_error (CoolingFailed (NoSuchDevice _)) = True"
| "is_request_error (CoolingFailed (SpeedTooHigh _ _)) = True"
| "is_request_error (CoolingFailed (NoThermalZone _)) = True"
| "is_request_error _ = False"

definition of_anyhow :: "string \<Rightarrow> app_error \<Rightarrow> nat \<times> legacy_message" where
  "of_anyhow context e = (if is_request_error e then 400 else 500, OfApp context e)"

definition of_result :: "unit legacy_result \<Rightarrow> 'v legacy_response" where
  "of_result r = (case r of Inl (status, msg) \<Rightarrow> LegacyError status msg | Inr _ \<Rightarrow> Success None)"

definition of_app :: "string \<Rightarrow> unit app_result \<Rightarrow> 'v legacy_response \<times> bmc" where
  "of_app context r = (case r of (Inl e, b) \<Rightarrow> (of_result (Inl (of_anyhow context e)), b) | (Inr _, b) \<Rightarrow> (Success None, b))"

text \<open>The status line and the key the body stands under.\<close>

fun http_status :: "'v legacy_response \<Rightarrow> nat" where
  "http_status (Success _) = 200"
| "http_status (UartData _) = 200"
| "http_status (LegacyError status _) = status"
| "http_status Panicked = 500"

fun response_key :: "'v legacy_response \<Rightarrow> string" where
  "response_key (UartData _) = ''uart''"
| "response_key _ = ''result''"

section \<open>Routes\<close>

datatype http_verb = HGet | HPost

definition query_param :: "string \<Rightarrow> string \<Rightarrow> string option" where
  "query_param raw key =
     find_map (\<lambda>pair. case split_once (CHR ''='') pair of
                        None \<Rightarrow> None
                      | Some (name, v) \<Rightarrow> if name = key then Some v else None)
       (split_on (CHR ''&'') raw)"

definition is_transfer_request :: "string option \<Rightarrow> string \<Rightarrow> bool" where
  "is_transfer_request raw opt =
     (case raw of
        None \<Rightarrow> False
      | Some raw \<Rightarrow> query_param raw ''opt'' = Some opt
          \<and> query_param raw ''type'' \<in> {Some ''flash'', Some ''firmware''})"

definition set_node_info_guard :: "string option \<Rightarrow> bool" where
  "set_node_info_guard raw =
     (case raw of
        None \<Rightarrow> False
      | Some raw \<Rightarrow> query_param raw ''opt'' = Some ''set'' \<and> query_param raw ''type'' = Some ''node_info'')"

datatype legacy_handler = FlashStatus | TransferRequest | SetNodeAuxInfo | ApiEntry

definition legacy_route :: "http_verb \<Rightarrow> string option \<Rightarrow> legacy_handler option" where
  "legacy_route verb raw =
     (if verb = HGet \<and> is_transfer_request raw ''get'' then Some FlashStatus
      else if verb = HGet \<and> is_transfer_request raw ''set'' then Some TransferRequest
      else if verb = HPost \<and> set_node_info_guard raw then Some SetNodeAuxInfo
      else if verb = HGet then Some ApiEntry
      else None)"

datatype legacy_op =
    UsbBoot | ClearUsbBoot | GetFirmwareSlots | GetHealth | GetNetwork | ResetNetwork | SetNodeinfo
  | GetNodeinfo | GetNodeAuxInfo | NodeToMsd | GetSystemInformation | SetNodePower | GetNodePower
  | Reboot | ReloadSelf | ResetNode | FormatSdcard | GetSdcardInfo | ListSdcardFiles | GetUart | SetUart
  | SetUsbMode | GetUsbMode | SetNode1Usb | GetNode1Usb | GetInfo | GetCooling | SetCooling | GetThermal
  | GetAbout | GetUpdateCheck | GetFirmwareSources | SetFirmwareSources | GetFirmwareAvailable
  | InstallFirmware | GetNtp | SetNtp | GetHostname | SetHostname | GetConfig | SetConfig

text \<open>The table of \<open>dispatch_inner\<close>.\<close>

definition DISPATCH :: "((string \<times> bool) \<times> legacy_op) list" where
  "DISPATCH =
     [((''usb_boot'', True), UsbBoot), ((''clear_usb_boot'', True), ClearUsbBoot),
      ((''firmware_slots'', False), GetFirmwareSlots), ((''health'', False), GetHealth),
      ((''network'', False), GetNetwork), ((''network'', True), ResetNetwork),
      ((''nodeinfo'', True), SetNodeinfo), ((''nodeinfo'', False), GetNodeinfo),
      ((''node_info'', False), GetNodeAuxInfo), ((''node_to_msd'', True), NodeToMsd),
      ((''other'', False), GetSystemInformation), ((''power'', True), SetNodePower),
      ((''power'', False), GetNodePower), ((''reboot'', True), Reboot), ((''reload'', True), ReloadSelf),
      ((''reset'', True), ResetNode), ((''sdcard'', True), FormatSdcard), ((''sdcard'', False), GetSdcardInfo),
      ((''sdcard_files'', False), ListSdcardFiles), ((''uart'', False), GetUart), ((''uart'', True), SetUart),
      ((''usb'', True), SetUsbMode), ((''usb'', False), GetUsbMode), ((''usb_node1'', True), SetNode1Usb),
      ((''usb_node1'', False), GetNode1Usb), ((''info'', False), GetInfo), ((''cooling'', False), GetCooling),
      ((''cooling'', True), SetCooling), ((''thermal'', False), GetThermal), ((''about'', False), GetAbout),
      ((''update_check'', False), GetUpdateCheck), ((''firmware_sources'', False), GetFirmwareSources),
      ((''firmware_sources'', True), SetFirmwareSources), ((''firmware_available'', False), GetFirmwareAvailable),
      ((''firmware_install'', True), InstallFirmware), ((''ntp'', False), GetNtp), ((''ntp'', True), SetNtp),
      ((''hostname'', False), GetHostname), ((''hostname'', True), SetHostname), ((''config'', False), GetConfig),
      ((''config'', True), SetConfig)]"

definition dispatch_inner :: "string \<Rightarrow> bool \<Rightarrow> legacy_op legacy_result" where
  "dispatch_inner ty is_set =
     (case map_of DISPATCH (ty, is_set) of
        Some op \<Rightarrow> Inr op
      | None \<Rightarrow> Inl (400, SaysValue ''Invalid `type` parameter '' ty))"

text \<open>\<open>api_entry\<close>: which operation a query asks for, and whether the call is one that the audit log
  records.\<close>

definition api_entry :: "query \<Rightarrow> (legacy_op \<times> bool) legacy_result" where
  "api_entry q =
     (case map_of q ''opt'' of
        Some opt \<Rightarrow>
          if opt = ''set'' \<or> opt = ''get''
          then (case map_of q ''type'' of
                  None \<Rightarrow> Inl (bad_request ''Missing `type` parameter'')
                | Some ty \<Rightarrow>
                    (case dispatch_inner ty (opt = ''set'') of
                       Inl e \<Rightarrow> Inl e
                     | Inr op \<Rightarrow> Inr (op, opt = ''set'')))
          else Inl (bad_request ''Missing `opt` parameter'')
      | None \<Rightarrow> Inl (bad_request ''Missing `opt` parameter''))"

section \<open>One path per operation\<close>

record path_alias =
  al_method :: http_verb
  al_path :: string
  al_ty :: string
  al_document_param :: "string option"

definition path_op :: "http_verb \<Rightarrow> string \<Rightarrow> string \<Rightarrow> path_alias" where
  "path_op m p t = \<lparr>al_method = m, al_path = p, al_ty = t, al_document_param = None\<rparr>"

definition ALIASES :: "path_alias list" where
  "ALIASES =
     [path_op HGet ''/about'' ''about'', path_op HGet ''/health'' ''health'', path_op HGet ''/thermal'' ''thermal'',
      path_op HGet ''/cooling'' ''cooling'', path_op HGet ''/network'' ''network'', path_op HGet ''/power'' ''power'',
      path_op HGet ''/nodes'' ''node_info'', path_op HGet ''/usb'' ''usb'', path_op HGet ''/sdcard'' ''sdcard'',
      path_op HGet ''/sdcard/files'' ''sdcard_files'', path_op HGet ''/info'' ''info'',
      path_op HGet ''/firmware/slots'' ''firmware_slots'', path_op HGet ''/firmware/sources'' ''firmware_sources'',
      path_op HGet ''/firmware/available'' ''firmware_available'', path_op HGet ''/firmware/check'' ''update_check'',
      path_op HGet ''/hostname'' ''hostname'', path_op HGet ''/ntp'' ''ntp'', path_op HGet ''/config'' ''config'',
      path_op HPost ''/power'' ''power'', path_op HPost ''/reset'' ''reset'', path_op HPost ''/reboot'' ''reboot'',
      path_op HPost ''/reload'' ''reload'', path_op HPost ''/usb'' ''usb'', path_op HPost ''/usb-boot'' ''usb_boot'',
      path_op HPost ''/usb-boot/clear'' ''clear_usb_boot'', path_op HPost ''/node-to-msd'' ''node_to_msd'',
      path_op HPost ''/network/reset'' ''network'', path_op HPost ''/sdcard/format'' ''sdcard'',
      path_op HPost ''/cooling'' ''cooling'', path_op HPost ''/hostname'' ''hostname'', path_op HPost ''/ntp'' ''ntp'',
      (path_op HPost ''/config'' ''config'')\<lparr>al_document_param := Some ''config''\<rparr>,
      (path_op HPost ''/firmware/sources'' ''firmware_sources'')\<lparr>al_document_param := Some ''sources''\<rparr>,
      path_op HPost ''/firmware/install'' ''firmware_install'']"

datatype json_text = JString string | JOther string

record body_readers =
  br_from_query :: "string \<Rightarrow> (string, query) result"
  br_json :: "string \<Rightarrow> (string, (string \<times> json_text) list option) result"
  br_to_string :: "(string \<times> json_text) list \<Rightarrow> string"

fun json_param :: "json_text \<Rightarrow> string" where
  "json_param (JString s) = s"
| "json_param (JOther s) = s"

definition body_params :: "body_readers \<Rightarrow> contents \<Rightarrow> string \<Rightarrow> string option \<Rightarrow> (string, query) result" where
  "body_params br body mime document_param =
     (if mime = ''application/x-www-form-urlencoded''
      then (case body of NotUtf8 _ \<Rightarrow> Inl ''the form body is not UTF-8'' | Utf8 text \<Rightarrow> br_from_query br text)
      else if mime = ''application/json''
      then (case body of
              NotUtf8 _ \<Rightarrow> Inl ''the JSON body could not be read''
            | Utf8 text \<Rightarrow>
                (case br_json br text of
                   Inl e \<Rightarrow> Inl e
                 | Inr None \<Rightarrow> Inl ''the JSON body must be an object''
                 | Inr (Some members) \<Rightarrow>
                     (case document_param of
                        Some key \<Rightarrow>
                          if map_of members key = None then Inr [(key, br_to_string br members)]
                          else Inr (map (\<lambda>(k, v). (k, json_param v)) members)
                      | None \<Rightarrow> Inr (map (\<lambda>(k, v). (k, json_param v)) members))))
      else if mime = [] then Inl ''a body needs a Content-Type''
      else Inl (mime @ '' is not accepted; send application/x-www-form-urlencoded or application/json''))"

fun or_insert :: "query \<Rightarrow> query \<Rightarrow> query" where
  "or_insert params [] = params"
| "or_insert params ((k, v) # rest) =
     or_insert (if map_of params k = None then params @ [(k, v)] else params) rest"

definition merge_body :: "body_readers \<Rightarrow> query \<Rightarrow> contents \<Rightarrow> string \<Rightarrow> string option \<Rightarrow> (string, query) result" where
  "merge_body br params body content_type document_param =
     (if contents_len body = 0 then Inr params
      else
        (let mime = trim (hd (split_on (CHR '';'') content_type))
         in case body_params br body mime document_param of
              Inl e \<Rightarrow> Inl e
            | Inr from_body \<Rightarrow> Inr (or_insert params from_body)))"

text \<open>\<open>handle\<close>: which operation a path asks for, with which parameters.\<close>

definition path_entry :: "body_readers \<Rightarrow> path_alias \<Rightarrow> query \<Rightarrow> contents \<Rightarrow> string
    \<Rightarrow> (legacy_op \<times> bool \<times> query) legacy_result" where
  "path_entry br al params body content_type =
     (let is_set = (al_method al = HPost)
      in case (if is_set then merge_body br params body content_type (al_document_param al) else Inr params) of
           Inl detail \<Rightarrow> Inl (400, Says detail)
         | Inr params \<Rightarrow>
             (case dispatch_inner (al_ty al) is_set of Inl e \<Rightarrow> Inl e | Inr op \<Rightarrow> Inr (op, is_set, params)))"

fun unwrap_status :: "'v legacy_response \<Rightarrow> nat" where
  "unwrap_status (Success None) = 204"
| "unwrap_status (Success (Some _)) = 200"
| "unwrap_status (UartData _) = 200"
| "unwrap_status (LegacyError status _) = status"
| "unwrap_status Panicked = 500"

section \<open>Handlers of the board\<close>

definition get_node_param :: "query \<Rightarrow> node_id legacy_result" where
  "get_node_param q =
     (case map_of q ''node'' of
        None \<Rightarrow> Inl (bad_request ''Missing `node` parameter'')
      | Some s \<Rightarrow>
          (case parse_i32 s of
             None \<Rightarrow> Inl (bad_request ''Parameter `node` is not a number'')
           | Some n \<Rightarrow>
               (case node_try_from_i32 n of
                  None \<Rightarrow> Inl (bad_request ''Parameter `node` is out of range 0..3 of node IDs'')
                | Some node \<Rightarrow> Inr node)))"

definition node_param_name :: "nat \<Rightarrow> string" where
  "node_param_name idx = ''node'' @ show_nat (idx + 1)"

fun power_params :: "query \<Rightarrow> nat list \<Rightarrow> u8 \<times> u8 \<Rightarrow> (u8 \<times> u8) legacy_result" where
  "power_params q [] (states, m) = Inr (states, m)"
| "power_params q (idx # rest) (states, m) =
     (case map_of q (node_param_name idx) of
        None \<Rightarrow> power_params q rest (states, m)
      | Some x \<Rightarrow>
          if x = ''0'' then power_params q rest (states, m OR push_bit idx 1)
          else if x = ''1'' then power_params q rest (states OR push_bit idx 1, m OR push_bit idx 1)
          else Inl (400, SaysValue (''Invalid value for parameter '' @ node_param_name idx) x))"

definition legacy_set_node_power :: "(nat \<Rightarrow> nat option) \<Rightarrow> query \<Rightarrow> bmc \<Rightarrow> 'v legacy_response \<times> bmc" where
  "legacy_set_node_power clock q b =
     (case power_params q [0..<4] (0, 0) of
        Inl (status, msg) \<Rightarrow> (LegacyError status msg, b)
      | Inr (states, m) \<Rightarrow> of_app ''set power state'' (activate_slot clock states m b))"

definition legacy_get_node_power :: "bmc \<Rightarrow> string list" where
  "legacy_get_node_power b =
     map (\<lambda>node. if get_node_power node b then ''1'' else ''0'') [Node1, Node2, Node3, Node4]"

definition legacy_reset_node :: "query \<Rightarrow> bmc \<Rightarrow> 'v legacy_response \<times> bmc" where
  "legacy_reset_node q b =
     (case get_node_param q of
        Inl (status, msg) \<Rightarrow> (LegacyError status msg, b)
      | Inr node \<Rightarrow> of_app [] (app_reset_node node b))"

definition legacy_usb_boot :: "query \<Rightarrow> bmc \<Rightarrow> 'v legacy_response \<times> bmc" where
  "legacy_usb_boot q b =
     (case get_node_param q of
        Inl (status, msg) \<Rightarrow> (LegacyError status msg, b)
      | Inr node \<Rightarrow> of_app [] (usb_boot node True b))"

definition legacy_clear_usb_boot :: "bmc \<Rightarrow> 'v legacy_response \<times> bmc" where
  "legacy_clear_usb_boot b = of_app ''clear USB boot mode'' (clear_usb_boot b)"

definition legacy_set_node1_usb :: "query \<Rightarrow> bmc \<Rightarrow> 'v legacy_response \<times> bmc" where
  "legacy_set_node1_usb q b = of_app [] (app_set_node1_usb_route (contains_key q ''alternative_port'') b)"

definition usb_config_of :: "node_id \<Rightarrow> usb_mode \<Rightarrow> usb_route \<Rightarrow> usb_config" where
  "usb_config_of node mode route =
     (case (mode, route) of
        (Device, AlternativePort) \<Rightarrow> UsbA node
      | (Device, RouteBmc) \<Rightarrow> UsbBmc node
      | (Host, route) \<Rightarrow> UsbNode node route
      | (Flash, route) \<Rightarrow> Flashing node route)"

definition legacy_set_usb_mode :: "gadget_service \<Rightarrow> query \<Rightarrow> bmc \<Rightarrow> 'v legacy_response \<times> bmc" where
  "legacy_set_usb_mode script q b =
     (case get_node_param q of
        Inl (status, msg) \<Rightarrow> (LegacyError status msg, b)
      | Inr node \<Rightarrow>
          (case map_of q ''mode'' of
             None \<Rightarrow> (LegacyError 400 (Says ''Missing `mode` parameter''), b)
           | Some mode_str \<Rightarrow>
               (case parse_i32 mode_str of
                  None \<Rightarrow> (LegacyError 400 (Says ''Parameter `mode` is not a number''), b)
                | Some mode_num \<Rightarrow>
                    (case from_api_mode mode_num of
                       None \<Rightarrow> (Panicked, b)
                     | Some mode \<Rightarrow>
                         (let route = (if (mode_num div 4) mod 2 = 1 then RouteBmc else AlternativePort)
                          in of_app ''set USB mode'' (configure_usb script (usb_config_of node mode route) b))))))"

definition legacy_set_cooling :: "(string \<Rightarrow> u64) \<Rightarrow> query \<Rightarrow> bmc \<Rightarrow> 'v legacy_response \<times> bmc" where
  "legacy_set_cooling hash q b =
     (case map_of q ''device'' of
        None \<Rightarrow> (LegacyError 400 (Says ''Missing `device` parameter''), b)
      | Some device \<Rightarrow>
          (let mode = map_of q ''mode''
           in if mode = Some ''auto'' then of_app ''return fan to governor'' (app_set_cooling_override device None b)
              else
                (case map_of q ''speed'' of
                   None \<Rightarrow> (LegacyError 400 (Says ''Missing `speed` parameter''), b)
                 | Some speed_str \<Rightarrow>
                     (case parse_u64 speed_str of
                        None \<Rightarrow> (LegacyError 400 (Says ''`speed` parameter is not a number''), b)
                      | Some speed \<Rightarrow>
                          (case mode of
                             None \<Rightarrow> of_app ''set Cooling state'' (app_set_cooling_speed hash device speed b)
                           | Some mode \<Rightarrow>
                               if mode = ''manual''
                               then of_app ''hold fan at step'' (app_set_cooling_override device (Some speed) b)
                               else (LegacyError 400 (SaysValue ''`mode`; expected `auto` or `manual`'' mode), b))))))"

section \<open>Handlers of the settings\<close>

definition legacy_set_hostname :: "query \<Rightarrow> fs \<Rightarrow> 'v legacy_response \<times> fs" where
  "legacy_set_hostname q fs =
     (case map_of q ''name'' of
        None \<Rightarrow> (LegacyError 400 (Says ''Missing `name` parameter''), fs)
      | Some name \<Rightarrow>
          (case hostname_set name fs of
             (Inl e, fs) \<Rightarrow> (LegacyError 400 (OfHostname e), fs)
           | (Inr _, fs) \<Rightarrow> (Success None, fs)))"

definition ntp_servers_of :: "string \<Rightarrow> string list" where
  "ntp_servers_of body = filter (\<lambda>s. s \<noteq> []) (map trim (split_on (CHR '','') body))"

definition legacy_set_ntp :: "child_output \<Rightarrow> query \<Rightarrow> fs \<Rightarrow> 'v legacy_response \<times> fs" where
  "legacy_set_ntp chronyc q fs =
     (case map_of q ''servers'' of
        None \<Rightarrow> (LegacyError 400 (Says ''Missing `servers` parameter''), fs)
      | Some body \<Rightarrow>
          (let servers = ntp_servers_of body
           in case ntp_validate_all servers of
                Inl e \<Rightarrow> (LegacyError 400 (OfNtp e), fs)
              | Inr _ \<Rightarrow>
                  (case ntp_store chronyc servers fs of
                     (Inr _, fs) \<Rightarrow> (Success None, fs)
                   | (Inl e, fs) \<Rightarrow> (LegacyError 500 (OfNtp e), fs))))"

definition legacy_set_firmware_sources :: "sources_json \<Rightarrow> bool \<Rightarrow> query \<Rightarrow> fs \<Rightarrow> sources legacy_response \<times> fs" where
  "legacy_set_firmware_sources js overlay q fs =
     (if \<not> overlay then (LegacyError 503 (Says ''no overlay mounted, so sources cannot be stored''), fs)
      else case map_of q ''sources'' of
             None \<Rightarrow> (LegacyError 400 (Says ''Missing `sources` parameter''), fs)
           | Some body \<Rightarrow>
               (case sj_read js body of
                  None \<Rightarrow> (LegacyError 400 (Says ''`sources` is not valid''), fs)
                | Some parsed \<Rightarrow>
                    (case sources_validate parsed of
                       Inl e \<Rightarrow> (LegacyError 400 (OfSources e), fs)
                     | Inr _ \<Rightarrow>
                         (case sources_store js parsed fs of
                            (Inr _, fs) \<Rightarrow> (Success (Some parsed), fs)
                          | (Inl e, fs) \<Rightarrow> (LegacyError 500 (OfIo e), fs)))))"

text \<open>\<open>install_firmware\<close> answers with what it would stage and runs the updater; the model shows the
  arguments it is run with.\<close>

definition install_args :: "source \<Rightarrow> string \<Rightarrow> query \<Rightarrow> string list option" where
  "install_args s version q =
     (let tail = (if contains_key q ''allow_downgrade'' then [''--allow-downgrade''] else [])
      in case sc_kind s of
           Github \<Rightarrow> Some ([''--tag'', version, ''--repo'', sc_location s] @ tail)
         | Http \<Rightarrow> Some ([''--tag'', version, ''--url'', sc_location s] @ tail)
         | Local \<Rightarrow> None)"

definition updater_answer :: "child_output \<Rightarrow> string \<Rightarrow> string \<Rightarrow> (string \<times> string) legacy_response" where
  "updater_answer out version source_id =
     (case out of
        ChildFailed e \<Rightarrow> LegacyError 500 (OfUpdater e)
      | ChildEnded ok _ err \<Rightarrow>
          if ok then Success (Some (version, source_id))
          else LegacyError 400 (OfUpdater (trim (if lines err = [] then ''no output'' else List.last (lines err)))))"

definition install_firmware :: "sources_json \<Rightarrow> firmware_host \<Rightarrow> string option \<Rightarrow> (string list \<Rightarrow> child_output)
    \<Rightarrow> query \<Rightarrow> fs \<Rightarrow> (string \<times> string) legacy_response \<times> string list option \<times> fs" where
  "install_firmware js fh version_now run q fs =
     (case map_of q ''source'' of
        None \<Rightarrow> (LegacyError 400 (Says ''Missing `source` parameter''), None, fs)
      | Some source_id \<Rightarrow>
          (case map_of q ''version'' of
             None \<Rightarrow> (LegacyError 400 (Says ''Missing `version` parameter''), None, fs)
           | Some version \<Rightarrow>
               (case sources_load js fs of
                  (ss, fs) \<Rightarrow>
                    (case List.find (\<lambda>s. sc_id s = source_id) ss of
                       None \<Rightarrow> (LegacyError 400 (SaysValue ''no source called'' source_id), None, fs)
                     | Some s \<Rightarrow>
                         if \<not> contains_key q ''force''
                            \<and> sl_update_staged (get_firmware_slots fh version_now fs) = Some True
                         then (LegacyError 409 (AlreadyStaged ''an update''), None, fs)
                         else (case install_args s version q of
                                 None \<Rightarrow> (LegacyError 400 (Says ''a local image is installed through opt=set&type=firmware with local=1''), None, fs)
                               | Some args \<Rightarrow> (updater_answer (run args) version source_id, Some args, fs))))))"

definition list_sdcard_files :: "vfs \<Rightarrow> query \<Rightarrow> sd_entry list legacy_response" where
  "list_sdcard_files fs q =
     (case sd_list fs SDCARD_ROOT (case map_of q ''path'' of Some p \<Rightarrow> p | None \<Rightarrow> []) of
        Inr entries \<Rightarrow> Success (Some entries)
      | Inl e \<Rightarrow>
          LegacyError (case e of OutsideRoot \<Rightarrow> 403 | SdNotFound \<Rightarrow> 404 | NotADirectory \<Rightarrow> 404 | NotMounted \<Rightarrow> 503 | SdIo _ \<Rightarrow> 500)
            (OfSdcard e))"

section \<open>Facts\<close>

lemma dispatch_total: "list_all (\<lambda>al. is_ok (dispatch_inner (al_ty al) (al_method al = HPost))) ALIASES"
  by code_simp

lemma aliases_distinct: "distinct (map (\<lambda>al. (al_method al, al_path al)) ALIASES)"
  by code_simp

lemma or_insert_lookup: "map_of (or_insert params extra) k = (case map_of params k of Some v \<Rightarrow> Some v | None \<Rightarrow> map_of extra k)"
proof (induction params extra rule: or_insert.induct)
  case (2 params k' v rest)
  then show ?case by (auto simp: map_add_Some_iff split: option.splits)
qed (simp split: option.split)

lemma power_params_bits:
  assumes "power_params q idxs (states, m) = Inr (states', m')" and "n < 8"
  shows "(bit m' n \<longleftrightarrow> bit m n \<or> n \<in> set idxs \<and> contains_key q (node_param_name n))
    \<and> (bit states' n \<longleftrightarrow> bit states n \<or> n \<in> set idxs \<and> map_of q (node_param_name n) = Some ''1'')"
  using assms(1)
proof (induction idxs arbitrary: states m)
  case (Cons i idxs)
  have b: "bit (push_bit i (1 :: u8)) n \<longleftrightarrow> n = i"
    using assms(2) by (auto simp: bit_simps)
  show ?case
  proof (cases "map_of q (node_param_name i)")
    case None
    then show ?thesis using Cons by (auto simp: contains_key_def)
  next
    case (Some x)
    then show ?thesis
      using Cons.prems Cons.IH [of states "m OR push_bit i 1"] Cons.IH [of "states OR push_bit i 1" "m OR push_bit i 1"] b
      by (auto simp: bit_or_iff contains_key_def split: if_splits)
  qed
qed simp

section \<open>Properties\<close>

text \<open>parameters in the address win over those of the body, and every other parameter of the
  body is there.\<close>

theorem url_wins:
  assumes "merge_body br params body content_type document_param = Inr q"
  shows "\<exists>from_body. map_of q k = (case map_of params k of Some v \<Rightarrow> Some v | None \<Rightarrow> map_of from_body k)
    \<and> (contents_len body \<noteq> 0 \<longrightarrow>
         body_params br body (trim (hd (split_on (CHR '';'') content_type))) document_param = Inr from_body)"
proof (cases "contents_len body = 0")
  case True
  then have "map_of q k = (case map_of params k of Some v \<Rightarrow> Some v | None \<Rightarrow> map_of ([] :: query) k)"
    using assms by (simp add: merge_body_def split: option.split)
  with True show ?thesis by blast
next
  case False
  then show ?thesis using assms by (auto simp: merge_body_def Let_def or_insert_lookup split: sum.splits)
qed

text \<open>C29: a power request that succeeds switches exactly the nodes it names, each to the state it
  names, in the store and on the line; every other node keeps what it had.\<close>

theorem power_request_exact:
  assumes "legacy_set_node_power clock q b = (Success None, b')" and "bmc_wf b" and "n < 4"
  shows "(case map_of q (node_param_name n) of
      None \<Rightarrow> bit (db_activated (bm_db b')) n = bit (db_activated (bm_db b)) n
        \<and> hw_enable (bm_hw b') ! n = hw_enable (bm_hw b) ! n
    | Some v \<Rightarrow> v \<in> {''0'', ''1''} \<and> bit (db_activated (bm_db b')) n = (v = ''1'')
        \<and> hw_enable (bm_hw b') ! n = of_bool (v = ''1''))"
proof -
  obtain states m where p: "power_params q [0..<4] (0, 0) = Inr (states, m)"
    and a: "activate_slot clock states m b = (Inr (), b')"
    using assms(1)
    by (auto simp: legacy_set_node_power_def of_app_def of_result_def of_anyhow_def split: sum.splits prod.splits)
  have bits: "bit m n \<longleftrightarrow> contains_key q (node_param_name n)" "bit states n \<longleftrightarrow> map_of q (node_param_name n) = Some ''1''"
    using power_params_bits [OF p, of n] assms(3) by auto
  have "v \<in> {''0'', ''1''}" if "map_of q (node_param_name n) = Some v" for v
  proof -
    have "power_params q idxs sm = Inr r \<Longrightarrow> n \<in> set idxs \<Longrightarrow> v \<in> {''0'', ''1''}" for idxs sm r
      using that by (induction q idxs sm rule: power_params.induct) (auto split: option.splits if_splits)
    then show ?thesis using p assms(3) by (metis atLeastLessThan_iff le0 set_upt)
  qed
  then show ?thesis
    using activate_slot_node(1,2) [OF a assms(2,3)] bits by (auto simp: contains_key_def split: option.splits)
qed

definition plain_readers :: body_readers where
  "plain_readers =
     \<lparr>br_from_query = (\<lambda>s. Inr (filter_map (split_once (CHR ''='')) (split_on (CHR ''&'') s))),
      br_json = (\<lambda>_. Inr None), br_to_string = (\<lambda>_. [])\<rparr>"

theorem url_wins_witness:
  "\<exists>q. merge_body plain_readers [(''node'', ''1'')] (Utf8 ''node=2&mode=0'') ''application/x-www-form-urlencoded; charset=utf-8'' None = Inr q
     \<and> map_of q ''node'' = Some ''1''"
proof -
  have "is_ok (merge_body plain_readers [(''node'', ''1'')] (Utf8 ''node=2&mode=0'')
      ''application/x-www-form-urlencoded; charset=utf-8'' None)" by code_simp
  then obtain q where q: "merge_body plain_readers [(''node'', ''1'')] (Utf8 ''node=2&mode=0'')
      ''application/x-www-form-urlencoded; charset=utf-8'' None = Inr q"
    by (cases "merge_body plain_readers [(''node'', ''1'')] (Utf8 ''node=2&mode=0'')
      ''application/x-www-form-urlencoded; charset=utf-8'' None") auto
  from url_wins [OF q, of "''node''"] q show ?thesis by auto
qed

theorem power_request_exact_witness:
  "\<exists>b'. legacy_set_node_power (\<lambda>_. Some 9) [(''node3'', ''1'')] (demo_bmc UsbMux) = (Success None, b')
     \<and> hw_enable (bm_hw b') ! 2 = 1"
proof -
  let ?q = "[(''node3'', ''1'')]"
  have names: "node_param_name 0 = ''node1''" "node_param_name 1 = ''node2''" "node_param_name 2 = ''node3''" "node_param_name 3 = ''node4''"
    unfolding node_param_name_def by (simp_all only: add_0 one_add_one numeral_plus_one semiring_norm) code_simp+
  have p: "power_params ?q [0..<4] (0, 0) = Inr (push_bit 2 1, push_bit 2 1)"
    using names by (simp add: upt_rec [of _ 4] numeral_eq_Suc)
  have nz: "push_bit 2 (1 :: u8) \<noteq> 0" by simp
  obtain b' where a: "activate_slot (\<lambda>_. Some 9) (push_bit 2 1) (push_bit 2 1) (demo_bmc UsbMux) = (Inr (), b')"
    using activate_slot_live [OF nz, of "demo_bmc UsbMux" "\<lambda>_. Some 9" "push_bit 2 1"] demo_bmc_wf by auto
  then have "legacy_set_node_power (\<lambda>_. Some 9) ?q (demo_bmc UsbMux) = (Success None, b')"
    unfolding legacy_set_node_power_def p by (simp add: of_app_def)
  from power_request_exact [OF this demo_bmc_wf(1), of 2] this show ?thesis using names by auto
qed

text \<open>C30: an installation from a source runs the updater over an update that is known to be staged for
  the next boot, which is one the U-Boot environment names when it is read, only when the
  caller forces it; and what it runs names a source the board has and the version the caller
  asked for. When the environment cannot be read, whether one is staged is not known, and the
  updater runs unforced (lemma \<open>unknown_staging_installs\<close>).\<close>

theorem install_keeps_staged:
  assumes "install_firmware js fh version_now run q fs = (r, Some args, fs')"
  shows "(contains_key q ''force''
          \<or> sl_update_staged (get_firmware_slots fh version_now fs') \<noteq> Some True
            \<and> (\<forall>nextboot err. fh_printenv fh = ChildEnded True nextboot err \<longrightarrow> trim nextboot = []))
    \<and> (\<exists>s version. s \<in> set (fst (sources_load js fs)) \<and> map_of q ''source'' = Some (sc_id s)
        \<and> map_of q ''version'' = Some version \<and> sc_kind s \<noteq> Local \<and> install_args s version q = Some args)"
proof -
  obtain sid version ss s where e: "map_of q ''source'' = Some sid" "map_of q ''version'' = Some version"
    "sources_load js fs = (ss, fs')" "List.find (\<lambda>s. sc_id s = sid) ss = Some s" "install_args s version q = Some args"
    "contains_key q ''force'' \<or> sl_update_staged (get_firmware_slots fh version_now fs') \<noteq> Some True"
    using assms by (auto simp: install_firmware_def split: option.splits prod.splits if_splits)
  moreover have "s \<in> set ss" "sc_id s = sid" using find_set [OF e(4)] by simp_all
  moreover have "sc_kind s \<noteq> Local" using e(5) by (auto simp: install_args_def)
  ultimately show ?thesis by (auto simp: update_staged_iff)
qed

lemma demo_install:
  assumes "sl_update_staged (get_firmware_slots fh None settings_fs) \<noteq> Some True"
  shows "install_firmware demo_json fh None (\<lambda>_. ChildEnded True [] []) [(''source'', ''turingpi''), (''version'', ''v1'')] settings_fs
    = (Success (Some (''v1'', ''turingpi'')), Some [''--tag'', ''v1'', ''--repo'', ''turing-machines/BMC-Firmware''], settings_fs)"
proof -
  have r: "sources_load demo_json settings_fs = (sources_default, settings_fs)"
    by (simp add: sources_load_def sources_read_def fs_read_to_string_def fs_read_def fs_inode_def settings_fs_def SOURCES_PATH_def
        LIVE_HOSTNAME_def HOSTNAME_FILE_def migrate_def migrate_source_def sources_default_def RETIRED_LOCATIONS_def
        FORK_LOCATION_def FORK_LABEL_def RETIRED_FORK_LABEL_def)
  obtain s where s: "List.find (\<lambda>s. sc_id s = ''turingpi'') sources_default = Some s" "sc_kind s = Github"
      "sc_location s = ''turing-machines/BMC-Firmware''"
    by (simp add: sources_default_def)
  then show ?thesis
    using assms by (simp add: install_firmware_def r install_args_def contains_key_def updater_answer_def)
qed

theorem install_keeps_staged_witness:
  "let fh = demo_firmware\<lparr>fh_printenv := ChildEnded False [] ''nextboot not defined''\<rparr>
   in sl_update_staged (get_firmware_slots fh None settings_fs) = Some False
      \<and> fst (snd (install_firmware demo_json fh None (\<lambda>_. ChildEnded True [] [])
           [(''source'', ''turingpi''), (''version'', ''v1'')] settings_fs))
        = Some [''--tag'', ''v1'', ''--repo'', ''turing-machines/BMC-Firmware'']
      \<and> (\<exists>s. s \<in> set (fst (sources_load demo_json settings_fs)) \<and> sc_id s = ''turingpi'')"
proof -
  let ?fh = "demo_firmware\<lparr>fh_printenv := ChildEnded False [] ''nextboot not defined''\<rparr>"
  have st: "sl_update_staged (get_firmware_slots ?fh None settings_fs) = Some False"
    by (simp add: get_firmware_slots_def demo_firmware_def read_nextboot_def read_volumes_def starts_with_def)
  then have i: "install_firmware demo_json ?fh None (\<lambda>_. ChildEnded True [] []) [(''source'', ''turingpi''), (''version'', ''v1'')] settings_fs
      = (Success (Some (''v1'', ''turingpi'')), Some [''--tag'', ''v1'', ''--repo'', ''turing-machines/BMC-Firmware''], settings_fs)"
    by (intro demo_install) simp
  from install_keeps_staged [OF i] i st show ?thesis by (auto simp: Let_def)
qed

text \<open>What the documentation of the slots says is not the same as nothing staged is treated as if it
  were: with an environment that cannot be read the updater runs, and nobody forced it.\<close>

lemma unknown_staging_installs:
  "sl_update_staged (get_firmware_slots demo_firmware None settings_fs) = None
   \<and> fst (snd (install_firmware demo_json demo_firmware None (\<lambda>_. ChildEnded True [] [])
        [(''source'', ''turingpi''), (''version'', ''v1'')] settings_fs))
     = Some [''--tag'', ''v1'', ''--repo'', ''turing-machines/BMC-Firmware'']"
proof -
  have "sl_update_staged (get_firmware_slots demo_firmware None settings_fs) = None"
    by (simp add: get_firmware_slots_def demo_firmware_def read_nextboot_def read_volumes_def)
  with demo_install [of demo_firmware] show ?thesis by simp
qed

text \<open>The modes of the USB table: a number whose two low bits are 3 (the modes 3 and 7 that the
  table of the handler lists) panics; every other number up to 7 selects the mode and the route
  the table gives it.\<close>

lemma usb_mode_table:
  "list_all (\<lambda>(m, mode, route). from_api_mode m = Some mode
       \<and> (if (m div 4) mod 2 = 1 then RouteBmc else AlternativePort) = route)
     [(0, Host, AlternativePort), (1, Device, AlternativePort), (2, Flash, AlternativePort),
      (4, Host, RouteBmc), (5, Device, RouteBmc), (6, Flash, RouteBmc)]"
  by (simp add: from_api_mode_def)

lemma usb_parts_of: "usb_parts (usb_config_of node mode route) = (node, mode, route)"
  by (cases mode; cases route) (simp_all add: usb_config_of_def usb_parts_def)

text \<open>the modes 3 and 7, which the table of the handler documents, make it panic; the board is
  left as it was.\<close>

theorem documented_usb_modes_panic:
  "list_all (\<lambda>mode. legacy_set_usb_mode script [(''node'', ''0''), (''mode'', mode)] b = (Panicked, b)) [''3'', ''7'']"
proof -
  have p: "parse_i32 ''0'' = Some 0" "parse_i32 ''3'' = Some 3" "parse_i32 ''7'' = Some 7"
    by (simp_all add: parse_i32_def parse_sint_def parse_uint_def dec_value_def is_ascii_digit_def)
  then show ?thesis
    by (simp add: legacy_set_usb_mode_def get_node_param_def node_try_from_i32_def node_try_from_u8_def from_api_mode_def)
qed

end
