(* ===== verification/Transfer_Api.thy ===== *)
theory Transfer_Api
  imports Legacy_Api
begin

text \<open>
  How a transfer is asked for (\<open>handle_transfer_request\<close> of \<open>api/legacy.rs\<close>, \<open>app/transfer_action.rs\<close>):
  the choice of what to do with an image, the refusal to write over a staged update, where the
  image comes from, and the hand-over to the transfer service. Hex decoding and the request for
  a URL are parameters; what a client will upload is the stream given to the call.
\<close>

section \<open>Where the image comes from\<close>

record transfer_env =
  te_hex_decode :: "string \<Rightarrow> octet_string option"
  te_fetch :: "string \<Rightarrow> octet_string option \<Rightarrow> data_transfer legacy_result"

definition flag :: "query \<Rightarrow> string \<Rightarrow> bool legacy_result" where
  "flag q name =
     (case map_of q name of
        None \<Rightarrow> Inr False
      | Some v \<Rightarrow>
          (let v = map to_ascii_lowercase v
           in if v \<in> {'''', ''1'', ''true'', ''yes'', ''on''} then Inr True
              else if v \<in> {''0'', ''false'', ''no'', ''off''} then Inr False
              else Inl (400, SaysValue ''Invalid value'' name)))"

definition is_url :: "string \<Rightarrow> bool" where
  "is_url file =
     (let lower = map to_ascii_lowercase file in starts_with ''http://'' lower \<or> starts_with ''https://'' lower)"

definition path_text_of :: "apath \<Rightarrow> string" where
  "path_text_of p = ''/'' @ join ''/'' p"

definition resolve_sdcard_file :: "vfs \<Rightarrow> string \<Rightarrow> bool \<Rightarrow> string \<Rightarrow> apath legacy_result" where
  "resolve_sdcard_file fs root mounted file =
     (if \<not> mounted then Inl (bad_request ''the microSD card is not mounted'')
      else if starts_with ''/'' file
      then Inl (bad_request ''`file` must be a path relative to the microSD card, not an absolute path'')
      else case resolve fs root file of
             Inl e \<Rightarrow> Inl (400, OfSdcard e)
           | Inr resolved \<Rightarrow>
               if \<not> is_vfile fs resolved then Inl (bad_request ''`file` is not a file on the microSD card'')
               else if (case canonicalize fs (components root) of
                          Inr r \<Rightarrow> prefix (r @ [UPGRADE_DIR_NAME]) resolved
                        | Inl _ \<Rightarrow> False)
               then Inl (bad_request ''`file` is in the firmware upgrade staging directory'')
               else Inr resolved)"

definition try_map_sha256 :: "transfer_env \<Rightarrow> string option \<Rightarrow> octet_string option legacy_result" where
  "try_map_sha256 te v =
     (case v of
        None \<Rightarrow> Inr None
      | Some sha256 \<Rightarrow>
          (case te_hex_decode te sha256 of
             None \<Rightarrow> Inl (400, SaysValue ''`sha256` parameter contains invalid hex values'' sha256)
           | Some bytes \<Rightarrow> Inr (Some bytes)))"

definition create_data_transfer_in :: "transfer_env \<Rightarrow> vfs \<Rightarrow> query \<Rightarrow> string \<Rightarrow> bool \<Rightarrow> stream \<Rightarrow> data_transfer legacy_result" where
  "create_data_transfer_in te fs q root mounted upload =
     (case map_of q ''file'' of
        None \<Rightarrow> Inl (bad_request ''Invalid `file` query parameter'')
      | Some file \<Rightarrow>
          (case try_map_sha256 te (map_of q ''sha256'') of
             Inl e \<Rightarrow> Inl e
           | Inr sha256 \<Rightarrow>
               (case flag q ''local'' of
                  Inl e \<Rightarrow> Inl e
                | Inr is_local \<Rightarrow>
                    (case flag q ''sdcard'' of
                       Inl e \<Rightarrow> Inl e
                     | Inr True \<Rightarrow>
                         if is_local then Inl (bad_request ''`sdcard` and `local` cannot be combined'')
                         else if is_url file then Inl (bad_request ''`sdcard` takes a path on the microSD card, not a url'')
                         else (case resolve_sdcard_file fs root mounted file of
                                 Inl e \<Rightarrow> Inl e
                               | Inr p \<Rightarrow> Inr (LocalFile (path_text_of p) sha256))
                     | Inr False \<Rightarrow>
                         if is_local then Inr (LocalFile file sha256)
                         else if is_url file then te_fetch te file sha256
                         else (case map_of q ''length'' of
                                 None \<Rightarrow> Inl (411, Says ''Invalid `length` query parameter'')
                               | Some len \<Rightarrow>
                                   (case parse_u64 len of
                                      None \<Rightarrow> Inl (bad_request ''`length` parameter is not a number'')
                                    | Some n \<Rightarrow> Inr (Remote file n upload sha256)))))))"

definition create_data_transfer :: "transfer_env \<Rightarrow> media \<Rightarrow> vfs \<Rightarrow> query \<Rightarrow> stream \<Rightarrow> data_transfer legacy_result" where
  "create_data_transfer te m fs q upload =
     create_data_transfer_in te fs q SDCARD_ROOT (is_mounted_or_false m SDCARD_ROOT) upload"

section \<open>The request\<close>

datatype upgrade_command = OsUpgrade | OsPark | Module node_id

definition choose_command :: "firmware_host \<Rightarrow> string option \<Rightarrow> query \<Rightarrow> fs \<Rightarrow> (string \<times> upgrade_command) legacy_result" where
  "choose_command fh version_now q fs =
     (case map_of q ''type'' of
        Some ty \<Rightarrow>
          if ty = ''firmware''
          then (if contains_key q ''park'' then Inr (''firmware park service'', OsPark)
                else
                  (let slots = get_firmware_slots fh version_now fs
                   in if \<not> contains_key q ''force'' \<and> sl_update_staged slots = Some True
                      then Inl (409, AlreadyStaged
                             (case Option.bind (sl_staged slots) st_version of Some v \<Rightarrow> v | None \<Rightarrow> ''an image''))
                      else Inr (''firmware upgrade service'', OsUpgrade)))
          else if ty = ''flash''
          then (case get_node_param q of
                  Inl e \<Rightarrow> Inl e
                | Inr node \<Rightarrow> Inr (''Node '' @ show_nat (node_index node + 1) @ '' os install service'', Module node))
          else Inl (bad_request ''`type` should equal 'firmware' or 'flash' '')
      | None \<Rightarrow> Inl (bad_request ''`type` should equal 'firmware' or 'flash' ''))"

fun has_sender :: "data_transfer \<Rightarrow> bool" where
  "has_sender (Remote _ _ _ _) = True"
| "has_sender _ = False"

record transfer_start =
  ts_command :: upgrade_command
  ts_data :: data_transfer
  ts_do_crc :: bool
  ts_context :: transfer_context

definition handle_transfer_request ::
  "transfer_env \<Rightarrow> firmware_host \<Rightarrow> media \<Rightarrow> string option \<Rightarrow> vfs \<Rightarrow> fs \<Rightarrow> u32 \<Rightarrow> nat \<Rightarrow> query \<Rightarrow> stream \<Rightarrow> streaming
     \<Rightarrow> transfer_start legacy_result \<times> streaming" where
  "handle_transfer_request te fh m version_now vfs fs handle token q upload s =
     (case choose_command fh version_now q fs of
        Inl e \<Rightarrow> (Inl e, s)
      | Inr (name, command) \<Rightarrow>
          (case create_data_transfer te m vfs q upload of
             Inl e \<Rightarrow> (Inl e, s)
           | Inr data \<Rightarrow>
               (case flag q ''skip_crc'' of
                  Inl e \<Rightarrow> (Inl e, s)
                | Inr skip_crc \<Rightarrow>
                    (case tr_size fs data of
                       None \<Rightarrow> (Inl (500, Says ''size''), s)
                     | Some n \<Rightarrow>
                         (let ctx = \<lparr>tc_id = handle, tc_process_name = name, tc_size = n, tc_sender = has_sender data,
                                     tc_token = token\<rparr>
                          in (Inr \<lparr>ts_command = command, ts_data = data, ts_do_crc = (\<not> skip_crc), ts_context = ctx\<rparr>,
                              request_transfer ctx s))))))"

section \<open>Facts\<close>

lemma flag_true: "flag q name = Inr True \<longleftrightarrow>
    (\<exists>v. map_of q name = Some v \<and> map to_ascii_lowercase v \<in> {'''', ''1'', ''true'', ''yes'', ''on''})"
  by (auto simp: flag_def Let_def split: option.splits)

lemma resolve_sdcard_file_ok:
  assumes "resolve_sdcard_file fs root mounted file = Inr p"
  shows "mounted \<and> is_vfile fs p \<and> real fs p
    \<and> (\<exists>r. canonicalize fs (components root) = Inr r \<and> prefix r p \<and> \<not> prefix (r @ [UPGRADE_DIR_NAME]) p)"
proof -
  have e: "mounted" "resolve fs root file = Inr p" "is_vfile fs p"
    "\<not> (case canonicalize fs (components root) of Inr r \<Rightarrow> prefix (r @ [UPGRADE_DIR_NAME]) p | Inl _ \<Rightarrow> False)"
    using assms by (auto simp: resolve_sdcard_file_def bad_request_def split: if_splits sum.splits)
  from resolve_under_root [OF e(2)] e show ?thesis by (auto split: sum.splits)
qed

section \<open>Properties\<close>

text \<open>C21: what a transfer request may start. A request that is refused leaves the running transfer
  alone. One that is accepted becomes the running transfer; it installs firmware over an update
  that is known to be staged for the next boot, which is one the U-Boot environment names when
  it is read, only if the caller forces it; an image named on the card is a file under the
  card's root, reached through no link and outside the directory an upgrade empties; and the
  checksum is left out only when the caller says so. When the environment cannot be read,
  whether one is staged is not known, and the request goes through unforced.\<close>

theorem transfer_request_guarded:
  assumes "handle_transfer_request te fh m version_now vfs fs handle token q upload s = (r, s')"
  shows "case r of
      Inl _ \<Rightarrow> s' = s
    | Inr t \<Rightarrow> ss_status s' = Transferring (ts_context t)
        \<and> (ts_command t = OsUpgrade \<longrightarrow> contains_key q ''force''
             \<or> sl_update_staged (get_firmware_slots fh version_now fs) \<noteq> Some True
               \<and> (\<forall>nextboot err. fh_printenv fh = ChildEnded True nextboot err \<longrightarrow> trim nextboot = []))
        \<and> (flag q ''sdcard'' = Inr True \<longrightarrow>
             (\<exists>p sha r. ts_data t = LocalFile (path_text_of p) sha \<and> real vfs p \<and> is_vfile vfs p
                \<and> canonicalize vfs (components SDCARD_ROOT) = Inr r \<and> prefix r p \<and> \<not> prefix (r @ [UPGRADE_DIR_NAME]) p))
        \<and> (ts_do_crc t \<longleftrightarrow> flag q ''skip_crc'' \<noteq> Inr True)"
proof (cases r)
  case (Inl e)
  then show ?thesis using assms
    by (auto simp: handle_transfer_request_def Let_def split: sum.splits option.splits)
next
  case (Inr t)
  obtain name skip n where c: "choose_command fh version_now q fs = Inr (name, ts_command t)"
    "create_data_transfer te m vfs q upload = Inr (ts_data t)" "flag q ''skip_crc'' = Inr skip"
    "ts_do_crc t = (\<not> skip)" "s' = request_transfer (ts_context t) s"
    using assms Inr by (auto simp: handle_transfer_request_def Let_def split: sum.splits option.splits)
  have "ts_command t = OsUpgrade \<Longrightarrow> contains_key q ''force'' \<or> sl_update_staged (get_firmware_slots fh version_now fs) \<noteq> Some True
      \<and> (\<forall>nextboot err. fh_printenv fh = ChildEnded True nextboot err \<longrightarrow> trim nextboot = [])"
    using c(1) by (auto simp: choose_command_def update_staged_iff Let_def split: option.splits if_splits sum.splits)
  moreover have "\<exists>p sha. ts_data t = LocalFile (path_text_of p) sha
      \<and> resolve_sdcard_file vfs SDCARD_ROOT (is_mounted_or_false m SDCARD_ROOT) (the (map_of q ''file'')) = Inr p"
    if "flag q ''sdcard'' = Inr True"
    using c(2) [symmetric] that
    by (auto simp: create_data_transfer_def create_data_transfer_in_def bad_request_def split: option.splits sum.splits if_splits)
  moreover have "ss_status s' = Transferring (ts_context t)" using c(5) by (simp add: request_transfer_def set_status_def)
  ultimately show ?thesis using c(3,4) Inr by (auto dest!: resolve_sdcard_file_ok)
qed

definition demo_transfer_env :: transfer_env where
  "demo_transfer_env = \<lparr>te_hex_decode = (\<lambda>_. None), te_fetch = (\<lambda>_ _. Inl (500, Says ''offline''))\<rparr>"

definition flash_query :: query where
  "flash_query = [(''type'', ''flash''), (''node'', ''2''), (''file'', ''here/os.img''), (''sdcard'', ''1'')]"

definition image_fs :: fs where
  "image_fs = fs_put (''/mnt/sdcard/images'', ''os.img'') (NotUtf8 [1, 2, 3, 4, 5]) settings_fs"

theorem transfer_request_guarded_witness:
  "\<exists>t s'. handle_transfer_request demo_transfer_env demo_firmware card_media None card_tree image_fs 7 1 flash_query [] streaming_new = (Inr t, s')
     \<and> ts_command t = Module Node3 \<and> ss_status s' = Transferring (ts_context t) \<and> ts_do_crc t
     \<and> (\<exists>p sha. ts_data t = LocalFile (path_text_of p) sha \<and> real card_tree p)"
proof -
  have node: "get_node_param flash_query = Inr Node3"
    by (simp add: get_node_param_def flash_query_def parse_i32_def parse_sint_def parse_uint_def dec_value_def is_ascii_digit_def
        node_try_from_i32_def node_try_from_u8_def)
  then have cmd: "choose_command demo_firmware None flash_query image_fs = Inr (''Node '' @ show_nat 3 @ '' os install service'', Module Node3)"
    by (simp add: choose_command_def) (simp add: flash_query_def)
  have mounted: "is_mounted_or_false card_media SDCARD_ROOT"
    by (simp add: is_mounted_or_false_def is_mount_point_def card_media_def SDCARD_ROOT_def path_parent_def)
  have res: "resolve_sdcard_file card_tree SDCARD_ROOT True ''here/os.img'' = Inr [''mnt'', ''sdcard'', ''images'', ''os.img'']"
    by code_simp
  have flags: "flag flash_query ''local'' = Inr False" "flag flash_query ''sdcard'' = Inr True" "flag flash_query ''skip_crc'' = Inr False"
    by (code_simp, code_simp, code_simp)
  have keys: "map_of flash_query ''file'' = Some ''here/os.img''" "map_of flash_query ''sha256'' = None"
    by (simp_all add: flash_query_def)
  have url: "\<not> is_url ''here/os.img''" by code_simp
  have data: "create_data_transfer demo_transfer_env card_media card_tree flash_query []
      = Inr (LocalFile (path_text_of [''mnt'', ''sdcard'', ''images'', ''os.img'']) None)"
    using mounted res flags url keys by (simp add: create_data_transfer_def create_data_transfer_in_def try_map_sha256_def)
  have size: "tr_size image_fs (LocalFile (path_text_of [''mnt'', ''sdcard'', ''images'', ''os.img'']) None) = Some 5"
    by (simp add: path_text_of_def split_path_def image_fs_def fs_read_def fs_inode_put)
      (simp add: settings_fs_def fs_put_def LIVE_HOSTNAME_def HOSTNAME_FILE_def)
  obtain t s' where h: "handle_transfer_request demo_transfer_env demo_firmware card_media None card_tree image_fs 7 1 flash_query [] streaming_new = (Inr t, s')"
    "ts_command t = Module Node3" "ts_do_crc t"
    by (simp add: handle_transfer_request_def cmd data flags size Let_def del: tr_size.simps)
  from transfer_request_guarded [OF h(1)] h flags show ?thesis by auto
qed

end
