(* ===== verification/Config_Export.thy ===== *)
theory Config_Export
  imports Board_Settings Firmware_Sources Bmc_Application
begin

text \<open>
  Everything a person has configured, as one document (\<open>app/config_export.rs\<close>): the export of a
  board and the import of a document, field by field, each with its own outcome. The parts are
  those of the other components: the name and the time sources, the firmware sources, and the
  settings of the nodes in the store.
\<close>

section \<open>Documents\<close>

definition FORMAT_VERSION :: nat where "FORMAT_VERSION = 1"

record node_settings =
  nset_id :: nat
  nset_name :: "string option"
  nset_module_name :: "string option"
  nset_uart_baud :: "nat option"

record export_origin =
  eo_hostname :: "string option"
  eo_board_serial :: "string option"
  eo_firmware :: "string option"

record config_export =
  ce_format_version :: nat
  ce_exported_at :: string
  ce_exported_from :: export_origin
  ce_hostname :: "string option"
  ce_ntp_servers :: "string list option"
  ce_firmware_sources :: "sources option"
  ce_nodes :: "node_settings list option"

datatype report_entry =
    AppliedHostname string
  | AppliedServers nat
  | AppliedSources nat
  | AppliedNodes nat
  | SkippedHostname
  | SkippedServers
  | SkippedSources
  | SkippedNodes
  | FailedHostname hostname_error
  | FailedServers ntp_error
  | FailedSources source_error
  | FailedSourcesIo io_error
  | FailedNodeIds "nat list"
  | FailedNodes app_error

record import_report =
  rp_applied :: "report_entry list"
  rp_skipped :: "report_entry list"
  rp_failed :: "report_entry list"

definition report_default :: import_report where
  "report_default = \<lparr>rp_applied = [], rp_skipped = [], rp_failed = []\<rparr>"

definition applied :: "report_entry \<Rightarrow> import_report \<Rightarrow> import_report" where
  "applied e r = r\<lparr>rp_applied := rp_applied r @ [e]\<rparr>"

definition skipped :: "report_entry \<Rightarrow> import_report \<Rightarrow> import_report" where
  "skipped e r = r\<lparr>rp_skipped := rp_skipped r @ [e]\<rparr>"

definition failed :: "report_entry \<Rightarrow> import_report \<Rightarrow> import_report" where
  "failed e r = r\<lparr>rp_failed := rp_failed r @ [e]\<rparr>"

section \<open>Export\<close>

definition node_settings_of :: "nat \<Rightarrow> node_info \<Rightarrow> node_settings" where
  "node_settings_of index info =
     \<lparr>nset_id = index + 1, nset_name = ni_name info, nset_module_name = ni_module_name info, nset_uart_baud = ni_uart_baud info\<rparr>"

definition export :: "sources_json \<Rightarrow> string \<Rightarrow> nat option \<Rightarrow> string option \<Rightarrow> string option \<Rightarrow> fs \<Rightarrow> bmc \<Rightarrow> config_export \<times> fs" where
  "export js at now serial firmware fs b =
     (let name = hostname_current fs;
          servers = ntp_load fs;
          (ss, fs) = sources_load js fs;
          nodes = (case get_node_infos now b of
                     Inr infos \<Rightarrow> Some (map (\<lambda>(i, info). node_settings_of i info) (enumerate 0 infos))
                   | Inl _ \<Rightarrow> None)
      in (\<lparr>ce_format_version = FORMAT_VERSION, ce_exported_at = at,
           ce_exported_from = \<lparr>eo_hostname = name, eo_board_serial = serial, eo_firmware = firmware\<rparr>,
           ce_hostname = name, ce_ntp_servers = (if servers \<noteq> [] then Some servers else None),
           ce_firmware_sources = Some ss, ce_nodes = nodes\<rparr>, fs))"

section \<open>Import\<close>

definition import_hostname :: "string option \<Rightarrow> import_report \<Rightarrow> fs \<Rightarrow> import_report \<times> fs" where
  "import_hostname name r fs =
     (case name of
        None \<Rightarrow> (skipped SkippedHostname r, fs)
      | Some name \<Rightarrow>
          (case hostname_set name fs of
             (Inr _, fs) \<Rightarrow> (applied (AppliedHostname name) r, fs)
           | (Inl e, fs) \<Rightarrow> (failed (FailedHostname e) r, fs)))"

definition import_servers :: "child_output \<Rightarrow> string list option \<Rightarrow> import_report \<Rightarrow> fs \<Rightarrow> import_report \<times> fs" where
  "import_servers chronyc servers r fs =
     (case servers of
        None \<Rightarrow> (skipped SkippedServers r, fs)
      | Some servers \<Rightarrow>
          (case ntp_store chronyc servers fs of
             (Inr _, fs) \<Rightarrow> (applied (AppliedServers (length servers)) r, fs)
           | (Inl e, fs) \<Rightarrow> (failed (FailedServers e) r, fs)))"

definition import_sources :: "sources_json \<Rightarrow> sources option \<Rightarrow> import_report \<Rightarrow> fs \<Rightarrow> import_report \<times> fs" where
  "import_sources js ss r fs =
     (case ss of
        None \<Rightarrow> (skipped SkippedSources r, fs)
      | Some ss \<Rightarrow>
          (case sources_validate ss of
             Inl e \<Rightarrow> (failed (FailedSources e) r, fs)
           | Inr _ \<Rightarrow>
               (case sources_store js ss fs of
                  (Inr _, fs) \<Rightarrow> (applied (AppliedSources (length ss)) r, fs)
                | (Inl e, fs) \<Rightarrow> (failed (FailedSourcesIo e) r, fs))))"

definition export_node_id :: "nat \<Rightarrow> node_id option" where
  "export_node_id n =
     (if n = 1 then Some Node1 else if n = 2 then Some Node2
      else if n = 3 then Some Node3 else if n = 4 then Some Node4 else None)"

definition imported_info :: "node_settings \<Rightarrow> node_info" where
  "imported_info s =
     \<lparr>ni_name = nset_name s, ni_module_name = nset_module_name s, ni_power_on_time = None, ni_uart_baud = nset_uart_baud s\<rparr>"

fun collect_nodes :: "node_settings list \<Rightarrow> (node_id \<times> node_info) list \<times> nat list \<Rightarrow> (node_id \<times> node_info) list \<times> nat list" where
  "collect_nodes [] acc = acc"
| "collect_nodes (s # rest) (infos, rejected) =
     (case export_node_id (nset_id s) of
        None \<Rightarrow> collect_nodes rest (infos, rejected @ [nset_id s])
      | Some i \<Rightarrow> collect_nodes rest (AList.update i (imported_info s) infos, rejected))"

definition import_nodes :: "node_settings list option \<Rightarrow> import_report \<Rightarrow> bmc \<Rightarrow> import_report \<times> bmc" where
  "import_nodes nodes r b =
     (case nodes of
        None \<Rightarrow> (skipped SkippedNodes r, b)
      | Some nodes \<Rightarrow>
          (let (infos, rejected) = collect_nodes nodes ([], []);
               r = (if rejected \<noteq> [] then failed (FailedNodeIds rejected) r else r)
           in if infos \<noteq> []
              then (case set_node_info infos b of
                      (Inr _, b) \<Rightarrow> (applied (AppliedNodes (length infos)) r, b)
                    | (Inl e, b) \<Rightarrow> (failed (FailedNodes e) r, b))
              else (r, b)))"

definition import_config :: "sources_json \<Rightarrow> child_output \<Rightarrow> config_export \<Rightarrow> fs \<Rightarrow> bmc
    \<Rightarrow> (nat, import_report) result \<times> fs \<times> bmc" where
  "import_config js chronyc document fs b =
     (if ce_format_version document \<noteq> FORMAT_VERSION then (Inl (ce_format_version document), fs, b)
      else
        (let (r, fs) = import_hostname (ce_hostname document) report_default fs;
             (r, fs) = import_servers chronyc (ce_ntp_servers document) r fs;
             (r, fs) = import_sources js (ce_firmware_sources document) r fs;
             (r, b) = import_nodes (ce_nodes document) r b
         in (Inr r, fs, b)))"

section \<open>Facts about files that stand apart\<close>

definition apart :: "path list \<Rightarrow> fs \<Rightarrow> bool" where
  "apart ps fs =
     (fs_wf fs \<and> list_all (\<lambda>p. p \<notin> set (fs_unreadable fs) \<and> list_all (\<lambda>q. p = q \<or> \<not> aliased fs p q) ps) ps)"

lemma apartD:
  assumes "apart ps fs" and "p \<in> set ps" and "q \<in> set ps" and "q \<noteq> p"
  shows "fs_wf fs" and "p \<notin> set (fs_unreadable fs)" and "\<not> aliased fs p q"
  using assms by (auto simp: apart_def list_all_iff)

lemma aliased_put_other:
  assumes "fs_wf fs" and "p \<noteq> q" and "r \<noteq> p" and "r \<noteq> q" and "\<not> aliased fs q r"
  shows "\<not> aliased (fs_put p c fs) q r"
  using assms by (auto simp: aliased_def fs_exists_def fs_put_def split: option.splits)

lemma aliased_sym: "aliased fs p q \<Longrightarrow> aliased fs q p"
  by (metis aliased_def fs_exists_def)

lemma apart_put:
  assumes "apart ps fs" and "p \<in> set ps"
  shows "apart ps (fs_put p c fs)"
proof -
  have wf: "fs_wf fs" using assms(1) by (simp add: apart_def)
  have "\<not> aliased (fs_put p c fs) q r" if "q \<in> set ps" "r \<in> set ps" "q \<noteq> r" for q r
  proof (cases "p = q \<or> p = r")
    case False
    then show ?thesis using aliased_put_other [OF wf, of p q r c] apartD(3) [OF assms(1) that(1,2)] that by auto
  next
    case True
    have "\<not> aliased (fs_put p c fs) s p" if "s \<in> set ps" "s \<noteq> p" for s
      using not_aliased_put [OF wf that(2)] apartD(3) [OF assms(1,2) that] by simp
    then have s: "\<not> aliased (fs_put p c fs) s p \<and> \<not> aliased (fs_put p c fs) p s" if "s \<in> set ps" "s \<noteq> p" for s
      using that aliased_sym by blast
    from True show ?thesis
    proof
      assume "p = q"
      then show ?thesis using s [of r] that by simp
    next
      assume "p = r"
      then show ?thesis using s [of q] that by simp
    qed
  qed
  then show ?thesis using assms(1) fs_put_wf [OF wf] by (auto simp: apart_def list_all_iff)
qed

lemma apart_read:
  assumes "apart ps fs" and "p \<in> set ps" and "q \<in> set ps" and "q \<noteq> p"
  shows "fs_read_to_string (fs_put p c fs) q = fs_read_to_string fs q"
  using read_put_other [OF apartD(1) [OF assms] assms(4) apartD(3) [OF assms]] .

section \<open>Facts about imports\<close>

definition SETTINGS :: "path list" where
  "SETTINGS = [HOSTNAME_FILE, LIVE_HOSTNAME, SOURCE_FILE, SOURCES_PATH]"

lemma SETTINGS_distinct:
  "HOSTNAME_FILE \<noteq> LIVE_HOSTNAME" "HOSTNAME_FILE \<noteq> SOURCE_FILE" "HOSTNAME_FILE \<noteq> SOURCES_PATH"
  "LIVE_HOSTNAME \<noteq> SOURCE_FILE" "LIVE_HOSTNAME \<noteq> SOURCES_PATH" "SOURCE_FILE \<noteq> SOURCES_PATH"
  by (simp_all add: HOSTNAME_FILE_def LIVE_HOSTNAME_def SOURCE_FILE_def SOURCES_PATH_def)

lemma SETTINGS_mem [simp]:
  "HOSTNAME_FILE \<in> set SETTINGS" "LIVE_HOSTNAME \<in> set SETTINGS" "SOURCE_FILE \<in> set SETTINGS" "SOURCES_PATH \<in> set SETTINGS"
  by (simp_all add: SETTINGS_def)

lemma import_hostname_ok:
  assumes "import_hostname name r fs = (r', fs')" and "rp_failed r' = []" and "apart SETTINGS fs"
  shows "rp_failed r = []" and "apart SETTINGS fs'"
    and "fs_read_to_string fs' SOURCE_FILE = fs_read_to_string fs SOURCE_FILE"
    and "fs_read_to_string fs' SOURCES_PATH = fs_read_to_string fs SOURCES_PATH"
    and "get_hostname fs' = (case name of Some n \<Rightarrow> (Some n, Some n) | None \<Rightarrow> get_hostname fs)"
proof -
  have "rp_failed r = [] \<and> apart SETTINGS fs'
    \<and> fs_read_to_string fs' SOURCE_FILE = fs_read_to_string fs SOURCE_FILE
    \<and> fs_read_to_string fs' SOURCES_PATH = fs_read_to_string fs SOURCES_PATH
    \<and> get_hostname fs' = (case name of Some n \<Rightarrow> (Some n, Some n) | None \<Rightarrow> get_hostname fs)"
  proof (cases name)
    case None
    then show ?thesis using assms by (auto simp: import_hostname_def skipped_def)
  next
    case (Some n)
    then have h: "hostname_set n fs = (Inr (), fs')" and r: "rp_failed r = []"
      using assms(1,2) by (auto simp: import_hostname_def applied_def failed_def split: prod.splits sum.splits)
    let ?fs1 = "fs_put HOSTNAME_FILE (Utf8 (n @ [newline])) fs"
    have v: "hostname_validate n = Inr ()" and fs': "fs' = fs_put LIVE_HOSTNAME (Utf8 n) ?fs1"
      using h by (auto simp: hostname_set_def fs_write_iff split: sum.splits prod.splits)
    have a1: "apart SETTINGS ?fs1" by (rule apart_put [OF assms(3)]) simp
    have a2: "apart SETTINGS fs'" unfolding fs' by (rule apart_put [OF a1]) simp
    have keep: "fs_read_to_string fs' q = fs_read_to_string fs q" if "q \<in> set SETTINGS" "q \<noteq> HOSTNAME_FILE" "q \<noteq> LIVE_HOSTNAME" for q
      using apart_read [OF a1 _ that(1,3)] apart_read [OF assms(3) _ that(1,2)] by (simp add: fs')
    have "fs_read_to_string fs' LIVE_HOSTNAME = Inr n"
      unfolding fs' using a1 by (intro read_put) (simp add: apart_def list_all_iff)
    moreover have "fs_read_to_string fs' HOSTNAME_FILE = Inr (n @ [newline])"
    proof -
      have "fs_read_to_string fs' HOSTNAME_FILE = fs_read_to_string ?fs1 HOSTNAME_FILE"
        unfolding fs' by (rule apart_read [OF a1]) (simp_all add: SETTINGS_distinct)
      also have "\<dots> = Inr (n @ [newline])" using assms(3) by (intro read_put) (simp add: apart_def list_all_iff)
      finally show ?thesis .
    qed
    ultimately have "get_hostname fs' = (Some n, Some n)"
      using hostname_trim [OF v] by (simp add: get_hostname_def hostname_current_def)
    then show ?thesis using r a2 keep Some SETTINGS_distinct by simp
  qed
  then show "rp_failed r = []" and "apart SETTINGS fs'"
    and "fs_read_to_string fs' SOURCE_FILE = fs_read_to_string fs SOURCE_FILE"
    and "fs_read_to_string fs' SOURCES_PATH = fs_read_to_string fs SOURCES_PATH"
    and "get_hostname fs' = (case name of Some n \<Rightarrow> (Some n, Some n) | None \<Rightarrow> get_hostname fs)" by simp_all
qed

lemma import_servers_ok:
  assumes "import_servers chronyc servers r fs = (r', fs')" and "rp_failed r' = []" and "apart SETTINGS fs"
    and "servers \<noteq> Some []"
  shows "rp_failed r = [] \<and> apart SETTINGS fs' \<and> get_hostname fs' = get_hostname fs
    \<and> fs_read_to_string fs' SOURCES_PATH = fs_read_to_string fs SOURCES_PATH
    \<and> ntp_load fs' = (case servers of Some ss \<Rightarrow> ss | None \<Rightarrow> ntp_load fs)"
proof (cases servers)
  case None
  then show ?thesis using assms by (auto simp: import_servers_def skipped_def)
next
  case (Some ss)
  then have s: "ntp_store chronyc ss fs = (Inr (), fs')" and r: "rp_failed r = []" and ne: "ss \<noteq> []"
    using assms(1,2,4) by (auto simp: import_servers_def applied_def failed_def split: prod.splits sum.splits)
  have v: "ntp_validate_all ss = Inr ()" and fs': "fs' = fs_put SOURCE_FILE (Utf8 (ntp_render ss)) fs"
    using s ne by (auto simp: ntp_store_def fs_create_dir_all_def fs_write_iff split: sum.splits prod.splits if_splits)
  have "ntp_load fs' = ss"
    using ntp_lines(2) [OF v] assms(3) unfolding ntp_load_def fs' by (subst read_put) (simp_all add: apart_def list_all_iff)
  moreover have "fs_read_to_string fs' q = fs_read_to_string fs q" if "q \<in> set SETTINGS" "q \<noteq> SOURCE_FILE" for q
    unfolding fs' by (rule apart_read [OF assms(3) _ that]) simp
  moreover have "apart SETTINGS fs'" unfolding fs' by (rule apart_put [OF assms(3)]) simp
  ultimately show ?thesis using r Some SETTINGS_distinct by (simp add: get_hostname_def hostname_current_def)
qed

lemma import_sources_ok:
  assumes "import_sources js ss r fs = (r', fs')" and "rp_failed r' = []" and "apart SETTINGS fs"
    and "\<And>xs body. sj_write js xs = Some body \<Longrightarrow> sj_read js body = Some xs"
  shows "rp_failed r = [] \<and> get_hostname fs' = get_hostname fs \<and> ntp_load fs' = ntp_load fs
    \<and> sources_read js fs' = (case ss of Some xs \<Rightarrow> xs | None \<Rightarrow> sources_read js fs)"
proof (cases ss)
  case None
  then show ?thesis using assms by (auto simp: import_sources_def skipped_def)
next
  case (Some xs)
  then have s: "sources_store js xs fs = (Inr (), fs')" and r: "rp_failed r = []"
    using assms(1,2) by (auto simp: import_sources_def applied_def failed_def split: prod.splits sum.splits)
  then obtain body where b: "sj_write js xs = Some body" and fs': "fs' = fs_put SOURCES_PATH (Utf8 body) fs"
    by (auto simp: sources_store_def fs_write_iff split: option.splits)
  have "sources_read js fs' = xs"
    using assms(3) assms(4) [OF b] unfolding sources_read_def fs' by (subst read_put) (simp_all add: apart_def list_all_iff)
  moreover have "fs_read_to_string fs' q = fs_read_to_string fs q" if "q \<in> set SETTINGS" "q \<noteq> SOURCES_PATH" for q
    unfolding fs' by (rule apart_read [OF assms(3) _ that]) simp
  ultimately show ?thesis using r Some SETTINGS_distinct by (simp add: get_hostname_def hostname_current_def ntp_load_def)
qed

text \<open>What an import does with the node settings of an export of the same four nodes.\<close>

lemma collect_exported:
  "collect_nodes (map (\<lambda>(i, info). node_settings_of i info) (enumerate 0 [a, b, c, d])) ([], [])
    = ([(Node1, a\<lparr>ni_power_on_time := None\<rparr>), (Node2, b\<lparr>ni_power_on_time := None\<rparr>),
        (Node3, c\<lparr>ni_power_on_time := None\<rparr>), (Node4, d\<lparr>ni_power_on_time := None\<rparr>)], [])"
  by (simp add: node_settings_of_def export_node_id_def imported_info_def)

lemma merge_power_time: "merge_info (a\<lparr>ni_power_on_time := t\<rparr>) b = merge_info a b"
  by (simp add: merge_info_def)

lemma import_exported_nodes:
  assumes "get_node_infos now a = Inr infos" and "bmc_wf a" and "bmc_wf b" and "n < 4"
    and "import_nodes (Some (map (\<lambda>(i, info). node_settings_of i info) (enumerate 0 infos))) r b = (r', b')"
  shows "rp_failed r' = rp_failed r"
    and "db_node_infos (bm_db b') ! n = merge_info (db_node_infos (bm_db a) ! n) (db_node_infos (bm_db b) ! n)"
proof -
  have l: "length (db_node_infos (bm_db a)) = 4" "length (db_node_infos (bm_db b)) = 4"
    using assms(2,3) by (simp_all add: bmc_wf_def)
  then obtain x1 x2 x3 x4 where x: "db_node_infos (bm_db a) = [x1, x2, x3, x4]"
    by (auto simp: length_Suc_conv numeral_eq_Suc)
  from l obtain y1 y2 y3 y4 where y: "db_node_infos (bm_db b) = [y1, y2, y3, y4]"
    by (auto simp: length_Suc_conv numeral_eq_Suc)
  obtain t where i: "infos = map (\<lambda>info. info\<lparr>ni_power_on_time := map_option (\<lambda>time. t - time) (ni_power_on_time info)\<rparr>) [x1, x2, x3, x4]"
    using assms(1) x by (auto simp: get_node_infos_def split: option.splits)
  have c: "n = 0 \<or> n = 1 \<or> n = 2 \<or> n = 3" using assms(4) by auto
  show "rp_failed r' = rp_failed r"
    using assms(5) by (auto simp: i collect_exported import_nodes_def set_node_info_def applied_def
        simp del: enumerate_simps collect_nodes.simps)
  have "bm_db b' = (bm_db b)\<lparr>db_node_infos := [merge_info x1 y1, merge_info x2 y2, merge_info x3 y3, merge_info x4 y4]\<rparr>"
    using assms(5) by (auto simp: i y collect_exported import_nodes_def set_node_info_def merge_power_time
        simp del: enumerate_simps collect_nodes.simps)
  with c show "db_node_infos (bm_db b') ! n = merge_info (db_node_infos (bm_db a) ! n) (db_node_infos (bm_db b) ! n)"
    by (auto simp: x y)
qed

section \<open>Properties\<close>

text \<open>C26: making one board like another. When the export of board A is imported on board B and no
  field is reported as failed, B has the name of A, now and after the next boot, the time sources
  of A where A has any and its own where A has none, and the firmware sources of A; each node of
  B has the name, the module name and the baud rate that A has for it, keeps its own where A
  has none, and keeps its own power-on time always. The JSON of the sources is taken to read back as it was
  written.\<close>

theorem import_of_export:
  assumes "export js at (Some now) serial firmware fsA a = (document, fsA')"
    and "import_config js chronyc document fsB b = (Inr report, fsB', b')"
    and "rp_failed report = []" and "apart SETTINGS fsB" and "bmc_wf a" and "bmc_wf b" and "n < 4"
    and "\<And>xs body. sj_write js xs = Some body \<Longrightarrow> sj_read js body = Some xs"
  shows "get_hostname fsB' = (case hostname_current fsA of Some h \<Rightarrow> (Some h, Some h) | None \<Rightarrow> get_hostname fsB)
    \<and> ntp_load fsB' = (if ntp_load fsA \<noteq> [] then ntp_load fsA else ntp_load fsB)
    \<and> sources_read js fsB' = fst (sources_load js fsA)
    \<and> ni_name (db_node_infos (bm_db b') ! n) = (case ni_name (db_node_infos (bm_db a) ! n) of
          Some name \<Rightarrow> Some name | None \<Rightarrow> ni_name (db_node_infos (bm_db b) ! n))
    \<and> ni_module_name (db_node_infos (bm_db b') ! n) = (case ni_module_name (db_node_infos (bm_db a) ! n) of
          Some name \<Rightarrow> Some name | None \<Rightarrow> ni_module_name (db_node_infos (bm_db b) ! n))
    \<and> ni_uart_baud (db_node_infos (bm_db b') ! n) = (case ni_uart_baud (db_node_infos (bm_db a) ! n) of
          Some baud \<Rightarrow> Some baud | None \<Rightarrow> ni_uart_baud (db_node_infos (bm_db b) ! n))
    \<and> ni_power_on_time (db_node_infos (bm_db b') ! n) = ni_power_on_time (db_node_infos (bm_db b) ! n)"
proof -
  obtain infos where infos: "get_node_infos (Some now) a = Inr infos" by (simp add: get_node_infos_def)
  have d: "ce_format_version document = FORMAT_VERSION" "ce_hostname document = hostname_current fsA"
    "ce_ntp_servers document = (if ntp_load fsA \<noteq> [] then Some (ntp_load fsA) else None)"
    "ce_firmware_sources document = Some (fst (sources_load js fsA))"
    "ce_nodes document = Some (map (\<lambda>(i, info). node_settings_of i info) (enumerate 0 infos))"
    using assms(1) infos by (auto simp: export_def Let_def split: prod.splits)
  obtain r1 fs1 r2 fs2 r3 where steps:
    "import_hostname (ce_hostname document) report_default fsB = (r1, fs1)"
    "import_servers chronyc (ce_ntp_servers document) r1 fs1 = (r2, fs2)"
    "import_sources js (ce_firmware_sources document) r2 fs2 = (r3, fsB')"
    "import_nodes (ce_nodes document) r3 b = (report, b')"
    using assms(2) d(1) by (auto simp: import_config_def split: prod.splits)
  note nodes = import_exported_nodes [OF infos assms(5-7) steps(4) [unfolded d(5)]]
  have f3: "rp_failed r3 = []" using nodes(1) assms(3) by simp
  have fs2: "rp_failed r2 = []" using import_sources_ok [of js "ce_firmware_sources document" r2 fs2 r3 fsB'] steps(3) f3
    by (auto simp: import_sources_def applied_def failed_def skipped_def split: option.splits sum.splits prod.splits)
  have fs1: "rp_failed r1 = []" using steps(2) fs2
    by (auto simp: import_servers_def applied_def failed_def skipped_def split: option.splits sum.splits prod.splits)
  note h = import_hostname_ok [OF steps(1) fs1 assms(4)]
  have ne: "ce_ntp_servers document \<noteq> Some []" by (simp add: d(3))
  note s = import_servers_ok [OF steps(2) fs2 h(2) ne]
  note c = import_sources_ok [OF steps(3) f3 conjunct1 [OF conjunct2 [OF s]] assms(8)]
  have l: "ntp_load fs1 = ntp_load fsB" using h(3) by (simp add: ntp_load_def)
  have nd: "db_node_infos (bm_db b') ! n = merge_info (db_node_infos (bm_db a) ! n) (db_node_infos (bm_db b) ! n)"
    by (rule nodes(2))
  show ?thesis using h(5) s c d l unfolding nd merge_info_def by (auto split: option.split)
qed

definition board_a_fs :: fs where
  "board_a_fs =
     \<lparr>fs_names = [(LIVE_HOSTNAME, 0), (SOURCES_PATH, 1)],
      fs_inodes = (\<lambda>i. \<lparr>in_contents = Utf8 (if i = 0 then ''hive-a'' else ''new''), in_modified = 0\<rparr>), fs_next = 2, fs_time = 7,
      fs_unreadable = [], fs_faults = [], fs_closed_dirs = []\<rparr>"

text \<open>A board whose third node has a name.\<close>

definition board_a :: bmc where
  "board_a = (demo_bmc UsbMux)\<lparr>bm_db := app_db_default\<lparr>db_node_infos :=
     (db_node_infos app_db_default)[2 := node_info_default\<lparr>ni_name := Some ''pi''\<rparr>]\<rparr>\<rparr>"

lemma board_a_wf: "bmc_wf board_a"
  using demo_bmc_wf(1) [of UsbMux] by (simp add: board_a_def bmc_wf_def app_db_default_def)

theorem import_of_export_witness:
  "\<exists>document fsA' report fsB' b'.
     export demo_json ''now'' (Some 5) None None board_a_fs board_a = (document, fsA')
     \<and> import_config demo_json (ChildEnded True [] []) document settings_fs (demo_bmc UsbMux) = (Inr report, fsB', b')
     \<and> get_hostname fsB' = (Some ''hive-a'', Some ''hive-a'') \<and> sources_read demo_json fsB' = [moved_source FORK_LOCATION FORK_LABEL]
     \<and> ni_name (db_node_infos (bm_db b') ! 2) = Some ''pi'' \<and> ni_uart_baud (db_node_infos (bm_db b') ! 2) = None"
proof -
  let ?ss = "[moved_source FORK_LOCATION FORK_LABEL]"
  have js: "sj_write demo_json xs = Some body \<Longrightarrow> sj_read demo_json body = Some xs" for xs body
    by (auto simp: demo_json_def Let_def split: if_splits)
  obtain document fsA' where ex: "export demo_json ''now'' (Some 5) None None board_a_fs board_a = (document, fsA')"
    by (meson surj_pair)
  have cur: "hostname_current board_a_fs = Some ''hive-a''"
    by (simp add: hostname_current_def fs_read_to_string_def fs_read_def fs_inode_def board_a_fs_def trim_def is_whitespace_def)
  have srcs: "sources_load demo_json board_a_fs = (?ss, board_a_fs)"
    by (simp add: sources_load_def sources_read_def fs_read_to_string_def fs_read_def fs_inode_def board_a_fs_def demo_json_def
        LIVE_HOSTNAME_def SOURCES_PATH_def moved_source_def migrate_def migrate_source_def RETIRED_LOCATIONS_def
        FORK_LOCATION_def FORK_LABEL_def RETIRED_FORK_LABEL_def Let_def)
  have ntp: "ntp_load board_a_fs = []"
    by (simp add: ntp_load_def fs_read_to_string_def fs_read_def fs_inode_def board_a_fs_def SOURCE_FILE_def LIVE_HOSTNAME_def SOURCES_PATH_def)
  have ap: "apart SETTINGS settings_fs"
    by (simp add: apart_def SETTINGS_def settings_fs_def fs_wf_def aliased_def fs_exists_def HOSTNAME_FILE_def LIVE_HOSTNAME_def
        SOURCE_FILE_def SOURCES_PATH_def)
  have valid: "sources_validate ?ss = Inr ()"
    by (simp add: sources_validate_def moved_source_def check_location_def FORK_LOCATION_def split_on_def trim_def is_whitespace_def)
  have v: "hostname_validate ''hive-a'' = Inr ()"
    by (simp add: hostname_valid_iff hostname_char_def is_ascii_alphanumeric_def is_ascii_alphabetic_def
        is_ascii_digit_def Let_def)
  obtain fs1 where h: "hostname_set ''hive-a'' settings_fs = (Inr (), fs1)"
    using v by (simp add: hostname_set_def fs_write_def settings_fs_def)
  have f1: "fs_faults fs1 = []"
    using h by (auto simp: hostname_set_def fs_write_iff settings_fs_def split: sum.splits prod.splits)
  have w: "sj_write demo_json ?ss = Some ''new''"
    by (simp add: demo_json_def moved_source_def FORK_LOCATION_def FORK_LABEL_def RETIRED_FORK_LABEL_def Let_def)
  obtain fs2 where st: "sources_store demo_json ?ss fs1 = (Inr (), fs2)"
    using f1 w by (simp add: sources_store_def fs_write_def)
  have fields: "ce_format_version document = FORMAT_VERSION" "ce_hostname document = Some ''hive-a''" "ce_ntp_servers document = None"
    "ce_firmware_sources document = Some ?ss"
    using ex by (auto simp: export_def Let_def cur ntp srcs)
  obtain r3 b' where nd: "import_nodes (ce_nodes document) (applied (AppliedSources 1) (skipped SkippedServers
      (applied (AppliedHostname ''hive-a'') report_default))) (demo_bmc UsbMux) = (r3, b')" by (meson surj_pair)
  obtain infos where infos: "get_node_infos (Some 5) board_a = Inr infos" by (simp add: get_node_infos_def)
  have "ce_nodes document = Some (map (\<lambda>(i, info). node_settings_of i info) (enumerate 0 infos))"
    using ex infos by (auto simp: export_def Let_def srcs)
  then have ok: "rp_failed r3 = []"
    using import_exported_nodes(1) [OF infos board_a_wf demo_bmc_wf(1), of 2] nd
    by (simp add: applied_def skipped_def report_default_def)
  have im: "import_config demo_json (ChildEnded True [] []) document settings_fs (demo_bmc UsbMux) = (Inr r3, fs2, b')"
    using nd by (simp add: import_config_def fields import_hostname_def h import_servers_def import_sources_def valid st)
  have infos_a: "db_node_infos (bm_db board_a) ! 2 = node_info_default\<lparr>ni_name := Some ''pi''\<rparr>"
    "db_node_infos (bm_db (demo_bmc UsbMux)) ! 2 = node_info_default"
    by (simp_all add: board_a_def demo_bmc_def app_db_default_def nth_list_update)
  have "get_hostname fs2 = (Some ''hive-a'', Some ''hive-a'') \<and> sources_read demo_json fs2 = ?ss
      \<and> ni_name (db_node_infos (bm_db b') ! 2) = Some ''pi'' \<and> ni_uart_baud (db_node_infos (bm_db b') ! 2) = None"
    using import_of_export [OF ex im ok ap board_a_wf demo_bmc_wf(1) _ js, of 2]
    by (simp add: cur srcs infos_a node_info_default_def)
  with ex im show ?thesis by blast
qed

end
