(* ===== verification/Rust_F64.thy ===== *)
theory Rust_F64
  imports Rust_Std
begin

text \<open>
  The floating point numbers the daemon reads, scales and prints. A finite \<open>f64\<close> is the shortest
  decimal \<open>m / 10 ^ k\<close> that stands for it. A whole number cast to \<open>f64\<close> is rounded to 53 bits as the
  cast does, whatever its size. A decimal that is read stands for itself; this is exact for up to
  fifteen significant digits, which bounds the decimals the kernel and chrony print here. Parsing
  takes what \<open>f64::from_str\<close> takes, and printing gives the shortest decimal, without an exponent, as
  \<open>Display\<close> does.
\<close>

datatype f64 = Dec int nat | Infinite bool | NotANumber

definition show_int :: "int \<Rightarrow> string" where
  "show_int i = (if i < 0 then ''-'' @ show_nat (nat (- i)) else show_nat (nat i))"

section \<open>Printing\<close>

text \<open>Trailing zeros after the point are not written.\<close>

fun shorten :: "int \<Rightarrow> nat \<Rightarrow> int \<times> nat" where
  "shorten m 0 = (m, 0)"
| "shorten m (Suc k) = (if m mod 10 = 0 then shorten (m div 10) k else (m, Suc k))"

definition pad_left :: "nat \<Rightarrow> string \<Rightarrow> string" where
  "pad_left n s = replicate (n - length s) CHR ''0'' @ s"

definition show_scaled :: "int \<times> nat \<Rightarrow> string" where
  "show_scaled mk =
     (case mk of
        (m, k) \<Rightarrow>
          if k = 0 then show_int m
          else (let a = nat (abs m)
                in (if m < 0 then ''-'' else []) @ show_nat (a div 10 ^ k) @ ''.'' @ pad_left k (show_nat (a mod 10 ^ k))))"

fun show_f64 :: "f64 \<Rightarrow> string" where
  "show_f64 (Dec m k) = show_scaled (shorten m k)"
| "show_f64 (Infinite neg) = (if neg then ''-inf'' else ''inf'')"
| "show_f64 NotANumber = ''NaN''"

section \<open>Whole numbers\<close>

text \<open>\<open>u64 as f64\<close>: the bits beyond 53 are rounded off, to the nearest number that is left, halves to
  the one whose last bit is nought.\<close>

function excess_bits :: "nat \<Rightarrow> nat" where
  "excess_bits n = (if n < 2 ^ 53 then 0 else Suc (excess_bits (n div 2)))"
  by pat_completeness auto
termination
  by (relation "measure id") auto

declare excess_bits.simps [simp del]

definition round53 :: "nat \<Rightarrow> nat" where
  "round53 n =
     (let e = excess_bits n; q = n div 2 ^ e; r = n mod 2 ^ e
      in if 2 * r < 2 ^ e \<or> (2 * r = 2 ^ e \<and> even q) then q * 2 ^ e else (q + 1) * 2 ^ e)"

text \<open>The shortest decimal of a rounded number: the multiple of the largest power of ten that is
  rounded to it, and the nearer of two.\<close>

definition multiple_near :: "nat \<Rightarrow> nat \<Rightarrow> nat option" where
  "multiple_near v p =
     (let lo = v div p * p; hi = lo + p
      in if round53 lo = v \<and> round53 hi = v then Some (if p \<le> 2 * (v - lo) then hi else lo)
         else if round53 lo = v then Some lo
         else if round53 hi = v then Some hi
         else None)"

definition shortest_decimal :: "nat \<Rightarrow> nat" where
  "shortest_decimal v =
     (case find_map (\<lambda>k. multiple_near v (10 ^ k)) (rev [0..<21]) of None \<Rightarrow> v | Some d \<Rightarrow> d)"

definition f64_of_nat :: "nat \<Rightarrow> f64" where
  "f64_of_nat n = Dec (int (shortest_decimal (round53 n))) 0"

lemma excess_range: "2 ^ 53 \<le> n \<Longrightarrow> 0 < excess_bits n \<and> 2 ^ 52 \<le> n div 2 ^ excess_bits n \<and> n div 2 ^ excess_bits n < 2 ^ 53"
proof (induction n rule: excess_bits.induct)
  case (1 n)
  have e: "excess_bits n = Suc (excess_bits (n div 2))" using 1(2) by (subst excess_bits.simps) simp
  show ?case
  proof (cases "n div 2 < 2 ^ 53")
    case True
    then have "excess_bits (n div 2) = 0" by (subst excess_bits.simps) simp
    then show ?thesis using True 1(2) by (simp add: e)
  next
    case False
    then have "2 ^ 52 \<le> n div 2 div 2 ^ excess_bits (n div 2) \<and> n div 2 div 2 ^ excess_bits (n div 2) < 2 ^ 53"
      using 1 by simp
    then show ?thesis by (simp add: e div_mult2_eq)
  qed
qed

lemma round53_exact: "n < 2 ^ 53 \<Longrightarrow> round53 n = n"
  by (simp add: round53_def excess_bits.simps [of n])

lemma round53_large: "2 ^ 53 \<le> n \<Longrightarrow> 2 ^ 53 \<le> round53 n"
proof -
  assume "2 ^ 53 \<le> n"
  note e = excess_range [OF this]
  have "(2 :: nat) ^ 53 \<le> 2 ^ 52 * 2 ^ excess_bits n" using e by (cases "excess_bits n") simp_all
  also have "\<dots> \<le> n div 2 ^ excess_bits n * 2 ^ excess_bits n" using e by (intro mult_right_mono) simp_all
  also have "\<dots> \<le> round53 n" by (simp add: round53_def Let_def)
  finally show ?thesis .
qed

text \<open>A number that fits 53 bits is itself, and any other is off by no more than half of what its
  last bit is worth.\<close>

lemma f64_of_nat_exact: "n < 2 ^ 53 \<Longrightarrow> f64_of_nat n = Dec (int n) 0"
proof -
  assume n: "n < 2 ^ 53"
  have "d = n" if "multiple_near n p = Some d" "0 < p" for p d
  proof -
    have "n div p * p \<le> n" by simp
    then have "round53 (n div p * p) = n div p * p" using n by (simp only: round53_exact le_less_trans)
    moreover have "round53 (n div p * p + p) \<noteq> n"
    proof -
      have "n < n div p * p + p" using that(2) dividend_less_div_times [of p n] by (simp add: add.commute)
      then show ?thesis using round53_exact [of "n div p * p + p"] round53_large [of "n div p * p + p"] n
        by (cases "n div p * p + p < 2 ^ 53") auto
    qed
    ultimately show ?thesis using that(1) by (auto simp: multiple_near_def Let_def split: if_splits)
  qed
  then have "shortest_decimal n = n"
    by (auto simp: shortest_decimal_def split: option.split dest!: find_map_Some)
  then show ?thesis unfolding f64_of_nat_def round53_exact [OF n] by simp
qed

lemma round53_near: "2 * (max n (round53 n) - min n (round53 n)) \<le> 2 ^ excess_bits n"
proof -
  define e q r where "e = excess_bits n" and "q = n div 2 ^ e" and "r = n mod 2 ^ e"
  have n: "n = q * 2 ^ e + r" unfolding q_def r_def by (rule div_mult_mod_eq [symmetric])
  have r: "r < 2 ^ e" by (simp add: r_def)
  have "round53 n = (if 2 * r < 2 ^ e \<or> (2 * r = 2 ^ e \<and> even q) then q * 2 ^ e else (q + 1) * 2 ^ e)"
    by (simp add: round53_def Let_def e_def q_def r_def)
  then consider "round53 n = q * 2 ^ e" "2 * r \<le> 2 ^ e" | "round53 n = q * 2 ^ e + 2 ^ e" "2 ^ e \<le> 2 * r"
    by (fastforce split: if_splits)
  then show ?thesis unfolding e_def [symmetric] using n r by cases (simp_all add: max_def min_def)
qed

section \<open>Parsing\<close>

definition exponent_of :: "string \<Rightarrow> int" where
  "exponent_of s =
     (case s of
        [] \<Rightarrow> 0
      | _ # cs \<Rightarrow> (if cs \<noteq> [] \<and> hd cs = CHR ''-'' then - int (dec_value (strip_sign cs)) else int (dec_value (strip_sign cs))))"

definition scale10 :: "int \<Rightarrow> nat \<Rightarrow> int \<Rightarrow> f64" where
  "scale10 m k e = (if int k \<le> e then Dec (m * 10 ^ nat (e - int k)) 0 else Dec m (nat (int k - e)))"

definition decimal_value :: "string \<Rightarrow> f64" where
  "decimal_value s =
     (let a = takeWhile is_ascii_digit s; r = dropWhile is_ascii_digit s
      in if r \<noteq> [] \<and> hd r = CHR ''.''
         then (let b = takeWhile is_ascii_digit (tl r)
               in scale10 (int (dec_value (a @ b))) (length b) (exponent_of (dropWhile is_ascii_digit (tl r))))
         else scale10 (int (dec_value a)) 0 (exponent_of r))"

fun f64_neg :: "f64 \<Rightarrow> f64" where
  "f64_neg (Dec m k) = Dec (- m) k"
| "f64_neg (Infinite neg) = Infinite (\<not> neg)"
| "f64_neg NotANumber = NotANumber"

text \<open>\<open>i64 as f64\<close>.\<close>

definition f64_of_int :: "int \<Rightarrow> f64" where
  "f64_of_int i = (if i < 0 then f64_neg (f64_of_nat (nat (- i))) else f64_of_nat (nat i))"

definition parse_f64 :: "string \<Rightarrow> f64 option" where
  "parse_f64 s =
     (let t = strip_sign s;
          neg = (s \<noteq> [] \<and> hd s = CHR ''-'');
          v = (if is_decimal t then decimal_value t
               else if eq_ignore_ascii_case t ''nan'' then NotANumber else Infinite False)
      in if is_f64 s then Some (if neg then f64_neg v else v) else None)"

section \<open>Arithmetic\<close>

text \<open>\<open>f64::round\<close> of \<open>m / d\<close>: to the nearest whole number, halves away from zero.\<close>

definition round_div :: "int \<Rightarrow> int \<Rightarrow> int" where
  "round_div m d = (if 0 \<le> m then (m + d div 2) div d else - ((- m + d div 2) div d))"

lemma round_div_near: "0 < d \<Longrightarrow> even d \<Longrightarrow> abs (round_div m d * d - m) \<le> d div 2"
proof -
  assume d: "0 < d" "even d"
  have n: "abs (x div d * d - (x - d div 2)) \<le> d div 2" for x
  proof -
    have "x div d * d = x - x mod d" by (simp add: minus_mod_eq_div_mult)
    moreover have "0 \<le> x mod d" "x mod d < d" using d by simp_all
    moreover have "d = 2 * (d div 2)" using d by simp
    ultimately show ?thesis by linarith
  qed
  show ?thesis using n [of "m + d div 2"] n [of "- m + d div 2"] by (auto simp: round_div_def)
qed

text \<open>The text of a number has digits, a point, a sign or letters, and nothing that could end a
  line or a field.\<close>

definition number_char :: "char \<Rightarrow> bool" where
  "number_char c = (is_ascii_digit c \<or> c \<in> set ''-.infNaN'')"

lemma show_nat_number: "list_all number_char (show_nat n)"
  using show_nat_digits [of n] by (auto simp: list_all_iff number_char_def)

lemma show_int_number: "list_all number_char (show_int i)"
  by (simp add: show_int_def show_nat_number) (simp add: number_char_def)

lemma show_f64_number: "list_all number_char (show_f64 v)"
proof (cases v)
  case (Dec m k)
  have z: "number_char CHR ''0''" "number_char CHR ''.''" "number_char CHR ''-''"
    by (simp_all add: number_char_def is_ascii_digit_def)
  have p: "list_all number_char (pad_left n (show_nat x))" for n x
    using show_nat_number [of x] z by (auto simp: pad_left_def list_all_iff)
  have "list_all number_char (show_scaled mk)" for mk
    by (cases mk) (simp add: show_scaled_def show_int_number show_nat_number p z Let_def)
  then show ?thesis by (simp add: Dec)
qed (simp_all add: number_char_def)

section \<open>Reading what was printed\<close>

text \<open>Two values that are the same number.\<close>

fun same_number :: "f64 \<Rightarrow> f64 \<Rightarrow> bool" where
  "same_number (Dec m k) (Dec m' k') \<longleftrightarrow> m * 10 ^ k' = m' * 10 ^ k"
| "same_number (Infinite a) (Infinite b) \<longleftrightarrow> a = b"
| "same_number NotANumber NotANumber \<longleftrightarrow> True"
| "same_number _ _ \<longleftrightarrow> False"

lemma shorten_same: "shorten m k = (m', k') \<Longrightarrow> m' * 10 ^ k = m * 10 ^ k'"
proof (induction m k rule: shorten.induct)
  case (2 m k)
  show ?case
  proof (cases "m mod 10 = 0")
    case True
    have "m' * 10 ^ Suc k = 10 * (m' * 10 ^ k)" by simp
    also have "\<dots> = 10 * (m div 10 * 10 ^ k')" using 2 True by simp
    also have "\<dots> = 10 * (m div 10) * 10 ^ k'" by simp
    also have "10 * (m div 10) = m" using True by presburger
    finally show ?thesis .
  qed (use 2 in simp)
qed simp

lemma dec_value_append: "dec_value (xs @ ys) = dec_value xs * 10 ^ length ys + dec_value ys"
proof -
  define step where "step = (\<lambda>(v :: nat) c. 10 * v + (of_char c - 48))"
  have "foldl step a ys = a * 10 ^ length ys + foldl step 0 ys" for a
  proof (induction ys arbitrary: a)
    case (Cons y ys)
    have "foldl step a (y # ys) = step a y * 10 ^ length ys + foldl step 0 ys" using Cons.IH [of "step a y"] by simp
    moreover have "foldl step 0 (y # ys) = step 0 y * 10 ^ length ys + foldl step 0 ys" using Cons.IH [of "step 0 y"] by simp
    moreover have "step a y = 10 * a + step 0 y" by (simp add: step_def)
    ultimately show ?case by (simp add: algebra_simps)
  qed simp
  from this [of "foldl step 0 xs"] show ?thesis by (simp add: dec_value_def step_def)
qed

lemma dec_value_zeros: "dec_value (replicate n CHR ''0'') = 0"
  by (induction n) (simp_all add: dec_value_def)

lemma length_show_nat: "n < 10 ^ k \<Longrightarrow> 0 < k \<Longrightarrow> length (show_nat n) \<le> k"
proof (induction k arbitrary: n)
  case (Suc k)
  show ?case
  proof (cases "n < 10")
    case False
    moreover have "0 < k" using False Suc.prems(1) by (cases k) simp_all
    moreover have "n div 10 < 10 ^ k" using Suc.prems(1) by (simp add: div_less_iff_less_mult mult.commute)
    ultimately show ?thesis using Suc.IH by (simp add: show_nat_step)
  qed (simp add: show_nat_small)
qed simp

lemma pad_left_digits: "list_all is_ascii_digit (pad_left k (show_nat n))"
  using show_nat_digits [of n] by (auto simp: pad_left_def list_all_iff is_ascii_digit_def)

lemma pad_left_value: "dec_value (pad_left k (show_nat n)) = n"
  by (simp add: pad_left_def dec_value_append dec_value_zeros)

lemma length_pad_left: "n < 10 ^ k \<Longrightarrow> 0 < k \<Longrightarrow> length (pad_left k (show_nat n)) = k"
  using length_show_nat by (simp add: pad_left_def)

text \<open>Digits, and digits around a point, read as a decimal.\<close>

lemma digits_split:
  "list_all is_ascii_digit ds \<Longrightarrow> takeWhile is_ascii_digit (ds @ s) = ds @ takeWhile is_ascii_digit s"
  "list_all is_ascii_digit ds \<Longrightarrow> dropWhile is_ascii_digit (ds @ s) = dropWhile is_ascii_digit s"
  by (induction ds) simp_all

lemma digits_whole:
  "list_all is_ascii_digit ds \<Longrightarrow> takeWhile is_ascii_digit ds = ds"
  "list_all is_ascii_digit ds \<Longrightarrow> dropWhile is_ascii_digit ds = []"
  by (induction ds) simp_all

lemma no_sign: "list_all is_ascii_digit ds \<Longrightarrow> ds \<noteq> [] \<Longrightarrow> strip_sign (ds @ s) = ds @ s \<and> hd (ds @ s) \<noteq> CHR ''-''"
  by (cases ds) (auto simp: strip_sign_def is_ascii_digit_def)

lemma parse_digits:
  assumes "list_all is_ascii_digit ds" and "ds \<noteq> []"
  shows "is_decimal ds" and "decimal_value ds = Dec (int (dec_value ds)) 0"
proof -
  note digits_whole [OF assms(1)]
  with assms show "is_decimal ds" and "decimal_value ds = Dec (int (dec_value ds)) 0"
    by (simp_all add: is_decimal_def decimal_value_def is_exponent_def exponent_of_def scale10_def Let_def
        del: takeWhile_eq_all_conv dropWhile_eq_Nil_conv)
qed

lemma parse_point:
  assumes "list_all is_ascii_digit ds" and "ds \<noteq> []" and "list_all is_ascii_digit fs" and "fs \<noteq> []"
  shows "is_decimal (ds @ ''.'' @ fs)" and "decimal_value (ds @ ''.'' @ fs) = Dec (int (dec_value (ds @ fs))) (length fs)"
proof -
  have "\<not> is_ascii_digit CHR ''.''" by (simp add: is_ascii_digit_def)
  then have "takeWhile is_ascii_digit (ds @ ''.'' @ fs) = ds" "dropWhile is_ascii_digit (ds @ ''.'' @ fs) = ''.'' @ fs"
    using digits_split [OF assms(1), of "''.'' @ fs"] by simp_all
  then show "is_decimal (ds @ ''.'' @ fs)" and "decimal_value (ds @ ''.'' @ fs) = Dec (int (dec_value (ds @ fs))) (length fs)"
    using digits_whole [OF assms(3)] assms(2,4)
    by (simp_all add: is_decimal_def decimal_value_def is_exponent_def exponent_of_def scale10_def Let_def
        del: takeWhile_eq_all_conv dropWhile_eq_Nil_conv)
qed

lemma parse_signed:
  assumes "strip_sign t = t" and "t \<noteq> []" and "hd t \<noteq> CHR ''-''" and "is_decimal t"
  shows "parse_f64 t = Some (decimal_value t)" and "parse_f64 (''-'' @ t) = Some (f64_neg (decimal_value t))"
proof -
  have "strip_sign (''-'' @ t) = t" by (simp add: strip_sign_def)
  then show "parse_f64 t = Some (decimal_value t)" and "parse_f64 (''-'' @ t) = Some (f64_neg (decimal_value t))"
    using assms by (simp_all add: parse_f64_def is_f64_def Let_def)
qed

lemma parse_show_scaled: "parse_f64 (show_scaled (m, k)) = Some (Dec m k)"
proof -
  define a where "a = nat (abs m)"
  define t where "t = (if k = 0 then show_nat a else show_nat (a div 10 ^ k) @ ''.'' @ pad_left k (show_nat (a mod 10 ^ k)))"
  have sh: "show_scaled (m, k) = (if m < 0 then ''-'' else []) @ t"
    by (auto simp: show_scaled_def show_int_def t_def a_def Let_def abs_if)
  have t: "strip_sign t = t" "t \<noteq> []" "hd t \<noteq> CHR ''-''" "is_decimal t" "decimal_value t = Dec (int a) k"
  proof -
    have n: "show_nat b \<noteq> []" "list_all is_ascii_digit (show_nat b)" for b by (simp_all add: show_nat_digits)
    have "strip_sign t = t \<and> t \<noteq> [] \<and> hd t \<noteq> CHR ''-'' \<and> is_decimal t \<and> decimal_value t = Dec (int a) k"
    proof (cases "k = 0")
      case True
      then show ?thesis using no_sign [OF n(2) n(1), of _ "[]"] parse_digits [OF n(2) n(1)] n(1) by (simp add: t_def)
    next
      case False
      let ?f = "pad_left k (show_nat (a mod 10 ^ k))"
      have l: "length ?f = k" using length_pad_left [of "a mod 10 ^ k" k] False by simp
      then have "?f \<noteq> []" using False by auto
      note p = parse_point [OF n(2) n(1) pad_left_digits this, of "a div 10 ^ k"]
      have "dec_value (show_nat (a div 10 ^ k) @ ?f) = a" by (simp add: dec_value_append pad_left_value l div_mult_mod_eq)
      then show ?thesis
        using p no_sign [OF n(2) n(1), of "a div 10 ^ k" "''.'' @ ?f"] False l by (simp add: t_def)
    qed
    then show "strip_sign t = t" "t \<noteq> []" "hd t \<noteq> CHR ''-''" "is_decimal t" "decimal_value t = Dec (int a) k" by blast+
  qed
  from parse_signed [OF t(1-4)] show ?thesis by (simp add: sh t(5)) (auto simp: a_def)
qed

theorem parse_show_f64: "\<exists>x. parse_f64 (show_f64 v) = Some x \<and> same_number x v"
proof (cases v)
  case (Dec m k)
  obtain m' k' where s: "shorten m k = (m', k')" by (cases "shorten m k")
  then show ?thesis using parse_show_scaled [of m' k'] shorten_same [OF s] by (simp add: Dec)
next
  case (Infinite neg)
  have "parse_f64 ''inf'' = Some (Infinite False)" "parse_f64 ''-inf'' = Some (Infinite True)" by code_simp+
  then show ?thesis by (cases neg) (simp_all add: Infinite)
next
  case NotANumber
  have "parse_f64 ''NaN'' = Some NotANumber" by code_simp
  then show ?thesis by (simp add: NotANumber)
qed

lemma parse_show_whole: "parse_f64 (show_f64 (Dec m 0)) = Some (Dec m 0)"
  using parse_show_scaled [of m 0] by simp

end
