(* ===== verification/Usb_Boot.thy ===== *)
theory Usb_Boot
  imports Upgrade_Worker
begin

text \<open>
  The USB boot drivers (\<open>usb_boot.rs\<close>, \<open>usb_boot/topology.rs\<close>, \<open>usb_boot/rpiboot.rs\<close>,
  \<open>usb_boot/rockusb.rs\<close>, and \<open>get_device_path\<close> of \<open>utils.rs\<close>): which port of the hub a node
  is wired to, the wait for its boot device, and the block device it then presents. The device
  tree is a tree of directories and files. The bus is looked at in rounds: what an enumeration
  answers, how long it takes and how much longer than asked a sleep lasts are those of the
  environment. What the crates \<open>rustpiboot\<close>, \<open>rockusb\<close> and \<open>rockfile\<close> do are parameters. The
  log lines, and with them the set of the devices already logged, are not modelled.
\<close>

section \<open>Ports\<close>

record usb_port_path =
  up_bus :: u8
  up_ports :: "u8 list"

definition show_u8 :: "u8 \<Rightarrow> string" where
  "show_u8 w = show_nat (unat w)"

definition describe_ports :: "u8 list \<Rightarrow> string" where
  "describe_ports ports = join ''.'' (map show_u8 ports)"

definition sysfs_name :: "usb_port_path \<Rightarrow> string" where
  "sysfs_name p = show_u8 (up_bus p) @ ''-'' @ join ''.'' (map show_u8 (up_ports p))"

definition port_contains :: "usb_port_path \<Rightarrow> string \<Rightarrow> bool" where
  "port_contains p path = str_contains (''/'' @ sysfs_name p @ ''/'') path"

section \<open>The hub in the device tree\<close>

datatype dt_node = DtDir "(string \<times> dt_node) list" | DtFile "u8 list"

fun dt_read_dir :: "dt_node \<Rightarrow> (string \<times> dt_node) list option" where
  "dt_read_dir (DtDir es) = Some es"
| "dt_read_dir (DtFile _) = None"

fun dt_read :: "dt_node \<Rightarrow> u8 list option" where
  "dt_read (DtDir _) = None"
| "dt_read (DtFile bs) = Some bs"

definition dt_join :: "dt_node \<Rightarrow> string \<Rightarrow> dt_node option" where
  "dt_join d name = Option.bind (dt_read_dir d) (\<lambda>es. map_of es name)"

text \<open>A \<open>reg\<close> cell: the first four bytes, big-endian; \<open>None\<close> when the number is no \<open>u8\<close>.\<close>

fun from_be_bytes :: "u8 list \<Rightarrow> nat" where
  "from_be_bytes [] = 0"
| "from_be_bytes (x # xs) = unat x * 256 ^ length xs + from_be_bytes xs"

definition read_reg :: "dt_node option \<Rightarrow> u8 option" where
  "read_reg f =
     (case Option.bind f dt_read of
        None \<Rightarrow> None
      | Some bytes \<Rightarrow>
          if length bytes < 4 then None
          else let n = from_be_bytes (take 4 bytes) in if n < 256 then Some (of_nat n) else None)"

definition hub_of_controller :: "string \<times> dt_node \<Rightarrow> dt_node option" where
  "hub_of_controller entry =
     (if starts_with ''usb@'' (fst entry)
      then Option.bind (dt_read_dir (snd entry))
             (\<lambda>children. find_map (\<lambda>(name, child). if starts_with ''hub@'' name then Some child else None) children)
      else None)"

definition find_hub :: "dt_node \<Rightarrow> dt_node option" where
  "find_hub root =
     find_map (\<lambda>soc. Option.bind (Option.bind soc dt_read_dir) (find_map hub_of_controller))
       [dt_join root ''soc'', Some root]"

text \<open>A \<open>BTreeMap\<close> of numbers, by its sorted entries.\<close>

fun bmap_insert :: "u8 \<Rightarrow> 'v \<Rightarrow> (u8 \<times> 'v) list \<Rightarrow> (u8 \<times> 'v) list" where
  "bmap_insert k v [] = [(k, v)]"
| "bmap_insert k v ((j, w) # m) =
     (if k < j then (k, v) # (j, w) # m else if k = j then (k, v) # m else (j, w) # bmap_insert k v m)"

record hub_topology =
  ht_hub_port :: u8
  ht_node_ports :: "(u8 \<times> u8) list"

definition node_label :: "string \<Rightarrow> u8 option" where
  "node_label name = Option.bind (strip_prefix ''node'' name) (\<lambda>rest. parse_u8 (hd (split_p (\<lambda>c. c = CHR ''@'') rest)))"

fun read_node_ports :: "(string \<times> dt_node) list \<Rightarrow> (u8 \<times> u8) list \<Rightarrow> (u8 \<times> u8) list" where
  "read_node_ports [] m = m"
| "read_node_ports ((name, entry) # es) m =
     (case node_label name of
        None \<Rightarrow> read_node_ports es m
      | Some node \<Rightarrow>
          (case read_reg (dt_join entry ''reg'') of
             None \<Rightarrow> read_node_ports es m
           | Some port \<Rightarrow> read_node_ports es (bmap_insert node port m)))"

definition topology_read_from :: "dt_node \<Rightarrow> hub_topology option" where
  "topology_read_from root =
     (case find_hub root of
        None \<Rightarrow> None
      | Some hub \<Rightarrow>
          (case read_reg (dt_join hub ''reg'') of
             None \<Rightarrow> None
           | Some hub_port \<Rightarrow>
               (case dt_read_dir hub of
                  None \<Rightarrow> None
                | Some es \<Rightarrow>
                    (let ports = read_node_ports es []
                     in if ports = [] then None else Some \<lparr>ht_hub_port = hub_port, ht_node_ports = ports\<rparr>))))"

definition topology_node_ports :: "hub_topology \<Rightarrow> u8 \<Rightarrow> u8 list option" where
  "topology_node_ports t node = map_option (\<lambda>port. [ht_hub_port t, port]) (map_of (ht_node_ports t) node)"

definition topology_nodes :: "hub_topology \<Rightarrow> u8 list" where
  "topology_nodes t = map fst (ht_node_ports t)"

section \<open>Looking at the bus\<close>

record 'd seen_device =
  se_vid_pid :: "u16 \<times> u16"
  se_ports :: "u8 list"
  se_handle :: usb_port_path
  se_device :: 'd

text \<open>\<open>RpiBoot\<close> and \<open>RockusbBoot\<close>, the two backends in the order the daemon asks them.\<close>

datatype backend = RpiBoot | RockusbBoot

definition BACKENDS :: "backend list" where "BACKENDS = [RpiBoot, RockusbBoot]"

fun is_supported :: "backend \<Rightarrow> u16 \<times> u16 \<Rightarrow> bool" where
  "is_supported RpiBoot vp = (vp = (0x0a5c, 0x2711))"
| "is_supported RockusbBoot vp = (vp = (0x2207, 0x350b))"

fun backend_name :: "backend \<Rightarrow> string" where
  "backend_name RpiBoot = ''rustpiboot''"
| "backend_name RockusbBoot = ''Rockusb''"

definition hex_digit :: "nat \<Rightarrow> char" where
  "hex_digit n = (if n < 10 then digit n else char_of (87 + n))"

definition show_hex4 :: "u16 \<Rightarrow> string" where
  "show_hex4 w = (let n = unat w in map hex_digit [n div 4096, n div 256 mod 16, n div 16 mod 16, n mod 16])"

definition show_vid_pid :: "u16 \<times> u16 \<Rightarrow> string" where
  "show_vid_pid vp = show_hex4 (fst vp) @ '':'' @ show_hex4 (snd vp)"

datatype device_error =
    ListFailed io_error
  | NoStorageElsewhere usb_port_path "string list"
  | NoStorageOn usb_port_path
  | NoneSupported
  | SeveralOn usb_port_path "string list"
  | SeveralFound
  | NoDeviceFile io_error

datatype usb_internal = OfDevices device_error | OfRpiBoot string | LoaderCorrupt | OfTransport string

datatype usb_boot_error =
    UsbCancelled
  | BootDeviceTimeout u8 duration "string list"
  | WrongPort u8 string string
  | RusbError
  | UsbIo io_error
  | UsbInternal usb_internal

datatype 'd look_result = LookFound "'d seen_device" nat | LookMissing "string list" "string list"

fun position :: "('a \<Rightarrow> bool) \<Rightarrow> 'a list \<Rightarrow> nat option" where
  "position P [] = None"
| "position P (x # xs) = (if P x then Some 0 else map_option Suc (position P xs))"

definition push_new :: "string \<Rightarrow> string list \<Rightarrow> string list" where
  "push_new s xs = (if s \<in> set xs then xs else xs @ [s])"

fun look_at :: "backend list \<Rightarrow> u8 list option \<Rightarrow> 'd seen_device list
    \<Rightarrow> string list \<Rightarrow> string list \<Rightarrow> ('d seen_device \<times> nat) option \<Rightarrow> 'd look_result" where
  "look_at backends expected [] elsewhere others found =
     (case found of Some (dev, idx) \<Rightarrow> LookFound dev idx | None \<Rightarrow> LookMissing elsewhere others)"
| "look_at backends expected (dev # devs) elsewhere others found =
     (let on_port = (case expected of None \<Rightarrow> True | Some e \<Rightarrow> se_ports dev = e)
      in case position (\<lambda>b. is_supported b (se_vid_pid dev)) backends of
           Some idx \<Rightarrow>
             if on_port
             then look_at backends expected devs elsewhere others (case found of None \<Rightarrow> Some (dev, idx) | Some f \<Rightarrow> Some f)
             else look_at backends expected devs
                    (elsewhere @ [backend_name (backends ! idx) @ '' on '' @ sysfs_name (se_handle dev)]) others found
         | None \<Rightarrow>
             if on_port \<and> fst (se_vid_pid dev) \<noteq> 0x1d6b
             then look_at backends expected devs elsewhere (push_new (show_vid_pid (se_vid_pid dev)) others) found
             else look_at backends expected devs elsewhere others found)"

definition look :: "backend list \<Rightarrow> u8 list option \<Rightarrow> 'd seen_device list \<Rightarrow> 'd look_result" where
  "look backends expected devices = look_at backends expected devices [] [] None"

section \<open>Waiting for the device\<close>

text \<open>One round of the wait: whether the cancellation is seen before the enumeration, what the
  enumeration answers and how long it takes, and whether the sleep ends by cancellation or how
  much longer than the interval it lasts.\<close>

record 'd bus_round =
  br_cancelled :: bool
  br_devices :: "(usb_boot_error, 'd seen_device list) result"
  br_took :: duration
  br_sleep :: "duration option"

definition wait_error :: "u8 list option \<Rightarrow> u8 \<Rightarrow> duration \<Rightarrow> string list \<Rightarrow> string list \<Rightarrow> usb_boot_error" where
  "wait_error expected node wait others elsewhere =
     (case expected of
        Some e \<Rightarrow>
          if elsewhere \<noteq> [] then WrongPort node (describe_ports e) (join '', '' elsewhere)
          else BootDeviceTimeout node wait others
      | None \<Rightarrow> BootDeviceTimeout node wait others)"

definition note_round :: "backend list \<Rightarrow> u8 list option \<Rightarrow> 'd bus_round \<Rightarrow> string list \<Rightarrow> string list
    \<Rightarrow> 'd \<times> nat + string list \<times> string list" where
  "note_round backends expected r others elsewhere =
     (case br_devices r of
        Inl _ \<Rightarrow> Inr (others, elsewhere)
      | Inr devices \<Rightarrow>
          (case look backends expected devices of
             LookFound dev idx \<Rightarrow> Inl (se_device dev, idx)
           | LookMissing e os \<Rightarrow> Inr (foldl (\<lambda>acc x. push_new x acc) others os, e)))"

partial_function (option) wait_loop :: "backend list \<Rightarrow> u8 list option \<Rightarrow> u8 \<Rightarrow> duration \<Rightarrow> duration
    \<Rightarrow> (nat \<Rightarrow> 'd bus_round) \<Rightarrow> instant \<Rightarrow> nat \<Rightarrow> instant \<Rightarrow> string list \<Rightarrow> string list
    \<Rightarrow> (usb_boot_error, 'd \<times> nat) result option" where
  "wait_loop backends expected node wait interval rounds deadline i now others elsewhere =
     (if br_cancelled (rounds i) then Some (Inl UsbCancelled)
      else case note_round backends expected (rounds i) others elsewhere of
             Inl found \<Rightarrow> Some (Inr found)
           | Inr (others, elsewhere) \<Rightarrow>
               if now + br_took (rounds i) + interval > deadline
               then Some (Inl (wait_error expected node wait others elsewhere))
               else (case br_sleep (rounds i) of
                       None \<Rightarrow> Some (Inl UsbCancelled)
                     | Some late \<Rightarrow>
                         wait_loop backends expected node wait interval rounds deadline (Suc i)
                           (now + br_took (rounds i) + interval + late) others elsewhere))"

definition wait_for_device :: "backend list \<Rightarrow> u8 list option \<Rightarrow> u8 \<Rightarrow> duration \<Rightarrow> duration
    \<Rightarrow> (nat \<Rightarrow> 'd bus_round) \<Rightarrow> instant \<Rightarrow> (usb_boot_error, 'd \<times> nat) result option" where
  "wait_for_device backends expected node wait interval rounds now =
     wait_loop backends expected node wait interval rounds (now + wait) 0 now [] []"

definition BOOT_DEVICE_WAIT :: duration where "BOOT_DEVICE_WAIT = from_secs 15"
definition POLL_INTERVAL :: duration where "POLL_INTERVAL = 250000000"

definition timeout_message :: "u8 \<Rightarrow> duration \<Rightarrow> string list \<Rightarrow> string" where
  "timeout_message node waited others =
     (let waited = (if subsec_nanos waited div 1000000 = 0 then show_nat (as_secs waited) @ '' s''
                    else show_nat (waited div 1000000) @ '' ms'');
          head = ''node '' @ show_u8 node @ '': the module''
            @ [CHR 0x27] @ ''s USB boot device (Rockchip 2207:350b or Raspberry Pi 0a5c:2711) did not appear within '' @ waited
      in if others = [] then head
         else head @ ''; other USB devices present: '' @ join '', '' others
            @ ''. If one of them is a device in the node'' @ [CHR 0x27]
            @ ''s mini-PCIe slot (nodes 1 and 2), it shares the USB lines used for flashing; remove it and retry'')"

section \<open>Block devices\<close>

text \<open>An entry of \<open>/sys/block\<close>: its name, its vendor file when it can be read, and what the
  resolution of its link answers.\<close>

record block_entry =
  be_name :: string
  be_vendor :: "string option"
  be_link :: "(io_error, string) result"

fun sort_blocks :: "string list \<Rightarrow> usb_port_path option \<Rightarrow> block_entry list \<Rightarrow> string list \<Rightarrow> string list
    \<Rightarrow> string list \<times> string list" where
  "sort_blocks allowed expected [] matching wrong_port = (matching, wrong_port)"
| "sort_blocks allowed expected (e # es) matching wrong_port =
     (case be_vendor e of
        None \<Rightarrow> sort_blocks allowed expected es matching wrong_port
      | Some vendor \<Rightarrow>
          if trim vendor \<notin> set allowed then sort_blocks allowed expected es matching wrong_port
          else (case expected of
                  None \<Rightarrow> sort_blocks allowed expected es (matching @ [be_name e]) wrong_port
                | Some port \<Rightarrow>
                    (case be_link e of
                       Inl _ \<Rightarrow> sort_blocks allowed expected es matching wrong_port
                     | Inr path \<Rightarrow>
                         if port_contains port path then sort_blocks allowed expected es (matching @ [be_name e]) wrong_port
                         else sort_blocks allowed expected es matching (wrong_port @ [be_name e]))))"

definition choose_block :: "string list \<times> string list \<Rightarrow> usb_port_path option \<Rightarrow> (device_error, string) result" where
  "choose_block found expected =
     (case (fst found, expected) of
        ([device], _) \<Rightarrow> Inr device
      | ([], Some port) \<Rightarrow> Inl (if snd found \<noteq> [] then NoStorageElsewhere port (snd found) else NoStorageOn port)
      | ([], None) \<Rightarrow> Inl NoneSupported
      | (several, Some port) \<Rightarrow> Inl (SeveralOn port several)
      | (several, None) \<Rightarrow> Inl SeveralFound)"

definition get_device_path :: "(io_error, block_entry list) result \<Rightarrow> (string \<Rightarrow> (io_error, string) result)
    \<Rightarrow> string list \<Rightarrow> usb_port_path option \<Rightarrow> (device_error, string) result" where
  "get_device_path sys_block canonical allowed expected =
     (case sys_block of
        Inl e \<Rightarrow> Inl (ListFailed e)
      | Inr entries \<Rightarrow>
          (case choose_block (sort_blocks allowed expected entries [] []) expected of
             Inl e \<Rightarrow> Inl e
           | Inr name \<Rightarrow> (case canonical (''/dev/'' @ name) of Inl e \<Rightarrow> Inl (NoDeviceFile e) | Inr path \<Rightarrow> Inr path)))"

section \<open>The Rockchip loader\<close>

text \<open>The two structures of the loader file and the crate that decodes them. A slice out of range
  is a panic, \<open>None\<close>.\<close>

record rk_header_entry =
  rh_count :: u8
  rh_offset :: u32
  rh_size :: u8

record rk_header =
  rk_entry_471 :: rk_header_entry
  rk_entry_472 :: rk_header_entry

record rk_entry =
  re_size :: u8
  re_data_offset :: u32
  re_data_size :: u32
  re_data_delay :: u32

record rockfile =
  rf_header_size :: nat
  rf_header :: "u8 list \<Rightarrow> rk_header option"
  rf_entry_size :: nat
  rf_entry :: "u8 list \<Rightarrow> rk_entry"

definition slice :: "u8 list \<Rightarrow> nat \<Rightarrow> nat \<Rightarrow> u8 list option" where
  "slice blob a b = (if a \<le> b \<and> b \<le> length blob then Some (take (b - a) (drop a blob)) else None)"

definition parse_boot_entry :: "rockfile \<Rightarrow> u8 list \<Rightarrow> u32 \<Rightarrow> rk_entry option" where
  "parse_boot_entry rf blob start =
     map_option (rf_entry rf) (slice blob (unat start) (unat start + rf_entry_size rf))"

fun header_entries :: "rockfile \<Rightarrow> u16 \<Rightarrow> u8 list \<Rightarrow> u32 \<Rightarrow> nat \<Rightarrow> u32 \<Rightarrow> (u16 \<times> u32 \<times> u8 list) list
    \<Rightarrow> (u16 \<times> u32 \<times> u8 list) list option" where
  "header_entries rf area blob step 0 start results = Some results"
| "header_entries rf area blob step (Suc n) start results =
     (case parse_boot_entry rf blob start of
        None \<Rightarrow> None
      | Some e \<Rightarrow>
          if re_size e = 0 then header_entries rf area blob step n start results
          else (case slice blob (unat (re_data_offset e)) (unat (re_data_offset e) + unat (re_data_size e)) of
                  None \<Rightarrow> None
                | Some dat \<Rightarrow>
                    header_entries rf area blob step n (start + step) (results @ [(area, re_data_delay e, dat)])))"

definition parse_boot_header_entry :: "rockfile \<Rightarrow> u16 \<Rightarrow> u8 list \<Rightarrow> rk_header_entry \<Rightarrow> (u16 \<times> u32 \<times> u8 list) list option" where
  "parse_boot_header_entry rf area blob h =
     header_entries rf area blob (ucast (rh_size h)) (unat (rh_count h)) (rh_offset h) []"

definition parse_boot_entries :: "rockfile \<Rightarrow> u8 list \<Rightarrow> (usb_boot_error, (u16 \<times> u32 \<times> u8 list) list) result option" where
  "parse_boot_entries rf blob =
     (case slice blob 0 (rf_header_size rf) of
        None \<Rightarrow> None
      | Some raw \<Rightarrow>
          (case rf_header rf raw of
             None \<Rightarrow> Some (Inl (UsbInternal LoaderCorrupt))
           | Some h \<Rightarrow>
               (case parse_boot_header_entry rf 0x471 blob (rk_entry_471 h) of
                  None \<Rightarrow> None
                | Some xs \<Rightarrow>
                    (case parse_boot_header_entry rf 0x472 blob (rk_entry_472 h) of
                       None \<Rightarrow> None
                     | Some ys \<Rightarrow> Some (Inr (xs @ ys))))))"

text \<open>Writing the areas; the device answers each write knowing what it was given before.\<close>

fun load_boot_entries :: "((u16 \<times> u8 list) list \<Rightarrow> u16 \<Rightarrow> u8 list \<Rightarrow> (string, unit) result)
    \<Rightarrow> (u16 \<times> u32 \<times> u8 list) list \<Rightarrow> (u16 \<times> u8 list) list
    \<Rightarrow> (usb_boot_error, unit) result \<times> (u16 \<times> u8 list) list" where
  "load_boot_entries write [] written = (Inr (), written)"
| "load_boot_entries write ((area, delay, dat) # es) written =
     (case write written area dat of
        Inl e \<Rightarrow> (Inl (UsbInternal (OfTransport e)), written)
      | Inr _ \<Rightarrow> load_boot_entries write es (written @ [(area, dat)]))"

section \<open>The drivers\<close>

record usb_device =
  ud_path :: usb_port_path
  ud_vid_pid :: "(u16 \<times> u16) option"
  ud_sub_minor :: "u8 option"
  ud_open :: bool
  ud_transport :: "(string, unit) result"
  ud_write :: "(u16 \<times> u8 list) list \<Rightarrow> u16 \<Rightarrow> u8 list \<Rightarrow> (string, unit) result"

record usb_host =
  uh_rustpiboot :: "(string, unit) result"
  uh_rockfile :: rockfile
  uh_loader :: "u8 list"
  uh_blocks :: "(io_error, block_entry list) result"
  uh_canonical :: "string \<Rightarrow> (io_error, string) result"
  uh_open :: "string \<Rightarrow> (io_error, flash_device) result"

definition maskrom :: "u8 \<Rightarrow> bool" where
  "maskrom sub_minor = (sub_minor AND 1 = 0)"

definition download_boot :: "usb_host \<Rightarrow> usb_device \<Rightarrow> (usb_boot_error, unit) result option" where
  "download_boot uh dev =
     (case parse_boot_entries (uh_rockfile uh) (uh_loader uh) of
        None \<Rightarrow> None
      | Some (Inl e) \<Rightarrow> Some (Inl e)
      | Some (Inr es) \<Rightarrow> Some (fst (load_boot_entries (ud_write dev) es [])))"

definition prepare_rockusb :: "usb_host \<Rightarrow> usb_device \<Rightarrow> (usb_boot_error, unit) result option" where
  "prepare_rockusb uh dev =
     (case ud_sub_minor dev of
        None \<Rightarrow> Some (Inl RusbError)
      | Some sub_minor \<Rightarrow>
          if \<not> maskrom sub_minor then Some (Inr ())
          else if \<not> ud_open dev then Some (Inl RusbError)
          else (case ud_transport dev of
                  Inl e \<Rightarrow> Some (Inl (UsbInternal (OfTransport e)))
                | Inr _ \<Rightarrow> download_boot uh dev))"

definition prepare_rpi :: "usb_host \<Rightarrow> (usb_boot_error, unit) result" where
  "prepare_rpi uh = (case uh_rustpiboot uh of Inl e \<Rightarrow> Inl (UsbInternal (OfRpiBoot e)) | Inr _ \<Rightarrow> Inr ())"

definition device_path :: "usb_host \<Rightarrow> string list \<Rightarrow> usb_port_path option \<Rightarrow> (usb_boot_error, string) result" where
  "device_path uh allowed port =
     (case get_device_path (uh_blocks uh) (uh_canonical uh) allowed port of
        Inl e \<Rightarrow> Inl (UsbInternal (OfDevices e))
      | Inr path \<Rightarrow> Inr path)"

fun backend_vendors :: "backend \<Rightarrow> string list" where
  "backend_vendors RpiBoot = [''RPi-MSD-'']"
| "backend_vendors RockusbBoot = [''Rockchip'']"

fun backend_block_device :: "usb_host \<Rightarrow> backend \<Rightarrow> usb_device \<Rightarrow> usb_port_path option
    \<Rightarrow> (usb_boot_error, string) result option" where
  "backend_block_device uh RpiBoot dev port =
     Some (case prepare_rpi uh of Inl e \<Rightarrow> Inl e | Inr _ \<Rightarrow> device_path uh (backend_vendors RpiBoot) port)"
| "backend_block_device uh RockusbBoot dev port =
     (case prepare_rockusb uh dev of
        None \<Rightarrow> None
      | Some (Inl e) \<Rightarrow> Some (Inl e)
      | Some (Inr _) \<Rightarrow> Some (device_path uh (backend_vendors RockusbBoot) port))"

definition expected_ports :: "hub_topology option \<Rightarrow> node_id \<Rightarrow> u8 list option" where
  "expected_ports t node = Option.bind t (\<lambda>t. topology_node_ports t (node_number node))"

text \<open>What the daemon asks of the bus in a round: a device whose descriptor cannot be read is
  dropped.\<close>

record bus_scan =
  bs_cancelled :: bool
  bs_devices :: "(usb_boot_error, usb_device list) result"
  bs_took :: duration
  bs_sleep :: "duration option"

definition seen_of :: "usb_device \<Rightarrow> usb_device seen_device option" where
  "seen_of dev =
     map_option (\<lambda>vp. \<lparr>se_vid_pid = vp, se_ports = up_ports (ud_path dev), se_handle = ud_path dev, se_device = dev\<rparr>)
       (ud_vid_pid dev)"

definition round_of :: "bus_scan \<Rightarrow> usb_device bus_round" where
  "round_of s =
     \<lparr>br_cancelled = bs_cancelled s,
      br_devices = (case bs_devices s of Inl e \<Rightarrow> Inl e | Inr devs \<Rightarrow> Inr (filter_map seen_of devs)),
      br_took = bs_took s, br_sleep = bs_sleep s\<rparr>"

definition find_for_node :: "hub_topology option \<Rightarrow> node_id \<Rightarrow> (nat \<Rightarrow> bus_scan) \<Rightarrow> instant
    \<Rightarrow> (usb_boot_error, usb_device \<times> backend) result option" where
  "find_for_node t node scans now =
     (case wait_for_device BACKENDS (expected_ports t node) (node_number node) BOOT_DEVICE_WAIT POLL_INTERVAL
             (\<lambda>i. round_of (scans i)) now of
        None \<Rightarrow> None
      | Some (Inl e) \<Rightarrow> Some (Inl e)
      | Some (Inr (dev, idx)) \<Rightarrow> Some (Inr (dev, BACKENDS ! idx)))"

definition load_as_block_device :: "usb_host \<Rightarrow> hub_topology option \<Rightarrow> node_id \<Rightarrow> (nat \<Rightarrow> bus_scan) \<Rightarrow> instant
    \<Rightarrow> (usb_boot_error, string) result option" where
  "load_as_block_device uh t node scans now =
     (case find_for_node t node scans now of
        None \<Rightarrow> None
      | Some (Inl e) \<Rightarrow> Some (Inl e)
      | Some (Inr (dev, driver)) \<Rightarrow>
          backend_block_device uh driver dev (map_option (\<lambda>_. ud_path dev) (expected_ports t node)))"

definition load_as_stream :: "usb_host \<Rightarrow> hub_topology option \<Rightarrow> node_id \<Rightarrow> (nat \<Rightarrow> bus_scan) \<Rightarrow> instant
    \<Rightarrow> (usb_boot_error, flash_device) result option" where
  "load_as_stream uh t node scans now =
     (case load_as_block_device uh t node scans now of
        None \<Rightarrow> None
      | Some (Inl e) \<Rightarrow> Some (Inl e)
      | Some (Inr path) \<Rightarrow> Some (case uh_open uh path of Inl e \<Rightarrow> Inl (UsbIo e) | Inr dev \<Rightarrow> Inr dev))"

text \<open>\<open>BmcApplication::node_in_msd\<close>: the gadget is told of the node's storage; that it could not
  take it is logged and no error.\<close>

datatype msd_error = MsdBoard app_error | MsdUsb usb_boot_error

definition node_in_msd :: "gadget_service \<Rightarrow> (nat \<Rightarrow> nat option) \<Rightarrow> (nat \<Rightarrow> nat option) \<Rightarrow> usb_host \<Rightarrow> hub_topology option
    \<Rightarrow> (nat \<Rightarrow> bus_scan) \<Rightarrow> instant \<Rightarrow> node_id \<Rightarrow> bmc \<Rightarrow> (msd_error, string) result option \<times> bmc" where
  "node_in_msd script clock1 clock2 uh t scans now node b =
     (case reboot_into_usb script clock1 clock2 node (Flashing node RouteBmc) b of
        (Inl e, b) \<Rightarrow> (Some (Inl (MsdBoard e)), b)
      | (Inr _, b) \<Rightarrow>
          (case load_as_block_device uh t node scans now of
             None \<Rightarrow> (None, b)
           | Some (Inl e) \<Rightarrow> (Some (Inl (MsdUsb e)), b)
           | Some (Inr blk_dev) \<Rightarrow>
               (Some (Inr blk_dev),
                b\<lparr>bm_gadget := snd (append_msd_config_to_usb_gadget script blk_dev (bm_gadget b))\<rparr>)))"

section \<open>Facts about looking\<close>

definition on_port :: "u8 list option \<Rightarrow> 'd seen_device \<Rightarrow> bool" where
  "on_port expected dev = (case expected of None \<Rightarrow> True | Some e \<Rightarrow> se_ports dev = e)"

definition hit :: "backend list \<Rightarrow> u8 list option \<Rightarrow> 'd seen_device \<Rightarrow> bool" where
  "hit backends expected dev = (on_port expected dev \<and> list_ex (\<lambda>b. is_supported b (se_vid_pid dev)) backends)"

lemma position_Some: "position P xs = Some i \<Longrightarrow> i < length xs \<and> P (xs ! i)"
  by (induction xs arbitrary: i) (auto split: if_splits)

lemma position_None: "position P xs = None \<longleftrightarrow> \<not> list_ex P xs"
  by (induction xs) auto

lemma look_at_found:
  "look_at bks ex devs els oth found = LookFound d idx
   \<Longrightarrow> found = Some (d, idx)
     \<or> (d \<in> set devs \<and> on_port ex d \<and> idx < length bks \<and> is_supported (bks ! idx) (se_vid_pid d))"
proof (induction devs arbitrary: els oth found)
  case Nil
  then show ?case by (auto split: option.splits prod.splits)
next
  case (Cons dev devs)
  show ?case
  proof (cases "position (\<lambda>b. is_supported b (se_vid_pid dev)) bks")
    case None
    then show ?thesis using Cons by (fastforce simp: Let_def split: if_splits)
  next
    case (Some i)
    show ?thesis
    proof (cases "on_port ex dev")
      case True
      then have "look_at bks ex devs els oth (case found of None \<Rightarrow> Some (dev, i) | Some f \<Rightarrow> Some f) = LookFound d idx"
        using Cons.prems Some by (simp add: on_port_def Let_def)
      from Cons.IH [OF this] show ?thesis using True position_Some [OF Some] by (cases found) auto
    next
      case False
      then show ?thesis using Cons Some by (fastforce simp: on_port_def Let_def)
    qed
  qed
qed

lemma look_at_missing:
  "look_at bks ex devs els oth found = LookMissing e os \<Longrightarrow> found = None \<and> list_all (\<lambda>d. \<not> hit bks ex d) devs"
proof (induction devs arbitrary: els oth found)
  case Nil
  then show ?case by (auto split: option.splits prod.splits)
next
  case (Cons dev devs)
  show ?case
  proof (cases "position (\<lambda>b. is_supported b (se_vid_pid dev)) bks")
    case None
    then have "\<not> hit bks ex dev" by (simp add: hit_def position_None)
    then show ?thesis using Cons None by (fastforce simp: Let_def split: if_splits)
  next
    case (Some i)
    show ?thesis
    proof (cases "on_port ex dev")
      case True
      then have "look_at bks ex devs els oth (case found of None \<Rightarrow> Some (dev, i) | Some f \<Rightarrow> Some f) = LookMissing e os"
        using Cons.prems Some by (simp add: on_port_def Let_def)
      from Cons.IH [OF this] show ?thesis by (cases found) auto
    next
      case False
      then have "\<not> hit bks ex dev" by (simp add: hit_def)
      then show ?thesis using Cons Some False by (fastforce simp: on_port_def Let_def)
    qed
  qed
qed

lemma look_found:
  "look bks ex devs = LookFound d idx
   \<Longrightarrow> d \<in> set devs \<and> on_port ex d \<and> idx < length bks \<and> is_supported (bks ! idx) (se_vid_pid d)"
  unfolding look_def using look_at_found by fastforce

lemma look_missing: "look bks ex devs = LookMissing e os \<Longrightarrow> list_all (\<lambda>d. \<not> hit bks ex d) devs"
  unfolding look_def using look_at_missing by blast

section \<open>Facts about waiting\<close>

fun round_start :: "duration \<Rightarrow> (nat \<Rightarrow> 'd bus_round) \<Rightarrow> instant \<Rightarrow> nat \<Rightarrow> instant" where
  "round_start interval rounds now 0 = now"
| "round_start interval rounds now (Suc i) =
     round_start interval rounds now i + br_took (rounds i) + interval
       + (case br_sleep (rounds i) of None \<Rightarrow> 0 | Some late \<Rightarrow> late)"

text \<open>A round the wait comes to: none before it was cancelled, and each left room for another.\<close>

definition round_reached :: "duration \<Rightarrow> duration \<Rightarrow> (nat \<Rightarrow> 'd bus_round) \<Rightarrow> instant \<Rightarrow> nat \<Rightarrow> bool" where
  "round_reached wait interval rounds now i =
     list_all (\<lambda>j. \<not> br_cancelled (rounds j) \<and> br_sleep (rounds j) \<noteq> None
       \<and> round_start interval rounds now j + br_took (rounds j) + interval \<le> now + wait) [0..<i]"

definition round_shows :: "backend list \<Rightarrow> u8 list option \<Rightarrow> 'd bus_round \<Rightarrow> bool" where
  "round_shows backends expected r =
     (\<not> br_cancelled r \<and> (case br_devices r of Inl _ \<Rightarrow> False | Inr devs \<Rightarrow> list_ex (hit backends expected) devs))"

definition wait_ends :: "backend list \<Rightarrow> u8 list option \<Rightarrow> u8 \<Rightarrow> duration \<Rightarrow> duration \<Rightarrow> (nat \<Rightarrow> 'd bus_round) \<Rightarrow> instant
    \<Rightarrow> (usb_boot_error, 'd \<times> nat) result \<Rightarrow> bool" where
  "wait_ends bks ex node wait interval rounds now res =
     (case res of
        Inr (d, idx) \<Rightarrow>
          (\<exists>k devs dev. round_reached wait interval rounds now k \<and> br_devices (rounds k) = Inr devs \<and> dev \<in> set devs
             \<and> se_device dev = d \<and> on_port ex dev \<and> idx < length bks \<and> is_supported (bks ! idx) (se_vid_pid dev))
      | Inl e \<Rightarrow>
          if e = UsbCancelled
          then (\<exists>k. round_reached wait interval rounds now k \<and> (br_cancelled (rounds k) \<or> br_sleep (rounds k) = None))
          else (\<exists>others elsewhere. e = wait_error ex node wait others elsewhere)
            \<and> (\<forall>k. round_reached wait interval rounds now k \<longrightarrow> \<not> round_shows bks ex (rounds k)))"

lemma round_start_ge: "now + i * interval \<le> round_start interval rounds now i"
  by (induction i) auto

lemma round_reached_Suc:
  "round_reached wait interval rounds now (Suc i) \<longleftrightarrow>
     round_reached wait interval rounds now i \<and> \<not> br_cancelled (rounds i) \<and> br_sleep (rounds i) \<noteq> None
     \<and> round_start interval rounds now i + br_took (rounds i) + interval \<le> now + wait"
  by (auto simp: round_reached_def)

lemma round_reached_down: "round_reached wait interval rounds now k \<Longrightarrow> i \<le> k \<Longrightarrow> round_reached wait interval rounds now i"
  by (auto simp: round_reached_def list_all_iff)

lemma round_reached_bound:
  assumes "0 < interval" and "round_reached wait interval rounds now k"
  shows "k \<le> wait div interval"
proof (cases k)
  case (Suc i)
  have "now + i * interval + interval \<le> now + wait"
    using round_start_ge [of now i interval rounds] assms(2) by (simp add: Suc round_reached_Suc)
  then have "k * interval \<le> wait" by (simp add: Suc)
  then show ?thesis using assms(1) by (simp add: less_eq_div_iff_mult_less_eq)
qed simp

lemma wait_error_not_cancelled: "wait_error ex node wait others elsewhere \<noteq> UsbCancelled"
  by (auto simp: wait_error_def split: option.splits)

lemma note_round_found:
  assumes "note_round bks ex r others elsewhere = Inl (d, idx)"
  shows "\<exists>devs dev. br_devices r = Inr devs \<and> dev \<in> set devs \<and> se_device dev = d \<and> on_port ex dev
    \<and> idx < length bks \<and> is_supported (bks ! idx) (se_vid_pid dev)"
  using assms look_found unfolding note_round_def by (fastforce split: sum.splits look_result.splits)

lemma note_round_missing:
  assumes "note_round bks ex r others elsewhere = Inr st"
  shows "\<not> round_shows bks ex r"
  using assms look_missing unfolding note_round_def round_shows_def
  by (fastforce simp: list_all_iff list_ex_iff split: sum.splits look_result.splits)

lemma wait_loop_ends:
  assumes pos: "0 < interval"
  shows "now = round_start interval rounds now0 i \<Longrightarrow> round_reached wait interval rounds now0 i
    \<Longrightarrow> \<forall>k < i. \<not> round_shows bks ex (rounds k)
    \<Longrightarrow> \<exists>res. wait_loop bks ex node wait interval rounds (now0 + wait) i now others elsewhere = Some res
          \<and> wait_ends bks ex node wait interval rounds now0 res"
proof (induction "wait div interval - i" arbitrary: i now others elsewhere rule: less_induct)
  case less
  note unfold_loop = wait_loop.simps [of bks ex node wait interval rounds "now0 + wait" i now others elsewhere]
  consider (cancelled) "br_cancelled (rounds i)"
    | (found) d idx where "\<not> br_cancelled (rounds i)" "note_round bks ex (rounds i) others elsewhere = Inl (d, idx)"
    | (missing) oth els where "\<not> br_cancelled (rounds i)" "note_round bks ex (rounds i) others elsewhere = Inr (oth, els)"
    by (cases "note_round bks ex (rounds i) others elsewhere") auto
  then show ?case
  proof cases
    case cancelled
    then show ?thesis using less.prems by (subst unfold_loop) (auto simp: wait_ends_def)
  next
    case found
    then show ?thesis using less.prems(2) note_round_found [OF found(2)]
      by (subst unfold_loop) (simp add: wait_ends_def, blast)
  next
    case missing
    note quiet = note_round_missing [OF missing(2)]
    show ?thesis
    proof (cases "now + br_took (rounds i) + interval > now0 + wait")
      case True
      have "\<not> round_reached wait interval rounds now0 k" if "i < k" for k
        using round_reached_down [of wait interval rounds now0 k "Suc i"] that True less.prems(1)
        by (auto simp: round_reached_Suc)
      then have "\<not> round_shows bks ex (rounds k)" if "round_reached wait interval rounds now0 k" for k
        using that less.prems(3) quiet by (metis linorder_neqE_nat)
      then show ?thesis using True missing
        by (subst unfold_loop) (auto simp: wait_ends_def wait_error_not_cancelled)
    next
      case False
      show ?thesis
      proof (cases "br_sleep (rounds i)")
        case None
        then show ?thesis using False missing less.prems by (subst unfold_loop) (auto simp: wait_ends_def)
      next
        case (Some late)
        have r: "round_reached wait interval rounds now0 (Suc i)"
          using False Some missing(1) less.prems by (simp add: round_reached_Suc)
        have "\<forall>k < Suc i. \<not> round_shows bks ex (rounds k)" using less.prems(3) quiet by (auto simp: less_Suc_eq)
        moreover have "wait div interval - Suc i < wait div interval - i"
          using round_reached_bound [OF pos r] by simp
        ultimately have "\<exists>res. wait_loop bks ex node wait interval rounds (now0 + wait) (Suc i)
            (now + br_took (rounds i) + interval + late) oth els = Some res
          \<and> wait_ends bks ex node wait interval rounds now0 res"
          using less.hyps [of "Suc i"] r less.prems(1) Some by simp
        then show ?thesis using False Some missing by (subst unfold_loop) simp
      qed
    qed
  qed
qed

lemma wait_loop_cong:
  assumes pos: "0 < interval" and same: "\<forall>k \<le> wait div interval. rounds' k = rounds k"
  shows "now = round_start interval rounds now0 i \<Longrightarrow> round_reached wait interval rounds now0 i
    \<Longrightarrow> wait_loop bks ex node wait interval rounds' (now0 + wait) i now others elsewhere
      = wait_loop bks ex node wait interval rounds (now0 + wait) i now others elsewhere"
proof (induction "wait div interval - i" arbitrary: i now others elsewhere rule: less_induct)
  case less
  have eq: "rounds' i = rounds i" using same round_reached_bound [OF pos less.prems(2)] by simp
  have step: "wait_loop bks ex node wait interval rounds' (now0 + wait) (Suc i) (now + br_took (rounds i) + interval + late) oth els
      = wait_loop bks ex node wait interval rounds (now0 + wait) (Suc i) (now + br_took (rounds i) + interval + late) oth els"
    if "\<not> br_cancelled (rounds i)" "\<not> now0 + wait < now + br_took (rounds i) + interval" "br_sleep (rounds i) = Some late"
    for late oth els
  proof -
    have r: "round_reached wait interval rounds now0 (Suc i)" using that less.prems by (simp add: round_reached_Suc)
    then show ?thesis
      using less.hyps [of "Suc i"] round_reached_bound [OF pos r] less.prems(1) that(3) by simp
  qed
  show ?case
    by (simp add: wait_loop.simps [of bks ex node wait interval _ "now0 + wait" i now others elsewhere] eq step
        split: sum.split option.split)
qed

lemma wait_for_device_ends:
  assumes "0 < interval"
  shows "\<exists>res. wait_for_device bks ex node wait interval rounds now = Some res \<and> wait_ends bks ex node wait interval rounds now res"
  unfolding wait_for_device_def by (rule wait_loop_ends [OF assms]) (simp_all add: round_reached_def)

lemma wait_for_device_cong:
  assumes "0 < interval" and "\<forall>k \<le> wait div interval. rounds' k = rounds k"
  shows "wait_for_device bks ex node wait interval rounds' now = wait_for_device bks ex node wait interval rounds now"
  unfolding wait_for_device_def by (rule wait_loop_cong [OF assms]) (simp_all add: round_reached_def)

lemma poll_constants: "0 < POLL_INTERVAL" "BOOT_DEVICE_WAIT div POLL_INTERVAL = 60"
  by (simp_all add: POLL_INTERVAL_def BOOT_DEVICE_WAIT_def from_secs_def)

text \<open>C34: waiting for the boot device of a node always comes to an end, and what it answers depends on
  at most sixty-one looks at the bus, whatever the bus answers and however long it takes.\<close>

theorem find_for_node_returns:
  "\<exists>res. find_for_node t node scans now = Some res
     \<and> (\<forall>scans'. (\<forall>k \<le> 60. scans' k = scans k) \<longrightarrow> find_for_node t node scans' now = Some res)"
proof -
  let ?wait = "\<lambda>scans. wait_for_device BACKENDS (expected_ports t node) (node_number node) BOOT_DEVICE_WAIT POLL_INTERVAL
    (\<lambda>i. round_of (scans i)) now"
  obtain res where w: "?wait scans = Some res"
    using wait_for_device_ends [OF poll_constants(1)] by blast
  have "?wait scans' = Some res" if "\<forall>k \<le> 60. scans' k = scans k" for scans'
    using wait_for_device_cong [OF poll_constants(1), of BOOT_DEVICE_WAIT "\<lambda>i. round_of (scans' i)"
        "\<lambda>i. round_of (scans i)"] that w by (simp add: poll_constants(2))
  then show ?thesis using w by (cases res) (auto simp: find_for_node_def)
qed

section \<open>Facts about sysfs names\<close>

lemma split_on_head:
  "c \<notin> set n \<Longrightarrow> starts_with (n @ [c]) xs \<longleftrightarrow> hd (split_on c xs) = n \<and> tl (split_on c xs) \<noteq> []"
proof (induction xs arbitrary: n)
  case Nil
  then show ?case by (simp add: split_on_def starts_with_def)
next
  case (Cons y ys)
  obtain w ws where s: "split_on c ys = w # ws" by (cases "split_on c ys") (simp_all add: split_on_def)
  show ?case using Cons s by (cases n) (auto simp: split_on_def starts_with_def)
qed

lemma contains_component:
  "c \<notin> set n \<Longrightarrow> str_contains (c # n @ [c]) s \<longleftrightarrow> n \<in> set (butlast (tl (split_on c s)))"
proof (induction s)
  case Nil
  then show ?case by (simp add: split_on_def)
next
  case (Cons x xs)
  obtain w ws where s: "split_on c xs = w # ws" by (cases "split_on c xs") (simp_all add: split_on_def)
  then have "split_on c (x # xs) = (if x = c then [] # w # ws else (x # w) # ws)" by (simp add: split_on_def)
  moreover have "starts_with (c # n @ [c]) (x # xs) \<longleftrightarrow> x = c \<and> starts_with (n @ [c]) xs"
    by (auto simp: starts_with_def)
  ultimately show ?case using Cons s split_on_head [OF Cons.prems, of xs] by auto
qed

lemma show_u8_chars: "c \<in> set (show_u8 w) \<Longrightarrow> is_ascii_digit c"
  using show_nat_digits by (auto simp: show_u8_def list_all_iff)

lemma show_u8_plain: "CHR ''/'' \<notin> set (show_u8 w)" "CHR ''.'' \<notin> set (show_u8 w)" "CHR ''-'' \<notin> set (show_u8 w)"
  using show_u8_chars [of "CHR ''/''" w] show_u8_chars [of "CHR ''.''" w] show_u8_chars [of "CHR ''-''" w]
  by (auto simp: is_ascii_digit_def)

lemma show_u8_inj: "show_u8 a = show_u8 b \<Longrightarrow> a = b"
  by (simp add: show_u8_def) (metis show_nat_inj unsigned_word_eqI)

lemma show_u8_not_Nil [simp]: "show_u8 w \<noteq> []"
  by (simp add: show_u8_def)

lemma sysfs_name_plain: "CHR ''/'' \<notin> set (sysfs_name p)"
  using set_join [of "''.''" "map show_u8 (up_ports p)"] show_u8_plain(1) by (auto simp: sysfs_name_def)

lemma split_on_join_parts:
  "list_all (\<lambda>w. c \<notin> set w) ws \<Longrightarrow> ws \<noteq> [] \<Longrightarrow> split_on c (join [c] ws) = ws"
proof (induction "[c]" ws rule: join.induct)
  case (2 x)
  then show ?case using split_p_none [of "\<lambda>z. z = c" x] by (auto simp: split_on_def list_all_iff)
next
  case (3 x y ys)
  then show ?case using split_p_append [of "\<lambda>z. z = c" x c "join [c] (y # ys)"]
    by (auto simp: split_on_def list_all_iff)
qed simp

lemma describe_ports_inj: "describe_ports a = describe_ports b \<Longrightarrow> a = b"
proof -
  assume eq: "describe_ports a = describe_ports b"
  have ne: "describe_ports xs = [] \<longleftrightarrow> xs = []" for xs
    unfolding describe_ports_def by (cases xs; cases "tl xs") auto
  have sp: "xs \<noteq> [] \<Longrightarrow> split_on CHR ''.'' (describe_ports xs) = map show_u8 xs" for xs
    unfolding describe_ports_def by (rule split_on_join_parts) (auto simp: list_all_iff show_u8_plain)
  show "a = b"
  proof (cases "a = []")
    case False
    then have "map show_u8 a = map show_u8 b" using eq ne sp by metis
    then show ?thesis by (rule map_injective) (auto intro: injI show_u8_inj)
  next
    case True
    then show ?thesis using eq ne by metis
  qed
qed

lemma sysfs_name_inj: "sysfs_name p = sysfs_name q \<Longrightarrow> p = q"
proof -
  assume eq: "sysfs_name p = sysfs_name q"
  have "split_once CHR ''-'' (sysfs_name x) = Some (show_u8 (up_bus x), describe_ports (up_ports x))" for x
    using split_once_append [OF show_u8_plain(3)] by (simp add: sysfs_name_def describe_ports_def)
  then have "show_u8 (up_bus p) = show_u8 (up_bus q)" "describe_ports (up_ports p) = describe_ports (up_ports q)"
    using eq by (metis option.inject prod.inject)+
  then show ?thesis using show_u8_inj describe_ports_inj by (metis usb_port_path.equality unit.exhaust)
qed

text \<open>The directories a path passes through.\<close>

definition passes_through :: "string \<Rightarrow> string \<Rightarrow> bool" where
  "passes_through path name = (name \<in> set (butlast (tl (split_on CHR ''/'' path))))"

lemma port_contains_iff: "port_contains p path \<longleftrightarrow> passes_through path (sysfs_name p)"
  using contains_component [OF sysfs_name_plain, of p path] by (simp add: port_contains_def passes_through_def)

section \<open>Facts about the topology\<close>

lemma map_of_bmap_insert: "sorted_wrt (<) (map fst m) \<Longrightarrow> map_of (bmap_insert k v m) = (map_of m)(k \<mapsto> v)"
proof (induction m)
  case (Cons e m)
  then show ?case by (cases e) (auto simp: fun_eq_iff map_of_eq_None_iff)
qed (simp add: fun_eq_iff)

lemma set_bmap_insert: "set (map fst (bmap_insert k v m)) = insert k (set (map fst m))"
proof (induction m)
  case (Cons e m)
  then show ?case by (cases e) (simp add: insert_commute)
qed simp

lemma sorted_bmap_insert: "sorted_wrt (<) (map fst m) \<Longrightarrow> sorted_wrt (<) (map fst (bmap_insert k v m))"
proof (induction m)
  case (Cons e m)
  then show ?case using set_bmap_insert [of k v m] by (cases e) (auto simp del: set_map)
qed simp

text \<open>What the tree says of a node's port: an entry labelled with its number, and the number in
  its \<open>reg\<close> cell.\<close>

definition dt_says :: "(string \<times> dt_node) list \<Rightarrow> u8 \<Rightarrow> u8 \<Rightarrow> bool" where
  "dt_says es node port = list_ex (\<lambda>(name, e). node_label name = Some node \<and> read_reg (dt_join e ''reg'') = Some port) es"

lemma read_node_ports_says:
  "sorted_wrt (<) (map fst m) \<Longrightarrow> map_of (read_node_ports es m) node = Some port
   \<Longrightarrow> dt_says es node port \<or> map_of m node = Some port"
proof (induction es m rule: read_node_ports.induct)
  case (2 name entry es m)
  show ?case
  proof (cases "node_label name")
    case None
    then show ?thesis using 2 by (auto simp: dt_says_def)
  next
    case (Some n)
    note lab = Some
    show ?thesis
    proof (cases "read_reg (dt_join entry ''reg'')")
      case None
      then show ?thesis using 2 lab by (auto simp: dt_says_def)
    next
      case (Some p)
      have "dt_says es node port \<or> map_of (bmap_insert n p m) node = Some port"
        using "2.IH"(3) [OF lab Some sorted_bmap_insert [OF "2.prems"(1)]] "2.prems"(2) lab Some by simp
      then show ?thesis using map_of_bmap_insert [OF "2.prems"(1), of n p] lab Some
        by (auto simp: dt_says_def split: if_splits)
    qed
  qed
qed simp

lemma topology_node_ports_says:
  assumes "topology_read_from root = Some t" and "topology_node_ports t node = Some ports"
  shows "\<exists>hub es hub_port port. find_hub root = Some hub \<and> dt_read_dir hub = Some es \<and> ports = [hub_port, port]
    \<and> read_reg (dt_join hub ''reg'') = Some hub_port \<and> dt_says es node port"
proof -
  obtain hub es hub_port where h: "find_hub root = Some hub" "dt_read_dir hub = Some es"
      "read_reg (dt_join hub ''reg'') = Some hub_port" "t = \<lparr>ht_hub_port = hub_port, ht_node_ports = read_node_ports es []\<rparr>"
    using assms(1) by (auto simp: topology_read_from_def Let_def split: option.splits if_splits)
  obtain port where p: "map_of (read_node_ports es []) node = Some port" "ports = [hub_port, port]"
    using assms(2) h(4) by (auto simp: topology_node_ports_def)
  show ?thesis using h p read_node_ports_says [OF _ p(1)] by auto
qed

section \<open>Facts about the storage of a node\<close>

definition candidate :: "string list \<Rightarrow> usb_port_path \<Rightarrow> block_entry \<Rightarrow> bool" where
  "candidate allowed port e =
     (case (be_vendor e, be_link e) of
        (Some vendor, Inr path) \<Rightarrow> trim vendor \<in> set allowed \<and> passes_through path (sysfs_name port)
      | _ \<Rightarrow> False)"

lemma sort_blocks_matching:
  "fst (sort_blocks allowed (Some port) es matching wrong) = matching @ map be_name (filter (candidate allowed port) es)"
  by (induction es arbitrary: matching wrong)
    (auto simp: candidate_def port_contains_iff split: option.splits sum.splits)

lemma get_device_path_ok:
  assumes "get_device_path blocks canonical allowed (Some port) = Inr path"
  shows "\<exists>entries e. blocks = Inr entries \<and> filter (candidate allowed port) entries = [e]
    \<and> canonical (''/dev/'' @ be_name e) = Inr path"
proof -
  obtain entries where b: "blocks = Inr entries" using assms by (auto simp: get_device_path_def split: sum.splits)
  let ?c = "filter (candidate allowed port) entries"
  have "\<exists>name. choose_block (sort_blocks allowed (Some port) entries [] []) (Some port) = Inr name
      \<and> canonical (''/dev/'' @ name) = Inr path"
    using assms b by (auto simp: get_device_path_def split: sum.splits)
  then obtain name where "map be_name ?c = [name]" "canonical (''/dev/'' @ name) = Inr path"
    using sort_blocks_matching [of allowed port entries "[]" "[]"]
    by (auto simp: choose_block_def split: list.splits if_splits)
  then show ?thesis using b by (auto simp: map_eq_Cons_conv)
qed

lemma block_device_path:
  assumes "backend_block_device uh bk dev port = Some (Inr path)"
  shows "device_path uh (backend_vendors bk) port = Inr path"
  using assms by (cases bk) (auto split: sum.splits option.splits)

lemma find_for_node_own_port:
  assumes "find_for_node t node scans now = Some (Inr (dev, bk))"
  shows "\<exists>k devs vp. bs_devices (scans k) = Inr devs \<and> dev \<in> set devs \<and> ud_vid_pid dev = Some vp \<and> is_supported bk vp
    \<and> (expected_ports t node = None \<or> expected_ports t node = Some (up_ports (ud_path dev)))"
proof -
  let ?rounds = "\<lambda>i. round_of (scans i)" and ?ex = "expected_ports t node"
  obtain idx where w: "wait_for_device BACKENDS ?ex (node_number node) BOOT_DEVICE_WAIT POLL_INTERVAL ?rounds now = Some (Inr (dev, idx))"
    and bk: "bk = BACKENDS ! idx"
    using assms by (auto simp: find_for_node_def split: option.splits sum.splits)
  have "wait_ends BACKENDS ?ex (node_number node) BOOT_DEVICE_WAIT POLL_INTERVAL ?rounds now (Inr (dev, idx))"
    using wait_for_device_ends [OF poll_constants(1), of BACKENDS ?ex "node_number node" BOOT_DEVICE_WAIT ?rounds now] w by auto
  then obtain k seen sdev where s: "br_devices (?rounds k) = Inr seen" "sdev \<in> set seen" "se_device sdev = dev"
      "on_port ?ex sdev" "is_supported (BACKENDS ! idx) (se_vid_pid sdev)"
    by (auto simp: wait_ends_def)
  obtain devs d where d: "bs_devices (scans k) = Inr devs" "d \<in> set devs" "seen_of d = Some sdev"
    using s(1,2) by (auto simp: round_of_def set_filter_map split: sum.splits)
  have "d = dev" "ud_vid_pid dev = Some (se_vid_pid sdev)" "se_ports sdev = up_ports (ud_path dev)"
    using d(3) s(3) by (auto simp: seen_of_def)
  then show ?thesis using s(4,5) d bk by (auto simp: on_port_def split: option.splits)
qed

text \<open>The storage behind a node: the one entry of \<open>/sys/block\<close> whose device hangs off the port the
  node is wired to, and the device file that is opened for it.\<close>

definition own_storage :: "usb_host \<Rightarrow> (nat \<Rightarrow> bus_scan) \<Rightarrow> u8 list \<Rightarrow> flash_device \<Rightarrow> bool" where
  "own_storage uh scans ports fd =
     (\<exists>k devs dev bk vp entries e path. bs_devices (scans k) = Inr devs \<and> dev \<in> set devs
        \<and> up_ports (ud_path dev) = ports \<and> ud_vid_pid dev = Some vp \<and> is_supported bk vp
        \<and> uh_blocks uh = Inr entries \<and> filter (candidate (backend_vendors bk) (ud_path dev)) entries = [e]
        \<and> uh_canonical uh (''/dev/'' @ be_name e) = Inr path \<and> uh_open uh path = Inr fd)"

lemma load_as_stream_own:
  assumes l: "load_as_stream uh t node scans now = Some (Inr fd)" and p: "expected_ports t node = Some ports"
  shows "own_storage uh scans ports fd"
proof -
  obtain path where b: "load_as_block_device uh t node scans now = Some (Inr path)" and o: "uh_open uh path = Inr fd"
    using l by (auto simp: load_as_stream_def split: option.splits sum.splits)
  obtain dev bk where f: "find_for_node t node scans now = Some (Inr (dev, bk))"
    and bb: "backend_block_device uh bk dev (Some (ud_path dev)) = Some (Inr path)"
    using b p by (auto simp: load_as_block_device_def split: option.splits sum.splits)
  have "get_device_path (uh_blocks uh) (uh_canonical uh) (backend_vendors bk) (Some (ud_path dev)) = Inr path"
    using block_device_path [OF bb] by (simp add: device_path_def split: sum.splits)
  then obtain entries e where "uh_blocks uh = Inr entries" "filter (candidate (backend_vendors bk) (ud_path dev)) entries = [e]"
      "uh_canonical uh (''/dev/'' @ be_name e) = Inr path"
    using get_device_path_ok by blast
  moreover obtain k devs vp where "bs_devices (scans k) = Inr devs" "dev \<in> set devs" "ud_vid_pid dev = Some vp"
      "is_supported bk vp" "up_ports (ud_path dev) = ports"
    using find_for_node_own_port [OF f] p by auto
  ultimately show ?thesis using o unfolding own_storage_def by blast
qed

text \<open>C15: a flash that ends well on a board whose device tree describes the hub has written the storage
  of the node it was asked for: the boot device was seen on the port chain the tree gives that
  node, the block device opened is the only one of its kind whose sysfs path passes through
  that port's directory, and no other port has a directory of that name.\<close>

theorem flash_own_port:
  assumes "topology_read_from root = Some t" and "topology_node_ports t (node_number node) = Some ports"
    and "load_as_stream uh (Some t) node scans now = Some r"
    and "fr_load fr node = (case r of Inl e \<Rightarrow> Inl (say e) | Inr fd \<Rightarrow> Inr fd)"
    and "flash_node env fr tr fs node b = (Inr (), b')"
  shows "(\<exists>fd. fr_load fr node = Inr fd \<and> own_storage uh scans ports fd)
    \<and> (\<exists>hub es hub_port port. find_hub root = Some hub \<and> dt_read_dir hub = Some es \<and> ports = [hub_port, port]
         \<and> read_reg (dt_join hub ''reg'') = Some hub_port \<and> dt_says es (node_number node) port)
    \<and> (\<forall>p q. sysfs_name p = sysfs_name q \<longrightarrow> p = q)"
proof -
  obtain fd where fd: "fr_load fr node = Inr fd"
    using assms(5) by (cases "fr_load fr node") (auto simp: flash_node_def node_in_flash_def split: prod.splits sum.splits)
  then have "r = Inr fd" using assms(4) by (auto split: sum.splits)
  then have "own_storage uh scans ports fd"
    using load_as_stream_own [of uh "Some t" node scans now fd ports] assms(2,3) by (simp add: expected_ports_def)
  then show ?thesis using fd topology_node_ports_says [OF assms(1,2)] sysfs_name_inj by blast
qed

section \<open>Facts about the Rockchip loader\<close>

text \<open>The entries a header announces, one after the other.\<close>

definition announced :: "rockfile \<Rightarrow> u8 list \<Rightarrow> u32 \<Rightarrow> u32 \<Rightarrow> nat \<Rightarrow> rk_entry option list" where
  "announced rf blob step start n = map (\<lambda>i. parse_boot_entry rf blob (start + of_nat i * step)) [0..<n]"

definition boot_area :: "u16 \<Rightarrow> u8 list \<Rightarrow> rk_entry \<Rightarrow> (u16 \<times> u32 \<times> u8 list) option" where
  "boot_area area blob e =
     map_option (\<lambda>dat. (area, re_data_delay e, dat))
       (slice blob (unat (re_data_offset e)) (unat (re_data_offset e) + unat (re_data_size e)))"

lemma announced_Suc: "announced rf blob step start (Suc n) = parse_boot_entry rf blob start # announced rf blob step (start + step) n"
proof -
  have "[0..<Suc n] = 0 # map Suc [0..<n]" by (simp add: map_Suc_upt upt_conv_Cons)
  then show ?thesis by (simp add: announced_def comp_def algebra_simps)
qed

lemma header_entries_all:
  "announced rf blob step start (length es) = map Some es \<Longrightarrow> list_all (\<lambda>e. re_size e \<noteq> 0) es
   \<Longrightarrow> map (boot_area area blob) es = map Some areas
   \<Longrightarrow> header_entries rf area blob step (length es) start results = Some (results @ areas)"
proof (induction es arbitrary: start results areas)
  case (Cons e es)
  then obtain a areas' where "areas = a # areas'" "boot_area area blob e = Some a" by (cases areas) auto
  then show ?case using Cons by (auto simp: announced_Suc boot_area_def)
qed (simp add: announced_def)

lemma header_entries_stuck:
  "parse_boot_entry rf blob start = Some e \<Longrightarrow> re_size e = 0
   \<Longrightarrow> header_entries rf area blob step n start results = Some results"
  by (induction n) auto

lemma header_entries_prefix:
  "announced rf blob step start (length es) = map Some es \<Longrightarrow> list_all (\<lambda>e. re_size e \<noteq> 0) es
   \<Longrightarrow> map (boot_area area blob) es = map Some areas
   \<Longrightarrow> header_entries rf area blob step (length es + n) start results
     = header_entries rf area blob step n (start + of_nat (length es) * step) (results @ areas)"
proof (induction es arbitrary: start results areas)
  case (Cons e es)
  then obtain a areas' where "areas = a # areas'" "boot_area area blob e = Some a" by (cases areas) auto
  then show ?case using Cons by (auto simp: announced_Suc boot_area_def algebra_simps)
qed simp

text \<open>An empty entry in the loader hides every entry after it: the loop skips the step to the next
  one and reads the same entry again.\<close>

lemma empty_entry_hides_rest:
  assumes "announced rf blob step start (length es) = map Some es" and "list_all (\<lambda>e. re_size e \<noteq> 0) es"
    and "map (boot_area area blob) es = map Some areas"
    and "parse_boot_entry rf blob (start + of_nat (length es) * step) = Some e" and "re_size e = 0"
  shows "header_entries rf area blob step (length es + n) start [] = Some areas"
  using header_entries_prefix [OF assms(1-3), of n "[]"] header_entries_stuck [OF assms(4,5)] by simp

section \<open>A working board\<close>

definition hw_sound :: "hardware \<Rightarrow> unit hw_result \<Rightarrow> bool" where
  "hw_sound hw r = (fst r = Inr () \<and> hw_faults (snd r) = [] \<and> hw_arch (snd r) = hw_arch hw)"

lemma hw_write_sound:
  assumes "hw_faults hw = []" and "\<And>h. hw_faults (f h) = hw_faults h" and "\<And>h. hw_arch (f h) = hw_arch h"
  shows "hw_sound hw (hw_write op f hw)"
  using assms by (simp add: hw_sound_def hw_write_def)

lemma hw_sound_then:
  assumes "hw_sound hw r" and "\<And>h. hw_faults h = [] \<Longrightarrow> hw_arch h = hw_arch hw \<Longrightarrow> hw_sound h (g () h)"
  shows "hw_sound hw (and_then r g)"
  using assms by (cases r) (auto simp: hw_sound_def)

lemma boot_updates_sound: "hw_faults hw = [] \<Longrightarrow> hw_sound hw (boot_updates us hw)"
proof (induction us hw rule: boot_updates.induct)
  case (2 idx state us hw)
  show ?case unfolding boot_updates.simps
    by (rule hw_sound_then [OF hw_write_sound]) (use 2 in \<open>auto simp: hw_write_def\<close>)
qed (simp add: hw_sound_def)

lemma set_usb_route_sound: "hw_faults hw = [] \<Longrightarrow> hw_sound hw (set_usb_route route hw)"
  by (auto simp: set_usb_route_def mux_set_usb_route_def hub_set_usb_route_def
      intro!: hw_sound_then hw_write_sound split: usb_architecture.split usb_route.split)

lemma select_usb_sound:
  assumes "hw_faults hw = []" and "mode \<noteq> Host"
  shows "hw_sound hw (select_usb node mode hw)"
  unfolding select_usb_def
proof (rule hw_sound_then)
  show "hw_sound hw (usb_switch_configure node mode hw)"
    using assms by (auto simp: usb_switch_configure_def mux_configure_usb_def hub_configure_usb_def hw_sound_def hw_write_def
        split: usb_architecture.split)
qed (simp add: set_usb_boot_def boot_updates_sound)

lemma on_hw_sound: "hw_sound (bm_hw b) (f (bm_hw b)) \<Longrightarrow> \<exists>b'. on_hw f b = (Inr (), b') \<and> hw_faults (bm_hw b') = []"
  by (auto simp: on_hw_def hw_sound_def split: prod.splits sum.splits)

lemma configure_usb_internal_live:
  assumes "hw_faults (bm_hw b) = []" and "fst (snd (usb_parts config)) \<noteq> Host"
  shows "\<exists>b'. configure_usb_internal script config b = (Inr (), b')"
proof -
  obtain dest mode route where u: "usb_parts config = (dest, mode, route)" by (cases "usb_parts config")
  let ?b = "if mode \<noteq> Flash then b\<lparr>bm_gadget := snd (remove_msd_function_from_usb_gadget script (bm_gadget b))\<rparr> else b"
  obtain b1 where "on_hw (set_usb_route route) ?b = (Inr (), b1)" "hw_faults (bm_hw b1) = []"
    using on_hw_sound [of ?b "set_usb_route route"] set_usb_route_sound assms(1) by auto
  moreover from this obtain b2 where "on_hw (select_usb dest mode) b1 = (Inr (), b2)"
    using on_hw_sound [of b1 "select_usb dest mode"] select_usb_sound assms(2) u by auto
  ultimately show ?thesis by (simp add: configure_usb_internal_def u)
qed

lemma boot_pins_live: "hw_faults (bm_hw b) = [] \<Longrightarrow> \<exists>b'. on_hw (set_usb_boot st k) b = (Inr (), b') \<and> hw_faults (bm_hw b') = []"
  by (rule on_hw_sound) (simp add: set_usb_boot_def boot_updates_sound)

lemma reboot_into_usb_live:
  assumes "bmc_wf b" and "hw_faults (bm_hw b) = []" and "fst (snd (usb_parts config)) \<noteq> Host"
  shows "\<exists>b'. reboot_into_usb script c1 c2 node config b = (Inr (), b')"
proof -
  obtain b1 where b1: "activate_slot c1 (NOT (to_bitfield node)) (to_bitfield node) b = (Inr (), b1)" "touches_only node b b1"
    using activate_touches [OF assms(1,2)] by blast
  note s1 = touches_sound [OF b1(2) assms(2)]
  obtain b2 where b2: "configure_usb_internal script config b1 = (Inr (), b2)"
    using configure_usb_internal_live assms(3) s1 by blast
  have "touches_only node b1 b2"
    using keeps_touches [OF configure_usb_internal_keeps [of b1 script config]] configure_usb_internal_db [of script config b1] s1 b2
    by simp
  then have s2: "bmc_wf b2 \<and> hw_faults (bm_hw b2) = []" using s1 by (simp add: touches_only_def)
  then obtain b3 where b3: "activate_slot c2 (to_bitfield node) (to_bitfield node) b2 = (Inr (), b3)" "touches_only node b2 b3"
    using activate_touches [of b2] by blast
  then obtain b4 where "clear_usb_boot b3 = (Inr (), b4)"
    using boot_pins_live touches_sound [OF b3(2)] s2 unfolding clear_usb_boot_def by blast
  then show ?thesis using b1(1) b2 b3(1) by (simp add: reboot_into_usb_def)
qed

lemma worker_restore_live:
  assumes "bmc_wf b" and "hw_faults (bm_hw b) = []" and "fst (snd (usb_parts (db_usb_config (bm_db b)))) \<noteq> Host"
  shows "\<exists>b'. worker_restore fr node b = (Inr (), b')"
proof -
  obtain b1 where b1: "activate_slot (fr_clock fr) (to_inverse_bitfield node) (to_bitfield node) b = (Inr (), b1)" "touches_only node b b1"
    using activate_touches [OF assms(1,2)] by blast
  obtain b2 where b2: "usb_boot node False b1 = (Inr (), b2)" "hw_faults (bm_hw b2) = []"
    using boot_pins_live touches_sound [OF b1(2) assms(2)] unfolding usb_boot_def Let_def by blast
  have "bm_db b2 = bm_db b1" using b2(1) on_hw_snd [of _ b1] by (metis (no_types) bmc.select_convs(2) bmc.surjective bmc.update_convs(1) snd_conv usb_boot_def)
  then have "db_usb_config (bm_db b2) = db_usb_config (bm_db b)" using b1(2) by (simp add: touches_only_def)
  then obtain b3 where "configure_usb_internal (fr_script fr) (db_usb_config (bm_db b2)) b2 = (Inr (), b3)"
    using configure_usb_internal_live [OF b2(2)] assms(3) by metis
  then show ?thesis using b1(1) b2(1) by (simp add: worker_restore_def configure_usb_def)
qed

text \<open>On a board whose lines work, the answer of a flash is the answer of its data phase: when the
  drivers find no device, theirs.\<close>

lemma flash_node_live:
  assumes "bmc_wf b" and "hw_faults (bm_hw b) = []" and "fst (snd (usb_parts (db_usb_config (bm_db b)))) \<noteq> Host"
  shows "fst (flash_node env fr tr fs node b)
    = (case fr_load fr node of Inl e \<Rightarrow> Inl (NoDevice e) | Inr dev \<Rightarrow> flash_data env fr tr dev fs)"
proof -
  obtain b1 where b1: "reboot_into_usb (fr_script fr) (fr_clock fr) (fr_clock fr) node (Flashing node RouteBmc) b = (Inr (), b1)"
    using reboot_into_usb_live [OF assms(1,2)] by (fastforce simp: usb_parts_def)
  have t: "touches_only node b b1"
    using reboot_touches [OF assms(1,2), of node "fr_script fr" "fr_clock fr" "fr_clock fr" "Flashing node RouteBmc"] b1 by simp
  obtain b2 where "worker_restore fr node b1 = (Inr (), b2)"
    using worker_restore_live [of b1 fr node] touches_sound [OF t assms(2)] assms(3) t by (auto simp: touches_only_def)
  then show ?thesis using b1 by (simp add: flash_node_def node_in_flash_def Let_def split: sum.split)
qed

section \<open>A board with two modules in their boot mode\<close>

text \<open>Nodes 1 and 2 both show a Rockchip device; the tree wires them to the ports 1.1 and 1.2.\<close>

definition dt_reg :: "u8 \<Rightarrow> string \<times> dt_node" where
  "dt_reg port = (''reg'', DtFile [0, 0, 0, port])"

definition demo_tree :: dt_node where
  "demo_tree =
     DtDir [(''soc'', DtDir [(''usb@4200000'', DtDir [(''hub@1'',
       DtDir [dt_reg 1, (''node1@1'', DtDir [dt_reg 1]), (''node2@2'', DtDir [dt_reg 2])])])])]"

definition demo_hub :: hub_topology where
  "demo_hub = \<lparr>ht_hub_port = 1, ht_node_ports = [(1, 1), (2, 2)]\<rparr>"

definition demo_module :: "u8 \<Rightarrow> usb_device" where
  "demo_module port =
     \<lparr>ud_path = \<lparr>up_bus = 2, up_ports = [1, port]\<rparr>, ud_vid_pid = Some (0x2207, 0x350b), ud_sub_minor = Some 1, ud_open = True,
      ud_transport = Inr (), ud_write = (\<lambda>_ _ _. Inr ())\<rparr>"

definition demo_scan :: bus_scan where
  "demo_scan = \<lparr>bs_cancelled = False, bs_devices = Inr [demo_module 1, demo_module 2], bs_took = 0, bs_sleep = Some 0\<rparr>"

definition demo_disk :: "string \<Rightarrow> string \<Rightarrow> block_entry" where
  "demo_disk name port =
     \<lparr>be_name = name, be_vendor = Some ''Rockchip'', be_link = Inr (''/sys/usb2/2-1/2-1.'' @ port @ ''/host0/block/'' @ name)\<rparr>"

definition demo_fd :: flash_device where
  "demo_fd = \<lparr>fd_takes = None, fd_readback = (\<lambda>x. x), fd_flush_ok = True\<rparr>"

definition demo_usb :: usb_host where
  "demo_usb =
     \<lparr>uh_rustpiboot = Inr (),
      uh_rockfile = \<lparr>rf_header_size = 0, rf_header = (\<lambda>_. None), rf_entry_size = 0,
        rf_entry = (\<lambda>_. \<lparr>re_size = 0, re_data_offset = 0, re_data_size = 0, re_data_delay = 0\<rparr>)\<rparr>,
      uh_loader = [], uh_blocks = Inr [demo_disk ''sda'' ''1'', demo_disk ''sdb'' ''2''],
      uh_canonical = Inr, uh_open = (\<lambda>path. if path = ''/dev/sdb'' then Inr demo_fd else Inl NotFound)\<rparr>"

definition demo_flash :: flash_run where
  "demo_flash =
     \<lparr>fr_script = (\<lambda>_ g. (True, g)), fr_clock = (\<lambda>_. Some 9), fr_load = (\<lambda>_. Inr demo_fd),
      fr_cancel_write = None, fr_cancel_check = None, fr_do_crc = False\<rparr>"

lemma demo_tree_hub: "topology_read_from demo_tree = Some demo_hub"
proof -
  have p: "parse_u8 ''1'' = Some 1" "parse_u8 ''2'' = Some 2"
    by (simp_all add: parse_u8_def parse_uint_def dec_value_def is_ascii_digit_def)
  show ?thesis
    by (simp add: topology_read_from_def find_hub_def hub_of_controller_def demo_tree_def demo_hub_def dt_join_def dt_reg_def
        node_label_def strip_prefix_def starts_with_def read_reg_def Let_def p)
qed

lemma demo_ports: "topology_node_ports demo_hub (node_number Node2) = Some [1, 2]"
  by (simp add: topology_node_ports_def demo_hub_def node_number_def)

lemma demo_found: "find_for_node (Some demo_hub) Node2 (\<lambda>_. demo_scan) 0 = Some (Inr (demo_module 2, RockusbBoot))"
proof -
  have "note_round BACKENDS (Some [1, 2]) (round_of demo_scan) [] [] = Inl (demo_module 2, 1)"
    by (simp add: note_round_def round_of_def demo_scan_def seen_of_def demo_module_def look_def BACKENDS_def push_new_def)
  then show ?thesis
    by (simp add: find_for_node_def expected_ports_def demo_ports wait_for_device_def wait_loop.simps [of _ _ _ _ _ _ _ 0]
        round_of_def demo_scan_def BACKENDS_def)
qed

lemma demo_stream: "load_as_stream demo_usb (Some demo_hub) Node2 (\<lambda>_. demo_scan) 0 = Some (Inr demo_fd)"
proof -
  let ?port = "ud_path (demo_module 2)"
  have n: "sysfs_name ?port = ''2-1.2''"
    by (simp add: sysfs_name_def demo_module_def show_u8_def show_nat_eval)
  have c: "\<not> port_contains ?port (''/sys/usb2/2-1/2-1.1/host0/block/sda'')" "port_contains ?port (''/sys/usb2/2-1/2-1.2/host0/block/sdb'')"
    by (simp_all add: port_contains_iff n passes_through_def split_on_def)
  have v: "trim ''Rockchip'' = ''Rockchip''" by (simp add: trim_def is_whitespace_def)
  have "get_device_path (uh_blocks demo_usb) (uh_canonical demo_usb) [''Rockchip''] (Some ?port) = Inr ''/dev/sdb''"
    using c by (simp add: get_device_path_def demo_usb_def demo_disk_def v choose_block_def)
  moreover have "prepare_rockusb demo_usb (demo_module 2) = Some (Inr ())"
    by (simp add: prepare_rockusb_def demo_module_def maskrom_def)
  ultimately have "load_as_block_device demo_usb (Some demo_hub) Node2 (\<lambda>_. demo_scan) 0 = Some (Inr ''/dev/sdb'')"
    by (simp add: load_as_block_device_def demo_found expected_ports_def demo_ports device_path_def)
  then show ?thesis by (simp add: load_as_stream_def demo_usb_def)
qed

theorem find_for_node_returns_witness:
  "\<exists>res. find_for_node (Some demo_hub) Node2 (\<lambda>_. demo_scan) 0 = Some res
     \<and> find_for_node (Some demo_hub) Node2 (\<lambda>k. if k \<le> 60 then demo_scan else demo_scan\<lparr>bs_cancelled := True\<rparr>) 0 = Some res"
  using find_for_node_returns [of "Some demo_hub" Node2 "\<lambda>_. demo_scan" 0] by auto

theorem flash_own_port_witness:
  "\<exists>b'. flash_node demo_env demo_flash (Remote ''a.img'' 3 [] None) empty_disk Node2 (demo_bmc UsbHub) = (Inr (), b')
     \<and> own_storage demo_usb (\<lambda>_. demo_scan) [1, 2] demo_fd"
proof -
  have "build_reader_object demo_env ''a.img'' None [] = []"
    by (simp add: build_reader_object_def with_decompression_support_def ends_with_def starts_with_def demo_env_def)
  then have "fst (flash_node demo_env demo_flash (Remote ''a.img'' 3 [] None) empty_disk Node2 (demo_bmc UsbHub)) = Inr ()"
    using flash_node_live [OF demo_bmc_wf, of UsbHub demo_env demo_flash "Remote ''a.img'' 3 [] None" empty_disk Node2]
    by (simp add: demo_flash_def demo_bmc_def app_db_default_def usb_parts_def flash_data_def try_write_node_def demo_fd_def)
  then obtain b' where f: "flash_node demo_env demo_flash (Remote ''a.img'' 3 [] None) empty_disk Node2 (demo_bmc UsbHub) = (Inr (), b')"
    by (metis prod.collapse)
  have "fr_load demo_flash Node2 = Inr demo_fd" by (simp add: demo_flash_def)
  with flash_own_port [OF demo_tree_hub demo_ports demo_stream _ f, of "\<lambda>_. []"] f show ?thesis by simp
qed

end
