(* ===== verification/Thermal_Info.thy ===== *)
theory Thermal_Info
  imports Rust_F64 Usb_Boot
begin

text \<open>
  Attributes of sysfs (\<open>app/sysfs.rs\<close>) and what \<open>/sys/class/thermal\<close> says
  (\<open>app/thermal_info.rs\<close>): the zones with their trip points and the cooling devices with the table
  of their steps. Sysfs is a tree as a reader sees it, links followed; an attribute the driver
  will not answer for is not in it. The log lines are not modelled.
\<close>

section \<open>Sysfs\<close>

datatype sys_node = SysDir "(string \<times> sys_node) list" | SysFile contents

fun sys_read_dir :: "sys_node \<Rightarrow> (string \<times> sys_node) list option" where
  "sys_read_dir (SysDir es) = Some es"
| "sys_read_dir (SysFile _) = None"

fun sys_at :: "sys_node \<Rightarrow> string list \<Rightarrow> sys_node option" where
  "sys_at d [] = Some d"
| "sys_at (SysDir es) (n # ns) = Option.bind (map_of es n) (\<lambda>d. sys_at d ns)"
| "sys_at (SysFile _) (n # ns) = None"

fun sys_read_to_string :: "sys_node \<Rightarrow> string option" where
  "sys_read_to_string (SysFile (Utf8 s)) = Some s"
| "sys_read_to_string _ = None"

fun sys_read :: "sys_node \<Rightarrow> u8 list option" where
  "sys_read (SysFile c) = Some (file_bytes c)"
| "sys_read (SysDir _) = None"

definition attribute_string :: "sys_node \<Rightarrow> string \<Rightarrow> string option" where
  "attribute_string dir attribute =
     (case Option.bind (sys_at dir [attribute]) sys_read_to_string of
        None \<Rightarrow> None
      | Some v \<Rightarrow> if trim v \<noteq> [] then Some (trim v) else None)"

definition read_attribute :: "(string \<Rightarrow> 'a option) \<Rightarrow> sys_node \<Rightarrow> string \<Rightarrow> 'a option" where
  "read_attribute from_str dir attribute = Option.bind (attribute_string dir attribute) from_str"

section \<open>Zones\<close>

record thermal_trip =
  tp_index :: nat
  tp_kind :: "string option"
  tp_temperature_c :: "f64 option"

record thermal_sensor =
  ts_name :: string
  ts_temperature_c :: "f64 option"
  ts_present :: bool
  ts_trips :: "thermal_trip list"

definition millidegrees_to_celsius :: "int \<Rightarrow> f64" where
  "millidegrees_to_celsius m = Dec (round_div m 100) 1"

definition trip_temp :: "sys_node \<Rightarrow> nat \<Rightarrow> int option" where
  "trip_temp dir index = read_attribute parse_i64 dir (''trip_point_'' @ show_nat index @ ''_temp'')"

definition trip_kind :: "sys_node \<Rightarrow> nat \<Rightarrow> string option" where
  "trip_kind dir index = attribute_string dir (''trip_point_'' @ show_nat index @ ''_type'')"

function read_trips_from :: "sys_node \<Rightarrow> nat \<Rightarrow> thermal_trip list \<Rightarrow> thermal_trip list" where
  "read_trips_from dir index trips =
     (let temp = trip_temp dir index; kind = trip_kind dir index
      in if temp = None \<and> kind = None then trips
         else (let trips' = trips @ [\<lparr>tp_index = index, tp_kind = kind, tp_temperature_c = map_option millidegrees_to_celsius temp\<rparr>]
               in if 32 \<le> length trips' then trips' else read_trips_from dir (index + 1) trips'))"
  by pat_completeness auto
termination
  by (relation "measure (\<lambda>(dir, index, trips). 32 - length trips)") auto

declare read_trips_from.simps [simp del]

definition read_trips :: "sys_node \<Rightarrow> thermal_trip list" where
  "read_trips dir = read_trips_from dir 0 []"

definition read_name :: "string \<Rightarrow> sys_node \<Rightarrow> string" where
  "read_name file_name dir = (case attribute_string dir ''type'' of Some name \<Rightarrow> name | None \<Rightarrow> file_name)"

definition read_zone :: "string \<times> sys_node \<Rightarrow> thermal_sensor" where
  "read_zone entry =
     (case entry of
        (file_name, dir) \<Rightarrow>
          (let temperature_c = map_option millidegrees_to_celsius (read_attribute parse_i64 dir ''temp'')
           in \<lparr>ts_name = read_name file_name dir, ts_temperature_c = temperature_c,
               ts_present = (temperature_c \<noteq> None), ts_trips = read_trips dir\<rparr>))"

section \<open>Cooling devices\<close>

record cooler =
  co_name :: string
  co_cur_state :: "nat option"
  co_max_state :: "nat option"
  co_present :: bool
  co_levels :: "u32 list option"
  co_max_level :: "u32 option"

definition read_state :: "sys_node \<Rightarrow> string \<Rightarrow> nat option" where
  "read_state dir attribute =
     Option.bind (read_attribute parse_i64 dir attribute) (\<lambda>state. if 0 \<le> state then Some (nat state) else None)"

text \<open>Only a driver with one device matters, so the order of the devices does not.\<close>

definition bound_devices :: "sys_node option \<Rightarrow> sys_node list" where
  "bound_devices driver_dir =
     (case Option.bind driver_dir sys_read_dir of
        None \<Rightarrow> []
      | Some es \<Rightarrow> filter_map (\<lambda>(name, device). if sys_at device [''of_node''] \<noteq> None then Some device else None) es)"

definition driver_name_ok :: "string \<Rightarrow> bool" where
  "driver_name_ok driver = (\<not> (driver = [] \<or> starts_with ''.'' driver \<or> CHR ''/'' \<in> set driver))"

definition device_tree_node :: "sys_node \<Rightarrow> sys_node \<Rightarrow> sys_node option" where
  "device_tree_node sysfs dir =
     (case attribute_string dir ''type'' of
        None \<Rightarrow> None
      | Some driver \<Rightarrow>
          if \<not> driver_name_ok driver then None
          else (case bound_devices (sys_at sysfs [''bus'', ''platform'', ''drivers'', driver]) of
                  [device] \<Rightarrow> sys_at device [''of_node'']
                | _ \<Rightarrow> None))"

fun be_cells :: "u8 list \<Rightarrow> u32 list" where
  "be_cells (a # b # c # d # rest) = word_of_nat (from_be_bytes [a, b, c, d]) # be_cells rest"
| "be_cells _ = []"

definition read_be_u32_property :: "sys_node option \<Rightarrow> u32 list option" where
  "read_be_u32_property prop =
     (case Option.bind prop sys_read of
        None \<Rightarrow> None
      | Some bytes \<Rightarrow> if bytes = [] \<or> length bytes mod 4 \<noteq> 0 then None else Some (be_cells bytes))"

definition saturating_add_u64 :: "nat \<Rightarrow> nat \<Rightarrow> nat" where
  "saturating_add_u64 a b = min (a + b) (2 ^ 64 - 1)"

definition cooling_levels :: "sys_node \<Rightarrow> sys_node \<Rightarrow> nat option \<Rightarrow> u32 list option" where
  "cooling_levels sysfs dir max_state =
     (case max_state of
        None \<Rightarrow> None
      | Some max_state \<Rightarrow>
          (case device_tree_node sysfs dir of
             None \<Rightarrow> None
           | Some node \<Rightarrow>
               (case read_be_u32_property (sys_at node [''cooling-levels'']) of
                  None \<Rightarrow> None
                | Some levels \<Rightarrow> if length levels \<noteq> saturating_add_u64 max_state 1 then None else Some levels)))"

definition read_cooler :: "sys_node \<Rightarrow> string \<times> sys_node \<Rightarrow> cooler" where
  "read_cooler sysfs entry =
     (case entry of
        (file_name, dir) \<Rightarrow>
          (let cur_state = read_state dir ''cur_state'';
               max_state = read_state dir ''max_state'';
               levels = cooling_levels sysfs dir max_state
           in \<lparr>co_name = read_name file_name dir, co_cur_state = cur_state, co_max_state = max_state,
               co_present = (cur_state \<noteq> None \<and> max_state \<noteq> None), co_levels = levels,
               co_max_level = Option.bind levels (\<lambda>ls. if ls = [] then None else Some (List.last ls))\<rparr>))"

section \<open>The class\<close>

definition index_of :: "string \<Rightarrow> string \<Rightarrow> nat option" where
  "index_of file_name pre = Option.bind (strip_prefix pre file_name) parse_u32"

definition indexed :: "string \<Rightarrow> (string \<times> sys_node) list \<Rightarrow> (nat \<times> string \<times> sys_node) list" where
  "indexed pre es = filter_map (\<lambda>e. map_option (\<lambda>i. (i, e)) (index_of (fst e) pre)) es"

definition thermal_entries :: "sys_node option \<Rightarrow> (string \<times> sys_node) list \<times> (string \<times> sys_node) list" where
  "thermal_entries thermal_class =
     (case Option.bind thermal_class sys_read_dir of
        None \<Rightarrow> ([], [])
      | Some es \<Rightarrow>
          (map snd (sort_key fst (indexed ''thermal_zone'' es)),
           map snd (sort_key fst (indexed ''cooling_device'' (filter (\<lambda>e. index_of (fst e) ''thermal_zone'' = None) es)))))"

definition read_thermal :: "sys_node \<Rightarrow> thermal_sensor list \<times> cooler list" where
  "read_thermal sysfs =
     (case thermal_entries (sys_at sysfs [''class'', ''thermal'']) of
        (zones, coolers) \<Rightarrow> (map read_zone zones, map (read_cooler sysfs) coolers))"

section \<open>Facts\<close>

lemma read_trips_from_eq:
  "length trips = index \<Longrightarrow> index < 32 \<Longrightarrow> read_trips_from dir index trips =
     trips @ map (\<lambda>i. \<lparr>tp_index = i, tp_kind = trip_kind dir i, tp_temperature_c = map_option millidegrees_to_celsius (trip_temp dir i)\<rparr>)
       (takeWhile (\<lambda>i. trip_temp dir i \<noteq> None \<or> trip_kind dir i \<noteq> None) [index..<32])"
proof (induction dir index trips rule: read_trips_from.induct)
  case (1 dir index trips)
  have u: "[index..<32] = index # [Suc index..<32]" using "1.prems" by (simp add: upt_conv_Cons)
  show ?case
  proof (cases "Suc index < 32")
    case True
    then show ?thesis using 1 u by (subst read_trips_from.simps) (auto simp: Let_def)
  next
    case False
    then have "index = 31" using "1.prems" by simp
    then show ?thesis using 1 by (subst read_trips_from.simps) (auto simp: Let_def)
  qed
qed

text \<open>reading the trip points of a zone comes to an end and gives exactly the points 0, 1, 2, and
  so on, up to the first number that has neither file, and at most thirty-two of them.\<close>

theorem read_trips_exact:
  "read_trips dir =
     map (\<lambda>i. \<lparr>tp_index = i, tp_kind = trip_kind dir i, tp_temperature_c = map_option millidegrees_to_celsius (trip_temp dir i)\<rparr>)
       (takeWhile (\<lambda>i. trip_temp dir i \<noteq> None \<or> trip_kind dir i \<noteq> None) [0..<32])"
  unfolding read_trips_def by (subst read_trips_from_eq) simp_all

lemma length_be_cells: "length (be_cells bs) = length bs div 4"
  by (induction bs rule: be_cells.induct) auto

lemma cooling_levels_length: "cooling_levels sysfs dir (Some m) = Some levels \<Longrightarrow> m < 2 ^ 64 - 1 \<Longrightarrow> length levels = Suc m"
  by (auto simp: cooling_levels_def saturating_add_u64_def split: option.splits if_splits)

lemma parse_i64_bound: "parse_i64 s = Some i \<Longrightarrow> i < 2 ^ 63"
  using parse_sint_bound [of 64 s i] by (simp add: parse_i64_def)

lemma read_state_bound: "read_state dir a = Some n \<Longrightarrow> n < 2 ^ 63"
  using parse_i64_bound by (fastforce simp: read_state_def read_attribute_def bind_eq_Some_conv split: if_splits)

text \<open>C40: a table of steps that is reported fits its device: it has one entry for every step from
  nought to the highest, and the duty reported for the highest step is that entry.\<close>

theorem levels_fit:
  assumes "read_cooler sysfs entry = c" and "co_levels c = Some levels"
  shows "\<exists>m. co_max_state c = Some m \<and> length levels = Suc m \<and> co_max_level c = Some (levels ! m)"
proof -
  obtain file_name dir where e: "entry = (file_name, dir)" by (cases entry)
  let ?m = "read_state dir ''max_state''"
  have l: "cooling_levels sysfs dir ?m = Some levels" using assms by (auto simp: read_cooler_def e Let_def)
  then obtain m where m: "?m = Some m" by (auto simp: cooling_levels_def split: option.splits)
  have "length levels = Suc m" using cooling_levels_length l m read_state_bound [OF m] by simp
  then show ?thesis using assms m l by (auto simp: read_cooler_def e Let_def last_conv_nth)
qed

text \<open>The zones come in the order of their numbers, each once.\<close>

lemma thermal_zones_sorted:
  assumes "Option.bind cls sys_read_dir = Some es"
  shows "sorted (map (\<lambda>e. the (index_of (fst e) ''thermal_zone'')) (fst (thermal_entries cls)))"
    and "set (fst (thermal_entries cls)) = {e \<in> set es. index_of (fst e) ''thermal_zone'' \<noteq> None}"
proof -
  let ?ix = "indexed ''thermal_zone'' es"
  have i: "(i, e) \<in> set ?ix \<Longrightarrow> index_of (fst e) ''thermal_zone'' = Some i" for i e
    by (auto simp: indexed_def set_filter_map)
  have "map (\<lambda>e. the (index_of (fst e) ''thermal_zone'')) (fst (thermal_entries cls)) = map fst (sort_key fst ?ix)"
    using i assms by (auto simp: thermal_entries_def)
  then show "sorted (map (\<lambda>e. the (index_of (fst e) ''thermal_zone'')) (fst (thermal_entries cls)))"
    by (simp only: sorted_sort_key)
  show "set (fst (thermal_entries cls)) = {e \<in> set es. index_of (fst e) ''thermal_zone'' \<noteq> None}"
    using assms by (force simp: thermal_entries_def indexed_def set_filter_map)
qed

definition text_file :: "string \<Rightarrow> string \<Rightarrow> string \<times> sys_node" where
  "text_file name v = (name, SysFile (Utf8 v))"

definition demo_fan :: sys_node where
  "demo_fan = SysDir [text_file ''type'' ''pwm-fan'', text_file ''cur_state'' ''1'', text_file ''max_state'' ''1'']"

definition demo_sysfs :: sys_node where
  "demo_sysfs =
     SysDir [(''bus'', SysDir [(''platform'', SysDir [(''drivers'', SysDir [(''pwm-fan'',
       SysDir [(''system-fan'', SysDir [(''of_node'',
         SysDir [(''cooling-levels'', SysFile (NotUtf8 [0, 0, 0, 0, 0, 0, 0, 254]))])])])])])])]"

lemma demo_fan_reads:
  "attribute_string demo_fan ''type'' = Some ''pwm-fan''" "read_state demo_fan ''cur_state'' = Some 1"
  "read_state demo_fan ''max_state'' = Some 1"
  by (simp_all add: read_state_def read_attribute_def attribute_string_def demo_fan_def text_file_def trim_def is_whitespace_def
      parse_i64_def parse_sint_def parse_uint_def dec_value_def is_ascii_digit_def)

theorem levels_fit_witness:
  "\<exists>m. co_max_state (read_cooler demo_sysfs (''cooling_device0'', demo_fan)) = Some m \<and> length [0, 254 :: u32] = Suc m
     \<and> co_max_level (read_cooler demo_sysfs (''cooling_device0'', demo_fan)) = Some ([0, 254] ! m)"
proof (rule levels_fit [OF refl])
  have "cooling_levels demo_sysfs demo_fan (Some 1) = Some [0, 254]"
    by (simp add: cooling_levels_def device_tree_node_def demo_fan_reads driver_name_ok_def starts_with_def bound_devices_def
        demo_sysfs_def read_be_u32_property_def file_bytes_def saturating_add_u64_def)
  then show "co_levels (read_cooler demo_sysfs (''cooling_device0'', demo_fan)) = Some [0, 254]"
    by (simp add: read_cooler_def demo_fan_reads Let_def)
qed

end
