(* ===== verification/Address_Document.thy ===== *)
theory Address_Document
  imports Rust_Std
begin

unbundle bit_operations_syntax

text \<open>
  \<^verbatim>\<open>bmcd/src/app/address_document.rs\<close>: the board's own address as one document, the rules
  that refuse an unreachable one, its rendering to \<^verbatim>\<open>/etc/network/interfaces\<close> and the
  reader of that file. A message is a constructor with the values the source formats
  into it. Arithmetic on \<open>u32\<close> is the release build's: shifts take their amount modulo 32
  and subtraction wraps.
\<close>

section \<open>The document\<close>

definition INTERFACE :: string where "INTERFACE = ''br0''"

definition BRIDGE_PORTS :: string where
  "BRIDGE_PORTS = ''node1 node2 node3 node4 ge0 ge1''"

definition MARKER :: string where
  "MARKER = ''# Written by bmcd: the BMC'' @ CHR 0x27 # ''s own address.''"

definition MIN_PREFIX :: u8 where "MIN_PREFIX = 8"
definition MAX_PREFIX :: u8 where "MAX_PREFIX = 30"

record static_address =
  sa_address :: ipv4
  sa_prefix :: u8
  sa_gateway :: "ipv4 option"
  sa_dns :: "ipv4 list"
  sa_search :: "string option"

datatype address_document = Dhcp | Static static_address

definition sa_mask :: "static_address \<Rightarrow> u32" where
  "sa_mask s =
     (if sa_prefix s = 0 then 0
      else push_bit (unat (((32 :: u32) - ucast (sa_prefix s)) AND 31)) (- 1))"

definition netmask :: "static_address \<Rightarrow> ipv4" where
  "netmask s = sa_mask s"

definition sa_network :: "static_address \<Rightarrow> u32" where
  "sa_network s = sa_address s AND sa_mask s"

definition sa_broadcast :: "static_address \<Rightarrow> u32" where
  "sa_broadcast s = sa_network s OR NOT (sa_mask s)"

definition sa_contains :: "static_address \<Rightarrow> ipv4 \<Rightarrow> bool" where
  "sa_contains s ip = (ip AND sa_mask s = sa_network s)"

definition cidr :: "static_address \<Rightarrow> string" where
  "cidr s = show_ipv4 (sa_address s) @ ''/'' @ show_nat (unat (sa_prefix s))"

section \<open>What the board refuses, and what it only warns about\<close>

datatype address_refusal =
    PrefixOutOfRange u8
  | NotReachable ipv4
  | IsNetworkAddress ipv4 ipv4 u8
  | IsBroadcastAddress ipv4 ipv4 u8
  | GatewayOffSubnet ipv4 ipv4 u8
  | GatewayIsSelf ipv4
  | BadSearchDomain

definition bad_search :: "string \<Rightarrow> bool" where
  "bad_search d =
     (d = [] \<or>
      \<not> list_all (\<lambda>c. is_ascii_alphanumeric c \<or> c = CHR ''.'' \<or> c = CHR ''-'') d)"

definition search_refused :: "static_address \<Rightarrow> bool" where
  "search_refused s = (case sa_search s of None \<Rightarrow> False | Some d \<Rightarrow> bad_search d)"

definition static_refusal :: "static_address \<Rightarrow> address_refusal option" where
  "static_refusal s =
     (if \<not> (MIN_PREFIX \<le> sa_prefix s \<and> sa_prefix s \<le> MAX_PREFIX)
      then Some (PrefixOutOfRange (sa_prefix s))
      else if ipv4_is_loopback (sa_address s) \<or> ipv4_is_multicast (sa_address s)
           \<or> ipv4_is_unspecified (sa_address s) \<or> ipv4_is_broadcast (sa_address s)
           \<or> ipv4_is_link_local (sa_address s)
      then Some (NotReachable (sa_address s))
      else if sa_address s = sa_network s
      then Some (IsNetworkAddress (sa_address s) (sa_network s) (sa_prefix s))
      else if sa_address s = sa_broadcast s
      then Some (IsBroadcastAddress (sa_address s) (sa_network s) (sa_prefix s))
      else
        (case sa_gateway s of
           Some gw \<Rightarrow>
             if \<not> sa_contains s gw
             then Some (GatewayOffSubnet gw (sa_network s) (sa_prefix s))
             else if gw = sa_address s then Some (GatewayIsSelf (sa_address s))
             else if search_refused s then Some BadSearchDomain
             else None
         | None \<Rightarrow>
             if search_refused s then Some BadSearchDomain
             else None))"

definition address_refusal :: "address_document \<Rightarrow> address_refusal option" where
  "address_refusal d = (case d of Dhcp \<Rightarrow> None | Static s \<Rightarrow> static_refusal s)"

datatype address_warning = NoGateway | NoResolver

definition address_warnings :: "address_document \<Rightarrow> address_warning list" where
  "address_warnings d =
     (case d of
        Dhcp \<Rightarrow> []
      | Static s \<Rightarrow> (if sa_gateway s = None then [NoGateway] else [])
                 @ (if sa_dns s = [] then [NoResolver] else []))"

section \<open>The interfaces file\<close>

definition hook_argument :: "string \<Rightarrow> string" where
  "hook_argument resolv =
     replace_char CHR ''#'' (CHR 0x5C # ''043'')
       (replace_char newline [CHR 0x5C, CHR ''n''] resolv)"

definition resolv_lines :: "ipv4 list \<Rightarrow> string option \<Rightarrow> string list" where
  "resolv_lines dns search =
     (case search of None \<Rightarrow> [] | Some d \<Rightarrow> [''search '' @ d @ '' # '' @ INTERFACE])
     @ map (\<lambda>ns. ''nameserver '' @ show_ipv4 ns @ '' # '' @ INTERFACE) dns"

definition resolv_conf :: "ipv4 list \<Rightarrow> string option \<Rightarrow> string" where
  "resolv_conf dns search = unlines (resolv_lines dns search)"

definition render_head :: "string list" where
  "render_head =
     [MARKER,
      ''# Edit through the API or the Network tab; this file is replaced whole on'',
      ''# every confirmed change. `mode` here is what the board boots with.'',
      [],
      ''auto lo'',
      ''iface lo inet loopback'',
      [],
      ''auto '' @ INTERFACE]"

definition render_dhcp :: "string list" where
  "render_dhcp =
     [''iface '' @ INTERFACE @ '' inet dhcp'',
      ''  bridge-ports '' @ BRIDGE_PORTS,
      ''  pre-up /etc/network/nfs_check'',
      ''  wait-delay 15'',
      ''  hostname $(hostname)'']"

definition render_static :: "static_address \<Rightarrow> string list" where
  "render_static s =
     [''iface '' @ INTERFACE @ '' inet static'',
      ''  address '' @ show_ipv4 (sa_address s),
      ''  netmask '' @ show_ipv4 (netmask s)]
     @ (case sa_gateway s of None \<Rightarrow> [] | Some gw \<Rightarrow> [''  gateway '' @ show_ipv4 gw])
     @ [''  bridge-ports '' @ BRIDGE_PORTS,
        ''  pre-up /etc/network/nfs_check'',
        ''  wait-delay 15'']
     @ (if sa_dns s \<noteq> [] \<or> sa_search s \<noteq> None then
          (if sa_dns s \<noteq> []
           then [''  dns-nameservers '' @ join '' '' (map show_ipv4 (sa_dns s))] else [])
          @ (case sa_search s of None \<Rightarrow> [] | Some d \<Rightarrow> [''  dns-search '' @ d])
          @ [''  up printf '' @ CHR 0x27
               # hook_argument (resolv_conf (sa_dns s) (sa_search s))
               @ CHR 0x27 # '' > /etc/resolv.conf'']
        else [])"

definition render_lines :: "address_document \<Rightarrow> string list" where
  "render_lines d =
     render_head @ (case d of Dhcp \<Rightarrow> render_dhcp | Static s \<Rightarrow> render_static s)"

definition render :: "address_document \<Rightarrow> string" where
  "render d = unlines (render_lines d)"

section \<open>Reading it back\<close>

definition count_ones :: "u32 \<Rightarrow> nat" where
  "count_ones w = length (filter (bit w) [0..<32])"

record parsed_file =
  pf_document :: "address_document option"
  pf_ours :: bool

record parse_state =
  ps_in_br0 :: bool
  ps_mode :: "string option"
  ps_address :: "ipv4 option"
  ps_prefix :: "u8 option"
  ps_gateway :: "ipv4 option"
  ps_dns :: "ipv4 list"
  ps_search :: "string option"

definition parse_init :: parse_state where
  "parse_init = \<lparr>ps_in_br0 = False, ps_mode = None, ps_address = None, ps_prefix = None,
     ps_gateway = None, ps_dns = [], ps_search = None\<rparr>"

text \<open>The iterator over a line's words is the list of the words not yet taken:
  \<open>next()\<close> reads its head and \<open>nth(n)\<close> skips \<open>n\<close> words.\<close>

definition next_word :: "string list \<Rightarrow> string option" where
  "next_word ws = (case ws of [] \<Rightarrow> None | w # _ \<Rightarrow> Some w)"

definition nth_word :: "nat \<Rightarrow> string list \<Rightarrow> string option" where
  "nth_word n ws = next_word (drop n ws)"

definition unwrap_or_default :: "string option \<Rightarrow> string" where
  "unwrap_or_default x = (case x of None \<Rightarrow> [] | Some w \<Rightarrow> w)"

definition parse_words :: "parse_state \<Rightarrow> string \<Rightarrow> string list \<Rightarrow> parse_state" where
  "parse_words st key ws =
     (if key = ''iface'' then
        (let st = st\<lparr>ps_in_br0 := (unwrap_or_default (next_word ws) = INTERFACE)\<rparr>
         in if ps_in_br0 st then st\<lparr>ps_mode := nth_word 1 (drop 1 ws)\<rparr> else st)
      else if key = ''auto'' \<or> key = ''source'' \<or> key = ''mapping'' then st\<lparr>ps_in_br0 := False\<rparr>
      else if \<not> ps_in_br0 st then st
      else if key = ''address'' then
        (let v = unwrap_or_default (next_word ws);
             (ip, p) = (case split_once CHR ''/'' v of Some x \<Rightarrow> x | None \<Rightarrow> (v, []));
             st = st\<lparr>ps_address := parse_ipv4 ip\<rparr>
         in case parse_u8 p of Some n \<Rightarrow> st\<lparr>ps_prefix := Some n\<rparr> | None \<Rightarrow> st)
      else if key = ''netmask'' then
        (case parse_ipv4 (unwrap_or_default (next_word ws)) of
           Some m \<Rightarrow> st\<lparr>ps_prefix := Some (of_nat (count_ones m))\<rparr>
         | None \<Rightarrow> st)
      else if key = ''gateway'' then
        st\<lparr>ps_gateway := (case next_word ws of None \<Rightarrow> None | Some g \<Rightarrow> parse_ipv4 g)\<rparr>
      else if key = ''dns-nameservers'' then st\<lparr>ps_dns := filter_map parse_ipv4 ws\<rparr>
      else if key = ''dns-search'' then st\<lparr>ps_search := next_word ws\<rparr>
      else st)"

definition parse_line :: "parse_state \<Rightarrow> string \<Rightarrow> parse_state" where
  "parse_line st raw =
     (let line = trim raw
      in if line = [] \<or> starts_with ''#'' line then st
         else parse_words st (unwrap_or_default (next_word (split_whitespace line)))
                (drop 1 (split_whitespace line)))"

definition parse_document :: "parse_state \<Rightarrow> address_document option" where
  "parse_document st =
     (if ps_mode st = Some ''dhcp'' then Some Dhcp
      else if ps_mode st = Some ''static'' then
        (case (ps_address st, ps_prefix st) of
           (Some a, Some p) \<Rightarrow>
             Some (Static \<lparr>sa_address = a, sa_prefix = p, sa_gateway = ps_gateway st,
               sa_dns = ps_dns st, sa_search = ps_search st\<rparr>)
         | _ \<Rightarrow> None)
      else None)"

definition parse :: "string \<Rightarrow> parsed_file" where
  "parse contents =
     \<lparr>pf_document = parse_document (foldl parse_line parse_init (lines contents)),
      pf_ours = (case lines contents of [] \<Rightarrow> False | l # _ \<Rightarrow> trim l = MARKER)\<rparr>"

section \<open>The subnet arithmetic\<close>

definition host_bits :: "static_address \<Rightarrow> nat" where
  "host_bits s = 32 - unat (sa_prefix s)"

lemma prefix_bounds:
  "MIN_PREFIX \<le> p \<and> p \<le> MAX_PREFIX \<longleftrightarrow> 8 \<le> unat p \<and> unat p \<le> 30"
  by (simp add: MIN_PREFIX_def MAX_PREFIX_def word_le_nat_alt)

lemma sa_mask_eq:
  assumes "8 \<le> unat (sa_prefix s)" and "unat (sa_prefix s) \<le> 30"
  shows "sa_mask s = push_bit (host_bits s) (- 1)"
proof -
  have u: "unat (ucast (sa_prefix s) :: u32) = unat (sa_prefix s)"
    using assms by (simp add: unsigned_ucast_eq take_bit_nat_eq_self)
  have "unat ((32 :: u32) - ucast (sa_prefix s)) = 32 - unat (sa_prefix s)"
    using assms u by (subst unat_sub) (simp_all add: word_le_nat_alt)
  moreover have "unat (w AND 31) = unat w mod 32" for w :: u32
  proof -
    have "(31 :: u32) = mask 5" by (simp add: mask_eq_exp_minus_1)
    then have "w AND 31 = take_bit 5 w" by (simp only: take_bit_eq_mask)
    then have "unat (w AND 31) = take_bit 5 (unat w)" by (simp only: unsigned_take_bit_eq)
    then show ?thesis by (simp add: take_bit_eq_mod)
  qed
  ultimately have "unat (((32 :: u32) - ucast (sa_prefix s)) AND 31) = host_bits s"
    using assms by (simp add: host_bits_def)
  moreover have "sa_prefix s \<noteq> 0" using assms by auto
  ultimately show ?thesis by (simp add: sa_mask_def)
qed

lemma and_high_mask: "a AND push_bit k (- 1) = push_bit k (drop_bit k a)" for a :: u32
  by (rule bit_word_eqI) (auto simp: bit_and_iff bit_push_bit_iff bit_drop_bit_eq bit_not_iff
      bit_mask_iff push_bit_minus_one_eq_not_mask)

lemma eq_high_part: "a = push_bit k (drop_bit k a) \<longleftrightarrow> unat a mod 2 ^ k = 0" for a :: u32
proof -
  have "a = push_bit k (drop_bit k a) \<longleftrightarrow> take_bit k a = 0"
    by (metis add.right_neutral bits_ident add_left_cancel)
  also have "\<dots> \<longleftrightarrow> take_bit k (unat a) = 0"
    by (metis unat_0_iff unsigned_take_bit_eq)
  finally show ?thesis by (simp add: take_bit_eq_mod)
qed

lemma eq_high_or_low:
  fixes a :: u32
  assumes "k \<le> 32"
  shows "a = push_bit k (drop_bit k a) OR NOT (push_bit k (- 1)) \<longleftrightarrow> unat a mod 2 ^ k = 2 ^ k - 1"
proof -
  have "a = push_bit k (drop_bit k a) OR NOT (push_bit k (- 1)) \<longleftrightarrow> take_bit k a = mask k"
    by (auto simp: bit_eq_iff bit_or_iff bit_not_iff bit_push_bit_iff bit_drop_bit_eq
        bit_take_bit_iff bit_mask_iff)
  also have "\<dots> \<longleftrightarrow> unat (take_bit k a) = unat (mask k :: u32)"
    by (metis word_unat_eq_iff)
  also have "unat (mask k :: u32) = mask k"
    using assms by (simp add: unat_eq_nat_uint uint_mask_eq min_def nat_mask_eq)
  also have "unat (take_bit k a) = unat a mod 2 ^ k"
    unfolding unsigned_take_bit_eq by (simp add: take_bit_eq_mod)
  finally show ?thesis by (simp add: mask_eq_exp_minus_1)
qed

lemma same_high_part:
  fixes a b :: u32
  assumes "k < 32"
  shows "push_bit k (drop_bit k a) = push_bit k (drop_bit k b) \<longleftrightarrow> unat a div 2 ^ k = unat b div 2 ^ k"
proof -
  have "push_bit k (drop_bit k a) = push_bit k (drop_bit k b) \<longleftrightarrow> drop_bit k a = drop_bit k b"
  proof
    assume eq: "push_bit k (drop_bit k a) = push_bit k (drop_bit k b)"
    show "drop_bit k a = drop_bit k b"
    proof (rule bit_word_eqI)
      fix n assume "n < LENGTH(32)"
      show "bit (drop_bit k a) n = bit (drop_bit k b) n"
      proof (cases "k + n < 32")
        case True
        then show ?thesis
          using eq by (auto simp: bit_eq_iff bit_push_bit_iff dest: spec [of _ "k + n"])
      next
        case False
        then show ?thesis by (auto simp: bit_drop_bit_eq dest: bit_imp_le_length)
      qed
    qed
  qed simp
  also have "\<dots> \<longleftrightarrow> unat a div 2 ^ k = unat b div 2 ^ k"
    by (metis drop_bit_eq_div unat_drop_bit_eq word_unat_eq_iff)
  finally show ?thesis .
qed

text \<open>The subnet rules over plain numbers: with \<open>k\<close> host bits, an address is its network
  number \<open>div 2 ^ k\<close> and its host number \<open>mod 2 ^ k\<close>.\<close>

lemma subnet_arith:
  assumes "8 \<le> unat (sa_prefix s)" and "unat (sa_prefix s) \<le> 30"
  shows "sa_address s = sa_network s \<longleftrightarrow> unat (sa_address s) mod 2 ^ host_bits s = 0"
    and "sa_address s = sa_broadcast s
           \<longleftrightarrow> unat (sa_address s) mod 2 ^ host_bits s = 2 ^ host_bits s - 1"
    and "sa_contains s gw
           \<longleftrightarrow> unat gw div 2 ^ host_bits s = unat (sa_address s) div 2 ^ host_bits s"
proof -
  have k: "host_bits s < 32" using assms by (simp add: host_bits_def)
  note net = sa_network_def sa_broadcast_def sa_contains_def sa_mask_eq [OF assms] and_high_mask
  show "sa_address s = sa_network s \<longleftrightarrow> unat (sa_address s) mod 2 ^ host_bits s = 0"
    by (simp only: net eq_high_part)
  show "sa_address s = sa_broadcast s
      \<longleftrightarrow> unat (sa_address s) mod 2 ^ host_bits s = 2 ^ host_bits s - 1"
    using k by (simp only: net eq_high_or_low less_imp_le)
  show "sa_contains s gw
      \<longleftrightarrow> unat gw div 2 ^ host_bits s = unat (sa_address s) div 2 ^ host_bits s"
    using k by (simp only: net same_high_part)
qed

definition usable_host :: "static_address \<Rightarrow> bool" where
  "usable_host s =
     (8 \<le> unat (sa_prefix s) \<and> unat (sa_prefix s) \<le> 30
      \<and> 0 < unat (sa_address s) mod 2 ^ host_bits s
      \<and> unat (sa_address s) mod 2 ^ host_bits s < 2 ^ host_bits s - 1
      \<and> octets (sa_address s) ! 0 \<noteq> 127
      \<and> \<not> (224 \<le> octets (sa_address s) ! 0 \<and> octets (sa_address s) ! 0 \<le> 239)
      \<and> \<not> (octets (sa_address s) ! 0 = 169 \<and> octets (sa_address s) ! 1 = 254))"

definition gateway_on_link :: "static_address \<Rightarrow> ipv4 \<Rightarrow> bool" where
  "gateway_on_link s gw =
     (unat gw div 2 ^ host_bits s = unat (sa_address s) div 2 ^ host_bits s
      \<and> gw \<noteq> sa_address s)"

lemma mod_all_ones: "k \<le> n \<Longrightarrow> (2 ^ n - 1 :: nat) mod 2 ^ k = 2 ^ k - 1"
proof -
  assume "k \<le> n"
  then have "take_bit k (mask n :: nat) = mask k"
    by (auto simp: bit_eq_iff bit_take_bit_iff bit_mask_iff)
  then show ?thesis by (simp add: take_bit_eq_mod mask_eq_exp_minus_1)
qed

lemma usable_host_not_special:
  assumes "usable_host s"
  shows "sa_address s \<noteq> 0" and "sa_address s \<noteq> - 1"
proof -
  show "sa_address s \<noteq> 0" using assms by (auto simp: usable_host_def)
  have "unat (- 1 :: u32) = 2 ^ 32 - 1"
    by (simp add: unsigned_minus_1_eq_mask mask_eq_exp_minus_1)
  then have "unat (- 1 :: u32) mod 2 ^ host_bits s = 2 ^ host_bits s - 1"
    using mod_all_ones [of "host_bits s" 32] by (simp only: host_bits_def diff_le_self)
  then show "sa_address s \<noteq> - 1" using assms by (auto simp: usable_host_def)
qed

lemma static_refusal_None_iff:
  "static_refusal s = None \<longleftrightarrow>
     usable_host s \<and> (\<forall>gw. sa_gateway s = Some gw \<longrightarrow> gateway_on_link s gw)
     \<and> (\<forall>d. sa_search s = Some d \<longrightarrow> \<not> bad_search d)"
proof (cases "8 \<le> unat (sa_prefix s) \<and> unat (sa_prefix s) \<le> 30")
  case False
  then show ?thesis using prefix_bounds [of "sa_prefix s"]
    by (auto simp: static_refusal_def usable_host_def)
next
  case True
  then have b: "MIN_PREFIX \<le> sa_prefix s \<and> sa_prefix s \<le> MAX_PREFIX"
    using prefix_bounds [of "sa_prefix s"] by simp
  have arith: "sa_address s \<noteq> sa_network s \<and> sa_address s \<noteq> sa_broadcast s \<longleftrightarrow>
      0 < unat (sa_address s) mod 2 ^ host_bits s
      \<and> unat (sa_address s) mod 2 ^ host_bits s < 2 ^ host_bits s - 1"
  proof -
    have "unat (sa_address s) mod 2 ^ host_bits s < 2 ^ host_bits s" by simp
    then show ?thesis using True by (simp only: subnet_arith) linarith
  qed
  have gw: "gateway_on_link s gw \<longleftrightarrow> sa_contains s gw \<and> gw \<noteq> sa_address s" for gw
    using True by (simp add: gateway_on_link_def subnet_arith)
  have "static_refusal s = None \<longleftrightarrow>
      \<not> ipv4_is_loopback (sa_address s) \<and> \<not> ipv4_is_multicast (sa_address s)
      \<and> \<not> ipv4_is_unspecified (sa_address s) \<and> \<not> ipv4_is_broadcast (sa_address s)
      \<and> \<not> ipv4_is_link_local (sa_address s)
      \<and> (sa_address s \<noteq> sa_network s \<and> sa_address s \<noteq> sa_broadcast s)
      \<and> (\<forall>gw. sa_gateway s = Some gw \<longrightarrow> gateway_on_link s gw)
      \<and> (\<forall>d. sa_search s = Some d \<longrightarrow> \<not> bad_search d)"
    by (simp add: static_refusal_def b gw search_refused_def split: option.split)
  moreover have "usable_host s \<longleftrightarrow>
      \<not> ipv4_is_loopback (sa_address s) \<and> \<not> ipv4_is_multicast (sa_address s)
      \<and> \<not> ipv4_is_unspecified (sa_address s) \<and> \<not> ipv4_is_broadcast (sa_address s)
      \<and> \<not> ipv4_is_link_local (sa_address s)
      \<and> (sa_address s \<noteq> sa_network s \<and> sa_address s \<noteq> sa_broadcast s)"
    using usable_host_not_special [of s] True
    unfolding arith usable_host_def ipv4_is_loopback_def ipv4_is_multicast_def
      ipv4_is_unspecified_def ipv4_is_broadcast_def ipv4_is_link_local_def by blast
  ultimately show ?thesis by blast
qed

section \<open>What is written reads back\<close>

lemma ws_space [simp]: "is_whitespace (CHR '' '')"
  by (simp add: is_whitespace_def)

lemma not_ws_hash [simp]: "\<not> is_whitespace (CHR ''#'')"
  by (simp add: is_whitespace_def)

lemma parse_line_words:
  assumes "split_whitespace raw = k # ws" and "\<not> starts_with ''#'' k"
  shows "parse_line st raw = parse_words st k ws"
proof -
  have w: "split_whitespace (trim raw) = k # ws" using assms(1) by simp
  then have "trim raw \<noteq> []" by (metis list.distinct(1) split_whitespace_Nil)
  moreover have "\<not> starts_with ''#'' (trim raw)"
  proof
    assume "starts_with ''#'' (trim raw)"
    then obtain t where "trim raw = CHR ''#'' # t" by (auto simp: starts_with_iff)
    with w have "\<exists>w. k = CHR ''#'' # w"
      using split_whitespace_hd [of "CHR ''#''" t] by (auto simp del: split_whitespace_trim)
    with assms(2) show False by (auto simp: starts_with_iff)
  qed
  ultimately show ?thesis
    using assms(1) by (simp add: parse_line_def next_word_def unwrap_or_default_def)
qed

lemma parse_keyed_line:
  assumes "list_all (\<lambda>c. \<not> is_whitespace c) k" and "k \<noteq> []" and "\<not> starts_with ''#'' k"
  shows "parse_line st (''  '' @ k @ '' '' @ rest) = parse_words st k (split_whitespace rest)"
  using assms by (intro parse_line_words) (simp_all add: txt_simps)

lemma show_ipv4_word [simp]: "split_whitespace (show_ipv4 a) = [show_ipv4 a]"
  by (simp add: split_whitespace_word show_ipv4_no_ws)

lemma split_once_ipv4 [simp]: "split_once CHR ''/'' (show_ipv4 a) = None"
  by (simp add: split_once_None show_ipv4_no_slash)

lemma parse_u8_Nil [simp]: "parse_u8 [] = None"
  by (simp add: parse_u8_def parse_uint_def)

lemmas parse_word_simps =
  parse_words_def next_word_def nth_word_def unwrap_or_default_def Let_def

lemma parse_address_line:
  "ps_in_br0 st \<Longrightarrow> parse_line st (''  address '' @ show_ipv4 a) = st\<lparr>ps_address := Some a\<rparr>"
  using parse_keyed_line [of "''address''" st "show_ipv4 a"]
  by (simp add: parse_word_simps is_whitespace_def starts_with_def)

lemma parse_netmask_line:
  "ps_in_br0 st \<Longrightarrow> parse_line st (''  netmask '' @ show_ipv4 m)
     = st\<lparr>ps_prefix := Some (of_nat (count_ones m))\<rparr>"
  using parse_keyed_line [of "''netmask''" st "show_ipv4 m"]
  by (simp add: parse_word_simps is_whitespace_def starts_with_def)

lemma parse_gateway_line:
  "ps_in_br0 st \<Longrightarrow> parse_line st (''  gateway '' @ show_ipv4 g) = st\<lparr>ps_gateway := Some g\<rparr>"
  using parse_keyed_line [of "''gateway''" st "show_ipv4 g"]
  by (simp add: parse_word_simps is_whitespace_def starts_with_def)

lemma parse_nameservers_line:
  assumes "ps_in_br0 st"
  shows "parse_line st (''  dns-nameservers '' @ join '' '' (map show_ipv4 ds))
     = st\<lparr>ps_dns := ds\<rparr>"
proof -
  have "split_whitespace (join '' '' (map show_ipv4 ds)) = map show_ipv4 ds"
    by (rule split_whitespace_join) (auto simp: list_all_iff dest: show_ipv4_no_ws
        [unfolded list_all_iff, rule_format])
  then show ?thesis
    using assms parse_keyed_line [of "''dns-nameservers''" st "join '' '' (map show_ipv4 ds)"]
    by (simp add: parse_word_simps is_whitespace_def starts_with_def filter_map_total)
qed

lemma parse_search_line:
  assumes "ps_in_br0 st" and "d \<noteq> []" and "list_all (\<lambda>c. \<not> is_whitespace c) d"
  shows "parse_line st (''  dns-search '' @ d) = st\<lparr>ps_search := Some d\<rparr>"
  using assms parse_keyed_line [of "''dns-search''" st d]
  by (simp add: parse_word_simps is_whitespace_def starts_with_def split_whitespace_word)

lemma parse_other_lines:
  assumes "ps_in_br0 st"
  shows "parse_line st (''  bridge-ports '' @ r) = st"
    and "parse_line st (''  pre-up '' @ r) = st"
    and "parse_line st (''  wait-delay '' @ r) = st"
    and "parse_line st (''  hostname '' @ r) = st"
    and "parse_line st (''  up '' @ r) = st"
  using assms parse_keyed_line [of "''bridge-ports''" st r]
    parse_keyed_line [of "''pre-up''" st r] parse_keyed_line [of "''wait-delay''" st r]
    parse_keyed_line [of "''hostname''" st r] parse_keyed_line [of "''up''" st r]
  by (simp_all add: parse_word_simps is_whitespace_def starts_with_def)

lemma parse_head: "foldl parse_line parse_init render_head = parse_init"
  by code_simp

lemma parse_iface_static:
  "parse_line parse_init (''iface '' @ INTERFACE @ '' inet static'')
     = parse_init\<lparr>ps_in_br0 := True, ps_mode := Some ''static''\<rparr>"
  by code_simp

lemma length_filter_ge: "length (filter (\<lambda>n. k \<le> n) [0..<m]) = m - k"
  by (induction m) auto

lemma count_ones_mask: "k \<le> 32 \<Longrightarrow> count_ones (push_bit k (- 1)) = 32 - k"
proof -
  have "filter (bit (push_bit k (- 1 :: u32))) [0..<32] = filter (\<lambda>n. k \<le> n) [0..<32]"
    by (rule filter_cong) (auto simp: bit_push_bit_iff bit_not_iff bit_mask_iff
        push_bit_minus_one_eq_not_mask)
  then show ?thesis by (simp only: count_ones_def length_filter_ge)
qed

lemma count_ones_netmask:
  assumes "8 \<le> unat (sa_prefix s)" and "unat (sa_prefix s) \<le> 30"
  shows "of_nat (count_ones (netmask s)) = sa_prefix s"
proof -
  have "count_ones (netmask s) = 32 - host_bits s"
    unfolding netmask_def sa_mask_eq [OF assms]
    by (rule count_ones_mask) (simp add: host_bits_def)
  then show ?thesis using assms by (simp add: host_bits_def)
qed

lemma search_word:
  assumes "\<not> bad_search d"
  shows "d \<noteq> []" and "list_all (\<lambda>c. \<not> is_whitespace c) d" and "CHR ''#'' \<notin> set d"
    and "CHR 0x27 \<notin> set d" and "newline \<notin> set d"
  using assms
  by (auto simp: bad_search_def list_all_iff is_ascii_alphanumeric_def is_ascii_alphabetic_def
      is_ascii_digit_def is_whitespace_def newline_def Let_def dest!: bspec)

lemma parse_bridge_lines:
  assumes "ps_in_br0 st"
  shows "foldl parse_line st
     [''  bridge-ports '' @ BRIDGE_PORTS, ''  pre-up /etc/network/nfs_check'', ''  wait-delay 15'']
     = st"
  using parse_other_lines(1) [OF assms, of BRIDGE_PORTS]
    parse_other_lines(2) [OF assms, of "''/etc/network/nfs_check''"]
    parse_other_lines(3) [OF assms, of "''15''"]
  by simp

definition render_gateway :: "ipv4 option \<Rightarrow> string list" where
  "render_gateway g = (case g of None \<Rightarrow> [] | Some gw \<Rightarrow> [''  gateway '' @ show_ipv4 gw])"

definition render_dns :: "static_address \<Rightarrow> string list" where
  "render_dns s =
     (if sa_dns s \<noteq> [] then [''  dns-nameservers '' @ join '' '' (map show_ipv4 (sa_dns s))] else [])"

definition render_search :: "string option \<Rightarrow> string list" where
  "render_search x = (case x of None \<Rightarrow> [] | Some d \<Rightarrow> [''  dns-search '' @ d])"

definition render_hook :: "static_address \<Rightarrow> string list" where
  "render_hook s =
     (if sa_dns s \<noteq> [] \<or> sa_search s \<noteq> None
      then [''  up '' @ ''printf '' @ CHR 0x27
               # hook_argument (resolv_conf (sa_dns s) (sa_search s))
               @ CHR 0x27 # '' > /etc/resolv.conf'']
      else [])"

lemma render_static_parts:
  "render_static s =
     [''iface '' @ INTERFACE @ '' inet static'', ''  address '' @ show_ipv4 (sa_address s),
      ''  netmask '' @ show_ipv4 (netmask s)]
     @ render_gateway (sa_gateway s)
     @ [''  bridge-ports '' @ BRIDGE_PORTS, ''  pre-up /etc/network/nfs_check'', ''  wait-delay 15'']
     @ render_dns s @ render_search (sa_search s) @ render_hook s"
  by (simp add: render_static_def render_gateway_def render_dns_def render_search_def
      render_hook_def split: option.split)

lemma parse_gateway_part:
  "ps_in_br0 st \<Longrightarrow> ps_gateway st = None \<Longrightarrow>
     foldl parse_line st (render_gateway g) = st\<lparr>ps_gateway := g\<rparr>"
  by (cases g) (simp_all only: render_gateway_def option.case foldl.simps parse_gateway_line,
      simp)

lemma parse_dns_part:
  "ps_in_br0 st \<Longrightarrow> ps_dns st = [] \<Longrightarrow>
     foldl parse_line st (render_dns s) = st\<lparr>ps_dns := sa_dns s\<rparr>"
  by (cases "sa_dns s = []") (simp_all only: render_dns_def if_True if_False simp_thms
      foldl.simps parse_nameservers_line, simp)

lemma parse_search_part:
  assumes "ps_in_br0 st" and "ps_search st = None" and "\<And>d. x = Some d \<Longrightarrow> \<not> bad_search d"
  shows "foldl parse_line st (render_search x) = st\<lparr>ps_search := x\<rparr>"
proof (cases x)
  case None
  then show ?thesis using assms(2) by (simp add: render_search_def)
next
  case (Some d)
  then have "\<not> bad_search d" by (rule assms(3))
  from parse_search_line [OF assms(1) search_word(1,2) [OF this]] Some show ?thesis
    by (simp only: render_search_def option.case foldl.simps)
qed

lemma parse_hook_part: "ps_in_br0 st \<Longrightarrow> foldl parse_line st (render_hook s) = st"
  by (simp only: render_hook_def parse_other_lines foldl.simps split: if_split) blast

lemma parse_static:
  assumes "static_refusal s = None"
  shows "foldl parse_line parse_init (render_static s)
     = \<lparr>ps_in_br0 = True, ps_mode = Some ''static'', ps_address = Some (sa_address s),
        ps_prefix = Some (sa_prefix s), ps_gateway = sa_gateway s, ps_dns = sa_dns s,
        ps_search = sa_search s\<rparr>"
proof -
  have p: "8 \<le> unat (sa_prefix s)" "unat (sa_prefix s) \<le> 30"
    using assms by (auto simp: static_refusal_None_iff usable_host_def)
  have d: "sa_search s = Some d \<Longrightarrow> \<not> bad_search d" for d
    using assms by (auto simp: static_refusal_None_iff)
  let ?st = "parse_init\<lparr>ps_in_br0 := True, ps_mode := Some ''static'',
    ps_address := Some (sa_address s), ps_prefix := Some (sa_prefix s)\<rparr>"
  have "foldl parse_line parse_init
      [''iface '' @ INTERFACE @ '' inet static'', ''  address '' @ show_ipv4 (sa_address s),
       ''  netmask '' @ show_ipv4 (netmask s)] = ?st"
    unfolding foldl.simps parse_iface_static
    by (subst parse_address_line, simp)+
      (subst parse_netmask_line, simp_all add: count_ones_netmask [OF p])
  then have "foldl parse_line parse_init (render_static s) =
      ?st\<lparr>ps_gateway := sa_gateway s, ps_dns := sa_dns s, ps_search := sa_search s\<rparr>"
    by (simp add: render_static_parts parse_gateway_part parse_bridge_lines parse_dns_part
        parse_search_part [OF _ _ d] parse_hook_part parse_init_def
        del: append_Cons append.simps foldl_Cons)
  then show ?thesis by (simp add: parse_init_def)
qed

lemma parse_iface_dhcp:
  "foldl parse_line parse_init render_dhcp
     = parse_init\<lparr>ps_in_br0 := True, ps_mode := Some ''dhcp''\<rparr>"
  by code_simp

text \<open>Every rendered line is free of line breaks, so the file splits into exactly these.\<close>

lemma plain_lineI: "list_all (\<lambda>c. c \<noteq> newline \<and> c \<noteq> CHR 0x0D) l \<Longrightarrow> plain_line l"
  using last_in_set [of l] by (auto simp: plain_line_def list_all_iff simp del: last_in_set)

lemma plain_line_append: "plain_line a \<Longrightarrow> plain_line b \<Longrightarrow> plain_line (a @ b)"
  by (cases "b = []") (auto simp: plain_line_def)

lemma no_ws_plain: "list_all (\<lambda>c. \<not> is_whitespace c) w \<Longrightarrow> plain_line w"
  by (rule plain_lineI) (auto simp: list_all_iff is_whitespace_def newline_def)

lemma plain_show_ipv4 [simp]: "plain_line (show_ipv4 a)"
  by (rule no_ws_plain) (rule show_ipv4_no_ws)

lemma plain_join: "list_all plain_line ws \<Longrightarrow> plain_line (join '' '' ws)"
proof (induction "'' ''" ws rule: join.induct)
  case (3 x y ys)
  moreover have "plain_line '' ''" by (simp add: plain_line_def newline_def)
  ultimately show ?case by (auto intro: plain_line_append simp del: append_Cons)
qed (simp_all add: plain_line_def)

lemma plain_head: "list_all plain_line render_head"
  by code_simp

lemma plain_dhcp: "list_all plain_line render_dhcp"
  by code_simp

lemma hook_no_newline: "newline \<notin> set (hook_argument r)"
  unfolding hook_argument_def
  using set_replace_char [of "CHR ''#''" "CHR 0x5C # ''043''"
      "replace_char newline [CHR 0x5C, CHR ''n''] r"]
    set_replace_char [of newline "[CHR 0x5C, CHR ''n'']" r]
  by (auto simp: newline_def)

lemma plain_hook: "list_all plain_line (render_hook s)"
  using hook_no_newline by (auto simp: render_hook_def plain_line_def newline_def)

lemma plain_static:
  assumes "\<And>d. sa_search s = Some d \<Longrightarrow> \<not> bad_search d"
  shows "list_all plain_line (render_static s)"
proof -
  have lit: "plain_line (''iface '' @ INTERFACE @ '' inet static'')"
    "plain_line (''  bridge-ports '' @ BRIDGE_PORTS)"
    "plain_line ''  pre-up /etc/network/nfs_check''" "plain_line ''  wait-delay 15''"
    "plain_line ''  address ''" "plain_line ''  netmask ''" "plain_line ''  gateway ''"
    "plain_line ''  dns-nameservers ''" "plain_line ''  dns-search ''"
    by code_simp+
  have "list_all plain_line (render_gateway (sa_gateway s))"
    by (cases "sa_gateway s") (simp_all only: render_gateway_def option.case list.pred_inject simp_thms
        plain_line_append lit plain_show_ipv4)
  moreover have "list_all plain_line (render_dns s)"
    using plain_join [of "map show_ipv4 (sa_dns s)"]
    by (simp add: render_dns_def plain_line_append lit list_all_iff del: append_Cons)
  moreover have "list_all plain_line (render_search (sa_search s))"
    using assms search_word(2) no_ws_plain
    by (cases "sa_search s")
      (simp_all add: render_search_def plain_line_append lit del: append_Cons)
  ultimately show ?thesis
    by (simp add: render_static_parts lit plain_line_append plain_hook del: append_Cons)
qed

lemma render_lines_plain:
  "address_refusal d = None \<Longrightarrow> list_all plain_line (render_lines d)"
  using plain_head plain_dhcp plain_static
  by (cases d) (auto simp: render_lines_def address_refusal_def static_refusal_None_iff)

lemma parse_render_aux:
  assumes "address_refusal d = None"
  shows "parse (render d) = \<lparr>pf_document = Some d, pf_ours = True\<rparr>"
proof -
  have "lines (render d) = render_lines d"
    unfolding render_def by (rule lines_unlines) (rule render_lines_plain [OF assms])
  moreover have "trim MARKER = MARKER" by code_simp
  moreover have "parse_document (foldl parse_line parse_init (render_lines d)) = Some d"
    using assms parse_static
    by (cases d) (auto simp: render_lines_def parse_head parse_iface_dhcp parse_document_def
        address_refusal_def)
  ultimately show ?thesis
    by (simp add: parse_def render_lines_def render_head_def)
qed

section \<open>The resolver hook\<close>

text \<open>The last line of a static stanza hands its argument to the shell's \<open>printf\<close>, inside
  single quotes. What the source relies on is the documented reading of a format: an escape
  \<open>n\<close> is a line break, a backslash and three octal digits are that character, and a
  character other than a backslash or a percent sign stands for itself.\<close>

definition printf_escapes :: "(string \<Rightarrow> string) \<Rightarrow> bool" where
  "printf_escapes pf =
     (pf [] = []
      \<and> (\<forall>s. pf (CHR 0x5C # CHR ''n'' # s) = newline # pf s)
      \<and> (\<forall>s. pf (CHR 0x5C # ''043'' @ s) = CHR ''#'' # pf s)
      \<and> (\<forall>c s. c \<noteq> CHR 0x5C \<and> c \<noteq> CHR 0x25 \<longrightarrow> pf (c # s) = c # pf s))"

lemma replace_char_Cons:
  "replace_char c r (x # s) = (if x = c then r else [x]) @ replace_char c r s"
  by (simp add: replace_char_def)

lemma hook_argument_Cons:
  "hook_argument (x # s) =
     (if x = newline then [CHR 0x5C, CHR ''n''] else if x = CHR ''#'' then CHR 0x5C # ''043''
      else [x]) @ hook_argument s"
  by (simp add: hook_argument_def replace_char_Cons newline_def)

lemma printf_hook:
  "printf_escapes pf \<Longrightarrow> list_all (\<lambda>c. c \<noteq> CHR 0x5C \<and> c \<noteq> CHR 0x25) r \<Longrightarrow>
     pf (hook_argument r) = r"
  by (induction r)
    (simp_all add: hook_argument_Cons printf_escapes_def, simp add: hook_argument_def replace_char_def)

definition resolv_char :: "char \<Rightarrow> bool" where
  "resolv_char c =
     (is_ascii_alphanumeric c \<or> c \<in> {CHR ''.'', CHR ''-'', CHR '' '', CHR ''#'', newline})"

lemma resolv_conf_chars:
  assumes "\<And>d. search = Some d \<Longrightarrow> \<not> bad_search d"
  shows "list_all resolv_char (resolv_conf dns search)"
proof -
  have "list_all resolv_char (show_ipv4 a)" for a
    using show_ipv4_chars [of a]
    by (auto simp: list_all_iff resolv_char_def is_ascii_alphanumeric_def)
  moreover have "search = Some d \<Longrightarrow> list_all resolv_char d" for d
    using assms [of d] by (auto simp: bad_search_def list_all_iff resolv_char_def)
  moreover have "list_all resolv_char ''search ''" "list_all resolv_char ''nameserver ''"
    "list_all resolv_char ('' # '' @ INTERFACE)" "resolv_char newline"
    by code_simp+
  ultimately show ?thesis
    by (cases search) (auto simp: resolv_conf_def resolv_lines_def unlines_def list_all_iff
        simp del: append_Cons)
qed

lemma resolv_char_safe:
  "resolv_char c \<Longrightarrow> c \<noteq> CHR 0x5C \<and> c \<noteq> CHR 0x25 \<and> c \<noteq> CHR 0x27"
  by (auto simp: resolv_char_def is_ascii_alphanumeric_def is_ascii_alphabetic_def
      is_ascii_digit_def newline_def Let_def)

lemma hook_argument_set:
  "set (hook_argument r) \<subseteq> (set r - {newline, CHR ''#''}) \<union> {CHR 0x5C, CHR ''n'', CHR ''0'', CHR ''4'', CHR ''3''}"
  by (induction r) (auto simp: hook_argument_Cons, simp add: hook_argument_def replace_char_def)

lemma hash_free_lines:
  assumes "static_refusal s = None"
  shows "list_all (\<lambda>l. CHR ''#'' \<notin> set l) (render_static s)"
proof -
  have d: "sa_search s = Some d \<Longrightarrow> \<not> bad_search d" for d
    using assms by (auto simp: static_refusal_None_iff)
  have ip: "CHR ''#'' \<notin> set (show_ipv4 a)" for a
    using show_ipv4_chars [of a] by (auto simp: list_all_iff is_ascii_digit_def Let_def)
  then have join: "CHR ''#'' \<notin> set (join '' '' (map show_ipv4 ds))" for ds
    using set_join [of "'' ''" "map show_ipv4 ds"] by auto
  have hook: "CHR ''#'' \<notin> set (hook_argument r)" for r
    using hook_argument_set [of r] by auto
  show ?thesis
    using ip join search_word(3) [OF d] hook
    by (auto simp: render_static_parts render_gateway_def render_dns_def render_search_def
        render_hook_def INTERFACE_def BRIDGE_PORTS_def split: option.splits)
qed

section \<open>Properties\<close>

text \<open>the board accepts a static document exactly when its address is a usable host of its
  subnet: a prefix from 8 to 30, a host number that is neither all zeros nor all ones, no
  loopback, multicast or link-local network, a gateway (if any) on the same network and not
  the board itself, and a search domain (if any) of letters, digits, dots and hyphens.\<close>

theorem static_refusal_iff:
  "address_refusal (Static s) = None \<longleftrightarrow>
     usable_host s
     \<and> (case sa_gateway s of None \<Rightarrow> True | Some gw \<Rightarrow> gateway_on_link s gw)
     \<and> (case sa_search s of None \<Rightarrow> True | Some d \<Rightarrow> d \<noteq> [] \<and>
          list_all (\<lambda>c. is_ascii_alphanumeric c \<or> c = CHR ''.'' \<or> c = CHR ''-'') d)"
  by (auto simp: address_refusal_def static_refusal_None_iff bad_search_def split: option.split)

definition example_address :: static_address where
  "example_address = \<lparr>sa_address = of_octets 10 1 2 69, sa_prefix = 24,
     sa_gateway = Some (of_octets 10 1 2 1), sa_dns = [of_octets 10 1 2 1, of_octets 1 1 1 1],
     sa_search = Some ''lan''\<rparr>"

lemma example_address_ok: "address_refusal (Static example_address) = None"
  by (simp add: static_refusal_iff usable_host_def gateway_on_link_def example_address_def
      of_octets_def octets_def host_bits_def is_ascii_alphanumeric_def is_ascii_alphabetic_def
      word_eq_iff_unsigned)

text \<open>C23: a document the board accepts survives the interfaces file: reading what was rendered
  gives back the same document, and the file is recognised as the board's own.\<close>

theorem parse_render:
  assumes "address_refusal d = None"
  shows "parse (render d) = \<lparr>pf_document = Some d, pf_ours = True\<rparr>"
  by (rule parse_render_aux) (rule assms)

theorem parse_render_witness:
  "address_refusal (Static example_address) = None
   \<and> parse (render (Static example_address))
     = \<lparr>pf_document = Some (Static example_address), pf_ours = True\<rparr>"
  using parse_render [OF example_address_ok] example_address_ok by simp

text \<open>the resolver hook of an accepted document is safe and exact: no line of the stanza
  holds a hash sign, the quoted argument holds neither a quote nor a line break, and a
  \<open>printf\<close> that reads its format as documented prints the resolver configuration itself.\<close>

theorem resolver_hook:
  assumes "address_refusal (Static s) = None" and "printf_escapes pf"
  shows "list_all (\<lambda>l. CHR ''#'' \<notin> set l) (render_static s)
    \<and> CHR 0x27 \<notin> set (hook_argument (resolv_conf (sa_dns s) (sa_search s)))
    \<and> newline \<notin> set (hook_argument (resolv_conf (sa_dns s) (sa_search s)))
    \<and> pf (hook_argument (resolv_conf (sa_dns s) (sa_search s)))
        = resolv_conf (sa_dns s) (sa_search s)"
proof (intro conjI)
  have s: "static_refusal s = None" using assms(1) by (simp add: address_refusal_def)
  then show "list_all (\<lambda>l. CHR ''#'' \<notin> set l) (render_static s)" by (rule hash_free_lines)
  from s have chars: "list_all resolv_char (resolv_conf (sa_dns s) (sa_search s))"
    by (intro resolv_conf_chars) (auto simp: static_refusal_None_iff)
  show "CHR 0x27 \<notin> set (hook_argument (resolv_conf (sa_dns s) (sa_search s)))"
    using chars hook_argument_set resolv_char_safe by (fastforce simp: list_all_iff)
  show "newline \<notin> set (hook_argument (resolv_conf (sa_dns s) (sa_search s)))"
    by (rule hook_no_newline)
  show "pf (hook_argument (resolv_conf (sa_dns s) (sa_search s)))
      = resolv_conf (sa_dns s) (sa_search s)"
    using chars resolv_char_safe by (intro printf_hook assms(2)) (auto simp: list_all_iff)
qed

fun example_printf :: "string \<Rightarrow> string" where
  "example_printf [] = []"
| "example_printf (c # s) =
     (if c \<noteq> CHR 0x5C then c # example_printf s
      else (case s of
              [] \<Rightarrow> [c]
            | x # t \<Rightarrow>
                if x = CHR ''n'' then newline # example_printf t
                else (case t of
                        y # z # u \<Rightarrow>
                          char_of (dec_value [x] * 64 + dec_value [y] * 8 + dec_value [z])
                            # example_printf u
                      | _ \<Rightarrow> c # x # t)))"

theorem resolver_hook_witness:
  "address_refusal (Static example_address) = None \<and> printf_escapes example_printf
   \<and> example_printf (hook_argument (resolv_conf (sa_dns example_address) (Some ''lan'')))
     = ''search lan # br0'' @ newline # ''nameserver 10.1.2.1 # br0'' @ newline
       # ''nameserver 1.1.1.1 # br0'' @ [newline]"
proof -
  have pf: "printf_escapes example_printf"
    by (auto simp: printf_escapes_def dec_value_def char_of_eq_iff take_bit_eq_mod)
  have "sa_search example_address = Some ''lan''" by (simp add: example_address_def)
  moreover have "resolv_conf (sa_dns example_address) (Some ''lan'') =
      ''search lan # br0'' @ newline # ''nameserver 10.1.2.1 # br0'' @ newline
       # ''nameserver 1.1.1.1 # br0'' @ [newline]"
    by (simp add: resolv_conf_def resolv_lines_def unlines_def example_address_def of_octets_def
        show_ipv4_shape show_nat_eval INTERFACE_def)
  ultimately show ?thesis
    using resolver_hook [OF example_address_ok pf] example_address_ok pf by simp
qed

end
