(* ===== verification/Network_Interfaces.thy ===== *)
theory Network_Interfaces
  imports Address_Document Host_Files
    "HOL-Library.Char_ord" "HOL-Library.List_Lexorder" "HOL-Library.Product_Lexorder"
begin

text \<open>
  \<^verbatim>\<open>bmcd/src/app/network_interfaces.rs\<close>: what the network has right now, read from the JSON
  that \<^verbatim>\<open>ip\<close> prints. The JSON parser is a parameter \<open>from_json\<close>; the value it returns is a
  datatype, with the accessors the source uses. Running a program is the \<open>exec\<close> operation
  of a host, over a kernel state of any type.
\<close>

section \<open>JSON values\<close>

datatype json =
    JNull
  | JBool bool
  | JNat nat
  | JNumber
  | JString string
  | JArray "json list"
  | JObject "(string \<times> json) list"

fun json_get :: "json \<Rightarrow> string \<Rightarrow> json option" where
  "json_get (JObject fs) k = map_of fs k"
| "json_get _ k = None"

fun as_str :: "json \<Rightarrow> string option" where
  "as_str (JString s) = Some s"
| "as_str _ = None"

fun as_u64 :: "json \<Rightarrow> nat option" where
  "as_u64 (JNat n) = (if n < 2 ^ 64 then Some n else None)"
| "as_u64 _ = None"

fun as_bool :: "json \<Rightarrow> bool option" where
  "as_bool (JBool b) = Some b"
| "as_bool _ = None"

fun as_array :: "json \<Rightarrow> json list option" where
  "as_array (JArray xs) = Some xs"
| "as_array _ = None"

definition get_str :: "json \<Rightarrow> string \<Rightarrow> string option" where
  "get_str j k = Option.bind (json_get j k) as_str"

section \<open>Running a program\<close>

datatype apply_error = Command string string | ApplyIo io_error

type_synonym 'n exec = "string \<Rightarrow> string list \<Rightarrow> 'n \<Rightarrow> (apply_error, string) result \<times> 'n"

definition output_or_empty :: "(apply_error, string) result \<Rightarrow> string" where
  "output_or_empty r = (case r of Inl _ \<Rightarrow> [] | Inr s \<Rightarrow> s)"

section \<open>Interfaces and routes\<close>

definition MANAGED :: string where "MANAGED = ''br0''"

record interface_info =
  if_name :: string
  if_addresses :: "string list"
  if_mac :: string
  if_default_route :: bool

record default_route =
  dr_dev :: string
  dr_gateway :: "ipv4 option"
  dr_metric :: u32

record net_snapshot =
  sn_interfaces :: "interface_info list"
  sn_gateway :: "ipv4 option"

definition snapshot_default :: net_snapshot where
  "snapshot_default = \<lparr>sn_interfaces = [], sn_gateway = None\<rparr>"

definition primary :: "net_snapshot \<Rightarrow> interface_info option" where
  "primary s =
     (case List.find (\<lambda>i. if_name i = MANAGED) (sn_interfaces s) of
        Some i \<Rightarrow> Some i
      | None \<Rightarrow> (case sn_interfaces s of [] \<Rightarrow> None | i # _ \<Rightarrow> Some i))"

definition primary_ipv4 :: "net_snapshot \<Rightarrow> string option" where
  "primary_ipv4 s =
     (case primary s of
        None \<Rightarrow> None
      | Some i \<Rightarrow>
          (case if_addresses i of [] \<Rightarrow> None | c # _ \<Rightarrow> Some (hd (split_on CHR ''/'' c))))"

definition parse_route :: "json \<Rightarrow> default_route option" where
  "parse_route r =
     map_option
       (\<lambda>dev. \<lparr>dr_dev = dev,
          dr_gateway = Option.bind (get_str r ''gateway'') parse_ipv4,
          dr_metric = of_nat (case Option.bind (json_get r ''metric'') as_u64 of
                                None \<Rightarrow> 0 | Some m \<Rightarrow> m)\<rparr>)
       (get_str r ''dev'')"

definition is_default_dst :: "json \<Rightarrow> bool" where
  "is_default_dst r =
     ((case get_str r ''dst'' of None \<Rightarrow> ''default'' | Some d \<Rightarrow> d) = ''default'')"

definition parse_default_routes :: "(string \<Rightarrow> json option) \<Rightarrow> string \<Rightarrow> default_route list" where
  "parse_default_routes from_json s =
     (case from_json s of
        Some (JArray routes) \<Rightarrow>
          sort_key (\<lambda>r. unat (dr_metric r)) (filter_map parse_route (filter is_default_dst routes))
      | _ \<Rightarrow> [])"

definition parse_flags :: "json \<Rightarrow> string list" where
  "parse_flags entry =
     (case Option.bind (json_get entry ''flags'') as_array of
        None \<Rightarrow> [] | Some fs \<Rightarrow> filter_map as_str fs)"

text \<open>One \<open>addr_info\<close> entry of an interface: whether it is an alias, and its CIDR form.\<close>

definition parse_addr_info :: "string \<Rightarrow> json \<Rightarrow> (bool \<times> string) option" where
  "parse_addr_info name info =
     (if (case get_str info ''family'' of None \<Rightarrow> ''inet'' | Some f \<Rightarrow> f) \<noteq> ''inet''
         \<or> get_str info ''scope'' \<noteq> Some ''global'' then None
      else
        (case (get_str info ''local'', Option.bind (json_get info ''prefixlen'') as_u64) of
           (Some local, Some prefix) \<Rightarrow>
             Some (Option.bind (json_get info ''secondary'') as_bool = Some True
                   \<or> (case get_str info ''label'' of None \<Rightarrow> False | Some label \<Rightarrow> label \<noteq> name),
                   local @ ''/'' @ show_nat prefix)
         | _ \<Rightarrow> None))"

definition parse_interface :: "json \<Rightarrow> interface_info option" where
  "parse_interface entry =
     (case get_str entry ''ifname'' of
        None \<Rightarrow> None
      | Some name \<Rightarrow>
          (let flags = parse_flags entry;
               infos = (case Option.bind (json_get entry ''addr_info'') as_array of
                          None \<Rightarrow> [] | Some is \<Rightarrow> is);
               addresses = filter_map (parse_addr_info name) infos
           in if ''UP'' \<notin> set flags \<or> ''LOOPBACK'' \<in> set flags then None
              else if addresses = [] then None
              else Some \<lparr>if_name = name, if_addresses = map snd (sort_key fst addresses),
                if_mac = (case get_str entry ''address'' of None \<Rightarrow> [] | Some a \<Rightarrow> a),
                if_default_route = False\<rparr>))"

definition mark_default :: "default_route list \<Rightarrow> interface_info list \<Rightarrow> interface_info list" where
  "mark_default routes found =
     (case List.find (\<lambda>r. list_ex (\<lambda>i. if_name i = dr_dev r) found) routes of
        None \<Rightarrow> found
      | Some r \<Rightarrow> map (\<lambda>i. i\<lparr>if_default_route := (if_name i = dr_dev r)\<rparr>) found)"

definition parse_interfaces ::
  "(string \<Rightarrow> json option) \<Rightarrow> string \<Rightarrow> default_route list \<Rightarrow> interface_info list" where
  "parse_interfaces from_json s routes =
     (case from_json s of
        Some (JArray entries) \<Rightarrow>
          sort_key (\<lambda>i. (\<not> if_default_route i, if_name i))
            (mark_default routes (filter_map parse_interface entries))
      | _ \<Rightarrow> [])"

definition parse_snapshot :: "(string \<Rightarrow> json option) \<Rightarrow> string \<Rightarrow> string \<Rightarrow> net_snapshot" where
  "parse_snapshot from_json addr_json route_json =
     (let routes = parse_default_routes from_json route_json;
          snap = \<lparr>sn_interfaces = parse_interfaces from_json addr_json routes, sn_gateway = None\<rparr>
      in snap\<lparr>sn_gateway :=
           (case primary snap of
              Some p \<Rightarrow> Option.bind (List.find (\<lambda>r. dr_dev r = if_name p) routes) dr_gateway
            | None \<Rightarrow> (case routes of [] \<Rightarrow> None | r # _ \<Rightarrow> dr_gateway r))\<rparr>)"

definition read_snapshot :: "(string \<Rightarrow> json option) \<Rightarrow> 'n exec \<Rightarrow> 'n \<Rightarrow> net_snapshot \<times> 'n" where
  "read_snapshot from_json exec n =
     (let (addr, n) = exec ''ip'' [''-j'', ''-4'', ''addr'', ''show''] n;
          (route, n) = exec ''ip'' [''-j'', ''-4'', ''route'', ''show'', ''default''] n
      in (parse_snapshot from_json (output_or_empty addr) (output_or_empty route), n))"

section \<open>The managed bridge\<close>

text \<open>\<open>/sys/class/net\<close> is its entries, each with whether it has a \<open>bridge\<close> directory, and
  whether the directory can be listed.\<close>

record net_class =
  nc_entries :: "(string \<times> bool) list"
  nc_listable :: bool

definition managed_present :: "net_class \<Rightarrow> bool" where
  "managed_present nc = (MANAGED \<in> set (map fst (nc_entries nc)))"

definition bridges :: "net_class \<Rightarrow> string list" where
  "bridges nc = (if nc_listable nc then sort (map fst (filter snd (nc_entries nc))) else [])"

fun push_missing :: "string list \<Rightarrow> string list \<Rightarrow> string list" where
  "push_missing names [] = names"
| "push_missing names (b # bs) = push_missing (if b \<in> set names then names else names @ [b]) bs"

definition missing_message :: "net_class \<Rightarrow> net_snapshot \<Rightarrow> string \<Rightarrow> string" where
  "missing_message nc snap tail =
     (let names = push_missing (map if_name (sn_interfaces snap)) (bridges nc);
          has = (if names = [] then ''it has no bridge and no interface with an address''
                 else ''it has: '' @ join '', '' names)
      in ''This board has no '' @ MANAGED @ '' bridge ('' @ has @ ''). '' @ tail)"

section \<open>Properties\<close>

lemma parse_interface_addresses: "parse_interface e = Some i \<Longrightarrow> if_addresses i \<noteq> []"
  by (auto simp: parse_interface_def Let_def split: option.splits if_splits
      dest!: arg_cong [where f = length])

lemma set_mark_default:
  "i \<in> set (mark_default routes found) \<Longrightarrow> \<exists>j \<in> set found. if_addresses i = if_addresses j"
  by (auto simp: mark_default_def split: option.splits)

lemma parse_interfaces_addresses:
  "i \<in> set (parse_interfaces fj s routes) \<Longrightarrow> if_addresses i \<noteq> []"
  by (auto simp: parse_interfaces_def set_filter_map split: option.splits json.splits
      dest!: set_mark_default parse_interface_addresses)

lemma parse_interfaces_sorted:
  "sorted (map (\<lambda>i. (\<not> if_default_route i, if_name i)) (parse_interfaces fj s routes))"
  by (auto simp: parse_interfaces_def split: option.splits json.splits)

lemma sorted_head_default:
  assumes "sorted (map (\<lambda>i. (\<not> if_default_route i, if_name i)) (x # xs))"
    and "y \<in> set xs" and "if_default_route y"
  shows "if_default_route x"
  using assms by (force simp: less_eq_prod_def)

lemma sn_interfaces_parse:
  "sn_interfaces (parse_snapshot fj a r) = parse_interfaces fj a (parse_default_routes fj r)"
  by (simp add: parse_snapshot_def Let_def)

lemma primary_Some:
  assumes "primary s = Some p"
  shows "p \<in> set (sn_interfaces s)"
    and "if_name p \<noteq> MANAGED \<Longrightarrow>
      (\<forall>i \<in> set (sn_interfaces s). if_name i \<noteq> MANAGED) \<and> (\<exists>xs. sn_interfaces s = p # xs)"
  using assms
  by (auto simp: primary_def find_None_iff split: option.splits list.splits dest: find_set)

text \<open>the interface whose address the board reports is one that is up and has an address;
  it is the managed bridge whenever that has one, and otherwise, when a default route leaves
  through any listed interface, an interface with the default route.\<close>

theorem snapshot_primary:
  assumes "primary (parse_snapshot from_json addr_json route_json) = Some p"
  shows "p \<in> set (sn_interfaces (parse_snapshot from_json addr_json route_json))
    \<and> if_addresses p \<noteq> []
    \<and> (if_name p = MANAGED
       \<or> (\<forall>i \<in> set (sn_interfaces (parse_snapshot from_json addr_json route_json)).
            if_name i \<noteq> MANAGED \<and> (if_default_route i \<longrightarrow> if_default_route p)))"
proof -
  let ?is = "sn_interfaces (parse_snapshot from_json addr_json route_json)"
  have sorted: "sorted (map (\<lambda>i. (\<not> if_default_route i, if_name i)) ?is)"
    by (simp only: sn_interfaces_parse parse_interfaces_sorted)
  have "if_name p = MANAGED
      \<or> (\<forall>i \<in> set ?is. if_name i \<noteq> MANAGED \<and> (if_default_route i \<longrightarrow> if_default_route p))"
  proof (cases "if_name p = MANAGED")
    case False
    with primary_Some(2) [OF assms] obtain xs where xs: "?is = p # xs"
      and "\<forall>i \<in> set ?is. if_name i \<noteq> MANAGED" by blast
    moreover have "if_default_route i \<longrightarrow> if_default_route p" if "i \<in> set ?is" for i
      using that sorted_head_default [OF sorted [unfolded xs], of i]
      unfolding xs by (metis set_ConsD)
    ultimately show ?thesis by blast
  qed simp
  moreover have "p \<in> set ?is" by (rule primary_Some(1) [OF assms])
  ultimately show ?thesis using parse_interfaces_addresses by (simp add: sn_interfaces_parse)
qed

definition example_json :: "string \<Rightarrow> json option" where
  "example_json s =
     (if s = ''a'' then
        Some (JArray
          [JObject [(''ifname'', JString ''br-lan''), (''flags'', JArray [JString ''UP'']),
             (''addr_info'', JArray [JObject [(''scope'', JString ''global''),
                (''local'', JString ''10.0.0.1''), (''prefixlen'', JNat 8)]])],
           JObject [(''ifname'', JString ''br-wan''), (''flags'', JArray [JString ''UP'']),
             (''addr_info'', JArray [JObject [(''scope'', JString ''global''),
                (''local'', JString ''192.0.2.7''), (''prefixlen'', JNat 8)]])]])
      else Some (JArray [JObject [(''dst'', JString ''default''), (''dev'', JString ''br-wan'')]]))"

theorem snapshot_primary_witness:
  "\<exists>p. primary (parse_snapshot example_json ''a'' ''r'') = Some p \<and> if_name p = ''br-wan''
     \<and> if_addresses p \<noteq> []"
proof -
  obtain p where p: "primary (parse_snapshot example_json ''a'' ''r'') = Some p"
    and "if_name p = ''br-wan''"
    by (simp add: parse_snapshot_def parse_default_routes_def parse_interfaces_def
        example_json_def is_default_dst_def get_str_def parse_route_def parse_interface_def
        parse_flags_def parse_addr_info_def mark_default_def primary_def MANAGED_def Let_def
        less_eq_prod_def)
  then show ?thesis using snapshot_primary [OF p] by auto
qed

end
