(* ===== verification/Storage_Status.thy ===== *)
theory Storage_Status
  imports Thermal_Info Network_Interfaces Legacy_Api
begin

text \<open>
  Whether the board keeps its settings, and the one repair for when it does not
  (\<open>app/storage_status.rs\<close>, \<open>api/storage.rs\<close>): the reading of the mount table, of the kernel command
  line and of sysfs, the decision, and the removal of the settings volume behind its guard. The
  text that tells a person why a repair is refused is a constructor. Running a program is the
  \<open>exec\<close> operation over a board of any type; the files of the board are a view of it. Decoding of
  bytes that are no text of the model is a parameter. The log lines are not modelled.
\<close>

section \<open>Text from bytes\<close>

fun decode_utf8 :: "u8 list \<Rightarrow> string option" where
  "decode_utf8 [] = Some []"
| "decode_utf8 (b # bs) =
     (if unat b < 128 then map_option ((#) (char_of (unat b))) (decode_utf8 bs)
      else (case bs of
              [] \<Rightarrow> None
            | c # cs \<Rightarrow>
                if unat b \<in> {194, 195} \<and> 128 \<le> unat c \<and> unat c < 192
                then map_option ((#) (char_of ((unat b - 192) * 64 + (unat c - 128)))) (decode_utf8 cs)
                else None))"

definition from_utf8_lossy :: "(u8 list \<Rightarrow> string) \<Rightarrow> u8 list \<Rightarrow> string" where
  "from_utf8_lossy lossy bs = (case decode_utf8 bs of Some s \<Rightarrow> s | None \<Rightarrow> lossy bs)"

fun is_char_boundary :: "string \<Rightarrow> nat \<Rightarrow> bool" where
  "is_char_boundary s 0 = True"
| "is_char_boundary [] (Suc n) = False"
| "is_char_boundary (c # cs) (Suc n) = (utf8_len c \<le> Suc n \<and> is_char_boundary cs (Suc n - utf8_len c))"

fun str_upto :: "string \<Rightarrow> nat \<Rightarrow> string" where
  "str_upto s 0 = []"
| "str_upto [] (Suc n) = []"
| "str_upto (c # cs) (Suc n) = c # str_upto cs (Suc n - utf8_len c)"

section \<open>The mount table\<close>

record mount_entry =
  me_device :: string
  me_mountpoint :: string
  me_fstype :: string
  me_options :: "string list"

definition is_octal_byte :: "u8 \<Rightarrow> bool" where
  "is_octal_byte b = (48 \<le> unat b \<and> unat b \<le> 55)"

definition octal_escape :: "u8 list \<Rightarrow> nat option" where
  "octal_escape bs =
     (case bs of
        b # x # y # z # _ \<Rightarrow>
          if b = 92 \<and> is_octal_byte x \<and> is_octal_byte y \<and> is_octal_byte z
          then (let v = (unat x - 48) * 64 + (unat y - 48) * 8 + (unat z - 48)
                in if v < 256 then Some v else None)
          else None
      | _ \<Rightarrow> None)"

function unescape_bytes :: "u8 list \<Rightarrow> u8 list" where
  "unescape_bytes bs =
     (case bs of
        [] \<Rightarrow> []
      | b # rest \<Rightarrow>
          (case octal_escape bs of
             Some v \<Rightarrow> word_of_nat v # unescape_bytes (drop 4 bs)
           | None \<Rightarrow> b # unescape_bytes rest))"
  by pat_completeness auto
termination
  by (relation "measure length") (auto simp: octal_escape_def split: list.splits)

declare unescape_bytes.simps [simp del]

definition unescape_mount_field :: "(u8 list \<Rightarrow> string) \<Rightarrow> string \<Rightarrow> string" where
  "unescape_mount_field lossy field = from_utf8_lossy lossy (unescape_bytes (file_bytes (Utf8 field)))"

definition parse_mount_line :: "(u8 list \<Rightarrow> string) \<Rightarrow> string \<Rightarrow> mount_entry option" where
  "parse_mount_line lossy line =
     (case split_whitespace line of
        device # mountpoint # fstype # options # _ \<Rightarrow>
          Some \<lparr>me_device = unescape_mount_field lossy device, me_mountpoint = unescape_mount_field lossy mountpoint,
                me_fstype = fstype, me_options = split_on CHR '','' options\<rparr>
      | _ \<Rightarrow> None)"

definition parse_mounts :: "(u8 list \<Rightarrow> string) \<Rightarrow> string \<Rightarrow> mount_entry list" where
  "parse_mounts lossy text = filter_map (parse_mount_line lossy) (lines text)"

definition upperdir :: "mount_entry \<Rightarrow> string option" where
  "upperdir m = find_map (strip_prefix ''upperdir='') (me_options m)"

datatype storage_state = Persistent | Temporary | UnknownState

definition is_safemode_upper :: "string \<Rightarrow> bool" where
  "is_safemode_upper dir = (dir = ''/tmp/safemode'' \<or> starts_with ''/tmp/safemode/'' dir)"

definition is_overlay_root :: "mount_entry \<Rightarrow> bool" where
  "is_overlay_root m = (me_mountpoint m = ''/'' \<and> me_fstype m = ''overlay'')"

definition state_from_mounts :: "mount_entry list \<Rightarrow> storage_state" where
  "state_from_mounts mounts =
     (case find is_overlay_root (rev mounts) of
        None \<Rightarrow> UnknownState
      | Some root \<Rightarrow>
          (case upperdir root of
             Some dir \<Rightarrow> if is_safemode_upper dir then Temporary else Persistent
           | None \<Rightarrow> UnknownState))"

definition OVERLAY_MOUNT :: string where "OVERLAY_MOUNT = ''/mnt/overlay''"

definition overlay_mounted :: "mount_entry list \<Rightarrow> bool" where
  "overlay_mounted mounts = list_ex (\<lambda>m. me_mountpoint m = OVERLAY_MOUNT) mounts"

section \<open>What the root is on\<close>

datatype backing = Ubi | Mmc | UnknownBacking

record block_device =
  bk_name :: string
  bk_dev :: string

definition cmdline_root :: "string \<Rightarrow> string option" where
  "cmdline_root cmdline = find_map (strip_prefix ''root='') (rev (split_whitespace cmdline))"

definition is_numeric :: "string \<Rightarrow> bool" where
  "is_numeric part = (part \<noteq> [] \<and> list_all is_ascii_digit part)"

definition without_zeros :: "string \<Rightarrow> string" where
  "without_zeros part = dropWhile (\<lambda>c. c = CHR ''0'') part"

definition root_device_name :: "string \<Rightarrow> block_device list \<Rightarrow> string option" where
  "root_device_name value devices =
     (let root = trim value
      in case split_once CHR '':'' root of
           Some (major, minor) \<Rightarrow>
             if \<not> (is_numeric major \<and> is_numeric minor) then None
             else (case parse_u32 (without_zeros major) of
                     None \<Rightarrow> None
                   | Some ma \<Rightarrow>
                       (let mi = (case parse_u32 (without_zeros minor) of Some n \<Rightarrow> n | None \<Rightarrow> 0);
                            canonical = show_nat ma @ '':'' @ show_nat mi
                        in map_option bk_name (find (\<lambda>d. bk_dev d = canonical) devices)))
         | None \<Rightarrow>
             if CHR ''='' \<in> set root then None
             else (let name = (case strip_prefix ''/dev/'' root of Some n \<Rightarrow> n | None \<Rightarrow> root)
                   in if name = [] \<or> name = ''root'' \<or> CHR ''/'' \<in> set name then None else Some name))"

definition classify_device :: "string \<Rightarrow> backing" where
  "classify_device name =
     (if starts_with ''ubiblock'' name then Ubi else if starts_with ''mmcblk'' name then Mmc else UnknownBacking)"

definition mounted_at :: "string \<Rightarrow> mount_entry list \<Rightarrow> mount_entry option" where
  "mounted_at point mounts = find (\<lambda>m. me_mountpoint m = point) (rev mounts)"

definition backing_from_mounts :: "mount_entry list \<Rightarrow> string \<Rightarrow> block_device list \<Rightarrow> backing" where
  "backing_from_mounts mounts cmdline devices =
     (case find_map (\<lambda>point. mounted_at point mounts) [''/mnt/rom'', ''/''] of
        None \<Rightarrow> UnknownBacking
      | Some root \<Rightarrow>
          if starts_with ''/dev/'' (me_device root) \<and> me_device root \<noteq> ''/dev/root''
          then classify_device (case strip_prefix ''/dev/'' (me_device root) of Some n \<Rightarrow> n | None \<Rightarrow> me_device root)
          else (case Option.bind (cmdline_root cmdline) (\<lambda>value. root_device_name value devices) of
                  None \<Rightarrow> UnknownBacking
                | Some name \<Rightarrow> classify_device name))"

section \<open>Why\<close>

datatype reason = Requested | MountFailed | Unrecorded

definition MAX_DETAIL_BYTES :: nat where "MAX_DETAIL_BYTES = 8 * 1024"

fun boundary_below :: "string \<Rightarrow> nat \<Rightarrow> nat" where
  "boundary_below text 0 = 0"
| "boundary_below text (Suc e) = (if is_char_boundary text (Suc e) then Suc e else boundary_below text e)"

definition cap_text :: "string \<Rightarrow> nat \<Rightarrow> string" where
  "cap_text text most =
     (if contents_len (Utf8 text) \<le> most then text else str_upto text (boundary_below text most))"

definition trim_end :: "string \<Rightarrow> string" where
  "trim_end s = rev (dropWhile is_whitespace (rev s))"

definition reason_of_line :: "string \<Rightarrow> reason option" where
  "reason_of_line first =
     (case map_option trim (strip_prefix ''reason='' (trim first)) of
        Some r \<Rightarrow> if r = ''requested'' then Some Requested else if r = ''mount_failed'' then Some MountFailed else None
      | None \<Rightarrow> None)"

definition parse_reason_file :: "string \<Rightarrow> reason option \<times> string option" where
  "parse_reason_file text =
     (case (case split_once newline text of Some p \<Rightarrow> p | None \<Rightarrow> (text, [])) of
        (first, rest) \<Rightarrow>
          (reason_of_line first,
           if trim rest = [] then None else Some (trim_end (cap_text (trim rest) MAX_DETAIL_BYTES))))"

definition cmdline_requests_safemode :: "string \<Rightarrow> bool" where
  "cmdline_requests_safemode cmdline = str_contains ''safemode'' cmdline"

definition OVERLAY_VOLUME :: string where "OVERLAY_VOLUME = ''overlay''"

definition has_overlay_volume :: "string list \<Rightarrow> bool" where
  "has_overlay_volume names = list_ex (\<lambda>n. n = OVERLAY_VOLUME) names"

definition read_ubi_volume_names :: "sys_node option \<Rightarrow> string list" where
  "read_ubi_volume_names sys_class_ubi =
     (case Option.bind sys_class_ubi sys_read_dir of
        None \<Rightarrow> []
      | Some es \<Rightarrow>
          sort (map trim (filter_map (\<lambda>(_, d). Option.bind (sys_at d [''name'']) sys_read_to_string)
            (filter (\<lambda>(file_name, _). starts_with ''ubi0_'' file_name) es))))"

definition read_block_devices :: "sys_node option \<Rightarrow> block_device list" where
  "read_block_devices sys_class_block =
     (case Option.bind sys_class_block sys_read_dir of
        None \<Rightarrow> []
      | Some es \<Rightarrow>
          sort_key bk_name (filter_map (\<lambda>(file_name, d).
            map_option (\<lambda>dev. \<lparr>bk_name = file_name, bk_dev = trim dev\<rparr>)
              (Option.bind (sys_at d [''dev'']) sys_read_to_string)) es))"

section \<open>The decision\<close>

record storage_facts =
  fa_mounts :: "mount_entry list"
  fa_reason_file :: "string option"
  fa_cmdline :: string
  fa_ubi_volumes :: "string list"
  fa_block_devices :: "block_device list"

datatype blocker =
    NothingToRepair | CannotTellState | AskedAtPowerOn | OnTheCard | CannotTellBacking | NoVolume | VolumeInUse
  | AlreadyUnderWay

definition repair_blocker :: "storage_state \<Rightarrow> reason option \<Rightarrow> backing \<Rightarrow> bool \<Rightarrow> bool \<Rightarrow> blocker option" where
  "repair_blocker state why backing volume_present overlay_is_mounted =
     (case state of
        Persistent \<Rightarrow> Some NothingToRepair
      | UnknownState \<Rightarrow> Some CannotTellState
      | Temporary \<Rightarrow>
          if why = Some Requested then Some AskedAtPowerOn
          else (case backing of
                  Mmc \<Rightarrow> Some OnTheCard
                | UnknownBacking \<Rightarrow> Some CannotTellBacking
                | Ubi \<Rightarrow>
                    if \<not> volume_present then Some NoVolume
                    else if overlay_is_mounted then Some VolumeInUse
                    else None))"

record storage_status =
  st_state :: storage_state
  st_reason :: "reason option"
  st_detail :: "string option"
  st_backing :: backing
  st_repairable :: bool
  st_repair_blocker :: "blocker option"

definition assess_reason :: "storage_facts \<Rightarrow> reason option \<times> string option" where
  "assess_reason facts =
     (case (case fa_reason_file facts of Some text \<Rightarrow> parse_reason_file text | None \<Rightarrow> (None, None)) of
        (from_file, detail) \<Rightarrow>
          (Some (if cmdline_requests_safemode (fa_cmdline facts) then Requested
                 else case from_file of Some r \<Rightarrow> r | None \<Rightarrow> Unrecorded), detail))"

definition assess :: "storage_facts \<Rightarrow> storage_status" where
  "assess facts =
     (let state = state_from_mounts (fa_mounts facts);
          backing = backing_from_mounts (fa_mounts facts) (fa_cmdline facts) (fa_block_devices facts);
          (why, detail) = (if state = Temporary then assess_reason facts else (None, None));
          blocked = repair_blocker state why backing (has_overlay_volume (fa_ubi_volumes facts)) (overlay_mounted (fa_mounts facts))
      in \<lparr>st_state = state, st_reason = why, st_detail = detail, st_backing = backing,
          st_repairable = (blocked = None), st_repair_blocker = blocked\<rparr>)"

section \<open>The board\<close>

record storage_files =
  sf_mounts :: "contents option"
  sf_cmdline :: "contents option"
  sf_reason :: "contents option"
  sf_ubi :: "sys_node option"
  sf_block :: "sys_node option"

fun text_of :: "contents option \<Rightarrow> string option" where
  "text_of (Some (Utf8 s)) = Some s"
| "text_of _ = None"

definition read_capped :: "(u8 list \<Rightarrow> string) \<Rightarrow> contents option \<Rightarrow> string option" where
  "read_capped lossy file = map_option (\<lambda>c. from_utf8_lossy lossy (take (MAX_DETAIL_BYTES * 2) (file_bytes c))) file"

definition read_facts :: "(u8 list \<Rightarrow> string) \<Rightarrow> storage_files \<Rightarrow> storage_facts" where
  "read_facts lossy files =
     \<lparr>fa_mounts = (case text_of (sf_mounts files) of Some c \<Rightarrow> parse_mounts lossy c | None \<Rightarrow> []),
      fa_reason_file = read_capped lossy (sf_reason files),
      fa_cmdline = (case text_of (sf_cmdline files) of Some c \<Rightarrow> c | None \<Rightarrow> []),
      fa_ubi_volumes = read_ubi_volume_names (sf_ubi files),
      fa_block_devices = read_block_devices (sf_block files)\<rparr>"

datatype repair_error = Blocked blocker | RemoveFailed apply_error | RemoveTimeout duration | JoinFailed

record 'n storage_host =
  sh_exec :: "'n exec"
  sh_files :: "'n \<Rightarrow> storage_files"
  sh_lossy :: "u8 list \<Rightarrow> string"

definition UBI_DEVICE :: string where "UBI_DEVICE = ''/dev/ubi0''"
definition REMOVE_TIMEOUT :: duration where "REMOVE_TIMEOUT = from_secs 60"

definition storage_status_of :: "'n storage_host \<Rightarrow> 'n \<Rightarrow> storage_status" where
  "storage_status_of H n = assess (read_facts (sh_lossy H) (sh_files H n))"

definition remove_volume :: "'n storage_host \<Rightarrow> 'n \<Rightarrow> (apply_error, string) result \<times> 'n" where
  "remove_volume H n = sh_exec H ''ubirmvol'' [UBI_DEVICE, ''-N'', OVERLAY_VOLUME] n"

definition repair :: "'n storage_host \<Rightarrow> bool \<Rightarrow> 'n \<Rightarrow> (repair_error, unit) result \<times> bool \<times> 'n" where
  "repair H repairing n =
     (case st_repair_blocker (storage_status_of H n) of
        Some why \<Rightarrow> (Inl (Blocked why), repairing, n)
      | None \<Rightarrow>
          if repairing then (Inl (Blocked AlreadyUnderWay), repairing, n)
          else (case remove_volume H n of
                  (Inr _, n) \<Rightarrow> (Inr (), True, n)
                | (Inl e, n) \<Rightarrow> (Inl (RemoveFailed e), False, n)))"

text \<open>\<open>repair\<close> off the async workers: the task ends after a while, or it panics and leaves the board
  somehow. The command of a task that took too long still ends behind the answer.\<close>

datatype 'n task_end = TaskEnds duration | TaskPanics 'n

definition repair_async :: "'n storage_host \<Rightarrow> 'n task_end \<Rightarrow> bool \<Rightarrow> 'n \<Rightarrow> (repair_error, unit) result \<times> bool \<times> 'n" where
  "repair_async H te repairing n =
     (case te of
        TaskPanics n' \<Rightarrow> (Inl JoinFailed, False, n')
      | TaskEnds took \<Rightarrow>
          if took \<le> REMOVE_TIMEOUT then repair H repairing n
          else (Inl (RemoveTimeout REMOVE_TIMEOUT), False, snd (snd (repair H repairing n))))"

section \<open>Several requests at once\<close>

text \<open>The steps of \<open>repair\<close> that other requests can come between, with the timeout of
  \<open>repair_async\<close> and a change of the board from elsewhere.\<close>

datatype repair_phase = Looking | Claiming | Removing | RepairEnded "(repair_error, unit) result"

record 'n repair_run =
  rr_repairing :: bool
  rr_board :: 'n
  rr_tasks :: "repair_phase list"

datatype 'n repair_event = Ask | Look nat | Claim nat | Remove nat | GiveUp nat | Elsewhere 'n

definition in_phase :: "nat \<Rightarrow> repair_phase \<Rightarrow> 'n repair_run \<Rightarrow> bool" where
  "in_phase i ph w = (i < length (rr_tasks w) \<and> rr_tasks w ! i = ph)"

definition under_way :: "nat \<Rightarrow> 'n repair_run \<Rightarrow> bool" where
  "under_way i w = (i < length (rr_tasks w) \<and> (case rr_tasks w ! i of RepairEnded _ \<Rightarrow> False | _ \<Rightarrow> True))"

definition set_phase :: "nat \<Rightarrow> repair_phase \<Rightarrow> 'n repair_run \<Rightarrow> 'n repair_run" where
  "set_phase i ph w = w\<lparr>rr_tasks := (rr_tasks w)[i := ph]\<rparr>"

fun repair_step :: "'n storage_host \<Rightarrow> 'n repair_event \<Rightarrow> 'n repair_run \<Rightarrow> 'n repair_run" where
  "repair_step H Ask w = w\<lparr>rr_tasks := rr_tasks w @ [Looking]\<rparr>"
| "repair_step H (Look i) w =
     (if in_phase i Looking w
      then (case st_repair_blocker (storage_status_of H (rr_board w)) of
              Some why \<Rightarrow> set_phase i (RepairEnded (Inl (Blocked why))) w
            | None \<Rightarrow> set_phase i Claiming w)
      else w)"
| "repair_step H (Claim i) w =
     (if in_phase i Claiming w
      then if rr_repairing w then set_phase i (RepairEnded (Inl (Blocked AlreadyUnderWay))) w
           else (set_phase i Removing w)\<lparr>rr_repairing := True\<rparr>
      else w)"
| "repair_step H (Remove i) w =
     (if in_phase i Removing w
      then (case remove_volume H (rr_board w) of
              (Inr _, n) \<Rightarrow> (set_phase i (RepairEnded (Inr ())) w)\<lparr>rr_board := n\<rparr>
            | (Inl e, n) \<Rightarrow> (set_phase i (RepairEnded (Inl (RemoveFailed e))) w)\<lparr>rr_board := n, rr_repairing := False\<rparr>)
      else w)"
| "repair_step H (GiveUp i) w = (if under_way i w then w\<lparr>rr_repairing := False\<rparr> else w)"
| "repair_step H (Elsewhere n) w = w\<lparr>rr_board := n\<rparr>"

definition repair_run :: "'n storage_host \<Rightarrow> 'n repair_event list \<Rightarrow> 'n repair_run \<Rightarrow> 'n repair_run" where
  "repair_run H es w = fold (repair_step H) es w"

definition storage_start :: "'n \<Rightarrow> 'n repair_run" where
  "storage_start n = \<lparr>rr_repairing = False, rr_board = n, rr_tasks = []\<rparr>"

section \<open>The endpoint\<close>

datatype storage_refusal = JsonRequired | ConfirmRequired | OfRepair repair_error

fun repair_refuse :: "repair_error \<Rightarrow> nat \<times> storage_refusal" where
  "repair_refuse (Blocked b) = (409, OfRepair (Blocked b))"
| "repair_refuse e = (500, OfRepair e)"

text \<open>The task that removes and reboots does not depend on the request. Its second component says
  whether it went on to reboot the board.\<close>

definition repair_and_reboot :: "'n storage_host \<Rightarrow> 'n task_end \<Rightarrow> bool \<Rightarrow> bool \<Rightarrow> 'n
    \<Rightarrow> (nat \<times> storage_refusal, unit) result \<times> bool \<times> bool \<times> 'n" where
  "repair_and_reboot H te confirm repairing n =
     (if \<not> confirm then (Inl (400, ConfirmRequired), False, repairing, n)
      else (case repair_async H te repairing n of
              (Inr _, g, n) \<Rightarrow> (Inr (), True, g, n)
            | (Inl e, g, n) \<Rightarrow> (Inl (repair_refuse e), False, g, n)))"

text \<open>What the extractor made of the body, with the field that may be missing.\<close>

datatype repair_body = NotDeclaredJson | UnreadableJson | RepairRequest "bool option"

fun post_repair :: "'n storage_host \<Rightarrow> 'n task_end \<Rightarrow> repair_body \<Rightarrow> bool \<Rightarrow> 'n
    \<Rightarrow> (nat \<times> storage_refusal, nat) result \<times> bool \<times> bool \<times> 'n" where
  "post_repair H te NotDeclaredJson g n = (Inl (415, JsonRequired), False, g, n)"
| "post_repair H te UnreadableJson g n = (Inl (400, ConfirmRequired), False, g, n)"
| "post_repair H te (RepairRequest confirm) g n =
     (case repair_and_reboot H te (confirm = Some True) g n of
        (Inr _, rb, g, n) \<Rightarrow> (Inr 202, rb, g, n)
      | (Inl e, rb, g, n) \<Rightarrow> (Inl e, rb, g, n))"

section \<open>Reading the mount table\<close>

text \<open>How the kernel prints an entry: the characters it escapes, and the line.\<close>

definition mangled :: "char \<Rightarrow> bool" where
  "mangled c = (of_char c \<in> {9, 10, 32, 92 :: nat})"

definition mangle :: "string \<Rightarrow> string" where
  "mangle s = concat (map (\<lambda>c. if mangled c
     then (let n = of_char c :: nat in [CHR 0x5C, digit (n div 64), digit (n div 8 mod 8), digit (n mod 8)])
     else [c]) s)"

definition mount_line :: "mount_entry \<Rightarrow> string" where
  "mount_line m = join [CHR '' ''] [mangle (me_device m), mangle (me_mountpoint m), me_fstype m,
     join '','' (me_options m), ''0'', ''0'']"

definition plain_word :: "string \<Rightarrow> bool" where
  "plain_word s = (s \<noteq> [] \<and> list_all (\<lambda>c. \<not> is_whitespace c) s)"

definition mount_printable :: "mount_entry \<Rightarrow> bool" where
  "mount_printable m =
     (me_device m \<noteq> [] \<and> list_all (\<lambda>c. is_whitespace c \<longrightarrow> mangled c) (me_device m)
      \<and> me_mountpoint m \<noteq> [] \<and> list_all (\<lambda>c. is_whitespace c \<longrightarrow> mangled c) (me_mountpoint m)
      \<and> plain_word (me_fstype m) \<and> plain_word (join '','' (me_options m))
      \<and> me_options m \<noteq> [] \<and> list_all (\<lambda>x. CHR '','' \<notin> set x) (me_options m))"

lemma file_bytes_simps [simp]:
  "file_bytes (Utf8 []) = []"
  "file_bytes (Utf8 (c # s)) =
     (if (of_char c :: nat) < 128 then [word_of_nat (of_char c)]
      else [word_of_nat (192 + of_char c div 64), word_of_nat (128 + of_char c mod 64)]) @ file_bytes (Utf8 s)"
  by (simp_all add: file_bytes_def Let_def)

lemma unat_u8: "n < 256 \<Longrightarrow> unat (word_of_nat n :: u8) = n"
  by (simp add: unat_of_nat)

lemma decode_two:
  assumes "q \<in> {2, 3}" and "r < 64"
  shows "decode_utf8 (word_of_nat (192 + q) # word_of_nat (128 + r) # cs) = map_option ((#) (char_of (q * 64 + r))) (decode_utf8 cs)"
proof -
  have "unat (word_of_nat (192 + q) :: u8) = 192 + q" "unat (word_of_nat (128 + r) :: u8) = 128 + r"
    using assms by (auto simp only: insert_iff empty_iff intro!: unat_u8)
  then show ?thesis using assms by (auto simp del: of_nat_add)
qed

lemma decode_file_bytes: "decode_utf8 (file_bytes (Utf8 s)) = Some s"
proof (induction s)
  case (Cons c s)
  have b: "(of_char c :: nat) < 256" by (rule nat_of_char_less_256)
  show ?case
  proof (cases "(of_char c :: nat) < 128")
    case False
    then have "2 \<le> of_char c div (64 :: nat) \<and> of_char c div (64 :: nat) < 4"
      using b by (simp add: less_mult_imp_div_less div_le_mono [of 128 _ 64, simplified])
    then have "of_char c div 64 \<in> {2, 3 :: nat}" by auto
    from decode_two [OF this, of "of_char c mod 64" "file_bytes (Utf8 s)"] show ?thesis
      using False Cons.IH by (simp del: of_nat_add add: div_mult_mod_eq)
  qed (use b Cons.IH in \<open>simp add: unat_u8\<close>)
qed simp

lemma octal_none: "b \<noteq> 92 \<Longrightarrow> octal_escape (b # bs) = None"
  by (simp add: octal_escape_def split: list.splits)

lemma unescape_plain: "b \<noteq> 92 \<Longrightarrow> unescape_bytes (b # bs) = b # unescape_bytes bs"
  by (subst unescape_bytes.simps) (simp add: octal_none)

lemma byte_not_escape: "n < 256 \<Longrightarrow> n \<noteq> 92 \<Longrightarrow> (word_of_nat n :: u8) \<noteq> 92"
  using unat_u8 [of n] by auto

lemma unescape_octal: "octal_escape (b # bs) = Some v \<Longrightarrow> unescape_bytes (b # bs) = word_of_nat v # unescape_bytes (drop 3 bs)"
  by (subst unescape_bytes.simps) simp

lemma mangle_simps: "mangle [] = []" "mangle (c # s) = mangle [c] @ mangle s"
  by (simp_all add: mangle_def)

lemma mangled_cases: "mangled c \<Longrightarrow> c \<in> {CHR 0x09, CHR 0x0A, CHR 0x20, CHR 0x5C}"
proof -
  assume "mangled c"
  then have "of_char c = (of_char (CHR 0x09) :: nat) \<or> of_char c = (of_char (CHR 0x0A) :: nat) \<or>
      of_char c = (of_char (CHR 0x20) :: nat) \<or> of_char c = (of_char (CHR 0x5C) :: nat)"
    by (simp add: mangled_def)
  then show ?thesis unfolding of_char_eq_iff by blast
qed

lemma unescape_mangle: "unescape_bytes (file_bytes (Utf8 (mangle s))) = file_bytes (Utf8 s)"
proof (induction s)
  case (Cons c s)
  have b: "(of_char c :: nat) < 256" by (rule nat_of_char_less_256)
  show ?case
  proof (cases "mangled c")
    case True
    then have "c \<in> {CHR 0x09, CHR 0x0A, CHR 0x20, CHR 0x5C}" by (rule mangled_cases)
    then show ?thesis using Cons.IH
      by (auto simp: mangle_simps(2) [of _ s] mangle_def [of "[_]"] mangled_def digit_def unescape_octal
          octal_escape_def is_octal_byte_def)
  next
    case False
    then have "(of_char c :: nat) \<noteq> 92" by (simp add: mangled_def)
    moreover have "of_char c div 64 < (64 :: nat)" using b by linarith
    ultimately show ?thesis using Cons.IH False b byte_not_escape
      by (simp add: mangle_simps(2) [of c s] mangle_def [of "[c]"] unescape_plain del: of_nat_add)
  qed
qed (simp add: mangle_simps unescape_bytes.simps)

lemma unescape_mount_mangle [simp]: "unescape_mount_field lossy (mangle s) = s"
  by (simp add: unescape_mount_field_def unescape_mangle decode_file_bytes from_utf8_lossy_def)

lemma mangle_Nil_iff [simp]: "mangle s = [] \<longleftrightarrow> s = []"
  by (cases s) (auto simp: mangle_def Let_def)

lemma digit_plain: "n < 10 \<Longrightarrow> \<not> is_whitespace (digit n)"
  by (simp add: digit_def is_whitespace_def)

lemma mangle_plain:
  assumes "list_all (\<lambda>c. is_whitespace c \<longrightarrow> mangled c) s"
  shows "list_all (\<lambda>c. \<not> is_whitespace c) (mangle s)"
  using assms
proof (induction s)
  case (Cons c s)
  have "list_all (\<lambda>c. \<not> is_whitespace c) (mangle [c])"
  proof (cases "mangled c")
    case True
    then show ?thesis
      using mangled_cases [OF True] by (auto simp: mangle_def digit_plain) (simp add: is_whitespace_def)+
  qed (use Cons.prems in \<open>simp add: mangle_def\<close>)
  then show ?case using Cons by (simp add: mangle_simps(2) [of c s])
qed (simp add: mangle_simps)

lemma split_mount_line:
  assumes "mount_printable m"
  shows "split_whitespace (mount_line m) =
    [mangle (me_device m), mangle (me_mountpoint m), me_fstype m, join '','' (me_options m), ''0'', ''0'']"
proof -
  have "list_all plain_word
      [mangle (me_device m), mangle (me_mountpoint m), me_fstype m, join '','' (me_options m), ''0'', ''0'']"
    using assms mangle_plain [of "me_device m"] mangle_plain [of "me_mountpoint m"]
    by (simp add: mount_printable_def plain_word_def is_whitespace_def)
  then show ?thesis unfolding mount_line_def by (intro split_whitespace_join) (auto simp: list_all_iff plain_word_def)
qed

lemma mount_line_words:
  assumes "mount_printable m" and "c \<in> set (mount_line m)"
  shows "c = CHR '' '' \<or> \<not> is_whitespace c"
proof -
  let ?ws = "[mangle (me_device m), mangle (me_mountpoint m), me_fstype m, join '','' (me_options m), ''0'', ''0'']"
  have "\<forall>w \<in> set ?ws. list_all (\<lambda>c. \<not> is_whitespace c) w"
    using assms(1) mangle_plain [of "me_device m"] mangle_plain [of "me_mountpoint m"]
    by (simp add: mount_printable_def plain_word_def is_whitespace_def)
  moreover have "c = CHR '' '' \<or> (\<exists>w \<in> set ?ws. c \<in> set w)"
    using assms(2) set_join [of "[CHR '' '']" ?ws] unfolding mount_line_def by auto
  ultimately show ?thesis by (auto simp only: list_all_iff)
qed

lemma mount_line_plain: "mount_printable m \<Longrightarrow> plain_line (mount_line m)"
proof -
  assume m: "mount_printable m"
  have "last (mount_line m) = CHR ''0''" by (simp add: mount_line_def)
  then show ?thesis using mount_line_words [OF m, of newline] by (auto simp: plain_line_def newline_def is_whitespace_def)
qed

lemma parse_mount_line: "mount_printable m \<Longrightarrow> parse_mount_line lossy (mount_line m) = Some m"
  by (simp add: parse_mount_line_def split_mount_line)
    (simp add: mount_printable_def split_on_join_parts)

lemma parse_mounts_printed:
  assumes "list_all mount_printable ms"
  shows "parse_mounts lossy (unlines (map mount_line ms)) = ms"
proof -
  have "list_all plain_line (map mount_line ms)"
    using assms by (simp add: list_all_iff mount_line_plain)
  then have "parse_mounts lossy (unlines (map mount_line ms)) = filter_map (parse_mount_line lossy) (map mount_line ms)"
    by (simp add: parse_mounts_def lines_unlines)
  also have "\<dots> = ms" using assms by (intro filter_map_total) (simp add: list_all_iff parse_mount_line)
  finally show ?thesis .
qed

section \<open>When the settings are lost\<close>

lemma find_rev_split:
  "List.find P (rev xs) = Some x \<longleftrightarrow> (\<exists>pre post. xs = pre @ x # post \<and> P x \<and> (\<forall>y \<in> set post. \<not> P y))"
proof (induction xs rule: rev_induct)
  case (snoc y xs)
  show ?case
  proof (cases "P y")
    case True
    have "(xs @ [y] = pre @ x # post \<and> P x \<and> (\<forall>z \<in> set post. \<not> P z)) = (pre = xs \<and> x = y \<and> post = [])" for pre post
      using True by (cases post rule: rev_cases) auto
    then show ?thesis using True by auto
  next
    case False
    have "(\<exists>pre post. xs @ [y] = pre @ x # post \<and> P x \<and> (\<forall>z \<in> set post. \<not> P z)) =
        (\<exists>pre post. xs = pre @ x # post \<and> P x \<and> (\<forall>z \<in> set post. \<not> P z))"
      (is "?l = ?r")
    proof
      assume ?l
      then obtain pre post where h: "xs @ [y] = pre @ x # post" "P x" "\<forall>z \<in> set post. \<not> P z" by blast
      with False show ?r by (cases post rule: rev_cases) auto
    next
      assume ?r
      then obtain pre post where "xs = pre @ x # post" "P x" "\<forall>z \<in> set post. \<not> P z" by blast
      with False have "xs @ [y] = pre @ x # (post @ [y]) \<and> P x \<and> (\<forall>z \<in> set (post @ [y]). \<not> P z)" by auto
      then show ?l by blast
    qed
    then show ?thesis using False snoc.IH by simp
  qed
qed simp

lemma str_contains_iff: "str_contains p s \<longleftrightarrow> (\<exists>a b. s = a @ p @ b)"
proof (induction s)
  case (Cons x xs)
  have "(\<exists>a b. x # xs = a @ p @ b) \<longleftrightarrow> (\<exists>b. x # xs = p @ b) \<or> (\<exists>a b. xs = a @ p @ b)"
    by (auto simp: Cons_eq_append_conv)
  then show ?case using Cons.IH by (simp add: starts_with_iff)
qed simp

definition temporary_root :: "mount_entry list \<Rightarrow> bool" where
  "temporary_root mounts =
     (\<exists>pre root post dir. mounts = pre @ root # post \<and> me_mountpoint root = ''/'' \<and> me_fstype root = ''overlay''
        \<and> (\<forall>m \<in> set post. \<not> (me_mountpoint m = ''/'' \<and> me_fstype m = ''overlay''))
        \<and> upperdir root = Some dir \<and> (dir = ''/tmp/safemode'' \<or> (\<exists>rest. dir = ''/tmp/safemode/'' @ rest)))"

definition settings_lost :: "storage_facts \<Rightarrow> bool" where
  "settings_lost facts =
     (temporary_root (fa_mounts facts)
      \<and> (\<nexists>a b. fa_cmdline facts = a @ ''safemode'' @ b)
      \<and> (\<nexists>text. fa_reason_file facts = Some text \<and> fst (parse_reason_file text) = Some Requested)
      \<and> backing_from_mounts (fa_mounts facts) (fa_cmdline facts) (fa_block_devices facts) = Ubi
      \<and> ''overlay'' \<in> set (fa_ubi_volumes facts)
      \<and> (\<forall>m \<in> set (fa_mounts facts). me_mountpoint m \<noteq> ''/mnt/overlay''))"

lemma temporary_iff: "state_from_mounts mounts = Temporary \<longleftrightarrow> temporary_root mounts"
proof -
  have "state_from_mounts mounts = Temporary \<longleftrightarrow>
      (\<exists>root dir. List.find is_overlay_root (rev mounts) = Some root \<and> upperdir root = Some dir \<and> is_safemode_upper dir)"
    by (auto simp: state_from_mounts_def split: option.splits)
  then show ?thesis
    unfolding find_rev_split temporary_root_def is_safemode_upper_def starts_with_iff is_overlay_root_def by blast
qed

lemma assess_reason_requested:
  "fst (assess_reason facts) = Some Requested \<longleftrightarrow>
     (\<exists>a b. fa_cmdline facts = a @ ''safemode'' @ b)
     \<or> (\<exists>text. fa_reason_file facts = Some text \<and> fst (parse_reason_file text) = Some Requested)"
  by (cases "fa_reason_file facts"; cases "parse_reason_file (the (fa_reason_file facts))";
      cases "fst (parse_reason_file (the (fa_reason_file facts)))")
    (auto simp: assess_reason_def cmdline_requests_safemode_def str_contains_iff split: option.splits)

lemma repair_blocker_None:
  "repair_blocker state why backing present used = None \<longleftrightarrow>
     state = Temporary \<and> why \<noteq> Some Requested \<and> backing = Ubi \<and> present \<and> \<not> used"
  by (auto simp: repair_blocker_def split: storage_state.splits backing.splits)

lemma assess_blocker: "st_repair_blocker (assess facts) = None \<longleftrightarrow> settings_lost facts"
proof -
  have "st_repair_blocker (assess facts) = None \<longleftrightarrow>
      state_from_mounts (fa_mounts facts) = Temporary \<and> fst (assess_reason facts) \<noteq> Some Requested
      \<and> backing_from_mounts (fa_mounts facts) (fa_cmdline facts) (fa_block_devices facts) = Ubi
      \<and> has_overlay_volume (fa_ubi_volumes facts) \<and> \<not> overlay_mounted (fa_mounts facts)"
    by (auto simp: assess_def repair_blocker_None Let_def split: prod.splits)
  then show ?thesis
    by (simp add: temporary_iff assess_reason_requested settings_lost_def has_overlay_volume_def list_ex_iff
        OVERLAY_VOLUME_def overlay_mounted_def OVERLAY_MOUNT_def)
qed

section \<open>The repair\<close>

lemma repair_cases:
  "repair H g n =
     (case st_repair_blocker (storage_status_of H n) of
        Some why \<Rightarrow> (Inl (Blocked why), g, n)
      | None \<Rightarrow>
          if g then (Inl (Blocked AlreadyUnderWay), g, n)
          else (case fst (remove_volume H n) of
                  Inr _ \<Rightarrow> (Inr (), True, snd (remove_volume H n))
                | Inl e \<Rightarrow> (Inl (RemoveFailed e), False, snd (remove_volume H n))))"
  by (simp add: repair_def split: option.splits prod.splits sum.splits)

lemma post_repair_done:
  "post_repair H (TaskEnds took) body g n = (answer, rebooted, g', n') \<Longrightarrow> n' \<noteq> n \<or> rebooted \<or> answer = Inr 202 \<Longrightarrow>
     body = RepairRequest (Some True) \<and> st_repair_blocker (storage_status_of H n) = None \<and> \<not> g"
  by (cases body) (auto simp: repair_and_reboot_def repair_async_def repair_cases split: if_splits option.splits sum.splits)

text \<open>C12: The board loses its settings volume, or is rebooted for the repair, only on a request that
  declares JSON and confirms it, while every condition holds at that moment: the last overlay on the
  root is the one in RAM, neither the kernel command line nor the reason file says that somebody
  asked for it, the root is on the flash, the volume is there and nothing is mounted from it, and
  no repair is under way. Then the one command that runs is the removal of that volume; the
  request is answered 202, and the board rebooted, exactly when it succeeded in time.\<close>

theorem repair_guarded:
  assumes "post_repair H (TaskEnds took) body g n = (answer, rebooted, g', n')"
    and "n' \<noteq> n \<or> rebooted \<or> answer = Inr 202"
  shows "body = RepairRequest (Some True) \<and> \<not> g
    \<and> settings_lost (read_facts (sh_lossy H) (sh_files H n))
    \<and> n' = snd (sh_exec H ''ubirmvol'' [''/dev/ubi0'', ''-N'', ''overlay''] n)
    \<and> (answer = Inr 202 \<longleftrightarrow> took \<le> REMOVE_TIMEOUT \<and> is_ok (fst (sh_exec H ''ubirmvol'' [''/dev/ubi0'', ''-N'', ''overlay''] n)))
    \<and> (rebooted \<longleftrightarrow> answer = Inr 202) \<and> (g' \<longleftrightarrow> answer = Inr 202)"
proof -
  from post_repair_done [OF assms] have b: "body = RepairRequest (Some True)"
    and s: "st_repair_blocker (storage_status_of H n) = None" and g: "\<not> g" by blast+
  have lost: "settings_lost (read_facts (sh_lossy H) (sh_files H n))"
    using s by (simp add: storage_status_of_def assess_blocker)
  have rem: "sh_exec H ''ubirmvol'' [''/dev/ubi0'', ''-N'', ''overlay''] n = remove_volume H n"
    by (simp add: remove_volume_def UBI_DEVICE_def OVERLAY_VOLUME_def)
  have "n' = snd (remove_volume H n) \<and> (answer = Inr 202 \<longleftrightarrow> took \<le> REMOVE_TIMEOUT \<and> is_ok (fst (remove_volume H n)))
      \<and> (rebooted \<longleftrightarrow> answer = Inr 202) \<and> (g' \<longleftrightarrow> answer = Inr 202)"
    using assms(1) b s g
    by (cases "fst (remove_volume H n)") (auto simp: repair_and_reboot_def repair_async_def repair_cases split: if_splits)
  with lost b g show ?thesis unfolding rem by blast
qed

definition demo_table :: "mount_entry list" where
  "demo_table =
     [\<lparr>me_device = ''/dev/ubiblock0_0'', me_mountpoint = ''/mnt/rom'', me_fstype = ''squashfs'', me_options = [''ro'']\<rparr>,
      \<lparr>me_device = ''overlay'', me_mountpoint = ''/'', me_fstype = ''overlay'', me_options = [''rw'', ''upperdir=/tmp/safemode/upper'']\<rparr>]"

definition demo_storage :: "bool storage_host" where
  "demo_storage =
     \<lparr>sh_exec = (\<lambda>program args n. if program = ''ubirmvol'' then (Inr [], True) else (Inl (Command program []), n)),
      sh_files = (\<lambda>removed.
        \<lparr>sf_mounts = Some (Utf8 (unlines (map mount_line demo_table))), sf_cmdline = Some (Utf8 ''console=ttyS0''),
         sf_reason = Some (Utf8 (''reason=mount_failed'' @ [newline])),
         sf_ubi = Some (SysDir (if removed then [] else [(''ubi0_1'', SysDir [(''name'', SysFile (Utf8 (''overlay'' @ [newline])))])])),
         sf_block = None\<rparr>),
      sh_lossy = (\<lambda>_. [])\<rparr>"

lemma read_capped_text: "length (file_bytes (Utf8 s)) \<le> MAX_DETAIL_BYTES * 2 \<Longrightarrow> read_capped lossy (Some (Utf8 s)) = Some s"
  by (simp add: read_capped_def from_utf8_lossy_def decode_file_bytes)

lemma demo_table_printable: "list_all mount_printable demo_table"
  by (simp add: demo_table_def mount_printable_def plain_word_def is_whitespace_def mangled_def)

lemma demo_storage_facts:
  "read_facts (sh_lossy demo_storage) (sh_files demo_storage False) =
     \<lparr>fa_mounts = demo_table, fa_reason_file = Some (''reason=mount_failed'' @ [newline]), fa_cmdline = ''console=ttyS0'',
      fa_ubi_volumes = [''overlay''], fa_block_devices = []\<rparr>"
proof -
  have "read_capped (\<lambda>_. []) (Some (Utf8 (''reason=mount_failed'' @ [newline]))) = Some (''reason=mount_failed'' @ [newline])"
    by (rule read_capped_text) (simp add: newline_def MAX_DETAIL_BYTES_def)
  moreover have "trim (''overlay'' @ [newline]) = ''overlay''"
    by (simp add: trim_def newline_def is_whitespace_def)
  ultimately show ?thesis
    by (simp add: read_facts_def demo_storage_def parse_mounts_printed demo_table_printable read_ubi_volume_names_def
        read_block_devices_def starts_with_def)
qed

lemma demo_storage_lost: "st_repair_blocker (storage_status_of demo_storage False) = None"
  unfolding storage_status_of_def demo_storage_facts
  by (simp add: assess_def state_from_mounts_def backing_from_mounts_def demo_table_def is_overlay_root_def upperdir_def
      strip_prefix_def starts_with_def is_safemode_upper_def mounted_at_def classify_device_def assess_reason_def
      cmdline_requests_safemode_def parse_reason_file_def reason_of_line_def newline_def trim_def is_whitespace_def
      repair_blocker_def has_overlay_volume_def OVERLAY_VOLUME_def overlay_mounted_def OVERLAY_MOUNT_def)

theorem repair_guarded_witness:
  "post_repair demo_storage (TaskEnds 0) (RepairRequest (Some True)) False False = (Inr 202, True, True, True)
   \<and> settings_lost (read_facts (sh_lossy demo_storage) (sh_files demo_storage False))"
proof -
  have r: "post_repair demo_storage (TaskEnds 0) (RepairRequest (Some True)) False False = (Inr 202, True, True, True)"
    by (simp add: repair_and_reboot_def repair_async_def repair_cases demo_storage_lost)
      (simp add: remove_volume_def demo_storage_def)
  from repair_guarded [OF r] r show ?thesis by simp
qed

section \<open>One repair at a time\<close>

definition removing_or_done :: "repair_phase \<Rightarrow> bool" where
  "removing_or_done ph = (ph = Removing \<or> ph = RepairEnded (Inr ()))"

definition holders :: "'n repair_run \<Rightarrow> nat set" where
  "holders w = {i. i < length (rr_tasks w) \<and> removing_or_done (rr_tasks w ! i)}"

definition guard_held :: "'n repair_run \<Rightarrow> bool" where
  "guard_held w = ((rr_repairing w \<and> (\<exists>i. holders w = {i})) \<or> (\<not> rr_repairing w \<and> holders w = {}))"

lemma set_phase_simps [simp]:
  "rr_repairing (set_phase i ph w) = rr_repairing w"
  "rr_board (set_phase i ph w) = rr_board w"
  "rr_tasks (set_phase i ph w) = (rr_tasks w)[i := ph]"
  by (simp_all add: set_phase_def)

lemma holders_set_phase:
  "i < length (rr_tasks w) \<Longrightarrow> holders (set_phase i ph w) = (if removing_or_done ph then insert i (holders w) else holders w - {i})"
  by (auto simp: holders_def nth_list_update)

lemma holders_record [simp]:
  "holders (w\<lparr>rr_repairing := b\<rparr>) = holders w" "holders (w\<lparr>rr_board := n\<rparr>) = holders w"
  by (simp_all add: holders_def)

lemma holders_ask [simp]: "holders (w\<lparr>rr_tasks := rr_tasks w @ [Looking]\<rparr>) = holders w"
  by (auto simp: holders_def nth_append removing_or_done_def)

lemma guard_held_step:
  assumes "guard_held w" and "\<And>i. e \<noteq> GiveUp i"
  shows "guard_held (repair_step H e w)"
proof (cases e)
  case (Look i)
  have "in_phase i Looking w \<Longrightarrow> i < length (rr_tasks w) \<and> i \<notin> holders w"
    by (simp add: in_phase_def holders_def removing_or_done_def)
  then show ?thesis using assms(1) Look
    by (auto simp: guard_held_def holders_set_phase removing_or_done_def split: option.splits)
next
  case (Claim i)
  have "in_phase i Claiming w \<Longrightarrow> i < length (rr_tasks w) \<and> i \<notin> holders w"
    by (simp add: in_phase_def holders_def removing_or_done_def)
  then show ?thesis using assms(1) Claim by (auto simp: guard_held_def holders_set_phase removing_or_done_def)
next
  case (Remove i)
  have "in_phase i Removing w \<Longrightarrow> i < length (rr_tasks w) \<and> i \<in> holders w"
    by (simp add: in_phase_def holders_def removing_or_done_def)
  then show ?thesis using assms(1) Remove
    by (auto simp: guard_held_def holders_set_phase removing_or_done_def split: prod.splits sum.splits)
qed (use assms in \<open>auto simp: guard_held_def\<close>)

lemma guard_held_run:
  "guard_held w \<Longrightarrow> (\<forall>e \<in> set es. \<forall>i. e \<noteq> GiveUp i) \<Longrightarrow> guard_held (repair_run H es w)"
  unfolding repair_run_def by (induction es arbitrary: w) (auto intro: guard_held_step)

text \<open>C17: However requests and changes of the board interleave, as long as no removal is given up
  for lack of time at most one request runs the removal or has removed the volume, and the guard
  is taken exactly while there is one: a refused request never takes it, a failed one gives it
  back, and a successful one keeps it until the board goes down.\<close>

theorem one_repair:
  assumes "w = repair_run H es (storage_start n)" and "\<forall>e \<in> set es. \<forall>i. e \<noteq> GiveUp i"
  shows "(\<forall>i < length (rr_tasks w). \<forall>j < length (rr_tasks w).
      rr_tasks w ! i \<in> {Removing, RepairEnded (Inr ())} \<longrightarrow> rr_tasks w ! j \<in> {Removing, RepairEnded (Inr ())} \<longrightarrow> i = j)
    \<and> (rr_repairing w \<longleftrightarrow> (\<exists>i < length (rr_tasks w). rr_tasks w ! i \<in> {Removing, RepairEnded (Inr ())}))"
proof -
  have "guard_held (storage_start n)" by (simp add: guard_held_def storage_start_def holders_def)
  then have "guard_held w" using assms guard_held_run by blast
  then have "(\<forall>i \<in> holders w. \<forall>j \<in> holders w. i = j) \<and> (rr_repairing w \<longleftrightarrow> (\<exists>i. i \<in> holders w))"
    by (auto simp: guard_held_def)
  then show ?thesis by (auto simp: holders_def removing_or_done_def)
qed

definition two_requests :: "bool repair_event list" where
  "two_requests = [Ask, Ask, Look 0, Look 1, Claim 0, Claim 1, Remove 0]"

lemma two_requests_run:
  "repair_run demo_storage two_requests (storage_start False) =
     \<lparr>rr_repairing = True, rr_board = True, rr_tasks = [RepairEnded (Inr ()), RepairEnded (Inl (Blocked AlreadyUnderWay))]\<rparr>"
  by (simp add: repair_run_def two_requests_def storage_start_def in_phase_def set_phase_def demo_storage_lost)
    (simp add: remove_volume_def demo_storage_def)

theorem one_repair_witness:
  "let w = repair_run demo_storage two_requests (storage_start False)
   in rr_tasks w = [RepairEnded (Inr ()), RepairEnded (Inl (Blocked AlreadyUnderWay))] \<and> rr_repairing w
      \<and> (\<exists>i < length (rr_tasks w). rr_tasks w ! i \<in> {Removing, RepairEnded (Inr ())})"
  using one_repair [OF refl, of two_requests demo_storage False]
  by (simp add: two_requests_run) (simp add: two_requests_def)

text \<open>With no other request between them, the steps are \<open>repair\<close>.\<close>

lemma repair_steps_alone:
  "case repair H g n of
     (r, g', n') \<Rightarrow> repair_run H [Look 0, Claim 0, Remove 0] \<lparr>rr_repairing = g, rr_board = n, rr_tasks = [Looking]\<rparr> =
       \<lparr>rr_repairing = g', rr_board = n', rr_tasks = [RepairEnded r]\<rparr>"
  by (auto simp: repair_run_def repair_def in_phase_def set_phase_def split: option.splits prod.splits sum.splits)

text \<open>A request that gives up frees the guard although its command still runs, and so does a late
  failure of that command, whoever holds the guard by then: two removals can run at once.\<close>

lemma given_up_runs_two:
  assumes "st_repair_blocker (storage_status_of H n) = None"
  shows "repair_run H [Ask, Look 0, Claim 0, GiveUp 0, Ask, Look 1, Claim 1] (storage_start n) =
    \<lparr>rr_repairing = True, rr_board = n, rr_tasks = [Removing, Removing]\<rparr>"
  using assms by (simp add: repair_run_def storage_start_def in_phase_def under_way_def set_phase_def)

lemma late_failure_frees_guard:
  assumes "remove_volume H n = (Inl e, n)"
  shows "repair_step H (Remove 0) \<lparr>rr_repairing = True, rr_board = n, rr_tasks = [Removing, Removing]\<rparr> =
    \<lparr>rr_repairing = False, rr_board = n, rr_tasks = [RepairEnded (Inl (RemoveFailed e)), Removing]\<rparr>"
  using assms by (simp add: in_phase_def set_phase_def)

section \<open>The parts of the reading\<close>

text \<open>The mount table is read as the kernel means it: whatever characters a device or a mount
  point has, an entry the kernel prints with its octal escapes is read back as it is, and no line
  is taken for another.\<close>

theorem mount_table_read:
  assumes "list_all mount_printable ms"
  shows "parse_mounts lossy (unlines (map mount_line ms)) = ms"
  using assms by (rule parse_mounts_printed)

theorem mount_table_read_witness:
  "parse_mounts (\<lambda>_. []) (unlines (map mount_line
     [\<lparr>me_device = ''/dev/sda1'', me_mountpoint = ''/media/my card'', me_fstype = ''vfat'', me_options = [''rw'', ''relatime'']\<rparr>])) =
   [\<lparr>me_device = ''/dev/sda1'', me_mountpoint = ''/media/my card'', me_fstype = ''vfat'', me_options = [''rw'', ''relatime'']\<rparr>]"
  by (rule mount_table_read) (simp add: mount_printable_def plain_word_def is_whitespace_def mangled_def)

lemma boundary_below_le: "boundary_below s n \<le> n"
  by (induction s n rule: boundary_below.induct) auto

lemma boundary_below_ok: "is_char_boundary s (boundary_below s n)"
  by (induction s n rule: boundary_below.induct) simp_all

lemma str_upto_boundary:
  "is_char_boundary s n \<Longrightarrow> contents_len (Utf8 (str_upto s n)) = n \<and> (\<exists>t. s = str_upto s n @ t)"
  by (induction s n rule: is_char_boundary.induct) auto

lemma cap_fits: "contents_len (Utf8 (cap_text s most)) \<le> most \<and> (\<exists>rest. s = cap_text s most @ rest)"
  using boundary_below_le [of s most] str_upto_boundary [OF boundary_below_ok, of s most]
  by (auto simp: cap_text_def)

text \<open>A root on major 0 is never found, and a minor number that does not fit counts as 0.\<close>

lemma root_major_zero: "root_device_name ''0:21'' [\<lparr>bk_name = ''ubiblock0_0'', bk_dev = ''0:21''\<rparr>] = None"
  by (simp add: root_device_name_def trim_def is_whitespace_def is_numeric_def without_zeros_def is_ascii_digit_def
      parse_u32_def parse_uint_def dec_value_def show_nat.simps digit_def)

lemma root_minor_overflow:
  "root_device_name ''254:4294967296'' [\<lparr>bk_name = ''ubiblock0_0'', bk_dev = ''254:0''\<rparr>] = Some ''ubiblock0_0''"
  by (simp add: root_device_name_def trim_def is_whitespace_def is_numeric_def without_zeros_def is_ascii_digit_def
      parse_u32_def parse_uint_def dec_value_def show_nat.simps digit_def char_of_def bit_0)

end
