(* ===== verification/Board_Health.thy ===== *)
theory Board_Health
  imports Thermal_Info Sdcard_Files Firmware_Info Network_Interfaces
begin

text \<open>
  The condition of the board: the links of the switch (\<open>app/switch_info.rs\<close>), load, memory, NAND
  and clock (\<open>app/health_info.rs\<close>), and the addresses and storage of \<open>tpi info\<close>
  (\<open>app/bmc_info.rs\<close>). \<open>/proc\<close> and \<open>/sys\<close> are trees; \<open>chronyc\<close> is its answer; the size of a page,
  the address list of the kernel and \<open>statvfs\<close> are parameters. Products of counters are \<open>u64\<close> and
  wrap, as they do in a release build.
\<close>

section \<open>Switch ports\<close>

datatype port_kind = NodePort | UplinkPort

definition SWITCH_PORTS :: "(string \<times> port_kind) list" where
  "SWITCH_PORTS =
     [(''node1'', NodePort), (''node2'', NodePort), (''node3'', NodePort), (''node4'', NodePort),
      (''ge0'', UplinkPort), (''ge1'', UplinkPort)]"

record switch_port =
  wp_name :: string
  wp_kind :: port_kind
  wp_present :: bool
  wp_link :: "bool option"
  wp_operstate :: "string option"
  wp_speed_mbps :: "u32 option"
  wp_duplex :: "string option"
  wp_rx_bytes :: "nat option"
  wp_tx_bytes :: "nat option"
  wp_rx_errors :: "nat option"
  wp_tx_errors :: "nat option"

definition absent_port :: "string \<Rightarrow> port_kind \<Rightarrow> switch_port" where
  "absent_port name kind =
     \<lparr>wp_name = name, wp_kind = kind, wp_present = False, wp_link = None, wp_operstate = None, wp_speed_mbps = None,
      wp_duplex = None, wp_rx_bytes = None, wp_tx_bytes = None, wp_rx_errors = None, wp_tx_errors = None\<rparr>"

definition option_filter :: "('a \<Rightarrow> bool) \<Rightarrow> 'a option \<Rightarrow> 'a option" where
  "option_filter P x = Option.bind x (\<lambda>a. if P a then Some a else None)"

definition sub_dir :: "sys_node \<Rightarrow> string \<Rightarrow> sys_node" where
  "sub_dir dir name = (case sys_at dir [name] of Some d \<Rightarrow> d | None \<Rightarrow> SysDir [])"

definition read_port :: "sys_node option \<Rightarrow> string \<times> port_kind \<Rightarrow> switch_port" where
  "read_port net_class port =
     (case port of
        (name, kind) \<Rightarrow>
          (case Option.bind net_class (\<lambda>d. sys_at d [name]) of
             None \<Rightarrow> absent_port name kind
           | Some dir \<Rightarrow>
               (let statistics = sub_dir dir ''statistics''
                in \<lparr>wp_name = name, wp_kind = kind, wp_present = True,
                    wp_link = map_option (\<lambda>c. c \<noteq> 0) (read_attribute (parse_uint 255) dir ''carrier''),
                    wp_operstate = attribute_string dir ''operstate'',
                    wp_speed_mbps =
                      map_option word_of_int (option_filter (\<lambda>speed. speed > 0) (read_attribute parse_i64 dir ''speed'')),
                    wp_duplex = option_filter (\<lambda>d. d \<noteq> ''unknown'') (attribute_string dir ''duplex''),
                    wp_rx_bytes = read_attribute parse_u64 statistics ''rx_bytes'',
                    wp_tx_bytes = read_attribute parse_u64 statistics ''tx_bytes'',
                    wp_rx_errors = read_attribute parse_u64 statistics ''rx_errors'',
                    wp_tx_errors = read_attribute parse_u64 statistics ''tx_errors''\<rparr>)))"

definition read_switch_ports :: "sys_node option \<Rightarrow> switch_port list" where
  "read_switch_ports net_class = map (read_port net_class) SWITCH_PORTS"

section \<open>Load and memory\<close>

record load_avg =
  la_present :: bool
  la_one_minute :: "f64 option"
  la_five_minutes :: "f64 option"
  la_fifteen_minutes :: "f64 option"

record memory_info =
  me_present :: bool
  me_total_bytes :: "nat option"
  me_free_bytes :: "nat option"
  me_available_bytes :: "nat option"
  me_self_resident_bytes :: "nat option"
  me_self_threads :: "nat option"

definition proc_text :: "sys_node \<Rightarrow> string list \<Rightarrow> string option" where
  "proc_text proc p = Option.bind (sys_at proc p) sys_read_to_string"

definition read_uptime :: "sys_node \<Rightarrow> f64 option" where
  "read_uptime proc =
     Option.bind (proc_text proc [''uptime'']) (\<lambda>uptime.
       case split_whitespace uptime of [] \<Rightarrow> None | v # _ \<Rightarrow> parse_f64 v)"

definition nth_field :: "string list \<Rightarrow> nat \<Rightarrow> string option" where
  "nth_field words n = (if n < length words then Some (words ! n) else None)"

definition read_load :: "sys_node \<Rightarrow> load_avg" where
  "read_load proc =
     (case proc_text proc [''loadavg''] of
        None \<Rightarrow> \<lparr>la_present = False, la_one_minute = None, la_five_minutes = None, la_fifteen_minutes = None\<rparr>
      | Some loadavg \<Rightarrow>
          (let words = split_whitespace loadavg
           in \<lparr>la_present = True, la_one_minute = Option.bind (nth_field words 0) parse_f64,
               la_five_minutes = Option.bind (nth_field words 1) parse_f64,
               la_fifteen_minutes = Option.bind (nth_field words 2) parse_f64\<rparr>))"

definition mul_u64 :: "nat \<Rightarrow> nat \<Rightarrow> nat" where
  "mul_u64 a b = a * b mod 2 ^ 64"

definition meminfo_bytes :: "string \<Rightarrow> string \<Rightarrow> nat option" where
  "meminfo_bytes meminfo key =
     (case find_map (\<lambda>line. Option.bind (strip_prefix key line) (strip_prefix '':'')) (lines meminfo) of
        None \<Rightarrow> None
      | Some line \<Rightarrow>
          (let words = split_whitespace line
           in Option.bind (nth_field words 0) (\<lambda>v. Option.bind (parse_u64 v) (\<lambda>v.
                if nth_field words 1 = Some ''kB'' then Some (mul_u64 v 1024) else Some v))))"

definition read_self_threads :: "sys_node \<Rightarrow> nat option" where
  "read_self_threads proc =
     Option.bind (proc_text proc [''self'', ''status'']) (\<lambda>status.
       Option.bind (find_map (strip_prefix ''Threads:'') (lines status)) (\<lambda>v. parse_u64 (trim v)))"

definition read_self_resident :: "nat option \<Rightarrow> sys_node \<Rightarrow> nat option" where
  "read_self_resident page_size proc =
     Option.bind (proc_text proc [''self'', ''statm'']) (\<lambda>statm.
       Option.bind (nth_field (split_whitespace statm) 1) (\<lambda>v.
         Option.bind (parse_u64 v) (\<lambda>pages.
           case page_size of
             Some bytes \<Rightarrow> if bytes > 0 then Some (mul_u64 pages bytes) else None
           | None \<Rightarrow> None)))"

definition read_memory :: "nat option \<Rightarrow> sys_node \<Rightarrow> memory_info" where
  "read_memory page_size proc =
     (let resident = read_self_resident page_size proc; threads = read_self_threads proc
      in case proc_text proc [''meminfo''] of
           None \<Rightarrow>
             \<lparr>me_present = False, me_total_bytes = None, me_free_bytes = None, me_available_bytes = None,
              me_self_resident_bytes = resident, me_self_threads = threads\<rparr>
         | Some meminfo \<Rightarrow>
             \<lparr>me_present = True, me_total_bytes = meminfo_bytes meminfo ''MemTotal'',
              me_free_bytes = meminfo_bytes meminfo ''MemFree'', me_available_bytes = meminfo_bytes meminfo ''MemAvailable'',
              me_self_resident_bytes = resident, me_self_threads = threads\<rparr>)"

section \<open>NAND and clocks\<close>

record nand_info =
  na_present :: bool
  na_total_eraseblocks :: "nat option"
  na_available_eraseblocks :: "nat option"
  na_bad_eraseblocks :: "nat option"
  na_reserved_eraseblocks :: "nat option"
  na_eraseblock_size_bytes :: "nat option"
  na_available_bytes :: "nat option"

definition read_nand :: "sys_node option \<Rightarrow> nand_info" where
  "read_nand device_dir =
     (case device_dir of
        None \<Rightarrow>
          \<lparr>na_present = False, na_total_eraseblocks = None, na_available_eraseblocks = None, na_bad_eraseblocks = None,
           na_reserved_eraseblocks = None, na_eraseblock_size_bytes = None, na_available_bytes = None\<rparr>
      | Some dir \<Rightarrow>
          (let available = read_attribute parse_u64 dir ''avail_eraseblocks'';
               eb_size = read_attribute parse_u64 dir ''eraseblock_size''
           in \<lparr>na_present = True, na_total_eraseblocks = read_attribute parse_u64 dir ''total_eraseblocks'',
               na_available_eraseblocks = available, na_bad_eraseblocks = read_attribute parse_u64 dir ''bad_peb_count'',
               na_reserved_eraseblocks = read_attribute parse_u64 dir ''reserved_for_bad'',
               na_eraseblock_size_bytes = eb_size,
               na_available_bytes =
                 (case (available, eb_size) of (Some blocks, Some n) \<Rightarrow> Some (mul_u64 blocks n) | _ \<Rightarrow> None)\<rparr>))"

record rtc_info =
  rt_device :: string
  rt_name :: "string option"

definition rtc_cmp :: "rtc_info \<Rightarrow> rtc_info \<Rightarrow> ordering" where
  "rtc_cmp left right = cmp_str (rt_device left) (rt_device right)"

definition read_rtcs :: "sys_node option \<Rightarrow> rtc_info list" where
  "read_rtcs rtc_class =
     (case Option.bind rtc_class sys_read_dir of
        None \<Rightarrow> []
      | Some es \<Rightarrow>
          sort_by rtc_cmp (filter_map (\<lambda>(device, d).
            if starts_with ''rtc'' device then Some \<lparr>rt_device = device, rt_name = attribute_string d ''name''\<rparr> else None) es))"

record tracking =
  tk_source :: "string option"
  tk_stratum :: "nat option"
  tk_offset_seconds :: "f64 option"
  tk_synchronised :: "bool option"

definition tracking_default :: tracking where
  "tracking_default = \<lparr>tk_source = None, tk_stratum = None, tk_offset_seconds = None, tk_synchronised = None\<rparr>"

definition trim_end_matches :: "char \<Rightarrow> string \<Rightarrow> string" where
  "trim_end_matches c s = rev (dropWhile (\<lambda>x. x = c) (rev s))"

definition parse_reference_id :: "string \<Rightarrow> string option" where
  "parse_reference_id v =
     (let (rid, name) =
            (case split_once CHR ''('' v of
               Some (rid, name) \<Rightarrow> (trim rid, trim (trim_end_matches CHR '')'' name))
             | None \<Rightarrow> (trim v, []))
      in if name \<noteq> [] then Some name
         else if rid = [] \<or> list_all (\<lambda>c. c = CHR ''0'') rid then None else Some rid)"

definition parse_system_time :: "string \<Rightarrow> f64 option" where
  "parse_system_time v =
     (case split_whitespace v of
        [] \<Rightarrow> None
      | f # words \<Rightarrow>
          Option.bind (parse_f64 f) (\<lambda>magnitude.
            case List.find (\<lambda>field. field = ''slow'' \<or> field = ''fast'') words of
              None \<Rightarrow> None
            | Some direction \<Rightarrow> Some (if direction = ''slow'' then f64_neg magnitude else magnitude)))"

definition NOT_SYNCHRONISED :: string where "NOT_SYNCHRONISED = ''Not synchronised''"

definition tracking_line :: "string \<Rightarrow> tracking \<times> bool \<Rightarrow> tracking \<times> bool" where
  "tracking_line line st =
     (case split_once CHR '':'' line of
        None \<Rightarrow> st
      | Some (key, v) \<Rightarrow>
          (let key = trim key; v = trim v; t = fst st
           in (if key = ''Reference ID'' then t\<lparr>tk_source := parse_reference_id v\<rparr>
               else if key = ''Stratum'' then t\<lparr>tk_stratum := parse_u32 v\<rparr>
               else if key = ''System time'' then t\<lparr>tk_offset_seconds := parse_system_time v\<rparr>
               else if key = ''Leap status'' then t\<lparr>tk_synchronised := Some (v \<noteq> NOT_SYNCHRONISED)\<rparr>
               else t, True)))"

definition parse_tracking :: "string \<Rightarrow> tracking option" where
  "parse_tracking output =
     (case foldl (\<lambda>st line. tracking_line line st) (tracking_default, False) (lines output) of
        (t, seen) \<Rightarrow>
          (let t = (if tk_stratum t = Some 0 then t\<lparr>tk_synchronised := Some False\<rparr> else t)
           in if seen then Some t else None))"

definition read_chrony :: "child_output \<Rightarrow> tracking option" where
  "read_chrony out =
     (case out of
        ChildFailed _ \<Rightarrow> None
      | ChildEnded ok stdout _ \<Rightarrow> if \<not> ok then None else parse_tracking stdout)"

record clock_info =
  cl_rtc :: "rtc_info list"
  cl_synchronised :: "bool option"
  cl_source :: "string option"
  cl_stratum :: "nat option"
  cl_offset_seconds :: "f64 option"
  cl_measured_by :: "string option"

record health =
  he_uptime_seconds :: "f64 option"
  he_load :: load_avg
  he_memory :: memory_info
  he_nand :: nand_info
  he_clock :: clock_info

definition read_health :: "nat option \<Rightarrow> sys_node \<Rightarrow> sys_node option \<Rightarrow> sys_node option \<Rightarrow> tracking option \<Rightarrow> health" where
  "read_health page_size proc ubi_class rtc_class t =
     \<lparr>he_uptime_seconds = read_uptime proc, he_load = read_load proc, he_memory = read_memory page_size proc,
      he_nand = read_nand (Option.bind ubi_class (\<lambda>d. sys_at d [UBI_DEVICE])),
      he_clock =
        \<lparr>cl_rtc = read_rtcs rtc_class, cl_synchronised = Option.bind t tk_synchronised, cl_source = Option.bind t tk_source,
         cl_stratum = Option.bind t tk_stratum, cl_offset_seconds = Option.bind t tk_offset_seconds,
         cl_measured_by = map_option (\<lambda>_. ''chronyc tracking'') t\<rparr>\<rparr>"

section \<open>Addresses and storage\<close>

definition primary_info :: "net_snapshot \<Rightarrow> string option \<times> string option" where
  "primary_info s = (primary_ipv4 s, option_filter (\<lambda>m. m \<noteq> []) (map_option if_mac (primary s)))"

definition address_cmp :: "string \<times> ipv4 \<Rightarrow> string \<times> ipv4 \<Rightarrow> ordering" where
  "address_cmp a b =
     (case cmp_bool (fst a \<noteq> MANAGED) (fst b \<noteq> MANAGED) of
        Equal \<Rightarrow> cmp_str (fst a) (fst b)
      | other \<Rightarrow> other)"

definition fallback_ipv4 :: "(string \<times> ipv4) list \<Rightarrow> (string \<times> string) option" where
  "fallback_ipv4 addresses =
     (case sort_by address_cmp addresses of [] \<Rightarrow> None | (name, ip) # _ \<Rightarrow> Some (name, show_ipv4 ip))"

definition get_mac_address :: "sys_node option \<Rightarrow> string \<Rightarrow> string" where
  "get_mac_address net_class interface =
     (let text = (case Option.bind (Option.bind net_class (\<lambda>d. sys_at d [interface, ''address''])) sys_read_to_string of
                    Some t \<Rightarrow> t
                  | None \<Rightarrow> ''Unknown'')
      in rev (dropWhile (\<lambda>c. c = CHR 0x00 \<or> c = newline) (rev text)))"

definition get_primary_info :: "net_snapshot \<Rightarrow> (string \<times> ipv4) list \<Rightarrow> sys_node option \<Rightarrow> string option \<times> string" where
  "get_primary_info s addresses net_class =
     (case primary_info s of
        (Some ip, Some mac) \<Rightarrow> (Some ip, mac)
      | (ip, mac) \<Rightarrow>
          (let device = map_option if_name (primary s);
               fallback = fallback_ipv4 addresses;
               ip' = (case ip of Some ip \<Rightarrow> Some ip | None \<Rightarrow> map_option snd fallback);
               device = (case ip of
                           Some _ \<Rightarrow> device
                         | None \<Rightarrow> (case fallback of Some (name, _) \<Rightarrow> Some name | None \<Rightarrow> device));
               mac = (case mac of
                        Some mac \<Rightarrow> mac
                      | None \<Rightarrow> get_mac_address net_class (case device of Some d \<Rightarrow> d | None \<Rightarrow> MANAGED))
           in (ip', mac)))"

section \<open>Facts\<close>

lemma switch_ports_shape:
  "map (\<lambda>p. (wp_name p, wp_kind p)) (read_switch_ports net_class) = SWITCH_PORTS"
  by (simp add: read_switch_ports_def SWITCH_PORTS_def read_port_def absent_port_def Let_def split: option.split)

lemma absent_port_says_nothing:
  "p \<in> set (read_switch_ports net_class) \<Longrightarrow> \<not> wp_present p \<Longrightarrow> p = absent_port (wp_name p) (wp_kind p)"
  by (auto simp: read_switch_ports_def read_port_def absent_port_def Let_def split: option.splits)

lemma port_speed_positive:
  assumes "p \<in> set (read_switch_ports net_class)" and "wp_speed_mbps p = Some s"
  shows "\<exists>i > 0. s = word_of_int i"
  using assms
  by (auto simp: read_switch_ports_def read_port_def absent_port_def option_filter_def Let_def bind_eq_Some_conv
      split: option.splits if_splits)

text \<open>What the last line with a key says.\<close>

definition keyed_line :: "string \<Rightarrow> (string \<times> string) option" where
  "keyed_line line = map_option (\<lambda>(key, v). (trim key, trim v)) (split_once CHR '':'' line)"

definition last_value :: "string \<Rightarrow> string list \<Rightarrow> string option" where
  "last_value key ls =
     find_map (\<lambda>line. Option.bind (keyed_line line) (\<lambda>(k, v). if k = key then Some v else None)) (rev ls)"

definition tracking_of :: "string list \<Rightarrow> tracking" where
  "tracking_of ls =
     \<lparr>tk_source = Option.bind (last_value ''Reference ID'' ls) parse_reference_id,
      tk_stratum = Option.bind (last_value ''Stratum'' ls) parse_u32,
      tk_offset_seconds = Option.bind (last_value ''System time'' ls) parse_system_time,
      tk_synchronised = map_option (\<lambda>v. v \<noteq> NOT_SYNCHRONISED) (last_value ''Leap status'' ls)\<rparr>"

lemma last_value_snoc:
  "last_value key (ls @ [l]) =
     (case keyed_line l of Some (k, v) \<Rightarrow> if k = key then Some v else last_value key ls | None \<Rightarrow> last_value key ls)"
  by (auto simp: last_value_def split: option.splits)

lemma tracking_lines:
  "foldl (\<lambda>st line. tracking_line line st) (tracking_default, False) ls
     = (tracking_of ls, list_ex (\<lambda>line. keyed_line line \<noteq> None) ls)"
proof (induction ls rule: rev_induct)
  case Nil
  then show ?case by (simp add: tracking_default_def tracking_of_def last_value_def)
next
  case (snoc l ls)
  show ?case
  proof (cases "split_once CHR '':'' l")
    case None
    then show ?thesis using snoc by (simp add: tracking_line_def tracking_of_def last_value_snoc keyed_line_def)
  next
    case (Some kv)
    then show ?thesis using snoc
      by (cases kv) (simp add: tracking_line_def tracking_of_def last_value_snoc keyed_line_def Let_def)
  qed
qed

text \<open>the reading of \<open>chronyc tracking\<close> is the one its four lines define: each field comes from the
  last line with its key, whatever the order of the lines, and the board counts as synchronised
  exactly when the leap status does not deny it and the stratum is not nought. Only output
  without a single keyed line counts as no answer.\<close>

theorem tracking_exact:
  "parse_tracking output =
     (let ls = lines output; t = tracking_of ls
      in if list_ex (\<lambda>line. keyed_line line \<noteq> None) ls
         then Some (if tk_stratum t = Some 0 then t\<lparr>tk_synchronised := Some False\<rparr> else t)
         else None)"
  by (simp add: parse_tracking_def tracking_lines Let_def)

interpretation ca: comparison address_cmp
proof
  show "address_cmp b a = reverse (address_cmp a b)" for a b
    unfolding address_cmp_def by (rule cb.lex_swap) (rule cs.swap)
  show "address_cmp a c \<noteq> Greater" if "address_cmp a b \<noteq> Greater" "address_cmp b c \<noteq> Greater" for a b c
    using that unfolding address_cmp_def by (rule cb.lex_trans) (rule cs.trans)
qed

interpretation cr: comparison rtc_cmp
  by unfold_locales (unfold rtc_cmp_def, rule cs.swap, rule cs.trans)

lemma rtcs_sorted: "sorted_wrt (\<lambda>a b. rtc_cmp a b \<noteq> Greater) (read_rtcs c)"
proof -
  have "comparison_on rtc_cmp A" for A unfolding comparison_on_def using cr.swap cr.trans by blast
  then show ?thesis by (auto simp: read_rtcs_def intro: sort_by_sorted split: option.splits)
qed

lemma fallback_bridge:
  assumes "(MANAGED, ip) \<in> set addresses"
  shows "\<exists>ip'. (MANAGED, ip') \<in> set addresses \<and> fallback_ipv4 addresses = Some (MANAGED, show_ipv4 ip')"
proof -
  let ?s = "sort_by address_cmp addresses"
  have c: "comparison_on address_cmp A" for A unfolding comparison_on_def using ca.swap ca.trans by blast
  obtain a as where s: "?s = a # as" using assms by (cases ?s) (metis empty_iff list.set(1) set_sort_by, blast)
  have "address_cmp a (MANAGED, ip) \<noteq> Greater"
    using sort_by_sorted [OF c, of addresses] assms s ca.self set_sort_by [of address_cmp addresses] by (cases "a = (MANAGED, ip)") auto
  then have "fst a = MANAGED" by (auto simp: address_cmp_def cmp_bool_def cmp_nat_def split: if_splits)
  moreover have "a \<in> set addresses" using s set_sort_by [of address_cmp addresses] by (metis list.set_intros(1))
  ultimately show ?thesis using s by (cases a) (auto simp: fallback_ipv4_def)
qed

lemma meminfo_kB:
  "meminfo_bytes meminfo key = Some v \<Longrightarrow> v < 2 ^ 64"
  using parse_uint_bound [of "2 ^ 64 - 1"]
  by (fastforce simp: meminfo_bytes_def mul_u64_def parse_u64_def Let_def bind_eq_Some_conv split: option.splits if_splits)

end
