(* ===== verification/Metrics.thy ===== *)
theory Metrics
  imports Board_Health Bmc_Application
begin

text \<open>
  \<open>GET /metrics\<close> (\<open>api/metrics.rs\<close>): the snapshot of the board and its text in the exposition format.
  A call of \<open>family\<close> in the source is an entry of the list of families here, in the order of the
  calls. \<open>chrono\<close>'s reading of a date and the certificate the listener serves are parameters.
\<close>

section \<open>The snapshot\<close>

record metric_sensor =
  ms_name :: string
  ms_temperature_c :: "f64 option"

record node_power =
  np_name :: string
  np_on :: "bool option"
  np_power_on_seconds :: "nat option"

record usb_topology =
  ut_node :: string
  ut_mode :: string
  ut_route :: string
  ut_bus_type :: string

definition usb_topology_of :: "usb_config \<Rightarrow> string \<Rightarrow> usb_topology" where
  "usb_topology_of config bus_type =
     (case usb_parts config of
        (node, mode, route) \<Rightarrow>
          \<lparr>ut_node = ''node'' @ show_nat (node_index node + 1),
           ut_mode = (case mode of Host \<Rightarrow> ''host'' | Device \<Rightarrow> ''device'' | Flash \<Rightarrow> ''flash''),
           ut_route = (case route of RouteBmc \<Rightarrow> ''bmc'' | AlternativePort \<Rightarrow> ''alternative-port''),
           ut_bus_type = bus_type\<rparr>)"

definition armed_node :: "usb_topology \<Rightarrow> string option" where
  "armed_node t = (if ut_mode t = ''flash'' then Some (ut_node t) else None)"

record certificate_facts =
  ce_expires_unix :: "int option"
  ce_key :: "string option"
  ce_source :: "string option"

record metrics_snapshot =
  mt_daemon_version :: string
  mt_sensors :: "metric_sensor list"
  mt_cooling :: "cooling_device list"
  mt_ports :: "switch_port list"
  mt_nodes :: "node_power list"
  mt_usb :: "usb_topology option"
  mt_health :: health
  mt_firmware :: firmware_slots
  mt_certificate :: certificate_facts

definition read_sensor :: "string \<times> sys_node \<Rightarrow> metric_sensor" where
  "read_sensor entry =
     (case entry of
        (entry_name, zone) \<Rightarrow>
          \<lparr>ms_name = (case attribute_string zone ''type'' of Some name \<Rightarrow> name | None \<Rightarrow> entry_name),
           ms_temperature_c = map_option millidegrees_to_celsius (Option.bind (attribute_string zone ''temp'') parse_i64)\<rparr>)"

definition read_sensors :: "sys_node option \<Rightarrow> metric_sensor list" where
  "read_sensors thermal_class =
     (case Option.bind thermal_class sys_read_dir of
        None \<Rightarrow> []
      | Some es \<Rightarrow> map (\<lambda>(_, e). read_sensor e) (sort_key fst (indexed ''thermal_zone'' es)))"

definition cooling_cmp :: "cooling_device \<Rightarrow> cooling_device \<Rightarrow> ordering" where
  "cooling_cmp left right = cmp_str (cl_device left) (cl_device right)"

fun bus_type_text :: "usb_architecture \<Rightarrow> string" where
  "bus_type_text UsbHub = ''Usb hub''"
| "bus_type_text UsbMux = ''Single bus''"

definition collect_nodes_power :: "nat option \<Rightarrow> bmc \<Rightarrow> node_power list" where
  "collect_nodes_power now b =
     (let infos = (case get_node_infos now b of Inr infos \<Rightarrow> infos | Inl _ \<Rightarrow> replicate 4 node_info_default)
      in map (\<lambda>node. \<lparr>np_name = ''node'' @ show_nat (node_index node + 1), np_on = Some (get_node_power node b),
                      np_power_on_seconds = ni_power_on_time (infos ! node_index node)\<rparr>) [Node1, Node2, Node3, Node4])"

definition collect :: "string \<Rightarrow> nat option \<Rightarrow> (cooling_error, cooling_device list) result \<Rightarrow> sys_node option \<Rightarrow> sys_node option
    \<Rightarrow> health \<Rightarrow> firmware_slots \<Rightarrow> certificate_facts \<Rightarrow> bmc \<Rightarrow> metrics_snapshot" where
  "collect version now cooling thermal_class net_class health firmware certificate b =
     \<lparr>mt_daemon_version = version, mt_sensors = read_sensors thermal_class,
      mt_cooling = sort_by cooling_cmp (case cooling of Inr ds \<Rightarrow> ds | Inl _ \<Rightarrow> []),
      mt_ports = read_switch_ports net_class, mt_nodes = collect_nodes_power now b,
      mt_usb = Some (usb_topology_of (db_usb_config (bm_db b)) (bus_type_text (usb_bus_type (bm_hw b)))),
      mt_health = health, mt_firmware = firmware, mt_certificate = certificate\<rparr>"

section \<open>Samples and families\<close>

record sample =
  sm_labels :: "(string \<times> string) list"
  sm_value :: f64

definition sample_new :: "(string \<times> string) list \<Rightarrow> f64 \<Rightarrow> sample" where
  "sample_new ls v = \<lparr>sm_labels = ls, sm_value = v\<rparr>"

definition bare :: "f64 \<Rightarrow> sample" where
  "bare v = sample_new [] v"

definition f64_of_bool :: "bool \<Rightarrow> f64" where "f64_of_bool b = Dec (of_bool b) 0"

definition optional :: "f64 option \<Rightarrow> sample list" where
  "optional v = (case v of Some v \<Rightarrow> [bare v] | None \<Rightarrow> [])"

definition escape :: "string \<Rightarrow> string" where
  "escape v = replace_char newline [CHR 0x5C, CHR ''n''] (replace_char CHR 0x22 [CHR 0x5C, CHR 0x22] (replace_char CHR 0x5C [CHR 0x5C, CHR 0x5C] v))"

definition format_value :: "f64 \<Rightarrow> string" where
  "format_value v =
     (case v of
        Dec m k \<Rightarrow> (case shorten m k of (whole, 0) \<Rightarrow> if abs whole < 10 ^ 15 then show_int whole else show_f64 v | _ \<Rightarrow> show_f64 v)
      | _ \<Rightarrow> show_f64 v)"

definition label_text :: "string \<times> string \<Rightarrow> string" where
  "label_text kv = fst kv @ [CHR ''='', CHR 0x22] @ escape (snd kv) @ [CHR 0x22]"

definition sample_line :: "string \<Rightarrow> sample \<Rightarrow> string" where
  "sample_line name s =
     name @ (if sm_labels s \<noteq> [] then ''{'' @ join '','' (map label_text (sm_labels s)) @ ''}'' else [])
       @ '' '' @ format_value (sm_value s)"

record metric_family =
  mf_name :: string
  mf_kind :: string
  mf_help :: string
  mf_samples :: "sample list"

definition mf :: "string \<Rightarrow> string \<Rightarrow> string \<Rightarrow> sample list \<Rightarrow> metric_family" where
  "mf name kind help samples = \<lparr>mf_name = name, mf_kind = kind, mf_help = help, mf_samples = samples\<rparr>"

definition family_lines :: "metric_family \<Rightarrow> string list" where
  "family_lines f =
     (if mf_samples f = [] then []
      else (''# HELP '' @ mf_name f @ '' '' @ mf_help f) # (''# TYPE '' @ mf_name f @ '' '' @ mf_kind f)
        # map (sample_line (mf_name f)) (mf_samples f) @ [[]])"

definition family :: "metric_family \<Rightarrow> string" where
  "family f = unlines (family_lines f)"

section \<open>The families\<close>

definition optional_nat :: "nat option \<Rightarrow> sample list" where
  "optional_nat v = optional (map_option f64_of_nat v)"

definition certificate_families :: "certificate_facts \<Rightarrow> metric_family list" where
  "certificate_families c =
     [mf ''bmcd_tls_certificate_expiry_timestamp_seconds'' ''gauge''
        ''When the certificate this listener serves stops being valid.''
        (case ce_expires_unix c of Some at \<Rightarrow> [sample_new [] (f64_of_int at)] | None \<Rightarrow> []),
      mf ''bmcd_tls_certificate_info'' ''gauge''
        ''The key the certificate this listener serves is built on, and where it came from.''
        (case (ce_key c, ce_source c) of
           (None, None) \<Rightarrow> []
         | (key, source) \<Rightarrow>
             [sample_new [(''key'', case key of Some k \<Rightarrow> k | None \<Rightarrow> ''unknown''),
                          (''source'', case source of Some s \<Rightarrow> s | None \<Rightarrow> ''unknown'')] (Dec 1 0)])]"

definition thermal_families :: "metrics_snapshot \<Rightarrow> metric_family list" where
  "thermal_families s =
     [mf ''bmcd_temperature_celsius'' ''gauge'' ''Temperature reported by a kernel thermal zone.''
        (filter_map (\<lambda>sensor. map_option (\<lambda>celsius. sample_new [(''sensor'', ms_name sensor)] celsius) (ms_temperature_c sensor))
           (mt_sensors s)),
      mf ''bmcd_cooling_state'' ''gauge'' ''Step a cooling device is currently at.''
        (map (\<lambda>d. sample_new [(''device'', cl_device d)] (f64_of_nat (cl_speed d))) (mt_cooling s)),
      mf ''bmcd_cooling_state_max'' ''gauge'' ''Highest step a cooling device accepts.''
        (map (\<lambda>d. sample_new [(''device'', cl_device d)] (f64_of_nat (cl_max_speed d))) (mt_cooling s)),
      mf ''bmcd_cooling_overridden'' ''gauge''
        ''1 when a cooling device is held at a step and its zone's governor is paused.''
        (map (\<lambda>d. sample_new [(''device'', cl_device d)] (f64_of_bool (cl_overridden d))) (mt_cooling s))]"

fun port_kind_text :: "port_kind \<Rightarrow> string" where
  "port_kind_text NodePort = ''node''"
| "port_kind_text UplinkPort = ''uplink''"

definition port_labels :: "switch_port \<Rightarrow> (string \<times> string) list" where
  "port_labels p = [(''port'', wp_name p), (''kind'', port_kind_text (wp_kind p))]"

definition port_samples :: "switch_port list \<Rightarrow> (switch_port \<Rightarrow> f64 option) \<Rightarrow> sample list" where
  "port_samples ports read = filter_map (\<lambda>p. map_option (sample_new (port_labels p)) (read p)) ports"

definition switch_families :: "metrics_snapshot \<Rightarrow> metric_family list" where
  "switch_families s =
     (let ports = mt_ports s
      in [mf ''bmcd_switch_port_present'' ''gauge'' ''Whether the kernel has a netdev for this switch port.''
            (map (\<lambda>p. sample_new (port_labels p) (f64_of_bool (wp_present p))) ports),
          mf ''bmcd_switch_port_link'' ''gauge'' ''Whether a switch port has carrier.''
            (port_samples ports (\<lambda>p. map_option f64_of_bool (wp_link p))),
          mf ''bmcd_switch_port_speed_bits_per_second'' ''gauge'' ''Negotiated line rate of a switch port.''
            (port_samples ports (\<lambda>p. map_option (\<lambda>speed. f64_of_nat (unat speed * 1000000)) (wp_speed_mbps p))),
          mf ''bmcd_switch_port_rx_bytes_total'' ''counter'' ''Bytes received on a switch port.''
            (port_samples ports (\<lambda>p. map_option f64_of_nat (wp_rx_bytes p))),
          mf ''bmcd_switch_port_tx_bytes_total'' ''counter'' ''Bytes transmitted on a switch port.''
            (port_samples ports (\<lambda>p. map_option f64_of_nat (wp_tx_bytes p))),
          mf ''bmcd_switch_port_rx_errors_total'' ''counter'' ''Receive errors on a switch port.''
            (port_samples ports (\<lambda>p. map_option f64_of_nat (wp_rx_errors p))),
          mf ''bmcd_switch_port_tx_errors_total'' ''counter'' ''Transmit errors on a switch port.''
            (port_samples ports (\<lambda>p. map_option f64_of_nat (wp_tx_errors p)))])"

definition node_families :: "metrics_snapshot \<Rightarrow> metric_family list" where
  "node_families s =
     [mf ''bmcd_node_power_state'' ''gauge'' ''Whether a compute module is powered on.''
        (filter_map (\<lambda>n. map_option (\<lambda>on. sample_new [(''node'', np_name n)] (f64_of_bool on)) (np_on n)) (mt_nodes s)),
      mf ''bmcd_node_power_on_seconds'' ''gauge'' ''Seconds since a compute module was powered on.''
        (filter_map (\<lambda>n. map_option (\<lambda>t. sample_new [(''node'', np_name n)] (f64_of_nat t)) (np_power_on_seconds n)) (mt_nodes s))]"

definition usb_families :: "usb_topology option \<Rightarrow> metric_family list" where
  "usb_families usb =
     (case usb of
        None \<Rightarrow> []
      | Some t \<Rightarrow>
          [mf ''bmcd_node_usb_boot_armed'' ''gauge''
             ''1 when a module's USB-boot pin is asserted, which stops it booting from its own eMMC.''
             (map (\<lambda>index. let name = ''node'' @ show_nat index
                in sample_new [(''node'', name)] (f64_of_bool (armed_node t = Some name))) [1..<5]),
           mf ''bmcd_usb_config'' ''gauge'' ''The board's persisted USB multiplexer configuration.''
             [sample_new [(''node'', ut_node t), (''mode'', ut_mode t), (''route'', ut_route t), (''bus_type'', ut_bus_type t)]
                (Dec 1 0)]])"

definition load_families :: "load_avg \<Rightarrow> metric_family list" where
  "load_families l =
     [mf ''bmcd_load1'' ''gauge'' ''1-minute load average of the BMC.'' (optional (la_one_minute l)),
      mf ''bmcd_load5'' ''gauge'' ''5-minute load average of the BMC.'' (optional (la_five_minutes l)),
      mf ''bmcd_load15'' ''gauge'' ''15-minute load average of the BMC.'' (optional (la_fifteen_minutes l))]"

definition memory_families :: "memory_info \<Rightarrow> metric_family list" where
  "memory_families m =
     [mf ''bmcd_memory_total_bytes'' ''gauge'' ''Total memory of the BMC.'' (optional_nat (me_total_bytes m)),
      mf ''bmcd_memory_free_bytes'' ''gauge'' ''Free memory of the BMC.'' (optional_nat (me_free_bytes m)),
      mf ''bmcd_memory_available_bytes'' ''gauge'' ''Memory available to a new allocation on the BMC, reclaim included.''
        (optional_nat (me_available_bytes m)),
      mf ''bmcd_process_resident_bytes'' ''gauge''
        ''This daemon's own resident set. Board memory says the board is being consumed; only this says by whom.''
        (optional_nat (me_self_resident_bytes m)),
      mf ''bmcd_process_threads'' ''gauge''
        (''Threads this daemon has. Read beside the resident set: a heap leak grows memory with this flat, ''
          @ ''while a leaked task or an unreaped blocking thread grows both, because every thread carries a stack.'')
        (optional_nat (me_self_threads m))]"

definition nand_families :: "nand_info \<Rightarrow> metric_family list" where
  "nand_families n =
     [mf ''bmcd_nand_eraseblocks'' ''gauge'' ''Eraseblocks of the BMC's NAND, by what UBI counts them as.''
        (filter_map (\<lambda>(state, count). map_option (\<lambda>c. sample_new [(''state'', state)] (f64_of_nat c)) count)
           [(''total'', na_total_eraseblocks n), (''available'', na_available_eraseblocks n),
            (''bad'', na_bad_eraseblocks n), (''reserved'', na_reserved_eraseblocks n)]),
      mf ''bmcd_nand_eraseblock_size_bytes'' ''gauge'' ''Size of one logical eraseblock of the BMC's NAND.''
        (optional_nat (na_eraseblock_size_bytes n)),
      mf ''bmcd_nand_available_bytes'' ''gauge'' ''Unallocated space on the BMC's NAND.'' (optional_nat (na_available_bytes n))]"

definition clock_families :: "clock_info \<Rightarrow> metric_family list" where
  "clock_families c =
     [mf ''bmcd_rtc_present'' ''gauge'' ''Whether the BMC has a real-time clock at all.'' [bare (f64_of_bool (cl_rtc c \<noteq> []))],
      mf ''bmcd_rtc_info'' ''gauge'' ''A real-time clock the kernel registered on the BMC.''
        (map (\<lambda>r. sample_new [(''device'', rt_device r), (''name'', case rt_name r of Some n \<Rightarrow> n | None \<Rightarrow> [])] (Dec 1 0))
           (cl_rtc c)),
      mf ''bmcd_clock_synchronised'' ''gauge''
        ''Whether the BMC's system clock is disciplined. Absent when that cannot be determined.''
        (optional (map_option f64_of_bool (cl_synchronised c))),
      mf ''bmcd_clock_stratum'' ''gauge'' ''Stratum of the time source the BMC is synchronised to.'' (optional_nat (cl_stratum c)),
      mf ''bmcd_clock_offset_seconds'' ''gauge''
        ''The BMC's system clock minus true time; negative when the board is behind.'' (optional (cl_offset_seconds c))]"

definition health_families :: "health \<Rightarrow> metric_family list" where
  "health_families h =
     mf ''bmcd_uptime_seconds'' ''gauge'' ''Seconds since the BMC booted.'' (optional (he_uptime_seconds h))
     # load_families (he_load h) @ memory_families (he_memory h) @ nand_families (he_nand h) @ clock_families (he_clock h)"

text \<open>\<open>str::replace\<close> of a pattern that is not empty.\<close>

function str_replace :: "string \<Rightarrow> string \<Rightarrow> string \<Rightarrow> string" where
  "str_replace p r [] = []"
| "str_replace p r (x # xs) =
     (if p \<noteq> [] \<and> starts_with p (x # xs) then r @ str_replace p r (drop (length p) (x # xs)) else x # str_replace p r xs)"
  by pat_completeness auto
termination
  by (relation "measure (\<lambda>(p, r, s). length s)") auto

definition promotion_epoch :: "(string \<Rightarrow> int option) \<Rightarrow> string \<Rightarrow> int option" where
  "promotion_epoch parse_date timestamp =
     (let cleaned = str_replace '' UTC '' '' '' timestamp
      in if cleaned = timestamp then None else parse_date (trim cleaned))"

definition firmware_families :: "(string \<Rightarrow> int option) \<Rightarrow> firmware_slots \<Rightarrow> metric_family list" where
  "firmware_families parse_date f =
     (let slots = filter_map (\<lambda>(role, slot). map_option (Pair role) slot)
            [(''running'', sl_running f), (''rollback'', sl_rollback f)]
      in (case sl_promotion_history f of
            None \<Rightarrow> []
          | Some history \<Rightarrow>
              [mf ''bmcd_firmware_promotion_total'' ''counter''
                 (''Boots that ran the firmware health gate, by what the gate decided. `promoted` is derived as attempts minus rollbacks, ''
                   @ ''because the gate has no single line meaning `kept`; a board cut off mid-gate therefore counts as promoted.'')
                 [sample_new [(''result'', ''promoted'')] (f64_of_nat (ph_promoted history)),
                  sample_new [(''result'', ''rolled_back'')] (f64_of_nat (ph_rolled_back history))]])
         @ (case Option.bind (sl_last_promotion f) (\<lambda>p. promotion_epoch parse_date (fst p)) of
              None \<Rightarrow> []
            | Some epoch \<Rightarrow>
                [mf ''bmcd_firmware_last_promotion_timestamp_seconds'' ''gauge''
                   (''When the health gate last reached a verdict, in Unix seconds. Taken from the board's own clock at that moment, ''
                     @ ''which on a BMC that had just come up may be behind true time; ''
                     @ ''absent when the recorded timestamp cannot be read as UTC.'')
                   [bare (f64_of_int epoch)]])
         @ [mf ''bmcd_firmware_slot_info'' ''gauge''
              ''A firmware slot on the BMC's NAND. The rollback slot is not mounted, so it has no version.''
              (map (\<lambda>(role, slot). sample_new [(''slot'', role), (''volume'', sl_volume slot),
                 (''version'', case sl_version slot of Some v \<Rightarrow> v | None \<Rightarrow> [])] (Dec 1 0)) slots),
            mf ''bmcd_firmware_slot_size_bytes'' ''gauge'' ''Size of the firmware in a slot.''
              (filter_map (\<lambda>(role, slot). map_option (\<lambda>n. sample_new [(''slot'', role), (''volume'', sl_volume slot)] (f64_of_nat n))
                 (sl_size_bytes slot)) slots),
            mf ''bmcd_firmware_update_staged'' ''gauge''
              ''Whether a firmware update is staged for the next boot. Absent when the U-Boot environment cannot be read.''
              (optional (map_option f64_of_bool (sl_update_staged f)))])"

definition metric_families :: "(string \<Rightarrow> int option) \<Rightarrow> metrics_snapshot \<Rightarrow> metric_family list" where
  "metric_families parse_date s =
     mf ''bmcd_build_info'' ''gauge'' ''Version of the daemon that produced these metrics.''
       [sample_new [(''version'', mt_daemon_version s)] (Dec 1 0)]
     # certificate_families (mt_certificate s) @ thermal_families s @ switch_families s @ node_families s
     @ usb_families (mt_usb s) @ health_families (mt_health s) @ firmware_families parse_date (mt_firmware s)"

definition render_metrics :: "(string \<Rightarrow> int option) \<Rightarrow> metrics_snapshot \<Rightarrow> string" where
  "render_metrics parse_date s = concat (map family (metric_families parse_date s))"

section \<open>A reader of the exposition format\<close>

text \<open>What a scraper makes of a label value after its opening quote, of a set of labels after the
  brace, of a line and of a document. Comments and empty lines carry no sample.\<close>

fun scan_value :: "string \<Rightarrow> (string \<times> string) option" where
  "scan_value [] = None"
| "scan_value (c # r) =
     (if c = CHR 0x22 then Some ([], r)
      else if c = CHR 0x5C
      then (case r of
              [] \<Rightarrow> None
            | d # r' \<Rightarrow> map_option (\<lambda>(v, t). ((if d = CHR ''n'' then newline else d) # v, t)) (scan_value r'))
      else map_option (\<lambda>(v, t). (c # v, t)) (scan_value r))"

fun scan_labels :: "nat \<Rightarrow> string \<Rightarrow> ((string \<times> string) list \<times> string) option" where
  "scan_labels 0 s = None"
| "scan_labels (Suc n) s =
     (case split_once CHR ''='' s of
        Some (key, q # r) \<Rightarrow>
          if q \<noteq> CHR 0x22 then None
          else (case scan_value r of
                  Some (v, e # t) \<Rightarrow>
                    if e = CHR '','' then map_option (\<lambda>(ls, u). ((key, v) # ls, u)) (scan_labels n t)
                    else if e = CHR ''}'' then Some ([(key, v)], t)
                    else None
                | _ \<Rightarrow> None)
      | _ \<Rightarrow> None)"

definition scan_sample :: "string \<Rightarrow> (string \<times> (string \<times> string) list \<times> string) option" where
  "scan_sample line =
     (let name = takeWhile (\<lambda>c. c \<noteq> CHR ''{'' \<and> c \<noteq> CHR '' '') line;
          rest = dropWhile (\<lambda>c. c \<noteq> CHR ''{'' \<and> c \<noteq> CHR '' '') line
      in case rest of
           [] \<Rightarrow> None
         | c # r \<Rightarrow>
             if c = CHR ''{''
             then (case scan_labels (length r) r of
                     Some (ls, b # v) \<Rightarrow> if b = CHR '' '' then Some (name, ls, v) else None
                   | _ \<Rightarrow> None)
             else Some (name, [], r))"

definition carries_sample :: "string \<Rightarrow> bool" where
  "carries_sample line = (line \<noteq> [] \<and> hd line \<noteq> CHR ''#'')"

definition scan_exposition :: "string \<Rightarrow> (string \<times> (string \<times> string) list \<times> string) option list" where
  "scan_exposition text = map scan_sample (filter carries_sample (split_on newline text))"

section \<open>Facts\<close>

definition esc_char :: "char \<Rightarrow> string" where
  "esc_char c =
     (if c = newline then [CHR 0x5C, CHR ''n''] else if c = CHR 0x22 then [CHR 0x5C, CHR 0x22]
      else if c = CHR 0x5C then [CHR 0x5C, CHR 0x5C] else [c])"

lemma replace_char_simps [simp]:
  "replace_char c r [] = []" "replace_char c r (x # xs) = (if x = c then r else [x]) @ replace_char c r xs"
  "replace_char c r (xs @ ys) = replace_char c r xs @ replace_char c r ys"
  by (simp_all add: replace_char_def)

lemma escape_simps [simp]: "escape [] = []" "escape (c # v) = esc_char c @ escape v"
  by (simp_all add: escape_def esc_char_def newline_def)

lemma scan_value_escape: "scan_value (escape v @ CHR 0x22 # r) = Some (v, r)"
  by (induction v) (auto simp: esc_char_def newline_def)

lemma escape_no_newline: "newline \<notin> set (escape v)"
  by (induction v) (auto simp: esc_char_def newline_def)

definition label_ok :: "string \<times> string \<Rightarrow> bool" where
  "label_ok kv = list_all (\<lambda>c. c \<noteq> CHR ''='' \<and> c \<noteq> newline) (fst kv)"

lemma label_text_append:
  "label_text kv @ s = fst kv @ CHR ''='' # CHR 0x22 # escape (snd kv) @ CHR 0x22 # s"
  by (simp add: label_text_def)

lemma scan_labels_join:
  "list_all label_ok ls \<Longrightarrow> ls \<noteq> [] \<Longrightarrow> length ls \<le> n
   \<Longrightarrow> scan_labels n (join '','' (map label_text ls) @ CHR ''}'' # t) = Some (ls, t)"
proof (induction ls arbitrary: n)
  case (Cons l ls)
  obtain m where n: "n = Suc m" using Cons.prems by (cases n) auto
  have k: "split_once CHR ''='' (fst l @ CHR ''='' # s) = Some (fst l, s)" for s
    by (rule split_once_append) (use Cons.prems in \<open>auto simp: label_ok_def list_all_iff\<close>)
  show ?case
  proof (cases ls)
    case Nil
    then show ?thesis by (simp add: n label_text_append k scan_value_escape)
  next
    case (Cons l' ls')
    have "scan_labels m (join '','' (map label_text ls) @ CHR ''}'' # t) = Some (ls, t)"
      using Cons.IH [of m] Cons.prems n Cons by simp
    then show ?thesis using Cons by (simp add: n label_text_append k scan_value_escape)
  qed
qed simp

lemma format_value_number: "list_all number_char (format_value v)"
  using show_f64_number [of v] show_int_number by (auto simp: format_value_def split: f64.split prod.split nat.split)

lemma number_no_newline: "list_all number_char s \<Longrightarrow> newline \<notin> set s"
  by (auto simp: list_all_iff number_char_def is_ascii_digit_def newline_def)

definition plain_name :: "string \<Rightarrow> bool" where
  "plain_name name =
     (name \<noteq> [] \<and> hd name \<noteq> CHR ''#'' \<and> list_all (\<lambda>c. c \<noteq> CHR ''{'' \<and> c \<noteq> CHR '' '' \<and> c \<noteq> newline) name)"

definition family_ok :: "metric_family \<Rightarrow> bool" where
  "family_ok f =
     (plain_name (mf_name f) \<and> newline \<notin> set (mf_help f) \<and> newline \<notin> set (mf_kind f)
      \<and> list_all (\<lambda>s. list_all label_ok (sm_labels s)) (mf_samples f))"

lemma scan_sample_line:
  assumes "plain_name name" and "list_all label_ok (sm_labels s)"
  shows "scan_sample (sample_line name s) = Some (name, sm_labels s, format_value (sm_value s))"
proof -
  let ?P = "\<lambda>c. c \<noteq> CHR ''{'' \<and> c \<noteq> CHR '' ''"
  have t: "takeWhile ?P (name @ c # r) = name" "dropWhile ?P (name @ c # r) = c # r" if "\<not> ?P c" for c r
    using assms(1) that by (subst takeWhile_append2 dropWhile_append2; auto simp: plain_name_def list_all_iff)+
  show ?thesis
  proof (cases "sm_labels s = []")
    case True
    then show ?thesis by (simp add: sample_line_def scan_sample_def t)
  next
    case False
    let ?r = "join '','' (map label_text (sm_labels s)) @ CHR ''}'' # CHR '' '' # format_value (sm_value s)"
    have "length ls \<le> length (join '','' (map label_text ls) @ u)" for ls u
      by (induction ls rule: induct_list012) (auto simp: label_text_def)
    then have "scan_labels (length ?r) ?r = Some (sm_labels s, CHR '' '' # format_value (sm_value s))"
      using scan_labels_join [OF assms(2) False] by blast
    then show ?thesis using False by (simp add: sample_line_def scan_sample_def t)
  qed
qed

lemma sample_line_shape:
  assumes "plain_name name" and "list_all label_ok (sm_labels s)"
  shows "newline \<notin> set (sample_line name s)" and "carries_sample (sample_line name s)"
proof -
  have "newline \<notin> set (label_text kv)" if "kv \<in> set (sm_labels s)" for kv
    using that assms(2) escape_no_newline [of "snd kv"] by (auto simp: label_text_def label_ok_def list_all_iff newline_def)
  then have "newline \<notin> set (join '','' (map label_text (sm_labels s)))"
    using set_join [of "'',''" "map label_text (sm_labels s)"] by (auto simp: newline_def)
  then show "newline \<notin> set (sample_line name s)"
    using assms(1) number_no_newline [OF format_value_number]
    by (auto simp: sample_line_def plain_name_def list_all_iff newline_def)
  show "carries_sample (sample_line name s)"
    using assms(1) by (auto simp: carries_sample_def sample_line_def plain_name_def)
qed

lemma split_unlines: "list_all (\<lambda>l. newline \<notin> set l) ls \<Longrightarrow> split_on newline (unlines ls) = ls @ [[]]"
proof (induction ls)
  case (Cons l ls)
  then show ?case using split_p_append [of "\<lambda>x. x = newline" l newline "unlines ls"]
    by (auto simp: split_on_def unlines_simps list_all_iff)
qed (simp add: split_on_def unlines_simps)

lemma family_lines_plain:
  assumes "family_ok f"
  shows "list_all (\<lambda>l. newline \<notin> set l) (family_lines f)"
    and "map scan_sample (filter carries_sample (family_lines f))
      = map (\<lambda>s. Some (mf_name f, sm_labels s, format_value (sm_value s))) (mf_samples f)"
proof -
  note s = sample_line_shape [of "mf_name f"] scan_sample_line [of "mf_name f"]
  have n: "newline \<notin> set (mf_name f)" using assms by (auto simp: family_ok_def plain_name_def list_all_iff)
  show "list_all (\<lambda>l. newline \<notin> set l) (family_lines f)"
    using assms n s by (auto simp: family_lines_def family_ok_def list_all_iff newline_def)
  have "filter carries_sample (map (sample_line (mf_name f)) (mf_samples f)) = map (sample_line (mf_name f)) (mf_samples f)"
    using assms s(2) by (auto simp: filter_id_conv family_ok_def list_all_iff)
  moreover have "scan_sample (sample_line (mf_name f) x) = Some (mf_name f, sm_labels x, format_value (sm_value x))"
    if "x \<in> set (mf_samples f)" for x
    using that assms s(3) by (auto simp: family_ok_def list_all_iff)
  ultimately show "map scan_sample (filter carries_sample (family_lines f))
      = map (\<lambda>s. Some (mf_name f, sm_labels s, format_value (sm_value s))) (mf_samples f)"
    by (simp add: family_lines_def carries_sample_def)
qed

lemma scan_families:
  assumes "list_all family_ok fs"
  shows "scan_exposition (concat (map family fs))
    = concat (map (\<lambda>f. map (\<lambda>s. Some (mf_name f, sm_labels s, format_value (sm_value s))) (mf_samples f)) fs)"
proof -
  have "concat (map family fs) = unlines (concat (map family_lines fs))"
    by (induction fs) (simp_all add: family_def unlines_append unlines_simps)
  moreover have "list_all (\<lambda>l. newline \<notin> set l) (concat (map family_lines fs))"
    using assms family_lines_plain(1) by (fastforce simp: list_all_iff)
  ultimately have "scan_exposition (concat (map family fs)) = map scan_sample (filter carries_sample (concat (map family_lines fs)))"
    by (simp add: scan_exposition_def split_unlines carries_sample_def)
  also have "\<dots> = concat (map (\<lambda>f. map scan_sample (filter carries_sample (family_lines f))) fs)"
    by (simp add: filter_concat map_concat comp_def)
  also have "\<dots> = concat (map (\<lambda>f. map (\<lambda>s. Some (mf_name f, sm_labels s, format_value (sm_value s))) (mf_samples f)) fs)"
    using assms family_lines_plain(2) by (intro arg_cong [of _ _ concat] map_cong) (auto simp: list_all_iff)
  finally show ?thesis .
qed

definition samples_ok :: "sample list \<Rightarrow> bool" where
  "samples_ok ss = list_all (\<lambda>s. list_all label_ok (sm_labels s)) ss"

lemma mf_ok: "plain_name name \<Longrightarrow> newline \<notin> set help \<Longrightarrow> newline \<notin> set kind \<Longrightarrow> samples_ok ss \<Longrightarrow> family_ok (mf name kind help ss)"
  by (simp add: family_ok_def mf_def samples_ok_def)

lemma samples_ok_simps [simp]:
  "samples_ok []" "samples_ok (s # ss) \<longleftrightarrow> list_all label_ok (sm_labels s) \<and> samples_ok ss"
  "samples_ok (optional v)" "samples_ok (optional_nat n)"
  by (simp_all add: samples_ok_def optional_def optional_nat_def bare_def sample_new_def split: option.split)

lemma samples_ok_map: "(\<And>x. list_all label_ok (sm_labels (g x))) \<Longrightarrow> samples_ok (map g xs)"
  by (simp add: samples_ok_def list_all_iff)

lemma samples_ok_filter_map:
  "(\<And>x s. g x = Some s \<Longrightarrow> list_all label_ok (sm_labels s)) \<Longrightarrow> samples_ok (filter_map g xs)"
  by (auto simp: samples_ok_def list_all_iff set_filter_map)

lemmas family_eval = plain_name_def newline_def label_ok_def sample_new_def bare_def

lemma certificate_families_ok: "list_all family_ok (certificate_families c)"
  unfolding certificate_families_def by (auto simp: family_eval intro!: mf_ok split: option.split)

lemma thermal_families_ok: "list_all family_ok (thermal_families s)"
  unfolding thermal_families_def by (auto simp: family_eval intro!: mf_ok samples_ok_map samples_ok_filter_map)

lemma port_labels_ok: "list_all label_ok (port_labels p)"
  by (simp add: port_labels_def label_ok_def newline_def)

lemma switch_families_ok: "list_all family_ok (switch_families s)"
  unfolding switch_families_def port_samples_def Let_def
  by (auto simp: plain_name_def newline_def sample_new_def port_labels_ok intro!: mf_ok samples_ok_map samples_ok_filter_map)

lemma node_families_ok: "list_all family_ok (node_families s)"
  unfolding node_families_def by (auto simp: family_eval intro!: mf_ok samples_ok_filter_map)

lemma usb_families_ok: "list_all family_ok (usb_families u)"
  unfolding usb_families_def
  by (cases u) (auto simp: family_eval Let_def intro!: mf_ok samples_ok_map)

lemma load_families_ok: "list_all family_ok (load_families l)"
  unfolding load_families_def by (auto simp: family_eval intro!: mf_ok)

lemma memory_families_ok: "list_all family_ok (memory_families m)"
  unfolding memory_families_def by (auto simp: family_eval intro!: mf_ok)

lemma nand_families_ok: "list_all family_ok (nand_families n)"
  unfolding nand_families_def
  by (auto simp: family_eval simp del: filter_map.simps intro!: mf_ok samples_ok_filter_map)

lemma clock_families_ok: "list_all family_ok (clock_families c)"
  unfolding clock_families_def by (auto simp: family_eval intro!: mf_ok samples_ok_map)

lemma health_families_ok: "list_all family_ok (health_families h)"
  by (simp add: health_families_def load_families_ok memory_families_ok nand_families_ok clock_families_ok)
    (auto simp: family_eval intro!: mf_ok)

lemma firmware_families_ok: "list_all family_ok (firmware_families pd f)"
  unfolding firmware_families_def Let_def
  by (simp del: filter_map.simps split: option.split)
    (auto simp: family_eval simp del: filter_map.simps intro!: mf_ok samples_ok_map samples_ok_filter_map)

lemma metric_families_ok: "list_all family_ok (metric_families pd s)"
  by (simp add: metric_families_def certificate_families_ok thermal_families_ok switch_families_ok node_families_ok
      usb_families_ok health_families_ok firmware_families_ok)
    (auto simp: family_eval intro!: mf_ok)

text \<open>The reader takes the value of a sample as a number. One metric of a document is the labels and
  values of the samples under its name.\<close>

definition read_samples :: "string \<Rightarrow> (string \<times> (string \<times> string) list \<times> f64) option list" where
  "read_samples document =
     map (\<lambda>r. case r of
            None \<Rightarrow> None
          | Some (name, ls, v) \<Rightarrow> map_option (\<lambda>x. (name, ls, x)) (parse_f64 v)) (scan_exposition document)"

definition read_metric :: "string \<Rightarrow> string \<Rightarrow> ((string \<times> string) list \<times> f64) list" where
  "read_metric name document =
     filter_map (\<lambda>r. case r of None \<Rightarrow> None | Some (n, ls, x) \<Rightarrow> if n = name then Some (ls, x) else None) (read_samples document)"

lemma format_value_shown: "format_value v = show_f64 v"
  by (auto simp: format_value_def show_scaled_def split: f64.split prod.split nat.split)

text \<open>What a scrape makes of a value.\<close>

definition reread :: "f64 \<Rightarrow> f64" where
  "reread v = the (parse_f64 (format_value v))"

lemma reread_same: "same_number (reread v) v" and reread_parse: "parse_f64 (format_value v) = Some (reread v)"
  using parse_show_f64 [of v] by (auto simp: reread_def format_value_shown)

lemma reread_whole [simp]: "reread (Dec m 0) = Dec m 0"
  by (simp only: reread_def format_value_shown parse_show_whole option.sel)

lemma reread_counts [simp]: "reread (f64_of_nat n) = f64_of_nat n" "reread (f64_of_bool b) = f64_of_bool b"
  by (simp_all add: f64_of_nat_def f64_of_bool_def)

lemma read_rendered:
  "read_samples (render_metrics parse_date s)
     = concat (map (\<lambda>f. map (\<lambda>x. Some (mf_name f, sm_labels x, reread (sm_value x))) (mf_samples f)) (metric_families parse_date s))"
  unfolding read_samples_def render_metrics_def scan_families [OF metric_families_ok]
  by (simp add: map_concat comp_def reread_parse)

lemma read_metric_families:
  "read_metric name (render_metrics parse_date s)
     = concat (map (\<lambda>f. map (\<lambda>x. (sm_labels x, reread (sm_value x))) (mf_samples f))
         (filter (\<lambda>f. mf_name f = name) (metric_families parse_date s)))"
proof -
  let ?g = "\<lambda>r. case r of None \<Rightarrow> None | Some (n, ls, x) \<Rightarrow> if n = name then Some (ls, x) else None"
  have one: "filter_map ?g (map (\<lambda>x. Some (mf_name f, sm_labels x, reread (sm_value x))) ss)
      = (if mf_name f = name then map (\<lambda>x. (sm_labels x, reread (sm_value x))) ss else [])" for f ss
    by (cases "mf_name f = name"; induction ss) simp_all
  have "filter_map ?g (concat (map (\<lambda>f. map (\<lambda>x. Some (mf_name f, sm_labels x, reread (sm_value x))) (mf_samples f)) fs))
      = concat (map (\<lambda>f. map (\<lambda>x. (sm_labels x, reread (sm_value x))) (mf_samples f)) (filter (\<lambda>f. mf_name f = name) fs))" for fs
  proof (induction fs)
    case (Cons f fs)
    then show ?case using one [of f "mf_samples f"] by (cases "mf_name f = name") simp_all
  qed simp
  then show ?thesis by (simp add: read_metric_def read_rendered)
qed

lemma mf_simps [simp]: "mf_name (mf name kind help ss) = name" "mf_samples (mf name kind help ss) = ss"
  by (simp_all add: mf_def)

lemma sample_new_simps [simp]: "sm_labels (sample_new ls v) = ls" "sm_value (sample_new ls v) = v"
  by (simp_all add: sample_new_def)

text \<open>The families of one name, group by group.\<close>

lemmas family_lists = metric_families_def certificate_families_def thermal_families_def switch_families_def node_families_def
  usb_families_def health_families_def load_families_def memory_families_def nand_families_def clock_families_def
  firmware_families_def

lemma named_power: "filter (\<lambda>f. mf_name f = ''bmcd_node_power_state'') (metric_families parse_date s) = [hd (node_families s)]"
  by (simp add: family_lists Let_def split: option.split)

lemma named_rx: "filter (\<lambda>f. mf_name f = ''bmcd_switch_port_rx_bytes_total'') (metric_families parse_date s) = [switch_families s ! 3]"
  by (simp add: family_lists Let_def split: option.split)

lemma named_staged:
  "filter (\<lambda>f. mf_name f = ''bmcd_firmware_update_staged'') (metric_families parse_date s) = [List.last (firmware_families parse_date (mt_firmware s))]"
  by (simp add: family_lists Let_def split: option.split)


text \<open>The alarm for a module left in its boot mode is one for that module and nought for the
  others.\<close>

lemma armed_samples:
  "armed_node (usb_topology_of config bus) = Some (''node'' @ show_nat i)
   \<longleftrightarrow> (\<exists>node route. config = Flashing node route \<and> i = node_index node + 1)"
  by (cases config) (auto simp: armed_node_def usb_topology_of_def usb_parts_def dest: show_nat_inj)

end
