(* ===== verification/Ban_Patrol.thy ===== *)
theory Ban_Patrol
  imports Rust_Std
begin

text \<open>
  \<^verbatim>\<open>bmcd/src/authentication/authentication_errors.rs\<close> and \<^verbatim>\<open>ban_patrol.rs\<close>: the errors of the
  authentication modules, and the book-keeping of failed attempts per peer. An operation
  takes the reading of the clock it makes as an argument.
\<close>

section \<open>Errors\<close>

datatype auth_error =
    ParseError string
  | IncorrectCredentials
  | TokenExpired instant
  | NoMatch string
  | HttpParseError string
  | SchemeNotSupported string
  | Empty
  | ExceededAllowedAttempts instant

definition ban_seconds_remaining :: "instant \<Rightarrow> instant \<Rightarrow> nat" where
  "ban_seconds_remaining now deadline =
     (let remaining = deadline - now
      in max (as_secs remaining + (if subsec_nanos remaining \<noteq> 0 then 1 else 0)) 1)"

definition retry_after :: "instant \<Rightarrow> auth_error \<Rightarrow> nat option" where
  "retry_after now e =
     (case e of ExceededAllowedAttempts deadline \<Rightarrow> Some (ban_seconds_remaining now deadline)
      | _ \<Rightarrow> None)"

datatype scheme = BasicScheme | BearerScheme

type_synonym schemed_auth_error = "scheme option \<times> auth_error"

definition into_basic_error :: "auth_error \<Rightarrow> schemed_auth_error" where
  "into_basic_error e = (Some BasicScheme, e)"

definition into_bearer_error :: "auth_error \<Rightarrow> schemed_auth_error" where
  "into_bearer_error e = (Some BearerScheme, e)"

definition into_unknown_error :: "auth_error \<Rightarrow> schemed_auth_error" where
  "into_unknown_error e = (None, e)"

definition schemed_retry_after :: "instant \<Rightarrow> schemed_auth_error \<Rightarrow> nat option" where
  "schemed_retry_after now e = retry_after now (snd e)"

section \<open>The ban patrol\<close>

definition BAN_LEVELS :: nat where "BAN_LEVELS = 10"
definition BAN_DURATION :: duration where "BAN_DURATION = from_secs 60"

record ban_patrol =
  bp_penalties :: "string \<rightharpoonup> nat \<times> instant"
  bp_max_attempts :: nat

text \<open>The constructor refuses a limit of 0.\<close>

definition ban_patrol_new :: "nat \<Rightarrow> ban_patrol option" where
  "ban_patrol_new n =
     (if n \<noteq> 0 then Some \<lparr>bp_penalties = Map.empty, bp_max_attempts = n\<rparr> else None)"

definition patrole_ban :: "string \<Rightarrow> instant \<Rightarrow> ban_patrol \<Rightarrow> (auth_error, unit) result" where
  "patrole_ban peer now bp =
     (case bp_penalties bp peer of
        None \<Rightarrow> Inr ()
      | Some (attempts, deadline) \<Rightarrow>
          if now < deadline then Inl (ExceededAllowedAttempts deadline) else Inr ())"

definition clear_penalties :: "string \<Rightarrow> ban_patrol \<Rightarrow> ban_patrol" where
  "clear_penalties peer bp = bp\<lparr>bp_penalties := (bp_penalties bp)(peer := None)\<rparr>"

definition penalize :: "string \<Rightarrow> instant \<Rightarrow> ban_patrol \<Rightarrow> (auth_error, unit) result \<times> ban_patrol" where
  "penalize peer now bp =
     (let (attempts, deadline) = (case bp_penalties bp peer of None \<Rightarrow> (0, now) | Some e \<Rightarrow> e);
          attempts = attempts + 1
      in if bp_max_attempts bp \<le> attempts
         then
           (let multiplier = 2 ^ min (attempts - bp_max_attempts bp) BAN_LEVELS;
                deadline = now + BAN_DURATION * multiplier;
                bp = bp\<lparr>bp_penalties := (bp_penalties bp)(peer \<mapsto> (attempts, deadline))\<rparr>
            in (patrole_ban peer now bp, bp))
         else (Inr (), bp\<lparr>bp_penalties := (bp_penalties bp)(peer \<mapsto> (attempts, deadline))\<rparr>))"

definition banned :: "string \<Rightarrow> instant \<Rightarrow> ban_patrol \<Rightarrow> bool" where
  "banned peer now bp = (\<not> is_ok (patrole_ban peer now bp))"

section \<open>Facts\<close>

lemmas ban_defs [auth_simps] = patrole_ban_def clear_penalties_def penalize_def

lemma penalize_max [simp]: "bp_max_attempts (snd (penalize peer now bp)) = bp_max_attempts bp"
  by (simp add: penalize_def Let_def split: option.splits prod.splits)

lemma penalize_other:
  "q \<noteq> peer \<Longrightarrow> bp_penalties (snd (penalize peer now bp)) q = bp_penalties bp q"
  by (simp add: penalize_def Let_def split: option.splits prod.splits)

lemma clear_other: "q \<noteq> peer \<Longrightarrow> bp_penalties (clear_penalties peer bp) q = bp_penalties bp q"
  by (simp add: clear_penalties_def)

lemma clear_max [simp]: "bp_max_attempts (clear_penalties peer bp) = bp_max_attempts bp"
  by (simp add: clear_penalties_def)

text \<open>The number of attempts a peer has on record, and the end of its ban.\<close>

definition attempts_of :: "string \<Rightarrow> ban_patrol \<Rightarrow> nat" where
  "attempts_of peer bp = (case bp_penalties bp peer of None \<Rightarrow> 0 | Some (n, _) \<Rightarrow> n)"

definition ladder :: "nat \<Rightarrow> nat \<Rightarrow> duration" where
  "ladder limit n = from_secs (60 * 2 ^ min (n - limit) 10)"

lemma penalize_attempts: "attempts_of peer (snd (penalize peer now bp)) = Suc (attempts_of peer bp)"
  by (auto simp: penalize_def attempts_of_def Let_def split: option.splits)

lemma penalize_deadline:
  assumes "bp_max_attempts bp \<le> Suc (attempts_of peer bp)"
  shows "bp_penalties (snd (penalize peer now bp)) peer
    = Some (Suc (attempts_of peer bp), now + ladder (bp_max_attempts bp) (Suc (attempts_of peer bp)))"
    and "fst (penalize peer now bp)
    = Inl (ExceededAllowedAttempts (now + ladder (bp_max_attempts bp) (Suc (attempts_of peer bp))))"
proof -
  have "BAN_DURATION * 2 ^ min (Suc n - bp_max_attempts bp) BAN_LEVELS = ladder (bp_max_attempts bp) (Suc n)" for n
    by (simp add: ladder_def BAN_DURATION_def BAN_LEVELS_def from_secs_def)
  moreover have "0 < BAN_DURATION" by (simp add: BAN_DURATION_def)
  ultimately show "bp_penalties (snd (penalize peer now bp)) peer
    = Some (Suc (attempts_of peer bp), now + ladder (bp_max_attempts bp) (Suc (attempts_of peer bp)))"
    and "fst (penalize peer now bp)
    = Inl (ExceededAllowedAttempts (now + ladder (bp_max_attempts bp) (Suc (attempts_of peer bp))))"
    using assms
    by (auto simp: penalize_def attempts_of_def patrole_ban_def Let_def split: option.splits)
qed

lemma penalize_below:
  assumes "Suc (attempts_of peer bp) < bp_max_attempts bp"
  shows "fst (penalize peer now bp) = Inr ()"
  using assms by (auto simp: penalize_def attempts_of_def Let_def split: option.splits)

section \<open>What the authentication context relies on\<close>

datatype ban_event = Clear string | Penalize string instant

fun ban_event_peer :: "ban_event \<Rightarrow> string" where
  "ban_event_peer (Clear p) = p"
| "ban_event_peer (Penalize p _) = p"

fun ban_step :: "(string \<Rightarrow> 'b \<Rightarrow> 'b) \<Rightarrow> (string \<Rightarrow> instant \<Rightarrow> 'b \<Rightarrow> (auth_error, unit) result \<times> 'b)
    \<Rightarrow> 'b \<Rightarrow> ban_event \<Rightarrow> 'b" where
  "ban_step clear pen b (Clear p) = clear p b"
| "ban_step clear pen b (Penalize p t) = snd (pen p t b)"

locale ban_policy =
  fixes patrol :: "string \<Rightarrow> instant \<Rightarrow> 'b \<Rightarrow> (auth_error, unit) result"
    and clear :: "string \<Rightarrow> 'b \<Rightarrow> 'b"
    and pen :: "string \<Rightarrow> instant \<Rightarrow> 'b \<Rightarrow> (auth_error, unit) result \<times> 'b"
  assumes patrol_err: "patrol p t b = Inl e \<Longrightarrow> \<exists>dl. e = ExceededAllowedAttempts dl \<and> t < dl"
    and pen_err: "fst (pen p t b) = Inl e \<Longrightarrow> \<exists>dl. e = ExceededAllowedAttempts dl \<and> t < dl"
    and clear_ok: "patrol p t (clear p b) = Inr ()"
    and clear_frame: "q \<noteq> p \<Longrightarrow> patrol q t (clear p b) = patrol q t b"
    and pen_frame: "q \<noteq> p \<Longrightarrow> patrol q t (snd (pen p t' b)) = patrol q t b"
begin

lemma step_frame: "q \<noteq> ban_event_peer ev \<Longrightarrow> patrol q t (ban_step clear pen b ev) = patrol q t b"
  by (cases ev) (simp_all add: clear_frame pen_frame)

lemma isolation:
  "q \<notin> ban_event_peer ` set evs \<Longrightarrow> patrol q t (foldl (ban_step clear pen) b evs) = patrol q t b"
  by (induction evs arbitrary: b) (simp_all add: step_frame)

lemma err_wait: "patrol p t b = Inl e \<Longrightarrow> retry_after t e \<noteq> None"
  using patrol_err by (fastforce simp: retry_after_def)

end

interpretation bans: ban_policy patrole_ban clear_penalties penalize
proof unfold_locales
  show "\<exists>dl. e = ExceededAllowedAttempts dl \<and> t < dl" if "patrole_ban p t b = Inl e" for p t b e
    using that by (auto simp: patrole_ban_def split: option.splits if_splits)
  then show "\<exists>dl. e = ExceededAllowedAttempts dl \<and> t < dl" if "fst (penalize p t b) = Inl e" for p t b e
    using that by (auto simp: penalize_def Let_def split: prod.splits if_splits)
  show "patrole_ban p t (clear_penalties p b) = Inr ()" for p t b by (simp add: auth_simps)
  show "patrole_ban q t (clear_penalties p b) = patrole_ban q t b" if "q \<noteq> p" for q p t b
    using that by (simp add: patrole_ban_def clear_other)
  show "patrole_ban q t (snd (penalize p t' b)) = patrole_ban q t b" if "q \<noteq> p" for q p t t' b
    using that by (simp add: patrole_ban_def penalize_other)
qed

section \<open>A run of failed attempts\<close>

text \<open>Attempts of one peer at the given times, each let through by the patrol and each failed,
  with no success in between.\<close>

fun checked_failures :: "string \<Rightarrow> instant list \<Rightarrow> ban_patrol \<Rightarrow> bool" where
  "checked_failures peer [] bp = True"
| "checked_failures peer (t # ts) bp =
     (patrole_ban peer t bp = Inr () \<and> checked_failures peer ts (snd (penalize peer t bp)))"

fun after_failures :: "string \<Rightarrow> instant list \<Rightarrow> ban_patrol \<Rightarrow> ban_patrol" where
  "after_failures peer [] bp = bp"
| "after_failures peer (t # ts) bp = after_failures peer ts (snd (penalize peer t bp))"

lemma after_failures_snoc:
  "after_failures peer (ts @ [t]) bp = snd (penalize peer t (after_failures peer ts bp))"
  by (induction ts arbitrary: bp) auto

lemma checked_failures_snoc:
  "checked_failures peer (ts @ [t]) bp \<longleftrightarrow>
     checked_failures peer ts bp \<and> patrole_ban peer t (after_failures peer ts bp) = Inr ()"
  by (induction ts arbitrary: bp) auto

lemma attempts_after: "attempts_of peer (after_failures peer ts bp) = attempts_of peer bp + length ts"
  by (induction ts arbitrary: bp) (auto simp: penalize_attempts)

lemma max_after [simp]: "bp_max_attempts (after_failures peer ts bp) = bp_max_attempts bp"
  by (induction ts arbitrary: bp) auto

text \<open>The time the bans of a run take, from its limit-th attempt on.\<close>

definition total_ban :: "nat \<Rightarrow> nat" where
  "total_ban k = (\<Sum>i<k. 60 * 2 ^ min i 10)"

lemma ladder_step: "n \<ge> limit \<Longrightarrow> ladder limit n = from_secs (60 * 2 ^ min (n - limit) 10)"
  by (simp add: ladder_def)

lemma patrole_ok_deadline:
  "patrole_ban peer t bp = Inr () \<Longrightarrow> bp_penalties bp peer = Some (n, dl) \<Longrightarrow> dl \<le> t"
  by (simp add: patrole_ban_def split: if_splits)

lemma ban_spacing:
  assumes "checked_failures peer (ts @ [t, t']) bp" and "bp_max_attempts bp \<le> Suc (attempts_of peer bp + length ts)"
  shows "t + ladder (bp_max_attempts bp) (Suc (attempts_of peer bp + length ts)) \<le> t'"
proof -
  let ?bp = "after_failures peer ts bp"
  have "patrole_ban peer t' (snd (penalize peer t ?bp)) = Inr ()"
    using assms(1) checked_failures_snoc [of peer "ts @ [t]" t' bp] by (simp add: after_failures_snoc)
  then show ?thesis
    using penalize_deadline(1) [of ?bp peer t] assms(2) patrole_ok_deadline by (auto simp: attempts_after)
qed

lemma brute_force_aux:
  assumes "bp_penalties bp peer = None" and "0 < bp_max_attempts bp"
  shows "checked_failures peer ts bp \<Longrightarrow> sorted ts \<Longrightarrow> bp_max_attempts bp \<le> length ts \<Longrightarrow>
    hd ts + from_secs (total_ban (length ts - bp_max_attempts bp)) \<le> last ts"
proof (induction ts rule: rev_induct)
  case (snoc t' ts)
  have none: "attempts_of peer bp = 0" using assms(1) by (simp add: attempts_of_def)
  show ?case
  proof (cases "bp_max_attempts bp \<le> length ts")
    case True
    then have ne: "ts \<noteq> []" using assms(2) by auto
    then obtain us t where ts: "ts = us @ [t]" by (metis append_butlast_last_id)
    have IH: "hd ts + from_secs (total_ban (length ts - bp_max_attempts bp)) \<le> last ts"
      using snoc True by (simp add: checked_failures_snoc sorted_append)
    have "t + ladder (bp_max_attempts bp) (length ts) \<le> t'"
      using ban_spacing [of peer us t t' bp] snoc.prems(1) True none by (simp add: ts)
    moreover have "total_ban (Suc (length ts) - bp_max_attempts bp)
        = total_ban (length ts - bp_max_attempts bp) + 60 * 2 ^ min (length ts - bp_max_attempts bp) 10"
      using True by (simp add: total_ban_def Suc_diff_le)
    moreover have "hd (ts @ [t']) = hd ts" "last ts = t" using ne by (simp_all add: ts hd_append)
    ultimately show ?thesis
      using IH by (simp add: ladder_def from_secs_add)
  next
    case False
    then have "length (ts @ [t']) - bp_max_attempts bp = 0" by simp
    moreover have "hd (ts @ [t']) \<le> t'"
      using snoc.prems(2) by (cases ts) (auto simp: sorted_append)
    ultimately show ?thesis by (simp add: total_ban_def from_secs_def)
  qed
qed (use assms(2) in simp)

section \<open>Properties\<close>

text \<open>what a run of failed attempts costs: after the n-th failure in a row the peer is banned
  exactly from the allowed number of attempts on, for one minute, doubled with each further
  failure up to 1024 minutes, counted from the failure; before that it is not banned at all.\<close>

theorem ban_ladder:
  assumes "bp_penalties bp peer = None" and "checked_failures peer (ts @ [t]) bp" and "t \<le> now"
  shows "patrole_ban peer now (after_failures peer (ts @ [t]) bp) =
    (if bp_max_attempts bp \<le> Suc (length ts)
        \<and> now < t + from_secs (60 * 2 ^ min (Suc (length ts) - bp_max_attempts bp) 10)
     then Inl (ExceededAllowedAttempts
            (t + from_secs (60 * 2 ^ min (Suc (length ts) - bp_max_attempts bp) 10)))
     else Inr ())"
proof -
  let ?bp = "after_failures peer ts bp"
  have n: "attempts_of peer ?bp = length ts"
    using assms(1) attempts_after [of peer ts bp] by (simp add: attempts_of_def [of peer bp])
  have ok: "patrole_ban peer t ?bp = Inr ()" using assms(2) by (simp add: checked_failures_snoc)
  show ?thesis
  proof (cases "bp_max_attempts bp \<le> Suc (length ts)")
    case True
    then show ?thesis
      using penalize_deadline(1) [of ?bp peer t] n
      by (simp add: after_failures_snoc patrole_ban_def ladder_def)
  next
    case False
    have "patrole_ban peer now (snd (penalize peer t ?bp)) = Inr ()"
      using False n ok assms(3)
      by (auto simp: penalize_def patrole_ban_def attempts_of_def Let_def split: option.splits if_splits)
    then show ?thesis using False by (simp add: after_failures_snoc)
  qed
qed

definition example_patrol :: ban_patrol where
  "example_patrol = \<lparr>bp_penalties = Map.empty, bp_max_attempts = 2\<rparr>"

theorem ban_ladder_witness:
  "bp_penalties example_patrol ''p'' = None
   \<and> checked_failures ''p'' ([0] @ [5]) example_patrol
   \<and> patrole_ban ''p'' 6 (after_failures ''p'' ([0] @ [5]) example_patrol)
     = Inl (ExceededAllowedAttempts (5 + from_secs 60))"
proof -
  have "bp_penalties example_patrol ''p'' = None" by (simp add: example_patrol_def)
  moreover have "checked_failures ''p'' ([0] @ [5]) example_patrol"
    by (simp add: example_patrol_def patrole_ban_def penalize_def)
  ultimately show ?thesis
    using ban_ladder [of example_patrol "''p''" "[0]" 5 6]
    by (simp add: example_patrol_def from_secs_def)
qed

text \<open>C32: guessing is slow: a peer that had \<open>n\<close> credentials in a row looked at and refused has
  spent at least the sum of the bans between the first and the last of them, however it
  spaced its attempts.\<close>

theorem brute_force_bound:
  assumes "bp_penalties bp peer = None" and "0 < bp_max_attempts bp"
    and "checked_failures peer ts bp" and "sorted ts" and "bp_max_attempts bp \<le> length ts"
  shows "hd ts + from_secs (\<Sum>i<length ts - bp_max_attempts bp. 60 * 2 ^ min i 10) \<le> last ts"
  using brute_force_aux [OF assms(1,2,3,4,5)] by (simp add: total_ban_def)

theorem brute_force_bound_witness:
  "checked_failures ''p'' [0, 1, from_secs 61, from_secs 181] example_patrol
   \<and> 0 + from_secs (60 + 120) \<le> from_secs 181"
proof -
  have c: "checked_failures ''p'' [0, 1, from_secs 61, from_secs 181] example_patrol"
    by (simp add: example_patrol_def patrole_ban_def penalize_def BAN_DURATION_def BAN_LEVELS_def
        from_secs_def Let_def)
  have "sorted [0, 1, from_secs 61, from_secs 181]" by (simp add: from_secs_def)
  with c show ?thesis
    using brute_force_bound [of example_patrol "''p''" "[0, 1, from_secs 61, from_secs 181]"]
    by (simp add: example_patrol_def numeral_2_eq_2)
qed

text \<open>peers are judged apart: whatever failures and successes other peers have, a peer's ban
  is what it was.\<close>

theorem peers_isolated:
  assumes "peer \<notin> ban_event_peer ` set evs"
  shows "patrole_ban peer now (foldl (ban_step clear_penalties penalize) bp evs) = patrole_ban peer now bp"
  using assms by (rule bans.isolation)

theorem peers_isolated_witness:
  "patrole_ban ''a'' 9 (foldl (ban_step clear_penalties penalize) example_patrol
     [Penalize ''b'' 1, Penalize ''b'' 2, Penalize ''b'' 3]) = Inr ()"
  using peers_isolated [of "''a''" "[Penalize ''b'' 1, Penalize ''b'' 2, Penalize ''b'' 3]" 9 example_patrol]
  by (simp add: example_patrol_def patrole_ban_def)

end
