(* ===== verification/Auth_Context.thy ===== *)
theory Auth_Context
  imports Ban_Patrol Host_Files
begin

text \<open>
  \<^verbatim>\<open>bmcd/src/authentication/authentication_context.rs\<close>, \<^verbatim>\<open>passwd_validator.rs\<close> and
  \<^verbatim>\<open>linux_authenticator.rs\<close>: the token store, the password cache and the two ways a request
  shows who it is. The crypt check (\<open>pwhash::unix::verify\<close>), the base64 decoder and the JSON
  reader of a login are parameters; a fresh token is an argument. An operation reads the
  clock once.
\<close>

section \<open>State\<close>

record auth_context =
  ax_tokens :: "string \<rightharpoonup> string \<times> instant"
  ax_passwds :: "string \<rightharpoonup> string"
  ax_expire_timeout :: duration
  ax_ban :: ban_patrol

datatype actor = Loopback | User string string

record session =
  se_id :: string
  se_name :: string
  se_description :: string
  se_username :: string

record login =
  lg_username :: string
  lg_password :: string

record crypto =
  cr_verify :: "string \<Rightarrow> string \<Rightarrow> bool"
  cr_base64 :: "string \<Rightarrow> (string, contents) result"
  cr_login :: "string \<Rightarrow> (string, login) result"

definition with_unix_validator :: "(string \<times> string) list \<Rightarrow> duration \<Rightarrow> nat \<Rightarrow> auth_context option" where
  "with_unix_validator entries timeout attempts =
     map_option (\<lambda>bp. \<lparr>ax_tokens = Map.empty, ax_passwds = map_of (rev entries),
        ax_expire_timeout = timeout, ax_ban = bp\<rparr>) (ban_patrol_new attempts)"

definition reload_password_cache :: "(string \<times> string) list \<Rightarrow> auth_context \<Rightarrow> auth_context" where
  "reload_password_cache entries ax = ax\<lparr>ax_passwds := map_of (rev entries)\<rparr>"

definition unix_validate :: "crypto \<Rightarrow> string \<Rightarrow> string \<Rightarrow> (auth_error, unit) result" where
  "unix_validate C h password =
     (if \<not> cr_verify C password h then Inl IncorrectCredentials else Inr ())"

section \<open>Tokens\<close>

definition new_and_remove_expired_tokens :: "string \<Rightarrow> string \<Rightarrow> instant \<Rightarrow> auth_context \<Rightarrow> auth_context" where
  "new_and_remove_expired_tokens key username now ax =
     ax\<lparr>ax_tokens :=
        ((\<lambda>k. case ax_tokens ax k of
                None \<Rightarrow> None
              | Some (u, seen) \<Rightarrow> if now - seen \<le> ax_expire_timeout ax then Some (u, seen) else None))
        (key \<mapsto> (username, now))\<rparr>"

text \<open>\<open>penalize(peer).err().unwrap_or(error)\<close>.\<close>

definition penalized :: "string \<Rightarrow> instant \<Rightarrow> auth_error \<Rightarrow> auth_context \<Rightarrow> auth_error \<times> auth_context" where
  "penalized peer now e ax =
     (case penalize peer now (ax_ban ax) of
        (Inl ban, bp) \<Rightarrow> (ban, ax\<lparr>ax_ban := bp\<rparr>)
      | (Inr _, bp) \<Rightarrow> (e, ax\<lparr>ax_ban := bp\<rparr>))"

definition authorize_bearer :: "string \<Rightarrow> string \<Rightarrow> instant \<Rightarrow> auth_context
    \<Rightarrow> (auth_error, string) result \<times> auth_context" where
  "authorize_bearer peer token now ax =
     (case patrole_ban peer now (ax_ban ax) of
        Inl e \<Rightarrow> (Inl e, ax)
      | Inr _ \<Rightarrow>
          (case ax_tokens ax token of
             None \<Rightarrow> (case penalized peer now (NoMatch token) ax of (e, ax) \<Rightarrow> (Inl e, ax))
           | Some (username, seen) \<Rightarrow>
               if now - seen < ax_expire_timeout ax
               then (Inr username,
                     ax\<lparr>ax_tokens := (ax_tokens ax)(token \<mapsto> (username, now)),
                        ax_ban := clear_penalties peer (ax_ban ax)\<rparr>)
               else (Inl (TokenExpired seen), ax\<lparr>ax_tokens := (ax_tokens ax)(token := None)\<rparr>)))"

section \<open>Passwords\<close>

definition validate_credentials :: "crypto \<Rightarrow> string \<Rightarrow> string \<Rightarrow> string \<Rightarrow> instant \<Rightarrow> auth_context
    \<Rightarrow> (auth_error, unit) result \<times> auth_context" where
  "validate_credentials C peer username password now ax =
     (case patrole_ban peer now (ax_ban ax) of
        Inl e \<Rightarrow> (Inl e, ax)
      | Inr _ \<Rightarrow>
          (case (case ax_passwds ax username of
                   None \<Rightarrow> Inl IncorrectCredentials
                 | Some pass \<Rightarrow> unix_validate C pass password) of
             Inr _ \<Rightarrow> (Inr (), ax\<lparr>ax_ban := clear_penalties peer (ax_ban ax)\<rparr>)
           | Inl IncorrectCredentials \<Rightarrow>
               (case penalized peer now IncorrectCredentials ax of (e, ax) \<Rightarrow> (Inl e, ax))
           | Inl e \<Rightarrow> (Inl e, ax)))"

definition decode_basic :: "crypto \<Rightarrow> string \<Rightarrow> (auth_error, string \<times> string) result" where
  "decode_basic C credentials =
     (case cr_base64 C credentials of
        Inl m \<Rightarrow> Inl (ParseError m)
      | Inr (NotUtf8 _) \<Rightarrow> Inl (ParseError ''invalid utf-8 sequence'')
      | Inr (Utf8 s) \<Rightarrow>
          (case split_once CHR '':'' s of
             None \<Rightarrow> Inl (ParseError ''basic authentication formatted wrong'')
           | Some (user, pass) \<Rightarrow> Inr (user, pass)))"

definition authorize_basic :: "crypto \<Rightarrow> string \<Rightarrow> string \<Rightarrow> instant \<Rightarrow> auth_context
    \<Rightarrow> (auth_error, string) result \<times> auth_context" where
  "authorize_basic C peer credentials now ax =
     (case decode_basic C credentials of
        Inl e \<Rightarrow> (Inl e, ax)
      | Inr (user, pass) \<Rightarrow>
          (case validate_credentials C peer user pass now ax of
             (Inl e, ax) \<Rightarrow> (Inl e, ax)
           | (Inr _, ax) \<Rightarrow> (Inr user, ax)))"

section \<open>Requests\<close>

definition authorize_request :: "crypto \<Rightarrow> string \<Rightarrow> string \<Rightarrow> instant \<Rightarrow> auth_context
    \<Rightarrow> (schemed_auth_error, actor) result \<times> auth_context" where
  "authorize_request C peer line now ax =
     (case split_once CHR '' '' line of
        Some (auth, rest) \<Rightarrow>
          if auth = ''Bearer'' then
            (case authorize_bearer peer rest now ax of
               (Inl e, ax) \<Rightarrow> (Inl (into_bearer_error e), ax)
             | (Inr name, ax) \<Rightarrow> (Inr (User name ''bearer''), ax))
          else if auth = ''Basic'' then
            (case authorize_basic C peer rest now ax of
               (Inl e, ax) \<Rightarrow> (Inl (into_basic_error e), ax)
             | (Inr name, ax) \<Rightarrow> (Inr (User name ''basic''), ax))
          else (Inl (into_unknown_error (SchemeNotSupported auth)), ax)
      | None \<Rightarrow> (Inl (into_basic_error (HttpParseError line)), ax))"

definition authenticate_request :: "crypto \<Rightarrow> string \<Rightarrow> string \<Rightarrow> string \<Rightarrow> instant \<Rightarrow> auth_context
    \<Rightarrow> (auth_error, session) result \<times> auth_context" where
  "authenticate_request C peer body token now ax =
     (case cr_login C body of
        Inl m \<Rightarrow> (Inl (ParseError m), ax)
      | Inr l \<Rightarrow>
          (case validate_credentials C peer (lg_username l) (lg_password l) now ax of
             (Inl e, ax) \<Rightarrow> (Inl e, ax)
           | (Inr _, ax) \<Rightarrow>
               (Inr \<lparr>se_id = token, se_name = ''User Session'', se_description = ''User Session'',
                     se_username = lg_username l\<rparr>,
                new_and_remove_expired_tokens token (lg_username l) now ax)))"

section \<open>The shadow file\<close>

text \<open>\<open>read_line\<close> keeps the newline that ends a line.\<close>

fun lines_inclusive :: "string \<Rightarrow> string list" where
  "lines_inclusive [] = []"
| "lines_inclusive (c # cs) =
     (if c = newline then [c] # lines_inclusive cs
      else (case lines_inclusive cs of [] \<Rightarrow> [[c]] | l # ls \<Rightarrow> (c # l) # ls))"

text \<open>The first two fields of \<open>splitn(3, ':')\<close>.\<close>

definition shadow_fields :: "string \<Rightarrow> (string \<times> string) option" where
  "shadow_fields line =
     (case split_once CHR '':'' line of
        None \<Rightarrow> None
      | Some (user, rest) \<Rightarrow>
          Some (user, (case split_once CHR '':'' rest of None \<Rightarrow> rest | Some (pass, _) \<Rightarrow> pass)))"

fun parse_shadow_lines :: "string list \<Rightarrow> (string \<times> string) list" where
  "parse_shadow_lines [] = []"
| "parse_shadow_lines (l # ls) =
     (case shadow_fields l of
        None \<Rightarrow> []
      | Some (user, pass) \<Rightarrow>
          if \<not> starts_with ''*'' pass then (user, pass) # parse_shadow_lines ls
          else parse_shadow_lines ls)"

definition parse_shadow_file :: "fs \<Rightarrow> path \<Rightarrow> (io_error, (string \<times> string) list) result" where
  "parse_shadow_file fs p =
     (case fs_read_to_string fs p of
        Inl e \<Rightarrow> Inl e
      | Inr s \<Rightarrow> Inr (parse_shadow_lines (lines_inclusive s)))"

datatype shadow_event = DeleteSelf | OtherShadowEvent

definition on_shadow_event :: "fs \<Rightarrow> path \<Rightarrow> shadow_event \<Rightarrow> auth_context \<Rightarrow> auth_context" where
  "on_shadow_event fs p ev ax =
     (case ev of
        DeleteSelf \<Rightarrow> ax
      | OtherShadowEvent \<Rightarrow>
          (case parse_shadow_file fs p of
             Inl _ \<Rightarrow> ax
           | Inr entries \<Rightarrow> reload_password_cache entries ax))"

section \<open>Facts\<close>

lemmas context_defs [auth_simps] =
  authorize_bearer_def validate_credentials_def authorize_basic_def authorize_request_def
  authenticate_request_def penalized_def unix_validate_def

lemma validate_ok:
  "validate_credentials C peer u pw now ax = (Inr (), ax') \<longleftrightarrow>
     \<not> banned peer now (ax_ban ax) \<and> (\<exists>h. ax_passwds ax u = Some h \<and> cr_verify C pw h)
     \<and> ax' = ax\<lparr>ax_ban := clear_penalties peer (ax_ban ax)\<rparr>"
  by (auto simp: validate_credentials_def banned_def penalized_def unix_validate_def
      split: sum.splits option.splits prod.splits auth_error.splits if_splits)

lemma bearer_ok:
  "authorize_bearer peer tok now ax = (Inr u, ax') \<longleftrightarrow>
     \<not> banned peer now (ax_ban ax)
     \<and> (\<exists>seen. ax_tokens ax tok = Some (u, seen) \<and> now - seen < ax_expire_timeout ax)
     \<and> ax' = ax\<lparr>ax_tokens := (ax_tokens ax)(tok \<mapsto> (u, now)),
                ax_ban := clear_penalties peer (ax_ban ax)\<rparr>"
  by (auto simp: authorize_bearer_def banned_def penalized_def
      split: sum.splits option.splits prod.splits if_splits)

lemma basic_ok:
  "authorize_basic C peer cred now ax = (Inr u, ax') \<longleftrightarrow>
     (\<exists>pw. decode_basic C cred = Inr (u, pw) \<and> validate_credentials C peer u pw now ax = (Inr (), ax'))"
  by (auto simp: authorize_basic_def split: sum.splits prod.splits)

lemma decode_basic_ok:
  "decode_basic C cred = Inr (u, pw) \<longleftrightarrow>
     cr_base64 C cred = Inr (Utf8 (u @ CHR '':'' # pw)) \<and> CHR '':'' \<notin> set u"
  by (auto simp: decode_basic_def split_once_append split_once_None split: sum.splits contents.splits option.splits
      dest: split_once_SomeD)

lemma banned_patrole:
  "banned peer now bp \<Longrightarrow> \<exists>dl. patrole_ban peer now bp = Inl (ExceededAllowedAttempts dl)"
  by (auto simp: banned_def patrole_ban_def split: option.splits if_splits)

section \<open>Properties\<close>

text \<open>C33: a request is authorised only by a credential that is good at that moment, from a peer
  that is not banned: a token in the store used within the timeout, whose user it then acts
  as, or a user and password that decode from the header and pass the crypt check against the
  cached entry. A success clears the peer's failures.\<close>

theorem authorize_sound:
  assumes "authorize_request C peer line now ax = (Inr actor, ax')"
  shows "\<not> banned peer now (ax_ban ax) \<and> bp_penalties (ax_ban ax') peer = None
    \<and> ((\<exists>tok u seen. line = ''Bearer '' @ tok \<and> actor = User u ''bearer''
          \<and> ax_tokens ax tok = Some (u, seen) \<and> now - seen < ax_expire_timeout ax)
       \<or> (\<exists>cred u pw h. line = ''Basic '' @ cred \<and> actor = User u ''basic''
          \<and> cr_base64 C cred = Inr (Utf8 (u @ CHR '':'' # pw))
          \<and> ax_passwds ax u = Some h \<and> cr_verify C pw h))"
proof -
  obtain auth rest where s: "split_once CHR '' '' line = Some (auth, rest)"
    using assms by (auto simp: authorize_request_def split: option.splits)
  then have line: "line = auth @ '' '' @ rest" by (simp add: split_once_Some)
  consider (bearer) u where "auth = ''Bearer''" "actor = User u ''bearer''"
      "authorize_bearer peer rest now ax = (Inr u, ax')"
    | (basic) u where "auth = ''Basic''" "actor = User u ''basic''"
      "authorize_basic C peer rest now ax = (Inr u, ax')"
    using assms s by (auto simp: authorize_request_def split: if_splits sum.splits prod.splits)
  then show ?thesis
  proof cases
    case bearer
    then show ?thesis using line by (auto simp: bearer_ok clear_penalties_def)
  next
    case basic
    then show ?thesis
      using line by (auto simp: basic_ok validate_ok decode_basic_ok clear_penalties_def)
  qed
qed

definition example_crypto :: crypto where
  "example_crypto = \<lparr>cr_verify = (\<lambda>pw h. h = ''x'' @ pw), cr_base64 = (\<lambda>s. Inr (Utf8 s)),
     cr_login = (\<lambda>b. case split_once CHR '':'' b of
        None \<Rightarrow> Inl ''no'' | Some (u, p) \<Rightarrow> Inr \<lparr>lg_username = u, lg_password = p\<rparr>)\<rparr>"

definition example_context :: auth_context where
  "example_context = \<lparr>ax_tokens = [''k'' \<mapsto> (''root'', 5)], ax_passwds = [''root'' \<mapsto> ''xsecret''],
     ax_expire_timeout = 100, ax_ban = example_patrol\<rparr>"

lemma example_not_banned [simp]: "patrole_ban p t example_patrol = Inr ()" "\<not> banned p t example_patrol"
  by (simp_all add: banned_def patrole_ban_def example_patrol_def)

lemma example_clear [simp]: "clear_penalties p example_patrol = example_patrol"
  by (simp add: clear_penalties_def example_patrol_def fun_upd_idem)

theorem authorize_sound_witness:
  "\<exists>ax'. authorize_request example_crypto ''p'' ''Bearer k'' 50 example_context
     = (Inr (User ''root'' ''bearer''), ax') \<and> bp_penalties (ax_ban ax') ''p'' = None"
proof -
  obtain ax' where a: "authorize_request example_crypto ''p'' ''Bearer k'' 50 example_context
     = (Inr (User ''root'' ''bearer''), ax')"
    by (simp add: authorize_request_def authorize_bearer_def example_context_def)
  then show ?thesis using authorize_sound [OF a] by blast
qed

text \<open>while a peer is banned no secret is looked at: neither the request's result nor the
  login's depends on the token store, the passwords or the crypt check, neither succeeds, and
  neither changes anything.\<close>

theorem banned_blind:
  assumes "banned peer now (ax_ban ax)" and "ax_ban ax2 = ax_ban ax"
    and "cr_base64 C2 = cr_base64 C" and "cr_login C2 = cr_login C"
  shows "fst (authorize_request C peer line now ax) = fst (authorize_request C2 peer line now ax2)
    \<and> \<not> is_ok (fst (authorize_request C peer line now ax))
    \<and> snd (authorize_request C peer line now ax) = ax
    \<and> fst (authenticate_request C peer body token now ax)
      = fst (authenticate_request C2 peer body token now ax2)
    \<and> \<not> is_ok (fst (authenticate_request C peer body token now ax))
    \<and> snd (authenticate_request C peer body token now ax) = ax"
proof -
  obtain dl where dl: "patrole_ban peer now (ax_ban ax) = Inl (ExceededAllowedAttempts dl)"
    using banned_patrole [OF assms(1)] by blast
  have "decode_basic C2 = decode_basic C" using assms(3) by (auto simp: decode_basic_def fun_eq_iff)
  with dl assms show ?thesis
    by (auto simp: authorize_request_def authorize_bearer_def authorize_basic_def
        validate_credentials_def authenticate_request_def split: option.split sum.split)
qed

definition banned_context :: auth_context where
  "banned_context = example_context\<lparr>ax_ban := example_patrol\<lparr>bp_penalties := [''p'' \<mapsto> (2, 60)]\<rparr>\<rparr>"

theorem banned_blind_witness:
  "banned ''p'' 50 (ax_ban banned_context)
   \<and> \<not> is_ok (fst (authorize_request example_crypto ''p'' ''Bearer k'' 50 banned_context))"
proof -
  have b: "banned ''p'' 50 (ax_ban banned_context)"
    by (simp add: banned_def patrole_ban_def banned_context_def)
  then show ?thesis using banned_blind [OF b refl refl refl] by blast
qed

text \<open>a wrong token or a wrong password from a peer that is not banned counts as exactly one
  failed attempt, at that moment, and as nothing else: the store and the cache are as they
  were. The answer is the ban itself once the limit is reached.\<close>

theorem wrong_credential_counts:
  assumes "\<not> banned peer now (ax_ban ax)"
    and "ax_tokens ax token = None"
    and "\<And>h. ax_passwds ax user = Some h \<Longrightarrow> \<not> cr_verify C password h"
  shows "snd (authorize_bearer peer token now ax)
      = ax\<lparr>ax_ban := snd (penalize peer now (ax_ban ax))\<rparr>
    \<and> snd (validate_credentials C peer user password now ax)
      = ax\<lparr>ax_ban := snd (penalize peer now (ax_ban ax))\<rparr>
    \<and> attempts_of peer (snd (penalize peer now (ax_ban ax))) = Suc (attempts_of peer (ax_ban ax))
    \<and> fst (validate_credentials C peer user password now ax)
      = Inl (if bp_max_attempts (ax_ban ax) \<le> Suc (attempts_of peer (ax_ban ax))
             then ExceededAllowedAttempts
               (now + ladder (bp_max_attempts (ax_ban ax)) (Suc (attempts_of peer (ax_ban ax))))
             else IncorrectCredentials)"
proof -
  have ok: "patrole_ban peer now (ax_ban ax) = Inr ()"
    using assms(1) by (auto simp: banned_def is_ok_def split: sum.splits)
  have wrong: "(case ax_passwds ax user of None \<Rightarrow> Inl IncorrectCredentials
      | Some pass \<Rightarrow> unix_validate C pass password) = Inl IncorrectCredentials"
    using assms(3) by (auto simp: unix_validate_def split: option.split)
  have p: "fst (penalize peer now (ax_ban ax)) =
      (if bp_max_attempts (ax_ban ax) \<le> Suc (attempts_of peer (ax_ban ax))
       then Inl (ExceededAllowedAttempts
         (now + ladder (bp_max_attempts (ax_ban ax)) (Suc (attempts_of peer (ax_ban ax)))))
       else Inr ())"
    using penalize_deadline(2) [of "ax_ban ax" peer now] penalize_below [of peer "ax_ban ax" now] by simp
  have pen: "penalized peer now e ax = (case fst (penalize peer now (ax_ban ax)) of Inl b \<Rightarrow> b | Inr _ \<Rightarrow> e,
      ax\<lparr>ax_ban := snd (penalize peer now (ax_ban ax))\<rparr>)" for e
    by (simp add: penalized_def split: prod.splits sum.splits)
  show ?thesis
    by (simp add: authorize_bearer_def validate_credentials_def ok wrong assms(2) pen p penalize_attempts)
qed

theorem wrong_credential_counts_witness:
  "attempts_of ''p'' (ax_ban (snd (authorize_bearer ''p'' ''bad'' 50 example_context))) = 1
   \<and> attempts_of ''p'' (ax_ban (snd (validate_credentials example_crypto ''p'' ''root'' ''no'' 50 example_context))) = 1"
proof -
  have "\<not> banned ''p'' 50 (ax_ban example_context)" "ax_tokens example_context ''bad'' = None"
    "attempts_of ''p'' (ax_ban example_context) = 0"
    and "\<And>h. ax_passwds example_context ''root'' = Some h \<Longrightarrow> \<not> cr_verify example_crypto ''no'' h"
    by (simp_all add: example_context_def example_crypto_def attempts_of_def example_patrol_def
        banned_def patrole_ban_def)
  then show ?thesis
    using wrong_credential_counts [of "''p''" 50 example_context "''bad''" "''root''" example_crypto "''no''"]
    by simp
qed

text \<open>the life of a session: a login that succeeds stores its token for that user, and from
  then on the token is good for as long as it is used within the timeout: used in time it is
  accepted and good for another full timeout, used too late it is refused and removed.\<close>

theorem session_life:
  assumes "authenticate_request C peer body token t0 ax = (Inr s, ax1)"
    and "\<not> banned peer2 t1 (ax_ban ax1)"
  shows "se_id s = token \<and> ax_tokens ax1 token = Some (se_username s, t0)
    \<and> (\<exists>h pw. ax_passwds ax (se_username s) = Some h \<and> cr_verify C pw h)
    \<and> (if t1 - t0 < ax_expire_timeout ax
       then \<exists>ax2. authorize_bearer peer2 token t1 ax1 = (Inr (se_username s), ax2)
              \<and> ax_tokens ax2 token = Some (se_username s, t1)
       else \<exists>ax2. authorize_bearer peer2 token t1 ax1 = (Inl (TokenExpired t0), ax2)
              \<and> ax_tokens ax2 token = None)"
proof -
  obtain l axv where l: "cr_login C body = Inr l"
    and v: "validate_credentials C peer (lg_username l) (lg_password l) t0 ax = (Inr (), axv)"
    and s: "s = \<lparr>se_id = token, se_name = ''User Session'', se_description = ''User Session'',
        se_username = lg_username l\<rparr>"
    and ax1: "ax1 = new_and_remove_expired_tokens token (lg_username l) t0 axv"
    using assms(1) by (auto simp: authenticate_request_def split: sum.splits prod.splits)
  have t: "ax_tokens ax1 token = Some (lg_username l, t0)" "ax_expire_timeout ax1 = ax_expire_timeout ax"
    using v by (auto simp: ax1 new_and_remove_expired_tokens_def validate_ok)
  have ok: "patrole_ban peer2 t1 (ax_ban ax1) = Inr ()"
    using assms(2) by (auto simp: banned_def is_ok_def split: sum.splits)
  show ?thesis
    using t ok v by (auto simp: s authorize_bearer_def validate_ok)
qed

theorem session_life_witness:
  "\<exists>s ax1 ax2. authenticate_request example_crypto ''p'' ''root:secret'' ''tok'' 10 example_context
       = (Inr s, ax1)
     \<and> authorize_bearer ''q'' ''tok'' 60 ax1 = (Inr ''root'', ax2)"
proof -
  obtain s ax1 where a: "authenticate_request example_crypto ''p'' ''root:secret'' ''tok'' 10
      example_context = (Inr s, ax1)" and u: "se_username s = ''root''" and b: "ax_ban ax1 = example_patrol"
    by (simp add: authenticate_request_def validate_credentials_def unix_validate_def
        example_context_def example_crypto_def new_and_remove_expired_tokens_def)
  have "\<not> banned ''q'' 60 (ax_ban ax1)" using b by simp
  from session_life [OF a this] a u show ?thesis
    by (auto simp: example_context_def)
qed

end
