(* ===== verification/Auth_Service.thy ===== *)
theory Auth_Service
  imports Auth_Context
begin

text \<open>
  \<^verbatim>\<open>bmcd/src/authentication/websocket_subprotocol.rs\<close>, \<^verbatim>\<open>factory_password.rs\<close>,
  \<^verbatim>\<open>verified_proxy.rs\<close> and \<^verbatim>\<open>authentication_service.rs\<close>: which credential a request offers,
  the gate of a board on its factory password, and the middleware every request passes. A
  request is what the handlers read of it; a header's value is its text, or marked as not
  readable as text. What the middleware does with a request is a value: forward it with an
  actor, or one of its own answers.
\<close>

section \<open>Requests\<close>

datatype ip_addr = V4 ipv4 | V6 "128 word"

definition to_canonical :: "ip_addr \<Rightarrow> ip_addr" where
  "to_canonical ip =
     (case ip of
        V4 a \<Rightarrow> V4 a
      | V6 a \<Rightarrow> if unat a div 2 ^ 32 = 65535 then V4 (word_of_nat (unat a)) else V6 a)"

definition is_loopback :: "ip_addr \<Rightarrow> bool" where
  "is_loopback ip = (case ip of V4 a \<Rightarrow> ipv4_is_loopback a | V6 a \<Rightarrow> a = 1)"

datatype header_value = Text string | NotText

fun to_str :: "header_value \<Rightarrow> string option" where
  "to_str (Text s) = Some s"
| "to_str NotText = None"

record verified_proxy =
  vp_subject :: string

record http_request =
  rq_verb :: string
  rq_path :: string
  rq_headers :: "(string \<times> header_value) list"
  rq_upgrade :: bool
  rq_peer_ip :: "ip_addr option"
  rq_peer :: string
  rq_proxy :: "verified_proxy option"
  rq_body :: string

definition get_header :: "http_request \<Rightarrow> string \<Rightarrow> header_value option" where
  "get_header rq name = map_of (rq_headers rq) name"

definition get_all_headers :: "http_request \<Rightarrow> string \<Rightarrow> header_value list" where
  "get_all_headers rq name = map snd (filter (\<lambda>(n, _). n = name) (rq_headers rq))"

section \<open>The websocket subprotocol\<close>

definition BEARER_PROTOCOL_PREFIX :: string where
  "BEARER_PROTOCOL_PREFIX = ''bmcd.bearer.''"

definition header_contains :: "http_request \<Rightarrow> string \<Rightarrow> string \<Rightarrow> bool" where
  "header_contains rq name needle =
     (case Option.bind (get_header rq name) to_str of
        None \<Rightarrow> False
      | Some v \<Rightarrow> list_ex (\<lambda>t. eq_ignore_ascii_case (trim t) needle) (split_on CHR '','' v))"

definition is_websocket_handshake :: "http_request \<Rightarrow> bool" where
  "is_websocket_handshake rq =
     (rq_verb rq = ''GET'' \<and> rq_upgrade rq
      \<and> header_contains rq ''upgrade'' ''websocket''
      \<and> Option.bind (get_header rq ''sec-websocket-version'') to_str
          \<in> {Some ''13'', Some ''8'', Some ''7''}
      \<and> get_header rq ''sec-websocket-key'' \<noteq> None)"

definition offered_protocols :: "http_request \<Rightarrow> string list" where
  "offered_protocols rq =
     filter (\<lambda>p. p \<noteq> []) (map trim (concat (map (split_on CHR '','')
       (filter_map to_str (get_all_headers rq ''sec-websocket-protocol'')))))"

definition bearer_token :: "http_request \<Rightarrow> string option" where
  "bearer_token rq =
     (case find_map (strip_prefix BEARER_PROTOCOL_PREFIX) (offered_protocols rq) of
        None \<Rightarrow> None
      | Some token \<Rightarrow> if token \<noteq> [] then Some token else None)"

definition selected_protocol :: "http_request \<Rightarrow> string option" where
  "selected_protocol rq =
     List.find (\<lambda>p. \<not> starts_with BEARER_PROTOCOL_PREFIX p) (offered_protocols rq)"

text \<open>The response's headers as name and value; the conversion to a header value is a
  parameter that may refuse.\<close>

definition echo_selected_protocol :: "(string \<Rightarrow> bool) \<Rightarrow> http_request
    \<Rightarrow> (string \<times> string) list \<Rightarrow> (string \<times> string) list" where
  "echo_selected_protocol header_safe rq hs =
     (case selected_protocol rq of
        None \<Rightarrow> hs
      | Some p \<Rightarrow>
          if header_safe p
          then (''sec-websocket-protocol'', p) # filter (\<lambda>(n, _). n \<noteq> ''sec-websocket-protocol'') hs
          else hs)"

section \<open>The factory password\<close>

definition FACTORY_ACCOUNT :: string where "FACTORY_ACCOUNT = ''root''"
definition FACTORY_PASSWORD :: string where "FACTORY_PASSWORD = ''turing''"
definition SHADOW_FILE :: path where "SHADOW_FILE = (''/etc'', ''shadow'')"

definition is_permitted :: "string \<Rightarrow> string \<Rightarrow> bool" where
  "is_permitted verb p =
     (if p \<in> {''/api/bmc/authenticate'', ''/api/bmc/access/password'', ''/api/bmc/access''} then True
      else if p = ''/api/bmc/storage'' then verb = ''GET''
      else if p = ''/api/bmc/storage/repair'' then verb = ''POST''
      else False)"

type_synonym factory_cache = "(instant \<times> bool) option"

fun factory_line :: "(string \<Rightarrow> string \<Rightarrow> bool) \<Rightarrow> string list \<Rightarrow> bool" where
  "factory_line verify [] = False"
| "factory_line verify (line # rest) =
     (case split_on CHR '':'' line of
        [] \<Rightarrow> factory_line verify rest
      | account # others \<Rightarrow>
          if account \<noteq> FACTORY_ACCOUNT then factory_line verify rest
          else (case others of
                  [] \<Rightarrow> False
                | h # _ \<Rightarrow>
                    if h = [] \<or> starts_with ''*'' h \<or> starts_with ''!'' h then False
                    else verify FACTORY_PASSWORD h))"

definition factory_read :: "(string \<Rightarrow> string \<Rightarrow> bool) \<Rightarrow> fs \<Rightarrow> path \<Rightarrow> bool" where
  "factory_read verify fs p =
     (case fs_read_to_string fs p of Inl _ \<Rightarrow> False | Inr s \<Rightarrow> factory_line verify (lines s))"

definition still_set :: "(string \<Rightarrow> string \<Rightarrow> bool) \<Rightarrow> fs \<Rightarrow> path \<Rightarrow> factory_cache \<Rightarrow> bool \<times> factory_cache" where
  "still_set verify fs p cached =
     (let stamp = map_option fst (fs_metadata fs p)
      in case (cached, stamp) of
           (Some (when, answer), Some now) \<Rightarrow>
             if when = now then (answer, cached)
             else (let answer = factory_read verify fs p in (answer, Some (now, answer)))
         | (None, Some now) \<Rightarrow>
             (let answer = factory_read verify fs p in (answer, Some (now, answer)))
         | (_, None) \<Rightarrow> (factory_read verify fs p, cached))"

definition permits :: "(string \<Rightarrow> string \<Rightarrow> bool) \<Rightarrow> fs \<Rightarrow> path \<Rightarrow> string \<Rightarrow> string
    \<Rightarrow> factory_cache \<Rightarrow> bool \<times> factory_cache" where
  "permits verify fs p verb uri cached =
     (if is_permitted verb uri then (True, cached)
      else (case still_set verify fs p cached of (s, cached) \<Rightarrow> (\<not> s, cached)))"

section \<open>The middleware\<close>

definition decide_proxied_identity :: "verified_proxy option \<Rightarrow> string option \<Rightarrow> (string \<times> string) option" where
  "decide_proxied_identity proxy claimed =
     (case proxy of
        None \<Rightarrow> None
      | Some p \<Rightarrow>
          (case claimed of
             None \<Rightarrow> None
           | Some c \<Rightarrow> if trim c \<noteq> [] then Some (trim c, vp_subject p) else None))"

definition proxied_identity :: "http_request \<Rightarrow> string \<Rightarrow> (string \<times> string) option" where
  "proxied_identity rq header =
     decide_proxied_identity (rq_proxy rq) (Option.bind (get_header rq header) to_str)"

definition parse_authorization_header :: "http_request \<Rightarrow> (auth_error, string) result" where
  "parse_authorization_header rq =
     (case get_header rq ''authorization'' of
        None \<Rightarrow> Inl Empty
      | Some v \<Rightarrow>
          (case to_str v of
             None \<Rightarrow> Inl (HttpParseError ''failed to convert header to a str'')
           | Some s \<Rightarrow> Inr s))"

definition credential_line :: "http_request \<Rightarrow> (auth_error, string) result" where
  "credential_line rq =
     (case parse_authorization_header rq of
        Inr line \<Rightarrow> Inr line
      | Inl Empty \<Rightarrow>
          if is_websocket_handshake rq
          then (case bearer_token rq of
                  Some token \<Rightarrow> Inr (''Bearer '' @ token)
                | None \<Rightarrow> Inl Empty)
          else Inl Empty
      | Inl e \<Rightarrow> Inl e)"

datatype outcome =
    Forward actor
  | FactoryRefused
  | TooManyRequests nat
  | Unauthorized schemed_auth_error
  | LoginForbidden auth_error
  | LoggedIn session

record auth_service =
  sv_context :: auth_context
  sv_factory :: factory_cache

record auth_config =
  cfg_crypto :: crypto
  cfg_auth_path :: string
  cfg_identity_header :: string
  cfg_shadow :: path

definition authentication_request :: "auth_config \<Rightarrow> http_request \<Rightarrow> string \<Rightarrow> instant \<Rightarrow> auth_service
    \<Rightarrow> outcome \<times> auth_service" where
  "authentication_request cfg rq token now sv =
     (case authenticate_request (cfg_crypto cfg) (rq_peer rq) (rq_body rq) token now (sv_context sv) of
        (Inr session, ax) \<Rightarrow> (LoggedIn session, sv\<lparr>sv_context := ax\<rparr>)
      | (Inl e, ax) \<Rightarrow>
          (case retry_after now e of
             Some seconds \<Rightarrow> (TooManyRequests seconds, sv\<lparr>sv_context := ax\<rparr>)
           | None \<Rightarrow> (LoginForbidden e, sv\<lparr>sv_context := ax\<rparr>)))"

definition factory_permits :: "auth_config \<Rightarrow> fs \<Rightarrow> http_request \<Rightarrow> auth_service \<Rightarrow> bool \<times> auth_service" where
  "factory_permits cfg fs rq sv =
     (case permits (cr_verify (cfg_crypto cfg)) fs (cfg_shadow cfg) (rq_verb rq) (rq_path rq) (sv_factory sv) of
        (ok, cache) \<Rightarrow> (ok, sv\<lparr>sv_factory := cache\<rparr>))"

definition forward_if_permitted :: "auth_config \<Rightarrow> fs \<Rightarrow> http_request \<Rightarrow> actor \<Rightarrow> auth_service
    \<Rightarrow> outcome \<times> auth_service" where
  "forward_if_permitted cfg fs rq a sv =
     (case factory_permits cfg fs rq sv of
        (ok, sv) \<Rightarrow> (if ok then Forward a else FactoryRefused, sv))"

definition from_loopback :: "http_request \<Rightarrow> bool" where
  "from_loopback rq = (case rq_peer_ip rq of None \<Rightarrow> False | Some ip \<Rightarrow> is_loopback (to_canonical ip))"

definition service_call :: "auth_config \<Rightarrow> fs \<Rightarrow> http_request \<Rightarrow> string \<Rightarrow> instant \<Rightarrow> auth_service
    \<Rightarrow> outcome \<times> auth_service" where
  "service_call cfg fs rq token now sv =
     (if from_loopback rq
      then (Forward Loopback, sv)
      else
        (case proxied_identity rq (cfg_identity_header cfg) of
           Some (name, subject) \<Rightarrow> forward_if_permitted cfg fs rq (User name ''mtls'') sv
         | None \<Rightarrow>
             if rq_path rq = cfg_auth_path cfg then authentication_request cfg rq token now sv
             else
               (case (case credential_line rq of
                        Inr line \<Rightarrow> authorize_request (cfg_crypto cfg) (rq_peer rq) line now (sv_context sv)
                      | Inl e \<Rightarrow> (Inl (into_basic_error e), sv_context sv)) of
                  (Inl e, ax) \<Rightarrow>
                    (case schemed_retry_after now e of
                       Some seconds \<Rightarrow> (TooManyRequests seconds, sv\<lparr>sv_context := ax\<rparr>)
                     | None \<Rightarrow> (Unauthorized e, sv\<lparr>sv_context := ax\<rparr>))
                | (Inr a, ax) \<Rightarrow> forward_if_permitted cfg fs rq a (sv\<lparr>sv_context := ax\<rparr>))))"

section \<open>Facts\<close>

lemma to_str_Some [simp]: "to_str v = Some s \<longleftrightarrow> v = Text s"
  by (cases v) auto

text \<open>The cache holds what the file says, as long as its stamp is the file's.\<close>

definition cache_coherent :: "(string \<Rightarrow> string \<Rightarrow> bool) \<Rightarrow> fs \<Rightarrow> path \<Rightarrow> factory_cache \<Rightarrow> bool" where
  "cache_coherent verify fs p cached =
     (case cached of
        None \<Rightarrow> True
      | Some (when, answer) \<Rightarrow>
          map_option fst (fs_metadata fs p) = Some when \<longrightarrow> answer = factory_read verify fs p)"

lemma still_set_coherent:
  assumes "cache_coherent verify fs p cached"
  shows "fst (still_set verify fs p cached) = factory_read verify fs p"
    and "cache_coherent verify fs p (snd (still_set verify fs p cached))"
  using assms
  by (auto simp: still_set_def cache_coherent_def Let_def split: option.splits)

lemma permits_coherent:
  "cache_coherent verify fs p cached \<Longrightarrow>
     fst (permits verify fs p verb uri cached) \<longleftrightarrow> is_permitted verb uri \<or> \<not> factory_read verify fs p"
  using still_set_coherent(1) [of verify fs p cached] by (auto simp: permits_def split: prod.splits)

lemma forward_if_permitted_Forward:
  "forward_if_permitted cfg fs rq a sv = (Forward a', sv') \<Longrightarrow>
     a' = a \<and> fst (factory_permits cfg fs rq sv)"
  by (auto simp: forward_if_permitted_def split: prod.splits if_splits)

lemma factory_permits_fst:
  "fst (factory_permits cfg fs rq sv) =
     fst (permits (cr_verify (cfg_crypto cfg)) fs (cfg_shadow cfg) (rq_verb rq) (rq_path rq) (sv_factory sv))"
  by (simp add: factory_permits_def split: prod.splits)

lemma credential_line_ok:
  "credential_line rq = Inr line \<Longrightarrow>
     get_header rq ''authorization'' = Some (Text line)
     \<or> (get_header rq ''authorization'' = None \<and> is_websocket_handshake rq
        \<and> (\<exists>tok. tok \<noteq> [] \<and> line = ''Bearer '' @ tok
             \<and> BEARER_PROTOCOL_PREFIX @ tok \<in> set (offered_protocols rq)))"
  by (auto simp: credential_line_def parse_authorization_header_def bearer_token_def
      split: option.splits auth_error.splits sum.splits if_splits header_value.splits
      elim!: to_str.elims dest!: find_map_Some)

section \<open>Properties\<close>

text \<open>C1: a request reaches the interface behind the middleware in exactly three ways: from the
  board itself; through a connection with a verified client certificate whose identity header
  names somebody; or with a credential line that the context accepts at that moment. In the
  last two the factory gate has let it through as well, and it carries the actor that the
  credential names.\<close>

theorem forward_sound:
  assumes "service_call cfg fs rq token now sv = (Forward a, sv')"
    and "cache_coherent (cr_verify (cfg_crypto cfg)) fs (cfg_shadow cfg) (sv_factory sv)"
  shows "(a = Loopback \<and> from_loopback rq)
    \<or> ((is_permitted (rq_verb rq) (rq_path rq)
         \<or> \<not> factory_read (cr_verify (cfg_crypto cfg)) fs (cfg_shadow cfg))
       \<and> ((\<exists>proxy claimed. rq_proxy rq = Some proxy \<and> trim claimed \<noteq> []
             \<and> get_header rq (cfg_identity_header cfg) = Some (Text claimed)
             \<and> a = User (trim claimed) ''mtls'')
          \<or> (\<exists>line ax. credential_line rq = Inr line \<and> rq_path rq \<noteq> cfg_auth_path cfg
             \<and> authorize_request (cfg_crypto cfg) (rq_peer rq) line now (sv_context sv) = (Inr a, ax))))"
proof (cases "from_loopback rq")
  case True
  then show ?thesis using assms(1) by (auto simp: service_call_def)
next
  case False
  have gate: "is_permitted (rq_verb rq) (rq_path rq)
      \<or> \<not> factory_read (cr_verify (cfg_crypto cfg)) fs (cfg_shadow cfg)"
    if "fst (factory_permits cfg fs rq sv1)" "sv_factory sv1 = sv_factory sv" for sv1
    using that permits_coherent [OF assms(2)] by (simp add: factory_permits_fst)
  show ?thesis
  proof (cases "proxied_identity rq (cfg_identity_header cfg)")
    case (Some ns)
    then obtain name subject where ns: "ns = (name, subject)" by (cases ns)
    have f: "forward_if_permitted cfg fs rq (User name ''mtls'') sv = (Forward a, sv')"
      using assms(1) False Some ns by (auto simp: service_call_def split: option.splits)
    moreover have "\<exists>proxy claimed. rq_proxy rq = Some proxy \<and> trim claimed \<noteq> []
        \<and> get_header rq (cfg_identity_header cfg) = Some (Text claimed) \<and> name = trim claimed"
      using Some ns
      by (auto simp: proxied_identity_def decide_proxied_identity_def split: option.splits if_splits
          simp: bind_eq_Some_conv)
    ultimately show ?thesis
      using forward_if_permitted_Forward [OF f] gate by fastforce
  next
    case None
    then obtain line ax where l: "credential_line rq = Inr line" "rq_path rq \<noteq> cfg_auth_path cfg"
      and au: "authorize_request (cfg_crypto cfg) (rq_peer rq) line now (sv_context sv) = (Inr a, ax)"
      and f: "forward_if_permitted cfg fs rq a (sv\<lparr>sv_context := ax\<rparr>) = (Forward a, sv')"
      using assms(1) False forward_if_permitted_Forward
      by (fastforce simp: service_call_def authentication_request_def
          split: option.splits if_splits sum.splits prod.splits)
    then show ?thesis using forward_if_permitted_Forward [OF f] gate [of "sv\<lparr>sv_context := ax\<rparr>"] by auto
  qed
qed

definition example_request :: http_request where
  "example_request = \<lparr>rq_verb = ''GET'', rq_path = ''/api/bmc/power'',
     rq_headers = [(''authorization'', Text ''Bearer k'')], rq_upgrade = False,
     rq_peer_ip = Some (V4 (of_octets 10 0 0 9)), rq_peer = ''p'', rq_proxy = None, rq_body = []\<rparr>"

definition example_auth_config :: auth_config where
  "example_auth_config = \<lparr>cfg_crypto = example_crypto, cfg_auth_path = ''/api/bmc/authenticate'',
     cfg_identity_header = ''x-user'', cfg_shadow = SHADOW_FILE\<rparr>"

definition shadow_fs :: "string \<Rightarrow> fs" where
  "shadow_fs h = \<lparr>fs_names = [(SHADOW_FILE, 0)],
     fs_inodes = (\<lambda>_. \<lparr>in_contents = Utf8 (''root:'' @ h @ '':1'' @ [newline]), in_modified = 3\<rparr>),
     fs_next = 1, fs_time = 9, fs_unreadable = [], fs_faults = [], fs_closed_dirs = []\<rparr>"

definition example_service :: auth_service where
  "example_service = \<lparr>sv_context = example_context, sv_factory = None\<rparr>"

lemma example_not_loopback:
  "rq_peer_ip rq = Some (V4 (of_octets 10 0 0 9)) \<Longrightarrow> \<not> from_loopback rq"
  by (simp add: from_loopback_def is_loopback_def to_canonical_def ipv4_is_loopback_def octets_def
      of_octets_def)

lemma shadow_factory:
  "list_all (\<lambda>c. c \<noteq> CHR '':'' \<and> c \<noteq> newline) h \<Longrightarrow> h \<noteq> [] \<Longrightarrow> hd h \<notin> {CHR ''*'', CHR ''!''} \<Longrightarrow>
     factory_read verify (shadow_fs h) SHADOW_FILE = verify ''turing'' h"
proof -
  assume h: "list_all (\<lambda>c. c \<noteq> CHR '':'' \<and> c \<noteq> newline) h" "h \<noteq> []" "hd h \<notin> {CHR ''*'', CHR ''!''}"
  have "plain_line (''root:'' @ h @ '':1'')"
    using h(1) by (auto simp: plain_line_def list_all_iff newline_def)
  from lines_Cons [OF this, of "[]"] have l: "lines (''root:'' @ h @ '':1'' @ [newline]) = [''root:'' @ h @ '':1'']"
    by simp
  have "split_on CHR '':'' (h @ '':1'') = [h, ''1'']"
    using h(1) split_p_append [of "\<lambda>x. x = CHR '':''" h "CHR '':''" "''1''"]
    by (simp add: split_on_def list_all_iff)
  then have "split_on CHR '':'' (''root:'' @ h @ '':1'') = [''root'', h, ''1'']"
    by (simp add: split_on_def)
  moreover have "\<not> starts_with ''*'' h" "\<not> starts_with ''!'' h"
    using h(2,3) by (auto simp: starts_with_iff)
  ultimately show ?thesis
    using l h(2) by (simp add: factory_read_def fs_read_to_string_def fs_read_def fs_inode_def shadow_fs_def
        FACTORY_ACCOUNT_def FACTORY_PASSWORD_def)
qed

lemma example_coherent [simp]: "cache_coherent v fs p None"
  by (simp add: cache_coherent_def)

theorem forward_sound_witness:
  "\<exists>sv'. service_call example_auth_config (shadow_fs ''other'') example_request ''t'' 50 example_service
     = (Forward (User ''root'' ''bearer''), sv')
   \<and> \<not> from_loopback example_request"
proof -
  have nl: "\<not> from_loopback example_request"
    by (rule example_not_loopback) (simp add: example_request_def)
  have "\<not> factory_read (cr_verify example_crypto) (shadow_fs ''other'') SHADOW_FILE"
    by (subst shadow_factory) (simp_all add: newline_def example_crypto_def)
  then have "fst (permits (cr_verify example_crypto) (shadow_fs ''other'') SHADOW_FILE ''GET'' ''/api/bmc/power'' None)"
    using permits_coherent [of "cr_verify example_crypto" "shadow_fs ''other''" SHADOW_FILE None] by simp
  moreover have "proxied_identity example_request ''x-user'' = None"
    by (simp add: proxied_identity_def decide_proxied_identity_def example_request_def)
  moreover have "credential_line example_request = Inr ''Bearer k''"
    by (simp add: credential_line_def parse_authorization_header_def example_request_def get_header_def)
  moreover obtain ax where "authorize_request example_crypto ''p'' ''Bearer k'' 50 example_context
      = (Inr (User ''root'' ''bearer''), ax)"
    by (simp add: authorize_request_def authorize_bearer_def example_context_def)
  moreover have "rq_verb example_request = ''GET''" "rq_path example_request = ''/api/bmc/power''"
    "rq_peer example_request = ''p''" by (simp_all add: example_request_def)
  ultimately obtain sv' where c: "service_call example_auth_config (shadow_fs ''other'') example_request
      ''t'' 50 example_service = (Forward (User ''root'' ''bearer''), sv')"
    using nl
    by (simp add: service_call_def example_auth_config_def example_service_def
        forward_if_permitted_def factory_permits_def split_beta)
  with nl forward_sound [OF c] show ?thesis by (auto simp: example_service_def)
qed

text \<open>The requests a service answers, each with the store of files and the clock at its time.\<close>

type_synonym api_call = "fs \<times> http_request \<times> string \<times> instant"

fun service_run :: "auth_config \<Rightarrow> auth_service \<Rightarrow> api_call list \<Rightarrow> outcome list" where
  "service_run cfg sv [] = []"
| "service_run cfg sv ((fs, rq, token, now) # calls) =
     (case service_call cfg fs rq token now sv of (answer, sv') \<Rightarrow> answer # service_run cfg sv' calls)"

text \<open>The modification time of the shadow file tells its contents apart: where two of the stores show
  the same time, the file gives the same answer about the factory password.\<close>

definition stamps_tell :: "auth_config \<Rightarrow> fs set \<Rightarrow> bool" where
  "stamps_tell cfg stores =
     (\<forall>fs \<in> stores. \<forall>fs' \<in> stores. \<forall>when.
        map_option fst (fs_metadata fs (cfg_shadow cfg)) = Some when
        \<and> map_option fst (fs_metadata fs' (cfg_shadow cfg)) = Some when
        \<longrightarrow> factory_read (cr_verify (cfg_crypto cfg)) fs (cfg_shadow cfg)
          = factory_read (cr_verify (cfg_crypto cfg)) fs' (cfg_shadow cfg))"

definition read_from :: "auth_config \<Rightarrow> fs set \<Rightarrow> factory_cache \<Rightarrow> bool" where
  "read_from cfg stores cached =
     (\<forall>when answer. cached = Some (when, answer) \<longrightarrow>
        (\<exists>fs \<in> stores. map_option fst (fs_metadata fs (cfg_shadow cfg)) = Some when
           \<and> answer = factory_read (cr_verify (cfg_crypto cfg)) fs (cfg_shadow cfg)))"

lemma read_from_coherent:
  assumes "read_from cfg stores cached" and "stamps_tell cfg stores" and "fs \<in> stores"
  shows "cache_coherent (cr_verify (cfg_crypto cfg)) fs (cfg_shadow cfg) cached"
proof (cases cached)
  case (Some c)
  obtain stamp answer where c: "c = (stamp, answer)" by (cases c)
  obtain fs' where f: "fs' \<in> stores" "map_option fst (fs_metadata fs' (cfg_shadow cfg)) = Some stamp"
    "answer = factory_read (cr_verify (cfg_crypto cfg)) fs' (cfg_shadow cfg)"
    using assms(1) Some c unfolding read_from_def by blast
  have "answer = factory_read (cr_verify (cfg_crypto cfg)) fs (cfg_shadow cfg)"
    if "map_option fst (fs_metadata fs (cfg_shadow cfg)) = Some stamp"
    using assms(2,3) f that unfolding stamps_tell_def by blast
  then show ?thesis by (simp add: cache_coherent_def Some c)
qed (simp add: cache_coherent_def)

lemma forward_cache:
  "forward_if_permitted cfg fs rq a sv = (out, sv') \<Longrightarrow>
     sv_factory sv' = sv_factory sv
     \<or> sv_factory sv' = snd (still_set (cr_verify (cfg_crypto cfg)) fs (cfg_shadow cfg) (sv_factory sv))"
  by (auto simp: forward_if_permitted_def factory_permits_def permits_def split: prod.splits if_splits)

lemma authentication_cache:
  "authentication_request cfg rq token now sv = (out, sv') \<Longrightarrow> sv_factory sv' = sv_factory sv"
  by (auto simp: authentication_request_def split: prod.splits sum.splits option.splits)

lemma service_call_cache:
  assumes "service_call cfg fs rq token now sv = (out, sv')"
  shows "sv_factory sv' = sv_factory sv
    \<or> sv_factory sv' = snd (still_set (cr_verify (cfg_crypto cfg)) fs (cfg_shadow cfg) (sv_factory sv))"
  using assms unfolding service_call_def
  by (auto split: if_splits option.splits sum.splits prod.splits dest!: forward_cache authentication_cache)

lemma still_set_read_from:
  "read_from cfg stores cached \<Longrightarrow> fs \<in> stores
   \<Longrightarrow> read_from cfg stores (snd (still_set (cr_verify (cfg_crypto cfg)) fs (cfg_shadow cfg) cached))"
  by (auto simp: still_set_def read_from_def Let_def split: option.splits)

lemma service_call_read_from:
  "read_from cfg stores (sv_factory sv) \<Longrightarrow> fs \<in> stores
   \<Longrightarrow> read_from cfg stores (sv_factory (snd (service_call cfg fs rq token now sv)))"
  using service_call_cache [of cfg fs rq token now sv "fst (service_call cfg fs rq token now sv)"
      "snd (service_call cfg fs rq token now sv)"]
    still_set_read_from [of cfg stores "sv_factory sv" fs] by auto

lemma factory_call_refused:
  assumes "factory_read (cr_verify (cfg_crypto cfg)) fs (cfg_shadow cfg)"
    and "cache_coherent (cr_verify (cfg_crypto cfg)) fs (cfg_shadow cfg) (sv_factory sv)"
    and "\<not> from_loopback rq" and "\<not> is_permitted (rq_verb rq) (rq_path rq)"
  shows "fst (service_call cfg fs rq token now sv) \<noteq> Forward a"
proof -
  have no: "fst (forward_if_permitted cfg fs rq a sv1) = FactoryRefused" if "sv_factory sv1 = sv_factory sv" for a sv1
  proof -
    have "\<not> fst (factory_permits cfg fs rq sv1)"
      using permits_coherent [OF assms(2)] assms(1,4) that by (simp add: factory_permits_fst)
    then show ?thesis by (simp add: forward_if_permitted_def split_beta)
  qed
  show ?thesis
    using assms(3) no
    by (auto simp: service_call_def authentication_request_def
        split: option.splits sum.splits prod.splits if_splits)
qed

text \<open>C11: behind the middleware of \<open>/api/bmc\<close>, a board on its factory password does nothing for a
  request that comes over the network but let it log in, change the password, read the access
  card and use the two storage operations, whatever credential or certificate the request shows
  and whatever was asked before: from the start of the service on, no other request gets
  through while the shadow file holds that password. The answers are remembered under the
  modification time of the file, which therefore has to tell its contents apart. The metrics
  listener and the static files of the interface are not behind this middleware.\<close>

theorem factory_gate:
  assumes "sv_factory sv = None" and "stamps_tell cfg (fst ` set calls)"
    and "i < length calls" and "calls ! i = (fs, rq, token, now)"
    and "factory_read (cr_verify (cfg_crypto cfg)) fs (cfg_shadow cfg)"
    and "\<not> from_loopback rq" and "\<not> is_permitted (rq_verb rq) (rq_path rq)"
  shows "length (service_run cfg sv calls) = length calls \<and> (\<forall>a. service_run cfg sv calls ! i \<noteq> Forward a)"
proof -
  have len: "length (service_run cfg sv1 cs) = length cs" for sv1 cs
    by (induction cfg sv1 cs rule: service_run.induct) (auto split: prod.split)
  have "service_run cfg sv1 cs ! j \<noteq> Forward a"
    if "read_from cfg (fst ` set calls) (sv_factory sv1)" "fst ` set cs \<subseteq> fst ` set calls" "j < length cs"
      "cs ! j = (fs, rq, token, now)" for sv1 cs j a
    using that
  proof (induction cs arbitrary: sv1 j)
    case (Cons c cs)
    obtain fs1 rq1 token1 now1 where c: "c = (fs1, rq1, token1, now1)" by (cases c) auto
    then have "fs1 \<in> fst ` set calls" using Cons.prems(2) by auto
    note k = service_call_read_from [OF Cons.prems(1) this] read_from_coherent [OF Cons.prems(1) assms(2) this]
    show ?case
    proof (cases j)
      case 0
      with Cons.prems(4) c have "fs1 = fs" "rq1 = rq" "token1 = token" "now1 = now" by simp_all
      with factory_call_refused [OF assms(5) _ assms(6,7)] k(2) 0 c show ?thesis by (simp add: split_beta)
    next
      case (Suc n)
      with Cons.IH [OF k(1), of n] Cons.prems c show ?thesis by (simp add: split_beta)
    qed
  qed simp
  moreover have "read_from cfg (fst ` set calls) (sv_factory sv)" using assms(1) by (simp add: read_from_def)
  ultimately show ?thesis using assms(3,4) len by blast
qed

theorem factory_gate_witness:
  "factory_read (cr_verify example_crypto) (shadow_fs ''xturing'') SHADOW_FILE
   \<and> (\<forall>a. service_run example_auth_config example_service
        [(shadow_fs ''xturing'', example_request, ''t'', 50), (shadow_fs ''xturing'', example_request, ''u'', 60)] ! 1 \<noteq> Forward a)"
proof -
  let ?calls = "[(shadow_fs ''xturing'', example_request, ''t'', 50), (shadow_fs ''xturing'', example_request, ''u'', 60)]"
  have f: "factory_read (cr_verify example_crypto) (shadow_fs ''xturing'') SHADOW_FILE"
    by (subst shadow_factory) (simp_all add: newline_def example_crypto_def)
  have nl: "\<not> from_loopback example_request"
    by (rule example_not_loopback) (simp add: example_request_def)
  have np: "\<not> is_permitted (rq_verb example_request) (rq_path example_request)"
    by (simp add: is_permitted_def example_request_def)
  have st: "stamps_tell example_auth_config (fst ` set ?calls)" by (simp add: stamps_tell_def)
  have fr: "factory_read (cr_verify (cfg_crypto example_auth_config)) (shadow_fs ''xturing'') (cfg_shadow example_auth_config)"
    using f by (simp add: example_auth_config_def)
  have "sv_factory example_service = None" by (simp add: example_service_def)
  from factory_gate [OF this st, of 1, OF _ _ fr nl np, of "''u''" 60] f show ?thesis by simp
qed

lemma ban_seconds_bounds:
  assumes "now < deadline"
  shows "deadline \<le> now + from_secs (ban_seconds_remaining now deadline)"
    and "now + from_secs (ban_seconds_remaining now deadline - 1) < deadline"
proof -
  define r where "r = deadline - now"
  have r: "0 < r" "deadline = now + r" using assms by (auto simp: r_def)
  define q m where "q = as_secs r" and "m = subsec_nanos r"
  have "r = 1000000000 * q + m" "m < 1000000000"
    by (simp_all add: q_def m_def as_secs_def subsec_nanos_def)
  then have "r \<le> from_secs (max (q + (if m \<noteq> 0 then 1 else 0)) 1)"
    and "from_secs (max (q + (if m \<noteq> 0 then 1 else 0)) 1 - 1) < r"
    using r(1) by (auto simp: from_secs_def max_def)
  then show "deadline \<le> now + from_secs (ban_seconds_remaining now deadline)"
    and "now + from_secs (ban_seconds_remaining now deadline - 1) < deadline"
    using r by (simp_all add: ban_seconds_remaining_def Let_def q_def m_def)
qed

text \<open>C20: a banned peer learns nothing about its guesses. While its ban lasts, over the network and without
  the identity of a verified proxy, a request that shows any bearer token, any basic credential
  that decodes, or posts any well-formed login gets the same answer whatever the secret is: 429
  with the seconds to wait, the time left rounded up to whole seconds and at least one, and the
  service is left as it was.\<close>

theorem banned_answer:
  assumes "bp_penalties (ax_ban (sv_context sv)) (rq_peer rq) = Some (n, deadline)" and "now < deadline"
    and "\<not> from_loopback rq" and "proxied_identity rq (cfg_identity_header cfg) = None"
    and "if rq_path rq = cfg_auth_path cfg then is_ok (cr_login (cfg_crypto cfg) (rq_body rq))
         else \<exists>tok. credential_line rq = Inr (''Bearer '' @ tok)
                \<or> (credential_line rq = Inr (''Basic '' @ tok) \<and> is_ok (decode_basic (cfg_crypto cfg) tok))"
  shows "\<exists>secs. service_call cfg fs rq token now sv = (TooManyRequests secs, sv)
    \<and> 1 \<le> secs \<and> deadline \<le> now + from_secs secs \<and> now + from_secs (secs - 1) < deadline"
proof -
  have p: "patrole_ban (rq_peer rq) now (ax_ban (sv_context sv)) = Inl (ExceededAllowedAttempts deadline)"
    using assms(1,2) by (simp add: patrole_ban_def)
  have "service_call cfg fs rq token now sv = (TooManyRequests (ban_seconds_remaining now deadline), sv)"
  proof (cases "rq_path rq = cfg_auth_path cfg")
    case True
    with assms(5) obtain l where "cr_login (cfg_crypto cfg) (rq_body rq) = Inr l"
      by (auto simp: is_ok_def split: sum.splits)
    with True p assms(3,4) show ?thesis
      by (simp add: service_call_def authentication_request_def authenticate_request_def
          validate_credentials_def retry_after_def)
  next
    case False
    have bearer: "split_once CHR '' '' (''Bearer '' @ tok) = Some (''Bearer'', tok)" for tok by simp
    have basic: "split_once CHR '' '' (''Basic '' @ tok) = Some (''Basic'', tok)" for tok by simp
    from False assms(5) obtain tok where "credential_line rq = Inr (''Bearer '' @ tok)
        \<or> (credential_line rq = Inr (''Basic '' @ tok) \<and> is_ok (decode_basic (cfg_crypto cfg) tok))" by auto
    with False p assms(3,4) show ?thesis
      by (auto simp: service_call_def authorize_request_def authorize_bearer_def authorize_basic_def
          validate_credentials_def schemed_retry_after_def retry_after_def into_bearer_error_def
          into_basic_error_def is_ok_def split: sum.splits)
  qed
  moreover have "1 \<le> ban_seconds_remaining now deadline" by (simp add: ban_seconds_remaining_def Let_def)
  ultimately show ?thesis using ban_seconds_bounds [OF assms(2)] by blast
qed

theorem banned_answer_witness:
  "\<exists>secs. service_call example_auth_config (shadow_fs ''other'') example_request ''t'' 50
       (example_service\<lparr>sv_context := banned_context\<rparr>)
     = (TooManyRequests secs, example_service\<lparr>sv_context := banned_context\<rparr>) \<and> 1 \<le> secs"
proof -
  have "\<not> from_loopback example_request"
    by (rule example_not_loopback) (simp add: example_request_def)
  moreover have "credential_line example_request = Inr (''Bearer '' @ ''k'')"
    by (simp add: credential_line_def parse_authorization_header_def example_request_def get_header_def)
  ultimately show ?thesis
    using banned_answer [of "example_service\<lparr>sv_context := banned_context\<rparr>" example_request 2 60 50
        example_auth_config "shadow_fs ''other''" "''t''"]
    by (auto simp: banned_context_def example_request_def proxied_identity_def
        decide_proxied_identity_def example_auth_config_def)
qed

text \<open>a credential comes from the Authorization header, or, only when there is no such header
  and the request is a complete websocket handshake, from a subprotocol entry with the bearer
  prefix; and the subprotocol the server answers with is one the client offered and never one
  that carries a credential.\<close>

theorem websocket_credential:
  "(case credential_line rq of
      Inl _ \<Rightarrow> True
    | Inr line \<Rightarrow>
        get_header rq ''authorization'' = Some (Text line)
        \<or> (get_header rq ''authorization'' = None \<and> is_websocket_handshake rq
           \<and> (\<exists>tok. tok \<noteq> [] \<and> line = ''Bearer '' @ tok
                \<and> BEARER_PROTOCOL_PREFIX @ tok \<in> set (offered_protocols rq))))
   \<and> (case selected_protocol rq of
        None \<Rightarrow> True
      | Some p \<Rightarrow> p \<in> set (offered_protocols rq) \<and> strip_prefix BEARER_PROTOCOL_PREFIX p = None)"
proof -
  have "strip_prefix BEARER_PROTOCOL_PREFIX p = None \<and> p \<in> set (offered_protocols rq)"
    if "selected_protocol rq = Some p" for p
    using find_set [OF that [unfolded selected_protocol_def]] by (simp add: strip_prefix_None)
  then show ?thesis using credential_line_ok by (auto split: sum.split option.split)
qed

text \<open>an empty credential entry hides the ones after it: the search stops at the first entry
  with the prefix and only then looks whether anything follows the prefix, so a handshake
  whose first such entry is empty offers no token, whatever it offers next.\<close>

theorem empty_entry_hides:
  assumes "find_map (strip_prefix BEARER_PROTOCOL_PREFIX) (offered_protocols rq) = Some []"
  shows "bearer_token rq = None"
  using assms by (simp add: bearer_token_def)

theorem empty_entry_hides_witness:
  "offered_protocols (example_request\<lparr>rq_headers :=
       [(''sec-websocket-protocol'', Text ''bmcd.bearer.,bmcd.bearer.k'')]\<rparr>)
     = [''bmcd.bearer.'', ''bmcd.bearer.k'']
   \<and> bearer_token (example_request\<lparr>rq_headers :=
       [(''sec-websocket-protocol'', Text ''bmcd.bearer.,bmcd.bearer.k'')]\<rparr>) = None"
proof -
  let ?rq = "example_request\<lparr>rq_headers := [(''sec-websocket-protocol'', Text ''bmcd.bearer.,bmcd.bearer.k'')]\<rparr>"
  have o: "offered_protocols ?rq = [''bmcd.bearer.'', ''bmcd.bearer.k'']"
    by (simp add: offered_protocols_def get_all_headers_def split_on_def trim_def is_whitespace_def)
  then have "find_map (strip_prefix BEARER_PROTOCOL_PREFIX) (offered_protocols ?rq) = Some []"
    by (simp add: BEARER_PROTOCOL_PREFIX_def strip_prefix_def starts_with_def)
  from empty_entry_hides [OF this] o show ?thesis by simp
qed

end
