(* ===== verification/Tls_Store.thy ===== *)
theory Tls_Store
  imports Metrics Auth_Service
begin

text \<open>
  The part of the configuration that says whom the board trusts (\<open>config.rs\<close>), the certificate a
  listener serves (\<open>tls_store.rs\<close>) and the start of the TLS listener (\<open>main.rs\<close>): what is read at
  start-up, what a handshake is given, and what a connection says about its peer. OpenSSL is a
  parameter: a record of the functions the source calls, over certificates and keys of any type.
\<close>

section \<open>OpenSSL\<close>

datatype alt_name = DnsName string | IpBytes "u8 list" | OtherName

datatype ec_curve = P256 | P384 | P521 | OtherCurve
datatype key_kind = RsaKey nat | Ed25519Key | Ed448Key | EcKey "ec_curve option" | OtherKey

text \<open>A certificate's times are seconds since the epoch; the distance from it is what OpenSSL measures,
  as days and seconds. A name is its entries, each with the short name and the text it has.\<close>

record ('c, 'k) openssl =
  os_stack_from_pem :: "contents \<Rightarrow> (string, 'c list) result"
  os_cert_from_pem :: "contents \<Rightarrow> (string, 'c) result"
  os_key_from_pem :: "contents \<Rightarrow> (string, 'k) result"
  os_public_eq :: "'c \<Rightarrow> 'k \<Rightarrow> (string, bool) result"
  os_key_kind :: "'c \<Rightarrow> key_kind option"
  os_not_before :: "'c \<Rightarrow> int"
  os_not_after :: "'c \<Rightarrow> int"
  os_diff_from_epoch :: "'c \<Rightarrow> (int \<times> int) option"
  os_time_text :: "int \<Rightarrow> string"
  os_to_der :: "'c \<Rightarrow> u8 list option"
  os_digest :: "'c \<Rightarrow> u8 list option"
  os_subject :: "'c \<Rightarrow> (string option \<times> string option) list"
  os_issuer :: "'c \<Rightarrow> (string option \<times> string option) list"
  os_alt_names :: "'c \<Rightarrow> alt_name list option"
  os_set_ca_file :: "contents \<Rightarrow> (string, unit) result"
  os_sha256 :: "contents \<Rightarrow> u8 list"

section \<open>Configuration\<close>

record tls_config =
  tc_private_key :: path
  tc_certificate :: path
  tc_client_ca :: "path option"
  tc_identity_header :: string

definition default_identity_header :: string where "default_identity_header = ''x-forwarded-email''"
definition MANAGED_CLIENT_CA :: path where "MANAGED_CLIENT_CA = (''/etc/ssl/certs'', ''bmcd_client_ca.pem'')"
definition ACCESS_OVERRIDES :: path where "ACCESS_OVERRIDES = (''/etc/bmcd'', ''access.json'')"

text \<open>The settings the interface owns, with the JSON conversion a parameter.\<close>

record access_overrides =
  ao_identity_header :: "string option"

record overrides_json =
  oj_decode :: "contents \<Rightarrow> access_overrides option"
  oj_encode :: "access_overrides \<Rightarrow> contents option"

definition load_overrides :: "overrides_json \<Rightarrow> fs \<Rightarrow> access_overrides" where
  "load_overrides oj fs =
     (case fs_read fs ACCESS_OVERRIDES of
        Inl _ \<Rightarrow> \<lparr>ao_identity_header = None\<rparr>
      | Inr raw \<Rightarrow> (case oj_decode oj raw of Some ov \<Rightarrow> ov | None \<Rightarrow> \<lparr>ao_identity_header = None\<rparr>))"

definition replace_through :: "path \<Rightarrow> path \<Rightarrow> contents \<Rightarrow> fs \<Rightarrow> (io_error, unit) result \<times> fs" where
  "replace_through tmp p c fs =
     (case fs_write tmp c fs of
        (Inl e, fs) \<Rightarrow> (Inl e, fs)
      | (Inr _, fs) \<Rightarrow> fs_rename tmp p fs)"

definition config_write :: "path \<Rightarrow> contents \<Rightarrow> fs \<Rightarrow> (io_error, unit) result \<times> fs" where
  "config_write p c fs =
     (case fs_create_dir_all (fst p) fs of
        (Inl e, fs) \<Rightarrow> (Inl e, fs)
      | (Inr _, fs) \<Rightarrow> replace_through (with_extension p ''tmp'') p c fs)"

definition store_overrides :: "overrides_json \<Rightarrow> access_overrides \<Rightarrow> fs \<Rightarrow> (io_error, unit) result \<times> fs" where
  "store_overrides oj ov fs =
     (case fs_create_dir_all (fst ACCESS_OVERRIDES) fs of
        (Inl e, fs) \<Rightarrow> (Inl e, fs)
      | (Inr _, fs) \<Rightarrow>
          (case oj_encode oj ov of
             None \<Rightarrow> (Inl InvalidData, fs)
           | Some c \<Rightarrow> config_write ACCESS_OVERRIDES c fs))"

definition write_client_ca :: "contents \<Rightarrow> fs \<Rightarrow> (io_error, unit) result \<times> fs" where
  "write_client_ca pem fs = config_write MANAGED_CLIENT_CA pem fs"

definition remove_client_ca :: "fs \<Rightarrow> (io_error, unit) result \<times> fs" where
  "remove_client_ca fs =
     (case fs_remove MANAGED_CLIENT_CA fs of
        (Inl NotFound, fs) \<Rightarrow> (Inr (), fs)
      | other \<Rightarrow> other)"

datatype setting_source = FromConfig | FromOverride | FromDefault

fun setting_source_text :: "setting_source \<Rightarrow> string" where
  "setting_source_text FromConfig = ''config''"
| "setting_source_text FromOverride = ''override''"
| "setting_source_text FromDefault = ''default''"

definition effective_client_ca :: "tls_config \<Rightarrow> fs \<Rightarrow> path option" where
  "effective_client_ca tls fs =
     (case tc_client_ca tls of
        Some p \<Rightarrow> Some p
      | None \<Rightarrow> if fs_exists fs MANAGED_CLIENT_CA then Some MANAGED_CLIENT_CA else None)"

definition effective_identity_header :: "tls_config \<Rightarrow> access_overrides \<Rightarrow> string \<times> setting_source" where
  "effective_identity_header tls overrides =
     (if tc_identity_header tls \<noteq> default_identity_header then (tc_identity_header tls, FromConfig)
      else (case ao_identity_header overrides of
              Some name \<Rightarrow> if name \<noteq> [] then (name, FromOverride) else (tc_identity_header tls, FromDefault)
            | None \<Rightarrow> (tc_identity_header tls, FromDefault)))"

section \<open>The certificate being served\<close>

datatype cert_source = SelfSigned | Installed

fun cert_source_text :: "cert_source \<Rightarrow> string" where
  "cert_source_text SelfSigned = ''self-signed''"
| "cert_source_text Installed = ''installed''"

definition SELF_SIGNED_ISSUER :: string where "SELF_SIGNED_ISSUER = ''Turing Pi BMC self-signed''"

definition source_of :: "('c, 'k) openssl \<Rightarrow> 'c \<Rightarrow> cert_source" where
  "source_of ssl cert =
     (if str_contains SELF_SIGNED_ISSUER (join '' '' (filter_map snd (os_issuer ssl cert))) then SelfSigned else Installed)"

record ('c, 'k) served =
  sd_key :: 'k
  sd_leaf :: 'c
  sd_chain :: "'c list"
  sd_source :: cert_source

definition certificate_expiry_unix :: "('c, 'k) openssl \<Rightarrow> 'c \<Rightarrow> int option" where
  "certificate_expiry_unix ssl cert = map_option (\<lambda>(days, secs). days * 86400 + secs) (os_diff_from_epoch ssl cert)"

fun describe_key :: "key_kind \<Rightarrow> string" where
  "describe_key (RsaKey bits) = ''rsa-'' @ show_nat bits"
| "describe_key Ed25519Key = ''ed25519''"
| "describe_key Ed448Key = ''ed448''"
| "describe_key (EcKey (Some P256)) = ''ecdsa-p256''"
| "describe_key (EcKey (Some P384)) = ''ecdsa-p384''"
| "describe_key (EcKey (Some P521)) = ''ecdsa-p521''"
| "describe_key (EcKey _) = ''ecdsa''"
| "describe_key OtherKey = ''other''"

definition served_facts :: "('c, 'k) openssl \<Rightarrow> ('c, 'k) served \<Rightarrow> certificate_facts" where
  "served_facts ssl sd =
     \<lparr>ce_expires_unix = certificate_expiry_unix ssl (sd_leaf sd),
      ce_key = map_option describe_key (os_key_kind ssl (sd_leaf sd)),
      ce_source = Some (cert_source_text (sd_source sd))\<rparr>"

section \<open>The listener\<close>

datatype start_error = KeyUnreadable io_error | CertUnreadable io_error | BadKey string | BadCert string
  | CaUnreadable path io_error | CaRefused path string

definition load_keys_from_pem :: "('c, 'k) openssl \<Rightarrow> path \<Rightarrow> path \<Rightarrow> fs \<Rightarrow> (start_error, 'k \<times> 'c) result" where
  "load_keys_from_pem ssl private_key certificate fs =
     (case fs_read fs private_key of
        Inl e \<Rightarrow> Inl (KeyUnreadable e)
      | Inr pkey \<Rightarrow>
          (case fs_read fs certificate of
             Inl e \<Rightarrow> Inl (CertUnreadable e)
           | Inr cert \<Rightarrow>
               (case os_key_from_pem ssl pkey of
                  Inl e \<Rightarrow> Inl (BadKey e)
                | Inr key \<Rightarrow>
                    (case os_cert_from_pem ssl cert of
                       Inl e \<Rightarrow> Inl (BadCert e)
                     | Inr x509 \<Rightarrow> Inr (key, x509)))))"

text \<open>The acceptor: the store the callback reads, the trust anchor it asks client certificates
  against, and the name of its sessions.\<close>

record ('c, 'k) listener =
  li_served :: "('c, 'k) served"
  li_client_ca :: "contents option"
  li_session_context :: "u8 list"

definition ca_of_config :: "('c, 'k) openssl \<Rightarrow> tls_config \<Rightarrow> fs \<Rightarrow> (start_error, contents option) result" where
  "ca_of_config ssl tls fs =
     (case effective_client_ca tls fs of
        None \<Rightarrow> Inr None
      | Some ca \<Rightarrow>
          (case fs_read fs ca of
             Inl e \<Rightarrow> Inl (CaUnreadable ca e)
           | Inr pem \<Rightarrow> (case os_set_ca_file ssl pem of Inl e \<Rightarrow> Inl (CaRefused ca e) | Inr _ \<Rightarrow> Inr (Some pem))))"

definition load_tls_config :: "('c, 'k) openssl \<Rightarrow> tls_config \<Rightarrow> fs \<Rightarrow> (start_error, ('c, 'k) listener) result" where
  "load_tls_config ssl tls fs =
     (case load_keys_from_pem ssl (tc_private_key tls) (tc_certificate tls) fs of
        Inl e \<Rightarrow> Inl e
      | Inr (private_key, cert) \<Rightarrow>
          (case ca_of_config ssl tls fs of
             Inl e \<Rightarrow> Inl e
           | Inr ca \<Rightarrow>
               Inr \<lparr>li_served = \<lparr>sd_key = private_key, sd_leaf = cert, sd_chain = [], sd_source = source_of ssl cert\<rparr>,
                    li_client_ca = ca,
                    li_session_context = os_sha256 ssl (case ca of Some pem \<Rightarrow> pem | None \<Rightarrow> Utf8 ''bmcd:no-client-ca'')\<rparr>))"

text \<open>What the servername callback gives a handshake: the pair of that moment with its chain.
  OpenSSL takes the key only when it belongs to the certificate; otherwise the handshake ends.\<close>

definition handshake_pair :: "('c, 'k) openssl \<Rightarrow> ('c, 'k) listener \<Rightarrow> ('c \<times> 'k \<times> 'c list) option" where
  "handshake_pair ssl li =
     (let sd = li_served li
      in case os_public_eq ssl (sd_leaf sd) (sd_key sd) of
           Inr True \<Rightarrow> Some (sd_leaf sd, sd_key sd, sd_chain sd)
         | _ \<Rightarrow> None)"

text \<open>What a connection leaves for its requests. \<open>verify_result\<close> is OK also when the peer presented
  nothing. The certificate is shown by the debug format of its subject, a parameter.\<close>

definition on_connect :: "('c \<Rightarrow> string) \<Rightarrow> bool \<Rightarrow> 'c option \<Rightarrow> verified_proxy option" where
  "on_connect subject_text verified peer_certificate =
     (if \<not> verified then None
      else map_option (\<lambda>certificate. \<lparr>vp_subject = subject_text certificate\<rparr>) peer_certificate)"

definition redirect_url :: "string \<Rightarrow> nat \<Rightarrow> string \<Rightarrow> string" where
  "redirect_url host port uri = ''https://'' @ host @ '':'' @ show_nat port @ uri"

section \<open>Files that are replaced\<close>

text \<open>What replacing a file promises, of the operation and of the name it writes first: the new contents
  are there, and nothing else has changed unless it was under that name.\<close>

locale file_replacement =
  fixes put :: "path \<Rightarrow> contents \<Rightarrow> fs \<Rightarrow> (io_error, unit) result \<times> fs" and tmp :: "path \<Rightarrow> path"
  assumes stores: "put p c fs = (Inr u, fs') \<Longrightarrow> fs_contents fs' p = Some c"
    and keeps_wf: "put p c fs = (r, fs') \<Longrightarrow> fs_wf fs \<Longrightarrow> fs_wf fs'"
    and keeps_readable: "put p c fs = (r, fs') \<Longrightarrow> fs_unreadable fs' = fs_unreadable fs"
    and keeps_names: "put p c fs = (r, fs') \<Longrightarrow> q \<noteq> p \<Longrightarrow> q \<noteq> tmp p \<Longrightarrow> fs_exists fs' q = fs_exists fs q"
    and keeps_files: "put p c fs = (r, fs') \<Longrightarrow> fs_wf fs \<Longrightarrow> q \<noteq> p \<Longrightarrow> q \<noteq> tmp p \<Longrightarrow>
      \<not> fs_exists fs (tmp p) \<Longrightarrow> fs_inode fs' q = fs_inode fs q"
begin

lemma reads_back:
  assumes "put p c fs = (Inr u, fs')" and "p \<notin> set (fs_unreadable fs)"
  shows "fs_read fs' p = Inr c"
  using stores [OF assms(1)] keeps_readable [OF assms(1)] assms(2)
  by (auto simp: fs_contents_def fs_read_def split: option.splits)

lemma keeps_reading:
  assumes "put p c fs = (r, fs')" and "fs_wf fs" and "q \<noteq> p" and "q \<noteq> tmp p" and "\<not> fs_exists fs (tmp p)"
  shows "fs_read fs' q = fs_read fs q"
  using keeps_files [OF assms] keeps_readable [OF assms(1)] by (simp add: fs_read_def cong: option.case_cong)

text \<open>Two files, one after the other: both are read back.\<close>

lemma both_read_back:
  assumes "put p c fs = (Inr u, fs1)" and "put q d fs1 = (Inr v, fs2)" and "fs_wf fs"
    and "distinct [p, q, tmp p, tmp q]" and "\<not> fs_exists fs (tmp q)"
    and "p \<notin> set (fs_unreadable fs)" and "q \<notin> set (fs_unreadable fs)"
  shows "fs_read fs2 p = Inr c \<and> fs_read fs2 q = Inr d"
proof -
  have "\<not> fs_exists fs1 (tmp q)" using keeps_names [OF assms(1), of "tmp q"] assms(4,5) by auto
  then have "fs_read fs2 p = fs_read fs1 p"
    using keeps_reading [OF assms(2) keeps_wf [OF assms(1,3)], of p] assms(4) by auto
  then show ?thesis
    using reads_back [OF assms(1,6)] reads_back [OF assms(2)] keeps_readable [OF assms(1)] assms(7) by simp
qed

end

lemma fs_exists_put: "fs_exists (fs_put p c fs) q \<longleftrightarrow> q = p \<or> fs_exists fs q"
  by (auto simp: fs_exists_def fs_put_def split: option.splits)

lemma fs_exists_rename: "q \<noteq> p \<Longrightarrow> q \<noteq> r \<Longrightarrow> fs_exists (snd (fs_rename p r fs)) q = fs_exists fs q"
  by (auto simp: fs_exists_def fs_rename_def map_of_filter_names split: option.splits)

lemma replace_through_file: "file_replacement (\<lambda>p. replace_through (tmp p) p) tmp"
proof
  fix p q :: path and c fs r fs' and u :: unit
  note def = replace_through_def fs_write_def
  show "fs_contents fs' p = Some c" if "replace_through (tmp p) p c fs = (Inr u, fs')"
  proof -
    have r: "fs_rename (tmp p) p (fs_put (tmp p) c fs) = (Inr (), fs')"
      using that by (auto simp: def split: sum.splits prod.splits option.splits fault.splits)
    show ?thesis using fs_rename_ok [OF r] by (simp add: fs_contents_def fs_inode_put)
  qed
  show "fs_wf fs'" if "replace_through (tmp p) p c fs = (r, fs')" "fs_wf fs"
  proof -
    have "fs_wf (snd (replace_through (tmp p) p c fs))"
      using that(2) fs_write_wf [of fs "tmp p" c] fs_rename_wf [of _ "tmp p" p]
      by (auto simp: replace_through_def split: sum.splits prod.splits)
    then show ?thesis using that(1) by simp
  qed
  show "fs_unreadable fs' = fs_unreadable fs" if "replace_through (tmp p) p c fs = (r, fs')"
    using that by (auto simp: def fs_put_def fs_rename_def split: sum.splits prod.splits option.splits fault.splits if_splits)
  show "fs_exists fs' q = fs_exists fs q" if "replace_through (tmp p) p c fs = (r, fs')" "q \<noteq> p" "q \<noteq> tmp p"
  proof -
    have "fs' = snd (fs_write (tmp p) c fs) \<or> fs' = snd (fs_rename (tmp p) p (snd (fs_write (tmp p) c fs)))"
      using that(1) by (auto simp: replace_through_def split: sum.splits prod.splits)
    moreover have "fs_exists (snd (fs_write (tmp p) c fs)) q = fs_exists fs q"
      using that(3) by (auto simp: fs_write_def fs_exists_put split: option.splits fault.splits)
    ultimately show ?thesis using fs_exists_rename [OF that(3,2)] by auto
  qed
  show "fs_inode fs' q = fs_inode fs q"
    if "replace_through (tmp p) p c fs = (r, fs')" "fs_wf fs" "q \<noteq> p" "q \<noteq> tmp p" "\<not> fs_exists fs (tmp p)"
  proof -
    have "fs' = snd (fs_write (tmp p) c fs) \<or> fs' = snd (fs_rename (tmp p) p (snd (fs_write (tmp p) c fs)))"
      using that(1) by (auto simp: replace_through_def split: sum.splits prod.splits)
    moreover have "fs_inode (snd (fs_write (tmp p) c fs)) q = fs_inode fs q"
      using fs_inode_write_other [OF that(2,4)] that(5) by (simp add: aliased_def)
    ultimately show ?thesis using fs_inode_rename_other [OF that(4,3)] by auto
  qed
qed

interpretation rt: file_replacement "\<lambda>p. replace_through (tmp p) p" tmp for tmp
  by (rule replace_through_file)

abbreviation config_tmp :: "path \<Rightarrow> path" where "config_tmp p \<equiv> with_extension p ''tmp''"

lemma config_write_cases:
  "config_write p c fs = (r, fs') \<Longrightarrow> (\<not> is_ok r \<and> fs' = fs) \<or> replace_through (config_tmp p) p c fs = (r, fs')"
  by (auto simp: config_write_def fs_create_dir_all_def split: if_splits)

interpretation cf: file_replacement config_write config_tmp
proof
  fix p q :: path and c fs r fs' and u :: unit
  show "fs_contents fs' p = Some c" if "config_write p c fs = (Inr u, fs')"
    using config_write_cases [OF that] by (auto intro: rt.stores)
  show "fs_wf fs'" if "config_write p c fs = (r, fs')" "fs_wf fs"
    using config_write_cases [OF that(1)] that(2) by (blast intro: rt.keeps_wf [where tmp = config_tmp])
  show "fs_unreadable fs' = fs_unreadable fs" if "config_write p c fs = (r, fs')"
    using config_write_cases [OF that] by (blast intro: rt.keeps_readable [where tmp = config_tmp])
  show "fs_exists fs' q = fs_exists fs q" if "config_write p c fs = (r, fs')" "q \<noteq> p" "q \<noteq> config_tmp p"
    using config_write_cases [OF that(1)] rt.keeps_names [where tmp = config_tmp, OF _ that(2,3)] by blast
  show "fs_inode fs' q = fs_inode fs q"
    if "config_write p c fs = (r, fs')" "fs_wf fs" "q \<noteq> p" "q \<noteq> config_tmp p" "\<not> fs_exists fs (config_tmp p)"
    using config_write_cases [OF that(1)] rt.keeps_files [where tmp = config_tmp, OF _ that(2-5)] by blast
qed

text \<open>A configuration that names the default header says nothing, and the stored name wins over it.\<close>

lemma default_header_in_config_loses:
  "tc_identity_header tls = default_identity_header \<Longrightarrow> name \<noteq> [] \<Longrightarrow>
     effective_identity_header tls \<lparr>ao_identity_header = Some name\<rparr> = (name, FromOverride)"
  by (simp add: effective_identity_header_def)

section \<open>An example\<close>

text \<open>A toy OpenSSL for examples: a certificate is a line of the bundle, and a key is a text that
  belongs to the certificate with the same text.\<close>

definition demo_openssl :: "(string, string) openssl" where
  "demo_openssl =
     \<lparr>os_stack_from_pem = (\<lambda>c. case c of Utf8 s \<Rightarrow> Inr (lines s) | NotUtf8 _ \<Rightarrow> Inl ''no PEM''),
      os_cert_from_pem = (\<lambda>c. case c of Utf8 s \<Rightarrow> (case lines s of l # _ \<Rightarrow> Inr l | [] \<Rightarrow> Inl ''no certificate'') | NotUtf8 _ \<Rightarrow> Inl ''no PEM''),
      os_key_from_pem = (\<lambda>c. case c of Utf8 s \<Rightarrow> Inr s | NotUtf8 _ \<Rightarrow> Inl ''no PEM''),
      os_public_eq = (\<lambda>c k. Inr (c = k)),
      os_key_kind = (\<lambda>_. Some Ed25519Key),
      os_not_before = (\<lambda>_. 0), os_not_after = (\<lambda>_. 1000), os_diff_from_epoch = (\<lambda>_. Some (0, 1000)), os_time_text = (\<lambda>_. []),
      os_to_der = (\<lambda>_. Some []), os_digest = (\<lambda>_. Some [1, 2]),
      os_subject = (\<lambda>c. [(Some ''CN'', Some c)]), os_issuer = (\<lambda>c. [(Some ''CN'', Some ''example'')]),
      os_alt_names = (\<lambda>c. Some [DnsName ''bmc.local'']),
      os_set_ca_file = (\<lambda>_. Inr ()), os_sha256 = (\<lambda>_. [])\<rparr>"

definition demo_tls_config :: tls_config where
  "demo_tls_config = \<lparr>tc_private_key = (''/etc/ssl/certs'', ''bmcd_key.pem''), tc_certificate = (''/etc/ssl/certs'', ''bmcd_cert.pem''),
     tc_client_ca = None, tc_identity_header = default_identity_header\<rparr>"

definition empty_fs :: fs where
  "empty_fs = \<lparr>fs_names = [], fs_inodes = (\<lambda>_. \<lparr>in_contents = Utf8 [], in_modified = 0\<rparr>), fs_next = 0, fs_time = 0,
     fs_unreadable = [], fs_faults = [], fs_closed_dirs = []\<rparr>"

end
