(* ===== verification/Switch_Document.thy ===== *)
theory Switch_Document
  imports Rust_Std
begin

text \<open>
  \<^verbatim>\<open>bmcd/src/app/switch_document.rs\<close>: the on-board switch as one document, its presets, the
  rules that refuse a layout nobody could reach, and the warnings. A \<open>BTreeSet<u16>\<close> is its
  elements in ascending order. The port table is a partial map; the code walks it in the
  order of \<open>PortId\<close>, which is the order of \<open>PortId::ALL\<close>. The names are a list in the order
  of their keys. A message is a constructor with the values the source formats into it.
\<close>

section \<open>Ports and documents\<close>

definition VID_MIN :: u16 where "VID_MIN = 1"
definition VID_MAX :: u16 where "VID_MAX = 4094"
definition SPLIT_MANAGEMENT_VID :: u16 where "SPLIT_MANAGEMENT_VID = 4093"
definition SPLIT_NODE_VID :: u16 where "SPLIT_NODE_VID = 4094"
definition FLAT_VID :: u16 where "FLAT_VID = 1"
definition MAX_VLAN_NAME :: nat where "MAX_VLAN_NAME = 32"

datatype port_id = Node1 | Node2 | Node3 | Node4 | Bmc | Ge0 | Ge1

definition ALL_PORTS :: "port_id list" where
  "ALL_PORTS = [Node1, Node2, Node3, Node4, Bmc, Ge0, Ge1]"

definition is_uplink :: "port_id \<Rightarrow> bool" where
  "is_uplink p = (p \<in> {Ge0, Ge1})"

definition is_node :: "port_id \<Rightarrow> bool" where
  "is_node p = (p \<in> {Node1, Node2, Node3, Node4})"

record port_config =
  pc_untagged :: "u16 option"
  pc_tagged :: "u16 list"

definition pc_only_untagged :: "u16 \<Rightarrow> port_config" where
  "pc_only_untagged v = \<lparr>pc_untagged = Some v, pc_tagged = []\<rparr>"

definition bt_insert :: "u16 \<Rightarrow> u16 list \<Rightarrow> u16 list" where
  "bt_insert v vs = (if v \<in> set vs then vs else insort v vs)"

definition bt_collect :: "u16 list \<Rightarrow> u16 list" where
  "bt_collect vs = fold bt_insert vs []"

definition pc_only_tagged :: "u16 list \<Rightarrow> port_config" where
  "pc_only_tagged vs = \<lparr>pc_untagged = None, pc_tagged = bt_collect vs\<rparr>"

definition pc_none :: port_config where
  "pc_none = \<lparr>pc_untagged = None, pc_tagged = []\<rparr>"

definition pc_vlans :: "port_config \<Rightarrow> u16 list" where
  "pc_vlans c = (case pc_untagged c of None \<Rightarrow> pc_tagged c | Some v \<Rightarrow> bt_insert v (pc_tagged c))"

record switch_document =
  sd_vlan_filtering :: bool
  sd_stp :: bool
  sd_ports :: "port_id \<rightharpoonup> port_config"
  sd_names :: "(u16 \<times> string) list"

definition sd_port :: "switch_document \<Rightarrow> port_id \<Rightarrow> port_config" where
  "sd_port d p = (case sd_ports d p of None \<Rightarrow> pc_none | Some c \<Rightarrow> c)"

section \<open>Names on the wire\<close>

fun name_insert :: "u16 \<Rightarrow> string \<Rightarrow> (u16 \<times> string) list \<Rightarrow> (u16 \<times> string) list" where
  "name_insert v n [] = [(v, n)]"
| "name_insert v n ((w, m) # rest) =
     (if v = w then (v, n) # rest
      else if v < w then (v, n) # (w, m) # rest
      else (w, m) # name_insert v n rest)"

fun names_from_wire :: "(string \<times> string) list \<Rightarrow> (string, (u16 \<times> string) list) result" where
  "names_from_wire [] = Inr []"
| "names_from_wire ((key, name) # rest) =
     (case parse_u16 (trim key) of
        None \<Rightarrow> Inl key
      | Some v \<Rightarrow>
          (case names_from_wire rest of
             Inl e \<Rightarrow> Inl e
           | Inr ns \<Rightarrow> Inr (if v \<in> fst ` set ns then ns else name_insert v name ns)))"

section \<open>Presets\<close>

datatype second_uplink = Redundant | Off

datatype preset = Flat | Split | Trunk u16 u16 second_uplink

definition expand :: "preset \<Rightarrow> switch_document" where
  "expand pr =
     (case pr of
        Flat \<Rightarrow>
          \<lparr>sd_vlan_filtering = False, sd_stp = False,
           sd_ports = (\<lambda>p. Some (pc_only_untagged FLAT_VID)), sd_names = []\<rparr>
      | Split \<Rightarrow>
          \<lparr>sd_vlan_filtering = True, sd_stp = False,
           sd_ports = (\<lambda>p. Some (if p = Bmc \<or> p = Ge0 then pc_only_untagged SPLIT_MANAGEMENT_VID
                               else pc_only_untagged SPLIT_NODE_VID)),
           sd_names = []\<rparr>
      | Trunk management node second \<Rightarrow>
          \<lparr>sd_vlan_filtering = True, sd_stp = (second = Redundant),
           sd_ports = (\<lambda>p. Some (case p of
               Bmc \<Rightarrow> pc_only_untagged management
             | Ge0 \<Rightarrow> pc_only_tagged [management, node]
             | Ge1 \<Rightarrow> (case second of Redundant \<Rightarrow> pc_only_tagged [management, node] | Off \<Rightarrow> pc_none)
             | _ \<Rightarrow> pc_only_untagged node)),
           sd_names = name_insert node ''nodes'' (name_insert management ''management'' [])\<rparr>)"

section \<open>Members\<close>

definition sd_members :: "switch_document \<Rightarrow> u16 \<Rightarrow> port_id list" where
  "sd_members d v =
     filter (\<lambda>p. case sd_ports d p of None \<Rightarrow> False | Some c \<Rightarrow> v \<in> set (pc_vlans c)) ALL_PORTS"

definition sd_vlans :: "switch_document \<Rightarrow> u16 list" where
  "sd_vlans d = bt_collect (concat (map (\<lambda>p. pc_vlans (sd_port d p)) ALL_PORTS))"

section \<open>Refusals and warnings\<close>

datatype refusal_reason =
    VidOutOfRange u16 port_id
  | TaggedAndUntagged u16 port_id
  | NameVidOutOfRange u16
  | NameBlank u16
  | NameTooLong u16
  | NameControl u16
  | BmcNoUntagged
  | BmcTagged
  | BmcAlone u16
  | NoUplinkIn u16
  | UplinkLoop u16

definition vid_ok :: "u16 \<Rightarrow> bool" where
  "vid_ok v = (VID_MIN \<le> v \<and> v \<le> VID_MAX)"

definition port_refusal :: "port_id \<Rightarrow> port_config \<Rightarrow> refusal_reason option" where
  "port_refusal p c =
     (case List.find (\<lambda>v. \<not> vid_ok v) (pc_vlans c) of
        Some v \<Rightarrow> Some (VidOutOfRange v p)
      | None \<Rightarrow>
          (case pc_untagged c of
             None \<Rightarrow> None
           | Some u \<Rightarrow> if u \<in> set (pc_tagged c) then Some (TaggedAndUntagged u p) else None))"

definition name_refusal :: "u16 \<times> string \<Rightarrow> refusal_reason option" where
  "name_refusal vn =
     (case vn of (v, name) \<Rightarrow>
        if \<not> vid_ok v then Some (NameVidOutOfRange v)
        else if trim name = [] then Some (NameBlank v)
        else if MAX_VLAN_NAME < length name then Some (NameTooLong v)
        else if list_ex is_control name then Some (NameControl v)
        else None)"

definition filtering_refusal :: "switch_document \<Rightarrow> refusal_reason option" where
  "filtering_refusal d =
     (let bmc = sd_port d Bmc
      in case pc_untagged bmc of
           None \<Rightarrow> Some BmcNoUntagged
         | Some management \<Rightarrow>
             if pc_tagged bmc \<noteq> [] then Some BmcTagged
             else if length (sd_members d management) < 2 then Some (BmcAlone management)
             else if \<not> list_ex is_uplink (sd_members d management) then Some (NoUplinkIn management)
             else if \<not> sd_stp d then
               (case filter (\<lambda>v. v \<in> set (pc_vlans (sd_port d Ge1))) (pc_vlans (sd_port d Ge0)) of
                  [] \<Rightarrow> None
                | v # _ \<Rightarrow> Some (UplinkLoop v))
             else None)"

definition switch_refusal :: "switch_document \<Rightarrow> refusal_reason option" where
  "switch_refusal d =
     (case find_map (\<lambda>p. Option.bind (sd_ports d p) (port_refusal p)) ALL_PORTS of
        Some r \<Rightarrow> Some r
      | None \<Rightarrow>
          (case find_map name_refusal (sd_names d) of
             Some r \<Rightarrow> Some r
           | None \<Rightarrow> if \<not> sd_vlan_filtering d then None else filtering_refusal d))"

datatype switch_warning =
    InNoVlan port_id
  | OnlyTagged port_id
  | OneMember u16 port_id

definition port_warning :: "switch_document \<Rightarrow> port_id \<Rightarrow> switch_warning list" where
  "port_warning d p =
     (if pc_vlans (sd_port d p) = [] then [InNoVlan p]
      else if is_node p \<and> pc_untagged (sd_port d p) = None then [OnlyTagged p]
      else [])"

definition vlan_warning :: "switch_document \<Rightarrow> u16 \<Rightarrow> switch_warning list" where
  "vlan_warning d v = (case sd_members d v of [p] \<Rightarrow> [OneMember v p] | _ \<Rightarrow> [])"

definition switch_warnings :: "switch_document \<Rightarrow> switch_warning list" where
  "switch_warnings d =
     (if \<not> sd_vlan_filtering d then []
      else concat (map (port_warning d) ALL_PORTS) @ concat (map (vlan_warning d) (sd_vlans d)))"

section \<open>Facts\<close>

lemma set_ALL_PORTS [simp]: "set ALL_PORTS = UNIV"
  unfolding ALL_PORTS_def using port_id.exhaust by auto

lemma distinct_ALL_PORTS [simp]: "distinct ALL_PORTS"
  by (simp add: ALL_PORTS_def)

lemma set_bt_insert [simp]: "set (bt_insert v vs) = insert v (set vs)"
  by (auto simp: bt_insert_def set_insort_key)

lemma set_bt_collect [simp]: "set (bt_collect vs) = set vs"
proof -
  have "set (fold bt_insert vs acc) = set vs \<union> set acc" for acc
    by (induction vs arbitrary: acc) auto
  then show ?thesis by (simp add: bt_collect_def)
qed

lemma set_pc_vlans: "set (pc_vlans c) = set_option (pc_untagged c) \<union> set (pc_tagged c)"
  by (auto simp: pc_vlans_def split: option.splits)

lemma sd_members_iff: "p \<in> set (sd_members d v) \<longleftrightarrow> v \<in> set (pc_vlans (sd_port d p))"
  by (auto simp: sd_members_def sd_port_def pc_none_def pc_vlans_def split: option.splits)

lemma find_None: "List.find P xs = None \<longleftrightarrow> (\<forall>x \<in> set xs. \<not> P x)"
  by (auto simp: find_None_iff)

lemma port_refusal_None:
  "port_refusal p c = None \<longleftrightarrow>
     (\<forall>v \<in> set (pc_vlans c). vid_ok v) \<and> (\<forall>u. pc_untagged c = Some u \<longrightarrow> u \<notin> set (pc_tagged c))"
  by (auto simp: port_refusal_def find_None dest: find_set split: option.splits)

lemma name_refusal_None:
  "name_refusal (v, n) = None \<longleftrightarrow>
     vid_ok v \<and> trim n \<noteq> [] \<and> length n \<le> 32 \<and> \<not> list_ex is_control n"
  by (auto simp: name_refusal_def MAX_VLAN_NAME_def split: if_splits)

text \<open>What makes a layout safe: the management station can reach the board, and no frame can
  go round.\<close>

definition well_formed_ports :: "switch_document \<Rightarrow> bool" where
  "well_formed_ports d =
     list_all (\<lambda>p. list_all vid_ok (pc_vlans (sd_port d p))
       \<and> (case pc_untagged (sd_port d p) of None \<Rightarrow> True | Some u \<Rightarrow> u \<notin> set (pc_tagged (sd_port d p))))
       ALL_PORTS"

definition well_formed_names :: "switch_document \<Rightarrow> bool" where
  "well_formed_names d =
     list_all (\<lambda>(v, n). vid_ok v \<and> trim n \<noteq> [] \<and> length n \<le> 32 \<and> \<not> list_ex is_control n) (sd_names d)"

definition bmc_reachable :: "switch_document \<Rightarrow> bool" where
  "bmc_reachable d =
     (\<exists>v u. sd_port d Bmc = \<lparr>pc_untagged = Some v, pc_tagged = []\<rparr> \<and> is_uplink u
        \<and> v \<in> set (pc_vlans (sd_port d u)))"

definition loop_free :: "switch_document \<Rightarrow> bool" where
  "loop_free d = (sd_stp d \<or> set (pc_vlans (sd_port d Ge0)) \<inter> set (pc_vlans (sd_port d Ge1)) = {})"

lemma members_two:
  assumes "is_uplink u" and "v \<in> set (pc_vlans (sd_port d u))" and "v \<in> set (pc_vlans (sd_port d Bmc))"
  shows "2 \<le> length (sd_members d v)"
proof -
  have "{Bmc, u} \<subseteq> set (sd_members d v)" using assms by (auto simp: sd_members_iff)
  moreover have "card {Bmc, u} = 2" using assms(1) by (auto simp: is_uplink_def)
  ultimately have "2 \<le> card (set (sd_members d v))" by (metis List.finite_set card_mono)
  then show ?thesis using card_length order_trans by blast
qed

lemma filtering_refusal_None:
  "filtering_refusal d = None \<longleftrightarrow> bmc_reachable d \<and> loop_free d"
proof -
  have loop: "(filter (\<lambda>v. v \<in> set (pc_vlans (sd_port d Ge1))) (pc_vlans (sd_port d Ge0)) = [])
      \<longleftrightarrow> set (pc_vlans (sd_port d Ge0)) \<inter> set (pc_vlans (sd_port d Ge1)) = {}"
    by (auto simp: filter_empty_conv)
  show ?thesis
  proof (cases "pc_untagged (sd_port d Bmc)")
    case None
    then show ?thesis by (auto simp: filtering_refusal_def bmc_reachable_def)
  next
    case (Some v)
    have up: "list_ex is_uplink (sd_members d v) \<longleftrightarrow> (\<exists>u. is_uplink u \<and> v \<in> set (pc_vlans (sd_port d u)))"
      by (auto simp: list_ex_iff sd_members_iff)
    have "v \<in> set (pc_vlans (sd_port d Bmc))" using Some by (simp add: set_pc_vlans)
    then have two: "list_ex is_uplink (sd_members d v) \<Longrightarrow> \<not> length (sd_members d v) < 2"
      using members_two up by fastforce
    have reach: "bmc_reachable d \<longleftrightarrow> pc_tagged (sd_port d Bmc) = [] \<and> list_ex is_uplink (sd_members d v)"
      using Some up by (auto simp: bmc_reachable_def) (metis (full_types) port_config.surjective old.unit.exhaust)
    show ?thesis
      using Some two reach loop
      by (auto simp: filtering_refusal_def loop_free_def Let_def split: list.splits)
  qed
qed

section \<open>Properties\<close>

lemma switch_refusal_None:
  "switch_refusal d = None \<longleftrightarrow>
     well_formed_ports d \<and> well_formed_names d
     \<and> (if sd_vlan_filtering d then bmc_reachable d \<and> loop_free d else True)"
proof -
  have "Option.bind (sd_ports d p) (port_refusal p) = None \<longleftrightarrow>
      list_all vid_ok (pc_vlans (sd_port d p))
      \<and> (case pc_untagged (sd_port d p) of None \<Rightarrow> True | Some u \<Rightarrow> u \<notin> set (pc_tagged (sd_port d p)))" for p
    by (cases "sd_ports d p") (auto simp: sd_port_def port_refusal_None list_all_iff pc_none_def
        pc_vlans_def split: option.splits)
  then have "find_map (\<lambda>p. Option.bind (sd_ports d p) (port_refusal p)) ALL_PORTS = None \<longleftrightarrow> well_formed_ports d"
    by (simp add: find_map_None well_formed_ports_def list_all_iff)
  moreover have "find_map name_refusal (sd_names d) = None \<longleftrightarrow> well_formed_names d"
    by (auto simp: find_map_None well_formed_names_def list_all_iff name_refusal_None)
  ultimately show ?thesis
    by (auto simp: switch_refusal_def filtering_refusal_None split: option.splits)
qed

text \<open>what the board accepts: well-formed ports and names, and, when the switch filters, a
  layout in which the board's own port is untagged in exactly one VLAN that an uplink is in
  too, and in which no VLAN is on both uplinks unless spanning tree is on. Nothing else is
  refused.\<close>

theorem switch_refusal_iff:
  "switch_refusal d = None \<longleftrightarrow>
     well_formed_ports d \<and> well_formed_names d
     \<and> (if sd_vlan_filtering d then bmc_reachable d \<and> loop_free d else True)"
  by (rule switch_refusal_None)

lemma pc_only_simps [simp]:
  "pc_untagged (pc_only_untagged v) = Some v" "pc_tagged (pc_only_untagged v) = []"
  "pc_untagged (pc_only_tagged vs) = None" "set (pc_tagged (pc_only_tagged vs)) = set vs"
  "pc_untagged pc_none = None" "pc_tagged pc_none = []"
  by (simp_all add: pc_only_untagged_def pc_only_tagged_def pc_none_def)

lemma expand_port:
  "sd_port (expand Flat) p = pc_only_untagged FLAT_VID"
  "sd_port (expand Split) p = (if p = Bmc \<or> p = Ge0 then pc_only_untagged SPLIT_MANAGEMENT_VID
     else pc_only_untagged SPLIT_NODE_VID)"
  "sd_port (expand (Trunk m n sec)) p = (case p of
       Bmc \<Rightarrow> pc_only_untagged m
     | Ge0 \<Rightarrow> pc_only_tagged [m, n]
     | Ge1 \<Rightarrow> (case sec of Redundant \<Rightarrow> pc_only_tagged [m, n] | Off \<Rightarrow> pc_none)
     | _ \<Rightarrow> pc_only_untagged n)"
  by (simp_all add: sd_port_def expand_def)

lemma expand_fields [simp]:
  "sd_stp (expand (Trunk m n sec)) = (sec = Redundant)" "sd_vlan_filtering (expand (Trunk m n sec))"
  "\<not> sd_vlan_filtering (expand Flat)" "sd_vlan_filtering (expand Split)"
  "\<not> sd_stp (expand Split)" "sd_names (expand Flat) = []" "sd_names (expand Split) = []"
  by (simp_all add: expand_def)

lemma trunk_names:
  "well_formed_names (expand (Trunk m n sec)) \<longleftrightarrow> vid_ok m \<and> vid_ok n"
proof -
  have "trim ''nodes'' \<noteq> []" "\<not> list_ex is_control ''nodes''"
    "trim ''management'' \<noteq> []" "\<not> list_ex is_control ''management''"
    by code_simp+
  then show ?thesis by (auto simp: well_formed_names_def expand_def)
qed

lemma trunk_ports:
  "well_formed_ports (expand (Trunk m n sec)) \<longleftrightarrow> vid_ok m \<and> vid_ok n"
  by (cases sec)
    (auto simp: well_formed_ports_def ALL_PORTS_def list_all_iff expand_port set_pc_vlans)

lemma trunk_filtering:
  "bmc_reachable (expand (Trunk m n sec))" "loop_free (expand (Trunk m n sec))"
proof -
  have "sd_port (expand (Trunk m n sec)) Bmc = \<lparr>pc_untagged = Some m, pc_tagged = []\<rparr>"
    and "m \<in> set (pc_vlans (sd_port (expand (Trunk m n sec)) Ge0))"
    by (simp_all add: expand_port pc_only_untagged_def set_pc_vlans)
  then show "bmc_reachable (expand (Trunk m n sec))" by (auto simp: bmc_reachable_def is_uplink_def)
  show "loop_free (expand (Trunk m n sec))"
    by (cases sec) (simp_all add: loop_free_def expand_port set_pc_vlans)
qed

lemma vid_ok_const [simp]: "vid_ok FLAT_VID" "vid_ok SPLIT_MANAGEMENT_VID" "vid_ok SPLIT_NODE_VID"
  by (simp_all add: vid_ok_def VID_MIN_def VID_MAX_def FLAT_VID_def SPLIT_MANAGEMENT_VID_def
      SPLIT_NODE_VID_def word_le_nat_alt)

lemma split_reachable: "bmc_reachable (expand Split)"
proof -
  have "sd_port (expand Split) Bmc = \<lparr>pc_untagged = Some SPLIT_MANAGEMENT_VID, pc_tagged = []\<rparr>"
    and "SPLIT_MANAGEMENT_VID \<in> set (pc_vlans (sd_port (expand Split) Ge0))"
    by (simp_all add: expand_port pc_only_untagged_def set_pc_vlans)
  then show ?thesis by (auto simp: bmc_reachable_def is_uplink_def)
qed

definition modules_apart :: "switch_document \<Rightarrow> bool" where
  "modules_apart d = list_all
     (\<lambda>p. set (pc_vlans (sd_port d p)) \<inter> set (pc_vlans (sd_port d Bmc)) = {}) [Node1, Node2, Node3, Node4]"

text \<open>the presets are always acceptable: Flat and Split as they are, Trunk exactly when the
  operator's two VLANs are in range; and they keep what they promise: under Split, and under
  Trunk with two different VLANs, no module shares a VLAN with the board's own port.\<close>

theorem presets_sound:
  "(switch_refusal (expand pr) = None \<longleftrightarrow>
     (case pr of Trunk m n _ \<Rightarrow> vid_ok m \<and> vid_ok n | _ \<Rightarrow> True))
   \<and> (case pr of Flat \<Rightarrow> True | Split \<Rightarrow> modules_apart (expand Split)
      | Trunk m n sec \<Rightarrow> m = n \<or> modules_apart (expand (Trunk m n sec)))"
proof (cases pr)
  case Flat
  then show ?thesis
    by (simp add: switch_refusal_None well_formed_ports_def list_all_iff expand_port set_pc_vlans
        well_formed_names_def)
next
  case Split
  have "SPLIT_MANAGEMENT_VID \<noteq> SPLIT_NODE_VID"
    by (simp add: SPLIT_MANAGEMENT_VID_def SPLIT_NODE_VID_def)
  then show ?thesis
    using Split split_reachable
    by (simp add: switch_refusal_None well_formed_ports_def list_all_iff expand_port set_pc_vlans
        well_formed_names_def modules_apart_def loop_free_def)
next
  case (Trunk m n sec)
  then show ?thesis
    using trunk_names [of m n sec] trunk_ports [of m n sec] trunk_filtering [of m n sec]
    by (auto simp: switch_refusal_None modules_apart_def expand_port set_pc_vlans)
qed

end
