(* ===== verification/Confirm_Window.thy ===== *)
theory Confirm_Window
  imports Bmcd_Prelude
begin

text \<open>
  The contract the address and the switch state machines share
  (\<^verbatim>\<open>bmcd/src/app/address_change.rs\<close>, \<^verbatim>\<open>bmcd/src/app/switch_change.rs\<close>): a document is
  applied, waits for a confirmation, and is persisted when confirmed or put back when its
  window passes. The effect and error enumerations of the two modules have the same
  constructors and are one datatype here. The locale states what a client may rely on; its
  lemmas follow a state machine together with the network it configures through any
  sequence of operations.
\<close>

section \<open>Effects and refusals\<close>

datatype 'd effect = Apply 'd | Persist 'd | NoEffect

datatype change_error = WindowOutOfRange | AlreadyPending | NothingPending | WrongToken

definition DEFAULT_WINDOW :: duration where "DEFAULT_WINDOW = from_secs 30"
definition MIN_WINDOW :: duration where "MIN_WINDOW = from_secs 10"
definition MAX_WINDOW :: duration where "MAX_WINDOW = from_secs 300"

definition window_ok :: "duration \<Rightarrow> bool" where
  "window_ok w = (MIN_WINDOW \<le> w \<and> w \<le> MAX_WINDOW)"

section \<open>A state machine and the network behind it\<close>

type_synonym ('s, 'd, 'p) apply_op =
  "'d \<Rightarrow> 'd \<Rightarrow> duration \<Rightarrow> instant \<Rightarrow> string \<Rightarrow> 's \<Rightarrow> (change_error, 'p \<times> 'd effect) result \<times> 's"

type_synonym ('s, 'd) confirm_op =
  "string \<Rightarrow> instant \<Rightarrow> 's \<Rightarrow> (change_error, 'd effect) result \<times> 's"

type_synonym ('s, 'd) revert_op = "instant \<Rightarrow> 's \<Rightarrow> (change_error, 'd effect) result \<times> 's"

type_synonym ('s, 'd) tick_op = "instant \<Rightarrow> 's \<Rightarrow> 'd effect \<times> 's"

type_synonym 's touch_op = "instant \<Rightarrow> 's \<Rightarrow> 's"

text \<open>The world: the state machine, the document the network runs, and the last document
  written to the overlay since the start.\<close>

record ('s, 'd) world =
  w_state :: 's
  w_running :: 'd
  w_file :: "'d option"

datatype 'd event =
    EApply 'd duration instant string
  | EConfirm string instant
  | ERevert instant
  | ETick instant
  | ETouch instant

definition carry :: "'d effect \<Rightarrow> ('s, 'd) world \<Rightarrow> ('s, 'd) world" where
  "carry e w =
     (case e of
        Apply d \<Rightarrow> w\<lparr>w_running := d\<rparr>
      | Persist d \<Rightarrow> w\<lparr>w_file := Some d\<rparr>
      | NoEffect \<Rightarrow> w)"

fun world_step :: "('s, 'd, 'p) apply_op \<Rightarrow> ('s, 'd) confirm_op \<Rightarrow> ('s, 'd) revert_op
    \<Rightarrow> ('s, 'd) tick_op \<Rightarrow> 's touch_op \<Rightarrow> ('s, 'd) world \<Rightarrow> 'd event \<Rightarrow> ('s, 'd) world" where
  "world_step ap cf rv tk tc w (EApply d win now tok) =
     (case ap d (w_running w) win now tok (w_state w) of
        (Inl _, s) \<Rightarrow> w\<lparr>w_state := s\<rparr>
      | (Inr (_, e), s) \<Rightarrow> carry e (w\<lparr>w_state := s\<rparr>))"
| "world_step ap cf rv tk tc w (EConfirm tok now) =
     (case cf tok now (w_state w) of
        (Inl _, s) \<Rightarrow> w\<lparr>w_state := s\<rparr>
      | (Inr e, s) \<Rightarrow> carry e (w\<lparr>w_state := s\<rparr>))"
| "world_step ap cf rv tk tc w (ERevert now) =
     (case rv now (w_state w) of
        (Inl _, s) \<Rightarrow> w\<lparr>w_state := s\<rparr>
      | (Inr e, s) \<Rightarrow> carry e (w\<lparr>w_state := s\<rparr>))"
| "world_step ap cf rv tk tc w (ETick now) =
     (case tk now (w_state w) of (e, s) \<Rightarrow> carry e (w\<lparr>w_state := s\<rparr>))"
| "world_step ap cf rv tk tc w (ETouch now) = w\<lparr>w_state := tc now (w_state w)\<rparr>"

section \<open>The interface\<close>

locale confirm_window =
  fixes confirmed :: "'s \<Rightarrow> 'd option"
    and pending :: "'s \<Rightarrow> 'p option"
    and p_doc :: "'p \<Rightarrow> 'd"
    and p_snapshot :: "'p \<Rightarrow> 'd"
    and p_token :: "'p \<Rightarrow> string"
    and expired :: "'p \<Rightarrow> instant \<Rightarrow> bool"
    and ap :: "('s, 'd, 'p) apply_op"
    and cf :: "('s, 'd) confirm_op"
    and rv :: "('s, 'd) revert_op"
    and tk :: "('s, 'd) tick_op"
    and tc :: "'s touch_op"
  assumes ap_ok: "ap d run win now tok s = (Inr (p, e), s') \<Longrightarrow>
      pending s = None \<and> pending s' = Some p \<and> confirmed s' = confirmed s
      \<and> p_doc p = d \<and> p_snapshot p = run \<and> p_token p = tok \<and> e = Apply d"
    and ap_err: "ap d run win now tok s = (Inl x, s') \<Longrightarrow> s' = s"
    and ap_accepts: "pending s = None \<Longrightarrow> window_ok win \<Longrightarrow> is_ok (fst (ap d run win now tok s))"
    and cf_ok: "cf tok now s = (Inr e, s') \<Longrightarrow>
      \<exists>p. pending s = Some p \<and> p_token p = tok \<and> \<not> expired p now \<and> e = Persist (p_doc p)
        \<and> pending s' = None \<and> confirmed s' = Some (p_doc p)"
    and cf_err: "cf tok now s = (Inl x, s') \<Longrightarrow> s' = s"
    and cf_accepts: "pending s = Some p \<Longrightarrow> p_token p = tok \<Longrightarrow> \<not> expired p now \<Longrightarrow>
      is_ok (fst (cf tok now s))"
    and rv_ok: "rv now s = (Inr e, s') \<Longrightarrow>
      \<exists>p. pending s = Some p \<and> e = Apply (p_snapshot p) \<and> pending s' = None
        \<and> confirmed s' = confirmed s"
    and rv_err: "rv now s = (Inl x, s') \<Longrightarrow> s' = s \<and> pending s = None"
    and tk_none: "pending s = None \<Longrightarrow> tk now s = (NoEffect, s)"
    and tk_waits: "pending s = Some p \<Longrightarrow> \<not> expired p now \<Longrightarrow> tk now s = (NoEffect, s)"
    and tk_expired: "pending s = Some p \<Longrightarrow> expired p now \<Longrightarrow> tk now s = (e, s') \<Longrightarrow>
      e = Apply (p_snapshot p) \<and> pending s' = None \<and> confirmed s' = confirmed s"
    and tc_none: "pending s = None \<Longrightarrow> pending (tc now s) = None"
    and tc_some: "pending s = Some p \<Longrightarrow> \<exists>q. pending (tc now s) = Some q
      \<and> p_doc q = p_doc p \<and> p_snapshot q = p_snapshot p \<and> p_token q = p_token p"
    and tc_confirmed: "confirmed (tc now s) = confirmed s"
begin

abbreviation step :: "('s, 'd) world \<Rightarrow> 'd event \<Rightarrow> ('s, 'd) world" where
  "step \<equiv> world_step ap cf rv tk tc"

text \<open>What the network comes back to: the last confirmed document, or what ran first.\<close>

definition home :: "'d \<Rightarrow> ('s, 'd) world \<Rightarrow> 'd" where
  "home run0 w = (case w_file w of None \<Rightarrow> run0 | Some d \<Rightarrow> d)"

definition settled :: "'d option \<Rightarrow> 'd \<Rightarrow> ('s, 'd) world \<Rightarrow> bool" where
  "settled c0 run0 w =
     (confirmed (w_state w) = (case w_file w of None \<Rightarrow> c0 | Some d \<Rightarrow> Some d)
      \<and> (case pending (w_state w) of
           None \<Rightarrow> w_running w = home run0 w
         | Some p \<Rightarrow> w_running w = p_doc p \<and> p_snapshot p = home run0 w))"

lemma settled_apply:
  assumes "settled c0 run0 w" shows "settled c0 run0 (step w (EApply d win now tok))"
proof (cases "ap d (w_running w) win now tok (w_state w)")
  case (Pair r s')
  then show ?thesis
    using assms ap_ok [of d "w_running w" win now tok "w_state w" _ _ s']
      ap_err [of d "w_running w" win now tok "w_state w" _ s']
    by (cases r) (auto simp: settled_def home_def carry_def split: option.splits)
qed

lemma settled_confirm:
  assumes "settled c0 run0 w" shows "settled c0 run0 (step w (EConfirm tok now))"
proof (cases "cf tok now (w_state w)")
  case (Pair r s')
  then show ?thesis
    using assms cf_ok [of tok now "w_state w" _ s'] cf_err [of tok now "w_state w" _ s']
    by (cases r) (auto simp: settled_def home_def carry_def split: option.splits)
qed

lemma settled_revert:
  assumes "settled c0 run0 w" shows "settled c0 run0 (step w (ERevert now))"
proof (cases "rv now (w_state w)")
  case (Pair r s')
  then show ?thesis
    using assms rv_ok [of now "w_state w" _ s'] rv_err [of now "w_state w" _ s']
    by (cases r) (auto simp: settled_def home_def carry_def split: option.splits)
qed

lemma settled_tick:
  assumes "settled c0 run0 w" shows "settled c0 run0 (step w (ETick now))"
proof (cases "pending (w_state w)")
  case None
  then show ?thesis using assms tk_none by (simp add: carry_def)
next
  case (Some p)
  obtain e s' where t: "tk now (w_state w) = (e, s')" by (cases "tk now (w_state w)")
  show ?thesis
    using assms Some t tk_waits [OF Some] tk_expired [OF Some _ t]
    by (cases "expired p now")
      (auto simp: settled_def home_def carry_def split: option.splits)
qed

lemma settled_touch:
  assumes "settled c0 run0 w" shows "settled c0 run0 (step w (ETouch now))"
  using assms tc_none [of "w_state w" now] tc_some [of "w_state w" _ now]
  by (cases "pending (w_state w)") (auto simp: settled_def home_def tc_confirmed)

lemma settled_step: "settled c0 run0 w \<Longrightarrow> settled c0 run0 (step w ev)"
  by (cases ev) (simp_all only: settled_apply settled_confirm settled_revert settled_tick
      settled_touch)

lemma settled_run:
  "settled c0 run0 w \<Longrightarrow> settled c0 run0 (foldl step w evs)"
  by (induction evs arbitrary: w) (simp_all add: settled_step del: world_step.simps)

lemma settled_start:
  "pending s = None \<Longrightarrow>
     settled (confirmed s) run0 \<lparr>w_state = s, w_running = run0, w_file = None\<rparr>"
  by (simp add: settled_def home_def)

lemmas settled_always = settled_run [OF settled_start]

text \<open>One change at a time: while a change waits, nothing but its own confirmation writes the
  file, and a second apply is refused.\<close>

lemma apply_while_pending:
  assumes "pending s = Some p"
  shows "snd (ap d run win now tok s) = s \<and> \<not> is_ok (fst (ap d run win now tok s))"
proof (cases "ap d run win now tok s")
  case (Pair r s')
  then show ?thesis
    using assms ap_ok [of d run win now tok s _ _ s'] ap_err [of d run win now tok s _ s']
    by (cases r) auto
qed

end

end
