(* ===== verification/Switch_Change.thy ===== *)
theory Switch_Change
  imports Switch_Document Confirm_Window
begin

text \<open>
  \<^verbatim>\<open>bmcd/src/app/switch_change.rs\<close>: the state machine of a change to the switch. It differs
  from the address's in that its window does not run until the uplink has been seen
  forwarding. The second instance of the confirm-window contract.
\<close>

section \<open>State\<close>

datatype switch_revert_reason = SwitchNotConfirmed | SwitchRequested

record switch_revert_record =
  sr_at :: instant
  sr_reason :: switch_revert_reason
  sr_document :: switch_document

record switch_pending =
  sp_token :: string
  sp_document :: switch_document
  sp_snapshot :: switch_document
  sp_applied_at :: instant
  sp_window_s :: nat
  sp_counting_from :: "instant option"

definition sp_deadline :: "switch_pending \<Rightarrow> instant option" where
  "sp_deadline p = map_option (\<lambda>from. from + from_secs (sp_window_s p)) (sp_counting_from p)"

definition sp_expired_at :: "switch_pending \<Rightarrow> instant \<Rightarrow> bool" where
  "sp_expired_at p now = (case sp_deadline p of None \<Rightarrow> False | Some deadline \<Rightarrow> deadline \<le> now)"

record switch_state =
  ss_confirmed :: "switch_document option"
  ss_pending :: "switch_pending option"
  ss_last_revert :: "switch_revert_record option"

definition switch_state_default :: switch_state where
  "switch_state_default = \<lparr>ss_confirmed = None, ss_pending = None, ss_last_revert = None\<rparr>"

type_synonym switch_effect = "switch_document effect"

section \<open>Operations\<close>

definition switch_adopt_persisted :: "switch_document \<Rightarrow> switch_state \<Rightarrow> switch_state" where
  "switch_adopt_persisted d s = s\<lparr>ss_confirmed := Some d\<rparr>"

definition switch_apply ::
  "switch_document \<Rightarrow> switch_document \<Rightarrow> duration \<Rightarrow> instant \<Rightarrow> string \<Rightarrow> switch_state
   \<Rightarrow> (change_error, switch_pending \<times> switch_effect) result \<times> switch_state" where
  "switch_apply d running window now token s =
     (if \<not> window_ok window then (Inl WindowOutOfRange, s)
      else if ss_pending s \<noteq> None then (Inl AlreadyPending, s)
      else
        (let p = \<lparr>sp_token = token, sp_document = d, sp_snapshot = running, sp_applied_at = now,
                  sp_window_s = as_secs window, sp_counting_from = None\<rparr>
         in (Inr (p, Apply d), s\<lparr>ss_pending := Some p\<rparr>)))"

definition uplink_forwarding :: "instant \<Rightarrow> switch_state \<Rightarrow> switch_state" where
  "uplink_forwarding now s =
     (case ss_pending s of
        None \<Rightarrow> s
      | Some p \<Rightarrow>
          if sp_counting_from p = None
          then s\<lparr>ss_pending := Some (p\<lparr>sp_counting_from := Some now\<rparr>)\<rparr> else s)"

definition switch_confirm ::
  "string \<Rightarrow> instant \<Rightarrow> switch_state \<Rightarrow> (change_error, switch_effect) result \<times> switch_state" where
  "switch_confirm token now s =
     (case ss_pending s of
        None \<Rightarrow> (Inl NothingPending, s)
      | Some p \<Rightarrow>
          if sp_token p \<noteq> token then (Inl WrongToken, s)
          else if sp_expired_at p now then (Inl NothingPending, s)
          else (Inr (Persist (sp_document p)),
                s\<lparr>ss_confirmed := Some (sp_document p), ss_pending := None\<rparr>))"

definition switch_revert ::
  "instant \<Rightarrow> switch_state \<Rightarrow> (change_error, switch_effect) result \<times> switch_state" where
  "switch_revert now s =
     (case ss_pending s of
        None \<Rightarrow> (Inl NothingPending, s)
      | Some p \<Rightarrow>
          (Inr (Apply (sp_snapshot p)),
           s\<lparr>ss_pending := None,
             ss_last_revert := Some \<lparr>sr_at = now, sr_reason = SwitchRequested,
               sr_document = sp_document p\<rparr>\<rparr>))"

definition switch_tick :: "instant \<Rightarrow> switch_state \<Rightarrow> switch_effect \<times> switch_state" where
  "switch_tick now s =
     (case ss_pending s of
        None \<Rightarrow> (NoEffect, s)
      | Some p \<Rightarrow>
          if \<not> sp_expired_at p now then (NoEffect, s)
          else
            (Apply (sp_snapshot p),
             s\<lparr>ss_pending := None,
               ss_last_revert := Some \<lparr>sr_at = now, sr_reason = SwitchNotConfirmed,
                 sr_document = sp_document p\<rparr>\<rparr>))"

lemmas switch_change_defs [change_simps] =
  switch_apply_def switch_confirm_def switch_revert_def switch_tick_def uplink_forwarding_def
  switch_adopt_persisted_def

section \<open>The confirm-window contract\<close>

interpretation swch: confirm_window ss_confirmed ss_pending sp_document sp_snapshot sp_token
  sp_expired_at switch_apply switch_confirm switch_revert switch_tick uplink_forwarding
  by unfold_locales
    (auto simp: change_simps Let_def split: if_splits option.splits)

section \<open>Properties\<close>

text \<open>whatever sequence of applies, confirmations, reverts, timer ticks and uplink events the
  switch goes through, the layout it runs when no change is waiting is the last confirmed one
  (or the one it started with), a waiting change holds exactly that layout as its way back,
  and nothing that was not confirmed is ever persisted.\<close>

theorem switch_settles:
  assumes "ss_pending s0 = None"
    and "w = foldl (world_step switch_apply switch_confirm switch_revert switch_tick uplink_forwarding)
             \<lparr>w_state = s0, w_running = run0, w_file = None\<rparr> evs"
  shows "ss_confirmed (w_state w)
      = (case w_file w of None \<Rightarrow> ss_confirmed s0 | Some d \<Rightarrow> Some d)
    \<and> (case ss_pending (w_state w) of
         None \<Rightarrow> w_running w = (case w_file w of None \<Rightarrow> run0 | Some d \<Rightarrow> d)
       | Some p \<Rightarrow> w_running w = sp_document p
           \<and> sp_snapshot p = (case w_file w of None \<Rightarrow> run0 | Some d \<Rightarrow> d))"
  using swch.settled_always [OF assms(1), of run0 evs]
  unfolding assms(2) swch.settled_def swch.home_def .

theorem switch_settles_witness:
  "w_running (foldl (world_step switch_apply switch_confirm switch_revert switch_tick uplink_forwarding)
      \<lparr>w_state = switch_state_default, w_running = expand Flat, w_file = None\<rparr>
      [EApply (expand Split) (from_secs 30) 0 ''t'', ETouch (from_secs 5), EConfirm ''t'' (from_secs 9)])
    = expand Split"
proof -
  let ?w = "foldl (world_step switch_apply switch_confirm switch_revert switch_tick uplink_forwarding)
      \<lparr>w_state = switch_state_default, w_running = expand Flat, w_file = None\<rparr>
      [EApply (expand Split) (from_secs 30) 0 ''t'', ETouch (from_secs 5), EConfirm ''t'' (from_secs 9)]"
  have start: "ss_pending switch_state_default = None" by (simp add: switch_state_default_def)
  have "ss_pending (w_state ?w) = None \<and> w_file ?w = Some (expand Split)"
    by (simp add: change_simps switch_state_default_def window_ok_def MIN_WINDOW_def MAX_WINDOW_def
        Let_def carry_def sp_expired_at_def sp_deadline_def from_secs_def as_secs_def)
  then show ?thesis using switch_settles [OF start, of ?w "expand Flat", OF refl] by simp
qed

text \<open>the window of a switch change runs from the first time the uplink forwards: later
  reports do not move it, until it has started no tick puts the change back and no confirmation
  is late, and once it has started the change is put back by the first tick at or after its
  end, and a confirmation is refused from then on.\<close>

theorem switch_window:
  assumes "switch_apply d running window now token s = (Inr (p, e), s')"
  shows "e = Apply d \<and> switch_tick t s' = (NoEffect, s')
    \<and> fst (switch_confirm token t s') = Inr (Persist d)
    \<and> uplink_forwarding up2 (uplink_forwarding up s') = uplink_forwarding up s'
    \<and> fst (switch_tick t (uplink_forwarding up s'))
        = (if t < up + from_secs (as_secs window) then NoEffect else Apply running)
    \<and> fst (switch_confirm token t (uplink_forwarding up s'))
        = (if t < up + from_secs (as_secs window) then Inr (Persist d) else Inl NothingPending)"
proof -
  have s': "s' = s\<lparr>ss_pending := Some p\<rparr>" and e: "e = Apply d"
    and p: "p = \<lparr>sp_token = token, sp_document = d, sp_snapshot = running, sp_applied_at = now,
      sp_window_s = as_secs window, sp_counting_from = None\<rparr>"
    using assms by (auto simp: change_simps Let_def split: if_splits)
  show ?thesis by (auto simp: s' p e change_simps sp_expired_at_def sp_deadline_def)
qed

theorem switch_window_witness:
  "\<exists>p s'. switch_apply (expand Split) (expand Flat) (from_secs 30) 0 ''t'' switch_state_default
      = (Inr (p, Apply (expand Split)), s')
    \<and> fst (switch_tick (from_secs 40) (uplink_forwarding (from_secs 5) s')) = Apply (expand Flat)"
proof -
  obtain p s' where a: "switch_apply (expand Split) (expand Flat) (from_secs 30) 0 ''t''
      switch_state_default = (Inr (p, Apply (expand Split)), s')"
    by (simp add: change_simps switch_state_default_def window_ok_def MIN_WINDOW_def MAX_WINDOW_def Let_def)
  show ?thesis
    using a switch_window [OF a, of "from_secs 40" 0 "from_secs 5"] by (auto simp: from_secs_def as_secs_def)
qed

end
