(* ===== verification/Switch_Applier.thy ===== *)
theory Switch_Applier
  imports Switch_Change Network_Interfaces
begin

text \<open>
  \<^verbatim>\<open>bmcd/src/app/switch_applier.rs\<close>: the commands that move the switch from one document to
  another, and \<open>run_all\<close> of \<^verbatim>\<open>switch_service.rs\<close>, which runs them in order and stops at the
  first failure. A command is its argument vector; running it is the host's \<open>spawn\<close>.
\<close>

section \<open>The plan\<close>

definition interface_name :: "port_id \<Rightarrow> string option" where
  "interface_name p =
     (case p of
        Node1 \<Rightarrow> Some ''node1'' | Node2 \<Rightarrow> Some ''node2''
      | Node3 \<Rightarrow> Some ''node3'' | Node4 \<Rightarrow> Some ''node4''
      | Ge0 \<Rightarrow> Some ''ge0'' | Ge1 \<Rightarrow> Some ''ge1''
      | Bmc \<Rightarrow> None)"

definition BRIDGE :: string where "BRIDGE = ''br0''"

type_synonym command = "string list"

definition bridge_option :: "string \<Rightarrow> string \<Rightarrow> command" where
  "bridge_option key v =
     [''ip'', ''link'', ''set'', ''dev'', BRIDGE, ''type'', ''bridge'', key, v]"

definition vid_string :: "u16 \<Rightarrow> string" where
  "vid_string v = show_nat (unat v)"

definition vlan_del :: "string \<Rightarrow> u16 \<Rightarrow> command" where
  "vlan_del name v = [''bridge'', ''vlan'', ''del'', ''dev'', name, ''vid'', vid_string v]"

definition vlan_add :: "string \<Rightarrow> u16 \<Rightarrow> command" where
  "vlan_add name v = [''bridge'', ''vlan'', ''add'', ''dev'', name, ''vid'', vid_string v]"

definition vlan_add_untagged :: "string \<Rightarrow> u16 \<Rightarrow> command" where
  "vlan_add_untagged name v = vlan_add name v @ [''pvid'', ''untagged'']"

definition port_dels :: "switch_document \<Rightarrow> switch_document \<Rightarrow> port_id \<Rightarrow> command list" where
  "port_dels running wanted p =
     (case interface_name p of
        None \<Rightarrow> []
      | Some name \<Rightarrow>
          map (vlan_del name)
            (filter (\<lambda>v. v \<notin> set (pc_vlans (sd_port wanted p))) (pc_vlans (sd_port running p))))"

definition port_adds :: "switch_document \<Rightarrow> switch_document \<Rightarrow> port_id \<Rightarrow> command list" where
  "port_adds running wanted p =
     (case interface_name p of
        None \<Rightarrow> []
      | Some name \<Rightarrow>
          map (vlan_add name)
            (filter (\<lambda>v. v \<notin> set (pc_tagged (sd_port running p))) (pc_tagged (sd_port wanted p)))
          @ (case pc_untagged (sd_port wanted p) of
               None \<Rightarrow> []
             | Some v \<Rightarrow>
                 if pc_untagged (sd_port running p) \<noteq> Some v then [vlan_add_untagged name v] else []))"

definition plan :: "switch_document \<Rightarrow> switch_document \<Rightarrow> command list" where
  "plan running wanted =
     (if \<not> sd_vlan_filtering wanted \<and> sd_vlan_filtering running
      then [bridge_option ''vlan_filtering'' ''0''] else [])
     @ concat (map (port_dels running wanted) ALL_PORTS)
     @ concat (map (port_adds running wanted) ALL_PORTS)
     @ (if sd_vlan_filtering wanted \<and> \<not> sd_vlan_filtering running
        then [bridge_option ''vlan_filtering'' ''1''] else [])
     @ (if sd_stp wanted \<noteq> sd_stp running
        then [bridge_option ''stp_state'' (if sd_stp wanted then ''1'' else ''0'')] else [])"

text \<open>\<open>SwitchError\<close>, and one constructor more for the panic of \<open>expect\<close> on an empty command.
  Starting a program is a parameter: it fails to start, or ends with a status and its
  standard error.\<close>

datatype switch_error =
    SwitchChange change_error
  | SwitchCommand string string
  | SwitchIo io_error
  | NoBridge string
  | Panicked

record process_output =
  po_success :: bool
  po_stderr :: string

type_synonym 'n process = "string \<Rightarrow> string list \<Rightarrow> 'n \<Rightarrow> (io_error, process_output) result \<times> 'n"

definition run_command :: "'n process \<Rightarrow> command \<Rightarrow> 'n \<Rightarrow> (switch_error, unit) result \<times> 'n" where
  "run_command spawn c n =
     (case c of
        [] \<Rightarrow> (Inl Panicked, n)
      | program # args \<Rightarrow>
          (case spawn program args n of
             (Inl e, n) \<Rightarrow> (Inl (SwitchIo e), n)
           | (Inr out, n) \<Rightarrow>
               if \<not> po_success out
               then (Inl (SwitchCommand (join '' '' c) (trim (po_stderr out))), n)
               else (Inr (), n)))"

fun run_all :: "'n process \<Rightarrow> command list \<Rightarrow> 'n \<Rightarrow> (switch_error, unit) result \<times> 'n" where
  "run_all spawn [] n = (Inr (), n)"
| "run_all spawn (c # cs) n =
     (case run_command spawn c n of
        (Inl e, n) \<Rightarrow> (Inl e, n)
      | (Inr _, n) \<Rightarrow> run_all spawn cs n)"

section \<open>What the commands do\<close>

text \<open>The kernel's view of a port: the VLAN untagged frames belong to, and the VLANs carried with
  tags. The documented effect of \<^verbatim>\<open>bridge vlan\<close> and of the bridge options, on three
  observations of the kernel state; a command that fails is under no law.\<close>

type_synonym port_view = "u16 option \<times> u16 set"

definition view_del :: "u16 \<Rightarrow> port_view \<Rightarrow> port_view" where
  "view_del v pv = (if fst pv = Some v then None else fst pv, snd pv - {v})"

definition view_add :: "u16 \<Rightarrow> port_view \<Rightarrow> port_view" where
  "view_add v pv = (if fst pv = Some v then None else fst pv, insert v (snd pv))"

definition view_add_untagged :: "u16 \<Rightarrow> port_view \<Rightarrow> port_view" where
  "view_add_untagged v pv = (Some v, snd pv - {v})"

record bridge_view =
  bv_port :: "string \<Rightarrow> port_view"
  bv_filtering :: bool
  bv_stp :: bool

definition set_port :: "string \<Rightarrow> (port_view \<Rightarrow> port_view) \<Rightarrow> bridge_view \<Rightarrow> bridge_view" where
  "set_port x f bv = bv\<lparr>bv_port := (bv_port bv)(x := f (bv_port bv x))\<rparr>"

definition bridge_laws :: "'n process \<Rightarrow> ('n \<Rightarrow> bridge_view) \<Rightarrow> bool" where
  "bridge_laws spawn view =
     ((\<forall>x v n n'. run_command spawn (vlan_del x v) n = (Inr (), n') \<longrightarrow>
         view n' = set_port x (view_del v) (view n))
      \<and> (\<forall>x v n n'. run_command spawn (vlan_add x v) n = (Inr (), n') \<longrightarrow>
         view n' = set_port x (view_add v) (view n))
      \<and> (\<forall>x v n n'. run_command spawn (vlan_add_untagged x v) n = (Inr (), n') \<longrightarrow>
         fst (bv_port (view n) x) \<in> {None, Some v} \<longrightarrow>
         view n' = set_port x (view_add_untagged v) (view n))
      \<and> (\<forall>b n n'. run_command spawn (bridge_option ''vlan_filtering'' (if b then ''1'' else ''0'')) n = (Inr (), n') \<longrightarrow> view n' = (view n)\<lparr>bv_filtering := b\<rparr>)
      \<and> (\<forall>b n n'. run_command spawn (bridge_option ''stp_state'' (if b then ''1'' else ''0'')) n = (Inr (), n') \<longrightarrow> view n' = (view n)\<lparr>bv_stp := b\<rparr>))"

definition config_view :: "port_config \<Rightarrow> port_view" where
  "config_view c = (pc_untagged c, set (pc_tagged c))"

definition shows_document :: "bridge_view \<Rightarrow> switch_document \<Rightarrow> bool" where
  "shows_document bv d =
     (bv_filtering bv = sd_vlan_filtering d \<and> bv_stp bv = sd_stp d
      \<and> list_all (\<lambda>p. case interface_name p of
            None \<Rightarrow> True
          | Some x \<Rightarrow> bv_port bv x = config_view (sd_port d p)) ALL_PORTS)"

section \<open>Running a plan\<close>

lemma law_del:
  "bridge_laws spawn view \<Longrightarrow> run_command spawn (vlan_del x v) n = (Inr (), n') \<Longrightarrow>
     view n' = set_port x (view_del v) (view n)"
  unfolding bridge_laws_def by (drule conjunct1, (drule spec)+, erule (1) mp)

lemma law_add:
  "bridge_laws spawn view \<Longrightarrow> run_command spawn (vlan_add x v) n = (Inr (), n') \<Longrightarrow>
     view n' = set_port x (view_add v) (view n)"
  unfolding bridge_laws_def by (drule conjunct2, drule conjunct1, (drule spec)+, erule (1) mp)

lemma law_add_untagged:
  "bridge_laws spawn view \<Longrightarrow> run_command spawn (vlan_add_untagged x v) n = (Inr (), n') \<Longrightarrow>
     fst (bv_port (view n) x) \<in> {None, Some v} \<Longrightarrow>
     view n' = set_port x (view_add_untagged v) (view n)"
  unfolding bridge_laws_def by (drule conjunct2, drule conjunct2, drule conjunct1, (drule spec)+, drule (1) mp, erule (1) mp)

lemma law_filtering:
  "bridge_laws spawn view \<Longrightarrow> run_command spawn (bridge_option ''vlan_filtering'' (if b then ''1'' else ''0'')) n = (Inr (), n') \<Longrightarrow>
     view n' = (view n)\<lparr>bv_filtering := b\<rparr>"
  unfolding bridge_laws_def by (drule conjunct2, drule conjunct2, drule conjunct2, drule conjunct1, (drule spec)+, erule (1) mp)

lemma law_stp:
  "bridge_laws spawn view \<Longrightarrow> run_command spawn (bridge_option ''stp_state'' (if b then ''1'' else ''0'')) n = (Inr (), n') \<Longrightarrow>
     view n' = (view n)\<lparr>bv_stp := b\<rparr>"
  unfolding bridge_laws_def by (drule conjunct2, drule conjunct2, drule conjunct2, drule conjunct2, (drule spec)+, erule (1) mp)

lemma run_all_append:
  "run_all spawn (cs @ ds) n =
     (case run_all spawn cs n of (Inl e, n') \<Rightarrow> (Inl e, n') | (Inr _, n') \<Rightarrow> run_all spawn ds n')"
  by (induction cs arbitrary: n) (auto split: sum.splits prod.splits)

lemma run_all_append_ok:
  "run_all spawn (cs @ ds) n = (Inr (), n') \<longleftrightarrow>
     (\<exists>m. run_all spawn cs n = (Inr (), m) \<and> run_all spawn ds m = (Inr (), n'))"
  by (auto simp: run_all_append split: sum.splits prod.splits)

lemma run_all_Cons_ok:
  "run_all spawn (c # cs) n = (Inr (), n') \<longleftrightarrow>
     (\<exists>m. run_command spawn c n = (Inr (), m) \<and> run_all spawn cs m = (Inr (), n'))"
  by (auto split: sum.splits prod.splits)

lemma set_port_simps [simp]:
  "bv_filtering (set_port x f bv) = bv_filtering bv" "bv_stp (set_port x f bv) = bv_stp bv"
  "bv_port (set_port x f bv) y = (if y = x then f (bv_port bv x) else bv_port bv y)"
  by (simp_all add: set_port_def)

lemma set_port_comp: "set_port x g (set_port x f bv) = set_port x (g \<circ> f) bv"
  by (simp add: set_port_def fun_upd_def) (simp add: fun_eq_iff)

lemma set_port_id: "(\<And>pv. f pv = pv) \<Longrightarrow> set_port x f bv = bv"
  by (simp add: set_port_def)

text \<open>A run of deletions or of tagged additions on one port.\<close>

definition view_dels :: "u16 set \<Rightarrow> port_view \<Rightarrow> port_view" where
  "view_dels V pv = (if \<exists>v \<in> V. fst pv = Some v then None else fst pv, snd pv - V)"

definition view_adds :: "u16 set \<Rightarrow> port_view \<Rightarrow> port_view" where
  "view_adds V pv = (if \<exists>v \<in> V. fst pv = Some v then None else fst pv, snd pv \<union> V)"

lemma view_dels_insert: "view_dels V \<circ> view_del v = view_dels (insert v V)"
  by (auto simp: fun_eq_iff view_dels_def view_del_def)

lemma view_adds_insert: "view_adds V \<circ> view_add v = view_adds (insert v V)"
  by (auto simp: fun_eq_iff view_adds_def view_add_def)

lemma run_dels:
  assumes "bridge_laws spawn view" and "run_all spawn (map (vlan_del x) vs) n = (Inr (), n')"
  shows "view n' = set_port x (view_dels (set vs)) (view n)"
  using assms(2)
proof (induction vs arbitrary: n)
  case (Cons v vs)
  then obtain m where e: "run_command spawn (vlan_del x v) n = (Inr (), m)"
    and r: "run_all spawn (map (vlan_del x) vs) m = (Inr (), n')"
    by (auto simp: run_all_Cons_ok simp del: run_all.simps)
  show ?case
    unfolding Cons.IH [OF r] law_del [OF assms(1) e] by (simp add: set_port_comp view_dels_insert)
qed (simp add: set_port_id view_dels_def)

lemma run_adds:
  assumes "bridge_laws spawn view" and "run_all spawn (map (vlan_add x) vs) n = (Inr (), n')"
  shows "view n' = set_port x (view_adds (set vs)) (view n)"
  using assms(2)
proof (induction vs arbitrary: n)
  case (Cons v vs)
  then obtain m where e: "run_command spawn (vlan_add x v) n = (Inr (), m)"
    and r: "run_all spawn (map (vlan_add x) vs) m = (Inr (), n')"
    by (auto simp: run_all_Cons_ok simp del: run_all.simps)
  show ?case
    unfolding Cons.IH [OF r] law_add [OF assms(1) e] by (simp add: set_port_comp view_adds_insert)
qed (simp add: set_port_id view_adds_def)

text \<open>The two passes over the ports. What a pass does to one port depends on that port's view
  alone, and leaves the others as they are.\<close>

definition after_dels :: "port_config \<Rightarrow> port_config \<Rightarrow> port_view \<Rightarrow> port_view" where
  "after_dels was now = view_dels (set (pc_vlans was) - set (pc_vlans now))"

definition after_adds :: "port_config \<Rightarrow> port_config \<Rightarrow> port_view \<Rightarrow> port_view" where
  "after_adds was now pv =
     (let pv = view_adds (set (pc_tagged now) - set (pc_tagged was)) pv
      in case pc_untagged now of
           None \<Rightarrow> pv
         | Some v \<Rightarrow> if pc_untagged was \<noteq> Some v then view_add_untagged v pv else pv)"

lemma interface_name_inj: "interface_name p = Some x \<Longrightarrow> interface_name q = Some x \<Longrightarrow> p = q"
  by (cases p; cases q) (auto simp: interface_name_def)

lemma run_port_dels:
  assumes "bridge_laws spawn view" and "run_all spawn (port_dels running wanted p) n = (Inr (), n')"
  shows "view n' = (case interface_name p of
      None \<Rightarrow> view n
    | Some x \<Rightarrow> set_port x (after_dels (sd_port running p) (sd_port wanted p)) (view n))"
proof (cases "interface_name p")
  case (Some x)
  let ?vs = "filter (\<lambda>v. v \<notin> set (pc_vlans (sd_port wanted p))) (pc_vlans (sd_port running p))"
  have vs: "set ?vs = set (pc_vlans (sd_port running p)) - set (pc_vlans (sd_port wanted p))" by auto
  have "run_all spawn (map (vlan_del x) ?vs) n = (Inr (), n')"
    using assms(2) Some by (simp add: port_dels_def)
  from run_dels [OF assms(1) this, unfolded vs] Some show ?thesis by (simp add: after_dels_def)
qed (use assms(2) in \<open>simp add: port_dels_def\<close>)

text \<open>A port about to be given a new untagged VLAN has no other one left.\<close>

definition ready :: "port_config \<Rightarrow> port_config \<Rightarrow> port_view \<Rightarrow> bool" where
  "ready was now pv =
     (pc_untagged now = None \<or> pc_untagged was = pc_untagged now
      \<or> fst (view_adds (set (pc_tagged now) - set (pc_tagged was)) pv) = None)"

lemma run_port_adds:
  assumes "bridge_laws spawn view" and "run_all spawn (port_adds running wanted p) n = (Inr (), n')"
    and "\<And>x. interface_name p = Some x \<Longrightarrow> ready (sd_port running p) (sd_port wanted p) (bv_port (view n) x)"
  shows "view n' = (case interface_name p of
      None \<Rightarrow> view n
    | Some x \<Rightarrow> set_port x (after_adds (sd_port running p) (sd_port wanted p)) (view n))"
proof (cases "interface_name p")
  case (Some x)
  let ?was = "sd_port running p" and ?now = "sd_port wanted p"
  let ?vs = "filter (\<lambda>v. v \<notin> set (pc_tagged ?was)) (pc_tagged ?now)"
  have vs: "set ?vs = set (pc_tagged ?now) - set (pc_tagged ?was)" by auto
  let ?last = "case pc_untagged ?now of None \<Rightarrow> []
    | Some v \<Rightarrow> if pc_untagged ?was \<noteq> Some v then [vlan_add_untagged x v] else []"
  obtain m where a: "run_all spawn (map (vlan_add x) ?vs) n = (Inr (), m)"
    and b: "run_all spawn ?last m = (Inr (), n')"
    using assms(2) Some by (auto simp: port_adds_def run_all_append_ok)
  note m = run_adds [OF assms(1) a, unfolded vs]
  show ?thesis
  proof (cases "pc_untagged ?now = None \<or> pc_untagged ?was = pc_untagged ?now")
    case True
    then have "n' = m" using b by (auto split: option.splits if_splits)
    moreover have "after_adds ?was ?now = view_adds (set (pc_tagged ?now) - set (pc_tagged ?was))"
      using True by (auto simp: after_adds_def fun_eq_iff Let_def split: option.splits)
    ultimately show ?thesis using m Some by simp
  next
    case False
    then obtain v where v: "pc_untagged ?now = Some v" "pc_untagged ?was \<noteq> Some v" by auto
    then have e: "run_command spawn (vlan_add_untagged x v) m = (Inr (), n')"
      using b by (auto split: sum.splits prod.splits)
    have "fst (bv_port (view m) x) = None" using m assms(3) [OF Some] False by (auto simp: ready_def)
    then have "view n' = set_port x (view_add_untagged v) (view m)"
      by (intro law_add_untagged [OF assms(1) e]) simp
    moreover have "after_adds ?was ?now
        = view_add_untagged v \<circ> view_adds (set (pc_tagged ?now) - set (pc_tagged ?was))"
      using v by (simp add: after_adds_def fun_eq_iff Let_def)
    ultimately show ?thesis using Some by (simp add: m set_port_comp)
  qed
qed (use assms(2) in \<open>simp add: port_adds_def\<close>)

text \<open>A whole pass over a list of different ports.\<close>

lemma run_pass:
  assumes step: "\<And>p n n'. p \<in> set ps \<Longrightarrow> run_all spawn (cmds p) n = (Inr (), n') \<Longrightarrow>
      (\<And>x. interface_name p = Some x \<Longrightarrow> ok p (bv_port (view n) x)) \<Longrightarrow>
      view n' = (case interface_name p of None \<Rightarrow> view n | Some x \<Rightarrow> set_port x (f p) (view n))"
    and "distinct ps" and "run_all spawn (concat (map cmds ps)) n = (Inr (), n')"
    and "\<And>p x. p \<in> set ps \<Longrightarrow> interface_name p = Some x \<Longrightarrow> ok p (bv_port (view n) x)"
  shows "bv_filtering (view n') = bv_filtering (view n) \<and> bv_stp (view n') = bv_stp (view n)
    \<and> (\<forall>p x. interface_name p = Some x \<longrightarrow>
        bv_port (view n') x = (if p \<in> set ps then f p (bv_port (view n) x) else bv_port (view n) x))"
  using assms
proof (induction ps arbitrary: n)
  case (Cons p ps)
  obtain m where a: "run_all spawn (cmds p) n = (Inr (), m)"
    and b: "run_all spawn (concat (map cmds ps)) m = (Inr (), n')"
    using Cons.prems(3) by (auto simp: run_all_append_ok)
  have m: "view m = (case interface_name p of None \<Rightarrow> view n | Some x \<Rightarrow> set_port x (f p) (view n))"
    using Cons.prems(1) [OF _ a] Cons.prems(4) by simp
  have other: "bv_port (view m) x = bv_port (view n) x" if "interface_name q = Some x" "q \<noteq> p" for q x
    using that interface_name_inj [of q x p] by (auto simp: m split: option.splits)
  have ih: "bv_filtering (view n') = bv_filtering (view m) \<and> bv_stp (view n') = bv_stp (view m)
    \<and> (\<forall>p x. interface_name p = Some x \<longrightarrow>
        bv_port (view n') x = (if p \<in> set ps then f p (bv_port (view m) x) else bv_port (view m) x))"
  proof (rule Cons.IH)
    show "distinct ps" using Cons.prems(2) by simp
    show "run_all spawn (concat (map cmds ps)) m = (Inr (), n')" by (rule b)
    show "ok q (bv_port (view m) x)" if "q \<in> set ps" "interface_name q = Some x" for q x
    proof -
      have "q \<noteq> p" using that Cons.prems(2) by auto
      then show ?thesis using other [OF that(2)] Cons.prems(4) [of q x] that by simp
    qed
  qed (use Cons.prems(1) in auto)
  have "bv_port (view n') x = (if q \<in> set (p # ps) then f q (bv_port (view n) x) else bv_port (view n) x)"
    if q: "interface_name q = Some x" for q x
  proof (cases "q = p")
    case True
    then show ?thesis using ih q Cons.prems(2) by (simp add: m)
  next
    case False
    then show ?thesis using ih q other [OF q] by simp
  qed
  moreover have "bv_filtering (view m) = bv_filtering (view n)" "bv_stp (view m) = bv_stp (view n)"
    by (simp_all add: m split: option.splits)
  ultimately show ?case using ih by simp
qed simp

text \<open>The bridge's own options.\<close>

lemma law_option:
  assumes "bridge_laws spawn view"
  shows "run_command spawn (bridge_option ''vlan_filtering'' ''0'') n = (Inr (), n') \<Longrightarrow>
           view n' = (view n)\<lparr>bv_filtering := False\<rparr>"
    and "run_command spawn (bridge_option ''vlan_filtering'' ''1'') n = (Inr (), n') \<Longrightarrow>
           view n' = (view n)\<lparr>bv_filtering := True\<rparr>"
  using law_filtering [OF assms, of False] law_filtering [OF assms, of True] by simp_all

section \<open>One port, from one document to the other\<close>

definition port_ok :: "port_config \<Rightarrow> bool" where
  "port_ok c = (case pc_untagged c of None \<Rightarrow> True | Some u \<Rightarrow> u \<notin> set (pc_tagged c))"

lemma well_formed_port_ok: "well_formed_ports d \<Longrightarrow> port_ok (sd_port d p)"
  by (auto simp: well_formed_ports_def list_all_iff port_ok_def)

lemma port_ready:
  assumes "port_ok was" and "port_ok now"
  shows "ready was now (after_dels was now (config_view was))"
  using assms
  by (auto simp: ready_def after_dels_def view_dels_def view_adds_def config_view_def set_pc_vlans
      port_ok_def split: option.splits if_splits)

lemma port_moved:
  assumes "port_ok was" and "port_ok now"
  shows "after_adds was now (after_dels was now (config_view was)) = config_view now"
  using assms
  by (cases "pc_untagged was"; cases "pc_untagged now")
    (auto simp: after_adds_def view_add_untagged_def after_dels_def view_dels_def view_adds_def
      config_view_def set_pc_vlans port_ok_def Let_def split: if_splits)

lemma run_plan:
  assumes laws: "bridge_laws spawn view" and "well_formed_ports running" "well_formed_ports wanted"
    and shown: "shows_document (view n) running"
    and run: "run_all spawn (plan running wanted) n = (Inr (), n')"
  shows "shows_document (view n') wanted"
proof -
  let ?was = "sd_port running" and ?now = "sd_port wanted"
  obtain n1 n2 n3 n4 where
      r1: "run_all spawn (if \<not> sd_vlan_filtering wanted \<and> sd_vlan_filtering running
        then [bridge_option ''vlan_filtering'' ''0''] else []) n = (Inr (), n1)"
    and r2: "run_all spawn (concat (map (port_dels running wanted) ALL_PORTS)) n1 = (Inr (), n2)"
    and r3: "run_all spawn (concat (map (port_adds running wanted) ALL_PORTS)) n2 = (Inr (), n3)"
    and r4: "run_all spawn (if sd_vlan_filtering wanted \<and> \<not> sd_vlan_filtering running
        then [bridge_option ''vlan_filtering'' ''1''] else []) n3 = (Inr (), n4)"
    and r5: "run_all spawn (if sd_stp wanted \<noteq> sd_stp running
        then [bridge_option ''stp_state'' (if sd_stp wanted then ''1'' else ''0'')] else []) n4 = (Inr (), n')"
    using run unfolding plan_def run_all_append_ok by blast
  have v1: "view n1 = (if \<not> sd_vlan_filtering wanted \<and> sd_vlan_filtering running then (view n)\<lparr>bv_filtering := False\<rparr> else view n)"
    using r1 by (auto simp: run_all_Cons_ok simp del: run_all.simps(2) dest!: law_option(1) [OF laws] split: if_splits)
  have v4: "view n4 = (if sd_vlan_filtering wanted \<and> \<not> sd_vlan_filtering running then (view n3)\<lparr>bv_filtering := True\<rparr> else view n3)"
    using r4 by (auto simp: run_all_Cons_ok simp del: run_all.simps(2) dest!: law_option(2) [OF laws] split: if_splits)
  have v5: "view n' = (if sd_stp wanted \<noteq> sd_stp running then (view n4)\<lparr>bv_stp := sd_stp wanted\<rparr> else view n4)"
    using r5 law_stp [OF laws, of "sd_stp wanted" n4 n']
    by (auto simp: run_all_Cons_ok simp del: run_all.simps(2) split: if_splits)
  have p0: "bv_port (view n) x = config_view (?was p)" if "interface_name p = Some x" for p x
    using shown that by (auto simp: shows_document_def list_all_iff dest!: spec [of _ p])
  have v2: "bv_filtering (view n2) = bv_filtering (view n1) \<and> bv_stp (view n2) = bv_stp (view n1)
      \<and> (\<forall>p x. interface_name p = Some x \<longrightarrow> bv_port (view n2) x
          = (if p \<in> set ALL_PORTS then after_dels (?was p) (?now p) (bv_port (view n1) x) else bv_port (view n1) x))"
    by (rule run_pass [where ok = "\<lambda>_ _. True", OF _ distinct_ALL_PORTS r2])
      (simp_all add: run_port_dels [OF laws])
  have p2: "bv_port (view n2) x = after_dels (?was p) (?now p) (config_view (?was p))"
    if "interface_name p = Some x" for p x
    using v2 p0 [OF that] that by (simp add: v1)
  have v3: "bv_filtering (view n3) = bv_filtering (view n2) \<and> bv_stp (view n3) = bv_stp (view n2)
      \<and> (\<forall>p x. interface_name p = Some x \<longrightarrow> bv_port (view n3) x
          = (if p \<in> set ALL_PORTS then after_adds (?was p) (?now p) (bv_port (view n2) x) else bv_port (view n2) x))"
  proof (rule run_pass [where ok = "\<lambda>p. ready (?was p) (?now p)", OF _ distinct_ALL_PORTS r3])
    show "ready (?was p) (?now p) (bv_port (view n2) x)" if "interface_name p = Some x" for p x
      using port_ready assms(2,3) by (simp add: p2 [OF that] well_formed_port_ok)
  qed (rule run_port_adds [OF laws])
  have "bv_port (view n') x = config_view (?now p)" if "interface_name p = Some x" for p x
    using v3 that port_moved assms(2,3) by (simp add: v4 v5 p2 [OF that] well_formed_port_ok)
  moreover have "bv_filtering (view n') = sd_vlan_filtering wanted" "bv_stp (view n') = sd_stp wanted"
    using v2 v3 shown by (auto simp: v1 v4 v5 shows_document_def)
  ultimately show ?thesis by (auto simp: shows_document_def list_all_iff split: option.splits)
qed

lemma plan_cong:
  assumes "\<And>p. p \<noteq> Bmc \<Longrightarrow> sd_port r p = sd_port r' p" "\<And>p. p \<noteq> Bmc \<Longrightarrow> sd_port w p = sd_port w' p"
    and "sd_vlan_filtering r = sd_vlan_filtering r'" "sd_vlan_filtering w = sd_vlan_filtering w'"
    and "sd_stp r = sd_stp r'" "sd_stp w = sd_stp w'"
  shows "plan r w = plan r' w'"
proof -
  have "port_dels r w p = port_dels r' w' p \<and> port_adds r w p = port_adds r' w' p" for p
  proof (cases "p = Bmc")
    case True
    then show ?thesis by (simp add: port_dels_def port_adds_def interface_name_def)
  next
    case False
    from assms(1,2) [OF False] show ?thesis by (simp only: port_dels_def port_adds_def)
  qed
  then have "port_dels r w = port_dels r' w'" "port_adds r w = port_adds r' w'" by blast+
  then show ?thesis using assms(3-) by (simp add: plan_def)
qed

section \<open>Failures\<close>

lemma commands_not_Nil [simp]:
  "bridge_option k w \<noteq> []" "vlan_del x v \<noteq> []" "vlan_add x v \<noteq> []" "vlan_add_untagged x v \<noteq> []"
  by (simp_all add: bridge_option_def vlan_del_def vlan_add_def vlan_add_untagged_def)

declare commands_not_Nil [symmetric, simp]

lemma port_commands: "[] \<notin> set (port_dels running wanted p)" "[] \<notin> set (port_adds running wanted p)"
proof -
  have "[] \<notin> set (map (vlan_del x) vs)" "[] \<notin> set (map (vlan_add x) vs)" for x vs by auto
  then show "[] \<notin> set (port_dels running wanted p)" "[] \<notin> set (port_adds running wanted p)"
    by (simp_all add: port_dels_def port_adds_def del: set_map split: option.split)
qed

lemma plan_commands: "[] \<notin> set (plan running wanted)"
  using port_commands by (simp add: plan_def)

lemma run_all_failed:
  assumes "run_all spawn cs n = (Inl e, n')"
  shows "\<exists>pre c post m. cs = pre @ c # post \<and> run_all spawn pre n = (Inr (), m)
     \<and> run_command spawn c m = (Inl e, n')"
  using assms
proof (induction cs arbitrary: n)
  case (Cons c cs)
  obtain r k where c: "run_command spawn c n = (r, k)" by (cases "run_command spawn c n")
  show ?case
  proof (cases r)
    case (Inl e')
    then have "c # cs = [] @ c # cs \<and> run_all spawn [] n = (Inr (), n) \<and> run_command spawn c n = (Inl e, n')"
      using c Cons.prems by simp
    then show ?thesis by blast
  next
    case (Inr u)
    then have "run_all spawn cs k = (Inl e, n')" using c Cons.prems by simp
    then obtain pre d post m where "cs = pre @ d # post" "run_all spawn pre k = (Inr (), m)"
      "run_command spawn d m = (Inl e, n')" using Cons.IH by blast
    then have "c # cs = (c # pre) @ d # post \<and> run_all spawn (c # pre) n = (Inr (), m)
      \<and> run_command spawn d m = (Inl e, n')" using c Inr by simp
    then show ?thesis by blast
  qed
qed simp

lemma run_command_failed:
  "run_command spawn c n = (Inl e, n') \<Longrightarrow> c \<noteq> [] \<Longrightarrow>
     (\<exists>err. spawn (hd c) (tl c) n = (Inl err, n') \<and> e = SwitchIo err)
     \<or> (\<exists>out. spawn (hd c) (tl c) n = (Inr out, n') \<and> \<not> po_success out
          \<and> e = SwitchCommand (join '' '' c) (trim (po_stderr out)))"
  by (auto simp: run_command_def split: list.splits sum.splits prod.splits if_splits)

lemma plan_error:
  assumes "run_all spawn (plan running wanted) n = (Inl e, n')"
  shows "(\<exists>err. e = SwitchIo err) \<or> (\<exists>line detail. e = SwitchCommand line detail)"
proof -
  obtain pre c post m where "plan running wanted = pre @ c # post" and r: "run_command spawn c m = (Inl e, n')"
    using run_all_failed [OF assms] by blast
  then have "c \<noteq> []" using plan_commands [of running wanted] by auto
  from run_command_failed [OF r this] show ?thesis by blast
qed

section \<open>Properties\<close>

text \<open>C4: a plan does what it is for. If the kernel shows one document and every command of the
  plan to another succeeds, the kernel then shows the other one: on each of the six ports the
  untagged VLAN and the tagged VLANs are exactly the wanted ones, whatever combination of
  moves, swaps and removals the two documents ask for, and filtering and spanning tree are as
  wanted. It needs of the documents only that they are well-formed, which is checked before
  one is accepted.\<close>

theorem plan_correct:
  assumes "bridge_laws spawn view" and "well_formed_ports running" and "well_formed_ports wanted"
    and "shows_document (view n) running"
    and "run_all spawn (plan running wanted) n = (Inr (), n')"
  shows "shows_document (view n') wanted"
  by (rule run_plan [OF assms])

text \<open>A kernel that obeys the laws: its state is what it shows.\<close>

definition kernel_effect :: "string list \<Rightarrow> bridge_view \<Rightarrow> bridge_view" where
  "kernel_effect args bv =
     (if args ! 1 = ''del'' then set_port (args ! 3) (view_del (the (parse_u16 (args ! 5)))) bv
      else if length args = 6 then set_port (args ! 3) (view_add (the (parse_u16 (args ! 5)))) bv
      else if args ! 1 = ''add'' then set_port (args ! 3) (view_add_untagged (the (parse_u16 (args ! 5)))) bv
      else if args ! 6 = ''vlan_filtering'' then bv\<lparr>bv_filtering := (args ! 7 = ''1'')\<rparr>
      else bv\<lparr>bv_stp := (args ! 7 = ''1'')\<rparr>)"

definition kernel_spawn :: "bridge_view process" where
  "kernel_spawn program args bv = (Inr \<lparr>po_success = True, po_stderr = []\<rparr>, kernel_effect args bv)"

lemma parse_vid [simp]: "parse_u16 (vid_string v) = Some v"
proof -
  have "unat v < 2 ^ LENGTH(16)" by (rule unsigned_less)
  then show ?thesis by (simp add: parse_u16_def vid_string_def parse_uint_show)
qed

lemma kernel_laws: "bridge_laws kernel_spawn id"
  by (simp add: bridge_laws_def run_command_def kernel_spawn_def kernel_effect_def vlan_del_def
      vlan_add_def vlan_add_untagged_def bridge_option_def)

lemma kernel_runs: "run_all kernel_spawn (plan running wanted) n
    = (Inr (), foldl (\<lambda>bv c. kernel_effect (tl c) bv) n (plan running wanted))"
proof -
  have run: "[] \<notin> set cs \<Longrightarrow> run_all kernel_spawn cs n
      = (Inr (), foldl (\<lambda>bv c. kernel_effect (tl c) bv) n cs)" for cs
  proof (induction cs arbitrary: n)
    case (Cons c cs)
    then show ?case by (cases c) (simp_all add: run_command_def kernel_spawn_def)
  qed simp
  show ?thesis by (rule run [OF plan_commands])
qed

definition flat_view :: bridge_view where
  "flat_view = \<lparr>bv_port = (\<lambda>x. (Some 1, {})), bv_filtering = False, bv_stp = False\<rparr>"

theorem plan_correct_witness:
  "shows_document (foldl (\<lambda>bv c. kernel_effect (tl c) bv) flat_view
     (plan (expand Flat) (expand (Trunk 10 20 Redundant)))) (expand (Trunk 10 20 Redundant))"
proof -
  have w: "well_formed_ports (expand Flat)" "well_formed_ports (expand (Trunk 10 20 Redundant))"
    by (simp add: well_formed_ports_def list_all_iff expand_port set_pc_vlans)
      (simp add: trunk_ports vid_ok_def VID_MIN_def VID_MAX_def word_le_nat_alt)
  have "shows_document (id flat_view) (expand Flat)"
    by (simp add: shows_document_def flat_view_def list_all_iff expand_port config_view_def
        FLAT_VID_def split: option.splits) (simp add: expand_def)
  from plan_correct [OF kernel_laws w this kernel_runs] show ?thesis by simp
qed

text \<open>a plan that fails stopped at a command of the plan: every command before it was run and
  succeeded, none after it was run, and the error is that command's own failure to start, or
  names the whole command line with its trimmed standard error. Running a plan never panics.\<close>

theorem plan_failure:
  assumes "run_all spawn (plan running wanted) n = (Inl e, n')"
  shows "\<exists>pre c post m. plan running wanted = pre @ c # post
    \<and> run_all spawn pre n = (Inr (), m) \<and> c \<noteq> []
    \<and> ((\<exists>err. spawn (hd c) (tl c) m = (Inl err, n') \<and> e = SwitchIo err)
       \<or> (\<exists>out. spawn (hd c) (tl c) m = (Inr out, n') \<and> \<not> po_success out
            \<and> e = SwitchCommand (join '' '' c) (trim (po_stderr out))))"
proof -
  obtain pre c post m where p: "plan running wanted = pre @ c # post"
    and r: "run_all spawn pre n = (Inr (), m)" "run_command spawn c m = (Inl e, n')"
    using run_all_failed [OF assms] by blast
  have "c \<noteq> []" using plan_commands [of running wanted] p by auto
  with p r run_command_failed [OF r(2)] show ?thesis by blast
qed

theorem plan_failure_witness:
  "\<exists>pre c post. plan (expand Flat) (expand Split) = pre @ c # post
    \<and> run_all (\<lambda>_ _ n. (Inl NotFound, n)) pre () = (Inr (), ())"
proof -
  have "run_all (\<lambda>_ _ n. (Inl NotFound, n)) (plan (expand Flat) (expand Split)) () = (Inl (SwitchIo NotFound), ())"
    by (simp add: plan_def expand_def run_command_def bridge_option_def ALL_PORTS_def port_dels_def
        interface_name_def sd_port_def pc_vlans_def pc_only_untagged_def bt_insert_def FLAT_VID_def
        SPLIT_NODE_VID_def vlan_del_def)
  from plan_failure [OF this] show ?thesis by auto
qed

text \<open>the board's own port has no part in a plan, and neither have the names: two documents
  that differ in nothing else are one step apart with no command at all, so the VLAN a
  document gives the board's port is not put on the bridge by this program.\<close>

theorem plan_ignores_bmc:
  "plan (d\<lparr>sd_ports := (sd_ports d)(Bmc := c), sd_names := ns\<rparr>) wanted = plan d wanted
   \<and> plan running (d\<lparr>sd_ports := (sd_ports d)(Bmc := c), sd_names := ns\<rparr>) = plan running d
   \<and> plan d (d\<lparr>sd_ports := (sd_ports d)(Bmc := c), sd_names := ns\<rparr>) = []"
proof -
  let ?d = "d\<lparr>sd_ports := (sd_ports d)(Bmc := c), sd_names := ns\<rparr>"
  have port: "sd_port ?d p = sd_port d p" if "p \<noteq> Bmc" for p
    using that by (simp add: sd_port_def)
  have "plan ?d wanted = plan d wanted" "plan running ?d = plan running d" "plan d ?d = plan d d"
    by (rule plan_cong; simp add: port)+
  moreover have "port_dels d d p = []" "port_adds d d p = []" for p
    by (auto simp: port_dels_def port_adds_def filter_empty_conv split: option.splits)
  then have "plan d d = []" by (simp add: plan_def)
  ultimately show ?thesis by simp
qed

end
