(* ===== verification/Address_Change.thy ===== *)
theory Address_Change
  imports Address_Document Confirm_Window
begin

text \<open>
  \<^verbatim>\<open>bmcd/src/app/address_change.rs\<close>: the state machine of a change to the board's own
  address. Every operation on \<open>&mut self\<close> returns its result with the state after it, and
  the effect the caller has to perform. The machine is an instance of the confirm-window
  contract.
\<close>

section \<open>State\<close>

datatype revert_reason = NotConfirmed | Requested | ApplyFailed

record revert_record =
  rr_at :: instant
  rr_reason :: revert_reason
  rr_detail :: string
  rr_document :: address_document

record address_pending =
  ap_token :: string
  ap_document :: address_document
  ap_snapshot :: address_document
  ap_applied_at :: instant
  ap_window_s :: nat

definition ap_deadline :: "address_pending \<Rightarrow> instant" where
  "ap_deadline p = ap_applied_at p + from_secs (ap_window_s p)"

definition ap_expired_at :: "address_pending \<Rightarrow> instant \<Rightarrow> bool" where
  "ap_expired_at p now = (ap_deadline p \<le> now)"

record address_state =
  as_confirmed :: "address_document option"
  as_pending :: "address_pending option"
  as_last_revert :: "revert_record option"

definition address_state_default :: address_state where
  "address_state_default = \<lparr>as_confirmed = None, as_pending = None, as_last_revert = None\<rparr>"

type_synonym address_effect = "address_document effect"

section \<open>Operations\<close>

definition address_adopt_persisted :: "address_document \<Rightarrow> address_state \<Rightarrow> address_state" where
  "address_adopt_persisted d s = s\<lparr>as_confirmed := Some d\<rparr>"

definition address_set_persisted :: "address_document option \<Rightarrow> address_state \<Rightarrow> address_state" where
  "address_set_persisted d s = s\<lparr>as_confirmed := d\<rparr>"

definition address_clear_last_revert :: "address_state \<Rightarrow> address_state" where
  "address_clear_last_revert s = s\<lparr>as_last_revert := None\<rparr>"

definition address_apply ::
  "address_document \<Rightarrow> address_document \<Rightarrow> duration \<Rightarrow> instant \<Rightarrow> string \<Rightarrow> address_state
   \<Rightarrow> (change_error, address_pending \<times> address_effect) result \<times> address_state" where
  "address_apply d running window now token s =
     (if \<not> window_ok window then (Inl WindowOutOfRange, s)
      else if as_pending s \<noteq> None then (Inl AlreadyPending, s)
      else
        (let p = \<lparr>ap_token = token, ap_document = d, ap_snapshot = running,
                  ap_applied_at = now, ap_window_s = as_secs window\<rparr>
         in (Inr (p, Apply d), s\<lparr>as_pending := Some p\<rparr>)))"

definition address_apply_failed ::
  "instant \<Rightarrow> string \<Rightarrow> address_state \<Rightarrow> address_effect \<times> address_state" where
  "address_apply_failed now detail s =
     (case as_pending s of
        None \<Rightarrow> (NoEffect, s)
      | Some p \<Rightarrow>
          (Apply (ap_snapshot p),
           s\<lparr>as_pending := None,
             as_last_revert := Some \<lparr>rr_at = now, rr_reason = ApplyFailed, rr_detail = detail,
               rr_document = ap_document p\<rparr>\<rparr>))"

definition address_check_confirm ::
  "string \<Rightarrow> instant \<Rightarrow> address_state \<Rightarrow> (change_error, address_document) result" where
  "address_check_confirm token now s =
     (case as_pending s of
        None \<Rightarrow> Inl NothingPending
      | Some p \<Rightarrow>
          if ap_token p \<noteq> token then Inl WrongToken
          else if ap_expired_at p now then Inl NothingPending
          else Inr (ap_document p))"

definition address_confirm ::
  "string \<Rightarrow> instant \<Rightarrow> address_state \<Rightarrow> (change_error, address_effect) result \<times> address_state" where
  "address_confirm token now s =
     (case address_check_confirm token now s of
        Inl e \<Rightarrow> (Inl e, s)
      | Inr d \<Rightarrow>
          (Inr (Persist d),
           s\<lparr>as_confirmed := Some d, as_pending := None, as_last_revert := None\<rparr>))"

definition address_revert ::
  "instant \<Rightarrow> address_state \<Rightarrow> (change_error, address_effect) result \<times> address_state" where
  "address_revert now s =
     (case as_pending s of
        None \<Rightarrow> (Inl NothingPending, s)
      | Some p \<Rightarrow>
          (Inr (Apply (ap_snapshot p)),
           s\<lparr>as_pending := None,
             as_last_revert := Some \<lparr>rr_at = now, rr_reason = Requested,
               rr_detail = ''reverted on request before it was confirmed'',
               rr_document = ap_document p\<rparr>\<rparr>))"

definition address_tick :: "instant \<Rightarrow> address_state \<Rightarrow> address_effect \<times> address_state" where
  "address_tick now s =
     (case as_pending s of
        None \<Rightarrow> (NoEffect, s)
      | Some p \<Rightarrow>
          if \<not> ap_expired_at p now then (NoEffect, s)
          else
            (Apply (ap_snapshot p),
             s\<lparr>as_pending := None,
               as_last_revert := Some \<lparr>rr_at = now, rr_reason = NotConfirmed,
                 rr_detail = ''not confirmed within the window'',
                 rr_document = ap_document p\<rparr>\<rparr>))"

lemmas address_change_defs [change_simps] =
  address_apply_def address_apply_failed_def address_check_confirm_def address_confirm_def
  address_revert_def address_tick_def address_clear_last_revert_def
  address_adopt_persisted_def address_set_persisted_def

section \<open>The confirm-window contract\<close>

interpretation addr: confirm_window as_confirmed as_pending ap_document ap_snapshot ap_token
  ap_expired_at address_apply address_confirm address_revert address_tick
  "\<lambda>now. address_clear_last_revert"
  by unfold_locales
    (auto simp: change_simps Let_def split: if_splits option.splits sum.splits)

section \<open>Properties\<close>

text \<open>The state machine alone, beside an address that takes every document it is told to apply and a file
  that takes every document it is told to keep: whatever the sequence of applies, confirmations,
  reverts and ticks, the address that runs when nothing waits is the last one confirmed, and a
  waiting change holds it as its way back. What the service makes of applies and writes that fail
  is in \<open>Address_Service\<close>.\<close>

lemma address_machine_settles:
  assumes "as_pending s0 = None"
    and "w = foldl (world_step address_apply address_confirm address_revert address_tick
               (\<lambda>now. address_clear_last_revert))
             \<lparr>w_state = s0, w_running = run0, w_file = None\<rparr> evs"
  shows "as_confirmed (w_state w)
      = (case w_file w of None \<Rightarrow> as_confirmed s0 | Some d \<Rightarrow> Some d)
    \<and> (case as_pending (w_state w) of
         None \<Rightarrow> w_running w = (case w_file w of None \<Rightarrow> run0 | Some d \<Rightarrow> d)
       | Some p \<Rightarrow> w_running w = ap_document p
           \<and> ap_snapshot p = (case w_file w of None \<Rightarrow> run0 | Some d \<Rightarrow> d))"
  using addr.settled_always [OF assms(1), of run0 evs]
  unfolding assms(2) addr.settled_def addr.home_def .

text \<open>the window of an accepted change: it is refused a second change, keeps its document
  waiting until the deadline (the apply time and the whole seconds of the window), is persisted
  by a confirmation with its own token before then, refuses any other token, refuses its
  confirmation from the deadline on, and is put back by the first tick at or after it.\<close>

theorem address_window:
  assumes "address_apply d running window now token s = (Inr (p, e), s')"
  shows "e = Apply d
    \<and> fst (address_apply d2 running2 window2 t token2 s') \<in> {Inl WindowOutOfRange, Inl AlreadyPending}
    \<and> address_confirm token t s' =
        (if t < now + from_secs (as_secs window)
         then (Inr (Persist d), s'\<lparr>as_confirmed := Some d, as_pending := None, as_last_revert := None\<rparr>)
         else (Inl NothingPending, s'))
    \<and> (other \<noteq> token \<longrightarrow> address_confirm other t s' = (Inl WrongToken, s'))
    \<and> fst (address_tick t s') = (if t < now + from_secs (as_secs window) then NoEffect else Apply running)
    \<and> (as_pending (snd (address_tick t s')) = None \<longleftrightarrow> now + from_secs (as_secs window) \<le> t)
    \<and> from_secs 10 \<le> from_secs (as_secs window) \<and> from_secs (as_secs window) \<le> from_secs 300"
proof -
  have w: "window_ok window" and s': "s' = s\<lparr>as_pending := Some p\<rparr>"
    and p: "p = \<lparr>ap_token = token, ap_document = d, ap_snapshot = running,
      ap_applied_at = now, ap_window_s = as_secs window\<rparr>" and e: "e = Apply d"
    using assms by (auto simp: change_simps Let_def split: if_splits)
  have "10 \<le> as_secs window \<and> as_secs window \<le> 300"
    using w by (auto simp: window_ok_def MIN_WINDOW_def MAX_WINDOW_def from_secs_def as_secs_def)
  then show ?thesis
    by (auto simp: s' p e change_simps ap_expired_at_def ap_deadline_def Let_def)
qed

theorem address_window_witness:
  "\<exists>p s'. address_apply Dhcp (Static example_address) (from_secs 30) 0 ''t'' address_state_default
      = (Inr (p, Apply Dhcp), s')
    \<and> fst (address_tick (from_secs 29) s') = NoEffect
    \<and> fst (address_tick (from_secs 30) s') = Apply (Static example_address)"
proof -
  obtain p s' where a: "address_apply Dhcp (Static example_address) (from_secs 30) 0 ''t''
      address_state_default = (Inr (p, Apply Dhcp), s')"
    by (simp add: change_simps address_state_default_def window_ok_def MIN_WINDOW_def
        MAX_WINDOW_def Let_def)
  show ?thesis
    using a address_window [OF a, of _ _ _ "from_secs 29" _ "[]"]
      address_window [OF a, of _ _ _ "from_secs 30" _ "[]"] by auto
qed

end
