(* ===== verification/Address_Applier.thy ===== *)
theory Address_Applier
  imports Network_Interfaces
begin

text \<open>
  \<^verbatim>\<open>bmcd/src/app/address_applier.rs\<close>: putting an address document on the bridge and reading
  what the board has. The commands it runs are a parameter: a host, with an \<open>exec\<close> operation
  on a kernel state of any type, a test whether a process exists, and the passing of the 50
  milliseconds between two polls. Files are those of the store.
\<close>

section \<open>The host\<close>

record 'n host =
  h_exec :: "'n exec"
  h_alive :: "nat \<Rightarrow> 'n \<Rightarrow> bool"
  h_sleep :: "'n \<Rightarrow> 'n"

record 'n board =
  bd_fs :: fs
  bd_net :: 'n
  bd_net_class :: net_class

record applier =
  al_udhcpc_pid :: path
  al_resolv_conf :: path
  al_hostname :: path

definition UDHCPC :: string where "UDHCPC = ''/sbin/udhcpc''"
definition UDHCPC_PID :: path where "UDHCPC_PID = (''/var/run'', ''udhcpc.br0.pid'')"
definition RESOLV_CONF :: path where "RESOLV_CONF = (''/etc'', ''resolv.conf'')"
definition HOSTNAME_FILE :: path where "HOSTNAME_FILE = (''/etc'', ''hostname'')"
definition IP :: string where "IP = ''ip''"
definition MDNSD_INIT :: string where "MDNSD_INIT = ''/etc/init.d/S50mdnsd''"

definition applier_system :: applier where
  "applier_system = \<lparr>al_udhcpc_pid = UDHCPC_PID, al_resolv_conf = RESOLV_CONF,
     al_hostname = HOSTNAME_FILE\<rparr>"

definition path_string :: "path \<Rightarrow> string" where
  "path_string p = fst p @ ''/'' @ snd p"

definition board_exec :: "'n host \<Rightarrow> string \<Rightarrow> string list \<Rightarrow> 'n board
    \<Rightarrow> (apply_error, string) result \<times> 'n board" where
  "board_exec H program args b =
     (case h_exec H program args (bd_net b) of (r, n) \<Rightarrow> (r, b\<lparr>bd_net := n\<rparr>))"

definition run_lenient :: "'n host \<Rightarrow> string \<Rightarrow> string list \<Rightarrow> 'n board \<Rightarrow> 'n board" where
  "run_lenient H program args b = snd (board_exec H program args b)"

section \<open>The DHCP client\<close>

definition udhcpc_pid :: "'n host \<Rightarrow> applier \<Rightarrow> 'n board \<Rightarrow> nat option" where
  "udhcpc_pid H al b =
     (case fs_read_to_string (bd_fs b) (al_udhcpc_pid al) of
        Inl _ \<Rightarrow> None
      | Inr s \<Rightarrow>
          (case parse_u32 (trim s) of
             None \<Rightarrow> None
           | Some pid \<Rightarrow> if h_alive H pid (bd_net b) then Some pid else None))"

fun wait_gone :: "'n host \<Rightarrow> nat \<Rightarrow> nat \<Rightarrow> 'n board \<Rightarrow> 'n board" where
  "wait_gone H pid 0 b = b"
| "wait_gone H pid (Suc k) b =
     (if \<not> h_alive H pid (bd_net b) then b
      else wait_gone H pid k (b\<lparr>bd_net := h_sleep H (bd_net b)\<rparr>))"

definition stop_udhcpc :: "'n host \<Rightarrow> applier \<Rightarrow> 'n board \<Rightarrow> 'n board" where
  "stop_udhcpc H al b =
     (case udhcpc_pid H al b of
        None \<Rightarrow> b
      | Some pid \<Rightarrow>
          (let b = wait_gone H pid 40 (run_lenient H ''kill'' [''-TERM'', show_nat pid] b)
           in b\<lparr>bd_fs := snd (fs_remove (al_udhcpc_pid al) (bd_fs b))\<rparr>))"

definition udhcpc_args :: "applier \<Rightarrow> string \<Rightarrow> string list" where
  "udhcpc_args al hostname =
     [''-b'', ''-R'', ''-p'', path_string (al_udhcpc_pid al), ''-i'', INTERFACE]
     @ (if hostname \<noteq> [] then [''-x'', ''hostname:'' @ hostname] else [])"

definition start_udhcpc :: "'n host \<Rightarrow> applier \<Rightarrow> 'n board \<Rightarrow> (apply_error, unit) result \<times> 'n board" where
  "start_udhcpc H al b =
     (let hostname = (case fs_read_to_string (bd_fs b) (al_hostname al) of
                        Inl _ \<Rightarrow> [] | Inr s \<Rightarrow> trim s)
      in case board_exec H UDHCPC (udhcpc_args al hostname) b of
           (Inl e, b) \<Rightarrow> (Inl e, b)
         | (Inr _, b) \<Rightarrow> (Inr (), b))"

section \<open>Applying a document\<close>

definition flush_address :: "'n host \<Rightarrow> 'n board \<Rightarrow> 'n board" where
  "flush_address H b =
     run_lenient H IP [''-4'', ''addr'', ''flush'', ''dev'', INTERFACE]
       (run_lenient H IP [''-4'', ''route'', ''del'', ''default'', ''dev'', INTERFACE] b)"

definition addr_add_args :: "string \<Rightarrow> string list" where
  "addr_add_args c = [''-4'', ''addr'', ''add'', c, ''brd'', ''+'', ''dev'', INTERFACE]"

definition route_replace_args :: "string \<Rightarrow> string list" where
  "route_replace_args g =
     [''-4'', ''route'', ''replace'', ''default'', ''via'', g, ''dev'', INTERFACE]"

definition write_resolv :: "applier \<Rightarrow> static_address \<Rightarrow> 'n board
    \<Rightarrow> (apply_error, unit) result \<times> 'n board" where
  "write_resolv al s b =
     (case fs_write (al_resolv_conf al) (Utf8 (resolv_conf (sa_dns s) (sa_search s))) (bd_fs b) of
        (Inl e, fs) \<Rightarrow> (Inl (ApplyIo e), b\<lparr>bd_fs := fs\<rparr>)
      | (Inr _, fs) \<Rightarrow> (Inr (), b\<lparr>bd_fs := fs\<rparr>))"

definition set_static :: "'n host \<Rightarrow> applier \<Rightarrow> static_address \<Rightarrow> 'n board
    \<Rightarrow> (apply_error, unit) result \<times> 'n board" where
  "set_static H al s b =
     (case board_exec H IP (addr_add_args (cidr s)) b of
        (Inl e, b) \<Rightarrow> (Inl e, b)
      | (Inr _, b) \<Rightarrow>
          (case sa_gateway s of
             None \<Rightarrow> write_resolv al s b
           | Some gw \<Rightarrow>
               (case board_exec H IP (route_replace_args (show_ipv4 gw)) b of
                  (Inl e, b) \<Rightarrow> (Inl e, b)
                | (Inr _, b) \<Rightarrow> write_resolv al s b)))"

definition applier_apply :: "'n host \<Rightarrow> applier \<Rightarrow> address_document \<Rightarrow> 'n board
    \<Rightarrow> (apply_error, unit) result \<times> 'n board" where
  "applier_apply H al d b =
     (let b = flush_address H (stop_udhcpc H al b)
      in case (case d of Dhcp \<Rightarrow> start_udhcpc H al b | Static s \<Rightarrow> set_static H al s b) of
           (Inl e, b) \<Rightarrow> (Inl e, b)
         | (Inr _, b) \<Rightarrow> (Inr (), run_lenient H MDNSD_INIT [''restart''] b))"

section \<open>Reading the board\<close>

definition parse_resolv_line :: "ipv4 list \<times> string option \<Rightarrow> string \<Rightarrow> ipv4 list \<times> string option" where
  "parse_resolv_line acc line =
     (let ws = split_whitespace line; rest = drop 1 ws
      in if next_word ws = Some ''nameserver'' then
           (case Option.bind (next_word rest) parse_ipv4 of
              Some ip \<Rightarrow> (fst acc @ [ip], snd acc)
            | None \<Rightarrow> acc)
         else if next_word ws = Some ''search'' then (fst acc, next_word rest)
         else acc)"

definition parse_resolv :: "string \<Rightarrow> ipv4 list \<times> string option" where
  "parse_resolv contents = foldl parse_resolv_line ([], None) (lines contents)"

record live_address =
  la_mode :: string
  la_address :: "string option"
  la_interface :: "string option"
  la_gateway :: "ipv4 option"
  la_dns :: "ipv4 list"
  la_search :: "string option"

definition live :: "'n host \<Rightarrow> applier \<Rightarrow> net_snapshot \<Rightarrow> 'n board \<Rightarrow> live_address" where
  "live H al snap b =
     (let (dns, search) = (case fs_read_to_string (bd_fs b) (al_resolv_conf al) of
                             Inl _ \<Rightarrow> ([], None) | Inr c \<Rightarrow> parse_resolv c)
      in \<lparr>la_mode = (if udhcpc_pid H al b \<noteq> None then ''dhcp'' else ''static''),
          la_address = Option.bind (primary snap) (\<lambda>i. next_word (if_addresses i)),
          la_interface = map_option if_name (primary snap),
          la_gateway = sn_gateway snap,
          la_dns = dns,
          la_search = search\<rparr>)"

section \<open>Properties\<close>

text \<open>What the code relies on of \<open>ip\<close>, stated of two observations of the kernel state: the
  addresses and the default gateway of the managed bridge. Deleting the route and flushing
  the addresses leave none, adding and replacing do so when they succeed, and the other
  commands and the passing of time leave both alone.\<close>

definition ip_laws :: "'n host \<Rightarrow> ('n \<Rightarrow> string list) \<Rightarrow> ('n \<Rightarrow> string option) \<Rightarrow> bool" where
  "ip_laws H addrs route =
     ((\<forall>n. let n' = snd (h_exec H IP [''-4'', ''route'', ''del'', ''default'', ''dev'', INTERFACE] n)
           in route n' = None \<and> addrs n' = addrs n)
      \<and> (\<forall>n. let n' = snd (h_exec H IP [''-4'', ''addr'', ''flush'', ''dev'', INTERFACE] n)
             in addrs n' = [] \<and> route n' = route n)
      \<and> (\<forall>c n x n'. h_exec H IP (addr_add_args c) n = (Inr x, n') \<longrightarrow>
             addrs n' = addrs n @ [c] \<and> route n' = route n)
      \<and> (\<forall>g n x n'. h_exec H IP (route_replace_args g) n = (Inr x, n') \<longrightarrow>
             route n' = Some g \<and> addrs n' = addrs n)
      \<and> (\<forall>n. let n' = snd (h_exec H MDNSD_INIT [''restart''] n)
             in addrs n' = addrs n \<and> route n' = route n))"

lemma ip_laws_add:
  "ip_laws H addrs route \<Longrightarrow> h_exec H IP (addr_add_args c) n = (Inr x, n') \<Longrightarrow>
     addrs n' = addrs n @ [c] \<and> route n' = route n"
  unfolding ip_laws_def by blast

lemma ip_laws_replace:
  "ip_laws H addrs route \<Longrightarrow> h_exec H IP (route_replace_args g) n = (Inr x, n') \<Longrightarrow>
     route n' = Some g \<and> addrs n' = addrs n"
  unfolding ip_laws_def by blast

lemma bd_net_lenient [simp]: "bd_net (run_lenient H p as b) = snd (h_exec H p as (bd_net b))"
  by (simp add: run_lenient_def board_exec_def split_beta)

lemma bd_fs_lenient [simp]: "bd_fs (run_lenient H p as b) = bd_fs b"
  by (simp add: run_lenient_def board_exec_def split_beta)

lemma flush_effect:
  assumes "ip_laws H addrs route"
  shows "addrs (bd_net (flush_address H b)) = []" and "route (bd_net (flush_address H b)) = None"
    and "bd_fs (flush_address H b) = bd_fs b"
  using assms by (simp_all add: flush_address_def ip_laws_def Let_def)

lemma write_resolv_effect:
  assumes "write_resolv al s b = (Inr (), b')"
  shows "bd_net b' = bd_net b"
    and "fs_contents (bd_fs b') (al_resolv_conf al) = Some (Utf8 (resolv_conf (sa_dns s) (sa_search s)))"
  using assms
  by (auto simp: write_resolv_def fs_write_def fs_contents_def fs_inode_put
      split: option.splits fault.splits prod.splits sum.splits)

lemma set_static_effect:
  assumes "ip_laws H addrs route" and "set_static H al s b = (Inr (), b')"
    and "addrs (bd_net b) = []" and "route (bd_net b) = None"
  shows "addrs (bd_net b') = [cidr s] \<and> route (bd_net b') = map_option show_ipv4 (sa_gateway s)
    \<and> fs_contents (bd_fs b') (al_resolv_conf al) = Some (Utf8 (resolv_conf (sa_dns s) (sa_search s)))"
proof -
  obtain out1 n1 where add: "h_exec H IP (addr_add_args (cidr s)) (bd_net b) = (Inr out1, n1)"
    using assms(2) by (auto simp: set_static_def board_exec_def split: prod.splits sum.splits)
  then have n1: "addrs n1 = [cidr s]" "route n1 = None"
    using ip_laws_add [OF assms(1)] assms(3,4) by auto
  show ?thesis
  proof (cases "sa_gateway s")
    case None
    then have "write_resolv al s (b\<lparr>bd_net := n1\<rparr>) = (Inr (), b')"
      using assms(2) add by (simp add: set_static_def board_exec_def)
    then show ?thesis using None n1 write_resolv_effect by fastforce
  next
    case (Some g)
    obtain out2 n2 where rt: "h_exec H IP (route_replace_args (show_ipv4 g)) n1 = (Inr out2, n2)"
      and w: "write_resolv al s (b\<lparr>bd_net := n2\<rparr>) = (Inr (), b')"
      using assms(2) add Some
      by (auto simp: set_static_def board_exec_def split: prod.splits sum.splits)
    have "route n2 = Some (show_ipv4 g) \<and> addrs n2 = addrs n1"
      by (rule ip_laws_replace [OF assms(1) rt])
    then show ?thesis using Some n1 write_resolv_effect [OF w] by simp
  qed
qed

text \<open>when a static document was applied without an error, the bridge has exactly that
  address and that gateway, whatever it had before, and the resolver file holds exactly the
  document's resolvers.\<close>

theorem apply_static_effective:
  assumes "ip_laws H addrs route" and "applier_apply H al (Static s) b = (Inr (), b')"
  shows "addrs (bd_net b') = [cidr s] \<and> route (bd_net b') = map_option show_ipv4 (sa_gateway s)
    \<and> fs_contents (bd_fs b') (al_resolv_conf al) = Some (Utf8 (resolv_conf (sa_dns s) (sa_search s)))"
proof -
  let ?b0 = "flush_address H (stop_udhcpc H al b)"
  obtain b1 where s: "set_static H al s ?b0 = (Inr (), b1)"
    and b': "b' = run_lenient H MDNSD_INIT [''restart''] b1"
    using assms(2) by (auto simp: applier_apply_def Let_def split: prod.splits sum.splits)
  have "addrs (bd_net b') = addrs (bd_net b1) \<and> route (bd_net b') = route (bd_net b1)
      \<and> bd_fs b' = bd_fs b1"
    using assms(1) by (simp add: b' ip_laws_def Let_def)
  then show ?thesis
    using set_static_effect [OF assms(1) s flush_effect(1,2) [OF assms(1)]] by simp
qed

lemma resolv_words:
  assumes "list_all (\<lambda>c. \<not> is_whitespace c) w" and "w \<noteq> []"
    and "list_all (\<lambda>c. \<not> is_whitespace c) k" and "k \<noteq> []"
  shows "split_whitespace (k @ '' '' @ w @ '' # '' @ INTERFACE) = [k, w, ''#'', INTERFACE]"
proof -
  have "split_whitespace ('' # '' @ INTERFACE) = [''#'', INTERFACE]" by code_simp
  then show ?thesis
    using assms split_whitespace_word_space [OF assms(3,4), of "CHR '' ''" "w @ '' # '' @ INTERFACE"]
      split_whitespace_word_space [OF assms(1,2), of "CHR '' ''" "''# '' @ INTERFACE"]
    by (simp add: split_whitespace_space)
qed

lemma resolv_search_line:
  "\<not> bad_search d \<Longrightarrow> parse_resolv_line acc (''search '' @ d @ '' # '' @ INTERFACE) = (fst acc, Some d)"
  using resolv_words [OF search_word(2,1), of d "''search''"]
  by (simp add: parse_resolv_line_def next_word_def is_whitespace_def Let_def)

lemma resolv_nameserver_line:
  "parse_resolv_line acc (''nameserver '' @ show_ipv4 a @ '' # '' @ INTERFACE) = (fst acc @ [a], snd acc)"
  using resolv_words [of "show_ipv4 a" "''nameserver''"] show_ipv4_no_ws [of a]
  by (simp add: parse_resolv_line_def next_word_def is_whitespace_def Let_def)

lemma resolv_nameserver_lines:
  "foldl parse_resolv_line acc (map (\<lambda>a. ''nameserver '' @ show_ipv4 a @ '' # '' @ INTERFACE) ds)
     = (fst acc @ ds, snd acc)"
proof (induction ds arbitrary: acc)
  case (Cons d ds)
  show ?case
    unfolding list.map foldl.simps resolv_nameserver_line Cons.IH by simp
qed simp

lemma resolv_plain:
  assumes "\<And>d. search = Some d \<Longrightarrow> \<not> bad_search d"
  shows "list_all plain_line (resolv_lines dns search)"
proof -
  have lit: "plain_line ''search ''" "plain_line ''nameserver ''" "plain_line ('' # '' @ INTERFACE)"
    by code_simp+
  have "search = Some d \<Longrightarrow> plain_line d" for d
    using assms search_word(2) no_ws_plain by blast
  with lit show ?thesis
    by (cases search)
      (simp_all add: resolv_lines_def list_all_iff plain_line_append del: append_Cons)
qed

text \<open>the resolver file written for an accepted document reads back as its name servers, in
  order, and its search domain.\<close>

theorem parse_resolv_conf:
  assumes "address_refusal (Static s) = None"
  shows "parse_resolv (resolv_conf (sa_dns s) (sa_search s)) = (sa_dns s, sa_search s)"
proof -
  have d: "sa_search s = Some d \<Longrightarrow> \<not> bad_search d" for d
    using assms by (auto simp: address_refusal_def static_refusal_None_iff)
  have "lines (resolv_conf (sa_dns s) (sa_search s)) = resolv_lines (sa_dns s) (sa_search s)"
    unfolding resolv_conf_def using resolv_plain d by (blast intro: lines_unlines)
  moreover have "foldl parse_resolv_line ([], None) (resolv_lines (sa_dns s) (sa_search s))
      = (sa_dns s, sa_search s)"
    using d by (cases "sa_search s") (simp_all only: resolv_lines_def option.case append_Nil
        option.inject simp_thms
        foldl_append foldl.simps resolv_search_line resolv_nameserver_lines fst_conv snd_conv)
  ultimately show ?thesis by (simp add: parse_resolv_def)
qed

theorem parse_resolv_conf_witness:
  "address_refusal (Static example_address) = None
   \<and> parse_resolv (resolv_conf (sa_dns example_address) (sa_search example_address))
     = ([of_octets 10 1 2 1, of_octets 1 1 1 1], Some ''lan'')"
  using parse_resolv_conf [OF example_address_ok] example_address_ok
  by (simp add: example_address_def)

definition example_exec :: "(string list \<times> string option) exec" where
  "example_exec program args n =
     (Inr [],
      if program \<noteq> IP then n
      else if take 3 args = [''-4'', ''route'', ''del''] then (fst n, None)
      else if take 3 args = [''-4'', ''addr'', ''flush''] then ([], snd n)
      else if take 3 args = [''-4'', ''addr'', ''add''] then (fst n @ [args ! 3], snd n)
      else (fst n, Some (args ! 5)))"

definition example_host :: "(string list \<times> string option) host" where
  "example_host = \<lparr>h_exec = example_exec, h_alive = (\<lambda>_ _. False), h_sleep = (\<lambda>n. n)\<rparr>"

definition empty_fs :: fs where
  "empty_fs = \<lparr>fs_names = [], fs_inodes = (\<lambda>_. \<lparr>in_contents = Utf8 [], in_modified = 0\<rparr>),
     fs_next = 0, fs_time = 0, fs_unreadable = [], fs_faults = [], fs_closed_dirs = []\<rparr>"

definition example_board :: "(string list \<times> string option) board" where
  "example_board = \<lparr>bd_fs = empty_fs, bd_net = ([''10.9.9.9/8''], Some ''10.9.9.1''),
     bd_net_class = \<lparr>nc_entries = [(''br0'', True)], nc_listable = True\<rparr>\<rparr>"

lemma example_host_laws: "ip_laws example_host fst snd"
  by (simp add: ip_laws_def example_host_def example_exec_def addr_add_args_def
      route_replace_args_def IP_def MDNSD_INIT_def Let_def)

lemma example_host_ok [simp]:
  "h_exec example_host = example_exec" "h_alive example_host pid n = False"
  "is_ok (fst (example_exec p as n))"
  by (simp_all add: example_host_def example_exec_def)

lemma example_apply_ok:
  "\<exists>b'. applier_apply example_host applier_system (Static example_address) example_board
     = (Inr (), b')"
  by (simp add: applier_apply_def stop_udhcpc_def udhcpc_pid_def fs_read_to_string_def fs_read_def
      fs_inode_def example_board_def empty_fs_def flush_address_def run_lenient_def board_exec_def
      set_static_def example_exec_def example_address_def write_resolv_def fs_write_def Let_def)

theorem apply_static_effective_witness:
  "\<exists>b'. applier_apply example_host applier_system (Static example_address) example_board
      = (Inr (), b')
    \<and> fst (bd_net b') = [cidr example_address]"
  using example_apply_ok apply_static_effective [OF example_host_laws] by blast

end
