(* ===== verification/Address_Service.thy ===== *)
theory Address_Service
  imports Address_Change Address_Applier
begin

text \<open>
  \<^verbatim>\<open>bmcd/src/app/address_service.rs\<close>: the service that holds the state machine, the
  interfaces file and the network together. An operation takes the service's fixed parts
  (the host, the applier, the path and the JSON parser) and the state under its lock with
  the board, and returns both after it. Every reading of the clock is an argument of its
  own, in the order the code takes them.
\<close>

section \<open>State\<close>

definition INTERFACES_FILE :: path where "INTERFACES_FILE = (''/etc/network'', ''interfaces'')"

definition NO_MANAGED_BRIDGE :: string where
  "NO_MANAGED_BRIDGE = ''The address page manages br0 only; edit /etc/network/interfaces over SSH, or restore the default layout.''"

datatype file_origin = Bmcd | HandEdited | Unreadable

datatype address_error =
    Change change_error
  | NoManagedBridge string
  | HandWritten
  | ApplyErr apply_error
  | IoErr io_error

type_synonym stamp = "instant \<times> nat"

record inner =
  iv_state :: address_state
  iv_running :: address_document
  iv_file :: file_origin
  iv_replaces_hand_written :: bool
  iv_stamp :: "stamp option"
  iv_file_backup :: "path option"

record file_read =
  fr_document :: "address_document option"
  fr_origin :: file_origin
  fr_replaces_hand_written :: bool
  fr_stamp :: "stamp option"

record repair_done =
  rd_file_rewritten :: bool
  rd_resolvers_written :: bool

record 'n address_config =
  ac_host :: "'n host"
  ac_applier :: applier
  ac_path :: path
  ac_json :: "string \<Rightarrow> json option"

section \<open>Reading the file\<close>

definition modified :: "fs \<Rightarrow> path \<Rightarrow> stamp option" where
  "modified fs p = fs_metadata fs p"

definition significant_lines :: "string \<Rightarrow> string list" where
  "significant_lines text = filter (\<lambda>l. l \<noteq> [] \<and> \<not> starts_with ''#'' l) (map trim (lines text))"

definition image_default :: "string \<Rightarrow> bool" where
  "image_default c = (significant_lines c = significant_lines (render Dhcp))"

definition file_origin_of :: "parsed_file \<Rightarrow> file_origin" where
  "file_origin_of p =
     (if pf_ours p then Bmcd else if pf_document p \<noteq> None then HandEdited else Unreadable)"

definition read_file :: "fs \<Rightarrow> path \<Rightarrow> file_read" where
  "read_file fs p =
     (let stamp = modified fs p;
          unreadable = \<lparr>fr_document = None, fr_origin = Unreadable,
                        fr_replaces_hand_written = True, fr_stamp = stamp\<rparr>
      in case fs_read fs p of
           Inl NotFound \<Rightarrow>
             \<lparr>fr_document = Some Dhcp, fr_origin = HandEdited,
              fr_replaces_hand_written = False, fr_stamp = stamp\<rparr>
         | Inl _ \<Rightarrow> unreadable
         | Inr (NotUtf8 _) \<Rightarrow> unreadable
         | Inr (Utf8 c) \<Rightarrow>
             (let parsed = parse c; origin = file_origin_of parsed
              in \<lparr>fr_document = pf_document parsed, fr_origin = origin,
                  fr_replaces_hand_written = (origin \<noteq> Bmcd \<and> \<not> image_default c),
                  fr_stamp = stamp\<rparr>))"

definition load_with :: "fs \<Rightarrow> path \<Rightarrow> inner" where
  "load_with fs p =
     (let r = read_file fs p
      in \<lparr>iv_state = (case fr_document r of
            None \<Rightarrow> address_state_default
          | Some d \<Rightarrow> address_adopt_persisted d address_state_default),
          iv_running = (case fr_document r of None \<Rightarrow> Dhcp | Some d \<Rightarrow> d),
          iv_file = fr_origin r,
          iv_replaces_hand_written = fr_replaces_hand_written r,
          iv_stamp = fr_stamp r,
          iv_file_backup = None\<rparr>)"

definition refresh :: "fs \<Rightarrow> path \<Rightarrow> inner \<Rightarrow> inner" where
  "refresh fs p iv =
     (if modified fs p = iv_stamp iv then iv
      else
        (let r = read_file fs p
         in iv\<lparr>iv_state := address_set_persisted (fr_document r) (iv_state iv),
               iv_file := fr_origin r,
               iv_replaces_hand_written := fr_replaces_hand_written r,
               iv_stamp := fr_stamp r\<rparr>))"

section \<open>Writing the file\<close>

definition write_atomically :: "path \<Rightarrow> string \<Rightarrow> fs \<Rightarrow> (io_error, unit) result \<times> fs" where
  "write_atomically p s fs =
     (case fs_create_dir_all (fst p) fs of
        (Inl e, fs) \<Rightarrow> (Inl e, fs)
      | (Inr _, fs) \<Rightarrow>
          (case fs_write (with_extension p ''tmp'') (Utf8 s) fs of
             (Inl e, fs) \<Rightarrow> (Inl e, fs)
           | (Inr _, fs) \<Rightarrow> fs_rename (with_extension p ''tmp'') p fs))"

definition KEEP_COPIES :: nat where "KEEP_COPIES = 5"

definition copy_prefix :: "path \<Rightarrow> string" where
  "copy_prefix p = snd p @ ''.hand-written.''"

definition copy_name :: "string \<Rightarrow> nat \<Rightarrow> nat \<Rightarrow> string" where
  "copy_name prefix seconds attempt =
     (if attempt = 0 then prefix @ show_nat seconds
      else prefix @ show_nat seconds @ ''-'' @ show_nat attempt)"

lemma copy_name_inj: "copy_name pre sec a = copy_name pre sec b \<Longrightarrow> a = b"
  by (auto simp: copy_name_def split: if_splits dest: show_nat_inj)

text \<open>The loop over \<open>attempt\<close>: the first name that is free is linked.\<close>

function link_free :: "path \<Rightarrow> string \<Rightarrow> nat \<Rightarrow> nat \<Rightarrow> fs \<Rightarrow> (io_error, path) result \<times> fs" where
  "link_free tmp prefix seconds attempt fs =
     (let target = with_file_name tmp (copy_name prefix seconds attempt)
      in case fs_hard_link tmp target fs of
           (Inr _, fs') \<Rightarrow> (Inr target, fs')
         | (Inl AlreadyExists, fs') \<Rightarrow> link_free tmp prefix seconds (Suc attempt) fs'
         | (Inl e, fs') \<Rightarrow> (Inl e, fs'))"
  by pat_completeness auto

lemma hard_link_exists:
  "fs_hard_link p q fs = (Inl AlreadyExists, fs') \<Longrightarrow> fs' = fs \<and> q \<in> fst ` set (fs_names fs)"
  by (auto simp: fs_hard_link_def fs_exists_def map_of_names_fst split: option.splits if_splits)

definition taken :: "path \<Rightarrow> string \<Rightarrow> nat \<Rightarrow> nat \<Rightarrow> fs \<Rightarrow> nat set" where
  "taken tmp prefix seconds attempt fs =
     {a. attempt \<le> a \<and> with_file_name tmp (copy_name prefix seconds a) \<in> fst ` set (fs_names fs)}"

lemma finite_taken: "finite (taken tmp prefix seconds attempt fs)"
proof -
  have "finite {a. with_file_name tmp (copy_name prefix seconds a) \<in> fst ` set (fs_names fs)}"
    by (rule finite_vimageI [of _ "\<lambda>a. with_file_name tmp (copy_name prefix seconds a)",
          unfolded vimage_def])
      (auto intro!: injI simp: with_file_name_def dest: copy_name_inj)
  then show ?thesis by (rule rev_finite_subset) (auto simp: taken_def)
qed

termination link_free
proof (relation "measure (\<lambda>(tmp, prefix, seconds, attempt, fs). card (taken tmp prefix seconds attempt fs))", goal_cases)
  case (2 tmp prefix seconds attempt fs target r fs' e)
  then have "fs_hard_link tmp target fs = (Inl AlreadyExists, fs')" by simp
  then have "fs' = fs" and "target \<in> fst ` set (fs_names fs)"
    using hard_link_exists [of tmp target fs fs'] by auto
  then have "attempt \<in> taken tmp prefix seconds attempt fs"
      and "taken tmp prefix seconds (Suc attempt) fs' \<subseteq> taken tmp prefix seconds attempt fs"
      and "attempt \<notin> taken tmp prefix seconds (Suc attempt) fs'"
    unfolding taken_def 2(1) by auto
  then have "taken tmp prefix seconds (Suc attempt) fs' \<subset> taken tmp prefix seconds attempt fs"
    by blast
  then show ?case by (simp add: psubset_card_mono finite_taken)
qed simp

declare link_free.simps [simp del]

type_synonym copy = "(nat \<times> nat) \<times> string"

definition parse_copy :: "string \<Rightarrow> string \<Rightarrow> copy option" where
  "parse_copy prefix name =
     (case strip_prefix prefix name of
        None \<Rightarrow> None
      | Some rest \<Rightarrow>
          (case split_once CHR ''-'' rest of
             Some (s, n) \<Rightarrow>
               (case (parse_u32 n, parse_u64 s) of
                  (Some suffix, Some seconds) \<Rightarrow> Some ((seconds, suffix), name)
                | _ \<Rightarrow> None)
           | None \<Rightarrow> map_option (\<lambda>seconds. ((seconds, 0), name)) (parse_u64 rest)))"

fun remove_old :: "path \<Rightarrow> path list \<Rightarrow> fs \<Rightarrow> path list \<times> fs" where
  "remove_old just_made [] fs = ([], fs)"
| "remove_old just_made (old # rest) fs =
     (if old = just_made then remove_old just_made rest fs
      else
        (case fs_remove old fs of
           (Inr _, fs') \<Rightarrow> (case remove_old just_made rest fs' of (rs, fs'') \<Rightarrow> (old # rs, fs''))
         | (Inl _, fs') \<Rightarrow> remove_old just_made rest fs'))"

definition copies_in :: "string \<Rightarrow> string \<Rightarrow> fs \<Rightarrow> copy list" where
  "copies_in dir prefix fs =
     (case fs_read_dir dir fs of
        Inl _ \<Rightarrow> []
      | Inr names \<Rightarrow> sort (filter_map (parse_copy prefix) names))"

definition prune_copies :: "string \<Rightarrow> string \<Rightarrow> path \<Rightarrow> fs \<Rightarrow> path list \<times> fs" where
  "prune_copies dir prefix just_made fs =
     (let copies = copies_in dir prefix fs
      in remove_old just_made (map (\<lambda>c. (dir, snd c)) (take (length copies - KEEP_COPIES) copies)) fs)"

definition keep_a_copy_at :: "path \<Rightarrow> nat \<Rightarrow> fs \<Rightarrow> (io_error, path \<times> path list) result \<times> fs" where
  "keep_a_copy_at p seconds fs =
     (let prefix = copy_prefix p; tmp = with_file_name p (prefix @ ''tmp'')
      in case fs_read fs p of
           Inl e \<Rightarrow> (Inl e, fs)
         | Inr bytes \<Rightarrow>
             (let (res, fs) = (case fs_write tmp bytes fs of
                                 (Inl e, fs) \<Rightarrow> (Inl e, fs)
                               | (Inr _, fs) \<Rightarrow> link_free tmp prefix seconds 0 fs);
                  fs = snd (fs_remove tmp fs)
              in case res of
                   Inl e \<Rightarrow> (Inl e, fs)
                 | Inr kept \<Rightarrow>
                     (case prune_copies (fst p) prefix kept fs of
                        (removed, fs) \<Rightarrow> (Inr (kept, removed), fs))))"

definition keep_a_copy :: "path \<Rightarrow> instant \<Rightarrow> fs \<Rightarrow> (io_error, path \<times> path list) result \<times> fs" where
  "keep_a_copy p now fs = keep_a_copy_at p (as_secs now) fs"

section \<open>The operations\<close>

definition applier_missing_message ::
  "'n address_config \<Rightarrow> string \<Rightarrow> 'n board \<Rightarrow> string option \<times> 'n board" where
  "applier_missing_message c tail b =
     (if managed_present (bd_net_class b) then (None, b)
      else (case read_snapshot (ac_json c) (h_exec (ac_host c)) (bd_net b) of
              (snap, n) \<Rightarrow> (Some (missing_message (bd_net_class b) snap tail), b\<lparr>bd_net := n\<rparr>)))"

definition describe_error :: "apply_error \<Rightarrow> string" where
  "describe_error e =
     (case e of
        Command c detail \<Rightarrow> CHR 0x60 # c @ CHR 0x60 # '' failed: '' @ detail
      | ApplyIo _ \<Rightarrow> ''i/o error'')"

definition service_apply :: "'n address_config \<Rightarrow> address_document \<Rightarrow> duration \<Rightarrow> bool
    \<Rightarrow> instant \<Rightarrow> instant \<Rightarrow> string \<Rightarrow> inner \<Rightarrow> 'n board
    \<Rightarrow> (address_error, address_pending) result \<times> inner \<times> 'n board" where
  "service_apply c document window replace_hand_written t1 t2 token iv b =
     (let iv = refresh (bd_fs b) (ac_path c) iv
      in case applier_missing_message c NO_MANAGED_BRIDGE b of
           (Some message, b) \<Rightarrow> (Inl (NoManagedBridge message), iv, b)
         | (None, b) \<Rightarrow>
             if iv_replaces_hand_written iv \<and> \<not> replace_hand_written then (Inl HandWritten, iv, b)
             else
               (case address_apply document (iv_running iv) window t1 token (iv_state iv) of
                  (Inl e, s) \<Rightarrow> (Inl (Change e), iv\<lparr>iv_state := s\<rparr>, b)
                | (Inr (pending, effect), s) \<Rightarrow>
                    (let iv = iv\<lparr>iv_state := s\<rparr>
                     in case effect of
                          Apply d \<Rightarrow>
                            (case applier_apply (ac_host c) (ac_applier c) d b of
                               (Inl e, b) \<Rightarrow>
                                 (let (back, s) = address_apply_failed t2 (describe_error e) (iv_state iv);
                                      b = (case back of
                                             Apply previous \<Rightarrow>
                                               snd (applier_apply (ac_host c) (ac_applier c) previous b)
                                           | _ \<Rightarrow> b)
                                  in (Inl (ApplyErr e), iv\<lparr>iv_state := s\<rparr>, b))
                             | (Inr _, b) \<Rightarrow>
                                 (Inr pending,
                                  iv\<lparr>iv_running := d,
                                     iv_state := address_clear_last_revert (iv_state iv)\<rparr>, b))
                        | _ \<Rightarrow> (Inr pending, iv, b))))"

text \<open>The copy made before a file that is not the daemon's own is replaced; \<open>None\<close> when
  there is nothing to keep.\<close>

definition confirm_backup :: "path \<Rightarrow> instant \<Rightarrow> inner \<Rightarrow> fs \<Rightarrow> (io_error, path option) result \<times> fs" where
  "confirm_backup p now iv fs =
     (if iv_replaces_hand_written iv \<and> fs_exists fs p then
        (case keep_a_copy p now fs of
           (Inl e, fs) \<Rightarrow> (Inl e, fs)
         | (Inr (kept, _), fs) \<Rightarrow> (Inr (Some kept), fs))
      else (Inr None, fs))"

definition service_confirm :: "'n address_config \<Rightarrow> string \<Rightarrow> instant \<Rightarrow> instant \<Rightarrow> instant
    \<Rightarrow> inner \<Rightarrow> 'n board \<Rightarrow> (address_error, unit) result \<times> inner \<times> 'n board" where
  "service_confirm c token t1 t2 t3 iv b =
     (let iv = refresh (bd_fs b) (ac_path c) iv
      in case address_check_confirm token t1 (iv_state iv) of
           Inl e \<Rightarrow> (Inl (Change e), iv, b)
         | Inr document \<Rightarrow>
             (case confirm_backup (ac_path c) t2 iv (bd_fs b) of
                (Inl e, fs) \<Rightarrow> (Inl (IoErr e), iv, b\<lparr>bd_fs := fs\<rparr>)
              | (Inr backup, fs) \<Rightarrow>
                  (case write_atomically (ac_path c) (render document) fs of
                     (Inl e, fs) \<Rightarrow>
                       (Inl (IoErr e), iv,
                        b\<lparr>bd_fs := (case backup of None \<Rightarrow> fs | Some kept \<Rightarrow> snd (fs_remove kept fs))\<rparr>)
                   | (Inr _, fs) \<Rightarrow>
                       (case address_confirm token t3 (iv_state iv) of
                          (Inl e, s) \<Rightarrow> (Inl (Change e), iv\<lparr>iv_state := s\<rparr>, b\<lparr>bd_fs := fs\<rparr>)
                        | (Inr _, s) \<Rightarrow>
                            (Inr (),
                             iv\<lparr>iv_state := s,
                                iv_file_backup := (case backup of None \<Rightarrow> iv_file_backup iv
                                                   | Some kept \<Rightarrow> Some kept),
                                iv_file := Bmcd,
                                iv_replaces_hand_written := False,
                                iv_stamp := modified fs (ac_path c)\<rparr>,
                             b\<lparr>bd_fs := fs\<rparr>)))))"

definition carry_out :: "'n address_config \<Rightarrow> address_effect \<Rightarrow> inner \<Rightarrow> 'n board
    \<Rightarrow> (address_error, unit) result \<times> inner \<times> 'n board" where
  "carry_out c effect iv b =
     (case effect of
        Apply d \<Rightarrow>
          (case applier_apply (ac_host c) (ac_applier c) d b of
             (Inl e, b) \<Rightarrow> (Inl (ApplyErr e), iv, b)
           | (Inr _, b) \<Rightarrow> (Inr (), iv\<lparr>iv_running := d\<rparr>, b))
      | _ \<Rightarrow> (Inr (), iv, b))"

definition service_revert :: "'n address_config \<Rightarrow> instant \<Rightarrow> inner \<Rightarrow> 'n board
    \<Rightarrow> (address_error, unit) result \<times> inner \<times> 'n board" where
  "service_revert c now iv b =
     (case address_revert now (iv_state iv) of
        (Inl e, s) \<Rightarrow> (Inl (Change e), iv\<lparr>iv_state := s\<rparr>, b)
      | (Inr effect, s) \<Rightarrow> carry_out c effect (iv\<lparr>iv_state := s\<rparr>) b)"

definition service_tick :: "'n address_config \<Rightarrow> instant \<Rightarrow> inner \<Rightarrow> 'n board \<Rightarrow> inner \<times> 'n board" where
  "service_tick c now iv b =
     (case address_tick now (iv_state iv) of
        (effect, s) \<Rightarrow>
          if effect = NoEffect then (iv\<lparr>iv_state := s\<rparr>, b)
          else snd (carry_out c effect (iv\<lparr>iv_state := s\<rparr>) b))"

definition repair_file :: "path \<Rightarrow> inner \<Rightarrow> fs \<Rightarrow> bool \<times> inner \<times> fs" where
  "repair_file p iv fs =
     (if iv_file iv = Bmcd \<and>
         (case fs_read_to_string fs p of Inl _ \<Rightarrow> [] | Inr s \<Rightarrow> s) \<noteq> render (iv_running iv)
      then (case write_atomically p (render (iv_running iv)) fs of
              (Inr _, fs) \<Rightarrow> (True, iv\<lparr>iv_stamp := modified fs p\<rparr>, fs)
            | (Inl _, fs) \<Rightarrow> (False, iv, fs))
      else (False, iv, fs))"

definition repair_resolvers :: "path \<Rightarrow> inner \<Rightarrow> fs \<Rightarrow> bool \<times> fs" where
  "repair_resolvers resolv_path iv fs =
     (case iv_running iv of
        Dhcp \<Rightarrow> (False, fs)
      | Static s \<Rightarrow>
          if sa_dns s \<noteq> [] \<or> sa_search s \<noteq> None then
            (let wanted = resolv_conf (sa_dns s) (sa_search s);
                 current = (case fs_read_to_string fs resolv_path of Inl _ \<Rightarrow> [] | Inr t \<Rightarrow> t)
             in if list_ex (\<lambda>l. l \<notin> set (lines current)) (lines wanted)
                then (case fs_write resolv_path (Utf8 wanted) fs of
                        (Inr _, fs) \<Rightarrow> (True, fs)
                      | (Inl _, fs) \<Rightarrow> (False, fs))
                else (False, fs))
          else (False, fs))"

definition repair :: "path \<Rightarrow> path \<Rightarrow> inner \<Rightarrow> fs \<Rightarrow> repair_done \<times> inner \<times> fs" where
  "repair p resolv_path iv fs =
     (case repair_file p iv fs of
        (rewritten, iv, fs) \<Rightarrow>
          (case repair_resolvers resolv_path iv fs of
             (resolvers, fs) \<Rightarrow>
               (\<lparr>rd_file_rewritten = rewritten, rd_resolvers_written = resolvers\<rparr>, iv, fs)))"

section \<open>The names involved\<close>

abbreviation copy_tmp :: "path \<Rightarrow> path" where
  "copy_tmp p \<equiv> with_file_name p (copy_prefix p @ ''tmp'')"

abbreviation write_tmp :: "path \<Rightarrow> path" where
  "write_tmp p \<equiv> with_extension p ''tmp''"

lemma copy_name_last: "is_ascii_digit (last (copy_name pre sec n))"
proof -
  have "is_ascii_digit (last (show_nat k))" for k
    using show_nat_digits [of k] by (simp add: list_all_iff)
  then show ?thesis by (simp add: copy_name_def)
qed

lemma copy_name_not_tmp: "copy_name pre sec n \<noteq> w @ ''tmp''"
proof
  assume "copy_name pre sec n = w @ ''tmp''"
  then have "is_ascii_digit (CHR ''p'')" using copy_name_last [of pre sec n] by simp
  then show False by (simp add: is_ascii_digit_def)
qed

lemma stem_length: "length (stem n) \<le> length n"
  by (induction n) auto

lemma write_tmp_not_copy: "write_tmp p \<noteq> with_file_name p (copy_name pre sec n)"
  using copy_name_not_tmp [of pre sec n "file_stem (snd p) @ ''.''"]
  by (auto simp: with_extension_def with_file_name_def)

lemma write_tmp_not_copy_tmp: "write_tmp p \<noteq> copy_tmp p"
proof
  assume "write_tmp p = copy_tmp p"
  then have "length (file_stem (snd p)) + 4 = length (snd p) + 17"
    by (auto simp: with_extension_def with_file_name_def copy_prefix_def dest: arg_cong [of _ _ length])
  then show False using stem_length [of "snd p"] by (simp add: file_stem_def split: if_splits)
qed

lemma path_not_copy:
  "p \<noteq> with_file_name p (copy_name (copy_prefix p) sec n)" "p \<noteq> copy_tmp p"
  by (auto simp: with_file_name_def copy_name_def copy_prefix_def prod_eq_iff dest: arg_cong [of _ _ length])

section \<open>Linking to a free name\<close>

lemma link_free_ok:
  "link_free tmp pre sec a fs = (Inr t, fs') \<Longrightarrow>
     \<exists>n. t = with_file_name tmp (copy_name pre sec n) \<and> fs_hard_link tmp t fs = (Inr (), fs')"
proof (induction tmp pre sec a fs rule: link_free.induct)
  case (1 tmp pre sec a fs)
  let ?t = "with_file_name tmp (copy_name pre sec a)"
  obtain r fs1 where l: "fs_hard_link tmp ?t fs = (r, fs1)" by (cases "fs_hard_link tmp ?t fs")
  show ?case
  proof (cases "r = Inl AlreadyExists")
    case True
    then have "fs1 = fs" using l hard_link_exists by blast
    moreover have "link_free tmp pre sec (Suc a) fs1 = (Inr t, fs')"
      using "1.prems" l True by (simp add: link_free.simps [of tmp pre sec a])
    ultimately show ?thesis using "1.IH" [OF refl _ _ refl] l True by auto
  next
    case False
    then show ?thesis
      using "1.prems" l by (auto simp: link_free.simps [of tmp pre sec a] split: sum.splits io_error.splits)
  qed
qed

lemma link_free_err: "link_free tmp pre sec a fs = (Inl e, fs') \<Longrightarrow> fs' = fs"
proof (induction tmp pre sec a fs rule: link_free.induct)
  case (1 tmp pre sec a fs)
  let ?t = "with_file_name tmp (copy_name pre sec a)"
  obtain r fs1 where l: "fs_hard_link tmp ?t fs = (r, fs1)" by (cases "fs_hard_link tmp ?t fs")
  show ?case
  proof (cases r)
    case (Inl x)
    then have "fs1 = fs" using l fs_hard_link_err by blast
    with "1.IH" [OF refl _ Inl] "1.prems" l Inl show ?thesis
      by (cases x) (auto simp: link_free.simps [of tmp pre sec a])
  qed (use "1.prems" l in \<open>auto simp: link_free.simps [of tmp pre sec a]\<close>)
qed

text \<open>Without faults the loop always finds a free name.\<close>

lemma link_free_finds:
  assumes "fs_exists fs tmp" and "fs_faults fs = []"
  shows "\<exists>t fs'. link_free tmp pre sec a fs = (Inr t, fs')"
  using assms
proof (induction tmp pre sec a fs rule: link_free.induct)
  case (1 tmp pre sec a fs)
  let ?t = "with_file_name tmp (copy_name pre sec a)"
  show ?case
  proof (cases "fs_exists fs ?t")
    case True
    then have l: "fs_hard_link tmp ?t fs = (Inl AlreadyExists, fs)"
      using "1.prems" by (auto simp: fs_hard_link_def fs_exists_def)
    from "1.IH" [OF refl l [symmetric] refl refl] "1.prems" l show ?thesis
      by (simp add: link_free.simps [of tmp pre sec a])
  next
    case False
    then have "\<exists>fs1. fs_hard_link tmp ?t fs = (Inr (), fs1)"
      using "1.prems" by (auto simp: fs_hard_link_def fs_exists_def)
    then show ?thesis by (auto simp: link_free.simps [of tmp pre sec a])
  qed
qed

section \<open>Keeping a copy\<close>

lemma remove_old_effect:
  "remove_old made olds fs = (removed, fs') \<Longrightarrow>
     set removed \<subseteq> set olds - {made} \<and> (fs_wf fs \<longrightarrow> fs_wf fs')
     \<and> (\<forall>q. q \<notin> set removed \<longrightarrow> map_of (fs_names fs') q = map_of (fs_names fs) q)
     \<and> fs_inodes fs' = fs_inodes fs"
proof (induction made olds fs arbitrary: removed fs' rule: remove_old.induct)
  case (2 made old rest fs)
  obtain r fs1 where r: "fs_remove old fs = (r, fs1)" by (cases "fs_remove old fs")
  have eff: "(fs_wf fs \<longrightarrow> fs_wf fs1) \<and> fs_inodes fs1 = fs_inodes fs"
    using r fs_remove_wf [of fs old] by (auto simp: fs_remove_def fs_unlink_def split: if_splits)
  have keep: "map_of (fs_names fs1) q = map_of (fs_names fs) q" if "r = Inl e \<or> q \<noteq> old" for q e
    using r that by (auto simp: fs_remove_def fs_unlink_def map_of_filter_names split: if_splits)
  show ?case
  proof (cases "old = made")
    case True
    then show ?thesis using 2 by auto
  next
    case False
    show ?thesis
    proof (cases r)
      case (Inl e)
      then show ?thesis using "2.IH"(2) [OF False r [symmetric] Inl] "2.prems" False r eff keep by auto
    next
      case (Inr u)
      obtain rs fs2 where rec: "remove_old made rest fs1 = (rs, fs2)" by (cases "remove_old made rest fs1")
      then have "removed = old # rs" "fs' = fs2" using "2.prems" False r Inr by auto
      then show ?thesis
        using "2.IH"(3) [OF False r [symmetric] Inr rec] False eff keep
        by (auto simp del: split_paired_All)
    qed
  qed
qed simp

lemma fs_remove_mono:
  "map_of (fs_names (snd (fs_remove p fs))) q = Some i \<Longrightarrow> map_of (fs_names fs) q = Some i"
  by (auto simp: fs_remove_def fs_unlink_def map_of_filter_names split: if_splits)

lemma remove_old_mono:
  "map_of (fs_names (snd (remove_old made olds fs))) q = Some i \<Longrightarrow> map_of (fs_names fs) q = Some i"
proof (induction made olds fs rule: remove_old.induct)
  case (2 made old rest fs)
  then show ?case
    using fs_remove_mono [of old fs q i] by (auto split: prod.splits sum.splits if_splits)
qed simp

lemma prune_mono:
  "prune_copies dir pre made fs = (removed, fs') \<Longrightarrow> map_of (fs_names fs') q = Some i \<Longrightarrow>
     map_of (fs_names fs) q = Some i"
  unfolding prune_copies_def Let_def by (metis remove_old_mono snd_conv)

lemma parse_copy_name: "parse_copy pre name = Some c \<Longrightarrow> snd c = name \<and> (\<exists>r. name = pre @ r)"
  by (auto simp: parse_copy_def split: option.split_asm)

lemma copies_in_prefix: "c \<in> set (copies_in dir pre fs) \<Longrightarrow> \<exists>r. snd c = pre @ r"
  by (auto simp: copies_in_def set_filter_map split: sum.split_asm dest!: parse_copy_name)

lemma prune_effect:
  assumes "prune_copies (fst p) (copy_prefix p) made fs = (removed, fs')"
  shows "set removed \<subseteq> {q. fst q = fst p \<and> (\<exists>r. snd q = copy_prefix p @ r)} - {made}"
    and "fs_wf fs \<Longrightarrow> fs_wf fs'"
    and "q \<notin> set removed \<Longrightarrow> fs_inode fs' q = fs_inode fs q"
    and "q \<notin> set removed \<Longrightarrow> map_of (fs_names fs') q = map_of (fs_names fs) q"
proof -
  let ?cs = "copies_in (fst p) (copy_prefix p) fs"
  have r: "remove_old made (map (\<lambda>c. (fst p, snd c)) (take (length ?cs - KEEP_COPIES) ?cs)) fs = (removed, fs')"
    using assms by (simp add: prune_copies_def Let_def)
  note e = remove_old_effect [OF r]
  show "set removed \<subseteq> {q. fst q = fst p \<and> (\<exists>r. snd q = copy_prefix p @ r)} - {made}"
  proof
    fix q assume "q \<in> set removed"
    then have "q \<noteq> made" and "q \<in> (\<lambda>c. (fst p, snd c)) ` set (take (length ?cs - KEEP_COPIES) ?cs)"
      using e by auto
    then have "q \<noteq> made" and "q \<in> (\<lambda>c. (fst p, snd c)) ` set ?cs"
      by (auto dest: in_set_takeD)
    then show "q \<in> {q. fst q = fst p \<and> (\<exists>r. snd q = copy_prefix p @ r)} - {made}"
      using copies_in_prefix by fastforce
  qed
  show "fs_wf fs \<Longrightarrow> fs_wf fs'" using e by blast
  show m: "q \<notin> set removed \<Longrightarrow> map_of (fs_names fs') q = map_of (fs_names fs) q" using e by blast
  have "fs_inodes fs' = fs_inodes fs" using e by blast
  then show "q \<notin> set removed \<Longrightarrow> fs_inode fs' q = fs_inode fs q"
    unfolding fs_inode_def using m by presburger
qed

text \<open>The steps of a successful copy: the bytes are written under the temporary name, linked
  to a free name, the temporary name goes, and older copies may go.\<close>

lemma keep_a_copy_steps:
  assumes "keep_a_copy_at p sec fs = (Inr (kept, removed), fs')"
  obtains bytes fs1 fs2 n where "fs_read fs p = Inr bytes"
    and "fs_write (copy_tmp p) bytes fs = (Inr (), fs1)"
    and "kept = with_file_name p (copy_name (copy_prefix p) sec n)"
    and "fs_hard_link (copy_tmp p) kept fs1 = (Inr (), fs2)"
    and "prune_copies (fst p) (copy_prefix p) kept (snd (fs_remove (copy_tmp p) fs2)) = (removed, fs')"
proof -
  obtain bytes where r: "fs_read fs p = Inr bytes"
    using assms by (auto simp: keep_a_copy_at_def Let_def split: sum.splits)
  obtain fs1 where w: "fs_write (copy_tmp p) bytes fs = (Inr (), fs1)"
    using assms r by (auto simp: keep_a_copy_at_def Let_def split: sum.splits prod.splits)
  obtain fs2 where l: "link_free (copy_tmp p) (copy_prefix p) sec 0 fs1 = (Inr kept, fs2)"
    and "prune_copies (fst p) (copy_prefix p) kept (snd (fs_remove (copy_tmp p) fs2)) = (removed, fs')"
    using assms r w by (auto simp: keep_a_copy_at_def Let_def split: sum.splits prod.splits)
  with link_free_ok [OF l] r w show ?thesis
    using that by (auto simp: with_file_name_def)
qed

lemma keep_a_copy_error:
  assumes "keep_a_copy_at p sec fs = (Inl e, fs')" and "fs_wf fs" and "unshared fs (copy_tmp p)"
    and "q \<noteq> copy_tmp p"
  shows "fs_inode fs' q = fs_inode fs q" and "fs_wf fs'"
proof -
  have "fs' = fs \<or> (\<exists>bytes. fs' = snd (fs_remove (copy_tmp p) (snd (fs_write (copy_tmp p) bytes fs))))"
  proof (cases "fs_read fs p")
    case (Inr bytes)
    obtain r fs1 where w: "fs_write (copy_tmp p) bytes fs = (r, fs1)"
      by (cases "fs_write (copy_tmp p) bytes fs")
    have "fs' = snd (fs_remove (copy_tmp p) fs1)"
      using assms(1) Inr w link_free_err [of "copy_tmp p" "copy_prefix p" sec 0 fs1]
      by (cases r) (auto simp: keep_a_copy_at_def Let_def split: sum.splits prod.splits)
    then show ?thesis using w by (metis snd_conv)
  qed (use assms(1) in \<open>simp add: keep_a_copy_at_def Let_def\<close>)
  then show "fs_inode fs' q = fs_inode fs q" and "fs_wf fs'"
    using assms(2,4) unsharedD [OF assms(3,4)]
    by (auto simp: fs_inode_remove_other fs_inode_write_other fs_remove_wf fs_write_wf)
qed

lemma fs_write_ok:
  "fs_write p c fs = (Inr (), fs') \<Longrightarrow> fs' = fs_put p c fs \<and> map_of (fs_faults fs) p = None"
  by (simp add: fs_write_iff)

lemma fs_put_faults [simp]: "fs_faults (fs_put p c fs) = fs_faults fs"
  by (simp add: fs_put_def split: option.splits)

lemma fs_put_names: "q \<noteq> p \<Longrightarrow> map_of (fs_names (fs_put p c fs)) q = map_of (fs_names fs) q"
  by (simp add: fs_put_def split: option.splits)

lemma fs_hard_link_faults: "fs_hard_link p q fs = (r, fs') \<Longrightarrow> fs_faults fs' = fs_faults fs"
  by (auto simp: fs_hard_link_def split: option.splits if_splits)

lemma keep_a_copy_effect:
  assumes "keep_a_copy_at p sec fs = (Inr (kept, removed), fs')"
    and "fs_wf fs" and "unshared fs (copy_tmp p)"
  shows "\<exists>n. kept = with_file_name p (copy_name (copy_prefix p) sec n)"
    and "\<not> fs_exists fs kept"
    and "fs_contents fs' kept = fs_contents fs p"
    and "set removed \<subseteq> {q. fst q = fst p \<and> (\<exists>r. snd q = copy_prefix p @ r)} - {kept}"
    and "q \<notin> set removed \<Longrightarrow> q \<noteq> kept \<Longrightarrow> q \<noteq> copy_tmp p \<Longrightarrow> fs_inode fs' q = fs_inode fs q"
    and "fs_wf fs'"
    and "\<not> fs_exists fs' (copy_tmp p)"
proof -
  obtain bytes fs1 fs2 n where st: "fs_read fs p = Inr bytes"
      "fs_write (copy_tmp p) bytes fs = (Inr (), fs1)"
      "kept = with_file_name p (copy_name (copy_prefix p) sec n)"
      "fs_hard_link (copy_tmp p) kept fs1 = (Inr (), fs2)"
      "prune_copies (fst p) (copy_prefix p) kept (snd (fs_remove (copy_tmp p) fs2)) = (removed, fs')"
    by (rule keep_a_copy_steps [OF assms(1)])
  show "\<exists>n. kept = with_file_name p (copy_name (copy_prefix p) sec n)" using st(3) by blast
  have kt: "kept \<noteq> copy_tmp p"
    using copy_name_not_tmp [of "copy_prefix p" sec n "copy_prefix p"] by (auto simp: st(3) with_file_name_def)
  note w = fs_write_ok [OF st(2)]
  note pr = prune_effect [OF st(5)]
  note wf1 = fs_write_wf [OF assms(2), of "copy_tmp p" bytes, unfolded st(2), simplified]
  have wf2: "fs_wf fs2" using fs_hard_link_wf [OF wf1, of "copy_tmp p" kept] st(4) by simp
  show "\<not> fs_exists fs kept"
    using fs_hard_link_ok [OF st(4)] kt w by (simp add: fs_exists_def fs_put_names)
  have "fs_inode fs2 kept = Some \<lparr>in_contents = bytes, in_modified = fs_time fs\<rparr>"
    using fs_hard_link_ok [OF st(4)] w by (simp add: fs_inode_put)
  moreover have "kept \<notin> set removed" using pr(1) by blast
  ultimately have "fs_inode fs' kept = Some \<lparr>in_contents = bytes, in_modified = fs_time fs\<rparr>"
    using pr(3) [of kept] kt by (simp add: fs_inode_remove_other)
  moreover have "fs_contents fs p = Some bytes"
    using st(1) by (auto simp: fs_read_def fs_contents_def split: option.splits if_splits)
  ultimately show "fs_contents fs' kept = fs_contents fs p" by (auto simp: fs_contents_def)
  show "set removed \<subseteq> {q. fst q = fst p \<and> (\<exists>r. snd q = copy_prefix p @ r)} - {kept}" by (rule pr(1))
  show "fs_wf fs'" by (rule pr(2)) (rule fs_remove_wf [OF wf2])
  show "fs_inode fs' q = fs_inode fs q"
    if q: "q \<notin> set removed" "q \<noteq> kept" "q \<noteq> copy_tmp p"
  proof -
    have "fs_inode fs2 q = fs_inode fs1 q"
      using fs_inode_hard_link_other [OF q(2), of "copy_tmp p" fs1] st(4) by simp
    moreover have "fs_inode fs1 q = fs_inode fs q"
      using fs_inode_write_other [OF assms(2) q(3) unsharedD [OF assms(3) q(3)], of bytes] st(2) by simp
    ultimately show ?thesis using pr(3) [OF q(1)] q(3) by (simp add: fs_inode_remove_other)
  qed
  have "map_of (fs_faults fs2) (copy_tmp p) = None"
    using w fs_hard_link_faults [OF st(4)] by simp
  then have gone: "\<not> fs_exists (snd (fs_remove (copy_tmp p) fs2)) (copy_tmp p)"
    by (auto simp: fs_remove_def fs_exists_def fs_unlink_def map_of_filter_names)
  then show "\<not> fs_exists fs' (copy_tmp p)"
    using prune_mono [OF st(5), of "copy_tmp p"] unfolding fs_exists_def by fastforce
qed

section \<open>Confirming\<close>

lemma write_atomically_ok:
  assumes "write_atomically p s fs = (Inr (), fs')" and "fs_wf fs"
  shows "fs_contents fs' p = Some (Utf8 s)"
    and "q \<noteq> p \<Longrightarrow> q \<noteq> write_tmp p \<Longrightarrow> \<not> aliased fs (write_tmp p) q \<Longrightarrow>
      fs_inode fs' q = fs_inode fs q"
proof -
  obtain fs1 where w: "fs_write (write_tmp p) (Utf8 s) fs = (Inr (), fs1)"
    and r: "fs_rename (write_tmp p) p fs1 = (Inr (), fs')"
    using assms(1)
    by (auto simp: write_atomically_def fs_create_dir_all_def split: sum.splits prod.splits if_splits)
  show "fs_contents fs' p = Some (Utf8 s)"
    using fs_rename_ok [OF r] fs_write_ok [OF w] by (simp add: fs_contents_def fs_inode_put)
  show "fs_inode fs' q = fs_inode fs q"
    if "q \<noteq> p" "q \<noteq> write_tmp p" "\<not> aliased fs (write_tmp p) q"
    using fs_inode_rename_other [of q "write_tmp p" p fs1] r
      fs_inode_write_other [of fs q "write_tmp p" "Utf8 s"] w assms(2) that by simp
qed

lemma write_atomically_err:
  assumes "write_atomically p s fs = (Inl e, fs')" and "fs_wf fs" and "q \<noteq> write_tmp p"
    and "\<not> aliased fs (write_tmp p) q"
  shows "fs_inode fs' q = fs_inode fs q"
proof -
  have "fs' = fs \<or> fs' = snd (fs_write (write_tmp p) (Utf8 s) fs)"
    using assms(1) fs_rename_err
    by (auto simp: write_atomically_def fs_create_dir_all_def split: sum.splits prod.splits if_splits)
  then show ?thesis using fs_inode_write_other [OF assms(2-4)] by auto
qed

text \<open>A store in which the names the service writes under are nobody else's.\<close>

definition tidy :: "path \<Rightarrow> fs \<Rightarrow> bool" where
  "tidy p fs = (fs_wf fs \<and> unshared fs (copy_tmp p) \<and> unshared fs (write_tmp p) \<and> write_tmp p \<noteq> p)"

lemma aliased_inode:
  "aliased fs p q \<Longrightarrow> \<exists>i. map_of (fs_names fs) p = Some i \<and> map_of (fs_names fs) q = Some i"
  by (cases "map_of (fs_names fs) q") (auto simp: aliased_def fs_exists_def)

text \<open>Making a copy does not tie the other temporary name to anything.\<close>

lemma keep_a_copy_unshared:
  assumes "keep_a_copy_at p sec fs = (Inr (kept, removed), fs')" and "tidy p fs" and "q \<noteq> write_tmp p"
  shows "\<not> aliased fs' (write_tmp p) q"
proof
  assume "aliased fs' (write_tmp p) q"
  then obtain i where i: "map_of (fs_names fs') (write_tmp p) = Some i" "map_of (fs_names fs') q = Some i"
    by (auto dest: aliased_inode)
  obtain bytes fs1 fs2 n where st: "fs_write (copy_tmp p) bytes fs = (Inr (), fs1)"
      "kept = with_file_name p (copy_name (copy_prefix p) sec n)"
      "fs_hard_link (copy_tmp p) kept fs1 = (Inr (), fs2)"
      "prune_copies (fst p) (copy_prefix p) kept (snd (fs_remove (copy_tmp p) fs2)) = (removed, fs')"
    by (rule keep_a_copy_steps [OF assms(1)])
  have sub: "map_of (fs_names fs2) r = Some j" if "map_of (fs_names fs') r = Some j" for r j
    by (rule fs_remove_mono [OF prune_mono [OF st(4) that]])
  note wf = assms(2) [unfolded tidy_def]
  have wk: "write_tmp p \<noteq> kept" using write_tmp_not_copy st(2) by simp
  have names2: "map_of (fs_names fs2) r = map_of (fs_names fs1) (if r = kept then copy_tmp p else r)" for r
    using st(3) by (auto simp: fs_hard_link_def split: option.splits if_splits)
  have fs1: "fs1 = fs_put (copy_tmp p) bytes fs" using fs_write_ok [OF st(1)] by simp
  have names1: "map_of (fs_names fs1) r = map_of (fs_names fs) r" if "r \<noteq> copy_tmp p" for r
    using that by (simp add: fs1 fs_put_names)
  have w: "map_of (fs_names fs) (write_tmp p) = Some i"
    using sub [OF i(1)] names2 wk names1 [OF write_tmp_not_copy_tmp] by simp
  then have "i < fs_next fs" using wf fs_wf_lt by blast
  moreover have "map_of (fs_names fs1) (copy_tmp p) = Some i \<Longrightarrow>
      i = fs_next fs \<or> map_of (fs_names fs) (copy_tmp p) = Some i"
    by (auto simp: fs1 fs_put_def split: option.splits)
  ultimately have "map_of (fs_names fs1) (copy_tmp p) \<noteq> Some i"
    using unsharedD [of fs "write_tmp p" "copy_tmp p"] wf w write_tmp_not_copy_tmp [of p]
    by (auto simp: aliased_def fs_exists_def)
  moreover have "map_of (fs_names fs) q = Some i \<Longrightarrow> False"
    using unsharedD [of fs "write_tmp p" q] wf w assms(3) by (auto simp: aliased_def fs_exists_def)
  ultimately show False
    using sub [OF i(2)] names2 [of q] names1 [of q]
    by (cases "q = kept"; cases "q = copy_tmp p") auto
qed

lemma refresh_pending [simp]: "as_pending (iv_state (refresh fs p iv)) = as_pending (iv_state iv)"
  by (simp add: refresh_def address_set_persisted_def Let_def)

lemma refresh_check [simp]:
  "address_check_confirm tok now (iv_state (refresh fs p iv)) = address_check_confirm tok now (iv_state iv)"
  by (simp add: address_check_confirm_def)

lemma check_confirm_ok:
  "address_check_confirm tok now s = Inr d \<longleftrightarrow>
     (\<exists>p. as_pending s = Some p \<and> ap_token p = tok \<and> \<not> ap_expired_at p now \<and> ap_document p = d)"
  by (auto simp: address_check_confirm_def split: option.splits)

lemma confirm_backup_ok:
  assumes "confirm_backup p now iv fs = (Inr backup, fs')" and "tidy p fs"
  shows "fs_wf fs'" and "q \<noteq> write_tmp p \<Longrightarrow> \<not> aliased fs' (write_tmp p) q"
    and "iv_replaces_hand_written iv \<and> fs_exists fs p \<Longrightarrow>
      \<exists>kept. backup = Some kept \<and> \<not> fs_exists fs kept \<and> fs_contents fs' kept = fs_contents fs p
        \<and> kept \<noteq> p \<and> kept \<noteq> write_tmp p"
    and "fs_inode fs' p = fs_inode fs p"
proof -
  have t: "fs_wf fs" "unshared fs (copy_tmp p)" "unshared fs (write_tmp p)" using assms(2) by (auto simp: tidy_def)
  have *: "fs_wf fs' \<and> (\<forall>q. q \<noteq> write_tmp p \<longrightarrow> \<not> aliased fs' (write_tmp p) q)
      \<and> (iv_replaces_hand_written iv \<and> fs_exists fs p \<longrightarrow>
          (\<exists>kept. backup = Some kept \<and> \<not> fs_exists fs kept \<and> fs_contents fs' kept = fs_contents fs p
            \<and> kept \<noteq> p \<and> kept \<noteq> write_tmp p))
      \<and> fs_inode fs' p = fs_inode fs p"
  proof (cases "iv_replaces_hand_written iv \<and> fs_exists fs p")
    case True
    then obtain kept removed where k: "keep_a_copy_at p (as_secs now) fs = (Inr (kept, removed), fs')"
      and b: "backup = Some kept"
      using assms(1) by (auto simp: confirm_backup_def keep_a_copy_def split: prod.splits sum.splits)
    note e = keep_a_copy_effect [OF k t(1,2)]
    obtain n where n: "kept = with_file_name p (copy_name (copy_prefix p) (as_secs now) n)" using e(1) by blast
    have ne: "kept \<noteq> p" "kept \<noteq> write_tmp p" "p \<noteq> copy_tmp p" "p \<notin> set removed"
      using path_not_copy(1) [of p "as_secs now" n] path_not_copy(2) [of p] write_tmp_not_copy [of p "copy_prefix p" "as_secs now" n]
        n e(4) by (auto simp: copy_prefix_def)
    have "fs_inode fs' p = fs_inode fs p" using e(5) [of p] ne by auto
    then show ?thesis
      using e(2,3,6) b ne keep_a_copy_unshared [OF k assms(2)] by blast
  next
    case False
    then have "fs' = fs" using assms(1) by (auto simp: confirm_backup_def)
    then show ?thesis using t unsharedD [OF t(3)] False by metis
  qed
  from * show "fs_wf fs'" and "q \<noteq> write_tmp p \<Longrightarrow> \<not> aliased fs' (write_tmp p) q"
    and "iv_replaces_hand_written iv \<and> fs_exists fs p \<Longrightarrow>
      \<exists>kept. backup = Some kept \<and> \<not> fs_exists fs kept \<and> fs_contents fs' kept = fs_contents fs p
        \<and> kept \<noteq> p \<and> kept \<noteq> write_tmp p"
    and "fs_inode fs' p = fs_inode fs p" by blast+
qed

section \<open>A store where nothing fails\<close>

definition healthy :: "fs \<Rightarrow> bool" where
  "healthy fs = (fs_faults fs = [] \<and> fs_unreadable fs = [] \<and> fs_closed_dirs fs = [])"

lemma healthy_put [simp]: "healthy (fs_put p c fs) = healthy fs"
  by (simp add: healthy_def fs_put_def split: option.splits)

lemma healthy_write [simp]: "healthy (snd (fs_write p c fs)) = healthy fs"
  by (simp add: fs_write_def split: option.splits fault.splits)

lemma healthy_remove [simp]: "healthy (snd (fs_remove p fs)) = healthy fs"
  by (simp add: healthy_def fs_remove_def fs_unlink_def)

lemma healthy_hard_link [simp]: "healthy (snd (fs_hard_link p q fs)) = healthy fs"
  by (auto simp: healthy_def fs_hard_link_def split: option.splits)

lemma healthy_remove_old: "healthy fs \<Longrightarrow> healthy (snd (remove_old made olds fs))"
proof (induction made olds fs rule: remove_old.induct)
  case (2 made old rest fs)
  obtain r fs1 where r: "fs_remove old fs = (r, fs1)" by (cases "fs_remove old fs")
  then have "healthy fs1" using healthy_remove [of old fs] "2.prems" by simp
  with 2 r show ?case by (auto split: prod.splits sum.splits)
qed simp

lemma write_healthy: "healthy fs \<Longrightarrow> fs_write p c fs = (Inr (), fs_put p c fs)"
  by (simp add: fs_write_def healthy_def)

lemma exists_put: "fs_exists (fs_put p c fs) p"
  by (simp add: fs_exists_def fs_put_def split: option.splits)

lemma keep_a_copy_healthy:
  assumes "healthy fs" and "fs_exists fs p"
  shows "\<exists>kept removed fs'. keep_a_copy_at p sec fs = (Inr (kept, removed), fs') \<and> healthy fs'"
proof -
  obtain bytes where r: "fs_read fs p = Inr bytes"
    using assms by (auto simp: fs_read_def fs_exists_def fs_inode_def healthy_def split: option.splits)
  let ?fs1 = "fs_put (copy_tmp p) bytes fs"
  have h1: "healthy ?fs1" using assms(1) by simp
  then obtain t fs2 where l: "link_free (copy_tmp p) (copy_prefix p) sec 0 ?fs1 = (Inr t, fs2)"
    using link_free_finds [OF exists_put, of "copy_tmp p" bytes fs "copy_prefix p" sec 0] h1
    unfolding healthy_def by blast
  have "healthy fs2"
    using link_free_ok [OF l] h1 healthy_hard_link by (metis snd_conv)
  then have "healthy (snd (prune_copies (fst p) (copy_prefix p) t (snd (fs_remove (copy_tmp p) fs2))))"
    by (simp add: prune_copies_def Let_def healthy_remove_old)
  then show ?thesis
    using r write_healthy [OF assms(1)] l
    by (auto simp: keep_a_copy_at_def Let_def split: prod.splits)
qed

lemma write_atomically_healthy:
  "healthy fs \<Longrightarrow> \<exists>fs'. write_atomically p s fs = (Inr (), fs')"
  using exists_put [of "write_tmp p" "Utf8 s" fs]
  by (auto simp: write_atomically_def fs_create_dir_all_def write_healthy fs_rename_def fs_exists_def)
    (auto simp: healthy_def)

section \<open>Properties\<close>

text \<open>C3: confirming a change that is accepted leaves the interfaces file holding exactly the
  rendered document, the state machine with nothing waiting and that document confirmed, and
  the network untouched; when the file replaced was somebody's own work, its former contents
  stand, byte for byte, under a name that was free before.\<close>

theorem service_confirm_ok:
  assumes "service_confirm c token t1 t2 t3 iv b = (Inr (), iv', b')"
    and "tidy (ac_path c) (bd_fs b)"
  shows "\<exists>p. as_pending (iv_state iv) = Some p \<and> ap_token p = token
    \<and> \<not> ap_expired_at p t1 \<and> \<not> ap_expired_at p t3
    \<and> fs_contents (bd_fs b') (ac_path c) = Some (Utf8 (render (ap_document p)))
    \<and> as_pending (iv_state iv') = None \<and> as_confirmed (iv_state iv') = Some (ap_document p)
    \<and> iv_file iv' = Bmcd \<and> iv_running iv' = iv_running iv \<and> bd_net b' = bd_net b
    \<and> (iv_replaces_hand_written (refresh (bd_fs b) (ac_path c) iv)
          \<and> fs_exists (bd_fs b) (ac_path c) \<longrightarrow>
       (\<exists>kept. iv_file_backup iv' = Some kept \<and> \<not> fs_exists (bd_fs b) kept
          \<and> fs_contents (bd_fs b') kept = fs_contents (bd_fs b) (ac_path c)))"
proof -
  let ?iv = "refresh (bd_fs b) (ac_path c) iv"
  obtain d where chk: "address_check_confirm token t1 (iv_state iv) = Inr d"
    using assms(1) by (auto simp: service_confirm_def Let_def split: sum.splits)
  obtain backup fs1 where bk: "confirm_backup (ac_path c) t2 ?iv (bd_fs b) = (Inr backup, fs1)"
    using assms(1) chk by (auto simp: service_confirm_def Let_def split: sum.splits prod.splits)
  obtain fs2 where wr: "write_atomically (ac_path c) (render d) fs1 = (Inr (), fs2)"
    using assms(1) chk bk by (auto simp: service_confirm_def Let_def split: sum.splits prod.splits)
  obtain e s where cf: "address_confirm token t3 (iv_state ?iv) = (Inr e, s)"
    and iv': "iv' = ?iv\<lparr>iv_state := s,
        iv_file_backup := (case backup of None \<Rightarrow> iv_file_backup ?iv | Some kept \<Rightarrow> Some kept),
        iv_file := Bmcd, iv_replaces_hand_written := False, iv_stamp := modified fs2 (ac_path c)\<rparr>"
    and b': "b' = b\<lparr>bd_fs := fs2\<rparr>"
    using assms(1) chk bk wr by (auto simp: service_confirm_def Let_def split: sum.splits prod.splits)
  obtain p where p: "as_pending (iv_state iv) = Some p" "ap_token p = token" "\<not> ap_expired_at p t1"
      "ap_document p = d" using chk by (auto simp: check_confirm_ok)
  have st: "\<not> ap_expired_at p t3" "as_pending s = None" "as_confirmed s = Some d"
    using cf p by (auto simp: address_confirm_def address_check_confirm_def split: if_splits)
  note bo = confirm_backup_ok [OF bk assms(2)]
  have written: "fs_contents fs2 (ac_path c) = Some (Utf8 (render d))"
    by (rule write_atomically_ok(1) [OF wr bo(1)])
  have kept: "\<exists>kept. backup = Some kept \<and> \<not> fs_exists (bd_fs b) kept
      \<and> fs_contents fs2 kept = fs_contents (bd_fs b) (ac_path c)"
    if "iv_replaces_hand_written ?iv \<and> fs_exists (bd_fs b) (ac_path c)"
    using bo(3) [OF that] write_atomically_ok(2) [OF wr bo(1)] bo(2)
    unfolding fs_contents_def by metis
  have "iv_running ?iv = iv_running iv" by (simp add: refresh_def Let_def)
  then show ?thesis using p st written kept by (auto simp: iv' b')
qed

text \<open>a confirmation that fails because a copy or the file could not be written changes
  nothing that matters: the interfaces file has the contents it had, and the change is still
  waiting to be confirmed again or put back.\<close>

theorem service_confirm_io_error:
  assumes "service_confirm c token t1 t2 t3 iv b = (Inl (IoErr e), iv', b')"
    and "tidy (ac_path c) (bd_fs b)"
  shows "fs_inode (bd_fs b') (ac_path c) = fs_inode (bd_fs b) (ac_path c)
    \<and> as_pending (iv_state iv') = as_pending (iv_state iv) \<and> as_pending (iv_state iv') \<noteq> None
    \<and> iv' = refresh (bd_fs b) (ac_path c) iv \<and> bd_net b' = bd_net b"
proof -
  let ?iv = "refresh (bd_fs b) (ac_path c) iv"
  let ?p = "ac_path c"
  have t: "fs_wf (bd_fs b)" "unshared (bd_fs b) (copy_tmp ?p)" "write_tmp ?p \<noteq> ?p"
    using assms(2) by (auto simp: tidy_def)
  obtain d where chk: "address_check_confirm token t1 (iv_state iv) = Inr d"
    using assms(1) by (auto simp: service_confirm_def Let_def split: sum.splits)
  obtain r fs1 where bk: "confirm_backup ?p t2 ?iv (bd_fs b) = (r, fs1)"
    by (cases "confirm_backup ?p t2 ?iv (bd_fs b)")
  have iv': "iv' = ?iv" and net: "bd_net b' = bd_net b"
    using assms(1) chk bk
    by (auto simp: service_confirm_def Let_def split: sum.splits prod.splits)
  have "fs_inode (bd_fs b') ?p = fs_inode (bd_fs b) ?p"
  proof (cases r)
    case (Inl x)
    then have "keep_a_copy_at ?p (as_secs t2) (bd_fs b) = (Inl x, fs1)"
      using bk by (auto simp: confirm_backup_def keep_a_copy_def split: if_splits prod.splits sum.splits)
    then have "fs_inode fs1 ?p = fs_inode (bd_fs b) ?p"
      using keep_a_copy_error(1) t path_not_copy(2) by metis
    then show ?thesis using assms(1) chk bk Inl by (auto simp: service_confirm_def Let_def)
  next
    case (Inr backup)
    note bo = confirm_backup_ok [OF bk [unfolded Inr] assms(2)]
    obtain fs2 where wr: "write_atomically ?p (render d) fs1 = (Inl e, fs2)"
      and b': "bd_fs b' = (case backup of None \<Rightarrow> fs2 | Some kept \<Rightarrow> snd (fs_remove kept fs2))"
      using assms(1) chk bk Inr
      by (auto simp: service_confirm_def Let_def split: sum.splits prod.splits)
    have "fs_inode fs2 ?p = fs_inode (bd_fs b) ?p"
      using write_atomically_err [OF wr bo(1)] bo(2,4) t(3) by metis
    moreover have "backup = Some kept \<Longrightarrow> kept \<noteq> ?p" for kept
      using bk Inr bo(3) by (auto simp: confirm_backup_def split: if_splits)
    ultimately show ?thesis using b' by (auto simp: fs_inode_remove_other split: option.splits)
  qed
  moreover have "as_pending (iv_state iv) \<noteq> None" using chk by (auto simp: check_confirm_ok)
  ultimately show ?thesis using iv' net by simp
qed

lemma confirm_live:
  assumes "as_pending (iv_state iv) = Some p" and "ap_token p = token"
    and "\<not> ap_expired_at p t1" and "\<not> ap_expired_at p t3" and "healthy (bd_fs b)"
  shows "\<exists>iv' b'. service_confirm c token t1 t2 t3 iv b = (Inr (), iv', b')"
proof -
  let ?iv = "refresh (bd_fs b) (ac_path c) iv"
  have chk: "address_check_confirm token t (iv_state ?iv) = Inr (ap_document p)" if "t \<in> {t1, t3}" for t
    using that assms by (auto simp: address_check_confirm_def)
  obtain backup fs1 where bk: "confirm_backup (ac_path c) t2 ?iv (bd_fs b) = (Inr backup, fs1)"
    and h: "healthy fs1"
    using keep_a_copy_healthy [OF assms(5), of "ac_path c" "as_secs t2"] assms(5)
    by (cases "iv_replaces_hand_written ?iv \<and> fs_exists (bd_fs b) (ac_path c)")
      (auto simp: confirm_backup_def keep_a_copy_def)
  obtain fs2 where "write_atomically (ac_path c) (render (ap_document p)) fs1 = (Inr (), fs2)"
    using write_atomically_healthy [OF h] by blast
  then show ?thesis
    using chk bk by (simp add: service_confirm_def Let_def address_confirm_def del: refresh_check)
qed

text \<open>on a board whose files can be read and written, a confirmation with the right token
  inside the window always succeeds; making the copy of a hand-written file finds a free name
  however many copies there are.\<close>

theorem service_confirm_live:
  assumes "as_pending (iv_state iv) = Some p" and "ap_token p = token"
    and "\<not> ap_expired_at p t1" and "\<not> ap_expired_at p t3" and "healthy (bd_fs b)"
  shows "\<exists>iv' b'. service_confirm c token t1 t2 t3 iv b = (Inr (), iv', b')"
  using assms by (rule confirm_live)

definition hand_fs :: fs where
  "hand_fs = empty_fs\<lparr>fs_names := [(INTERFACES_FILE, 0)],
     fs_inodes := (\<lambda>_. \<lparr>in_contents = Utf8 ''mine'', in_modified = 7\<rparr>), fs_next := 1, fs_time := 9\<rparr>"

definition example_pending :: address_pending where
  "example_pending = \<lparr>ap_token = ''t'', ap_document = Dhcp, ap_snapshot = Dhcp,
     ap_applied_at = 0, ap_window_s = 30\<rparr>"

definition hand_inner :: inner where
  "hand_inner = \<lparr>iv_state = \<lparr>as_confirmed = None, as_pending = Some example_pending,
       as_last_revert = None\<rparr>,
     iv_running = Dhcp, iv_file = Unreadable, iv_replaces_hand_written = True,
     iv_stamp = Some (7, 4), iv_file_backup = None\<rparr>"

definition example_config :: "(string list \<times> string option) address_config" where
  "example_config = \<lparr>ac_host = example_host, ac_applier = applier_system,
     ac_path = INTERFACES_FILE, ac_json = example_json\<rparr>"

definition hand_board :: "(string list \<times> string option) board" where
  "hand_board = example_board\<lparr>bd_fs := hand_fs\<rparr>"

lemma hand_refresh: "refresh hand_fs INTERFACES_FILE hand_inner = hand_inner"
  by (simp add: refresh_def modified_def fs_metadata_def fs_inode_def hand_fs_def hand_inner_def
      utf8_len_def)

lemma hand_tidy: "tidy INTERFACES_FILE hand_fs"
  by (auto simp: tidy_def fs_wf_def hand_fs_def unshared_def aliased_def fs_exists_def
      INTERFACES_FILE_def with_file_name_def with_extension_def file_stem_def copy_prefix_def
      empty_fs_def)

lemma hand_facts [simp]:
  "bd_fs hand_board = hand_fs" "ac_path example_config = INTERFACES_FILE"
  "as_pending (iv_state hand_inner) = Some example_pending" "ap_token example_pending = ''t''"
  "healthy hand_fs" "fs_exists hand_fs INTERFACES_FILE" "iv_replaces_hand_written hand_inner"
  "fs_contents hand_fs INTERFACES_FILE = Some (Utf8 ''mine'')"
  "ap_expired_at example_pending t = (30000000000 \<le> t)"
  by (simp_all add: hand_board_def example_config_def hand_inner_def example_pending_def
      healthy_def hand_fs_def empty_fs_def fs_exists_def fs_contents_def fs_inode_def
      ap_expired_at_def ap_deadline_def from_secs_def)

theorem service_confirm_live_witness:
  "\<exists>iv' b'. service_confirm example_config ''t'' 1 2 3 hand_inner hand_board = (Inr (), iv', b')"
  using service_confirm_live [of hand_inner example_pending "''t''" 1 3 hand_board example_config 2]
  by simp

lemma hand_confirmed:
  "\<exists>iv' b'. service_confirm example_config ''t'' 1 2 3 hand_inner hand_board = (Inr (), iv', b')"
  using confirm_live [of hand_inner example_pending "''t''" 1 3 hand_board example_config 2] by simp

theorem service_confirm_ok_witness:
  "\<exists>iv' b' kept. service_confirm example_config ''t'' 1 2 3 hand_inner hand_board = (Inr (), iv', b')
     \<and> iv_file_backup iv' = Some kept \<and> fs_contents (bd_fs b') kept = Some (Utf8 ''mine'')"
proof -
  obtain iv' b' where *: "service_confirm example_config ''t'' 1 2 3 hand_inner hand_board = (Inr (), iv', b')"
    using hand_confirmed by blast
  show ?thesis
    using service_confirm_ok [OF *] * hand_tidy hand_refresh by auto
qed

theorem service_confirm_io_error_witness:
  "\<exists>iv' b'. service_confirm example_config ''t'' 1 2 3 (hand_inner\<lparr>iv_replaces_hand_written := False\<rparr>)
       (hand_board\<lparr>bd_fs := hand_fs\<lparr>fs_closed_dirs := [''/etc/network'']\<rparr>\<rparr>)
       = (Inl (IoErr OtherIo), iv', b')
     \<and> as_pending (iv_state iv') = Some example_pending"
proof -
  let ?iv = "hand_inner\<lparr>iv_replaces_hand_written := False\<rparr>"
  let ?fs = "hand_fs\<lparr>fs_closed_dirs := [''/etc/network'']\<rparr>"
  let ?b = "hand_board\<lparr>bd_fs := ?fs\<rparr>"
  have "refresh ?fs INTERFACES_FILE ?iv = ?iv"
    by (simp add: refresh_def modified_def fs_metadata_def fs_inode_def hand_fs_def hand_inner_def
        utf8_len_def)
  then obtain iv' b' where
    *: "service_confirm example_config ''t'' 1 2 3 ?iv ?b = (Inl (IoErr OtherIo), iv', b')"
    by (simp add: service_confirm_def Let_def address_check_confirm_def confirm_backup_def
        write_atomically_def fs_create_dir_all_def INTERFACES_FILE_def del: refresh_check)
  have "tidy (ac_path example_config) (bd_fs ?b)"
    by (auto simp: tidy_def fs_wf_def hand_fs_def unshared_def aliased_def fs_exists_def
        INTERFACES_FILE_def with_file_name_def with_extension_def file_stem_def copy_prefix_def
        empty_fs_def)
  from service_confirm_io_error [OF * this] show ?thesis using * by auto
qed

text \<open>the confirmation reads the clock a second time after it has written the file. When the
  window ends between the two readings the caller is told that nothing is pending, and yet
  the file holds the document that was not confirmed, while the change still waits to be put
  back.\<close>

theorem service_confirm_late:
  assumes "as_pending (iv_state iv) = Some p" and "ap_token p = token"
    and "\<not> ap_expired_at p t1" and "ap_expired_at p t3"
    and "healthy (bd_fs b)" and "tidy (ac_path c) (bd_fs b)"
  shows "\<exists>iv' b'. service_confirm c token t1 t2 t3 iv b = (Inl (Change NothingPending), iv', b')
    \<and> as_pending (iv_state iv') = Some p
    \<and> fs_contents (bd_fs b') (ac_path c) = Some (Utf8 (render (ap_document p)))"
proof -
  let ?iv = "refresh (bd_fs b) (ac_path c) iv"
  obtain backup fs1 where bk: "confirm_backup (ac_path c) t2 ?iv (bd_fs b) = (Inr backup, fs1)"
    and h: "healthy fs1"
    using keep_a_copy_healthy [OF assms(5), of "ac_path c" "as_secs t2"] assms(5)
    by (cases "iv_replaces_hand_written ?iv \<and> fs_exists (bd_fs b) (ac_path c)")
      (auto simp: confirm_backup_def keep_a_copy_def)
  obtain fs2 where w: "write_atomically (ac_path c) (render (ap_document p)) fs1 = (Inr (), fs2)"
    using write_atomically_healthy [OF h] by blast
  have "fs_contents fs2 (ac_path c) = Some (Utf8 (render (ap_document p)))"
    using write_atomically_ok(1) [OF w] confirm_backup_ok(1) [OF bk assms(6)] by blast
  then show ?thesis
    using assms(1-4) bk w
    by (simp add: service_confirm_def Let_def address_check_confirm_def address_confirm_def
        del: refresh_check)
qed

theorem service_confirm_late_witness:
  "\<exists>iv' b'. service_confirm example_config ''t'' 1 2 (from_secs 30) hand_inner hand_board
       = (Inl (Change NothingPending), iv', b')
     \<and> fs_contents (bd_fs b') INTERFACES_FILE = Some (Utf8 (render Dhcp))"
  using service_confirm_late [of hand_inner example_pending "''t''" 1 "from_secs 30" hand_board
      example_config 2] hand_tidy
  by (auto simp: from_secs_def) (auto simp: example_pending_def)

text \<open>an apply either is accepted (the bridge was there, the file may be replaced, the window
  is in range, nothing was waiting) and leaves the document on the bridge with the former one
  as its way back; or the network refused it, and then nothing is waiting and the former
  document was put on the bridge again at once; or it was refused before anything was
  touched, with the files and the state as the last reading of the file left them.\<close>

theorem service_apply_outcome:
  "case service_apply c d window replace t1 t2 token iv b of
     (Inr p, iv', b') \<Rightarrow>
       managed_present (bd_net_class b) \<and> window_ok window \<and> as_pending (iv_state iv) = None
       \<and> \<not> (iv_replaces_hand_written (refresh (bd_fs b) (ac_path c) iv) \<and> \<not> replace)
       \<and> p = \<lparr>ap_token = token, ap_document = d, ap_snapshot = iv_running iv,
             ap_applied_at = t1, ap_window_s = as_secs window\<rparr>
       \<and> as_pending (iv_state iv') = Some p \<and> iv_running iv' = d
       \<and> applier_apply (ac_host c) (ac_applier c) d b = (Inr (), b')
   | (Inl (ApplyErr e), iv', b') \<Rightarrow>
       as_pending (iv_state iv) = None \<and> as_pending (iv_state iv') = None
       \<and> iv_running iv' = iv_running iv
       \<and> (\<exists>b1. applier_apply (ac_host c) (ac_applier c) d b = (Inl e, b1)
            \<and> b' = snd (applier_apply (ac_host c) (ac_applier c) (iv_running iv) b1))
       \<and> as_last_revert (iv_state iv') = Some \<lparr>rr_at = t2, rr_reason = ApplyFailed,
            rr_detail = describe_error e, rr_document = d\<rparr>
   | (Inl _, iv', b') \<Rightarrow> iv' = refresh (bd_fs b) (ac_path c) iv \<and> bd_fs b' = bd_fs b"
proof -
  let ?iv = "refresh (bd_fs b) (ac_path c) iv"
  have run: "iv_running ?iv = iv_running iv" by (simp add: refresh_def Let_def)
  have iv: "?iv\<lparr>iv_state := iv_state ?iv\<rparr> = ?iv" by simp
  show ?thesis
  proof (cases "managed_present (bd_net_class b)")
    case False
    then show ?thesis
      by (simp add: service_apply_def applier_missing_message_def split_beta Let_def)
  next
    case True
    then have m: "applier_missing_message c NO_MANAGED_BRIDGE b = (None, b)"
      by (simp add: applier_missing_message_def)
    show ?thesis
    proof (cases "window_ok window \<and> as_pending (iv_state iv) = None
        \<and> \<not> (iv_replaces_hand_written ?iv \<and> \<not> replace)")
      case False
      then show ?thesis
        using m iv by (auto simp: service_apply_def Let_def address_apply_def)
    next
      case ok: True
      then have ok': "window_ok window" "as_pending (iv_state iv) = None"
        "\<not> (iv_replaces_hand_written ?iv \<and> \<not> replace)" by simp_all
      obtain r b1 where a: "applier_apply (ac_host c) (ac_applier c) d b = (r, b1)"
        by (cases "applier_apply (ac_host c) (ac_applier c) d b")
      show ?thesis
        using m ok' a True
        by (cases r) (simp_all add: service_apply_def Let_def address_apply_def run
            address_apply_failed_def address_clear_last_revert_def)
    qed
  qed
qed

text \<open>a copy is made under a temporary name which is then linked. When that name was left
  behind by an earlier run (a board that lost power between the link and the removal), it
  still shares its inode with the earlier copy, and the next copy writes through it: the
  earlier copy has the new contents, or is removed.\<close>

theorem keep_a_copy_leftover:
  assumes "keep_a_copy_at p sec fs = (Inr (kept, removed), fs')"
    and "aliased fs (copy_tmp p) q" and "q \<noteq> copy_tmp p"
  shows "q \<in> set removed \<or> fs_contents fs' q = fs_contents fs p"
proof -
  obtain bytes fs1 fs2 n where st: "fs_read fs p = Inr bytes"
      "fs_write (copy_tmp p) bytes fs = (Inr (), fs1)"
      "fs_hard_link (copy_tmp p) kept fs1 = (Inr (), fs2)"
      "prune_copies (fst p) (copy_prefix p) kept (snd (fs_remove (copy_tmp p) fs2)) = (removed, fs')"
    by (rule keep_a_copy_steps [OF assms(1)])
  obtain i where i: "map_of (fs_names fs) (copy_tmp p) = Some i" "map_of (fs_names fs) q = Some i"
    using aliased_inode [OF assms(2)] by blast
  have "fs_inode fs1 q = Some \<lparr>in_contents = bytes, in_modified = fs_time fs\<rparr>"
    and "fs_exists fs1 q"
    using i fs_write_ok [OF st(2)] by (auto simp: fs_put_def fs_inode_def fs_exists_def)
  moreover from this have "q \<noteq> kept" using fs_hard_link_ok [OF st(3)] by blast
  ultimately have "fs_inode (snd (fs_remove (copy_tmp p) fs2)) q
      = Some \<lparr>in_contents = bytes, in_modified = fs_time fs\<rparr>"
    using fs_inode_hard_link_other [of q kept "copy_tmp p" fs1] st(3) assms(3)
    by (simp add: fs_inode_remove_other)
  moreover have "fs_contents fs p = Some bytes"
    using st(1) by (auto simp: fs_read_def fs_contents_def split: option.splits if_splits)
  ultimately show ?thesis
    using prune_effect(3) [OF st(4), of q] by (cases "q \<in> set removed") (auto simp: fs_contents_def)
qed

definition leftover_fs :: fs where
  "leftover_fs = empty_fs\<lparr>
     fs_names := [(INTERFACES_FILE, 0), ((''/etc/network'', ''interfaces.hand-written.5''), 1),
                  ((''/etc/network'', ''interfaces.hand-written.tmp''), 1)],
     fs_inodes := (\<lambda>i. \<lparr>in_contents = Utf8 (if i = 0 then ''new'' else ''old''), in_modified = 7\<rparr>),
     fs_next := 2\<rparr>"

theorem keep_a_copy_leftover_witness:
  "fs_contents leftover_fs (''/etc/network'', ''interfaces.hand-written.5'') = Some (Utf8 ''old'')
   \<and> (\<exists>kept removed fs'. keep_a_copy_at INTERFACES_FILE 6 leftover_fs = (Inr (kept, removed), fs')
        \<and> ((''/etc/network'', ''interfaces.hand-written.5'') \<in> set removed
           \<or> fs_contents fs' (''/etc/network'', ''interfaces.hand-written.5'') = Some (Utf8 ''new'')))"
proof -
  let ?q = "(''/etc/network'', ''interfaces.hand-written.5'')"
  have "healthy leftover_fs" "fs_exists leftover_fs INTERFACES_FILE"
    by (simp_all add: healthy_def leftover_fs_def empty_fs_def fs_exists_def)
  then obtain kept removed fs' where
    k: "keep_a_copy_at INTERFACES_FILE 6 leftover_fs = (Inr (kept, removed), fs')"
    using keep_a_copy_healthy by blast
  have "aliased leftover_fs (copy_tmp INTERFACES_FILE) ?q" and "?q \<noteq> copy_tmp INTERFACES_FILE"
    by (simp_all add: aliased_def fs_exists_def leftover_fs_def INTERFACES_FILE_def
        with_file_name_def copy_prefix_def)
  from keep_a_copy_leftover [OF k this]
  have "?q \<in> set removed \<or> fs_contents fs' ?q = fs_contents leftover_fs INTERFACES_FILE" .
  moreover have "fs_contents leftover_fs INTERFACES_FILE = Some (Utf8 ''new'')"
    "fs_contents leftover_fs ?q = Some (Utf8 ''old'')"
    by (simp_all add: fs_contents_def fs_inode_def leftover_fs_def INTERFACES_FILE_def)
  ultimately show ?thesis using k by auto
qed

end
