(* ===== verification/Switch_Service.thy ===== *)
theory Switch_Service
  imports Switch_Applier Address_Service
begin

text \<open>
  \<^verbatim>\<open>bmcd/src/app/switch_service.rs\<close>: the service that holds the switch's state machine, runs
  the commands it asks for and writes the confirmed document. The process calls, the
  conversion of a document to and from JSON and the parser of the output of \<^verbatim>\<open>ip\<close> are fields
  of its configuration. Every reading of the clock is an argument of its own, in the order the
  code takes them, and so is the random token.
\<close>

section \<open>State\<close>

definition SWITCH_CONFIG :: path where "SWITCH_CONFIG = (''/etc/bmcd'', ''switch.json'')"

definition NET_CLASS :: string where "NET_CLASS = ''/sys/class/net''"

definition CMDLINE :: path where "CMDLINE = (''/proc'', ''cmdline'')"

definition BR_STATE_FORWARDING :: string where "BR_STATE_FORWARDING = ''3''"

definition NO_BRIDGE_TAIL :: string where
  "NO_BRIDGE_TAIL = ''The switch settings apply to br0, the bridge over the switch ports; edit /etc/network/interfaces over SSH, or restore the default layout.''"

record 'n switch_config =
  sc_spawn :: "'n process"
  sc_exec :: "'n exec"
  sc_json :: "string \<Rightarrow> json option"
  sc_from_slice :: "contents \<Rightarrow> switch_document option"
  sc_to_vec_pretty :: "switch_document \<Rightarrow> string option"
  sc_path :: path

record switch_inner =
  si_state :: switch_state
  si_running :: switch_document

section \<open>The host's files\<close>

definition is_forwarding :: "fs \<Rightarrow> string \<Rightarrow> string \<Rightarrow> bool" where
  "is_forwarding fs net_class name =
     (let port = net_class @ ''/'' @ name
      in case fs_read_to_string fs (port @ ''/brport'', ''state'') of
           Inr raw \<Rightarrow> trim raw = BR_STATE_FORWARDING
         | Inl _ \<Rightarrow>
             (case fs_read_to_string fs (port, ''carrier'') of
                Inr raw \<Rightarrow> trim raw = ''1''
              | Inl _ \<Rightarrow> False))"

definition is_safemode :: "fs \<Rightarrow> path \<Rightarrow> bool" where
  "is_safemode fs cmdline =
     (case fs_read_to_string fs cmdline of
        Inr line \<Rightarrow> list_ex (\<lambda>word. word = ''safemode'') (split_whitespace line)
      | Inl _ \<Rightarrow> False)"

definition switch_write_atomically :: "path \<Rightarrow> string \<Rightarrow> fs \<Rightarrow> (io_error, unit) result \<times> fs" where
  "switch_write_atomically p bytes fs =
     (case fs_create_dir_all (fst p) fs of
        (Inl e, fs) \<Rightarrow> (Inl e, fs)
      | (Inr _, fs) \<Rightarrow>
          (let tmp = with_extension p ''tmp''
           in case fs_write tmp (Utf8 bytes) fs of
                (Inl e, fs) \<Rightarrow> (Inl e, fs)
              | (Inr _, fs) \<Rightarrow> fs_rename tmp p fs))"

section \<open>The operations\<close>

definition switch_load :: "'n switch_config \<Rightarrow> fs \<Rightarrow> switch_inner" where
  "switch_load c fs =
     \<lparr>si_state =
        (case Option.bind (result_ok (fs_read fs (sc_path c))) (sc_from_slice c) of
           None \<Rightarrow> switch_state_default
         | Some d \<Rightarrow> switch_adopt_persisted d switch_state_default),
      si_running = expand Flat\<rparr>"

definition bridge_check :: "'n switch_config \<Rightarrow> 'n board \<Rightarrow> (switch_error, unit) result \<times> 'n board" where
  "bridge_check c b =
     (if managed_present (bd_net_class b) then (Inr (), b)
      else (case read_snapshot (sc_json c) (sc_exec c) (bd_net b) of
              (snap, n) \<Rightarrow>
                (Inl (NoBridge (missing_message (bd_net_class b) snap NO_BRIDGE_TAIL)), b\<lparr>bd_net := n\<rparr>)))"

text \<open>The three lines that \<open>boot_apply\<close>, \<open>apply\<close> and \<open>carry_out\<close> share: plan, run, remember.\<close>

definition put_on_switch :: "'n switch_config \<Rightarrow> switch_document \<Rightarrow> switch_inner \<Rightarrow> 'n board
    \<Rightarrow> (switch_error, unit) result \<times> switch_inner \<times> 'n board" where
  "put_on_switch c d iv b =
     (case run_all (sc_spawn c) (plan (si_running iv) d) (bd_net b) of
        (Inl e, n) \<Rightarrow> (Inl e, iv, b\<lparr>bd_net := n\<rparr>)
      | (Inr _, n) \<Rightarrow> (Inr (), iv\<lparr>si_running := d\<rparr>, b\<lparr>bd_net := n\<rparr>))"

definition boot_apply :: "'n switch_config \<Rightarrow> switch_inner \<Rightarrow> 'n board
    \<Rightarrow> (switch_error, unit) result \<times> switch_inner \<times> 'n board" where
  "boot_apply c iv b =
     (if is_safemode (bd_fs b) CMDLINE then (Inr (), iv, b)
      else case ss_confirmed (si_state iv) of
             None \<Rightarrow> (Inr (), iv, b)
           | Some d \<Rightarrow> put_on_switch c d iv b)"

definition switch_service_apply :: "'n switch_config \<Rightarrow> switch_document \<Rightarrow> duration
    \<Rightarrow> string \<Rightarrow> instant \<Rightarrow> instant \<Rightarrow> switch_inner \<Rightarrow> 'n board
    \<Rightarrow> (switch_error, switch_pending) result \<times> switch_inner \<times> 'n board" where
  "switch_service_apply c document window token t1 t2 iv b =
     (case bridge_check c b of
        (Inl e, b) \<Rightarrow> (Inl e, iv, b)
      | (Inr _, b) \<Rightarrow>
          (case switch_apply document (si_running iv) window t1 token (si_state iv) of
             (Inl e, s) \<Rightarrow> (Inl (SwitchChange e), iv\<lparr>si_state := s\<rparr>, b)
           | (Inr (pending, effect), s) \<Rightarrow>
               (let iv = iv\<lparr>si_state := s\<rparr>
                in case effect of
                     Apply d \<Rightarrow>
                       (case put_on_switch c d iv b of
                          (Inl e, iv, b) \<Rightarrow>
                            (Inl e, iv\<lparr>si_state := snd (switch_revert t2 (si_state iv))\<rparr>, b)
                        | (Inr _, iv, b) \<Rightarrow> (Inr pending, iv, b))
                   | _ \<Rightarrow> (Inr pending, iv, b))))"

definition start_window_if_reachable :: "fs \<Rightarrow> instant \<Rightarrow> switch_inner \<Rightarrow> switch_inner" where
  "start_window_if_reachable fs now iv =
     (case ss_pending (si_state iv) of
        None \<Rightarrow> iv
      | Some pending \<Rightarrow>
          if sp_counting_from pending \<noteq> None then iv
          else
            (let document = sp_document pending
             in case Option.bind (sd_ports document Bmc) pc_untagged of
                  None \<Rightarrow> iv\<lparr>si_state := uplink_forwarding now (si_state iv)\<rparr>
                | Some management \<Rightarrow>
                    if list_ex (is_forwarding fs NET_CLASS)
                         (filter_map interface_name (filter is_uplink (sd_members document management)))
                    then iv\<lparr>si_state := uplink_forwarding now (si_state iv)\<rparr>
                    else iv))"

definition switch_service_confirm :: "'n switch_config \<Rightarrow> string \<Rightarrow> instant \<Rightarrow> switch_inner \<Rightarrow> 'n board
    \<Rightarrow> (switch_error, unit) result \<times> switch_inner \<times> 'n board" where
  "switch_service_confirm c token now iv b =
     (case switch_confirm token now (si_state iv) of
        (Inl e, s) \<Rightarrow> (Inl (SwitchChange e), iv\<lparr>si_state := s\<rparr>, b)
      | (Inr effect, s) \<Rightarrow>
          (let iv = iv\<lparr>si_state := s\<rparr>
           in case effect of
                Persist document \<Rightarrow>
                  (case sc_to_vec_pretty c document of
                     None \<Rightarrow> (Inl (SwitchIo OtherIo), iv, b)
                   | Some bytes \<Rightarrow>
                       (case switch_write_atomically (sc_path c) bytes (bd_fs b) of
                          (Inl e, fs) \<Rightarrow> (Inl (SwitchIo e), iv, b\<lparr>bd_fs := fs\<rparr>)
                        | (Inr _, fs) \<Rightarrow> (Inr (), iv, b\<lparr>bd_fs := fs\<rparr>)))
              | _ \<Rightarrow> (Inr (), iv, b)))"

definition switch_carry_out :: "'n switch_config \<Rightarrow> switch_effect \<Rightarrow> switch_inner \<Rightarrow> 'n board
    \<Rightarrow> (switch_error, unit) result \<times> switch_inner \<times> 'n board" where
  "switch_carry_out c effect iv b =
     (case effect of
        Apply d \<Rightarrow> put_on_switch c d iv b
      | _ \<Rightarrow> (Inr (), iv, b))"

definition switch_service_revert :: "'n switch_config \<Rightarrow> instant \<Rightarrow> switch_inner \<Rightarrow> 'n board
    \<Rightarrow> (switch_error, unit) result \<times> switch_inner \<times> 'n board" where
  "switch_service_revert c now iv b =
     (case switch_revert now (si_state iv) of
        (Inl e, s) \<Rightarrow> (Inl (SwitchChange e), iv\<lparr>si_state := s\<rparr>, b)
      | (Inr effect, s) \<Rightarrow> switch_carry_out c effect (iv\<lparr>si_state := s\<rparr>) b)"

definition switch_service_tick :: "'n switch_config \<Rightarrow> instant \<Rightarrow> instant \<Rightarrow> switch_inner \<Rightarrow> 'n board
    \<Rightarrow> switch_inner \<times> 'n board" where
  "switch_service_tick c t1 t2 iv b =
     (let iv = start_window_if_reachable (bd_fs b) t1 iv
      in case switch_tick t2 (si_state iv) of
           (effect, s) \<Rightarrow>
             (let iv = iv\<lparr>si_state := s\<rparr>
              in case effect of
                   NoEffect \<Rightarrow> (iv, b)
                 | _ \<Rightarrow> (case switch_carry_out c effect iv b of (_, iv, b) \<Rightarrow> (iv, b))))"

record switch_view =
  sv_running :: switch_document
  sv_confirmed :: "switch_document option"
  sv_pending :: "switch_pending option"
  sv_last_revert :: "switch_revert_record option"
  sv_default_window_s :: nat

definition switch_service_view :: "switch_inner \<Rightarrow> switch_view" where
  "switch_service_view iv =
     \<lparr>sv_running = si_running iv, sv_confirmed = ss_confirmed (si_state iv),
      sv_pending = ss_pending (si_state iv), sv_last_revert = ss_last_revert (si_state iv),
      sv_default_window_s = as_secs DEFAULT_WINDOW\<rparr>"

section \<open>Facts\<close>

lemma switch_write_atomically_eq: "switch_write_atomically = write_atomically"
  by (intro ext) (simp only: switch_write_atomically_def write_atomically_def Let_def)

lemma start_window_cases:
  "start_window_if_reachable fs now iv = iv
   \<or> start_window_if_reachable fs now iv = iv\<lparr>si_state := uplink_forwarding now (si_state iv)\<rparr>"
  by (auto simp: start_window_if_reachable_def Let_def split: option.splits)

lemma uplink_forwarding_same:
  "ss_confirmed (uplink_forwarding now s) = ss_confirmed s"
  "map_option sp_document (ss_pending (uplink_forwarding now s)) = map_option sp_document (ss_pending s)"
  "map_option sp_snapshot (ss_pending (uplink_forwarding now s)) = map_option sp_snapshot (ss_pending s)"
  by (auto simp: uplink_forwarding_def split: option.splits)

lemma start_window_same:
  "si_running (start_window_if_reachable fs now iv) = si_running iv"
  "ss_confirmed (si_state (start_window_if_reachable fs now iv)) = ss_confirmed (si_state iv)"
  "map_option sp_document (ss_pending (si_state (start_window_if_reachable fs now iv)))
     = map_option sp_document (ss_pending (si_state iv))"
  "map_option sp_snapshot (ss_pending (si_state (start_window_if_reachable fs now iv)))
     = map_option sp_snapshot (ss_pending (si_state iv))"
  using start_window_cases [of fs now iv] by (auto simp: uplink_forwarding_same)

lemma put_on_switch_ok:
  "put_on_switch c d iv b = (Inr (), iv', b') \<longleftrightarrow>
     iv' = iv\<lparr>si_running := d\<rparr>
     \<and> (\<exists>n. run_all (sc_spawn c) (plan (si_running iv) d) (bd_net b) = (Inr (), n) \<and> b' = b\<lparr>bd_net := n\<rparr>)"
  by (auto simp: put_on_switch_def split: prod.splits sum.splits)

lemma put_on_switch_err:
  "put_on_switch c d iv b = (Inl e, iv', b') \<longleftrightarrow>
     iv' = iv \<and> (\<exists>n. run_all (sc_spawn c) (plan (si_running iv) d) (bd_net b) = (Inl e, n) \<and> b' = b\<lparr>bd_net := n\<rparr>)"
  by (auto simp: put_on_switch_def split: prod.splits sum.splits)

section \<open>The switch and the file over a run of the service\<close>

text \<open>What the service relies on: the commands have their documented effect and do not fail, and
  reading the addresses changes nothing on the bridge.\<close>

definition all_run :: "'n process \<Rightarrow> bool" where
  "all_run spawn = (\<forall>c n. c \<noteq> [] \<longrightarrow> (\<exists>n'. run_command spawn c n = (Inr (), n')))"

definition switch_host :: "'n switch_config \<Rightarrow> ('n \<Rightarrow> bridge_view) \<Rightarrow> bool" where
  "switch_host c view =
     (bridge_laws (sc_spawn c) view \<and> all_run (sc_spawn c)
      \<and> (\<forall>a n. view (snd (sc_exec c ''ip'' (''-j'' # a) n)) = view n))"

definition roundtrips :: "'n switch_config \<Rightarrow> switch_document \<Rightarrow> bool" where
  "roundtrips c d =
     (case sc_to_vec_pretty c d of None \<Rightarrow> False | Some s \<Rightarrow> sc_from_slice c (Utf8 s) = Some d)"

definition persisted :: "'n switch_config \<Rightarrow> fs \<Rightarrow> switch_document option" where
  "persisted c fs = Option.bind (result_ok (fs_read fs (sc_path c))) (sc_from_slice c)"

definition acceptable :: "'n switch_config \<Rightarrow> switch_document \<Rightarrow> bool" where
  "acceptable c d = (switch_refusal d = None \<and> roundtrips c d)"

text \<open>The steps of the service: its four calls, and a change of the host's files by anybody else
  that leaves the configuration file alone.\<close>

inductive switch_step :: "'n switch_config \<Rightarrow> switch_inner \<times> 'n board \<Rightarrow> switch_inner \<times> 'n board \<Rightarrow> bool"
  for c where
  step_apply: "acceptable c d \<Longrightarrow>
    switch_service_apply c d window token t1 t2 iv b = (r, iv', b') \<Longrightarrow> switch_step c (iv, b) (iv', b')"
| step_confirm: "switch_service_confirm c token t iv b = (r, iv', b') \<Longrightarrow> switch_step c (iv, b) (iv', b')"
| step_revert: "switch_service_revert c t iv b = (r, iv', b') \<Longrightarrow> switch_step c (iv, b) (iv', b')"
| step_tick: "switch_service_tick c t1 t2 iv b = (iv', b') \<Longrightarrow> switch_step c (iv, b) (iv', b')"
| step_host: "healthy fs \<Longrightarrow> fs_read fs (sc_path c) = fs_read (bd_fs b) (sc_path c) \<Longrightarrow>
    switch_step c (iv, b) (iv, b\<lparr>bd_fs := fs\<rparr>)"

definition switch_home :: "switch_inner \<Rightarrow> switch_document" where
  "switch_home iv = (case ss_confirmed (si_state iv) of None \<Rightarrow> expand Flat | Some d \<Rightarrow> d)"

definition in_step :: "'n switch_config \<Rightarrow> ('n \<Rightarrow> bridge_view) \<Rightarrow> switch_inner \<times> 'n board \<Rightarrow> bool" where
  "in_step c view w =
     (case w of (iv, b) \<Rightarrow>
        healthy (bd_fs b)
        \<and> persisted c (bd_fs b) = ss_confirmed (si_state iv)
        \<and> shows_document (view (bd_net b)) (si_running iv)
        \<and> well_formed_ports (si_running iv) \<and> well_formed_ports (switch_home iv)
        \<and> (case ss_pending (si_state iv) of
             None \<Rightarrow> si_running iv = switch_home iv
           | Some p \<Rightarrow> si_running iv = sp_document p \<and> sp_snapshot p = switch_home iv
               \<and> roundtrips c (sp_document p)))"

lemma run_all_all_run:
  assumes "all_run spawn" and "[] \<notin> set cs"
  shows "\<exists>n'. run_all spawn cs n = (Inr (), n')"
  using assms(2)
proof (induction cs arbitrary: n)
  case (Cons c cs)
  then obtain m where "run_command spawn c n = (Inr (), m)"
    using assms(1) unfolding all_run_def by (metis list.set_intros(1))
  then show ?case using Cons.IH [of m] Cons.prems by simp
qed simp

lemma put_on_switch_shows:
  assumes "switch_host c view" and "well_formed_ports (si_running iv)" "well_formed_ports d"
    and "shows_document (view (bd_net b)) (si_running iv)"
  shows "\<exists>n. put_on_switch c d iv b = (Inr (), iv\<lparr>si_running := d\<rparr>, b\<lparr>bd_net := n\<rparr>)
    \<and> shows_document (view n) d"
proof -
  have laws: "bridge_laws (sc_spawn c) view" and all: "all_run (sc_spawn c)"
    using assms(1) by (simp_all add: switch_host_def)
  obtain n where r: "run_all (sc_spawn c) (plan (si_running iv) d) (bd_net b) = (Inr (), n)"
    using run_all_all_run [OF all plan_commands] by blast
  from run_plan [OF laws assms(2-4) r] r show ?thesis by (auto simp: put_on_switch_ok)
qed

lemma accepted_well_formed: "acceptable c d \<Longrightarrow> well_formed_ports d"
  by (simp add: acceptable_def switch_refusal_None)

lemma in_stepI:
  assumes "healthy (bd_fs b)" and "persisted c (bd_fs b) = ss_confirmed (si_state iv)"
    and "shows_document (view (bd_net b)) (si_running iv)"
    and "well_formed_ports (si_running iv)" and "well_formed_ports (switch_home iv)"
    and "ss_pending (si_state iv) = None \<Longrightarrow> si_running iv = switch_home iv"
    and "\<And>p. ss_pending (si_state iv) = Some p \<Longrightarrow>
      si_running iv = sp_document p \<and> sp_snapshot p = switch_home iv \<and> roundtrips c (sp_document p)"
  shows "in_step c view (iv, b)"
  using assms by (auto simp: in_step_def split: option.splits)

lemma in_stepD:
  assumes "in_step c view (iv, b)"
  shows "healthy (bd_fs b)" "persisted c (bd_fs b) = ss_confirmed (si_state iv)"
    "shows_document (view (bd_net b)) (si_running iv)"
    "well_formed_ports (si_running iv)" "well_formed_ports (switch_home iv)"
    "ss_pending (si_state iv) = None \<Longrightarrow> si_running iv = switch_home iv"
    "ss_pending (si_state iv) = Some p \<Longrightarrow> si_running iv = sp_document p
       \<and> sp_snapshot p = switch_home iv \<and> roundtrips c (sp_document p)"
  using assms by (auto simp: in_step_def)

lemma bridge_check_same:
  assumes "switch_host c view" and "bridge_check c b = (r, b')"
  shows "view (bd_net b') = view (bd_net b)" "bd_fs b' = bd_fs b"
    "managed_present (bd_net_class b) \<Longrightarrow> b' = b"
  using assms
  by (auto simp: bridge_check_def read_snapshot_def switch_host_def split_beta Let_def split: if_splits)

text \<open>Putting the waiting change's snapshot back, as a revert and an expired tick do.\<close>

lemma in_step_put_back:
  assumes host: "switch_host c view" and inv: "in_step c view (iv, b)"
    and p: "ss_pending (si_state iv) = Some p"
    and st: "ss_pending s = None" "ss_confirmed s = ss_confirmed (si_state iv)"
    and put: "put_on_switch c (sp_snapshot p) (iv\<lparr>si_state := s\<rparr>) b = (r, iv', b')"
  shows "in_step c view (iv', b')"
proof -
  note d = in_stepD [OF inv]
  have home: "sp_snapshot p = switch_home iv" using d(7) [OF p] by simp
  obtain n where "put_on_switch c (sp_snapshot p) (iv\<lparr>si_state := s\<rparr>) b
      = (Inr (), iv\<lparr>si_state := s\<rparr>\<lparr>si_running := sp_snapshot p\<rparr>, b\<lparr>bd_net := n\<rparr>)"
    and sh: "shows_document (view n) (sp_snapshot p)"
    using put_on_switch_shows [OF host, of "iv\<lparr>si_state := s\<rparr>" "sp_snapshot p" b] d home by auto
  then have "iv' = iv\<lparr>si_state := s, si_running := sp_snapshot p\<rparr>" "b' = b\<lparr>bd_net := n\<rparr>"
    using put by auto
  then show ?thesis using d sh home st by (intro in_stepI) (auto simp: switch_home_def)
qed

lemma in_step_apply:
  assumes host: "switch_host c view" and inv: "in_step c view (iv, b)" and ok: "acceptable c d"
    and call: "switch_service_apply c d window token t1 t2 iv b = (r, iv', b')"
  shows "in_step c view (iv', b')"
proof -
  obtain rb b1 where bc: "bridge_check c b = (rb, b1)" by (cases "bridge_check c b")
  note same = bridge_check_same [OF host bc]
  have inv1: "in_step c view (iv, b1)" using inv same by (auto simp: in_step_def)
  note dd = in_stepD [OF inv1]
  show ?thesis
  proof (cases "is_ok rb \<and> window_ok window \<and> ss_pending (si_state iv) = None")
    case False
    then have "iv' = iv \<and> b' = b1"
      using call bc by (auto simp: switch_service_apply_def switch_apply_def is_ok_def split: sum.splits if_splits)
    then show ?thesis using inv1 by simp
  next
    case True
    let ?p = "\<lparr>sp_token = token, sp_document = d, sp_snapshot = si_running iv, sp_applied_at = t1,
      sp_window_s = as_secs window, sp_counting_from = None\<rparr>"
    let ?iv = "iv\<lparr>si_state := (si_state iv)\<lparr>ss_pending := Some ?p\<rparr>\<rparr>"
    have wf: "well_formed_ports d" and rt: "roundtrips c d"
      using ok accepted_well_formed by (auto simp: acceptable_def)
    obtain n where put: "put_on_switch c d ?iv b1 = (Inr (), ?iv\<lparr>si_running := d\<rparr>, b1\<lparr>bd_net := n\<rparr>)"
      and sh: "shows_document (view n) d"
      using put_on_switch_shows [OF host, of ?iv d b1] dd wf by auto
    have "iv' = ?iv\<lparr>si_running := d\<rparr> \<and> b' = b1\<lparr>bd_net := n\<rparr>"
      using call bc True put
      by (auto simp: switch_service_apply_def switch_apply_def Let_def is_ok_def split: sum.splits)
    then show ?thesis using dd wf rt sh True by (intro in_stepI) (auto simp: switch_home_def)
  qed
qed

lemma write_atomically_keeps_healthy:
  assumes "healthy fs" and "write_atomically p s fs = (Inr (), fs')"
  shows "healthy fs'"
  using assms
  by (auto simp: write_atomically_def fs_create_dir_all_def write_healthy fs_rename_def healthy_def
      fs_put_def split: if_splits option.splits)

lemma fs_read_healthy:
  "healthy fs \<Longrightarrow> fs_contents fs p = Some t \<Longrightarrow> fs_read fs p = Inr t"
  by (auto simp: fs_read_def fs_contents_def healthy_def)

lemma write_then_persisted:
  assumes "healthy fs" and "sc_to_vec_pretty c d = Some s" and "sc_from_slice c (Utf8 s) = Some d"
    and "write_atomically (sc_path c) s fs = (Inr (), fs')"
  shows "persisted c fs' = Some d"
proof -
  obtain fs1 where w: "fs_write (write_tmp (sc_path c)) (Utf8 s) fs = (Inr (), fs1)"
    and r: "fs_rename (write_tmp (sc_path c)) (sc_path c) fs1 = (Inr (), fs')"
    using assms(4)
    by (auto simp: write_atomically_def fs_create_dir_all_def split: sum.splits prod.splits if_splits)
  have "fs_contents fs' (sc_path c) = Some (Utf8 s)"
    using fs_rename_ok [OF r] fs_write_ok [OF w] by (simp add: fs_contents_def fs_inode_put)
  from fs_read_healthy [OF write_atomically_keeps_healthy [OF assms(1,4)] this] assms(3)
  show ?thesis by (simp add: persisted_def)
qed

lemma in_step_confirm:
  assumes inv: "in_step c view (iv, b)"
    and call: "switch_service_confirm c token t iv b = (r, iv', b')"
  shows "in_step c view (iv', b')"
proof (cases "switch_confirm token t (si_state iv)")
  case (Pair e s)
  note dd = in_stepD [OF inv]
  show ?thesis
  proof (cases e)
    case (Inl err)
    then have "s = si_state iv" using Pair by (auto simp: switch_confirm_def split: option.splits if_splits)
    then show ?thesis using call inv Pair Inl by (simp add: switch_service_confirm_def)
  next
    case (Inr eff)
    obtain p where p: "ss_pending (si_state iv) = Some p" "eff = Persist (sp_document p)"
      and s: "s = (si_state iv)\<lparr>ss_confirmed := Some (sp_document p), ss_pending := None\<rparr>"
      using Pair Inr by (auto simp: switch_confirm_def split: option.splits if_splits)
    note pd = dd(7) [OF p(1)]
    then obtain js where js: "sc_to_vec_pretty c (sp_document p) = Some js"
      "sc_from_slice c (Utf8 js) = Some (sp_document p)"
      by (auto simp: roundtrips_def split: option.splits)
    obtain fs where w: "write_atomically (sc_path c) js (bd_fs b) = (Inr (), fs)"
      using write_atomically_healthy [OF dd(1)] by blast
    have "iv' = iv\<lparr>si_state := s\<rparr> \<and> b' = b\<lparr>bd_fs := fs\<rparr>"
      using call Pair Inr p js w by (simp add: switch_service_confirm_def switch_write_atomically_eq Let_def)
    then show ?thesis
      using dd pd s write_then_persisted [OF dd(1) js w] write_atomically_keeps_healthy [OF dd(1) w]
      by (intro in_stepI) (auto simp: switch_home_def)
  qed
qed

lemma in_step_revert:
  assumes host: "switch_host c view" and inv: "in_step c view (iv, b)"
    and call: "switch_service_revert c t iv b = (r, iv', b')"
  shows "in_step c view (iv', b')"
proof (cases "ss_pending (si_state iv)")
  case None
  then show ?thesis using call inv by (simp add: switch_service_revert_def switch_revert_def)
next
  case (Some p)
  then have "put_on_switch c (sp_snapshot p) (iv\<lparr>si_state := snd (switch_revert t (si_state iv))\<rparr>) b
      = (r, iv', b')"
    using call by (simp add: switch_service_revert_def switch_revert_def switch_carry_out_def)
  from in_step_put_back [OF host inv Some _ _ this] Some show ?thesis by (simp add: switch_revert_def)
qed

lemma in_step_start_window:
  assumes "in_step c view (iv, b)"
  shows "in_step c view (start_window_if_reachable fs t iv, b)"
proof (rule in_stepI)
  let ?iv = "start_window_if_reachable fs t iv"
  note dd = in_stepD [OF assms] and same = start_window_same [of fs t iv]
  have home: "switch_home ?iv = switch_home iv" by (simp add: switch_home_def same)
  show "healthy (bd_fs b)" "persisted c (bd_fs b) = ss_confirmed (si_state ?iv)"
    "shows_document (view (bd_net b)) (si_running ?iv)" "well_formed_ports (si_running ?iv)"
    "well_formed_ports (switch_home ?iv)"
    using dd by (simp_all add: same home)
  show "si_running ?iv = switch_home ?iv" if "ss_pending (si_state ?iv) = None"
    using that same(3) dd(6) by (simp add: same(1) home)
  show "si_running ?iv = sp_document q \<and> sp_snapshot q = switch_home ?iv \<and> roundtrips c (sp_document q)"
    if q: "ss_pending (si_state ?iv) = Some q" for q
  proof -
    obtain p where "ss_pending (si_state iv) = Some p" "sp_document p = sp_document q" "sp_snapshot p = sp_snapshot q"
      using same(3,4) q by (cases "ss_pending (si_state iv)") auto
    then show ?thesis using dd(7) [of p] by (simp add: same(1) home)
  qed
qed

lemma in_step_tick:
  assumes host: "switch_host c view" and inv: "in_step c view (iv, b)"
    and call: "switch_service_tick c t1 t2 iv b = (iv', b')"
  shows "in_step c view (iv', b')"
proof -
  let ?iv = "start_window_if_reachable (bd_fs b) t1 iv"
  have inv1: "in_step c view (?iv, b)" by (rule in_step_start_window [OF inv])
  show ?thesis
  proof (cases "\<exists>p. ss_pending (si_state ?iv) = Some p \<and> sp_expired_at p t2")
    case False
    then have "switch_tick t2 (si_state ?iv) = (NoEffect, si_state ?iv)"
      by (auto simp: switch_tick_def split: option.splits)
    then show ?thesis using call inv1 by (auto simp: switch_service_tick_def Let_def)
  next
    case True
    then obtain p where p: "ss_pending (si_state ?iv) = Some p" "sp_expired_at p t2" by blast
    let ?s = "snd (switch_tick t2 (si_state ?iv))"
    have "snd (put_on_switch c (sp_snapshot p) (?iv\<lparr>si_state := ?s\<rparr>) b) = (iv', b')"
      using call p
      by (simp add: switch_service_tick_def switch_tick_def switch_carry_out_def Let_def split_beta)
    then have "put_on_switch c (sp_snapshot p) (?iv\<lparr>si_state := ?s\<rparr>) b
        = (fst (put_on_switch c (sp_snapshot p) (?iv\<lparr>si_state := ?s\<rparr>) b), iv', b')"
      by (metis prod.collapse)
    from in_step_put_back [OF host inv1 p(1) _ _ this] p show ?thesis by (simp add: switch_tick_def)
  qed
qed

inductive_cases switch_stepE: "switch_step c (iv, b) w"

lemma in_step_step:
  assumes "switch_host c view" and "switch_step c w w'" and "in_step c view w"
  shows "in_step c view w'"
  using assms(2,3)
proof cases
  case (step_apply d window token t1 t2 iv b r iv' b')
  then show ?thesis using in_step_apply [OF assms(1)] assms(3) by blast
next
  case (step_confirm token t iv b r iv' b')
  then show ?thesis using in_step_confirm assms(3) by blast
next
  case (step_revert t iv b r iv' b')
  then show ?thesis using in_step_revert [OF assms(1)] assms(3) by blast
next
  case (step_tick t1 t2 iv b iv' b')
  then show ?thesis using in_step_tick [OF assms(1)] assms(3) by blast
next
  case (step_host fs b iv)
  then show ?thesis using assms(3) by (auto simp: in_step_def persisted_def)
qed

lemma in_step_run:
  assumes "switch_host c view" and "(switch_step c)\<^sup>*\<^sup>* w w'" and "in_step c view w"
  shows "in_step c view w'"
  using assms(2,3) by (induction rule: rtranclp_induct) (auto intro: in_step_step [OF assms(1)])

section \<open>Properties\<close>

text \<open>A daemon that has just started on a board whose file holds an acceptable document, or none.\<close>

lemma in_step_boot:
  assumes host: "switch_host c view" and fs: "healthy (bd_fs b)" "\<not> is_safemode (bd_fs b) CMDLINE"
    and flat: "shows_document (view (bd_net b)) (expand Flat)"
    and file_ok: "\<And>d. persisted c (bd_fs b) = Some d \<Longrightarrow> switch_refusal d = None"
    and boot: "boot_apply c (switch_load c (bd_fs b)) b = (r, iv, b')"
  shows "in_step c view (iv, b')"
proof -
  let ?iv = "switch_load c (bd_fs b)"
  have wf: "well_formed_ports (expand Flat)"
    by (simp add: well_formed_ports_def list_all_iff expand_port set_pc_vlans)
  have run: "si_running ?iv = expand Flat" and pend: "ss_pending (si_state ?iv) = None"
    and conf: "ss_confirmed (si_state ?iv) = persisted c (bd_fs b)"
    by (simp_all add: switch_load_def persisted_def switch_state_default_def switch_adopt_persisted_def
        split: option.splits)
  show ?thesis
  proof (cases "persisted c (bd_fs b)")
    case None
    then have "iv = ?iv \<and> b' = b" using boot fs conf by (auto simp: boot_apply_def)
    then show ?thesis using fs flat wf run pend conf None
      by (intro in_stepI) (auto simp: switch_home_def)
  next
    case (Some d)
    have wfd: "well_formed_ports d" using file_ok [OF Some] by (simp add: switch_refusal_None)
    obtain n where "put_on_switch c d ?iv b = (Inr (), ?iv\<lparr>si_running := d\<rparr>, b\<lparr>bd_net := n\<rparr>)"
      and "shows_document (view n) d"
      using put_on_switch_shows [OF host, of ?iv d b] run wf wfd flat by auto
    then show ?thesis using boot fs flat wf run pend conf Some wfd
      by (intro in_stepI) (auto simp: boot_apply_def switch_home_def)
  qed
qed


text \<open>A board to try it on: the kernel of \<open>kernel_spawn\<close>, an empty disk, and one document that has
  a JSON text.\<close>

definition demo_switch :: "bridge_view switch_config" where
  "demo_switch = \<lparr>sc_spawn = kernel_spawn, sc_exec = (\<lambda>_ _ n. (Inr [], n)), sc_json = (\<lambda>_. None),
     sc_from_slice = (\<lambda>t. if t = Utf8 ''split'' then Some (expand Split) else None),
     sc_to_vec_pretty = (\<lambda>d. Some ''split''), sc_path = SWITCH_CONFIG\<rparr>"

definition demo_board :: "bridge_view board" where
  "demo_board = \<lparr>bd_fs = empty_fs, bd_net = flat_view,
     bd_net_class = \<lparr>nc_entries = [(''br0'', True)], nc_listable = True\<rparr>\<rparr>"

definition demo_pending :: switch_pending where
  "demo_pending = \<lparr>sp_token = ''t'', sp_document = expand Split, sp_snapshot = expand Flat,
     sp_applied_at = 0, sp_window_s = 30, sp_counting_from = None\<rparr>"

definition demo_waiting :: switch_inner where
  "demo_waiting = \<lparr>si_state = \<lparr>ss_confirmed = None, ss_pending = Some demo_pending, ss_last_revert = None\<rparr>,
     si_running = expand Split\<rparr>"

lemma demo_host: "switch_host demo_switch id"
proof -
  have "run_command kernel_spawn c n = (Inr (), kernel_effect (tl c) n)" if "c \<noteq> []" for c n
    using that by (cases c) (simp_all add: run_command_def kernel_spawn_def)
  then show ?thesis by (simp add: switch_host_def all_run_def demo_switch_def kernel_laws)
qed

lemma demo_facts [simp]:
  "bd_fs demo_board = empty_fs" "bd_net demo_board = flat_view" "healthy empty_fs"
  "fs_read empty_fs q = Inl NotFound" "sc_path demo_switch = SWITCH_CONFIG" "\<not> is_safemode empty_fs q"
  "roundtrips demo_switch (expand Split)"
  by (simp_all add: demo_board_def healthy_def empty_fs_def fs_read_def fs_inode_def demo_switch_def
      is_safemode_def fs_read_to_string_def roundtrips_def)

lemma demo_flat: "shows_document flat_view (expand Flat)"
  by (simp add: shows_document_def flat_view_def list_all_iff expand_port config_view_def
      FLAT_VID_def split: option.splits) (simp add: expand_def)

lemma demo_split: "switch_refusal (expand Split) = None"
proof -
  have "SPLIT_MANAGEMENT_VID \<noteq> SPLIT_NODE_VID"
    by (simp add: SPLIT_MANAGEMENT_VID_def SPLIT_NODE_VID_def)
  then show ?thesis using split_reachable
    by (simp add: switch_refusal_None well_formed_ports_def list_all_iff expand_port set_pc_vlans
        well_formed_names_def loop_free_def)
qed

lemma demo_boot:
  "boot_apply demo_switch (switch_load demo_switch empty_fs) demo_board
     = (Inr (), switch_load demo_switch empty_fs, demo_board)"
  by (simp add: boot_apply_def switch_load_def switch_state_default_def)


text \<open>what a call to apply a switch document can come to. Accepted: the bridge is there, the
  window is in range, nothing was waiting, every command of the plan succeeded, and the change
  waits with the former document as its way back and its window not yet running. No bridge,
  or refused by the state machine: nothing changes but what the reading of addresses did. A
  command failed: nothing is left waiting, the service still counts the former document as
  running, and the revert is on record.\<close>

theorem switch_apply_outcome:
  "case switch_service_apply c d window token t1 t2 iv b of
     (Inr p, iv', b') \<Rightarrow>
       managed_present (bd_net_class b) \<and> window_ok window \<and> ss_pending (si_state iv) = None
       \<and> p = \<lparr>sp_token = token, sp_document = d, sp_snapshot = si_running iv, sp_applied_at = t1,
             sp_window_s = as_secs window, sp_counting_from = None\<rparr>
       \<and> iv' = \<lparr>si_state = (si_state iv)\<lparr>ss_pending := Some p\<rparr>, si_running = d\<rparr>
       \<and> run_all (sc_spawn c) (plan (si_running iv) d) (bd_net b) = (Inr (), bd_net b')
       \<and> bd_fs b' = bd_fs b
   | (Inl (NoBridge m), iv', b') \<Rightarrow> \<not> managed_present (bd_net_class b) \<and> iv' = iv \<and> bd_fs b' = bd_fs b
   | (Inl (SwitchChange e), iv', b') \<Rightarrow>
       iv' = iv \<and> b' = b
       \<and> e = (if window_ok window then AlreadyPending else WindowOutOfRange)
   | (Inl e, iv', b') \<Rightarrow>
       ss_pending (si_state iv) = None \<and> ss_pending (si_state iv') = None
       \<and> ss_confirmed (si_state iv') = ss_confirmed (si_state iv)
       \<and> ss_last_revert (si_state iv') = Some \<lparr>sr_at = t2, sr_reason = SwitchRequested, sr_document = d\<rparr>
       \<and> si_running iv' = si_running iv
       \<and> run_all (sc_spawn c) (plan (si_running iv) d) (bd_net b) = (Inl e, bd_net b')
       \<and> bd_fs b' = bd_fs b"
proof (cases "managed_present (bd_net_class b) \<and> window_ok window \<and> ss_pending (si_state iv) = None")
  case False
  then show ?thesis
    by (auto simp: switch_service_apply_def bridge_check_def switch_apply_def split_beta split: if_splits)
next
  case True
  let ?p = "\<lparr>sp_token = token, sp_document = d, sp_snapshot = si_running iv, sp_applied_at = t1,
    sp_window_s = as_secs window, sp_counting_from = None\<rparr>"
  obtain r n where run: "run_all (sc_spawn c) (plan (si_running iv) d) (bd_net b) = (r, n)"
    by (cases "run_all (sc_spawn c) (plan (si_running iv) d) (bd_net b)")
  show ?thesis
  proof (cases r)
    case (Inr u)
    then show ?thesis using True run
      by (simp add: switch_service_apply_def bridge_check_def switch_apply_def Let_def put_on_switch_def)
  next
    case (Inl e)
    have "e \<noteq> NoBridge m" "e \<noteq> SwitchChange x" for m x
      using plan_error [OF run [unfolded Inl]] by auto
    then show ?thesis using True run Inl
      by (cases e) (auto simp: switch_service_apply_def bridge_check_def switch_apply_def Let_def
          put_on_switch_def switch_revert_def)
  qed
qed

text \<open>C25: a confirmed layout survives a reboot: once a confirmation has succeeded, a daemon that
  starts on that file, on a board that came up flat and not in safe mode, puts exactly the
  confirmed document back on the switch.\<close>

theorem switch_survives_reboot:
  assumes "switch_host c view" and "healthy (bd_fs b)" and "roundtrips c (sp_document p)"
    and "switch_refusal (sp_document p) = None" and "ss_pending (si_state iv) = Some p"
    and "switch_service_confirm c token t iv b = (Inr (), iv', b')"
    and "\<not> is_safemode (bd_fs b') CMDLINE" and "shows_document (view boot) (expand Flat)"
  shows "\<exists>iv2 b2. boot_apply c (switch_load c (bd_fs b')) (b'\<lparr>bd_net := boot\<rparr>) = (Inr (), iv2, b2)
    \<and> si_running iv2 = sp_document p \<and> ss_confirmed (si_state iv2) = Some (sp_document p)
    \<and> shows_document (view (bd_net b2)) (sp_document p)"
proof -
  obtain js where js: "sc_to_vec_pretty c (sp_document p) = Some js"
    "sc_from_slice c (Utf8 js) = Some (sp_document p)"
    using assms(3) by (auto simp: roundtrips_def split: option.splits)
  have "write_atomically (sc_path c) js (bd_fs b) = (Inr (), bd_fs b')"
    using assms(5,6) js
    by (auto simp: switch_service_confirm_def switch_confirm_def switch_write_atomically_eq Let_def
        split: if_splits sum.splits prod.splits)
  then have disk: "persisted c (bd_fs b') = Some (sp_document p)"
    by (rule write_then_persisted [OF assms(2) js])
  let ?iv = "switch_load c (bd_fs b')"
  have iv: "si_running ?iv = expand Flat" "ss_confirmed (si_state ?iv) = Some (sp_document p)"
    using disk by (simp_all add: switch_load_def persisted_def switch_adopt_persisted_def)
  have "well_formed_ports (expand Flat)"
    by (simp add: well_formed_ports_def list_all_iff expand_port set_pc_vlans)
  moreover have "well_formed_ports (sp_document p)" using assms(4) by (simp add: switch_refusal_None)
  ultimately obtain n where "put_on_switch c (sp_document p) ?iv (b'\<lparr>bd_net := boot\<rparr>)
      = (Inr (), ?iv\<lparr>si_running := sp_document p\<rparr>, b'\<lparr>bd_net := boot, bd_net := n\<rparr>)"
    and "shows_document (view n) (sp_document p)"
    using put_on_switch_shows [OF assms(1), of ?iv "sp_document p" "b'\<lparr>bd_net := boot\<rparr>"] iv assms(8) by auto
  then show ?thesis using assms(7) iv by (simp add: boot_apply_def)
qed

lemma demo_confirm:
  "\<exists>b'. switch_service_confirm demo_switch ''t'' 0 demo_waiting demo_board
     = (Inr (), demo_waiting\<lparr>si_state := snd (switch_confirm ''t'' 0 (si_state demo_waiting))\<rparr>, b')
   \<and> \<not> is_safemode (bd_fs b') CMDLINE"
  by (simp add: switch_service_confirm_def switch_confirm_def demo_waiting_def demo_pending_def
      sp_expired_at_def sp_deadline_def demo_switch_def switch_write_atomically_def
      fs_create_dir_all_def fs_write_def fs_put_def fs_rename_def empty_fs_def demo_board_def
      SWITCH_CONFIG_def with_extension_def file_stem_def is_safemode_def CMDLINE_def
      fs_read_to_string_def fs_read_def fs_inode_def)

theorem switch_survives_reboot_witness:
  "\<exists>iv2 b2. boot_apply demo_switch
       (switch_load demo_switch (bd_fs (snd (snd (switch_service_confirm demo_switch ''t'' 0 demo_waiting demo_board)))))
       ((snd (snd (switch_service_confirm demo_switch ''t'' 0 demo_waiting demo_board)))\<lparr>bd_net := flat_view\<rparr>)
     = (Inr (), iv2, b2) \<and> shows_document (bd_net b2) (expand Split)"
proof -
  obtain iv' b' where c: "switch_service_confirm demo_switch ''t'' 0 demo_waiting demo_board = (Inr (), iv', b')"
    and s: "\<not> is_safemode (bd_fs b') CMDLINE" using demo_confirm by blast
  have p: "ss_pending (si_state demo_waiting) = Some demo_pending" "sp_document demo_pending = expand Split"
    by (simp_all add: demo_waiting_def demo_pending_def)
  show ?thesis
    using switch_survives_reboot [OF demo_host _ _ _ p(1) c s, of flat_view] c p demo_split demo_flat
    by auto
qed

text \<open>the machine is told of a confirmation before the file is written. When the write fails the
  caller is told so, but the change is no longer waiting and counts as confirmed, a second
  confirmation finds nothing, and no tick will put it back, while the file holds what it held.\<close>

theorem switch_confirm_before_write:
  assumes "ss_pending (si_state iv) = Some p" and "fs_wf (bd_fs b)" and "unshared (bd_fs b) (write_tmp (sc_path c))"
    and "write_tmp (sc_path c) \<noteq> sc_path c"
    and "switch_service_confirm c token t iv b = (Inl (SwitchIo e), iv', b')"
  shows "ss_confirmed (si_state iv') = Some (sp_document p)
    \<and> fs_inode (bd_fs b') (sc_path c) = fs_inode (bd_fs b) (sc_path c)
    \<and> switch_service_confirm c token t' iv' b' = (Inl (SwitchChange NothingPending), iv', b')
    \<and> switch_service_tick c t1 t2 iv' b' = (iv', b')"
proof -
  have st: "si_state iv' = (si_state iv)\<lparr>ss_confirmed := Some (sp_document p), ss_pending := None\<rparr>"
    using assms(1,5)
    by (auto simp: switch_service_confirm_def switch_confirm_def Let_def
        split: if_splits option.splits sum.splits prod.splits)
  have "bd_fs b' = bd_fs b
      \<or> (\<exists>js e. write_atomically (sc_path c) js (bd_fs b) = (Inl e, bd_fs b'))"
    using assms(1,5)
    by (auto simp: switch_service_confirm_def switch_confirm_def switch_write_atomically_eq Let_def
        split: if_splits option.splits sum.splits prod.splits)
  moreover have "\<not> aliased (bd_fs b) (write_tmp (sc_path c)) (sc_path c)"
    using unsharedD [OF assms(3)] assms(4) by metis
  ultimately have "fs_inode (bd_fs b') (sc_path c) = fs_inode (bd_fs b) (sc_path c)"
    using write_atomically_err [OF _ assms(2)] assms(4) by metis
  then show ?thesis
    using st by (simp add: switch_service_confirm_def switch_confirm_def switch_service_tick_def
        start_window_if_reachable_def switch_tick_def Let_def)
qed

definition full_board :: "bridge_view board" where
  "full_board = demo_board\<lparr>bd_fs := empty_fs\<lparr>fs_faults := [(write_tmp SWITCH_CONFIG, Full 0)]\<rparr>\<rparr>"

theorem switch_confirm_before_write_witness:
  "\<exists>iv' b'. switch_service_confirm demo_switch ''t'' 0 demo_waiting full_board = (Inl (SwitchIo OtherIo), iv', b')
     \<and> ss_confirmed (si_state iv') = Some (expand Split) \<and> fs_inode (bd_fs b') SWITCH_CONFIG = None"
proof -
  obtain iv' b' where c: "switch_service_confirm demo_switch ''t'' 0 demo_waiting full_board
      = (Inl (SwitchIo OtherIo), iv', b')"
    by (simp add: switch_service_confirm_def switch_confirm_def demo_waiting_def demo_pending_def
        sp_expired_at_def sp_deadline_def demo_switch_def switch_write_atomically_def Let_def
        fs_create_dir_all_def fs_write_def full_board_def empty_fs_def demo_board_def)
  have p: "ss_pending (si_state demo_waiting) = Some demo_pending" "sp_document demo_pending = expand Split"
    by (simp_all add: demo_waiting_def demo_pending_def)
  have f: "fs_wf (bd_fs full_board)" "unshared (bd_fs full_board) (write_tmp (sc_path demo_switch))"
    "write_tmp (sc_path demo_switch) \<noteq> sc_path demo_switch" "fs_inode (bd_fs full_board) SWITCH_CONFIG = None"
    by (simp_all add: full_board_def fs_wf_def empty_fs_def unshared_def aliased_def fs_exists_def
        SWITCH_CONFIG_def with_extension_def file_stem_def fs_inode_def)
  show ?thesis using switch_confirm_before_write [OF p(1) f(1-3) c] c p f(4) by simp
qed

text \<open>the window waits for an uplink in the board's own VLAN of the new document. As long as
  none forwards, whatever the clock says, ticks leave the change where it is: it is never put
  back, and a confirmation with its token is accepted however late it comes. So a document
  whose only cabled uplink is in the other VLAN stays until somebody reverts it or the board
  is restarted.\<close>

theorem switch_window_waits:
  assumes "ss_pending (si_state iv) = Some p" and "sp_counting_from p = None"
    and "Option.bind (sd_ports (sp_document p) Bmc) pc_untagged = Some management"
    and "\<And>t1 t2 fs u name. (t1, t2, fs) \<in> set ticks \<Longrightarrow> u \<in> set (sd_members (sp_document p) management) \<Longrightarrow>
      is_uplink u \<Longrightarrow> interface_name u = Some name \<Longrightarrow> \<not> is_forwarding fs NET_CLASS name"
  shows "foldl (\<lambda>(iv, b) (t1, t2, fs). switch_service_tick c t1 t2 iv (b\<lparr>bd_fs := fs\<rparr>)) (iv, b) ticks
      = (iv, foldl (\<lambda>b (t1, t2, fs). b\<lparr>bd_fs := fs\<rparr>) b ticks)
    \<and> fst (switch_confirm (sp_token p) t (si_state iv)) = Inr (Persist (sp_document p))"
proof -
  have "switch_service_tick c t1 t2 iv (b\<lparr>bd_fs := fs\<rparr>) = (iv, b\<lparr>bd_fs := fs\<rparr>)"
    if "(t1, t2, fs) \<in> set ticks" for t1 t2 fs b
  proof -
    have "\<not> list_ex (is_forwarding fs NET_CLASS)
        (filter_map interface_name (filter is_uplink (sd_members (sp_document p) management)))"
      using assms(4) [OF that] by (auto simp: list_ex_iff set_filter_map)
    then have "start_window_if_reachable fs t1 iv = iv"
      using assms(1-3) by (simp add: start_window_if_reachable_def)
    then show ?thesis using assms(1,2)
      by (simp add: switch_service_tick_def switch_tick_def sp_expired_at_def sp_deadline_def)
  qed
  then have "foldl (\<lambda>(iv, b) (t1, t2, fs). switch_service_tick c t1 t2 iv (b\<lparr>bd_fs := fs\<rparr>)) (iv, b) ticks
      = (iv, foldl (\<lambda>b (t1, t2, fs). b\<lparr>bd_fs := fs\<rparr>) b ticks)"
    by (induction ticks arbitrary: b) (auto split: prod.splits)
  then show ?thesis using assms(1,2)
    by (simp add: switch_confirm_def sp_expired_at_def sp_deadline_def)
qed

theorem switch_window_waits_witness:
  "fst (foldl (\<lambda>(iv, b) (t1, t2, fs). switch_service_tick demo_switch t1 t2 iv (b\<lparr>bd_fs := fs\<rparr>))
     (demo_waiting, demo_board) [(from_secs 1, from_secs 1, empty_fs), (from_secs 9000, from_secs 9000, empty_fs)])
   = demo_waiting"
proof -
  have p: "ss_pending (si_state demo_waiting) = Some demo_pending" "sp_counting_from demo_pending = None"
    "Option.bind (sd_ports (sp_document demo_pending) Bmc) pc_untagged = Some SPLIT_MANAGEMENT_VID"
    by (simp_all add: demo_waiting_def demo_pending_def expand_def)
  have quiet: "\<not> is_forwarding fs NET_CLASS name"
    if "(t1, t2, fs) \<in> set [(from_secs 1, from_secs 1, empty_fs), (from_secs 9000, from_secs 9000, empty_fs)]"
    for t1 t2 :: instant and fs name
    using that by (auto simp: is_forwarding_def fs_read_to_string_def Let_def)
  show ?thesis
    by (subst switch_window_waits [OF p, THEN conjunct1]) (use quiet in auto)
qed

end
