(* ===== verification/Network_Api.thy ===== *)
theory Network_Api
  imports Switch_Service Auth_Service
begin

text \<open>
  The endpoints of the switch and of the board's address (\<open>api/network.rs\<close>, \<open>api/address.rs\<close>): what a
  client may ask, which refusal has which status, and the rule that a confirmation may not come
  from the board itself. A handler sees the actor the authentication recorded with the request.
  The log lines are not modelled, and a body is the value it was read to.
\<close>

section \<open>Answers\<close>

datatype api_refusal =
    OfSwitch switch_error
  | OfSwitchRules refusal_reason
  | OfAddress address_error
  | OfAddressRules address_refusal
  | ConfirmFromTheBoard

type_synonym 'v api_result = "(nat \<times> api_refusal, nat \<times> 'v) result"

definition actor_name :: "actor option \<Rightarrow> string" where
  "actor_name a =
     (case a of Some (User name _) \<Rightarrow> name | Some Loopback \<Rightarrow> ''loopback'' | None \<Rightarrow> ''unattributed'')"

definition from_the_board_itself :: "actor option \<Rightarrow> bool" where
  "from_the_board_itself a = (a = Some Loopback)"

section \<open>Switch\<close>

datatype proposal = ProposePreset preset | ProposeDocument switch_document

fun proposal_document :: "proposal \<Rightarrow> switch_document" where
  "proposal_document (ProposePreset p) = expand p"
| "proposal_document (ProposeDocument d) = d"

fun switch_refuse :: "switch_error \<Rightarrow> nat \<times> api_refusal" where
  "switch_refuse (SwitchChange e) = (400, OfSwitch (SwitchChange e))"
| "switch_refuse (NoBridge m) = (409, OfSwitch (NoBridge m))"
| "switch_refuse e = (500, OfSwitch e)"

definition EXAMPLE_MANAGEMENT_VID :: u16 where "EXAMPLE_MANAGEMENT_VID = 10"
definition EXAMPLE_NODE_VID :: u16 where "EXAMPLE_NODE_VID = 20"

record preset_view =
  pv_name :: string
  pv_document :: switch_document
  pv_warnings :: "switch_warning list"

definition preset_view_of :: "string \<times> preset \<Rightarrow> preset_view" where
  "preset_view_of np =
     (case np of (name, p) \<Rightarrow> \<lparr>pv_name = name, pv_document = expand p, pv_warnings = switch_warnings (expand p)\<rparr>)"

definition get_presets :: "preset_view list" where
  "get_presets =
     map preset_view_of
       [(''flat'', Flat), (''split'', Split), (''trunk'', Trunk EXAMPLE_MANAGEMENT_VID EXAMPLE_NODE_VID Redundant)]"

record switch_limits =
  li_vid_min :: u16
  li_vid_max :: u16
  li_window_default_s :: nat
  li_window_min_s :: nat
  li_window_max_s :: nat
  li_split_internal_vids :: "u16 list"

definition presets_limits :: switch_limits where
  "presets_limits =
     \<lparr>li_vid_min = VID_MIN, li_vid_max = VID_MAX, li_window_default_s = as_secs DEFAULT_WINDOW,
      li_window_min_s = as_secs MIN_WINDOW, li_window_max_s = as_secs MAX_WINDOW,
      li_split_internal_vids = [SPLIT_MANAGEMENT_VID, SPLIT_NODE_VID]\<rparr>"

definition post_switch_validate :: "'n switch_config \<Rightarrow> proposal \<Rightarrow> 'n board
    \<Rightarrow> (switch_document \<times> refusal_reason option \<times> switch_warning list) api_result \<times> 'n board" where
  "post_switch_validate c body b =
     (case bridge_check c b of
        (Inl e, b) \<Rightarrow> (Inl (switch_refuse e), b)
      | (Inr _, b) \<Rightarrow>
          (let document = proposal_document body
           in (Inr (200, document, switch_refusal document, switch_warnings document), b)))"

definition window_of :: "nat option \<Rightarrow> duration" where
  "window_of window_s = (case window_s of Some s \<Rightarrow> from_secs s | None \<Rightarrow> DEFAULT_WINDOW)"

definition put_switch :: "'n switch_config \<Rightarrow> proposal \<Rightarrow> nat option \<Rightarrow> string \<Rightarrow> instant \<Rightarrow> instant \<Rightarrow> switch_inner \<Rightarrow> 'n board
    \<Rightarrow> switch_pending api_result \<times> switch_inner \<times> 'n board" where
  "put_switch c body window_s token t1 t2 iv b =
     (let document = proposal_document body
      in case switch_refusal document of
           Some reason \<Rightarrow> (Inl (400, OfSwitchRules reason), iv, b)
         | None \<Rightarrow>
             (case switch_service_apply c document (window_of window_s) token t1 t2 iv b of
                (Inl e, iv, b) \<Rightarrow> (Inl (switch_refuse e), iv, b)
              | (Inr pending, iv, b) \<Rightarrow> (Inr (202, pending), iv, b)))"

definition post_switch_confirm :: "'n switch_config \<Rightarrow> actor option \<Rightarrow> string \<Rightarrow> instant \<Rightarrow> switch_inner \<Rightarrow> 'n board
    \<Rightarrow> switch_view api_result \<times> switch_inner \<times> 'n board" where
  "post_switch_confirm c actor token now iv b =
     (if from_the_board_itself actor then (Inl (403, ConfirmFromTheBoard), iv, b)
      else (case switch_service_confirm c token now iv b of
              (Inl e, iv, b) \<Rightarrow> (Inl (switch_refuse e), iv, b)
            | (Inr _, iv, b) \<Rightarrow> (Inr (200, switch_service_view iv), iv, b)))"

definition post_switch_revert :: "'n switch_config \<Rightarrow> instant \<Rightarrow> switch_inner \<Rightarrow> 'n board
    \<Rightarrow> switch_view api_result \<times> switch_inner \<times> 'n board" where
  "post_switch_revert c now iv b =
     (case switch_service_revert c now iv b of
        (Inl e, iv, b) \<Rightarrow> (Inl (switch_refuse e), iv, b)
      | (Inr _, iv, b) \<Rightarrow> (Inr (200, switch_service_view iv), iv, b))"

section \<open>Address\<close>

fun address_refuse :: "address_error \<Rightarrow> nat \<times> api_refusal" where
  "address_refuse (Change e) = (400, OfAddress (Change e))"
| "address_refuse (NoManagedBridge m) = (409, OfAddress (NoManagedBridge m))"
| "address_refuse HandWritten = (409, OfAddress HandWritten)"
| "address_refuse e = (500, OfAddress e)"

definition address_limits :: "u8 \<times> u8 \<times> nat \<times> nat \<times> nat" where
  "address_limits = (MIN_PREFIX, MAX_PREFIX, as_secs DEFAULT_WINDOW, as_secs MIN_WINDOW, as_secs MAX_WINDOW)"

definition post_address_validate :: "address_document \<Rightarrow> address_document \<times> address_refusal option \<times> address_warning list" where
  "post_address_validate d = (d, address_refusal d, address_warnings d)"

definition put_address :: "'n address_config \<Rightarrow> address_document \<Rightarrow> nat option \<Rightarrow> bool \<Rightarrow> instant \<Rightarrow> instant \<Rightarrow> string \<Rightarrow> inner
    \<Rightarrow> 'n board \<Rightarrow> address_pending api_result \<times> inner \<times> 'n board" where
  "put_address c document window_s replace_hand_written t1 t2 token iv b =
     (case address_refusal document of
        Some reason \<Rightarrow> (Inl (400, OfAddressRules reason), iv, b)
      | None \<Rightarrow>
          (case service_apply c document (window_of window_s) replace_hand_written t1 t2 token iv b of
             (Inl e, iv, b) \<Rightarrow> (Inl (address_refuse e), iv, b)
           | (Inr pending, iv, b) \<Rightarrow> (Inr (202, pending), iv, b)))"

definition post_address_confirm :: "'n address_config \<Rightarrow> actor option \<Rightarrow> string \<Rightarrow> instant \<Rightarrow> instant \<Rightarrow> instant \<Rightarrow> inner
    \<Rightarrow> 'n board \<Rightarrow> unit api_result \<times> inner \<times> 'n board" where
  "post_address_confirm c actor token t1 t2 t3 iv b =
     (if from_the_board_itself actor then (Inl (403, ConfirmFromTheBoard), iv, b)
      else (case service_confirm c token t1 t2 t3 iv b of
              (Inl e, iv, b) \<Rightarrow> (Inl (address_refuse e), iv, b)
            | (Inr _, iv, b) \<Rightarrow> (Inr (200, ()), iv, b)))"

definition post_address_revert :: "'n address_config \<Rightarrow> instant \<Rightarrow> inner \<Rightarrow> 'n board \<Rightarrow> unit api_result \<times> inner \<times> 'n board" where
  "post_address_revert c now iv b =
     (case service_revert c now iv b of
        (Inl e, iv, b) \<Rightarrow> (Inl (address_refuse e), iv, b)
      | (Inr _, iv, b) \<Rightarrow> (Inr (200, ()), iv, b))"

section \<open>From the wire to the service\<close>

text \<open>A confirmation as it arrives: the authentication decides, and a request it forwards reaches
  the handler with the actor it recorded.\<close>

definition wire_switch_confirm ::
  "auth_config \<Rightarrow> http_request \<Rightarrow> string \<Rightarrow> instant \<Rightarrow> auth_service
     \<Rightarrow> 'n switch_config \<Rightarrow> string \<Rightarrow> instant \<Rightarrow> switch_inner \<Rightarrow> 'n board
     \<Rightarrow> (outcome, switch_view api_result) result \<times> auth_service \<times> switch_inner \<times> 'n board" where
  "wire_switch_confirm cfg rq session now sv c token t iv b =
     (case service_call cfg (bd_fs b) rq session now sv of
        (Forward a, sv) \<Rightarrow>
          (case post_switch_confirm c (Some a) token t iv b of (r, iv, b) \<Rightarrow> (Inr r, sv, iv, b))
      | (other, sv) \<Rightarrow> (Inl other, sv, iv, b))"

definition wire_address_confirm ::
  "auth_config \<Rightarrow> http_request \<Rightarrow> string \<Rightarrow> instant \<Rightarrow> auth_service
     \<Rightarrow> 'n address_config \<Rightarrow> string \<Rightarrow> instant \<Rightarrow> instant \<Rightarrow> instant \<Rightarrow> inner \<Rightarrow> 'n board
     \<Rightarrow> (outcome, unit api_result) result \<times> auth_service \<times> inner \<times> 'n board" where
  "wire_address_confirm cfg rq session now sv c token t1 t2 t3 iv b =
     (case service_call cfg (bd_fs b) rq session now sv of
        (Forward a, sv) \<Rightarrow>
          (case post_address_confirm c (Some a) token t1 t2 t3 iv b of (r, iv, b) \<Rightarrow> (Inr r, sv, iv, b))
      | (other, sv) \<Rightarrow> (Inl other, sv, iv, b))"

section \<open>Facts\<close>

lemma forward_loopback: "from_loopback rq \<Longrightarrow> service_call cfg fs rq session now sv = (Forward Loopback, sv)"
  by (simp add: service_call_def)

lemma post_switch_confirm_ok:
  "post_switch_confirm c actor token now iv b = (Inr v, iv', b') \<Longrightarrow>
     actor \<noteq> Some Loopback \<and> switch_service_confirm c token now iv b = (Inr (), iv', b') \<and> v = (200, switch_service_view iv')"
  by (auto simp: post_switch_confirm_def from_the_board_itself_def split: if_splits prod.splits sum.splits)

section \<open>Properties\<close>

text \<open>C10: a change of the switch becomes permanent only through a request that came over the network. A
  confirmation that is answered with success did not come from loopback and was carried
  out by the service; one that comes from loopback changes neither the service nor the board.\<close>

theorem confirmation_over_network:
  assumes "wire_switch_confirm cfg rq session now sv c token t iv b = (r, sv', iv', b')"
  shows "(from_loopback rq \<longrightarrow> r = Inr (Inl (403, ConfirmFromTheBoard)) \<and> iv' = iv \<and> b' = b \<and> sv' = sv)
    \<and> (\<forall>v. r = Inr (Inr v) \<longrightarrow> \<not> from_loopback rq \<and> switch_service_confirm c token t iv b = (Inr (), iv', b')
          \<and> (\<exists>a. fst (service_call cfg (bd_fs b) rq session now sv) = Forward a))"
proof -
  have "r = Inr (Inl (403, ConfirmFromTheBoard)) \<and> iv' = iv \<and> b' = b \<and> sv' = sv" if "from_loopback rq"
    using assms forward_loopback [OF that]
    by (simp add: wire_switch_confirm_def post_switch_confirm_def from_the_board_itself_def)
  moreover have "switch_service_confirm c token t iv b = (Inr (), iv', b')
      \<and> (\<exists>a. fst (service_call cfg (bd_fs b) rq session now sv) = Forward a)" if "r = Inr (Inr v)" for v
    using assms that post_switch_confirm_ok [of c _ token t iv b]
    by (auto simp: wire_switch_confirm_def split: prod.splits outcome.splits)
  ultimately show ?thesis by auto
qed

text \<open>the same for the address: it is written to the interfaces file only by a confirmation that
  did not come from loopback.\<close>

theorem address_confirmation_over_network:
  assumes "wire_address_confirm cfg rq session now sv c token t1 t2 t3 iv b = (r, sv', iv', b')"
  shows "(from_loopback rq \<longrightarrow> r = Inr (Inl (403, ConfirmFromTheBoard)) \<and> iv' = iv \<and> b' = b)
    \<and> (r = Inr (Inr (200, ())) \<longrightarrow> \<not> from_loopback rq \<and> service_confirm c token t1 t2 t3 iv b = (Inr (), iv', b'))"
proof -
  have "r = Inr (Inl (403, ConfirmFromTheBoard)) \<and> iv' = iv \<and> b' = b" if "from_loopback rq"
    using assms forward_loopback [OF that]
    by (simp add: wire_address_confirm_def post_address_confirm_def from_the_board_itself_def)
  moreover have "service_confirm c token t1 t2 t3 iv b = (Inr (), iv', b')" if "r = Inr (Inr (200, ()))"
    using assms that
    by (auto simp: wire_address_confirm_def post_address_confirm_def split: prod.splits outcome.splits sum.splits if_splits)
  ultimately show ?thesis by auto
qed

lemma example_call:
  "\<exists>sv'. service_call example_auth_config empty_fs example_request ''t'' 50 example_service = (Forward (User ''root'' ''bearer''), sv')"
proof -
  have nl: "\<not> from_loopback example_request"
    by (rule example_not_loopback) (simp add: example_request_def)
  have "\<not> factory_read (cr_verify example_crypto) empty_fs SHADOW_FILE"
    by (simp add: factory_read_def fs_read_to_string_def)
  then have "fst (permits (cr_verify example_crypto) empty_fs SHADOW_FILE ''GET'' ''/api/bmc/power'' None)"
    using permits_coherent [of "cr_verify example_crypto" empty_fs SHADOW_FILE None] by simp
  moreover have "proxied_identity example_request ''x-user'' = None" "credential_line example_request = Inr ''Bearer k''"
    by (simp_all add: proxied_identity_def decide_proxied_identity_def example_request_def credential_line_def
        parse_authorization_header_def get_header_def)
  moreover obtain ax where "authorize_request example_crypto ''p'' ''Bearer k'' 50 example_context = (Inr (User ''root'' ''bearer''), ax)"
    by (simp add: authorize_request_def authorize_bearer_def example_context_def)
  moreover have "rq_verb example_request = ''GET''" "rq_path example_request = ''/api/bmc/power''" "rq_peer example_request = ''p''"
    by (simp_all add: example_request_def)
  ultimately show ?thesis
    using nl by (simp add: service_call_def example_auth_config_def example_service_def forward_if_permitted_def
        factory_permits_def split_beta)
qed

theorem confirmation_over_network_witness:
  "\<exists>v sv' iv' b'. wire_switch_confirm example_auth_config example_request ''t'' 50 example_service demo_switch ''t'' 0 demo_waiting demo_board
       = (Inr (Inr v), sv', iv', b')
     \<and> \<not> from_loopback example_request \<and> ss_pending (si_state iv') = None"
proof -
  obtain sv' where a: "service_call example_auth_config empty_fs example_request ''t'' 50 example_service = (Forward (User ''root'' ''bearer''), sv')"
    using example_call by blast
  obtain b' where c: "switch_service_confirm demo_switch ''t'' 0 demo_waiting demo_board
      = (Inr (), demo_waiting\<lparr>si_state := snd (switch_confirm ''t'' 0 (si_state demo_waiting))\<rparr>, b')"
    using demo_confirm by blast
  let ?iv = "demo_waiting\<lparr>si_state := snd (switch_confirm ''t'' 0 (si_state demo_waiting))\<rparr>"
  have w: "wire_switch_confirm example_auth_config example_request ''t'' 50 example_service demo_switch ''t'' 0 demo_waiting demo_board
      = (Inr (Inr (200, switch_service_view ?iv)), sv', ?iv, b')"
    using a c by (simp add: wire_switch_confirm_def post_switch_confirm_def from_the_board_itself_def)
  have "ss_pending (si_state ?iv) = None"
    by (simp add: switch_confirm_def demo_waiting_def demo_pending_def sp_expired_at_def sp_deadline_def)
  with confirmation_over_network [OF w] w show ?thesis by blast
qed

definition loopback_request :: http_request where
  "loopback_request = example_request\<lparr>rq_peer_ip := Some (V6 1)\<rparr>"

theorem address_confirmation_over_network_witness:
  "\<forall>(c :: unit address_config) iv b.
     fst (wire_address_confirm example_auth_config loopback_request ''t'' 50 example_service c ''t'' 0 0 0 iv b)
       = Inr (Inl (403, ConfirmFromTheBoard))"
proof (intro allI)
  fix c :: "unit address_config" and iv b
  have l: "from_loopback loopback_request"
    by (simp add: loopback_request_def from_loopback_def to_canonical_def is_loopback_def)
  obtain r sv' iv' b' where w: "wire_address_confirm example_auth_config loopback_request ''t'' 50 example_service c ''t'' 0 0 0 iv b
      = (r, sv', iv', b')" by (metis prod_cases4)
  from address_confirmation_over_network [OF w] l w
  show "fst (wire_address_confirm example_auth_config loopback_request ''t'' 50 example_service c ''t'' 0 0 0 iv b)
      = Inr (Inl (403, ConfirmFromTheBoard))" by simp
qed

text \<open>what \<open>validate\<close> says is what a request to apply runs into. On a board with its bridge, the
  document is refused by the rules with exactly the reason \<open>validate\<close> gave, before anything
  is touched, and a document for which it gave none is not refused by the rules. Every preset the
  board offers is one it would take.\<close>

theorem validate_agrees:
  assumes "post_switch_validate c body b = (Inr (status, document, reason, warnings), b1)"
    and "put_switch c body window_s token t1 t2 iv b = (r, iv', b')"
  shows "(case reason of
      Some e \<Rightarrow> r = Inl (400, OfSwitchRules e) \<and> iv' = iv \<and> b' = b
    | None \<Rightarrow> \<forall>e. r \<noteq> Inl (400, OfSwitchRules e))
    \<and> list_all (\<lambda>v. switch_refusal (pv_document v) = None) get_presets"
proof -
  have d: "document = proposal_document body" "reason = switch_refusal document"
    using assms(1) by (auto simp: post_switch_validate_def Let_def split: prod.splits sum.splits)
  have "snd (switch_refuse e) \<noteq> OfSwitchRules x" for e x by (cases e) simp_all
  then have ne: "switch_refuse e \<noteq> (400, OfSwitchRules x)" for e x by (metis snd_conv)
  have "\<forall>e. r \<noteq> Inl (400, OfSwitchRules e)" if "reason = None"
    using assms(2) d ne that by (auto simp: put_switch_def Let_def split: prod.splits sum.splits)
  moreover have "r = Inl (400, OfSwitchRules e) \<and> iv' = iv \<and> b' = b" if "reason = Some e" for e
    using assms(2) that unfolding d put_switch_def Let_def by simp
  moreover have "list_all (\<lambda>v. switch_refusal (pv_document v) = None) get_presets"
    using presets_sound [of Flat] presets_sound [of Split]
      presets_sound [of "Trunk EXAMPLE_MANAGEMENT_VID EXAMPLE_NODE_VID Redundant"]
    by (simp add: get_presets_def preset_view_of_def vid_ok_def EXAMPLE_MANAGEMENT_VID_def EXAMPLE_NODE_VID_def
        VID_MIN_def VID_MAX_def)
  ultimately show ?thesis by (cases reason) simp_all
qed

theorem validate_agrees_witness:
  "\<exists>w b1 r iv' b'. post_switch_validate demo_switch (ProposePreset Split) demo_board = (Inr (200, expand Split, None, w), b1)
     \<and> put_switch demo_switch (ProposePreset Split) None ''t'' 0 0 demo_waiting demo_board = (r, iv', b')
     \<and> (\<forall>e. r \<noteq> Inl (400, OfSwitchRules e))"
proof -
  have v: "post_switch_validate demo_switch (ProposePreset Split) demo_board
      = (Inr (200, expand Split, None, switch_warnings (expand Split)), demo_board)"
    using demo_split by (simp add: post_switch_validate_def bridge_check_def managed_present_def MANAGED_def demo_board_def Let_def)
  obtain r iv' b' where p: "put_switch demo_switch (ProposePreset Split) None ''t'' 0 0 demo_waiting demo_board = (r, iv', b')"
    by (metis prod_cases3)
  from validate_agrees [OF v p] v p show ?thesis by auto
qed

end
