(* ===== verification/Access_Api.thy ===== *)
theory Access_Api
  imports Tls_Store Network_Api
begin

text \<open>
  Who may get in (\<open>api/access.rs\<close>): what the interface is told, the change of a local password, and
  the certificate authority whose clients are trusted. The crypt function and the program
  \<open>chpasswd\<close> are parameters; the text of a refusal is a constructor, and the log lines are not
  modelled.
\<close>

section \<open>What the interface shows\<close>

definition MIN_PASSWORD_LEN :: nat where "MIN_PASSWORD_LEN = 12"

record access_host =
  ah_crypt :: "string \<Rightarrow> string \<Rightarrow> string option"
  ah_verify :: "string \<Rightarrow> string \<Rightarrow> bool"
  ah_chpasswd :: "string \<Rightarrow> fs \<Rightarrow> child_output \<times> fs"
  ah_pid :: nat
  ah_temp_dir :: string

definition actor_view :: "actor option \<Rightarrow> string \<times> string" where
  "actor_view a =
     (case a of
        Some (User name scheme) \<Rightarrow> (name, scheme)
      | Some Loopback \<Rightarrow> (''loopback'', ''loopback'')
      | None \<Rightarrow> (''unattributed'', ''none''))"

record client_ca_view =
  cv_subject :: string
  cv_issuer :: string
  cv_not_after :: string
  cv_fingerprint :: string
  cv_count :: nat

definition upper_hex_digit :: "nat \<Rightarrow> char" where
  "upper_hex_digit n = (if n < 10 then digit n else char_of (55 + n))"

definition fingerprint_text :: "u8 list \<Rightarrow> string" where
  "fingerprint_text digest =
     join '':'' (map (\<lambda>b. [upper_hex_digit (unat b div 16), upper_hex_digit (unat b mod 16)]) digest)"

definition name_to_string :: "(string option \<times> string option) list \<Rightarrow> string" where
  "name_to_string entries =
     join '', '' (map (\<lambda>(short, data). (case short of Some s \<Rightarrow> s | None \<Rightarrow> ''?'') @ ''='' @ (case data of Some d \<Rightarrow> d | None \<Rightarrow> [])) entries)"

definition describe_ca :: "('c, 'k) openssl \<Rightarrow> fs \<Rightarrow> path \<Rightarrow> client_ca_view option" where
  "describe_ca ssl fs p =
     (case fs_read fs p of
        Inl _ \<Rightarrow> None
      | Inr pem \<Rightarrow>
          (case os_stack_from_pem ssl pem of
             Inr (first # chain) \<Rightarrow>
               map_option (\<lambda>digest.
                 \<lparr>cv_subject = name_to_string (os_subject ssl first), cv_issuer = name_to_string (os_issuer ssl first),
                  cv_not_after = os_time_text ssl (os_not_after ssl first), cv_fingerprint = fingerprint_text digest,
                  cv_count = length (first # chain)\<rparr>) (os_digest ssl first)
           | _ \<Rightarrow> None))"

record access_state =
  as_actor :: "string \<times> string"
  as_local_account :: string
  as_client_ca :: "client_ca_view option"
  as_identity_header :: "string \<times> string"
  as_pinned_in_config :: bool
  as_factory_password :: bool

definition get_access :: "('c, 'k) openssl \<Rightarrow> access_host \<Rightarrow> overrides_json \<Rightarrow> tls_config \<Rightarrow> actor option \<Rightarrow> fs \<Rightarrow> access_state" where
  "get_access ssl ah oj tls who fs =
     (case effective_identity_header tls (load_overrides oj fs) of
        (header_name, header_source) \<Rightarrow>
          \<lparr>as_actor = actor_view who, as_local_account = ''root'',
           as_client_ca = Option.bind (effective_client_ca tls fs) (describe_ca ssl fs),
           as_identity_header = (header_name, setting_source_text header_source),
           as_pinned_in_config = (tc_client_ca tls \<noteq> None),
           as_factory_password = fst (still_set (ah_verify ah) fs SHADOW_FILE None)\<rparr>)"

section \<open>The password\<close>

datatype access_refusal =
    UsernameRequired | PasswordTooShort | SamePassword | WrongPassword
  | ChpasswdRefused string | ChpasswdFailed string
  | PinnedInConfig | NotAPemBundle string | NoCertificates | TlsRefusesBundle string | HeaderEmpty
  | CaNotStored io_error | HeaderNotStored io_error | AuthenticatedByIt | CaNotRemoved io_error

type_synonym access_result = "(nat \<times> access_refusal, nat) result"

fun account_hash :: "string \<Rightarrow> string list \<Rightarrow> string option" where
  "account_hash username [] = None"
| "account_hash username (line # ls) =
     (case split_on CHR '':'' line of
        name # others \<Rightarrow>
          if name = username then (case others of h # _ \<Rightarrow> Some h | [] \<Rightarrow> None) else account_hash username ls
      | [] \<Rightarrow> account_hash username ls)"

definition shadow_hash :: "fs \<Rightarrow> string \<Rightarrow> string option" where
  "shadow_hash fs username =
     (case fs_read_to_string fs SHADOW_FILE of Inl _ \<Rightarrow> None | Inr text' \<Rightarrow> account_hash username (lines text'))"

record password_change =
  pc_username :: string
  pc_current_password :: string
  pc_new_password :: string

definition current_password_ok :: "access_host \<Rightarrow> string \<Rightarrow> string \<Rightarrow> bool" where
  "current_password_ok ah password h = ((case ah_crypt ah password h of Some c \<Rightarrow> c | None \<Rightarrow> []) = h)"

definition chpasswd_input :: "password_change \<Rightarrow> string" where
  "chpasswd_input pc = pc_username pc @ '':'' @ pc_new_password pc @ [newline]"

definition set_password :: "access_host \<Rightarrow> password_change \<Rightarrow> fs \<Rightarrow> access_result \<times> fs" where
  "set_password ah pc fs =
     (if pc_username pc = [] then (Inl (400, UsernameRequired), fs)
      else if length (pc_new_password pc) < MIN_PASSWORD_LEN then (Inl (400, PasswordTooShort), fs)
      else if pc_new_password pc = pc_current_password pc then (Inl (400, SamePassword), fs)
      else (case shadow_hash fs (pc_username pc) of
              None \<Rightarrow> (Inl (403, WrongPassword), fs)
            | Some h \<Rightarrow>
                if \<not> current_password_ok ah (pc_current_password pc) h then (Inl (403, WrongPassword), fs)
                else (case ah_chpasswd ah (chpasswd_input pc) fs of
                        (ChildEnded True _ _, fs) \<Rightarrow> (Inr 204, fs)
                      | (ChildEnded False _ stderr, fs) \<Rightarrow> (Inl (500, ChpasswdRefused (trim stderr)), fs)
                      | (ChildFailed e, fs) \<Rightarrow> (Inl (500, ChpasswdFailed e), fs))))"

section \<open>The client CA\<close>

record client_ca_upload =
  cu_pem :: string
  cu_identity_header :: "string option"

definition trial_path :: "access_host \<Rightarrow> path" where
  "trial_path ah = (ah_temp_dir ah, ''bmcd-ca-trial-'' @ show_nat (ah_pid ah) @ ''.pem'')"

datatype trial_error = TrialIo io_error | TrialTls string

definition trial_load :: "('c, 'k) openssl \<Rightarrow> access_host \<Rightarrow> contents \<Rightarrow> fs \<Rightarrow> (trial_error, unit) result \<times> fs" where
  "trial_load ssl ah pem fs =
     (case fs_write (trial_path ah) pem fs of
        (Inl e, fs) \<Rightarrow> (Inl (TrialIo e), fs)
      | (Inr _, fs) \<Rightarrow>
          (let r = (case fs_read fs (trial_path ah) of
                      Inl e \<Rightarrow> Inl (TrialIo e)
                    | Inr c \<Rightarrow> (case os_set_ca_file ssl c of Inl e \<Rightarrow> Inl (TrialTls e) | Inr u \<Rightarrow> Inr u))
           in (r, snd (fs_remove (trial_path ah) fs))))"

fun trial_text :: "trial_error \<Rightarrow> string" where
  "trial_text (TrialTls e) = e"
| "trial_text (TrialIo _) = []"

definition store_header :: "overrides_json \<Rightarrow> string option \<Rightarrow> fs \<Rightarrow> access_result \<times> fs" where
  "store_header oj header fs =
     (case header of
        None \<Rightarrow> (Inr 202, fs)
      | Some h \<Rightarrow>
          if trim h = [] then (Inl (400, HeaderEmpty), fs)
          else (case store_overrides oj \<lparr>ao_identity_header = Some (trim h)\<rparr> fs of
                  (Inl e, fs) \<Rightarrow> (Inl (500, HeaderNotStored e), fs)
                | (Inr _, fs) \<Rightarrow> (Inr 202, fs)))"

definition put_client_ca :: "('c, 'k) openssl \<Rightarrow> access_host \<Rightarrow> overrides_json \<Rightarrow> tls_config \<Rightarrow> client_ca_upload \<Rightarrow> fs \<Rightarrow> access_result \<times> fs" where
  "put_client_ca ssl ah oj tls cu fs =
     (if tc_client_ca tls \<noteq> None then (Inl (400, PinnedInConfig), fs)
      else (case os_stack_from_pem ssl (Utf8 (cu_pem cu)) of
              Inl e \<Rightarrow> (Inl (400, NotAPemBundle e), fs)
            | Inr chain \<Rightarrow>
                if chain = [] then (Inl (400, NoCertificates), fs)
                else (case trial_load ssl ah (Utf8 (cu_pem cu)) fs of
                        (Inl e, fs) \<Rightarrow> (Inl (400, TlsRefusesBundle (trial_text e)), fs)
                      | (Inr _, fs) \<Rightarrow>
                          (case write_client_ca (Utf8 (cu_pem cu)) fs of
                             (Inl e, fs) \<Rightarrow> (Inl (500, CaNotStored e), fs)
                           | (Inr _, fs) \<Rightarrow> store_header oj (cu_identity_header cu) fs))))"

definition delete_client_ca :: "tls_config \<Rightarrow> actor option \<Rightarrow> fs \<Rightarrow> access_result \<times> fs" where
  "delete_client_ca tls who fs =
     (if tc_client_ca tls \<noteq> None then (Inl (400, PinnedInConfig), fs)
      else if snd (actor_view who) = ''mtls'' then (Inl (400, AuthenticatedByIt), fs)
      else (case remove_client_ca fs of
              (Inl e, fs) \<Rightarrow> (Inl (500, CaNotRemoved e), fs)
            | (Inr _, fs) \<Rightarrow> (Inr 202, fs)))"

section \<open>One account at a time\<close>

text \<open>What \<open>chpasswd\<close> promises: an account that no line of its input names keeps its hash.\<close>

definition accounts_named :: "string \<Rightarrow> string set" where
  "accounts_named input = {name. \<exists>line \<in> set (lines input). \<exists>rest. split_once CHR '':'' line = Some (name, rest)}"

definition chpasswd_law :: "(string \<Rightarrow> fs \<Rightarrow> child_output \<times> fs) \<Rightarrow> bool" where
  "chpasswd_law f =
     (\<forall>input fs account. account \<notin> accounts_named input \<longrightarrow> shadow_hash (snd (f input fs)) account = shadow_hash fs account)"

lemma account_hash_name: "account_hash username ls = Some h \<Longrightarrow> \<exists>line \<in> set ls. username \<in> set (split_on CHR '':'' line)"
  by (induction ls) (auto split: list.splits if_splits)

lemma lines_no_newline: "l \<in> set (lines s) \<Longrightarrow> newline \<notin> set l"
proof -
  assume "l \<in> set (lines s)"
  moreover have "last (split_on newline s) \<in> set (split_on newline s)" by (simp add: split_on_def)
  ultimately obtain w where "w \<in> set (split_on newline s)" "l = strip_cr w \<or> l = w"
    by (auto simp: lines_def Let_def split: if_splits dest: in_set_butlastD)
  moreover from this have "newline \<notin> set w"
    using split_p_parts [of w "\<lambda>c. c = newline" s] by (auto simp: split_on_def list_all_iff)
  ultimately show ?thesis by (auto simp: strip_cr_def split: if_splits dest: in_set_butlastD)
qed

lemma set_split_p: "w \<in> set (split_p P s) \<Longrightarrow> set w \<subseteq> set s"
proof (induction s arbitrary: w)
  case (Cons x xs)
  show ?case
  proof (cases "P x")
    case False
    obtain v vs where v: "split_p P xs = v # vs" by (cases "split_p P xs") auto
    then show ?thesis using Cons.prems False Cons.IH [of v] Cons.IH [of w] by auto
  qed (use Cons in auto)
qed simp

lemma shadow_name_plain:
  assumes "shadow_hash fs username = Some h"
  shows "CHR '':'' \<notin> set username" and "newline \<notin> set username"
proof -
  from assms obtain s where "account_hash username (lines s) = Some h"
    by (auto simp: shadow_hash_def split: sum.splits)
  then obtain line where l: "line \<in> set (lines s)" "username \<in> set (split_on CHR '':'' line)"
    using account_hash_name by blast
  show "CHR '':'' \<notin> set username"
    using split_p_parts [of username "\<lambda>c. c = CHR '':''" line] l(2) by (auto simp: split_on_def list_all_iff)
  show "newline \<notin> set username"
    using set_split_p [of username "\<lambda>c. c = CHR '':''" line] l lines_no_newline [OF l(1)] by (auto simp: split_on_def)
qed

lemma split_on_none: "c \<notin> set s \<Longrightarrow> split_on c s = [s]"
  using split_p_none [of "\<lambda>x. x = c" s] by (auto simp: split_on_def list_all_iff)

lemma lines_one: "newline \<notin> set l \<Longrightarrow> lines (l @ [newline]) = [strip_cr l]"
  using split_p_snoc [of "\<lambda>c. c = newline" newline l] split_on_none [of newline l]
  by (simp add: lines_def split_on_def Let_def)

lemma accounts_named_input:
  assumes "CHR '':'' \<notin> set (pc_username pc)" and "newline \<notin> set (pc_username pc)" and "newline \<notin> set (pc_new_password pc)"
  shows "accounts_named (chpasswd_input pc) \<subseteq> {pc_username pc}"
proof -
  have "newline \<notin> set (pc_username pc @ '':'' @ pc_new_password pc)"
    using assms by (simp add: newline_def)
  from lines_one [OF this] have "lines (chpasswd_input pc) = [strip_cr (pc_username pc @ '':'' @ pc_new_password pc)]"
    by (simp add: chpasswd_input_def)
  moreover have "\<exists>rest. strip_cr (pc_username pc @ '':'' @ pc_new_password pc) = pc_username pc @ CHR '':'' # rest"
    by (cases "pc_new_password pc" rule: rev_cases) (auto simp: strip_cr_def butlast_append)
  ultimately show ?thesis using assms(1) by (auto simp: accounts_named_def split_once_append)
qed

lemma set_password_runs:
  assumes "set_password ah pc fs = (r, fs')" and "fs' \<noteq> fs \<or> r = Inr 204"
  shows "\<exists>h. shadow_hash fs (pc_username pc) = Some h \<and> current_password_ok ah (pc_current_password pc) h"
    and "MIN_PASSWORD_LEN \<le> length (pc_new_password pc)" and "pc_new_password pc \<noteq> pc_current_password pc"
    and "fs' = snd (ah_chpasswd ah (chpasswd_input pc) fs)"
  using assms by (auto simp: set_password_def split: if_splits option.splits prod.splits child_output.splits bool.splits)

text \<open>C14: a change of password touches a file, or is answered as done, only for a caller who gives the
  present password of the account he names, and only with a different new one of at least
  twelve characters, whatever the new password holds; and then it is exactly the run of
  \<open>chpasswd\<close> on the line of that account. When the new password has no line break, and
  \<open>chpasswd\<close> touches only the accounts its lines name, no other account's password changes; with
  a line break it can (lemma \<open>line_break_names_another\<close>).\<close>

theorem password_change_own:
  assumes "set_password ah pc fs = (r, fs')" and "fs' \<noteq> fs \<or> r = Inr 204"
  shows "(\<exists>h. shadow_hash fs (pc_username pc) = Some h \<and> current_password_ok ah (pc_current_password pc) h)
    \<and> 12 \<le> length (pc_new_password pc) \<and> pc_new_password pc \<noteq> pc_current_password pc
    \<and> fs' = snd (ah_chpasswd ah (pc_username pc @ '':'' @ pc_new_password pc @ [newline]) fs)
    \<and> (newline \<notin> set (pc_new_password pc) \<and> chpasswd_law (ah_chpasswd ah)
        \<longrightarrow> (\<forall>account. account \<noteq> pc_username pc \<longrightarrow> shadow_hash fs' account = shadow_hash fs account))"
proof -
  note run = set_password_runs [OF assms(1,2)]
  from run(1) obtain h where h: "shadow_hash fs (pc_username pc) = Some h" by blast
  have "shadow_hash fs' account = shadow_hash fs account"
    if "newline \<notin> set (pc_new_password pc)" "chpasswd_law (ah_chpasswd ah)" "account \<noteq> pc_username pc" for account
  proof -
    have "account \<notin> accounts_named (chpasswd_input pc)"
      using accounts_named_input [OF shadow_name_plain [OF h] that(1)] that(3) by blast
    then show ?thesis using that(2) run(4) unfolding chpasswd_law_def by blast
  qed
  then show ?thesis using run by (simp add: MIN_PASSWORD_LEN_def chpasswd_input_def)
qed

text \<open>A line break in the new password names a second account, whose present password nobody gave.\<close>

lemma line_break_names_another:
  "''root'' \<in> accounts_named (chpasswd_input
     \<lparr>pc_username = ''oleg'', pc_current_password = ''old'', pc_new_password = ''long enough'' @ [newline] @ ''root:mine''\<rparr>)"
proof -
  let ?a = "''oleg:long enough''" and ?b = "''root:mine''"
  have "list_all plain_line [?a, ?b]" by (simp add: plain_line_def newline_def)
  then have "lines (unlines [?a, ?b]) = [?a, ?b]" by (rule lines_unlines)
  moreover have "split_once CHR '':'' ?b = Some (''root'', ''mine'')" by simp
  ultimately show ?thesis by (auto simp: accounts_named_def chpasswd_input_def unlines_simps)
qed

definition demo_shadow :: string where
  "demo_shadow = unlines [''root:R1:19000'', ''oleg:O1:19000'']"

definition demo_input :: string where "demo_input = unlines [''root:correct horse battery'']"

definition demo_chpasswd :: "string \<Rightarrow> fs \<Rightarrow> child_output \<times> fs" where
  "demo_chpasswd input fs =
     (if input = demo_input \<and> fs_read_to_string fs SHADOW_FILE = Inr demo_shadow
      then (ChildEnded True [] [], fs_put SHADOW_FILE (Utf8 (unlines [''root:R2:19000'', ''oleg:O1:19000''])) fs)
      else (ChildEnded False [] ''no such user'', fs))"

definition demo_access :: access_host where
  "demo_access = \<lparr>ah_crypt = (\<lambda>password h. if password = ''turing'' then Some ''R1'' else None), ah_verify = (\<lambda>_ _. False),
     ah_chpasswd = demo_chpasswd, ah_pid = 7, ah_temp_dir = ''/tmp''\<rparr>"

definition demo_shadow_fs :: fs where
  "demo_shadow_fs = \<lparr>fs_names = [(SHADOW_FILE, 0)], fs_inodes = (\<lambda>_. \<lparr>in_contents = Utf8 demo_shadow, in_modified = 0\<rparr>),
     fs_next = 1, fs_time = 0, fs_unreadable = [], fs_faults = [], fs_closed_dirs = []\<rparr>"

definition demo_change :: password_change where
  "demo_change = \<lparr>pc_username = ''root'', pc_current_password = ''turing'', pc_new_password = ''correct horse battery''\<rparr>"

lemma demo_accounts:
  "account_hash a (lines (unlines [''root:'' @ h @ '':19000'', ''oleg:O1:19000''])) =
     (if a = ''root'' then Some h else if a = ''oleg'' then Some ''O1'' else None)"
  if "h = ''R1'' \<or> h = ''R2''"
proof -
  have "lines (unlines [''root:'' @ h @ '':19000'', ''oleg:O1:19000'']) = [''root:'' @ h @ '':19000'', ''oleg:O1:19000'']"
    using that by (intro lines_unlines) (auto simp: plain_line_def newline_def)
  then show ?thesis using that by (auto simp: split_on_def)
qed

lemma demo_chpasswd_law: "chpasswd_law demo_chpasswd"
  unfolding chpasswd_law_def
proof (intro allI impI)
  fix input fs account
  assume a: "account \<notin> accounts_named input"
  show "shadow_hash (snd (demo_chpasswd input fs)) account = shadow_hash fs account"
  proof (cases "input = demo_input \<and> fs_read_to_string fs SHADOW_FILE = Inr demo_shadow")
    case True
    have "lines demo_input = [''root:correct horse battery'']"
      unfolding demo_input_def by (intro lines_unlines) (simp add: plain_line_def newline_def)
    moreover have "split_once CHR '':'' ''root:correct horse battery'' = Some (''root'', ''correct horse battery'')" by simp
    ultimately have "''root'' \<in> accounts_named demo_input" by (auto simp: accounts_named_def)
    with a True have "account \<noteq> ''root''" by blast
    moreover have "SHADOW_FILE \<notin> set (fs_unreadable fs)"
      using True by (auto simp: fs_read_to_string_def fs_read_def split: option.splits if_splits)
    moreover have "fs_unreadable (fs_put SHADOW_FILE c fs) = fs_unreadable fs" for c
      by (simp add: fs_put_def split: option.splits)
    ultimately show ?thesis
      using True demo_accounts [of "''R1''" account] demo_accounts [of "''R2''" account]
      by (simp add: demo_chpasswd_def shadow_hash_def fs_read_to_string_def [of "fs_put _ _ _"] fs_read_def [of "fs_put _ _ _"]
          fs_inode_put demo_shadow_def)
  qed (auto simp: demo_chpasswd_def)
qed

lemma demo_set_password: "set_password demo_access demo_change demo_shadow_fs = (Inr 204, snd (demo_chpasswd demo_input demo_shadow_fs))"
  and demo_root: "shadow_hash demo_shadow_fs ''root'' = Some ''R1''"
proof -
  have r: "fs_read_to_string demo_shadow_fs SHADOW_FILE = Inr demo_shadow"
    by (simp add: demo_shadow_fs_def fs_read_to_string_def fs_read_def fs_inode_def)
  show root: "shadow_hash demo_shadow_fs ''root'' = Some ''R1''"
    using demo_accounts [of "''R1''" "''root''"] by (simp add: shadow_hash_def r demo_shadow_def)
  have "chpasswd_input demo_change = demo_input"
    by (simp add: chpasswd_input_def demo_change_def demo_input_def unlines_simps)
  then show "set_password demo_access demo_change demo_shadow_fs = (Inr 204, snd (demo_chpasswd demo_input demo_shadow_fs))"
    using root r
    by (simp add: set_password_def MIN_PASSWORD_LEN_def current_password_ok_def demo_change_def demo_access_def demo_chpasswd_def)
qed

theorem password_change_own_witness:
  "set_password demo_access demo_change demo_shadow_fs = (Inr 204, snd (demo_chpasswd demo_input demo_shadow_fs))
   \<and> shadow_hash (snd (demo_chpasswd demo_input demo_shadow_fs)) ''oleg'' = shadow_hash demo_shadow_fs ''oleg''"
proof -
  have "chpasswd_law (ah_chpasswd demo_access)" by (simp add: demo_access_def demo_chpasswd_law)
  moreover have "newline \<notin> set (pc_new_password demo_change)" by (simp add: demo_change_def newline_def)
  ultimately have "\<forall>account. account \<noteq> pc_username demo_change \<longrightarrow>
      shadow_hash (snd (demo_chpasswd demo_input demo_shadow_fs)) account = shadow_hash demo_shadow_fs account"
    using password_change_own [OF demo_set_password] by blast
  then show ?thesis using demo_set_password by (simp add: demo_change_def)
qed

section \<open>The trust anchor\<close>

lemma fs_exists_remove: "q \<noteq> p \<Longrightarrow> fs_exists (snd (fs_remove p fs)) q = fs_exists fs q"
  by (auto simp: fs_exists_def fs_remove_def fs_unlink_def map_of_filter_names)

definition CA_TMP :: path where "CA_TMP = config_tmp MANAGED_CLIENT_CA"
definition OVERRIDES_TMP :: path where "OVERRIDES_TMP = config_tmp ACCESS_OVERRIDES"

lemma tmp_names:
  "CA_TMP = (''/etc/ssl/certs'', ''bmcd_client_ca.tmp'')" "OVERRIDES_TMP = (''/etc/bmcd'', ''access.tmp'')"
  by (simp_all add: CA_TMP_def OVERRIDES_TMP_def MANAGED_CLIENT_CA_def ACCESS_OVERRIDES_def with_extension_def file_stem_def)

lemma trial_apart: "trial_path ah \<noteq> MANAGED_CLIENT_CA" "trial_path ah \<noteq> CA_TMP" "trial_path ah \<noteq> OVERRIDES_TMP"
  by (simp_all add: trial_path_def MANAGED_CLIENT_CA_def tmp_names)

lemma trial_load_ok:
  assumes "trial_load ssl ah c fs = (Inr u, fs')" and "fs_wf fs"
  shows "os_set_ca_file ssl c = Inr ()" and "fs_wf fs'" and "fs_unreadable fs' = fs_unreadable fs"
    and "q \<noteq> trial_path ah \<Longrightarrow> fs_exists fs' q = fs_exists fs q"
proof -
  let ?p = "trial_path ah"
  from assms(1) have fs': "fs' = snd (fs_remove ?p (fs_put ?p c fs))" and s: "os_set_ca_file ssl c = Inr ()"
    by (auto simp: trial_load_def fs_write_def fs_read_def fs_inode_put Let_def
        split: option.splits fault.splits sum.splits if_splits)
  show "os_set_ca_file ssl c = Inr ()" by (rule s)
  show "fs_wf fs'" unfolding fs' by (rule fs_remove_wf [OF fs_put_wf [OF assms(2)]])
  show "fs_unreadable fs' = fs_unreadable fs"
    unfolding fs' by (simp add: fs_remove_def fs_unlink_def fs_put_def split: option.splits)
  show "fs_exists fs' q = fs_exists fs q" if "q \<noteq> ?p"
    unfolding fs' using that by (simp add: fs_exists_remove fs_exists_put)
qed

lemma store_header_keeps:
  assumes "store_header oj header fs = (r, fs')" and "fs_wf fs" and "\<not> fs_exists fs OVERRIDES_TMP"
    and "q \<noteq> ACCESS_OVERRIDES" and "q \<noteq> OVERRIDES_TMP"
  shows "fs_read fs' q = fs_read fs q" and "q \<noteq> OVERRIDES_TMP \<Longrightarrow> fs_exists fs' q = fs_exists fs q"
proof -
  have "fs' = fs \<or> (\<exists>c r2. config_write ACCESS_OVERRIDES c fs = (r2, fs'))"
    using assms(1)
    by (auto simp: store_header_def store_overrides_def fs_create_dir_all_def
        split: option.splits if_splits prod.splits sum.splits)
  then show "fs_read fs' q = fs_read fs q" "q \<noteq> OVERRIDES_TMP \<Longrightarrow> fs_exists fs' q = fs_exists fs q"
    using cf.keeps_reading [OF _ assms(2,4)] cf.keeps_names [OF _ assms(4)] assms(3,5) by (auto simp: OVERRIDES_TMP_def)
qed

lemma put_client_ca_ok:
  assumes "put_client_ca ssl ah oj tls cu fs = (Inr status, fs')"
  obtains fs1 fs2 where "tc_client_ca tls = None" and "trial_load ssl ah (Utf8 (cu_pem cu)) fs = (Inr (), fs1)"
    and "write_client_ca (Utf8 (cu_pem cu)) fs1 = (Inr (), fs2)"
    and "store_header oj (cu_identity_header cu) fs2 = (Inr status, fs')"
proof -
  have c: "tc_client_ca tls = None" using assms by (cases "tc_client_ca tls") (simp_all add: put_client_ca_def)
  with assms that show thesis by (auto simp: put_client_ca_def split: if_splits sum.splits prod.splits)
qed

text \<open>C16: A client CA that the interface accepted is one the daemon starts with: after the answer 202
  the managed bundle holds exactly the uploaded text, and the listener of the next start takes it
  as its trust anchor.\<close>

theorem installed_ca_starts:
  assumes "put_client_ca ssl ah oj tls cu fs = (Inr status, fs')" and "fs_wf fs"
    and "\<not> fs_exists fs CA_TMP" and "\<not> fs_exists fs OVERRIDES_TMP" and "MANAGED_CLIENT_CA \<notin> set (fs_unreadable fs)"
  shows "effective_client_ca tls fs' = Some MANAGED_CLIENT_CA \<and> ca_of_config ssl tls fs' = Inr (Some (Utf8 (cu_pem cu)))"
proof -
  obtain fs1 fs2 where c: "tc_client_ca tls = None" and t: "trial_load ssl ah (Utf8 (cu_pem cu)) fs = (Inr (), fs1)"
    and w: "config_write MANAGED_CLIENT_CA (Utf8 (cu_pem cu)) fs1 = (Inr (), fs2)"
    and h: "store_header oj (cu_identity_header cu) fs2 = (Inr status, fs')"
    using put_client_ca_ok [OF assms(1)] unfolding write_client_ca_def by blast
  note t1 = trial_load_ok [OF t assms(2)]
  have wf: "fs_wf fs2" by (rule cf.keeps_wf [OF w t1(2)])
  have "\<not> fs_exists fs2 OVERRIDES_TMP"
    using cf.keeps_names [OF w, of OVERRIDES_TMP] t1(4) [of OVERRIDES_TMP] assms(4) trial_apart [of ah]
    unfolding CA_TMP_def [symmetric] by (simp add: tmp_names MANAGED_CLIENT_CA_def)
  note k = store_header_keeps [OF h wf this, of MANAGED_CLIENT_CA]
  have "fs_read fs2 MANAGED_CLIENT_CA = Inr (Utf8 (cu_pem cu))"
    using cf.reads_back [OF w] t1(3) assms(5) by simp
  moreover have apart: "MANAGED_CLIENT_CA \<noteq> ACCESS_OVERRIDES" "MANAGED_CLIENT_CA \<noteq> OVERRIDES_TMP"
    by (simp_all add: tmp_names MANAGED_CLIENT_CA_def ACCESS_OVERRIDES_def)
  ultimately have r: "fs_read fs' MANAGED_CLIENT_CA = Inr (Utf8 (cu_pem cu))" using k(1) by simp
  then have "fs_exists fs' MANAGED_CLIENT_CA"
    by (auto simp: fs_read_def fs_inode_def fs_exists_def split: option.splits)
  then show ?thesis using c t1(1) r by (simp add: effective_client_ca_def ca_of_config_def)
qed

text \<open>An empty header name is refused only after the CA has been replaced.\<close>

lemma refused_header_keeps_the_ca:
  assumes "trial_load ssl ah (Utf8 pem) fs = (Inr (), fs1)" and "write_client_ca (Utf8 pem) fs1 = (Inr (), fs2)"
    and "tc_client_ca tls = None" and "os_stack_from_pem ssl (Utf8 pem) = Inr (c # cs)"
  shows "put_client_ca ssl ah oj tls \<lparr>cu_pem = pem, cu_identity_header = Some []\<rparr> fs = (Inl (400, HeaderEmpty), fs2)"
  using assms by (simp add: put_client_ca_def store_header_def trim_def)

text \<open>The CA is removed only by a caller it did not let in.\<close>

lemma removal_needs_another_way_in:
  "delete_client_ca tls (Some (User name ''mtls'')) fs = (r, fs') \<Longrightarrow> fs' = fs \<and> \<not> is_ok r"
  by (auto simp: delete_client_ca_def actor_view_def split: if_splits)

definition demo_overrides :: overrides_json where
  "demo_overrides = \<lparr>oj_decode = (\<lambda>c. case c of Utf8 s \<Rightarrow> Some \<lparr>ao_identity_header = Some s\<rparr> | NotUtf8 _ \<Rightarrow> None),
     oj_encode = (\<lambda>ov. map_option Utf8 (ao_identity_header ov))\<rparr>"

definition demo_upload :: client_ca_upload where
  "demo_upload = \<lparr>cu_pem = ''our ca'', cu_identity_header = Some ''x-user''\<rparr>"

lemma demo_put_ca: "fst (put_client_ca demo_openssl demo_access demo_overrides demo_tls_config demo_upload empty_fs) = Inr 202"
  by (simp add: put_client_ca_def demo_openssl_def demo_tls_config_def demo_upload_def lines_def split_on_def newline_def
      trial_load_def trial_path_def demo_access_def empty_fs_def fs_write_def fs_put_def fs_read_def fs_inode_def fs_remove_def
      fs_exists_def fs_unlink_def write_client_ca_def config_write_def fs_create_dir_all_def replace_through_def
      MANAGED_CLIENT_CA_def with_extension_def file_stem_def fs_rename_def store_header_def trim_def is_whitespace_def
      store_overrides_def ACCESS_OVERRIDES_def demo_overrides_def show_nat.simps)

theorem installed_ca_starts_witness:
  "ca_of_config demo_openssl demo_tls_config
     (snd (put_client_ca demo_openssl demo_access demo_overrides demo_tls_config demo_upload empty_fs)) = Inr (Some (Utf8 ''our ca''))"
proof -
  let ?r = "put_client_ca demo_openssl demo_access demo_overrides demo_tls_config demo_upload empty_fs"
  have "?r = (Inr 202, snd ?r)" by (metis demo_put_ca prod.collapse)
  moreover have "fs_wf empty_fs" "\<not> fs_exists empty_fs CA_TMP" "\<not> fs_exists empty_fs OVERRIDES_TMP"
    "MANAGED_CLIENT_CA \<notin> set (fs_unreadable empty_fs)"
    by (simp_all add: empty_fs_def fs_wf_def fs_exists_def)
  ultimately have "ca_of_config demo_openssl demo_tls_config (snd ?r) = Inr (Some (Utf8 (cu_pem demo_upload)))"
    using installed_ca_starts by blast
  then show ?thesis by (simp add: demo_upload_def)
qed

end
