(* ===== verification/Tls_Api.thy ===== *)
theory Tls_Api
  imports Access_Api
begin

text \<open>
  The certificate the board serves (\<open>api/tls.rs\<close>): the names a certificate asserts and those the
  board answers to, the checks of an uploaded pair, its installation and its removal. OpenSSL, the
  interfaces of the host, the name lookup and the generator script are parameters; the text of a
  refusal is a constructor, and the log lines are not modelled.
\<close>

section \<open>Addresses as text\<close>

fun show_hex :: "nat \<Rightarrow> string" where
  "show_hex n = (if n < 16 then [hex_digit n] else show_hex (n div 16) @ [hex_digit (n mod 16)])"

declare show_hex.simps [simp del]

fun longest_zeros :: "nat \<Rightarrow> nat \<times> nat \<Rightarrow> nat \<times> nat \<Rightarrow> nat list \<Rightarrow> nat \<times> nat" where
  "longest_zeros i current longest [] = longest"
| "longest_zeros i current longest (s # ss) =
     (if s = 0
      then (let current = (if snd current = 0 then (i, 1) else (fst current, snd current + 1))
            in longest_zeros (i + 1) current (if snd longest < snd current then current else longest) ss)
      else longest_zeros (i + 1) (0, 0) longest ss)"

definition show_segments :: "nat list \<Rightarrow> string" where
  "show_segments ss = join '':'' (map show_hex ss)"

text \<open>\<open>Display\<close> of an IPv6 address, from its eight segments.\<close>

definition show_ipv6 :: "nat list \<Rightarrow> string" where
  "show_ipv6 ss =
     (if take 6 ss = [0, 0, 0, 0, 0, 65535]
      then ''::ffff:'' @ show_ipv4 (of_octets (ss ! 6 div 256) (ss ! 6 mod 256) (ss ! 7 div 256) (ss ! 7 mod 256))
      else (case longest_zeros 0 (0, 0) (0, 0) ss of
              (start, len) \<Rightarrow>
                if 1 < len then show_segments (take start ss) @ ''::'' @ show_segments (drop (start + len) ss)
                else show_segments ss))"

fun byte_segments :: "u8 list \<Rightarrow> nat list" where
  "byte_segments (a # b # bs) = (unat a * 256 + unat b) # byte_segments bs"
| "byte_segments _ = []"

definition word_segments :: "128 word \<Rightarrow> nat list" where
  "word_segments a = map (\<lambda>i. unat a div 65536 ^ i mod 65536) [7, 6, 5, 4, 3, 2, 1, 0]"

fun show_ip :: "ip_addr \<Rightarrow> string" where
  "show_ip (V4 a) = show_ipv4 a"
| "show_ip (V6 a) = show_ipv6 (word_segments a)"

text \<open>\<open>Ipv6Addr::from_str\<close>, as whether it succeeds: groups of up to four hexadecimal digits, of
  which the last two may be written as an IPv4 address, eight in all, or fewer around one \<open>::\<close>.\<close>

definition is_hex_group :: "string \<Rightarrow> bool" where
  "is_hex_group g =
     (g \<noteq> [] \<and> length g \<le> 4
      \<and> list_all (\<lambda>c. is_ascii_digit c \<or> (let n = of_char (to_ascii_lowercase c) :: nat in 97 \<le> n \<and> n \<le> 102)) g)"

fun count_groups :: "bool \<Rightarrow> string list \<Rightarrow> nat option" where
  "count_groups v4 [] = Some 0"
| "count_groups v4 [g] = (if is_hex_group g then Some 1 else if v4 \<and> parse_ipv4 g \<noteq> None then Some 2 else None)"
| "count_groups v4 (g # gs) = (if is_hex_group g then map_option Suc (count_groups v4 gs) else None)"

definition groups_in :: "bool \<Rightarrow> string \<Rightarrow> nat option" where
  "groups_in v4 s = (if s = [] then Some 0 else count_groups v4 (split_on CHR '':'' s))"

definition is_ipv6 :: "string \<Rightarrow> bool" where
  "is_ipv6 s =
     (case split_once_str ''::'' s of
        None \<Rightarrow> s \<noteq> [] \<and> groups_in True s = Some 8
      | Some (a, b) \<Rightarrow>
          (case (groups_in False a, groups_in True b) of
             (Some n, Some m) \<Rightarrow> n + m \<le> 7
           | _ \<Rightarrow> False))"

definition is_ip_text :: "string \<Rightarrow> bool" where
  "is_ip_text s = (parse_ipv4 s \<noteq> None \<or> is_ipv6 s)"

section \<open>Names\<close>

definition debug_bytes :: "u8 list \<Rightarrow> string" where
  "debug_bytes raw = ''['' @ join '', '' (map (\<lambda>b. [hex_digit (unat b div 16), hex_digit (unat b mod 16)]) raw) @ '']''"

fun alt_name_text :: "alt_name \<Rightarrow> string option" where
  "alt_name_text (DnsName dns) = Some dns"
| "alt_name_text (IpBytes raw) =
     Some (if length raw = 4 then show_ipv4 (of_octets (unat (raw ! 0)) (unat (raw ! 1)) (unat (raw ! 2)) (unat (raw ! 3)))
           else if length raw = 16 then show_ipv6 (byte_segments raw)
           else debug_bytes raw)"
| "alt_name_text OtherName = None"

definition names_in :: "('c, 'k) openssl \<Rightarrow> 'c \<Rightarrow> string list" where
  "names_in ssl cert = (case os_alt_names ssl cert of None \<Rightarrow> [] | Some alt \<Rightarrow> filter_map alt_name_text alt)"

text \<open>The host as the checks see it: its name file, its addresses (if they can be listed), what a
  lookup of a name and port gives in time, the clock and the process.\<close>

record tls_env =
  tv_hostname :: "string option"
  tv_interfaces :: "ip_addr list option"
  tv_lookup :: "string \<Rightarrow> ip_addr list option"
  tv_now :: "int option"
  tv_pid :: nat

definition ip_is_unspecified :: "ip_addr \<Rightarrow> bool" where
  "ip_is_unspecified ip = (case ip of V4 a \<Rightarrow> ipv4_is_unspecified a | V6 a \<Rightarrow> a = 0)"

definition is_link_local :: "ip_addr \<Rightarrow> bool" where
  "is_link_local ip =
     (case ip of V4 a \<Rightarrow> ipv4_is_link_local a | V6 a \<Rightarrow> word_segments a ! 0 div 64 = 65152 div 64)"

definition usable_address :: "ip_addr \<Rightarrow> bool" where
  "usable_address ip = (\<not> is_loopback ip \<and> \<not> ip_is_unspecified ip \<and> \<not> is_link_local ip)"

definition board_names :: "tls_env \<Rightarrow> string list" where
  "board_names tv =
     (case tv_hostname tv of
        None \<Rightarrow> []
      | Some h \<Rightarrow>
          (let host = trim (rev (dropWhile (\<lambda>c. c = CHR 0x00 \<or> c = newline) (rev h)))
           in if host \<noteq> [] then [host @ ''.local'', host] else []))
     @ [''localhost'']
     @ (case tv_interfaces tv of None \<Rightarrow> [] | Some ips \<Rightarrow> map show_ip (filter usable_address ips))"

definition board_addresses :: "tls_env \<Rightarrow> ip_addr list" where
  "board_addresses tv = (case tv_interfaces tv of None \<Rightarrow> [] | Some ips \<Rightarrow> filter usable_address ips)"

definition resolves_here :: "tls_env \<Rightarrow> string \<Rightarrow> bool" where
  "resolves_here tv name =
     (if starts_with ''*.'' name \<or> is_ip_text name then False
      else (case tv_lookup tv (name @ '':443'') of
              None \<Rightarrow> False
            | Some addrs \<Rightarrow> list_ex (\<lambda>a. a \<in> set (board_addresses tv)) addrs))"

definition names_resolving_here :: "tls_env \<Rightarrow> string list \<Rightarrow> bool" where
  "names_resolving_here tv names = (if board_addresses tv = [] then False else list_ex (resolves_here tv) names)"

definition name_matches :: "string \<Rightarrow> string \<Rightarrow> bool" where
  "name_matches mine theirs =
     (eq_ignore_ascii_case theirs mine
      \<or> (case strip_prefix ''*.'' theirs of
           None \<Rightarrow> False
         | Some sfx \<Rightarrow> (case split_once CHR ''.'' mine of None \<Rightarrow> False | Some (_, rest) \<Rightarrow> rest = sfx)))"

definition names_this_board :: "string list \<Rightarrow> string list \<Rightarrow> bool" where
  "names_this_board asserted board = list_ex (\<lambda>mine. list_ex (name_matches mine) asserted) board"

section \<open>The purposes of a certificate\<close>

definition OID_EXTENDED_KEY_USAGE :: "u8 list" where "OID_EXTENDED_KEY_USAGE = [0x06, 0x03, 0x55, 0x1d, 0x25]"
definition OID_SERVER_AUTH :: "u8 list" where
  "OID_SERVER_AUTH = [0x06, 0x08, 0x2b, 0x06, 0x01, 0x05, 0x05, 0x07, 0x03, 0x01]"
definition OID_ANY_USAGE :: "u8 list" where "OID_ANY_USAGE = [0x06, 0x04, 0x55, 0x1d, 0x25, 0x00]"

fun contains_bytes :: "u8 list \<Rightarrow> u8 list \<Rightarrow> bool" where
  "contains_bytes needle [] = (needle = [])"
| "contains_bytes needle (b # bs) = (take (length needle) (b # bs) = needle \<or> contains_bytes needle bs)"

definition may_serve :: "('c, 'k) openssl \<Rightarrow> 'c \<Rightarrow> bool" where
  "may_serve ssl cert =
     (case os_to_der ssl cert of
        None \<Rightarrow> True
      | Some der \<Rightarrow>
          \<not> contains_bytes OID_EXTENDED_KEY_USAGE der \<or> contains_bytes OID_SERVER_AUTH der \<or> contains_bytes OID_ANY_USAGE der)"

section \<open>The checks\<close>

record certificate_upload =
  up_certificate :: string
  up_private_key :: string

datatype tls_refusal =
    CertNotPem string | NoCertificate | KeyNotPem string | NoPublicKey string | KeyOfAnother | ClockUnreadable
  | NotYetValid string | Expired string | NotForServers | NamesNobody "string list" "string list" "ip_addr list"
  | KeyNotStored io_error | CertNotStored io_error | NothingToRemove | NotRemoved path io_error
  | GeneratorNotRun string | GeneratorFailed string | NewPairUnreadable start_error

definition check_time :: "('c, 'k) openssl \<Rightarrow> tls_env \<Rightarrow> 'c \<Rightarrow> (tls_refusal, unit) result" where
  "check_time ssl tv leaf =
     (case tv_now tv of
        None \<Rightarrow> Inl ClockUnreadable
      | Some now \<Rightarrow>
          if now < os_not_before ssl leaf then Inl (NotYetValid (os_time_text ssl (os_not_before ssl leaf)))
          else if os_not_after ssl leaf < now then Inl (Expired (os_time_text ssl (os_not_after ssl leaf)))
          else Inr ())"

definition check_names :: "('c, 'k) openssl \<Rightarrow> tls_env \<Rightarrow> 'c \<Rightarrow> (tls_refusal, unit) result" where
  "check_names ssl tv leaf =
     (let board = board_names tv; asserted = names_in ssl leaf
      in if \<not> names_this_board asserted board \<and> \<not> names_resolving_here tv asserted
         then Inl (NamesNobody asserted board (board_addresses tv)) else Inr ())"

definition check_pair :: "('c, 'k) openssl \<Rightarrow> tls_env \<Rightarrow> 'c \<Rightarrow> 'k \<Rightarrow> (tls_refusal, unit) result" where
  "check_pair ssl tv leaf key =
     (case os_public_eq ssl leaf key of
        Inl e \<Rightarrow> Inl (NoPublicKey e)
      | Inr same \<Rightarrow>
          if \<not> same then Inl KeyOfAnother
          else (case check_time ssl tv leaf of
                  Inl e \<Rightarrow> Inl e
                | Inr _ \<Rightarrow> if \<not> may_serve ssl leaf then Inl NotForServers else check_names ssl tv leaf))"

definition validate_upload :: "('c, 'k) openssl \<Rightarrow> tls_env \<Rightarrow> certificate_upload \<Rightarrow> (tls_refusal, 'k \<times> 'c \<times> 'c list) result" where
  "validate_upload ssl tv up =
     (case os_stack_from_pem ssl (Utf8 (up_certificate up)) of
        Inl e \<Rightarrow> Inl (CertNotPem e)
      | Inr [] \<Rightarrow> Inl NoCertificate
      | Inr (leaf # chain) \<Rightarrow>
          (case os_key_from_pem ssl (Utf8 (up_private_key up)) of
             Inl e \<Rightarrow> Inl (KeyNotPem e)
           | Inr key \<Rightarrow> (case check_pair ssl tv leaf key of Inl e \<Rightarrow> Inl e | Inr _ \<Rightarrow> Inr (key, leaf, chain))))"

section \<open>Installing and removing\<close>

definition new_name :: "tls_env \<Rightarrow> path \<Rightarrow> path" where
  "new_name tv p = with_extension p (''new.'' @ show_nat (tv_pid tv))"

definition tls_write :: "tls_env \<Rightarrow> path \<Rightarrow> contents \<Rightarrow> fs \<Rightarrow> (io_error, unit) result \<times> fs" where
  "tls_write tv p bytes fs = replace_through (new_name tv p) p bytes fs"

interpretation tf: file_replacement "tls_write tv" "new_name tv" for tv
  unfolding tls_write_def by (rule replace_through_file)

record certificate_view =
  cw_subject :: string
  cw_issuer :: string
  cw_not_before :: string
  cw_not_after :: string
  cw_fingerprint :: string
  cw_key :: "string option"
  cw_source :: string
  cw_names :: "string list"
  cw_chain_length :: nat

definition describe_served :: "('c, 'k) openssl \<Rightarrow> ('c, 'k) served \<Rightarrow> certificate_view" where
  "describe_served ssl sd =
     (let cert = sd_leaf sd
      in \<lparr>cw_subject = name_to_string (os_subject ssl cert), cw_issuer = name_to_string (os_issuer ssl cert),
          cw_not_before = os_time_text ssl (os_not_before ssl cert), cw_not_after = os_time_text ssl (os_not_after ssl cert),
          cw_fingerprint = (case os_digest ssl cert of Some d \<Rightarrow> fingerprint_text d | None \<Rightarrow> []),
          cw_key = ce_key (served_facts ssl sd), cw_source = cert_source_text (sd_source sd),
          cw_names = names_in ssl cert, cw_chain_length = length (sd_chain sd)\<rparr>)"

type_synonym tls_result = "(nat \<times> tls_refusal, certificate_view) result"

definition put_certificate :: "('c, 'k) openssl \<Rightarrow> tls_env \<Rightarrow> tls_config \<Rightarrow> certificate_upload \<Rightarrow> fs \<Rightarrow> ('c, 'k) served
    \<Rightarrow> tls_result \<times> fs \<times> ('c, 'k) served" where
  "put_certificate ssl tv tls up fs sd =
     (case validate_upload ssl tv up of
        Inl e \<Rightarrow> (Inl (400, e), fs, sd)
      | Inr (key, leaf, chain) \<Rightarrow>
          (case tls_write tv (tc_private_key tls) (Utf8 (up_private_key up)) fs of
             (Inl e, fs) \<Rightarrow> (Inl (500, KeyNotStored e), fs, sd)
           | (Inr _, fs) \<Rightarrow>
               (case tls_write tv (tc_certificate tls) (Utf8 (up_certificate up)) fs of
                  (Inl e, fs) \<Rightarrow> (Inl (500, CertNotStored e), fs, sd)
                | (Inr _, fs) \<Rightarrow>
                    (let sd = \<lparr>sd_key = key, sd_leaf = leaf, sd_chain = chain, sd_source = source_of ssl leaf\<rparr>
                     in (Inr (describe_served ssl sd), fs, sd)))))"

fun remove_each :: "path list \<Rightarrow> fs \<Rightarrow> (path \<times> io_error, unit) result \<times> fs" where
  "remove_each [] fs = (Inr (), fs)"
| "remove_each (p # ps) fs =
     (case fs_remove p fs of
        (Inl e, fs) \<Rightarrow> if e \<noteq> NotFound then (Inl (p, e), fs) else remove_each ps fs
      | (Inr _, fs) \<Rightarrow> remove_each ps fs)"

definition delete_certificate :: "('c, 'k) openssl \<Rightarrow> (fs \<Rightarrow> child_output \<times> fs) \<Rightarrow> tls_config \<Rightarrow> fs \<Rightarrow> ('c, 'k) served
    \<Rightarrow> tls_result \<times> fs \<times> ('c, 'k) served" where
  "delete_certificate ssl generator tls fs sd =
     (if sd_source sd = SelfSigned then (Inl (400, NothingToRemove), fs, sd)
      else (case remove_each [tc_certificate tls, tc_private_key tls] fs of
              (Inl (p, e), fs) \<Rightarrow> (Inl (500, NotRemoved p e), fs, sd)
            | (Inr _, fs) \<Rightarrow>
                (case generator fs of
                   (ChildFailed e, fs) \<Rightarrow> (Inl (500, GeneratorNotRun e), fs, sd)
                 | (ChildEnded False _ stderr, fs) \<Rightarrow> (Inl (500, GeneratorFailed (trim stderr)), fs, sd)
                 | (ChildEnded True _ _, fs) \<Rightarrow>
                     (case load_keys_from_pem ssl (tc_private_key tls) (tc_certificate tls) fs of
                        Inl e \<Rightarrow> (Inl (500, NewPairUnreadable e), fs, sd)
                      | Inr (key, leaf) \<Rightarrow>
                          (let sd = \<lparr>sd_key = key, sd_leaf = leaf, sd_chain = [], sd_source = source_of ssl leaf\<rparr>
                           in (Inr (describe_served ssl sd), fs, sd))))))"

text \<open>The two files and the pair being served, as requests change them.\<close>

datatype tls_request = PutCertificate tls_env certificate_upload | DeleteCertificate

definition tls_step :: "('c, 'k) openssl \<Rightarrow> (fs \<Rightarrow> child_output \<times> fs) \<Rightarrow> tls_config \<Rightarrow> tls_request
    \<Rightarrow> fs \<times> ('c, 'k) served \<Rightarrow> fs \<times> ('c, 'k) served" where
  "tls_step ssl generator tls rq st =
     (case rq of
        PutCertificate tv up \<Rightarrow> snd (put_certificate ssl tv tls up (fst st) (snd st))
      | DeleteCertificate \<Rightarrow> snd (delete_certificate ssl generator tls (fst st) (snd st)))"

text \<open>The answer a request gets in a state.\<close>

definition tls_answer :: "('c, 'k) openssl \<Rightarrow> (fs \<Rightarrow> child_output \<times> fs) \<Rightarrow> tls_config \<Rightarrow> tls_request
    \<Rightarrow> fs \<times> ('c, 'k) served \<Rightarrow> tls_result" where
  "tls_answer ssl generator tls rq st =
     (case rq of
        PutCertificate tv up \<Rightarrow> fst (put_certificate ssl tv tls up (fst st) (snd st))
      | DeleteCertificate \<Rightarrow> fst (delete_certificate ssl generator tls (fst st) (snd st)))"

section \<open>What is served\<close>

lemma validate_upload_ok:
  assumes "validate_upload ssl tv up = Inr (key, leaf, chain)"
  shows "os_stack_from_pem ssl (Utf8 (up_certificate up)) = Inr (leaf # chain)"
    and "os_key_from_pem ssl (Utf8 (up_private_key up)) = Inr key" and "os_public_eq ssl leaf key = Inr True"
    and "check_time ssl tv leaf = Inr ()" and "may_serve ssl leaf" and "check_names ssl tv leaf = Inr ()"
  using assms by (auto simp: validate_upload_def check_pair_def split: sum.splits list.splits if_splits)

lemma check_time_ok: "check_time ssl tv leaf = Inr () \<longleftrightarrow>
    (\<exists>now. tv_now tv = Some now \<and> os_not_before ssl leaf \<le> now \<and> now \<le> os_not_after ssl leaf)"
  by (auto simp: check_time_def not_less split: option.splits)

lemma check_names_ok: "check_names ssl tv leaf = Inr () \<longleftrightarrow>
    names_this_board (names_in ssl leaf) (board_names tv) \<or> names_resolving_here tv (names_in ssl leaf)"
  by (auto simp: check_names_def Let_def)

lemma put_certificate_cases:
  assumes "put_certificate ssl tv tls up fs sd = (r, fs', sd')"
  obtains (refused) e where "validate_upload ssl tv up = Inl e" "r = Inl (400, e)" "fs' = fs" "sd' = sd"
    | (not_stored) key leaf chain e where "validate_upload ssl tv up = Inr (key, leaf, chain)" "r = Inl (500, e)" "sd' = sd"
    | (stored) key leaf chain fs1 where "validate_upload ssl tv up = Inr (key, leaf, chain)" "r = Inr (describe_served ssl sd')"
        "tls_write tv (tc_private_key tls) (Utf8 (up_private_key up)) fs = (Inr (), fs1)"
        "tls_write tv (tc_certificate tls) (Utf8 (up_certificate up)) fs1 = (Inr (), fs')"
        "sd' = \<lparr>sd_key = key, sd_leaf = leaf, sd_chain = chain, sd_source = source_of ssl leaf\<rparr>"
proof (cases "validate_upload ssl tv up")
  case (Inl e)
  then show thesis using assms refused by (simp add: put_certificate_def)
next
  case (Inr v)
  obtain key leaf chain where v: "v = (key, leaf, chain)" by (cases v)
  note put = assms [unfolded put_certificate_def Inr v, simplified]
  show thesis
  proof (cases "tls_write tv (tc_private_key tls) (Utf8 (up_private_key up)) fs")
    case (Pair r1 fs1)
    show thesis
    proof (cases r1)
      case (Inl e)
      then have "r = Inl (500, KeyNotStored e)" "sd' = sd" using put Pair by simp_all
      then show thesis using not_stored [OF \<open>validate_upload ssl tv up = Inr v\<close> [unfolded v]] by blast
    next
      case (Inr u)
      then have k: "tls_write tv (tc_private_key tls) (Utf8 (up_private_key up)) fs = (Inr (), fs1)" using Pair by simp
      show thesis
      proof (cases "tls_write tv (tc_certificate tls) (Utf8 (up_certificate up)) fs1")
        case (Pair r2 fs2)
        show thesis
        proof (cases r2)
          case (Inl e)
          then have "r = Inl (500, CertNotStored e)" "sd' = sd" using put k Pair by simp_all
          then show thesis using not_stored [OF \<open>validate_upload ssl tv up = Inr v\<close> [unfolded v]] by blast
        next
          case (Inr u)
          then show thesis using put k Pair
            by (intro stored [OF \<open>validate_upload ssl tv up = Inr v\<close> [unfolded v] _ k]) (auto simp: Let_def)
        qed
      qed
    qed
  qed
qed

lemma put_certificate_served:
  assumes "put_certificate ssl tv tls up fs sd = (r, fs', sd')"
  shows "sd' = sd \<or> os_public_eq ssl (sd_leaf sd') (sd_key sd') = Inr True"
  using assms by (cases rule: put_certificate_cases) (auto dest: validate_upload_ok)

text \<open>What the generator script promises: when it succeeds, the two files hold a key and its own
  certificate, if they can be read.\<close>

definition generator_law :: "('c, 'k) openssl \<Rightarrow> (fs \<Rightarrow> child_output \<times> fs) \<Rightarrow> tls_config \<Rightarrow> bool" where
  "generator_law ssl generator tls =
     (\<forall>fs fs' stdout stderr key leaf. generator fs = (ChildEnded True stdout stderr, fs') \<longrightarrow>
        load_keys_from_pem ssl (tc_private_key tls) (tc_certificate tls) fs' = Inr (key, leaf) \<longrightarrow>
        os_public_eq ssl leaf key = Inr True)"

lemma delete_certificate_served:
  assumes "delete_certificate ssl generator tls fs sd = (r, fs', sd')" and "generator_law ssl generator tls"
  shows "sd' = sd \<or> os_public_eq ssl (sd_leaf sd') (sd_key sd') = Inr True"
proof (cases "sd' = sd")
  case False
  then obtain fs1 fs2 stdout stderr key leaf where "generator fs1 = (ChildEnded True stdout stderr, fs2)"
    "load_keys_from_pem ssl (tc_private_key tls) (tc_certificate tls) fs2 = Inr (key, leaf)" "sd_key sd' = key" "sd_leaf sd' = leaf"
    using assms(1)
    by (auto simp: delete_certificate_def Let_def split: if_splits sum.splits prod.splits child_output.splits bool.splits)
  then show ?thesis using assms(2) unfolding generator_law_def by blast
qed simp

lemma tls_step_served:
  assumes "os_public_eq ssl (sd_leaf (snd st)) (sd_key (snd st)) = Inr True" and "generator_law ssl generator tls"
  shows "os_public_eq ssl (sd_leaf (snd (tls_step ssl generator tls rq st))) (sd_key (snd (tls_step ssl generator tls rq st))) = Inr True"
proof (cases rq)
  case (PutCertificate tv up)
  obtain r fs' sd' where "put_certificate ssl tv tls up (fst st) (snd st) = (r, fs', sd')" by (metis prod_cases3)
  then show ?thesis using put_certificate_served [of ssl tv tls up "fst st" "snd st"] assms(1) PutCertificate
    by (auto simp: tls_step_def)
next
  case DeleteCertificate
  obtain r fs' sd' where "delete_certificate ssl generator tls (fst st) (snd st) = (r, fs', sd')" by (metis prod_cases3)
  then show ?thesis using delete_certificate_served [of ssl generator tls "fst st" "snd st"] assms DeleteCertificate
    by (auto simp: tls_step_def)
qed

text \<open>The pair a request of the given kind puts on the wire when it is answered well.\<close>

definition newly_served :: "('c, 'k) openssl \<Rightarrow> tls_config \<Rightarrow> tls_request \<Rightarrow> fs \<Rightarrow> ('c, 'k) served \<Rightarrow> bool" where
  "newly_served ssl tls rq fs sd =
     (case rq of
        PutCertificate tv up \<Rightarrow>
          os_key_from_pem ssl (Utf8 (up_private_key up)) = Inr (sd_key sd)
          \<and> os_stack_from_pem ssl (Utf8 (up_certificate up)) = Inr (sd_leaf sd # sd_chain sd)
      | DeleteCertificate \<Rightarrow>
          load_keys_from_pem ssl (tc_private_key tls) (tc_certificate tls) fs = Inr (sd_key sd, sd_leaf sd) \<and> sd_chain sd = [])"

lemma tls_step_answer:
  "(case tls_answer ssl generator tls rq st of
      Inl _ \<Rightarrow> snd (tls_step ssl generator tls rq st) = snd st
    | Inr _ \<Rightarrow> newly_served ssl tls rq (fst (tls_step ssl generator tls rq st)) (snd (tls_step ssl generator tls rq st)))"
proof (cases rq)
  case (PutCertificate tv up)
  obtain r fs' sd' where p: "put_certificate ssl tv tls up (fst st) (snd st) = (r, fs', sd')" by (metis prod_cases3)
  then show ?thesis
    by (cases rule: put_certificate_cases)
      (use p PutCertificate in \<open>simp_all add: tls_answer_def tls_step_def newly_served_def validate_upload_ok(1,2)\<close>)
next
  case DeleteCertificate
  then show ?thesis
    by (simp add: tls_answer_def tls_step_def newly_served_def delete_certificate_def Let_def
        split: sum.split prod.split child_output.split bool.split)
qed

text \<open>C13: whatever is uploaded or removed while the board serves, every handshake is given a
  certificate and the key that belongs to it. In every state so reached, a request that is
  answered with an error, at whatever step it failed, leaves the served pair, its chain and its
  source as they were; an accepted upload is followed by handshakes with exactly the uploaded
  key, certificate and chain, and an accepted removal by the pair the generator left in the
  files. The generator is trusted to write a matching pair when it succeeds, and the pair
  served at first to match.\<close>

theorem every_handshake_served:
  assumes "os_public_eq ssl (sd_leaf sd) (sd_key sd) = Inr True" and "generator_law ssl generator tls"
    and "st = fold (tls_step ssl generator tls) requests (fs, sd)"
  shows "handshake_pair ssl \<lparr>li_served = snd st, li_client_ca = ca, li_session_context = sid\<rparr> =
      Some (sd_leaf (snd st), sd_key (snd st), sd_chain (snd st))
    \<and> (case tls_answer ssl generator tls rq st of
         Inl _ \<Rightarrow> snd (tls_step ssl generator tls rq st) = snd st
       | Inr _ \<Rightarrow> newly_served ssl tls rq (fst (tls_step ssl generator tls rq st)) (snd (tls_step ssl generator tls rq st)))"
proof -
  have "os_public_eq ssl (sd_leaf (snd (fold (tls_step ssl generator tls) rqs st0)))
      (sd_key (snd (fold (tls_step ssl generator tls) rqs st0))) = Inr True"
    if "os_public_eq ssl (sd_leaf (snd st0)) (sd_key (snd st0)) = Inr True" for rqs st0
    using that by (induction rqs arbitrary: st0) (simp_all add: tls_step_served [OF _ assms(2)])
  from this [of "(fs, sd)" requests] assms(1,3) tls_step_answer [of ssl generator tls rq st]
  show ?thesis by (simp add: handshake_pair_def Let_def)
qed

text \<open>What reading the first certificate of a bundle promises.\<close>

definition first_cert_law :: "('c, 'k) openssl \<Rightarrow> bool" where
  "first_cert_law ssl = (\<forall>pem c cs. os_stack_from_pem ssl pem = Inr (c # cs) \<longrightarrow> os_cert_from_pem ssl pem = Inr c)"

definition pair_room :: "tls_env \<Rightarrow> tls_config \<Rightarrow> fs \<Rightarrow> bool" where
  "pair_room tv tls fs =
     (fs_wf fs \<and> distinct [tc_private_key tls, tc_certificate tls, new_name tv (tc_private_key tls), new_name tv (tc_certificate tls)]
      \<and> \<not> fs_exists fs (new_name tv (tc_private_key tls)) \<and> \<not> fs_exists fs (new_name tv (tc_certificate tls))
      \<and> tc_private_key tls \<notin> set (fs_unreadable fs) \<and> tc_certificate tls \<notin> set (fs_unreadable fs))"

text \<open>C18: An installed pair survives a restart: after the upload was accepted, the daemon that starts
  next reads from the two files the very key and certificate the upload put on the wire.\<close>

theorem restart_serves_installed:
  assumes "put_certificate ssl tv tls up fs sd = (Inr view, fs', sd')" and "first_cert_law ssl" and "pair_room tv tls fs"
  shows "load_keys_from_pem ssl (tc_private_key tls) (tc_certificate tls) fs' = Inr (sd_key sd', sd_leaf sd')"
  using assms(1)
proof (cases rule: put_certificate_cases)
  case (stored key leaf chain fs1)
  have "fs_read fs' (tc_private_key tls) = Inr (Utf8 (up_private_key up)) \<and> fs_read fs' (tc_certificate tls) = Inr (Utf8 (up_certificate up))"
    using tf.both_read_back [OF stored(3,4)] assms(3) unfolding pair_room_def by blast
  then show ?thesis
    using validate_upload_ok(1,2) [OF stored(1)] assms(2) stored(5) by (simp add: load_keys_from_pem_def first_cert_law_def)
qed auto

definition demo_env :: tls_env where
  "demo_env = \<lparr>tv_hostname = Some (''bmc'' @ [newline]), tv_interfaces = Some [], tv_lookup = (\<lambda>_. None), tv_now = Some 500, tv_pid = 7\<rparr>"

definition demo_pair :: certificate_upload where
  "demo_pair = \<lparr>up_certificate = unlines [''leaf'', ''issuer''], up_private_key = ''leaf''\<rparr>"

definition demo_served :: "(string, string) served" where
  "demo_served = \<lparr>sd_key = ''old'', sd_leaf = ''old'', sd_chain = [], sd_source = SelfSigned\<rparr>"

lemma demo_lines: "lines (unlines [''leaf'', ''issuer'']) = [''leaf'', ''issuer'']"
  by (rule lines_unlines) (simp add: plain_line_def newline_def)

lemma demo_validate: "validate_upload demo_openssl demo_env demo_pair = Inr (''leaf'', ''leaf'', [''issuer''])"
  by (simp add: validate_upload_def demo_openssl_def demo_pair_def demo_lines check_pair_def check_time_def demo_env_def
      may_serve_def OID_EXTENDED_KEY_USAGE_def check_names_def names_in_def board_names_def newline_def trim_def
      is_whitespace_def names_this_board_def name_matches_def eq_ignore_ascii_case_def)

lemma demo_put:
  "\<exists>view fs'. put_certificate demo_openssl demo_env demo_tls_config demo_pair empty_fs demo_served =
     (Inr view, fs', \<lparr>sd_key = ''leaf'', sd_leaf = ''leaf'', sd_chain = [''issuer''], sd_source = Installed\<rparr>)"
proof -
  have "source_of demo_openssl ''leaf'' = Installed"
    by (simp add: source_of_def demo_openssl_def SELF_SIGNED_ISSUER_def starts_with_def)
  then show ?thesis
    by (simp add: put_certificate_def demo_validate)
      (simp add: tls_write_def replace_through_def fs_write_def empty_fs_def fs_put_def
        fs_rename_def new_name_def with_extension_def file_stem_def demo_env_def demo_tls_config_def show_nat.simps digit_def
        Let_def)
qed

theorem restart_serves_installed_witness:
  "\<exists>view fs' sd'. put_certificate demo_openssl demo_env demo_tls_config demo_pair empty_fs demo_served = (Inr view, fs', sd')
     \<and> load_keys_from_pem demo_openssl (tc_private_key demo_tls_config) (tc_certificate demo_tls_config) fs' = Inr (''leaf'', ''leaf'')"
proof -
  obtain view fs' where p: "put_certificate demo_openssl demo_env demo_tls_config demo_pair empty_fs demo_served =
     (Inr view, fs', \<lparr>sd_key = ''leaf'', sd_leaf = ''leaf'', sd_chain = [''issuer''], sd_source = Installed\<rparr>)"
    using demo_put by blast
  have "first_cert_law demo_openssl"
    by (auto simp: first_cert_law_def demo_openssl_def split: contents.splits list.splits)
  moreover have "pair_room demo_env demo_tls_config empty_fs"
    by (simp add: pair_room_def empty_fs_def fs_wf_def fs_exists_def demo_tls_config_def new_name_def with_extension_def
        file_stem_def demo_env_def)
  ultimately show ?thesis using restart_serves_installed [OF p] p by auto
qed

lemma failed_generator_answer:
  "\<exists>e. tls_answer ssl (\<lambda>fs. (ChildFailed msg, fs)) tls DeleteCertificate st = Inl e"
proof -
  obtain r fs1 where "remove_each [tc_certificate tls, tc_private_key tls] (fst st) = (r, fs1)" by (meson surj_pair)
  then show ?thesis by (cases r) (auto simp: tls_answer_def delete_certificate_def)
qed

theorem every_handshake_served_witness:
  "let st = fold (tls_step demo_openssl (\<lambda>fs. (ChildFailed [], fs)) demo_tls_config)
        [PutCertificate demo_env demo_pair, DeleteCertificate] (empty_fs, demo_served)
   in handshake_pair demo_openssl \<lparr>li_served = snd st, li_client_ca = None, li_session_context = []\<rparr> =
        Some (''leaf'', ''leaf'', [''issuer''])
      \<and> (\<exists>e. tls_answer demo_openssl (\<lambda>fs. (ChildFailed [], fs)) demo_tls_config DeleteCertificate st = Inl e)
      \<and> snd (tls_step demo_openssl (\<lambda>fs. (ChildFailed [], fs)) demo_tls_config DeleteCertificate st) = snd st"
proof -
  let ?gen = "\<lambda>fs. (ChildFailed [], fs)"
  let ?st = "fold (tls_step demo_openssl ?gen demo_tls_config) [PutCertificate demo_env demo_pair, DeleteCertificate] (empty_fs, demo_served)"
  obtain view fs' where p: "put_certificate demo_openssl demo_env demo_tls_config demo_pair empty_fs demo_served =
     (Inr view, fs', \<lparr>sd_key = ''leaf'', sd_leaf = ''leaf'', sd_chain = [''issuer''], sd_source = Installed\<rparr>)"
    using demo_put by blast
  have "snd ?st = \<lparr>sd_key = ''leaf'', sd_leaf = ''leaf'', sd_chain = [''issuer''], sd_source = Installed\<rparr>"
    using p by (auto simp: tls_step_def delete_certificate_def split: prod.splits sum.splits)
  moreover have "os_public_eq demo_openssl (sd_leaf demo_served) (sd_key demo_served) = Inr True"
    by (simp add: demo_openssl_def demo_served_def)
  moreover have "generator_law demo_openssl ?gen demo_tls_config" by (simp add: generator_law_def)
  moreover obtain e where e: "tls_answer demo_openssl ?gen demo_tls_config DeleteCertificate ?st = Inl e"
    using failed_generator_answer by blast
  ultimately have "handshake_pair demo_openssl \<lparr>li_served = snd ?st, li_client_ca = None, li_session_context = []\<rparr> =
        Some (''leaf'', ''leaf'', [''issuer''])
      \<and> snd (tls_step demo_openssl ?gen demo_tls_config DeleteCertificate ?st) = snd ?st"
    using every_handshake_served [of demo_openssl demo_served ?gen demo_tls_config ?st
        "[PutCertificate demo_env demo_pair, DeleteCertificate]" empty_fs None "[]" DeleteCertificate] by (simp only: e) simp
  with e show ?thesis unfolding Let_def by blast
qed

section \<open>What a restart loses\<close>

text \<open>The intermediates of an installed pair are served only until the daemon starts again: what it
  reads at start-up is the first certificate of the file.\<close>

lemma restart_drops_the_chain:
  "load_tls_config ssl tls fs = Inr li \<Longrightarrow> sd_chain (li_served li) = []"
  by (auto simp: load_tls_config_def split: sum.splits prod.splits)

text \<open>When the key was stored and the certificate was not, a restart finds the new key beside the old
  certificate, and no handshake succeeds.\<close>

lemma half_stored_pair:
  assumes "validate_upload ssl tv up = Inr (key, leaf, chain)"
    and "tls_write tv (tc_private_key tls) (Utf8 (up_private_key up)) fs = (Inr (), fs1)"
    and "tls_write tv (tc_certificate tls) (Utf8 (up_certificate up)) fs1 = (Inl e, fs1)"
  shows "put_certificate ssl tv tls up fs sd = (Inl (500, CertNotStored e), fs1, sd)"
  using assms by (simp add: put_certificate_def)

lemma mismatched_pair_refused:
  "load_tls_config ssl tls fs = Inr li \<Longrightarrow> load_keys_from_pem ssl (tc_private_key tls) (tc_certificate tls) fs = Inr (key, leaf) \<Longrightarrow>
     os_public_eq ssl leaf key = Inr False \<Longrightarrow> handshake_pair ssl li = None"
  by (auto simp: load_tls_config_def handshake_pair_def split: sum.splits prod.splits)

lemma ipv6_shown:
  "show_ipv6 [0, 0, 0, 0, 0, 0, 0, 1] = ''::1''"
  "show_ipv6 [0x2001, 0xdb8, 0, 0, 1, 0, 0, 1] = ''2001:db8::1:0:0:1''"
  by (simp_all add: show_ipv6_def show_segments_def show_hex.simps hex_digit_def digit_def char_of_def bit_0)

lemma ipv6_read:
  "is_ipv6 ''2001:db8::1''" "\<not> is_ipv6 ''1:::2''" "is_ipv6 ''::''" "\<not> is_ipv6 ''1:2:3:4:5:6:7''"
  by (simp_all add: is_ipv6_def starts_with_def groups_in_def split_on_def is_hex_group_def is_ascii_digit_def to_ascii_lowercase_def
      parse_ipv4_def)

end
