(* ===== verification/Text_Bytes.thy ===== *)
theory Text_Bytes
  imports Rust_Std
begin

text \<open>
  Text as the list of its code points, and how the standard library reads bytes as UTF-8
  (\<open>String::from_utf8_lossy\<close>): a replacement character for each longest piece that starts a
  character and does not end one, or for a byte that starts none. What was encoded reads back.
\<close>

section \<open>Code points\<close>

type_synonym code_points = "nat list"

definition REPLACEMENT :: nat where "REPLACEMENT = 0xFFFD"

definition is_surrogate :: "nat \<Rightarrow> bool" where
  "is_surrogate u = (0xD800 \<le> u \<and> u \<le> 0xDFFF)"

definition is_scalar :: "nat \<Rightarrow> bool" where
  "is_scalar n = (n < 0x110000 \<and> \<not> is_surrogate n)"

definition valid_text :: "code_points \<Rightarrow> bool" where
  "valid_text ns = list_all is_scalar ns"

section \<open>UTF-8\<close>

definition utf8_encode :: "nat \<Rightarrow> u8 list" where
  "utf8_encode n = map word_of_nat
     (if n < 0x80 then [n]
      else if n < 0x800 then [0xC0 + n div 64, 0x80 + n mod 64]
      else if n < 0x10000 then [0xE0 + n div 4096, 0x80 + n div 64 mod 64, 0x80 + n mod 64]
      else [0xF0 + n div 262144, 0x80 + n div 4096 mod 64, 0x80 + n div 64 mod 64, 0x80 + n mod 64])"

definition is_continuation :: "nat \<Rightarrow> bool" where
  "is_continuation c = (0x80 \<le> c \<and> c < 0xC0)"

text \<open>A byte past the end counts as nought.\<close>

fun byte_at :: "nat \<Rightarrow> u8 list \<Rightarrow> nat" where
  "byte_at i [] = 0"
| "byte_at 0 (b # bs) = unat b"
| "byte_at (Suc i) (b # bs) = byte_at i bs"

lemma byte_at_simps [simp]:
  "byte_at 1 (b # c # bs) = unat c"
  "byte_at 2 (b # c # d # bs) = unat d"
  "byte_at (Suc 0) (b # c # bs) = unat c"
  by (simp_all add: numeral_2_eq_2)

definition second_of_three :: "nat \<Rightarrow> nat \<Rightarrow> bool" where
  "second_of_three b c = (if b = 0xE0 then 0xA0 \<le> c \<and> c < 0xC0 else if b = 0xED then 0x80 \<le> c \<and> c < 0xA0 else is_continuation c)"

definition second_of_four :: "nat \<Rightarrow> nat \<Rightarrow> bool" where
  "second_of_four b c = (if b = 0xF0 then 0x90 \<le> c \<and> c < 0xC0 else if b = 0xF4 then 0x80 \<le> c \<and> c < 0x90 else is_continuation c)"

definition utf8_first :: "nat \<Rightarrow> nat \<Rightarrow> nat \<Rightarrow> nat \<Rightarrow> nat \<times> nat" where
  "utf8_first b c d e =
     (if b < 0x80 then (1, b)
      else if 0xC2 \<le> b \<and> b < 0xE0 then
        (if is_continuation c then (2, (b - 0xC0) * 64 + (c - 0x80)) else (1, REPLACEMENT))
      else if 0xE0 \<le> b \<and> b < 0xF0 then
        (if \<not> second_of_three b c then (1, REPLACEMENT)
         else if \<not> is_continuation d then (2, REPLACEMENT)
         else (3, (b - 0xE0) * 4096 + (c - 0x80) * 64 + (d - 0x80)))
      else if 0xF0 \<le> b \<and> b < 0xF5 then
        (if \<not> second_of_four b c then (1, REPLACEMENT)
         else if \<not> is_continuation d then (2, REPLACEMENT)
         else if \<not> is_continuation e then (3, REPLACEMENT)
         else (4, (b - 0xF0) * 262144 + (c - 0x80) * 4096 + (d - 0x80) * 64 + (e - 0x80)))
      else (1, REPLACEMENT))"

lemma utf8_first_pos: "0 < fst (utf8_first b c d e)"
  by (simp add: utf8_first_def)

lemma utf8_first_neq: "(n, k) = utf8_first b c d e \<Longrightarrow> \<exists>m. n = Suc m"
  using utf8_first_pos [of b c d e] by (metis fst_conv gr0_implies_Suc)

function utf8_lossy :: "u8 list \<Rightarrow> code_points" where
  "utf8_lossy [] = []"
| "utf8_lossy (b # bs) =
     (case utf8_first (unat b) (byte_at 0 bs) (byte_at 1 bs) (byte_at 2 bs) of
        (n, c) \<Rightarrow> c # utf8_lossy (drop n (b # bs)))"
  by pat_completeness auto
termination
  by (relation "measure length") (auto dest: utf8_first_neq simp: less_Suc_eq_le)

declare utf8_lossy.simps(2) [simp del]

section \<open>What was encoded reads back\<close>

lemma unat_small: "n < 256 \<Longrightarrow> unat (word_of_nat n :: u8) = n"
  by (simp add: unat_of_nat)

lemma utf8_first_two:
  "2 \<le> x \<Longrightarrow> x < 32 \<Longrightarrow> z < 64 \<Longrightarrow> utf8_first (0xC0 + x) (0x80 + z) d e = (2, x * 64 + z)"
  by (simp add: utf8_first_def is_continuation_def)

lemma utf8_first_three:
  assumes "x < 16" and "y < 64" and "z < 64" and "x = 0 \<Longrightarrow> 32 \<le> y" and "x = 13 \<Longrightarrow> y < 32"
  shows "utf8_first (0xE0 + x) (0x80 + y) (0x80 + z) e = (3, x * 4096 + y * 64 + z)"
  using assms by (auto simp: utf8_first_def is_continuation_def second_of_three_def)

lemma utf8_first_four:
  assumes "x \<le> 4" and "w < 64" and "y < 64" and "z < 64" and "x = 0 \<Longrightarrow> 16 \<le> w" and "x = 4 \<Longrightarrow> w < 16"
  shows "utf8_first (0xF0 + x) (0x80 + w) (0x80 + y) (0x80 + z) = (4, x * 262144 + w * 4096 + y * 64 + z)"
  using assms by (auto simp: utf8_first_def is_continuation_def second_of_four_def)

lemma lossy_two:
  "(\<And>d e. utf8_first b c d e = (2, n)) \<Longrightarrow> b < 256 \<Longrightarrow> c < 256 \<Longrightarrow>
     utf8_lossy (word_of_nat b # word_of_nat c # bs) = n # utf8_lossy bs"
  by (simp add: utf8_lossy.simps(2) unat_small)

lemma lossy_three:
  "(\<And>e. utf8_first b c d e = (3, n)) \<Longrightarrow> b < 256 \<Longrightarrow> c < 256 \<Longrightarrow> d < 256 \<Longrightarrow>
     utf8_lossy (word_of_nat b # word_of_nat c # word_of_nat d # bs) = n # utf8_lossy bs"
  by (simp add: utf8_lossy.simps(2) unat_small)

lemma lossy_four:
  "utf8_first b c d e = (4, n) \<Longrightarrow> b < 256 \<Longrightarrow> c < 256 \<Longrightarrow> d < 256 \<Longrightarrow> e < 256 \<Longrightarrow>
     utf8_lossy (word_of_nat b # word_of_nat c # word_of_nat d # word_of_nat e # bs) = n # utf8_lossy bs"
  by (simp add: utf8_lossy.simps(2) unat_small)

lemma utf8_lossy_encode:
  assumes s: "is_scalar n"
  shows "utf8_lossy (utf8_encode n @ bs) = n # utf8_lossy bs"
proof -
  define v x w y z where "v = n div 262144" and "x = n div 4096" and "w = n div 4096 mod 64" and "y = n div 64 mod 64" and "z = n mod 64"
  have b: "w < 64" "y < 64" "z < 64" unfolding w_def y_def z_def by simp_all
  have d: "x = n div 64 div 64" "v = x div 64" unfolding x_def v_def by (simp_all add: div_mult2_eq [symmetric])
  have n2: "n = n div 64 * 64 + z" unfolding z_def by simp
  have "n div 64 = x * 64 + y" unfolding y_def d(1) by simp
  then have n3: "n = x * 4096 + y * 64 + z" using n2 by linarith
  have "x = v * 64 + w" unfolding w_def x_def [symmetric] d(2) by simp
  then have n4: "n = v * 262144 + w * 4096 + y * 64 + z" using n3 by linarith
  consider (one) "n < 0x80" | (two) "0x80 \<le> n" "n < 0x800" | (three) "0x800 \<le> n" "n < 0x10000" | (four) "0x10000 \<le> n"
    by linarith
  then show ?thesis
  proof cases
    case one
    then show ?thesis by (simp add: utf8_encode_def utf8_lossy.simps(2) unat_small utf8_first_def)
  next
    case two
    then have q: "2 \<le> n div 64" "n div 64 < 32" by simp_all
    have "utf8_lossy (word_of_nat (0xC0 + n div 64) # word_of_nat (0x80 + z) # bs) = n # utf8_lossy bs"
      using utf8_first_two [OF q b(3)] n2 q b by (intro lossy_two) simp_all
    then show ?thesis using two by (simp add: utf8_encode_def z_def)
  next
    case three
    have q: "x < 16" using three unfolding x_def by simp
    have f: "x = 0 \<Longrightarrow> 32 \<le> y" using three n3 b by linarith
    have g: "x = 13 \<Longrightarrow> y < 32" using s n3 b unfolding is_scalar_def is_surrogate_def by linarith
    have "utf8_lossy (word_of_nat (0xE0 + x) # word_of_nat (0x80 + y) # word_of_nat (0x80 + z) # bs) = n # utf8_lossy bs"
      using utf8_first_three [OF q b(2,3) f g] n3 q b by (intro lossy_three) simp_all
    then show ?thesis using three by (simp add: utf8_encode_def x_def y_def z_def)
  next
    case four
    have "n \<le> 1114111" using s unfolding is_scalar_def by simp
    then have q: "v \<le> 4" using div_le_mono [of n 1114111 262144] unfolding v_def by simp
    have f: "v = 0 \<Longrightarrow> 16 \<le> w" using four n4 b by linarith
    have g: "v = 4 \<Longrightarrow> w < 16" using s n4 b unfolding is_scalar_def by linarith
    have "utf8_lossy (word_of_nat (0xF0 + v) # word_of_nat (0x80 + w) # word_of_nat (0x80 + y) # word_of_nat (0x80 + z) # bs)
        = n # utf8_lossy bs"
      using utf8_first_four [OF q b f g] n4 q b by (intro lossy_four) simp_all
    then show ?thesis using four by (simp add: utf8_encode_def v_def w_def y_def z_def)
  qed
qed

lemma utf8_lossy_text: "valid_text ns \<Longrightarrow> utf8_lossy (concat (map utf8_encode ns) @ bs) = ns @ utf8_lossy bs"
  unfolding valid_text_def by (induction ns) (simp_all add: utf8_lossy_encode)

end
