(* ===== verification/Serial_Console.thy ===== *)
theory Serial_Console
  imports Legacy_Api Text_Bytes
begin

text \<open>
  The serial consoles of the nodes (\<open>serial_service.rs\<close> and below, the text helpers of \<open>utils.rs\<close>) and
  the keys of the front panel (\<open>app/event_application.rs\<close>, \<open>utils/event_listener.rs\<close>): the worker of a
  port with its buffer and channels, a websocket session, and what presses of a key come to.
  The circular buffer is another crate and a parameter. Text here is the list of its code points.
\<close>

section \<open>Encodings\<close>

text \<open>\<open>char::decode_utf16\<close> with the replacement character for what is unpaired.\<close>

fun decode_utf16 :: "nat list \<Rightarrow> code_points" where
  "decode_utf16 [] = []"
| "decode_utf16 [u] = [if is_surrogate u then REPLACEMENT else u]"
| "decode_utf16 (u # v # us) =
     (if \<not> is_surrogate u then u # decode_utf16 (v # us)
      else if 0xDC00 \<le> u then REPLACEMENT # decode_utf16 (v # us)
      else if v < 0xDC00 \<or> 0xDFFF < v then REPLACEMENT # decode_utf16 (v # us)
      else ((u - 0xD800) * 1024 + (v - 0xDC00) + 0x10000) # decode_utf16 us)"

fun u16s_of :: "bool \<Rightarrow> u8 list \<Rightarrow> nat list" where
  "u16s_of little_endian (a # b # bs) =
     (if little_endian then unat a + 256 * unat b else 256 * unat a + unat b) # u16s_of little_endian bs"
| "u16s_of little_endian _ = []"

definition string_from_utf16 :: "bool \<Rightarrow> u8 list \<Rightarrow> code_points" where
  "string_from_utf16 little_endian bytes =
     decode_utf16 (u16s_of little_endian bytes) @ (if length bytes mod 2 = 1 then [REPLACEMENT] else [])"

definition char_from_u32 :: "nat \<Rightarrow> nat option" where
  "char_from_u32 n = (if is_scalar n then Some n else None)"

definition scalar_of :: "bool \<Rightarrow> u8 \<Rightarrow> u8 \<Rightarrow> u8 \<Rightarrow> u8 \<Rightarrow> nat" where
  "scalar_of little_endian a b c d =
     (if little_endian then unat a + 256 * (unat b + 256 * (unat c + 256 * unat d))
      else unat d + 256 * (unat c + 256 * (unat b + 256 * unat a)))"

fun string_from_utf32 :: "bool \<Rightarrow> u8 list \<Rightarrow> code_points" where
  "string_from_utf32 little_endian [] = []"
| "string_from_utf32 little_endian (a # b # c # d # bs) =
     (case char_from_u32 (scalar_of little_endian a b c d) of Some n \<Rightarrow> n | None \<Rightarrow> REPLACEMENT) # string_from_utf32 little_endian bs"
| "string_from_utf32 little_endian _ = [REPLACEMENT]"

datatype encoding = EncUtf8 | EncUtf16 bool | EncUtf32 bool

definition get_encoding_param :: "query \<Rightarrow> encoding legacy_result" where
  "get_encoding_param q =
     (case map_of q ''encoding'' of
        None \<Rightarrow> Inr EncUtf8
      | Some e \<Rightarrow>
          if e = ''utf8'' then Inr EncUtf8
          else if e = ''utf16'' \<or> e = ''utf16le'' then Inr (EncUtf16 True)
          else if e = ''utf16be'' then Inr (EncUtf16 False)
          else if e = ''utf32'' \<or> e = ''utf32le'' then Inr (EncUtf32 True)
          else if e = ''utf32be'' then Inr (EncUtf32 False)
          else Inl (bad_request ''Invalid `encoding` parameter''))"

section \<open>The worker of a port\<close>

text \<open>A worker holds the receiving end of a queue; its sending ends are the one of the handler and
  those of the open channels. The handler also keeps a weak reference to the last one.\<close>

record uart_worker =
  uw_alive :: bool
  uw_queue :: "u8 list list"
  uw_sinks :: nat

record uart_handler =
  uh_ring :: "u8 list"
  uh_context :: "nat option"
  uh_writer :: "nat option"
  uh_workers :: "uart_worker list"
  uh_line :: "u8 list"

datatype serial_error = SerialNotStarted | SerialAlreadyRunning | SerialStopped | SerialSendError | SerialPort string

datatype handler_state = HsInitialized | HsRunning | HsStopped

definition uart_new :: uart_handler where
  "uart_new = \<lparr>uh_ring = [], uh_context = None, uh_writer = None, uh_workers = [], uh_line = []\<rparr>"

definition uart_alive :: "nat \<Rightarrow> uart_handler \<Rightarrow> bool" where
  "uart_alive i h = (i < length (uh_workers h) \<and> uw_alive (uh_workers h ! i))"

definition has_sender :: "nat \<Rightarrow> uart_handler \<Rightarrow> bool" where
  "has_sender i h = (uh_context h = Some i \<or> (i < length (uh_workers h) \<and> 0 < uw_sinks (uh_workers h ! i)))"

definition uart_get_state :: "uart_handler \<Rightarrow> handler_state" where
  "uart_get_state h =
     (case uh_context h of
        Some i \<Rightarrow> if \<not> uart_alive i h then HsStopped else HsRunning
      | None \<Rightarrow> HsInitialized)"

text \<open>\<open>port\<close> is what opening the port gives.\<close>

definition uart_run :: "(string, unit) result \<Rightarrow> uart_handler \<Rightarrow> (serial_error, unit) result \<times> uart_handler" where
  "uart_run port h =
     (if uh_context h \<noteq> None then (Inl SerialAlreadyRunning, h\<lparr>uh_context := None\<rparr>)
      else (case port of
              Inl e \<Rightarrow> (Inl (SerialPort e), h)
            | Inr _ \<Rightarrow>
                (let i = length (uh_workers h)
                 in (Inr (), h\<lparr>uh_context := Some i, uh_writer := Some i,
                       uh_workers := uh_workers h @ [\<lparr>uw_alive = True, uw_queue = [], uw_sinks = 0\<rparr>]\<rparr>))))"

definition set_worker :: "nat \<Rightarrow> (uart_worker \<Rightarrow> uart_worker) \<Rightarrow> uart_handler \<Rightarrow> uart_handler" where
  "set_worker i f h = h\<lparr>uh_workers := (uh_workers h)[i := f (uh_workers h ! i)]\<rparr>"

definition open_channel :: "uart_handler \<Rightarrow> (serial_error, nat) result \<times> uart_handler" where
  "open_channel h =
     (case uh_context h of
        None \<Rightarrow> (Inl SerialNotStarted, h)
      | Some i \<Rightarrow> (Inr i, set_worker i (\<lambda>w. w\<lparr>uw_sinks := uw_sinks w + 1\<rparr>) h))"

definition uart_write :: "u8 list \<Rightarrow> uart_handler \<Rightarrow> (serial_error, unit) result \<times> uart_handler" where
  "uart_write bytes h =
     (case uh_writer h of
        None \<Rightarrow> (Inl SerialNotStarted, h)
      | Some i \<Rightarrow>
          if \<not> has_sender i h then (Inl SerialStopped, h)
          else if \<not> uart_alive i h then (Inl SerialSendError, h)
          else (Inr (), set_worker i (\<lambda>w. w\<lparr>uw_queue := uw_queue w @ [bytes]\<rparr>) h))"

definition read_whole_buffer :: "uart_handler \<Rightarrow> (serial_error, u8 list) result" where
  "read_whole_buffer h = (case uh_context h of None \<Rightarrow> Inl SerialNotStarted | Some _ \<Rightarrow> Inr (uh_ring h))"

definition read_as_string :: "encoding \<Rightarrow> uart_handler \<Rightarrow> (serial_error, code_points) result" where
  "read_as_string enc h =
     (case read_whole_buffer h of
        Inl e \<Rightarrow> Inl e
      | Inr bytes \<Rightarrow>
          Inr (case enc of
                 EncUtf8 \<Rightarrow> utf8_lossy bytes
               | EncUtf16 little_endian \<Rightarrow> string_from_utf16 little_endian bytes
               | EncUtf32 little_endian \<Rightarrow> string_from_utf32 little_endian bytes))"

text \<open>One turn of the loop of a worker: a queued chunk is sent (an error of the port is only logged),
  the queue is over, a chunk is read, or the stream ends.\<close>

datatype uart_event = QueueReady bool | QueueOver | PortRead "u8 list" | PortEnded | SinkDropped

definition uart_turn :: "(u8 list \<Rightarrow> u8 list \<Rightarrow> u8 list) \<Rightarrow> nat \<Rightarrow> uart_event \<Rightarrow> uart_handler \<Rightarrow> uart_handler" where
  "uart_turn ring_write i ev h =
     (if \<not> i < length (uh_workers h) then h
      else (case ev of
              SinkDropped \<Rightarrow> set_worker i (\<lambda>w. w\<lparr>uw_sinks := uw_sinks w - 1\<rparr>) h
            | _ \<Rightarrow>
                if \<not> uart_alive i h then h
                else (case ev of
                        QueueReady sent \<Rightarrow>
                          (case uw_queue (uh_workers h ! i) of
                             [] \<Rightarrow> h
                           | data # rest \<Rightarrow>
                               (set_worker i (\<lambda>w. w\<lparr>uw_queue := rest\<rparr>) h)
                                 \<lparr>uh_line := uh_line h @ (if sent then data else [])\<rparr>)
                      | QueueOver \<Rightarrow>
                          if uw_queue (uh_workers h ! i) = [] \<and> \<not> has_sender i h
                          then set_worker i (\<lambda>w. w\<lparr>uw_alive := False\<rparr>) h else h
                      | PortRead bytes \<Rightarrow> h\<lparr>uh_ring := ring_write (uh_ring h) bytes\<rparr>
                      | PortEnded \<Rightarrow> set_worker i (\<lambda>w. w\<lparr>uw_alive := False\<rparr>) h
                      | SinkDropped \<Rightarrow> h)))"

section \<open>The handlers of the legacy endpoint\<close>

definition of_serial_error :: "serial_error \<Rightarrow> nat" where
  "of_serial_error e = 500"

definition serial_set_data :: "string \<Rightarrow> u8 list" where
  "serial_set_data cmd = file_bytes (Utf8 cmd) @ [13, 10]"

definition legacy_serial_set :: "query \<Rightarrow> uart_handler list \<Rightarrow> (nat, unit) result \<times> uart_handler list" where
  "legacy_serial_set q hs =
     (case get_node_param q of
        Inl (status, _) \<Rightarrow> (Inl status, hs)
      | Inr node \<Rightarrow>
          (case map_of q ''cmd'' of
             None \<Rightarrow> (Inl 400, hs)
           | Some cmd \<Rightarrow>
               (let i = node_index node
                in case uart_write (serial_set_data cmd) (hs ! i) of
                     (Inl e, h) \<Rightarrow> (Inl (of_serial_error e), hs[i := h])
                   | (Inr _, h) \<Rightarrow> (Inr (), hs[i := h]))))"

definition legacy_serial_get :: "query \<Rightarrow> uart_handler list \<Rightarrow> (nat, code_points) result" where
  "legacy_serial_get q hs =
     (case get_node_param q of
        Inl (status, _) \<Rightarrow> Inl status
      | Inr node \<Rightarrow>
          (case get_encoding_param q of
             Inl (status, _) \<Rightarrow> Inl status
           | Inr enc \<Rightarrow>
               (case read_as_string enc (hs ! node_index node) of
                  Inl e \<Rightarrow> Inl (of_serial_error e)
                | Inr text' \<Rightarrow> Inr text')))"

definition get_serial_devices :: "string option \<Rightarrow> string list" where
  "get_serial_devices device_type =
     (if device_type = Some ''uart3'' then [''/dev/ttyS2'', ''/dev/ttyS1'', ''/dev/ttyS4'', ''/dev/ttyS5'']
      else [''/dev/ttyS1'', ''/dev/ttyS2'', ''/dev/ttyS3'', ''/dev/ttyS4''])"

section \<open>A websocket session\<close>

definition CLIENT_TIMEOUT :: duration where "CLIENT_TIMEOUT = from_secs 30"

datatype close_code = CloseNormal | CloseError | CloseProtocol | CloseUnsupported | CloseByPeer

datatype ws_message = WsText string | WsBinary "u8 list" | WsContinuation | WsPing "u8 list" | WsPong | WsClose bool | WsNop

datatype ws_task = WsCommand ws_message | WsProtocolError | WsTick | WsData "u8 list" | WsDataFailed | WsOver

datatype ws_output = ToSerial "u8 list" | ToClient "u8 list" | PingClient | PongClient "u8 list"

text \<open>One task of the loop, at a time, with whether the end it writes to takes the data: what is
  written, the heartbeat, and the code the session closes with if it does. A close frame of the
  client may carry no reason.\<close>

definition if_taken :: "bool \<Rightarrow> close_code \<Rightarrow> ws_output \<Rightarrow> instant \<Rightarrow> ws_output list \<times> instant \<times> close_code option" where
  "if_taken taken code out hb = (if taken then ([out], hb, None) else ([], hb, Some code))"

fun message_stream_handler :: "instant \<Rightarrow> bool \<Rightarrow> ws_message \<Rightarrow> instant \<Rightarrow> ws_output list \<times> instant \<times> close_code option" where
  "message_stream_handler now taken (WsText text') hb = if_taken taken CloseError (ToSerial (file_bytes (Utf8 text'))) hb"
| "message_stream_handler now taken (WsBinary bytes) hb = if_taken taken CloseError (ToSerial bytes) hb"
| "message_stream_handler now taken WsContinuation hb = ([], hb, Some CloseUnsupported)"
| "message_stream_handler now taken (WsPing bytes) hb = if_taken taken CloseNormal (PongClient bytes) now"
| "message_stream_handler now taken WsPong hb = ([], now, None)"
| "message_stream_handler now taken (WsClose given) hb = ([], hb, Some (if given then CloseByPeer else CloseNormal))"
| "message_stream_handler now taken WsNop hb = ([], hb, None)"

definition verify_heartbeat :: "instant \<Rightarrow> bool \<Rightarrow> instant \<Rightarrow> ws_output list \<times> instant \<times> close_code option" where
  "verify_heartbeat now taken hb =
     (if CLIENT_TIMEOUT < now - hb then ([], hb, Some CloseError)
      else (if taken then [PingClient] else [], hb, None))"

fun handle_task :: "instant \<Rightarrow> bool \<Rightarrow> ws_task \<Rightarrow> instant \<Rightarrow> ws_output list \<times> instant \<times> close_code option" where
  "handle_task now taken (WsCommand msg) hb = message_stream_handler now taken msg hb"
| "handle_task now taken WsProtocolError hb = ([], hb, Some CloseProtocol)"
| "handle_task now taken WsTick hb = verify_heartbeat now taken hb"
| "handle_task now taken (WsData bytes) hb = if_taken taken CloseNormal (ToClient bytes) hb"
| "handle_task now taken WsDataFailed hb = ([], hb, Some CloseError)"
| "handle_task now taken WsOver hb = ([], hb, Some CloseNormal)"

fun run_websocket :: "instant \<Rightarrow> (instant \<times> bool \<times> ws_task) list \<Rightarrow> ws_output list \<times> close_code option" where
  "run_websocket hb [] = ([], None)"
| "run_websocket hb ((now, taken, task) # rest) =
     (case handle_task now taken task hb of
        (out, hb, Some code) \<Rightarrow> (out, Some code)
      | (out, hb, None) \<Rightarrow> (case run_websocket hb rest of (outs, c) \<Rightarrow> (out @ outs, c)))"

section \<open>The keys of the front panel\<close>

datatype key_event = Key1Pressed | Key1Released | KeyPower | KeyRestart | OtherKeyEvent

datatype key_action = TogglePower bool | RebootBoard

text \<open>A press of the first key starts a task that waits three seconds for a word of its release; the
  listener keeps the end that gives it. Another press replaces that end, which ends the wait of
  the former task. \<open>held\<close> is the time of the press whose end is kept, if it was not used.\<close>

definition LONG_PRESS :: duration where "LONG_PRESS = from_secs 3"

definition press_ends :: "instant option \<Rightarrow> instant \<Rightarrow> key_action list" where
  "press_ends held now = (case held of None \<Rightarrow> [] | Some t \<Rightarrow> [TogglePower (LONG_PRESS \<le> now - t)])"

fun key_run :: "instant option \<Rightarrow> (instant \<times> key_event) list \<Rightarrow> key_action list" where
  "key_run held [] = (case held of None \<Rightarrow> [] | Some t \<Rightarrow> [TogglePower True])"
| "key_run held ((now, Key1Pressed) # es) = press_ends held now @ key_run (Some now) es"
| "key_run held ((now, Key1Released) # es) = press_ends held now @ key_run None es"
| "key_run held ((now, KeyPower) # es) = TogglePower False # key_run held es"
| "key_run held ((now, KeyRestart) # es) = RebootBoard # key_run held es"
| "key_run held ((now, OtherKeyEvent) # es) = key_run held es"

section \<open>What a console shows\<close>

fun encode_utf16 :: "nat \<Rightarrow> nat list" where
  "encode_utf16 n =
     (if n < 0x10000 then [n] else [0xD800 + (n - 0x10000) div 1024, 0xDC00 + (n - 0x10000) mod 1024])"

definition u16_bytes :: "bool \<Rightarrow> nat \<Rightarrow> u8 list" where
  "u16_bytes little_endian u =
     (if little_endian then [word_of_nat (u mod 256), word_of_nat (u div 256)]
      else [word_of_nat (u div 256), word_of_nat (u mod 256)])"

lemma u16s_of_bytes: "list_all (\<lambda>u. u < 65536) us \<Longrightarrow> u16s_of le (concat (map (u16_bytes le) us)) = us"
proof (induction us)
  case (Cons u us)
  have "u div 256 < 256" using Cons.prems by (simp add: less_mult_imp_div_less)
  then show ?case using Cons by (cases le) (simp_all add: u16_bytes_def unat_small)
qed simp

lemma length_u16_bytes: "length (concat (map (u16_bytes le) us)) mod 2 = 0"
  by (induction us) (auto simp: u16_bytes_def)

lemma decode_plain: "\<not> is_surrogate u \<Longrightarrow> decode_utf16 (u # us) = u # decode_utf16 us"
  by (cases us) simp_all

lemma decode_surrogates:
  "q < 1024 \<Longrightarrow> r < 1024 \<Longrightarrow> decode_utf16 ((0xD800 + q) # (0xDC00 + r) # us) = (q * 1024 + r + 0x10000) # decode_utf16 us"
  by (simp add: is_surrogate_def)

lemma decode_pair:
  assumes "0x10000 \<le> n" and "n < 0x110000"
  shows "decode_utf16 ((0xD800 + (n - 0x10000) div 1024) # (0xDC00 + (n - 0x10000) mod 1024) # us) = n # decode_utf16 us"
proof -
  have "(n - 0x10000) div 1024 * 1024 + (n - 0x10000) mod 1024 + 0x10000 = n" using assms(1) by simp
  moreover have "(n - 0x10000) div 1024 < 1024" using assms by (simp add: less_mult_imp_div_less)
  ultimately show ?thesis using decode_surrogates [of "(n - 0x10000) div 1024" "(n - 0x10000) mod 1024" us] by simp
qed

lemma decode_encode: "valid_text ns \<Longrightarrow> decode_utf16 (concat (map encode_utf16 ns)) = ns"
  unfolding valid_text_def by (induction ns) (auto simp: is_scalar_def decode_plain decode_pair simp del: decode_utf16.simps(2,3))

lemma encode_bound: "valid_text ns \<Longrightarrow> list_all (\<lambda>u. u < 65536) (concat (map encode_utf16 ns))"
proof -
  have "(n - 0x10000) div 1024 < 1024" if "n < 0x110000" for n :: nat using that by (simp add: less_mult_imp_div_less)
  then show "valid_text ns \<Longrightarrow> ?thesis"
    unfolding valid_text_def is_scalar_def by (induction ns) (fastforce simp: add.commute intro: add_less_le_mono)+
qed

lemma utf16_read: "valid_text ns \<Longrightarrow> string_from_utf16 le (concat (map (u16_bytes le) (concat (map encode_utf16 ns)))) = ns"
  by (simp add: string_from_utf16_def u16s_of_bytes encode_bound decode_encode length_u16_bytes)

definition u32_bytes :: "bool \<Rightarrow> nat \<Rightarrow> u8 list" where
  "u32_bytes little_endian n =
     (let bs = map word_of_nat [n div 16777216, n div 65536 mod 256, n div 256 mod 256, n mod 256]
      in if little_endian then rev bs else bs)"

lemma scalar_of_bytes:
  assumes "n < 0x110000"
  shows "string_from_utf32 le (u32_bytes le n @ bs) = (case char_from_u32 n of Some n \<Rightarrow> n | None \<Rightarrow> REPLACEMENT) # string_from_utf32 le bs"
proof -
  define a b c where "a = n div 256" and "b = a div 256" and "c = b div 256"
  have d: "n div 65536 = b" "n div 16777216 = c" unfolding a_def b_def c_def by (simp_all add: div_mult2_eq [symmetric])
  have "c < 1" using assms unfolding a_def b_def c_def by (simp add: less_mult_imp_div_less)
  have "256 * c + b mod 256 = b" "256 * b + a mod 256 = a" "256 * a + n mod 256 = n" unfolding a_def b_def c_def by simp_all
  then have "256 * (256 * (256 * c + b mod 256) + a mod 256) + n mod 256 = n" by metis
  then show ?thesis
    using \<open>c < 1\<close> by (cases le) (simp_all add: u32_bytes_def scalar_of_def unat_small d a_def [symmetric] algebra_simps)
qed

lemma utf32_read: "valid_text ns \<Longrightarrow> string_from_utf32 le (concat (map (u32_bytes le) ns)) = ns"
  unfolding valid_text_def by (induction ns) (simp_all add: scalar_of_bytes char_from_u32_def is_scalar_def)

fun encode_text :: "encoding \<Rightarrow> code_points \<Rightarrow> u8 list" where
  "encode_text EncUtf8 ns = concat (map utf8_encode ns)"
| "encode_text (EncUtf16 le) ns = concat (map (u16_bytes le) (concat (map encode_utf16 ns)))"
| "encode_text (EncUtf32 le) ns = concat (map (u32_bytes le) ns)"

text \<open>A console is shown as it was printed: when the buffer of a node holds a text in one of the
  encodings, surrogate pairs included, the request that names the node and that encoding is
  answered with that text.\<close>

theorem console_shows_text:
  assumes "get_node_param q = Inr node" and "get_encoding_param q = Inr enc"
    and "uh_context (hs ! node_index node) = Some i" and "valid_text ns"
    and "uh_ring (hs ! node_index node) = encode_text enc ns"
  shows "legacy_serial_get q hs = Inr ns"
  using assms utf16_read utf32_read utf8_lossy_text [of ns "[]"]
  by (cases enc) (simp_all add: legacy_serial_get_def read_as_string_def read_whole_buffer_def)

theorem console_shows_text_witness:
  "legacy_serial_get [(''node'', ''1''), (''encoding'', ''utf16le'')]
     [uart_new, uart_new\<lparr>uh_ring := encode_text (EncUtf16 True) [0x48, 0x1F600], uh_context := Some 0\<rparr>, uart_new, uart_new]
   = Inr [0x48, 0x1F600]"
proof -
  have "parse_i32 ''1'' = Some 1"
    by (simp add: parse_i32_def parse_sint_def parse_uint_def is_ascii_digit_def dec_value_def)
  then have "get_node_param [(''node'', ''1''), (''encoding'', ''utf16le'')] = Inr Node2"
    by (simp add: get_node_param_def node_try_from_i32_def node_try_from_u8_def)
  then show ?thesis
    by (intro console_shows_text [where enc = "EncUtf16 True" and i = 0 and node = Node2])
      (simp_all add: valid_text_def is_scalar_def is_surrogate_def get_encoding_param_def)
qed

text \<open>What is no text in that encoding is shown all the same: a byte that starts no character, or a
  character that is cut off, is one replacement.\<close>

lemma garbage_is_shown:
  "utf8_lossy [0x48, 0xFF, 0xE2, 0x82, 0x49] = [0x48, REPLACEMENT, REPLACEMENT, 0x49]"
  by (simp add: utf8_lossy.simps(2) utf8_first_def is_continuation_def second_of_three_def)

text \<open>A second start is refused, and forgets the worker that runs: the handler then answers as if it
  had never been started.\<close>

lemma second_run_forgets:
  assumes "uart_get_state h = HsRunning"
  shows "\<exists>h'. uart_run port h = (Inl SerialAlreadyRunning, h') \<and> uart_get_state h' = HsInitialized
    \<and> read_whole_buffer h' = Inl SerialNotStarted"
  using assms by (cases "uh_context h") (simp_all add: uart_get_state_def uart_run_def read_whole_buffer_def)

text \<open>A write after the worker ended is not told so: the handler's own sending end still counts.\<close>

lemma write_after_end:
  "uart_get_state h = HsStopped \<Longrightarrow> uh_writer h = uh_context h \<Longrightarrow> fst (uart_write bytes h) = Inl SerialSendError"
  by (auto simp: uart_get_state_def uart_write_def has_sender_def split: option.splits if_splits)

text \<open>Every press of the first key toggles the power once, and so does every press of the power key.\<close>

definition key_presses :: "(instant \<times> key_event) list \<Rightarrow> nat" where
  "key_presses es = length (filter (\<lambda>(_, e). e = Key1Pressed \<or> e = KeyPower) es)"

lemma every_press_toggles:
  "length (filter (\<lambda>a. a \<noteq> RebootBoard) (key_run held es)) = key_presses es + (if held = None then 0 else 1)"
proof (induction held es rule: key_run.induct)
  case (1 held)
  then show ?case by (cases held) (simp_all add: key_presses_def)
qed (simp_all add: key_presses_def press_ends_def split: option.splits)

lemma long_press_is_three_seconds:
  "key_run None [(t, Key1Pressed), (t', Key1Released)] = [TogglePower (LONG_PRESS \<le> t' - t)]"
  by (simp add: press_ends_def)

text \<open>What a client types before its session closes reaches the line in its order.\<close>

definition typed :: "ws_output list \<Rightarrow> u8 list" where
  "typed outs = concat (map (\<lambda>out. case out of ToSerial bytes \<Rightarrow> bytes | _ \<Rightarrow> []) outs)"

lemma typed_in_order:
  "list_all (\<lambda>(_, taken, task). taken \<and> (\<exists>bytes. task = WsCommand (WsBinary bytes))) ts \<Longrightarrow>
     typed (fst (run_websocket hb ts)) = concat (map (\<lambda>(_, _, task). case task of WsCommand (WsBinary bytes) \<Rightarrow> bytes | _ \<Rightarrow> []) ts)"
  by (induction ts arbitrary: hb) (auto simp: if_taken_def typed_def case_prod_unfold)

end
