(* ===== verification/Update_Check.thy ===== *)
theory Update_Check
  imports Legacy_Api
begin

text \<open>
  Whether a newer firmware is out (\<open>app/update_check.rs\<close>): the answer of the updater for the two
  channels and the cache before it; and what a browser may keep of the interface (\<open>web_ui.rs\<close>). The
  updater is its output and the JSON reader a parameter. The lock is held over the whole call, so
  calls are one after another.
\<close>

section \<open>The updater\<close>

definition FRESH :: duration where "FRESH = from_secs 3600"
definition FRESH_AFTER_ERROR :: duration where "FRESH_AFTER_ERROR = from_secs 300"

record channel_state =
  ch_channel :: string
  ch_repo :: string
  ch_running :: string
  ch_target :: string
  ch_update_available :: bool

datatype resolve_error = CannotRunUpdater string | CannotParse string string | UpdaterSaid string string | CheckTaskFailed

record update_check =
  uc_checked_at :: string
  uc_stable :: "channel_state option"
  uc_edge :: "channel_state option"
  uc_errors :: "resolve_error list"

record cached_check =
  cc_at :: instant
  cc_value :: update_check
  cc_ok :: bool

definition resolve_channel :: "(string \<Rightarrow> (string, channel_state) result) \<Rightarrow> string \<Rightarrow> child_output \<Rightarrow> (resolve_error, channel_state) result" where
  "resolve_channel from_json channel out =
     (case out of
        ChildFailed e \<Rightarrow> Inl (CannotRunUpdater e)
      | ChildEnded _ stdout stderr \<Rightarrow>
          (case List.find (\<lambda>l. starts_with ''{'' (dropWhile is_whitespace l)) (lines stdout) of
             Some line \<Rightarrow> (case from_json line of Inl e \<Rightarrow> Inl (CannotParse channel e) | Inr s \<Rightarrow> Inr s)
           | None \<Rightarrow>
               Inl (UpdaterSaid channel (trim (if lines stderr = [] then ''no output'' else last (lines stderr))))))"

text \<open>What one call finds: the time, what the updater answers for the channels (or that the task was
  lost), and the time and its text when they have answered.\<close>

record check_call =
  ck_now :: instant
  ck_answers :: "(child_output \<times> child_output) option"
  ck_done :: instant
  ck_done_text :: string

definition channel_answers :: "(string \<Rightarrow> (string, channel_state) result) \<Rightarrow> check_call
    \<Rightarrow> (resolve_error, channel_state) result \<times> (resolve_error, channel_state) result" where
  "channel_answers from_json ck =
     (case ck_answers ck of
        None \<Rightarrow> (Inl CheckTaskFailed, Inl CheckTaskFailed)
      | Some (s, e) \<Rightarrow> (resolve_channel from_json ''stable'' s, resolve_channel from_json ''edge'' e))"

definition errors_of :: "(resolve_error, 'a) result \<Rightarrow> resolve_error list" where
  "errors_of r = (case r of Inl e \<Rightarrow> [e] | Inr _ \<Rightarrow> [])"

definition ask_updater :: "(string \<Rightarrow> (string, channel_state) result) \<Rightarrow> check_call \<Rightarrow> update_check" where
  "ask_updater from_json ck =
     (case channel_answers from_json ck of
        (s, e) \<Rightarrow>
          \<lparr>uc_checked_at = ck_done_text ck, uc_stable = result_ok s, uc_edge = result_ok e,
           uc_errors = errors_of s @ errors_of e\<rparr>)"

definition still_fresh :: "instant \<Rightarrow> cached_check \<Rightarrow> bool" where
  "still_fresh now c = (now - cc_at c < (if cc_ok c then FRESH else FRESH_AFTER_ERROR))"

definition get_check :: "(string \<Rightarrow> (string, channel_state) result) \<Rightarrow> check_call \<Rightarrow> cached_check option
    \<Rightarrow> update_check \<times> cached_check option" where
  "get_check from_json ck cache =
     (case cache of
        Some c \<Rightarrow>
          if still_fresh (ck_now ck) c then (cc_value c, cache)
          else (let v = ask_updater from_json ck in (v, Some \<lparr>cc_at = ck_done ck, cc_value = v, cc_ok = (uc_errors v = [])\<rparr>))
      | None \<Rightarrow>
          (let v = ask_updater from_json ck in (v, Some \<lparr>cc_at = ck_done ck, cc_value = v, cc_ok = (uc_errors v = [])\<rparr>)))"

fun get_checks :: "(string \<Rightarrow> (string, channel_state) result) \<Rightarrow> check_call list \<Rightarrow> cached_check option
    \<Rightarrow> update_check list \<times> cached_check option" where
  "get_checks from_json [] cache = ([], cache)"
| "get_checks from_json (ck # cks) cache =
     (case get_check from_json ck cache of
        (v, cache) \<Rightarrow> (case get_checks from_json cks cache of (vs, cache) \<Rightarrow> (v # vs, cache)))"

section \<open>The files of the interface\<close>

definition ASSETS :: string where "ASSETS = ''/assets/''"

definition cache_control :: "string \<Rightarrow> string" where
  "cache_control p = (if starts_with ASSETS p then ''public, max-age=31536000, immutable'' else ''no-cache'')"

datatype ui_answer = UiNotFound | UiIndex string | UiIoError

text \<open>\<open>index\<close> says whether \<open>index.html\<close> can be opened.\<close>

definition ui_fallback :: "bool \<Rightarrow> string \<Rightarrow> ui_answer" where
  "ui_fallback index p = (if starts_with ASSETS p then UiNotFound else if index then UiIndex ''no-cache'' else UiIoError)"

text \<open>The wrapper sets the header of an answer that succeeded (or was not modified) and has none.\<close>

definition ui_header :: "nat \<Rightarrow> string option \<Rightarrow> string \<Rightarrow> string option" where
  "ui_header status present p =
     (if (200 \<le> status \<and> status < 300) \<or> status = 304
      then (case present of Some h \<Rightarrow> Some h | None \<Rightarrow> Some (cache_control p)) else present)"

section \<open>Facts\<close>

definition cache_sound :: "(string \<Rightarrow> (string, channel_state) result) \<Rightarrow> check_call list \<Rightarrow> cached_check option \<Rightarrow> bool" where
  "cache_sound from_json cks cache =
     (\<forall>c. cache = Some c \<longrightarrow> (\<exists>ck \<in> set cks. cc_at c = ck_done ck \<and> cc_value c = ask_updater from_json ck)
        \<and> cc_ok c = (uc_errors (cc_value c) = []))"

lemma get_check_sound:
  assumes "cache_sound from_json past cache" and "get_check from_json ck cache = (v, cache')"
  shows "cache_sound from_json (past @ [ck]) cache'"
    and "v = ask_updater from_json ck \<or>
      (\<exists>ck' \<in> set past. v = ask_updater from_json ck' \<and> ck_now ck - ck_done ck' < (if uc_errors v = [] then FRESH else FRESH_AFTER_ERROR))"
  using assms by (auto simp: get_check_def cache_sound_def still_fresh_def Let_def split: option.splits if_splits)

text \<open>Every answer is what the updater says now, or what it said at an earlier call less than an hour
  ago, and an answer with an error less than five minutes ago.\<close>

lemma length_get_checks: "length (fst (get_checks from_json cks cache)) = length cks"
  by (induction cks arbitrary: cache) (simp_all add: case_prod_unfold)

lemma answers_are_fresh:
  assumes "get_checks from_json cks cache = (vs, cache')" and "cache_sound from_json past cache"
    and "i < length cks"
  shows "length vs = length cks \<and> (vs ! i = ask_updater from_json (cks ! i) \<or>
    (\<exists>ck' \<in> set (past @ take i cks). vs ! i = ask_updater from_json ck'
       \<and> ck_now (cks ! i) - ck_done ck' < (if uc_errors (vs ! i) = [] then FRESH else FRESH_AFTER_ERROR)))"
  using assms
proof (induction cks arbitrary: cache vs past i)
  case (Cons ck cks)
  obtain v c1 where g: "get_check from_json ck cache = (v, c1)" by fastforce
  obtain ws where r: "get_checks from_json cks c1 = (ws, cache')" and vs: "vs = v # ws"
    using Cons.prems(1) g by (auto split: prod.splits)
  note s = get_check_sound [OF Cons.prems(2) g]
  show ?case
  proof (cases i)
    case 0
    have "length ws = length cks"
      using length_get_checks [of from_json cks c1] r by simp
    then show ?thesis using s(2) 0 vs by simp
  next
    case (Suc j)
    then show ?thesis using Cons.IH [OF r s(1), of j] Cons.prems(3) vs by (simp add: Un_commute)
  qed
qed simp

lemma assets_are_kept:
  "starts_with ASSETS p \<Longrightarrow> ui_fallback index p = UiNotFound \<and> ui_header 200 None p = Some ''public, max-age=31536000, immutable''"
  by (simp add: ui_fallback_def ui_header_def cache_control_def)

end
