(* ===== verification/Board_Info.thy ===== *)
theory Board_Info
  imports Persistency Text_Bytes Tls_Api
begin

unbundle bit_operations_syntax

text \<open>
  The header in the EEPROM of the board (\<open>board_info/src/board_info.rs\<close>): its layout in fifty bytes,
  the setters, reading, checking and writing it, and its fields as text. The bus is its directory
  and the memories in it; a memory takes bytes up to a limit and may be emptied when it is opened
  for writing. The checksum, the calendar and the reader of hexadecimal are other crates and
  parameters. The pause between two bytes and what is printed are not modelled.
\<close>

section \<open>Numbers in bytes\<close>

definition put_u16 :: "u16 \<Rightarrow> u8 list" where
  "put_u16 w = [word_of_nat (unat w div 256), word_of_nat (unat w mod 256)]"

definition put_u16_le :: "u16 \<Rightarrow> u8 list" where
  "put_u16_le w = [word_of_nat (unat w mod 256), word_of_nat (unat w div 256)]"

definition put_u32 :: "u32 \<Rightarrow> u8 list" where
  "put_u32 w = map word_of_nat (octets w)"

fun get_u16 :: "u8 list \<Rightarrow> u16" where
  "get_u16 (a # b # bs) = word_of_nat (unat a * 256 + unat b)"
| "get_u16 bs = 0"

fun get_u16_le :: "u8 list \<Rightarrow> u16" where
  "get_u16_le (a # b # bs) = word_of_nat (unat b * 256 + unat a)"
| "get_u16_le bs = 0"

definition get_u32 :: "u8 list \<Rightarrow> u32" where
  "get_u32 bs = fst (u32_of bs)"

section \<open>The header\<close>

definition BOARDINFO_SIZE :: nat where "BOARDINFO_SIZE = 50"
definition HEADER_VER :: u16 where "HEADER_VER = 1"

record board_info =
  brd_reserved :: u16
  brd_crc32 :: u32
  brd_hdr_version :: u16
  brd_hw_version :: u16
  brd_factory_date :: u16
  brd_factory_serial :: "u8 list"
  brd_product_name :: "u8 list"
  brd_mac :: "u8 list"

text \<open>\<open>None\<close> is the panic on fewer bytes than the header has.\<close>

definition brd_from_bytes :: "u8 list \<Rightarrow> board_info option" where
  "brd_from_bytes bytes =
     (if length bytes < BOARDINFO_SIZE then None
      else Some \<lparr>brd_reserved = get_u16 bytes, brd_crc32 = get_u32 (drop 2 bytes),
                 brd_hdr_version = get_u16_le (drop 6 bytes), brd_hw_version = get_u16_le (drop 8 bytes),
                 brd_factory_date = get_u16_le (drop 10 bytes), brd_factory_serial = take 16 (drop 12 bytes),
                 brd_product_name = take 16 (drop 28 bytes), brd_mac = take 6 (drop 44 bytes)\<rparr>)"

definition zero_padded :: "nat \<Rightarrow> u8 list \<Rightarrow> u8 list" where
  "zero_padded n bs = take n bs @ replicate (n - length bs) 0"

definition set_hw_version :: "u16 \<Rightarrow> board_info \<Rightarrow> board_info" where
  "set_hw_version v i = i\<lparr>brd_hw_version := v\<rparr>"

definition set_factory_date :: "u16 \<Rightarrow> board_info \<Rightarrow> board_info" where
  "set_factory_date days i = i\<lparr>brd_factory_date := days\<rparr>"

definition set_factory_serial :: "code_points \<Rightarrow> board_info \<Rightarrow> board_info" where
  "set_factory_serial serial i = i\<lparr>brd_factory_serial := zero_padded 16 (concat (map utf8_encode serial))\<rparr>"

definition set_product_name :: "code_points \<Rightarrow> board_info \<Rightarrow> board_info" where
  "set_product_name name i = i\<lparr>brd_product_name := zero_padded 16 (concat (map utf8_encode name))\<rparr>"

definition set_mac :: "(string \<Rightarrow> ('e, u8 list) result) \<Rightarrow> string \<Rightarrow> board_info \<Rightarrow> ('e, unit) result \<times> board_info" where
  "set_mac from_hex mac i =
     (case from_hex mac of Inl e \<Rightarrow> (Inl e, i) | Inr bytes \<Rightarrow> (Inr (), i\<lparr>brd_mac := bytes\<rparr>))"

section \<open>The memory on the bus\<close>

record eeprom =
  ee_bytes :: "u8 list"
  ee_closed :: "io_error option"
  ee_truncates :: bool
  ee_limit :: "nat option"

record i2c_bus =
  ib_entries :: "(io_error, (io_error, string) result list) result"
  ib_eeproms :: "(string \<times> eeprom) list"

fun first_eeprom :: "(string \<times> eeprom) list \<Rightarrow> (io_error, string) result list \<Rightarrow> (io_error, string) result" where
  "first_eeprom es [] = Inl NotFound"
| "first_eeprom es (Inl e # rest) = Inl e"
| "first_eeprom es (Inr d # rest) = (if map_of es d \<noteq> None then Inr d else first_eeprom es rest)"

definition find_i2c_device :: "i2c_bus \<Rightarrow> (io_error, string \<times> eeprom) result" where
  "find_i2c_device bus =
     (case ib_entries bus of
        Inl e \<Rightarrow> Inl e
      | Inr entries \<Rightarrow>
          (case first_eeprom (ib_eeproms bus) entries of
             Inl e \<Rightarrow> Inl e
           | Inr d \<Rightarrow> Inr (d, the (map_of (ib_eeproms bus) d))))"

definition open_eeprom :: "i2c_bus \<Rightarrow> (io_error, string \<times> eeprom) result" where
  "open_eeprom bus =
     (case find_i2c_device bus of
        Inl e \<Rightarrow> Inl e
      | Inr (d, m) \<Rightarrow> (case ee_closed m of Some e \<Rightarrow> Inl e | None \<Rightarrow> Inr (d, m)))"

text \<open>\<open>read_exact\<close> of the header.\<close>

definition read_header :: "eeprom \<Rightarrow> (io_error, u8 list) result" where
  "read_header m = (if length (ee_bytes m) < BOARDINFO_SIZE then Inl OtherIo else Inr (take BOARDINFO_SIZE (ee_bytes m)))"

definition from_reader :: "eeprom \<Rightarrow> (io_error, board_info) result" where
  "from_reader m = (case read_header m of Inl e \<Rightarrow> Inl e | Inr bytes \<Rightarrow> Inr (the (brd_from_bytes bytes)))"

definition brd_load :: "i2c_bus \<Rightarrow> (io_error, board_info) result" where
  "brd_load bus = (case open_eeprom bus of Inl e \<Rightarrow> Inl e | Inr (_, m) \<Rightarrow> from_reader m)"

datatype eeprom_error = EepromIo io_error | ChecksumMismatch u32 u32

definition verify_eeprom :: "(u8 list \<Rightarrow> u32) \<Rightarrow> i2c_bus \<Rightarrow> board_info \<Rightarrow> (eeprom_error, unit) result" where
  "verify_eeprom crc bus i =
     (case open_eeprom bus of
        Inl e \<Rightarrow> Inl (EepromIo e)
      | Inr (_, m) \<Rightarrow>
          (case read_header m of
             Inl e \<Rightarrow> Inl (EepromIo e)
           | Inr bytes \<Rightarrow>
               if brd_crc32 i \<noteq> crc (drop 6 bytes) then Inl (ChecksumMismatch (brd_crc32 i) (crc (drop 6 bytes))) else Inr ()))"

definition write_byte :: "nat \<Rightarrow> u8 \<Rightarrow> eeprom \<Rightarrow> (io_error, unit) result \<times> eeprom" where
  "write_byte at b m =
     (case ee_limit m of
        Some n \<Rightarrow> if n \<le> at then (Inl OtherIo, m) else (Inr (), m\<lparr>ee_bytes := take at (ee_bytes m) @ b # drop (Suc at) (ee_bytes m)\<rparr>)
      | None \<Rightarrow> (Inr (), m\<lparr>ee_bytes := take at (ee_bytes m) @ b # drop (Suc at) (ee_bytes m)\<rparr>))"

fun write_bytes :: "nat \<Rightarrow> u8 list \<Rightarrow> eeprom \<Rightarrow> (io_error, unit) result \<times> eeprom" where
  "write_bytes at [] m = (Inr (), m)"
| "write_bytes at (b # bs) m =
     (case write_byte at b m of
        (Inl e, m) \<Rightarrow> (Inl e, m)
      | (Inr _, m) \<Rightarrow> write_bytes (Suc at) bs m)"

definition to_bytes :: "board_info \<Rightarrow> u8 list" where
  "to_bytes i =
     put_u16 (brd_reserved i) @ put_u32 (brd_crc32 i) @ put_u16_le HEADER_VER @ put_u16_le (brd_hw_version i)
       @ put_u16_le (brd_factory_date i) @ brd_factory_serial i @ brd_product_name i @ brd_mac i"

definition write_back :: "(u8 list \<Rightarrow> u32) \<Rightarrow> i2c_bus \<Rightarrow> board_info \<Rightarrow> (io_error, unit) result \<times> board_info \<times> i2c_bus" where
  "write_back crc bus i =
     (case open_eeprom bus of
        Inl e \<Rightarrow> (Inl e, i, bus)
      | Inr (d, m) \<Rightarrow>
          (let m = (if ee_truncates m then m\<lparr>ee_bytes := []\<rparr> else m);
               bytes = to_bytes i;
               i = i\<lparr>brd_crc32 := crc (drop 6 bytes)\<rparr>;
               bytes = take 2 bytes @ put_u32 (brd_crc32 i) @ drop 6 bytes
           in case write_bytes 0 bytes m of
                (r, m) \<Rightarrow> (r, i, bus\<lparr>ib_eeproms := AList.update d m (ib_eeproms bus)\<rparr>)))"

section \<open>The fields as text\<close>

datatype brd_attribute =
    BrdReserved | BrdCrc32 | BrdHdrVersion | BrdHwVersion | BrdFactoryDate | BrdFactorySerial | BrdProductName | BrdMac

definition parse_version_field :: "u16 \<Rightarrow> string" where
  "parse_version_field v =
     ''v'' @ show_nat (unat (drop_bit 11 v)) @ ''.'' @ show_nat (unat (drop_bit 6 v AND 0x1F)) @ ''.''
       @ show_nat (unat (v AND 0x3F))"

definition hex_width :: "nat \<Rightarrow> string \<Rightarrow> string" where
  "hex_width n s = replicate (n - length s) CHR ''0'' @ s"

definition value_of :: "(nat \<times> nat \<times> nat \<Rightarrow> nat \<Rightarrow> string) \<Rightarrow> brd_attribute \<Rightarrow> board_info \<Rightarrow> code_points" where
  "value_of date_after attribute i =
     (case attribute of
        BrdReserved \<Rightarrow> map of_char (''0x'' @ show_hex (unat (brd_reserved i)))
      | BrdCrc32 \<Rightarrow> map of_char (''0x'' @ hex_width 4 (show_hex (unat (brd_crc32 i))))
      | BrdHdrVersion \<Rightarrow> map of_char (show_nat (unat (brd_hdr_version i)))
      | BrdHwVersion \<Rightarrow> map of_char (parse_version_field (brd_hw_version i))
      | BrdFactoryDate \<Rightarrow> map of_char (date_after (2023, 5, 1) (unat (brd_factory_date i)))
      | BrdFactorySerial \<Rightarrow> utf8_lossy (brd_factory_serial i)
      | BrdProductName \<Rightarrow> utf8_lossy (brd_product_name i)
      | BrdMac \<Rightarrow> foldl (\<lambda>mac b. mac @ map of_char (hex_width 2 (show_hex (unat b)))) [] (brd_mac i))"

definition brd_debug :: "(nat \<times> nat \<times> nat \<Rightarrow> nat \<Rightarrow> string) \<Rightarrow> board_info \<Rightarrow> (string \<times> code_points) list" where
  "brd_debug date_after i =
     [(''reserved'', value_of date_after BrdReserved i), (''crc32'', value_of date_after BrdCrc32 i),
      (''header version'', value_of date_after BrdHdrVersion i), (''hardware version'', value_of date_after BrdHwVersion i),
      (''factory date'', value_of date_after BrdFactoryDate i), (''factory serial'', value_of date_after BrdFactorySerial i),
      (''product name'', value_of date_after BrdProductName i), (''mac'', value_of date_after BrdMac i)]"

section \<open>What the daemon reads of it\<close>

text \<open>\<open>char::is_whitespace\<close> on code points.\<close>

definition is_whitespace_point :: "nat \<Rightarrow> bool" where
  "is_whitespace_point n =
     (n \<in> {0x20, 0x85, 0xA0, 0x1680, 0x2028, 0x2029, 0x202F, 0x205F, 0x3000}
      \<or> (9 \<le> n \<and> n \<le> 13) \<or> (0x2000 \<le> n \<and> n \<le> 0x200A))"

definition is_padding :: "nat \<Rightarrow> bool" where
  "is_padding n = (n = 0 \<or> n = REPLACEMENT \<or> is_whitespace_point n)"

definition trim_eeprom_field :: "code_points \<Rightarrow> code_points option" where
  "trim_eeprom_field value =
     (let trimmed = rev (dropWhile is_padding (rev (dropWhile is_padding value)))
      in if trimmed \<noteq> [] then Some trimmed else None)"

definition read_board_info :: "(nat \<times> nat \<times> nat \<Rightarrow> nat \<Rightarrow> string) \<Rightarrow> i2c_bus
    \<Rightarrow> (io_error, code_points \<times> code_points \<times> code_points option) result" where
  "read_board_info date_after bus =
     (case brd_load bus of
        Inl e \<Rightarrow> Inl e
      | Inr i \<Rightarrow> Inr (value_of date_after BrdProductName i, value_of date_after BrdHwVersion i,
                       trim_eeprom_field (value_of date_after BrdFactorySerial i)))"

section \<open>The layout\<close>

lemma length_puts [simp]:
  "length (put_u16 w) = 2" "length (put_u16_le w) = 2" "length (put_u32 v) = 4"
  by (simp_all add: put_u16_def put_u16_le_def put_u32_def)

lemma u16_halves: "unat (w :: u16) div 256 < 256"
proof -
  have "unat w < 65536" by (rule order_less_le_trans [OF unsigned_less]) simp
  then show ?thesis by (simp add: less_mult_imp_div_less)
qed

lemma get_put_u16 [simp]:
  "get_u16 (put_u16 w @ r) = w" "get_u16_le (put_u16_le w @ r) = w"
  using u16_halves [of w] by (simp_all add: put_u16_def put_u16_le_def Text_Bytes.unat_small)

lemma get_put_u32 [simp]: "get_u32 (put_u32 w @ r) = w"
  by (simp add: get_u32_def put_u32_def u32_of_octets)

text \<open>A header has its fields at their width; every way to make or change one keeps it so.\<close>

definition brd_wf :: "board_info \<Rightarrow> bool" where
  "brd_wf i = (length (brd_factory_serial i) = 16 \<and> length (brd_product_name i) = 16 \<and> length (brd_mac i) = 6)"

lemma length_zero_padded [simp]: "length (zero_padded n bs) = n"
  by (simp add: zero_padded_def)

lemma brd_wf_setters [simp]:
  "brd_wf i \<Longrightarrow> brd_wf (set_hw_version v i)"
  "brd_wf i \<Longrightarrow> brd_wf (set_factory_date d i)"
  "brd_wf i \<Longrightarrow> brd_wf (set_factory_serial s i)"
  "brd_wf i \<Longrightarrow> brd_wf (set_product_name s i)"
  by (simp_all add: brd_wf_def set_hw_version_def set_factory_date_def set_factory_serial_def set_product_name_def)

lemma brd_wf_from_bytes: "brd_from_bytes bytes = Some i \<Longrightarrow> brd_wf i"
  by (auto simp: brd_from_bytes_def brd_wf_def BOARDINFO_SIZE_def split: if_splits)

lemma brd_wf_load: "brd_load bus = Inr i \<Longrightarrow> brd_wf i"
  by (auto simp: brd_load_def from_reader_def read_header_def BOARDINFO_SIZE_def brd_from_bytes_def brd_wf_def split: sum.splits if_splits)

lemma length_to_bytes: "brd_wf i \<Longrightarrow> length (to_bytes i) = BOARDINFO_SIZE"
  by (simp add: to_bytes_def brd_wf_def BOARDINFO_SIZE_def)

text \<open>The bytes that are written: those of the header with its checksum.\<close>

definition brd_sealed :: "(u8 list \<Rightarrow> u32) \<Rightarrow> board_info \<Rightarrow> board_info" where
  "brd_sealed crc i = i\<lparr>brd_crc32 := crc (drop 6 (to_bytes i))\<rparr>"

lemma to_bytes_sealed: "take 2 (to_bytes i) @ put_u32 (brd_crc32 (brd_sealed crc i)) @ drop 6 (to_bytes i) = to_bytes (brd_sealed crc i)"
  by (simp add: to_bytes_def brd_sealed_def)

lemma drop_sealed: "drop 6 (to_bytes (brd_sealed crc i)) = drop 6 (to_bytes i)"
  by (simp add: to_bytes_def brd_sealed_def)

lemma brd_wf_sealed [simp]: "brd_wf (brd_sealed crc i) = brd_wf i"
  by (simp add: brd_wf_def brd_sealed_def)

lemma drop_put:
  "drop 2 (put_u16 w @ r) = r" "drop 2 (put_u16_le w @ r) = r" "drop 4 (put_u32 v @ r) = r"
  by simp_all

lemma from_to_bytes:
  assumes "brd_wf i"
  shows "brd_from_bytes (to_bytes i @ r) = Some (i\<lparr>brd_hdr_version := HEADER_VER\<rparr>)"
proof -
  let ?b = "to_bytes i @ r"
  have l: "length (brd_factory_serial i) = 16" "length (brd_product_name i) = 16" "length (brd_mac i) = 6"
    using assms by (simp_all add: brd_wf_def)
  have "get_u16 ?b = brd_reserved i" by (simp add: to_bytes_def)
  moreover have "get_u32 (drop 2 ?b) = brd_crc32 i" by (simp add: to_bytes_def)
  moreover have "get_u16_le (drop 6 ?b) = HEADER_VER" by (simp add: to_bytes_def)
  moreover have "get_u16_le (drop 8 ?b) = brd_hw_version i" by (simp add: to_bytes_def)
  moreover have "get_u16_le (drop 10 ?b) = brd_factory_date i" by (simp add: to_bytes_def)
  moreover have "take 16 (drop 12 ?b) = brd_factory_serial i" using l by (simp add: to_bytes_def)
  moreover have "take 16 (drop 28 ?b) = brd_product_name i" using l by (simp add: to_bytes_def)
  moreover have "take 6 (drop 44 ?b) = brd_mac i" using l by (simp add: to_bytes_def)
  moreover have "\<not> length ?b < BOARDINFO_SIZE" using length_to_bytes [OF assms] by simp
  ultimately show ?thesis by (simp add: brd_from_bytes_def)
qed

section \<open>Writing byte for byte\<close>

lemma write_byte_result:
  "write_byte at b m = (if \<exists>n. ee_limit m = Some n \<and> n \<le> at then (Inl OtherIo, m)
     else (Inr (), m\<lparr>ee_bytes := take at (ee_bytes m) @ b # drop (Suc at) (ee_bytes m)\<rparr>))"
  by (simp add: write_byte_def split: option.split)

text \<open>A memory that takes all of them holds them; one that stops after so many holds those, and what
  it held after them.\<close>

lemma write_bytes_result:
  "at \<le> length (ee_bytes m) \<Longrightarrow>
     write_bytes at bs m =
       (let k = (case ee_limit m of None \<Rightarrow> length bs | Some n \<Rightarrow> min (length bs) (n - at))
        in (if k < length bs then Inl OtherIo else Inr (),
            m\<lparr>ee_bytes := take at (ee_bytes m) @ take k bs @ drop (k + at) (ee_bytes m)\<rparr>))"
proof (induction bs arbitrary: "at" m)
  case Nil
  then show ?case by (cases "ee_limit m") simp_all
next
  case (Cons b bs)
  show ?case
  proof (cases "\<exists>n. ee_limit m = Some n \<and> n \<le> at")
    case True
    then show ?thesis by (auto simp: write_byte_result Let_def)
  next
    case False
    let ?m = "m\<lparr>ee_bytes := take at (ee_bytes m) @ b # drop (Suc at) (ee_bytes m)\<rparr>"
    have step: "write_bytes at (b # bs) m = write_bytes (Suc at) bs ?m" using False by (simp only: write_bytes.simps write_byte_result if_False prod.case sum.case)
    have len: "Suc at \<le> length (ee_bytes ?m)" using Cons.prems by simp
    have t: "take (Suc at) (ee_bytes ?m) = take at (ee_bytes m) @ [b]" using Cons.prems by simp
    have d: "drop (k + Suc at) (ee_bytes ?m) = drop (Suc k + at) (ee_bytes m)" for k
      using Cons.prems by (simp add: add.commute)
    show ?thesis
    proof (cases "ee_limit m")
      case None
      then show ?thesis unfolding step Cons.IH [OF len] t d by simp
    next
      case (Some n)
      then obtain j where j: "n - at = Suc j" "n - Suc at = j" using False by (cases "n - at") auto
      show ?thesis unfolding step Cons.IH [OF len] t d using Some j by (simp add: Let_def)
    qed
  qed
qed

section \<open>A header survives the memory\<close>

lemma open_eeprom_update:
  assumes "open_eeprom bus = Inr (d, m)" and "ee_closed m' = None"
  shows "open_eeprom (bus\<lparr>ib_eeproms := AList.update d m' (ib_eeproms bus)\<rparr>) = Inr (d, m')"
proof -
  obtain entries where e: "ib_entries bus = Inr entries" "first_eeprom (ib_eeproms bus) entries = Inr d"
    using assms(1) by (auto simp: open_eeprom_def find_i2c_device_def split: sum.splits option.splits)
  have "map_of (ib_eeproms bus) d \<noteq> None" using e(2)
    by (induction "ib_eeproms bus" entries rule: first_eeprom.induct) (auto split: if_splits)
  then have "first_eeprom (AList.update d m' (ib_eeproms bus)) entries = Inr d"
    using e(2) by (induction "ib_eeproms bus" entries rule: first_eeprom.induct) (auto simp: update_conv' split: if_splits)
  then show ?thesis using e(1) assms(2) by (simp add: open_eeprom_def find_i2c_device_def update_conv')
qed

lemma write_back_ok:
  assumes "brd_wf i" and "open_eeprom bus = Inr (d, m)" and "\<And>n. ee_limit m = Some n \<Longrightarrow> BOARDINFO_SIZE \<le> n"
  shows "\<exists>r. write_back crc bus i =
    (Inr (), brd_sealed crc i,
     bus\<lparr>ib_eeproms := AList.update d (m\<lparr>ee_bytes := to_bytes (brd_sealed crc i) @ r\<rparr>) (ib_eeproms bus)\<rparr>)"
proof -
  let ?m = "if ee_truncates m then m\<lparr>ee_bytes := []\<rparr> else m"
  have l: "length (to_bytes (brd_sealed crc i)) = BOARDINFO_SIZE" using assms(1) by (simp add: length_to_bytes)
  have "write_bytes 0 (to_bytes (brd_sealed crc i)) ?m
      = (Inr (), ?m\<lparr>ee_bytes := to_bytes (brd_sealed crc i) @ drop BOARDINFO_SIZE (ee_bytes ?m)\<rparr>)"
    using assms(3) l by (cases "ee_limit m") (simp_all add: write_bytes_result Let_def min_def)
  moreover have "?m\<lparr>ee_bytes := x\<rparr> = m\<lparr>ee_bytes := x\<rparr>" for x by simp
  ultimately show ?thesis
    using assms(2) to_bytes_sealed [of i crc]
    by (intro exI [of _ "drop BOARDINFO_SIZE (ee_bytes ?m)"]) (simp add: write_back_def Let_def brd_sealed_def)
qed

text \<open>C37: What is written to the board is what is read from it. On a board whose memory takes the header,
  writing one succeeds; after it the header that is read has every field of the written one at
  the one version there is, and it passes the check of its sum, whatever the sum is; and the
  header in the hand of the writer has changed in its sum alone.\<close>

theorem board_header_survives:
  assumes "brd_wf i" and "open_eeprom bus = Inr (d, m)" and "\<And>n. ee_limit m = Some n \<Longrightarrow> BOARDINFO_SIZE \<le> n"
  shows "\<exists>bus'. write_back crc bus i = (Inr (), brd_sealed crc i, bus')
    \<and> brd_load bus' = Inr (brd_sealed crc i\<lparr>brd_hdr_version := HEADER_VER\<rparr>)
    \<and> verify_eeprom crc bus' (brd_sealed crc i\<lparr>brd_hdr_version := HEADER_VER\<rparr>) = Inr ()"
proof -
  obtain r where w: "write_back crc bus i = (Inr (), brd_sealed crc i,
      bus\<lparr>ib_eeproms := AList.update d (m\<lparr>ee_bytes := to_bytes (brd_sealed crc i) @ r\<rparr>) (ib_eeproms bus)\<rparr>)"
    using write_back_ok [OF assms] by blast
  let ?m = "m\<lparr>ee_bytes := to_bytes (brd_sealed crc i) @ r\<rparr>"
  have c: "ee_closed m = None" using assms(2) by (auto simp: open_eeprom_def split: sum.splits option.splits)
  have o: "open_eeprom (bus\<lparr>ib_eeproms := AList.update d ?m (ib_eeproms bus)\<rparr>) = Inr (d, ?m)"
    using open_eeprom_update [OF assms(2), of ?m] c by simp
  have l: "length (to_bytes (brd_sealed crc i)) = BOARDINFO_SIZE" using assms(1) by (simp add: length_to_bytes)
  have h: "read_header ?m = Inr (to_bytes (brd_sealed crc i))" using l by (simp add: read_header_def)
  show ?thesis
    using w o h from_to_bytes [of "brd_sealed crc i" "[]"] assms(1)
    by (simp add: brd_load_def from_reader_def verify_eeprom_def drop_sealed) (simp add: brd_sealed_def)
qed

definition demo_header_info :: board_info where
  "demo_header_info = \<lparr>brd_reserved = 0, brd_crc32 = 0, brd_hdr_version = 7, brd_hw_version = 0x1045, brd_factory_date = 300,
     brd_factory_serial = replicate 16 0, brd_product_name = replicate 16 0x41, brd_mac = [1, 2, 3, 4, 5, 6]\<rparr>"

definition demo_bus :: i2c_bus where
  "demo_bus = \<lparr>ib_entries = Inr [Inr ''0-0051'', Inr ''0-0050''],
     ib_eeproms = [(''0-0050'', \<lparr>ee_bytes = replicate 256 0xFF, ee_closed = None, ee_truncates = False, ee_limit = Some 256\<rparr>)]\<rparr>"

theorem board_header_survives_witness:
  "\<exists>bus'. write_back (\<lambda>bs. word_of_nat (length bs)) demo_bus demo_header_info
      = (Inr (), brd_sealed (\<lambda>bs. word_of_nat (length bs)) demo_header_info, bus')
    \<and> brd_load bus' = Inr (brd_sealed (\<lambda>bs. word_of_nat (length bs)) demo_header_info\<lparr>brd_hdr_version := HEADER_VER\<rparr>)
    \<and> verify_eeprom (\<lambda>bs. word_of_nat (length bs)) bus'
        (brd_sealed (\<lambda>bs. word_of_nat (length bs)) demo_header_info\<lparr>brd_hdr_version := HEADER_VER\<rparr>) = Inr ()"
  by (rule board_header_survives [where d = "''0-0050''"
        and m = "\<lparr>ee_bytes = replicate 256 0xFF, ee_closed = None, ee_truncates = False, ee_limit = Some 256\<rparr>"])
    (simp_all add: brd_wf_def demo_header_info_def demo_bus_def open_eeprom_def find_i2c_device_def BOARDINFO_SIZE_def)

text \<open>A memory that stops in the middle has the beginning of the new header and the end of what it
  held, and the header in the hand of the writer has the new sum.\<close>

lemma interrupted_write:
  assumes "open_eeprom bus = Inr (d, m)" and "\<not> ee_truncates m" and "ee_limit m = Some n" and "n < BOARDINFO_SIZE" and "brd_wf i"
  shows "write_back crc bus i =
    (Inl OtherIo, brd_sealed crc i,
     bus\<lparr>ib_eeproms := AList.update d
       (m\<lparr>ee_bytes := take n (to_bytes (brd_sealed crc i)) @ drop n (ee_bytes m)\<rparr>) (ib_eeproms bus)\<rparr>)"
proof -
  have "length (to_bytes (brd_sealed crc i)) = BOARDINFO_SIZE" using assms(5) by (simp add: length_to_bytes)
  then have "write_bytes 0 (to_bytes (brd_sealed crc i)) m
      = (Inl OtherIo, m\<lparr>ee_bytes := take n (to_bytes (brd_sealed crc i)) @ drop n (ee_bytes m)\<rparr>)"
    using assms(3,4) by (simp add: write_bytes_result Let_def min_def)
  then show ?thesis
    using assms(1,2) to_bytes_sealed [of i crc] by (simp add: write_back_def Let_def brd_sealed_def)
qed

section \<open>The text fields\<close>

lemma utf8_lossy_zeros: "utf8_lossy (replicate n 0) = replicate n 0"
  by (induction n) (simp_all add: utf8_lossy.simps(2) utf8_first_def)

lemma utf8_lossy_erased: "utf8_lossy (replicate n 0xFF) = replicate n REPLACEMENT"
  by (induction n) (simp_all add: utf8_lossy.simps(2) utf8_first_def)

lemma dropWhile_all: "list_all P xs \<Longrightarrow> dropWhile P (xs @ ys) = dropWhile P ys"
  by (induction xs) simp_all

lemma trim_padded:
  "ns \<noteq> [] \<Longrightarrow> \<not> is_padding (hd ns) \<Longrightarrow> \<not> is_padding (last ns) \<Longrightarrow> list_all is_padding zs \<Longrightarrow> trim_eeprom_field (ns @ zs) = Some ns"
proof -
  assume a: "ns \<noteq> []" "\<not> is_padding (hd ns)" "\<not> is_padding (last ns)" "list_all is_padding zs"
  have "dropWhile is_padding (ns @ zs) = ns @ zs" using a(1,2) by (cases ns) simp_all
  moreover have "dropWhile is_padding (rev zs @ rev ns) = rev ns"
    using a by (cases ns rule: rev_cases) (simp_all add: dropWhile_all)
  ultimately show ?thesis using a(1) by (simp add: trim_eeprom_field_def)
qed

lemma field_text:
  "valid_text ns \<Longrightarrow> length (concat (map utf8_encode ns)) \<le> n \<Longrightarrow>
     utf8_lossy (zero_padded n (concat (map utf8_encode ns))) = ns @ replicate (n - length (concat (map utf8_encode ns))) 0"
  by (simp add: zero_padded_def utf8_lossy_text utf8_lossy_zeros)

text \<open>A serial that fits its field is reported as it was given, and a board that never had one reports
  none.\<close>

theorem serial_reported:
  assumes "valid_text ns" and "length (concat (map utf8_encode ns)) \<le> 16"
    and "ns \<noteq> []" and "\<not> is_padding (hd ns)" and "\<not> is_padding (last ns)"
  shows "trim_eeprom_field (value_of date_after BrdFactorySerial (set_factory_serial ns i)) = Some ns"
  using field_text [OF assms(1,2)] trim_padded [OF assms(3-5), of "replicate (16 - length (concat (map utf8_encode ns))) 0"]
  by (simp add: value_of_def set_factory_serial_def list_all_iff is_padding_def)

lemma all_padding: "list_all is_padding ns \<Longrightarrow> trim_eeprom_field ns = None"
  by (simp add: trim_eeprom_field_def list_all_iff dropWhile_eq_Nil_conv [THEN iffD2])

lemma blank_board_has_no_serial:
  "brd_factory_serial i = replicate 16 0xFF \<or> brd_factory_serial i = replicate 16 0 \<Longrightarrow>
     trim_eeprom_field (value_of date_after BrdFactorySerial i) = None"
  by (auto intro!: all_padding simp: value_of_def utf8_lossy_erased utf8_lossy_zeros list_all_iff is_padding_def)

text \<open>The model is shown with its padding, which is only taken from the serial.\<close>

lemma model_keeps_padding:
  assumes "brd_load bus = Inr (set_product_name ns i)" and "valid_text ns" and "length (concat (map utf8_encode ns)) \<le> 16"
  shows "\<exists>version serial. read_board_info date_after bus
    = Inr (ns @ replicate (16 - length (concat (map utf8_encode ns))) 0, version, serial)"
  using field_text [OF assms(2,3)] assms(1) by (simp add: read_board_info_def value_of_def set_product_name_def)

section \<open>Versions\<close>

text \<open>A version takes up to 31.31.63, and its text tells it.\<close>

lemma version_parts:
  assumes "major < 32" and "minor < 32" and "patch < 64"
  shows "parse_version_field (word_of_nat (major * 2048 + minor * 64 + patch))
    = ''v'' @ show_nat major @ ''.'' @ show_nat minor @ ''.'' @ show_nat patch"
proof -
  define n and v :: u16 where "n = major * 2048 + minor * 64 + patch" and "v = word_of_nat n"
  have "n < 65536" using assms unfolding n_def by linarith
  then have u: "unat v = n" unfolding v_def by (simp add: unat_of_nat)
  have "unat (drop_bit 11 v) = n div 2048" by (simp only: unat_drop_bit_eq u) (simp add: drop_bit_eq_div)
  moreover have "n div 2048 = major" using assms unfolding n_def by (intro div_nat_eqI) simp_all
  moreover have "unat (drop_bit 6 v AND 0x1F) = n div 64 AND 0x1F"
    by (simp only: unsigned_and_eq unat_drop_bit_eq u) (simp add: drop_bit_eq_div)
  moreover have "n div 64 AND 0x1F = n div 64 mod 32"
    using take_bit_eq_mask [of 5 "n div 64"] by (simp add: take_bit_eq_mod mask_eq_exp_minus_1)
  moreover have "n div 64 = major * 32 + minor" using assms unfolding n_def by (intro div_nat_eqI) simp_all
  moreover have "unat (v AND 0x3F) = n AND 0x3F" by (simp add: unsigned_and_eq u)
  moreover have "n AND 0x3F = n mod 64"
    using take_bit_eq_mask [of 6 n] by (simp add: take_bit_eq_mod mask_eq_exp_minus_1)
  moreover have "n = patch + (major * 32 + minor) * 64" unfolding n_def by simp
  then have "n mod 64 = patch" using assms(3) by (simp only: mod_mult_self1) simp
  ultimately show ?thesis
    using assms by (simp add: parse_version_field_def v_def [symmetric] n_def [symmetric])
qed

end
