(* ===== verification/About_Api.thy ===== *)
theory About_Api
  imports Board_Info Board_Health Config_Export Network_Api Legacy_Api
begin

text \<open>
  What the board says of itself, and what it notes of its callers (\<open>api/legacy.rs\<close>, \<open>api/responses.rs\<close>,
  \<open>app/bmc_info.rs\<close>, the log sink of \<open>main.rs\<close>): the release file, the about page and the older
  answers of the same, the sizes of its storage, the audit line of a call, and the handlers that
  import a configuration and restart the bridge. Versions that are built in, the list of the
  host's addresses and \<open>statvfs\<close> are parameters. The handlers of the table are a parameter of
  \<open>dispatch\<close>; they are the functions of the other parts.
\<close>

section \<open>The release file\<close>

definition OS_RELEASE :: path where "OS_RELEASE = (''/etc'', ''os-release'')"
definition OSRELEASE :: path where "OSRELEASE = (''/proc/sys/kernel'', ''osrelease'')"

definition add_assignment :: "(string \<rightharpoonup> string) \<Rightarrow> string \<Rightarrow> string \<rightharpoonup> string" where
  "add_assignment results line =
     (case split_once (CHR ''='') line of Some (key, v) \<Rightarrow> results(key \<mapsto> v) | None \<Rightarrow> results)"

definition read_os_release :: "fs \<Rightarrow> (io_error, string \<rightharpoonup> string) result" where
  "read_os_release fs =
     (case fs_read_to_string fs OS_RELEASE of
        Inl e \<Rightarrow> Inl e
      | Inr s \<Rightarrow> Inr (foldl add_assignment Map.empty (lines s)))"

definition firmware_version :: "fs \<Rightarrow> string option" where
  "firmware_version fs =
     (case read_os_release fs of
        Inl _ \<Rightarrow> None
      | Inr os \<Rightarrow> map_option (trim_matches (\<lambda>c. c = CHR 0x22)) (os ''VERSION''))"

definition buildroot_release :: "(string \<rightharpoonup> string) \<Rightarrow> string option" where
  "buildroot_release os =
     map_option (trim_matches (\<lambda>c. c = CHR 0x22))
       (case os ''BUILDROOT_VERSION'' of Some r \<Rightarrow> Some r | None \<Rightarrow> os ''PRETTY_NAME'')"

definition trim_end_line :: "string \<Rightarrow> string" where
  "trim_end_line s = rev (dropWhile (\<lambda>c. c = CHR 0x00 \<or> c = newline) (rev s))"

definition read_kernel_release :: "fs \<Rightarrow> (io_error, string) result" where
  "read_kernel_release fs = map_sum id trim_end_line (fs_read_to_string fs OSRELEASE)"

definition read_hostname :: "fs \<Rightarrow> (io_error, string) result" where
  "read_hostname fs = map_sum id trim_end_line (fs_read_to_string fs LIVE_HOSTNAME)"

section \<open>The about page\<close>

definition API_VERSION :: string where "API_VERSION = ''1.1''"

record about =
  ab_board_model :: code_points
  ab_board_revision :: code_points
  ab_board_serial :: "code_points option"
  ab_hostname :: string
  ab_api :: string
  ab_version :: string
  ab_bmcd_version :: string
  ab_build_version :: string
  ab_buildtime :: string
  ab_buildroot :: string
  ab_kernel :: string

definition get_about :: "string \<Rightarrow> string \<Rightarrow> (nat \<times> nat \<times> nat \<Rightarrow> nat \<Rightarrow> string) \<Rightarrow> i2c_bus \<Rightarrow> fs \<Rightarrow> about" where
  "get_about bmcd_version build_time date_after bus fs =
     (let (buildroot, version) =
            (case read_os_release fs of
               Inl _ \<Rightarrow> (''unknown'', ''unknown'')
             | Inr os \<Rightarrow> (case buildroot_release os of Some r \<Rightarrow> r | None \<Rightarrow> ''unknown'',
                          case os ''VERSION'' of Some v \<Rightarrow> v | None \<Rightarrow> ''unknown''));
          hostname = (case read_hostname fs of Inr h \<Rightarrow> h | Inl _ \<Rightarrow> '''');
          kernel = (case read_kernel_release fs of Inr k \<Rightarrow> k | Inl _ \<Rightarrow> ''unknown'');
          (model, revision, serial) = (case read_board_info date_after bus of Inr t \<Rightarrow> t | Inl _ \<Rightarrow> ([], [], None))
      in \<lparr>ab_board_model = model, ab_board_revision = revision, ab_board_serial = serial, ab_hostname = hostname,
          ab_api = API_VERSION, ab_version = version, ab_bmcd_version = bmcd_version, ab_build_version = bmcd_version,
          ab_buildtime = build_time, ab_buildroot = buildroot, ab_kernel = kernel\<rparr>)"

record system_information =
  sy_api :: string
  sy_buildtime :: string
  sy_ip :: string
  sy_mac :: string
  sy_buildroot :: "string option"
  sy_version :: "string option"

definition get_system_information :: "string \<Rightarrow> string option \<times> string \<Rightarrow> fs \<Rightarrow> system_information" where
  "get_system_information build_time ip_mac fs =
     (let info = \<lparr>sy_api = API_VERSION, sy_buildtime = build_time,
                  sy_ip = (case fst ip_mac of Some ip \<Rightarrow> ip | None \<Rightarrow> ''Unknown''), sy_mac = snd ip_mac,
                  sy_buildroot = None, sy_version = None\<rparr>
      in case read_os_release fs of
           Inl _ \<Rightarrow> info
         | Inr os \<Rightarrow> info\<lparr>sy_buildroot := buildroot_release os, sy_version := os ''VERSION''\<rparr>)"

section \<open>Addresses and storage\<close>

record host_interface =
  hi_name :: string
  hi_ip :: string
  hi_loopback :: bool
  hi_link_local :: bool

record net_info =
  nf_device :: string
  nf_ip :: string
  nf_mac :: string

definition get_net_interfaces :: "sys_node option \<Rightarrow> host_interface list option \<Rightarrow> net_info list" where
  "get_net_interfaces net_class interfaces =
     (case interfaces of
        None \<Rightarrow> []
      | Some is \<Rightarrow>
          map (\<lambda>i. \<lparr>nf_device = hi_name i, nf_ip = hi_ip i, nf_mac = get_mac_address net_class (hi_name i)\<rparr>)
            (filter (\<lambda>i. \<not> hi_loopback i \<or> hi_link_local i) is))"

record statvfs =
  sv_blocks :: u64
  sv_blocks_free :: u64
  sv_fragment_size :: u64

definition get_fs_stat :: "(string \<Rightarrow> (io_error, statvfs) result) \<Rightarrow> string \<Rightarrow> (io_error, u64 \<times> u64) result" where
  "get_fs_stat statvfs device =
     (case statvfs device of
        Inl e \<Rightarrow> Inl e
      | Inr stat \<Rightarrow> Inr (sv_blocks stat * sv_fragment_size stat, sv_blocks_free stat * sv_fragment_size stat))"

record storage_info =
  st_name :: string
  st_total_bytes :: u64
  st_bytes_free :: u64
  st_mounted :: "bool option"

definition sd_card_entry :: "u64 \<Rightarrow> u64 \<Rightarrow> bool \<Rightarrow> storage_info" where
  "sd_card_entry whole free mounted =
     \<lparr>st_name = ''SD card'', st_total_bytes = whole, st_bytes_free = free, st_mounted = Some mounted\<rparr>"

definition get_storage_info :: "(string \<Rightarrow> (io_error, statvfs) result) \<Rightarrow> media \<Rightarrow> storage_info list" where
  "get_storage_info statvfs m =
     (case get_fs_stat statvfs ''/'' of
        Inr (whole, free) \<Rightarrow> [\<lparr>st_name = ''BMC'', st_total_bytes = whole, st_bytes_free = free, st_mounted = None\<rparr>]
      | Inl _ \<Rightarrow> [])
     @ (if card_inserted m
        then (case get_fs_stat statvfs SDCARD_ROOT of
                Inr (whole, free) \<Rightarrow> [sd_card_entry whole free (is_mounted_or_false m SDCARD_ROOT)]
              | Inl _ \<Rightarrow> [])
        else [])"

record info_answer =
  in_ip :: "net_info list"
  in_storage :: "storage_info list"

definition get_info :: "sys_node option \<Rightarrow> host_interface list option \<Rightarrow> (string \<Rightarrow> (io_error, statvfs) result) \<Rightarrow> media \<Rightarrow> info_answer" where
  "get_info net_class interfaces statvfs m =
     \<lparr>in_ip = get_net_interfaces net_class interfaces, in_storage = get_storage_info statvfs m\<rparr>"

record sd_card =
  sd_total :: u64
  sd_used :: u64
  sd_free :: u64

definition get_sdcard_info :: "(string \<Rightarrow> (io_error, statvfs) result) \<Rightarrow> sd_card list legacy_response" where
  "get_sdcard_info statvfs =
     (case get_fs_stat statvfs ''/mnt/sdcard'' of
        Inr (whole, free) \<Rightarrow> Success (Some [\<lparr>sd_total = whole, sd_used = whole - free, sd_free = free\<rparr>])
      | Inl _ \<Rightarrow> LegacyError 400 (Says ''Failed to get microSD card info: {}''))"

section \<open>The audit line\<close>

fun show_actor :: "actor \<Rightarrow> string" where
  "show_actor Loopback = ''loopback (unauthenticated)''"
| "show_actor (User name scheme) = name @ '' ('' @ scheme @ '')''"

datatype audit_outcome = AuditOk | AuditRefused nat legacy_message

record audit_line =
  au_action :: string
  au_node :: string
  au_actor :: string
  au_peer :: string
  au_outcome :: audit_outcome

fun audit_outcome_of :: "'v legacy_response \<Rightarrow> audit_outcome" where
  "audit_outcome_of (LegacyError status message) = AuditRefused status message"
| "audit_outcome_of _ = AuditOk"

definition audit :: "string \<Rightarrow> query \<Rightarrow> actor option \<Rightarrow> string option \<Rightarrow> 'v legacy_response \<Rightarrow> audit_line" where
  "audit ty q caller peer response =
     \<lparr>au_action = ty, au_node = (case map_of q ''node'' of Some n \<Rightarrow> n | None \<Rightarrow> ''-''),
      au_actor = (case caller of Some a \<Rightarrow> show_actor a | None \<Rightarrow> ''unattributed''),
      au_peer = (case peer of Some p \<Rightarrow> p | None \<Rightarrow> ''unknown''), au_outcome = audit_outcome_of response\<rparr>"

definition dispatch :: "(legacy_op \<Rightarrow> query \<Rightarrow> 's \<Rightarrow> 'v legacy_response \<times> 's) \<Rightarrow> string \<Rightarrow> bool \<Rightarrow> query
    \<Rightarrow> actor option \<Rightarrow> string option \<Rightarrow> 's \<Rightarrow> 'v legacy_response \<times> audit_line list \<times> 's" where
  "dispatch run ty is_set q caller peer s =
     (let (response, s) = (case dispatch_inner ty is_set of
                             Inl (status, message) \<Rightarrow> (LegacyError status message, s)
                           | Inr op \<Rightarrow> run op q s)
      in (response, if is_set then [audit ty q caller peer response] else [], s))"

definition api_call :: "(legacy_op \<Rightarrow> query \<Rightarrow> 's \<Rightarrow> 'v legacy_response \<times> 's) \<Rightarrow> query \<Rightarrow> actor option \<Rightarrow> string option
    \<Rightarrow> 's \<Rightarrow> 'v legacy_response \<times> audit_line list \<times> 's" where
  "api_call run q caller peer s =
     (case map_of q ''opt'' of
        Some opt \<Rightarrow>
          if opt = ''set'' \<or> opt = ''get''
          then (case map_of q ''type'' of
                  None \<Rightarrow> (LegacyError 400 (Says ''Missing `type` parameter''), [], s)
                | Some ty \<Rightarrow> dispatch run ty (opt = ''set'') q caller peer s)
          else (LegacyError 400 (Says ''Missing `opt` parameter''), [], s)
      | None \<Rightarrow> (LegacyError 400 (Says ''Missing `opt` parameter''), [], s))"

text \<open>The sink of the system log: what an event writes is gathered, and sent as one datagram when it is
  flushed or dropped.\<close>

record syslog_line =
  sl_line :: string
  sl_sent :: "string list"

definition sl_write :: "string \<Rightarrow> syslog_line \<Rightarrow> syslog_line" where
  "sl_write buf l = l\<lparr>sl_line := sl_line l @ buf\<rparr>"

definition sl_flush :: "nat \<Rightarrow> syslog_line \<Rightarrow> syslog_line" where
  "sl_flush pid l =
     (if sl_line l = [] then l
      else l\<lparr>sl_line := [],
             sl_sent := sl_sent l @ [''<86>bmcd['' @ show_nat pid @ '']: ''
               @ rev (dropWhile (\<lambda>c. of_char c \<in> {9, 10, 12, 13, 32 :: nat}) (rev (sl_line l)))]\<rparr>)"

section \<open>Handlers\<close>

definition set_config :: "(string \<Rightarrow> (string, config_export) result) \<Rightarrow> sources_json \<Rightarrow> child_output \<Rightarrow> query \<Rightarrow> fs \<Rightarrow> bmc
    \<Rightarrow> import_report legacy_response \<times> fs \<times> bmc" where
  "set_config from_json js chronyc q fs b =
     (case map_of q ''config'' of
        None \<Rightarrow> (LegacyError 400 (Says ''Missing `config` parameter''), fs, b)
      | Some body \<Rightarrow>
          (case from_json body of
             Inl e \<Rightarrow> (LegacyError 400 (SaysValue ''`config` is not valid: '' e), fs, b)
           | Inr document \<Rightarrow>
               (case import_config js chronyc document fs b of
                  (Inl v, fs, b) \<Rightarrow> (LegacyError 400 (Says (''this export is format '' @ show_nat v @ '' and this daemon reads format '' @ show_nat FORMAT_VERSION)), fs, b)
                | (Inr report, fs, b) \<Rightarrow> (Success (Some report), fs, b))))"

definition RESTART_TAIL :: string where
  "RESTART_TAIL = ''The network restart brings br0 down and up; there is nothing to restart here. Edit ''
     @ ''/etc/network/interfaces over SSH, or restore the default layout.''"

text \<open>A restart is a command that is started a second later, whatever becomes of it.\<close>

definition reset_network :: "'n address_config \<Rightarrow> 'n board \<Rightarrow> unit legacy_response \<times> string option \<times> 'n board" where
  "reset_network c b =
     (case applier_missing_message c RESTART_TAIL b of
        (Some message, b) \<Rightarrow> (LegacyError 409 (Says message), None, b)
      | (None, b) \<Rightarrow> (Success None, Some ''ifdown br0 && ifup br0'', b))"

section \<open>What the release file says\<close>

definition release_line :: "string \<times> string \<Rightarrow> string" where
  "release_line kv = fst kv @ CHR ''='' # snd kv"

definition release_ok :: "(string \<times> string) list \<Rightarrow> bool" where
  "release_ok kvs = list_all (\<lambda>kv. CHR ''='' \<notin> set (fst kv) \<and> plain_line (release_line kv)) kvs"

lemma foldl_assignments:
  "list_all (\<lambda>kv. CHR ''='' \<notin> set (fst kv)) kvs \<Longrightarrow> foldl add_assignment m (map release_line kvs) = m ++ map_of (rev kvs)"
proof (induction kvs arbitrary: m)
  case (Cons kv kvs)
  then have "add_assignment m (release_line kv) = m(fst kv \<mapsto> snd kv)"
    by (cases kv) (simp add: add_assignment_def release_line_def split_once_append)
  then show ?case using Cons by (simp add: map_add_assoc [symmetric] map_add_upd_left)
qed simp

text \<open>Of two assignments to a key the later one counts.\<close>

lemma release_read:
  assumes "fs_read_to_string fs OS_RELEASE = Inr (unlines (map release_line kvs))" and "release_ok kvs"
  shows "read_os_release fs = Inr (map_of (rev kvs))"
proof -
  have "lines (unlines (map release_line kvs)) = map release_line kvs"
    using assms(2) by (intro lines_unlines) (simp add: release_ok_def list_all_iff)
  then show ?thesis
    using assms foldl_assignments [of kvs Map.empty] by (simp add: read_os_release_def release_ok_def list_all_iff)
qed

text \<open>The quotes around the version are taken off for the slots, and left on for the about page.\<close>

lemma version_with_and_without_quotes:
  assumes "read_os_release fs = Inr os" and "os ''VERSION'' = Some (CHR 0x22 # v @ [CHR 0x22])"
    and "v \<noteq> []" and "hd v \<noteq> CHR 0x22" and "last v \<noteq> CHR 0x22"
  shows "firmware_version fs = Some v"
    and "ab_version (get_about bmcd_version build_time date_after bus fs) = CHR 0x22 # v @ [CHR 0x22]"
proof -
  have "trim_matches (\<lambda>c. c = CHR 0x22) (CHR 0x22 # v @ [CHR 0x22]) = trim_matches (\<lambda>c. c = CHR 0x22) v"
    using assms(3,4) by (cases v) (simp_all add: trim_matches_def)
  then show "firmware_version fs = Some v"
    using assms trim_matches_plain [of v "\<lambda>c. c = CHR 0x22"] by (simp add: firmware_version_def)
  show "ab_version (get_about bmcd_version build_time date_after bus fs) = CHR 0x22 # v @ [CHR 0x22]"
    using assms(1,2) by (simp add: get_about_def Let_def split: prod.split)
qed

text \<open>A board that can read nothing of itself still has its about page.\<close>

lemma about_of_nothing:
  assumes "fs_read_to_string fs OS_RELEASE = Inl e1" and "fs_read_to_string fs LIVE_HOSTNAME = Inl e2"
    and "fs_read_to_string fs OSRELEASE = Inl e3" and "brd_load bus = Inl e4"
  shows "get_about bmcd_version build_time date_after bus fs =
    \<lparr>ab_board_model = [], ab_board_revision = [], ab_board_serial = None, ab_hostname = [], ab_api = ''1.1'',
     ab_version = ''unknown'', ab_bmcd_version = bmcd_version, ab_build_version = bmcd_version,
     ab_buildtime = build_time, ab_buildroot = ''unknown'', ab_kernel = ''unknown''\<rparr>"
  using assms
  by (simp add: get_about_def read_os_release_def read_hostname_def read_kernel_release_def read_board_info_def API_VERSION_def)

section \<open>What is audited\<close>

text \<open>A call that the endpoint takes leaves one line if it changes something and none if it reads, with
  what became of it, who made it and from where; a call that is refused leaves the board as it was,
  and a line only if it named a type.\<close>

lemma api_call_taken:
  assumes "api_entry q = Inr (op, is_set)"
  shows "\<exists>ty. map_of q ''type'' = Some ty \<and> api_call run q caller peer s =
    (fst (run op q s), if is_set then [audit ty q caller peer (fst (run op q s))] else [], snd (run op q s))"
  using assms
  by (auto simp: api_entry_def api_call_def dispatch_def case_prod_unfold Let_def split: option.splits sum.splits if_splits)

lemma api_call_refused:
  assumes "api_entry q = Inl (status, message)"
  shows "\<exists>ls. api_call run q caller peer s = (LegacyError status message, ls, s)
    \<and> (ls = [] \<or> (\<exists>ty. ls = [audit ty q caller peer (fst (api_call run q caller peer s))]))"
  using assms
  by (fastforce simp: api_entry_def api_call_def dispatch_def bad_request_def split: option.splits sum.splits if_splits)

text \<open>The line does not hold the query: two calls that differ in other parameters than the node leave
  the same line when they are answered the same.\<close>

lemma audit_hides_the_query:
  "map_of q ''node'' = map_of q' ''node'' \<Longrightarrow> audit ty q caller peer response = audit ty q' caller peer response"
  by (simp add: audit_def)

text \<open>A transfer is taken by a route of its own, before the endpoint that audits.\<close>

lemma transfer_passes_the_audit:
  "is_transfer_request raw ''set'' \<Longrightarrow> legacy_route HGet raw = Some TransferRequest"
  by (auto simp: legacy_route_def is_transfer_request_def split: option.splits)

text \<open>No caller that was authenticated is noted as the board itself.\<close>

lemma loopback_shown_alone:
  assumes "CHR ''('' \<notin> set scheme" and "scheme \<noteq> ''unauthenticated''"
  shows "show_actor (User name scheme) \<noteq> show_actor Loopback"
proof
  assume "show_actor (User name scheme) = show_actor Loopback"
  then have e: "rev (show_actor (User name scheme)) = rev (show_actor Loopback)" by (rule arg_cong)
  have "split_once CHR ''('' (rev (show_actor (User name scheme))) = Some (CHR '')'' # rev scheme, CHR '' '' # rev name)"
    using assms(1) split_once_append [of "CHR ''(''" "CHR '')'' # rev scheme" "CHR '' '' # rev name"] by simp
  moreover have "split_once CHR ''('' (rev (show_actor Loopback)) = Some (CHR '')'' # rev ''unauthenticated'', CHR '' '' # rev ''loopback'')"
    by simp
  ultimately have "rev scheme = rev ''unauthenticated''" using e by simp
  then show False using assms(2) by (metis rev_rev_ident)
qed

section \<open>The system log\<close>

text \<open>An event that wrote anything is one datagram, however many writes it took; dropping the line after
  a flush sends nothing more.\<close>

lemma one_datagram:
  assumes "concat bufs \<noteq> []"
  shows "\<exists>d. sl_sent (sl_flush pid (sl_flush pid (foldl (\<lambda>l b. sl_write b l) \<lparr>sl_line = [], sl_sent = sent\<rparr> bufs))) = sent @ [d]"
proof -
  have "foldl (\<lambda>l b. sl_write b l) \<lparr>sl_line = x, sl_sent = sent\<rparr> bufs = \<lparr>sl_line = x @ concat bufs, sl_sent = sent\<rparr>" for x
    by (induction bufs arbitrary: x) (simp_all add: sl_write_def)
  then show ?thesis using assms by (simp add: sl_flush_def)
qed

section \<open>Storage\<close>

text \<open>The sizes are what \<open>statvfs\<close> says, as long as they fit sixty-four bits.\<close>

lemma used_plus_free:
  assumes "get_sdcard_info statvfs = Success (Some [c])"
  shows "sd_used c + sd_free c = sd_total c"
  using assms by (auto simp: get_sdcard_info_def split: sum.splits)

lemma card_listed_when_inserted:
  assumes "card_inserted m" and "get_fs_stat statvfs SDCARD_ROOT = Inr (whole, free)"
  shows "sd_card_entry whole free (is_mounted_or_false m SDCARD_ROOT) \<in> set (get_storage_info statvfs m)"
  using assms by (simp add: get_storage_info_def)

section \<open>The restart of the bridge\<close>

lemma restart_needs_the_bridge:
  "managed_present (bd_net_class b) \<Longrightarrow> reset_network c b = (Success None, Some ''ifdown br0 && ifup br0'', b)"
  "\<not> managed_present (bd_net_class b) \<Longrightarrow> \<exists>m b'. reset_network c b = (LegacyError 409 m, None, b')"
  by (simp_all add: reset_network_def applier_missing_message_def split: prod.split)

end
