(* ===== verification/Spec2Isabelle.thy ===== *)
theory Spec2Isabelle
  imports Persistency Transfer_Api Config_Export Storage_Status Tls_Api Serial_Console Update_Check About_Api
begin

text \<open>
  A verification development of bmcd, the management daemon of a Turing Pi board. The daemon powers
  four compute modules, routes their USB, writes images to them, updates its own firmware,
  configures the switch and the address of the board, and answers to a web interface, to scripts
  and to a scraper of metrics. Paths below are under \<^verbatim>\<open>src/bmcd/src\<close> unless they say otherwise.

  \<^bold>\<open>How the program is put together.\<close> A request passes the authentication middleware
  (\<^verbatim>\<open>authentication/\<close>), which decides who asks and whether the board still has its factory
  password. It then reaches one of the endpoints: the legacy table of operations and its aliases
  (\<^verbatim>\<open>api/legacy.rs\<close>, \<^verbatim>\<open>api/paths.rs\<close>), or those for the switch, the address, the storage, the
  access and the certificate. Handlers call the services in \<^verbatim>\<open>app/\<close>, which keep their state
  behind a lock, change files, and run programs. The nodes are driven through \<^verbatim>\<open>hal/\<close>; what must
  survive a restart goes to the store in \<^verbatim>\<open>persistency/\<close>. Long transfers run in a worker that
  \<^verbatim>\<open>streaming_data_service.rs\<close> keeps track of.

  \<^bold>\<open>Conventions of the model.\<close>
  Code that mutates is a function on explicit state: \<open>&mut self\<close> becomes a record that is returned
  changed. \<open>Result<T, E>\<close> is the sum \<open>E + T\<close>, and every early return, refusal and panic of the code is
  a branch. The text of a message is a constructor with the values formatted into it, except where
  the code reads the text again. Instants and durations are nanoseconds as natural numbers, and
  every reading of the clock is an argument, in the order the code takes them. Machine integers
  are words where they wrap or are used bit by bit, else numbers with their bounds written out.
  Strings are lists of characters below 256, and bytes are 8-bit words; where the code depends on
  how text is encoded, the encoding is written out. Files are those of an explicit store with
  inodes, hard links, faults and unreadable names (\<open>Host_Files\<close>); sysfs is a tree. A finite \<open>f64\<close>
  is its shortest decimal, and a whole number cast to one is rounded to 53 bits (\<open>Rust_F64\<close>). Code outside the repository is a parameter:
  bincode, the hashes, JSON and YAML readers, crypt, OpenSSL, the kernel behind \<open>ip\<close>, \<open>bridge\<close>,
  \<open>chronyc\<close>, \<open>ubirmvol\<close>, \<open>chpasswd\<close> and the updater, the USB libraries, the random tokens. What is
  relied on of such a parameter is a named hypothesis of the property that needs it, and the
  witness of the property instantiates it.

  \<^bold>\<open>Shared theories.\<close> \<open>Bmcd_Prelude\<close> names results, clocks and integers and holds the rewrite
  collections. \<open>Rust_Std\<close> is the part of the standard library on text, numbers and addresses,
  \<open>Rust_F64\<close> that on decimals, \<open>Text_Bytes\<close> that on text as code points and its UTF-8,
  \<open>Host_Files\<close> the store of files. \<open>Confirm_Window\<close> is the contract a
  change that waits for its confirmation keeps, as a locale over its operations; the address and
  the switch are its two instances, and the lemmas about any sequence of operations are proved
  once inside it. \<open>Firmware_Version\<close> holds the locale of a comparison (a total order on what it
  reads), whose instances are every comparator the program sorts with; \<open>Ban_Patrol\<close> the contract of
  a policy of bans; \<open>Tls_Store\<close> that of replacing a file through a temporary name.

  \<^bold>\<open>Authentication.\<close> \<open>Ban_Patrol\<close> (\<^verbatim>\<open>ban_patrol.rs\<close>): the penalties per peer, with a bound on the
  guesses a peer has in a span of time. \<open>Auth_Context\<close> (\<^verbatim>\<open>authentication_context.rs\<close>,
  \<^verbatim>\<open>passwd_validator.rs\<close>, \<^verbatim>\<open>linux_authenticator.rs\<close>): tokens, the password cache, and that who is
  let in has shown a live token or the password. \<open>Auth_Service\<close> (\<^verbatim>\<open>authentication_service.rs\<close>,
  \<^verbatim>\<open>factory_password.rs\<close>, \<^verbatim>\<open>websocket_subprotocol.rs\<close>): the decision on a request, and that from the
  start of the service on a board on its factory password lets through only what its change needs. \<open>Access_Api\<close> (\<^verbatim>\<open>api/access.rs\<close>): the
  change of a password asks for the present one and touches that account, and a client CA that was accepted is one the daemon
  starts with. \<open>Tls_Store\<close> (\<^verbatim>\<open>config.rs\<close>, \<^verbatim>\<open>tls_store.rs\<close>, parts of \<^verbatim>\<open>main.rs\<close>) and \<open>Tls_Api\<close>
  (\<^verbatim>\<open>api/tls.rs\<close>): the certificate served, the checks of an upload, that every handshake is given a
  pair that belongs together, and what a restart keeps of it.

  \<^bold>\<open>Network.\<close> \<open>Address_Document\<close>, \<open>Address_Change\<close>, \<open>Address_Applier\<close>, \<open>Address_Service\<close> and
  \<open>Network_Interfaces\<close> (the \<^verbatim>\<open>app/address_*.rs\<close> files, \<^verbatim>\<open>network_interfaces.rs\<close>): the address as one
  document, its rules, its file and the reader of that file (a round trip), the change that waits,
  the commands, and the service that ties them together. \<open>Switch_Document\<close>, \<open>Switch_Change\<close>,
  \<open>Switch_Applier\<close>, \<open>Switch_Service\<close> (the \<^verbatim>\<open>app/switch_*.rs\<close> files): the same for the switch, with the
  plan of commands refined against a model of what the bridge does with them. \<open>Network_Api\<close>
  (\<^verbatim>\<open>api/network.rs\<close>, \<^verbatim>\<open>api/address.rs\<close>): the endpoints, and that a confirmation comes over the
  network it confirms.

  \<^bold>\<open>Board.\<close> \<open>Hal\<close> (\<^verbatim>\<open>hal.rs\<close>, \<^verbatim>\<open>hal/\<close>): nodes, bit fields, power and USB lines with injected
  failures. \<open>Cooling_Device\<close>, \<open>Thermal_Info\<close>, \<open>Usb_Gadget\<close>, \<open>Bmc_Application\<close> (the files of these names
  in \<^verbatim>\<open>app/\<close>): fans and their ceiling, what sysfs says, the gadget, and the application that keeps
  the stored power state and the lines in step, with two calls that interleave as steps.
  \<open>Persistency\<close> (\<^verbatim>\<open>persistency/\<close>): the store, its file, and the writer, which puts a change on disk
  once the timeout after it has passed. \<open>Board_Settings\<close>
  (\<^verbatim>\<open>hostname.rs\<close>, \<^verbatim>\<open>ntp.rs\<close>), \<open>Config_Export\<close>: settings that are files, and their export and import
  (a round trip). \<open>Storage_Status\<close> (\<^verbatim>\<open>storage_status.rs\<close>, \<^verbatim>\<open>api/storage.rs\<close>): whether settings are kept,
  and the one repair, which runs only when they are lost, confirmed, and once at a time.
  \<open>Board_Health\<close> (\<^verbatim>\<open>health_info.rs\<close>, \<^verbatim>\<open>switch_info.rs\<close>, \<^verbatim>\<open>bmc_info.rs\<close>) and \<open>Metrics\<close> (\<^verbatim>\<open>api/metrics.rs\<close>): the
  readings, and a page that a scraper reads back as the samples that were taken, with their values.
  \<open>Board_Info\<close> (\<^verbatim>\<open>src/board_info/src/board_info.rs\<close>): the header in the EEPROM, which reads back as it
  was written and passes its check. \<open>About_Api\<close> (parts of \<^verbatim>\<open>api/legacy.rs\<close>, \<^verbatim>\<open>bmc_info.rs\<close>, \<^verbatim>\<open>main.rs\<close>):
  what the board says of itself, its storage, and the audit line of a call.
  \<open>Serial_Console\<close> (\<^verbatim>\<open>serial_service/\<close>, \<^verbatim>\<open>event_application.rs\<close>): consoles, which show a text in any
  of their encodings as it was printed, and keys. \<open>Update_Check\<close>
  (\<^verbatim>\<open>update_check.rs\<close>, \<^verbatim>\<open>web_ui.rs\<close>): the cached question for a newer firmware, and cache headers.

  \<^bold>\<open>Firmware and images.\<close> \<open>Firmware_Version\<close>, \<open>Firmware_Sources\<close>, \<open>Firmware_Catalog\<close>, \<open>Firmware_Info\<close>
  (the files of these names in \<^verbatim>\<open>app/\<close>): versions and their order, where to look, the catalog with
  its refreshes as interleaved steps, and the two slots. \<open>Sdcard_Files\<close>: paths of a client stay on
  the card. \<open>Upgrade_Media\<close> and \<open>Upgrade_Worker\<close> (\<^verbatim>\<open>upgrade_worker.rs\<close>, \<^verbatim>\<open>utils/io.rs\<close>): staging, mounts,
  flashing, parking and updating, and that a copy checked against a published hash has read bytes with that hash.
  \<open>Transfer_Service\<close>, \<open>Transfer_Api\<close> (\<^verbatim>\<open>streaming_data_service.rs\<close>, \<^verbatim>\<open>transfer_action.rs\<close>): the
  transfers, of which one is current, and their request. \<open>Usb_Boot\<close> (\<^verbatim>\<open>usb_boot.rs\<close>, \<^verbatim>\<open>usb_boot/\<close>, parts of \<^verbatim>\<open>utils.rs\<close>): the
  device of a node, found on its own port within a bounded wait. \<open>Legacy_Api\<close>
  (\<^verbatim>\<open>api/legacy.rs\<close>, \<^verbatim>\<open>api/paths.rs\<close>): routes, guards and the handlers that change the board.

  \<^bold>\<open>Loops and bounds.\<close> The wait for a cold catalog has 2401 units of fuel: the polls every quarter of
  a second in the ten minutes a claim of a refresh holds, and one more, by which the loop has
  ended by itself (\<open>Firmware_Catalog\<close>). The wait for a USB device is a partial function; that it
  returns, within 61 looks in its fifteen seconds, is proved (\<open>Usb_Boot\<close>); the walk along symbolic links
  follows at most 40, as the kernel does (\<open>Sdcard_Files\<close>); every other loop is structural or has its
  measure.

  \<^bold>\<open>What goes wrong.\<close> Where the code does not do what it means to, the model follows the code and a
  lemma shows the case: a late end of a cancelled worker, an invalidation of another's claim, two
  overlapping changes of the power state, a write that ends the writer, an empty entry that hides
  the rest of a boot image, a line break in a new password, a chain lost on restart, a header that is
  written half, an update that may be staged and is written over, a change before the writer of
  the store has started, and others.

  \<^bold>\<open>Not modelled.\<close> The OpenAPI document and the shapes of the answers (\<^verbatim>\<open>api/openapi.rs\<close>,
  most of \<^verbatim>\<open>api/responses.rs\<close>) are declarations. The assembly of the servers in \<^verbatim>\<open>main.rs\<close>, the command line,
  logging but for the sink of the system log, reading \<^verbatim>\<open>config.yaml\<close>, the evdev listener, the inotify watch and the
  actix transforms are glue over other crates. The stand-in hardware (\<^verbatim>\<open>hal/stub\<close>) and the opening
  of GPIO chips have no logic of their own. Of the legacy endpoint the backup, the reload and
  the handlers that only pass on an answer are left out, as are log lines everywhere. The mode
  bits of files, disk flushes and the buffering of streams are below the level of the model.
\<close>

end
